(* ===== verification/Rate_Limiting.thy ===== *)
theory Rate_Limiting
  imports MP_Prelude
begin

text \<open>
  The in-memory limiters of \<open>crates/server/src/main.rs\<close>: \<open>RateLimiter\<close> (requests per
  minute and key), \<open>AdminLoginRateLimiter\<close> (failed administrator logins in fifteen
  minutes) and \<open>DiscoverableChallenges\<close> (anonymous passkey challenges).  Every method body
  runs under one mutex, so each is one atomic step on the state.

  The two limiters keep a deque of timestamps per key and prune it from the front.  The
  locale \<open>expiring_windows\<close> states what that pruning promises; \<open>window_log\<close> derives the
  relation between a pruned deque and the whole history of a key; both limiters interpret
  them, and refine a specification that never forgets a timestamp.
\<close>

type_synonym windows = "string \<rightharpoonup> instant list"

abbreviation window_of :: "windows \<Rightarrow> string \<Rightarrow> instant list" where
  "window_of m k \<equiv> (case m k of None \<Rightarrow> [] | Some w \<Rightarrow> w)"

section \<open>The limiters\<close>

text \<open>The \<open>while\<close> loop that pops expired timestamps from the front.\<close>

fun pop_expired :: "instant \<Rightarrow> instant list \<Rightarrow> instant list" where
  "pop_expired cutoff [] = []"
| "pop_expired cutoff (t # ts) = (if t \<le> cutoff then pop_expired cutoff ts else t # ts)"

text \<open>\<open>HashMap::retain\<close> with the closure of both limiters.\<close>

definition retain_windows :: "instant \<Rightarrow> windows \<Rightarrow> windows" where
  "retain_windows cutoff m =
     (\<lambda>k. case m k of None \<Rightarrow> None
        | Some w \<Rightarrow> (let w' = pop_expired cutoff w in if w' = [] then None else Some w'))"

record rate_limiter = rl_windows :: windows

definition RateLimiter_new :: rate_limiter where
  "RateLimiter_new = \<lparr>rl_windows = Map.empty\<rparr>"

definition RateLimiter_check ::
  "rate_limiter \<Rightarrow> string \<Rightarrow> nat \<Rightarrow> instant \<Rightarrow> rate_limiter \<times> bool" where
  "RateLimiter_check s key requests_per_minute now =
     (let cutoff = now - secs 60;
          windows = retain_windows cutoff (rl_windows s);
          window = pop_expired cutoff (window_of windows key)
      in if length window \<ge> requests_per_minute
         then (\<lparr>rl_windows = windows(key \<mapsto> window)\<rparr>, False)
         else (\<lparr>rl_windows = windows(key \<mapsto> window @ [now])\<rparr>, True))"

record login_limiter = ll_attempts :: windows

definition AdminLoginRateLimiter_new :: login_limiter where
  "AdminLoginRateLimiter_new = \<lparr>ll_attempts = Map.empty\<rparr>"

definition is_limited ::
  "login_limiter \<Rightarrow> string \<Rightarrow> nat \<Rightarrow> instant \<Rightarrow> login_limiter \<times> bool" where
  "is_limited s key limit now =
     (let cutoff = now - secs (15 * 60);
          attempts = retain_windows cutoff (ll_attempts s)
      in (\<lparr>ll_attempts = attempts\<rparr>, is_some_and (\<lambda>es. length es \<ge> limit) (attempts key)))"

definition login_record :: "login_limiter \<Rightarrow> string \<Rightarrow> instant \<Rightarrow> login_limiter" where
  "login_record s key now =
     \<lparr>ll_attempts = (ll_attempts s)(key \<mapsto> window_of (ll_attempts s) key @ [now])\<rparr>"

definition login_clear :: "login_limiter \<Rightarrow> string \<Rightarrow> login_limiter" where
  "login_clear s key = \<lparr>ll_attempts = (ll_attempts s)(key := None)\<rparr>"

section \<open>The contract of the pruning\<close>

locale expiring_windows =
  fixes retain :: "instant \<Rightarrow> windows \<Rightarrow> windows"
  assumes retain_entries:
      "sorted (window_of m k) \<Longrightarrow>
       window_of (retain c m) k = filter (\<lambda>t. c < t) (window_of m k)"
    and retain_nonempty: "retain c m k \<noteq> Some []"
begin

lemma retain_sorted: "sorted (window_of m k) \<Longrightarrow> sorted (window_of (retain c m) k)"
  by (simp add: retain_entries sorted_filter [where f = "\<lambda>x. x", simplified])

lemma retain_dom: "(\<And>k. sorted (window_of m k)) \<Longrightarrow> dom (retain c m) \<subseteq> dom m"
proof
  fix k
  assume s: "\<And>k. sorted (window_of m k)" and "k \<in> dom (retain c m)"
  then obtain w where w: "retain c m k = Some w" by blast
  with retain_nonempty [of c m k] have "w \<noteq> []" by auto
  with w s retain_entries [of m k c] show "k \<in> dom m"
    by (cases "m k") (auto)
qed

end

text \<open>
  A deque tracks a history when it holds exactly the timestamps of the history after some
  horizon, and nothing recorded later than the current time.
\<close>

definition tracks :: "windows \<Rightarrow> (string \<Rightarrow> instant list) \<Rightarrow> instant \<Rightarrow> instant \<Rightarrow> bool" where
  "tracks m h c now \<longleftrightarrow>
     (\<forall>k. sorted (h k) \<and> (\<forall>t \<in> set (h k). t \<le> now) \<and>
          window_of m k = filter (\<lambda>t. c < t) (h k))"

locale window_log = expiring_windows +
  fixes span :: int
  assumes span_nonneg: "0 \<le> span"
begin

lemma tracks_sorted: "tracks m h c now \<Longrightarrow> sorted (window_of m k)"
  by (simp add: tracks_def sorted_filter [where f = "\<lambda>x. x", simplified])

lemma tracks_retain:
  assumes "tracks m h c now" and "c \<le> c'"
  shows "tracks (retain c' m) h c' now"
proof -
  have "window_of (retain c' m) k = filter (\<lambda>t. c' < t) (h k)" for k
  proof -
    have "window_of (retain c' m) k = filter (\<lambda>t. c' < t) (window_of m k)"
      using assms(1) by (intro retain_entries tracks_sorted)
    also have "\<dots> = filter (\<lambda>t. c < t \<and> c' < t) (h k)"
      using assms(1) by (simp add: tracks_def conj_commute)
    also have "\<dots> = filter (\<lambda>t. c' < t) (h k)"
      using assms(2) by (intro filter_cong) auto
    finally show ?thesis .
  qed
  with assms(1) show ?thesis by (simp add: tracks_def)
qed

lemma tracks_record:
  assumes "tracks m h c now" and "now \<le> now'" and "c < now'"
  shows "tracks (m(k \<mapsto> window_of m k @ [now'])) (h(k := h k @ [now'])) c now'"
  using assms by (fastforce simp: tracks_def sorted_append)

lemma tracks_later: "tracks m h c now \<Longrightarrow> now \<le> now' \<Longrightarrow> tracks m h c now'"
  by (force simp: tracks_def)

lemma tracks_clear:
  "tracks m h c now \<Longrightarrow> tracks (m(k := None)) (h(k := [])) c now"
  by (simp add: tracks_def)

lemma tracks_touch:
  "tracks m h c now \<Longrightarrow> tracks (m(k \<mapsto> window_of m k)) h c now"
  by (simp add: tracks_def)

end

lemma pop_expired_dropWhile: "pop_expired c w = dropWhile (\<lambda>t. t \<le> c) w"
  by (induction w) auto

lemma pop_expired_sorted: "sorted w \<Longrightarrow> pop_expired c w = filter (\<lambda>t. c < t) w"
  by (simp add: pop_expired_dropWhile dropWhile_le_filter)

lemma retain_windows_entries:
  "sorted (window_of m k) \<Longrightarrow>
   window_of (retain_windows c m) k = filter (\<lambda>t. c < t) (window_of m k)"
  by (cases "m k") (auto simp: retain_windows_def Let_def pop_expired_sorted)

lemma retain_windows_nonempty: "retain_windows c m k \<noteq> Some []"
  by (auto simp: retain_windows_def Let_def split: option.splits if_splits)

interpretation rl: window_log retain_windows "secs 60"
  by unfold_locales (auto intro: retain_windows_entries simp: retain_windows_nonempty secs_def)

interpretation ll: window_log retain_windows "secs (15 * 60)"
  by unfold_locales (auto simp: secs_def)

section \<open>The rate limiter against a limiter that remembers everything\<close>

type_synonym history = "string \<Rightarrow> instant list"

text \<open>
  The abstract limiter: a request is admitted when fewer than the limit were admitted for
  its key in the sixty seconds before it.  An admitted request joins the history.
\<close>

definition spec_admits :: "history \<Rightarrow> string \<Rightarrow> nat \<Rightarrow> instant \<Rightarrow> bool" where
  "spec_admits h key limit now \<longleftrightarrow> length (filter (\<lambda>t. now - secs 60 < t) (h key)) < limit"

definition spec_check :: "history \<Rightarrow> string \<Rightarrow> nat \<Rightarrow> instant \<Rightarrow> history \<times> bool" where
  "spec_check h key limit now =
     (if spec_admits h key limit now then (h(key := h key @ [now]), True) else (h, False))"

lemma check_step:
  assumes t: "tracks (rl_windows s) h c now" and c: "c \<le> now' - secs 60" and n: "now \<le> now'"
  shows "snd (RateLimiter_check s key l now') = snd (spec_check h key l now') \<and>
         tracks (rl_windows (fst (RateLimiter_check s key l now')))
           (fst (spec_check h key l now')) (now' - secs 60) now'"
proof -
  let ?c = "now' - secs 60"
  let ?m = "retain_windows ?c (rl_windows s)"
  have tr: "tracks ?m h ?c now'"
    using t c n by (blast intro: rl.tracks_retain rl.tracks_later)
  then have w: "window_of ?m key = filter (\<lambda>t. ?c < t) (h key)"
    by (simp add: tracks_def)
  have p: "pop_expired ?c (window_of ?m key) = window_of ?m key"
    unfolding pop_expired_sorted [OF rl.tracks_sorted [OF tr]] by (simp add: w)
  have "?c < now'" by (simp add: secs_def)
  with tr have "tracks (?m(key \<mapsto> window_of ?m key @ [now'])) (h(key := h key @ [now'])) ?c now'"
    by (intro rl.tracks_record) auto
  with tr show ?thesis
    using rl.tracks_touch [OF tr, of key]
    by (simp add: RateLimiter_check_def Let_def spec_check_def spec_admits_def w
        p [unfolded w])
qed

text \<open>A sequence of calls, each a key, a limit and the time of the call.\<close>

fun check_run :: "rate_limiter \<Rightarrow> (string \<times> nat \<times> instant) list \<Rightarrow> rate_limiter \<times> bool list" where
  "check_run s [] = (s, [])"
| "check_run s ((k, l, now) # es) =
     (let (s', b) = RateLimiter_check s k l now; (s'', bs) = check_run s' es in (s'', b # bs))"

fun spec_run :: "history \<Rightarrow> (string \<times> nat \<times> instant) list \<Rightarrow> history \<times> bool list" where
  "spec_run h [] = (h, [])"
| "spec_run h ((k, l, now) # es) =
     (let (h', b) = spec_check h k l now; (h'', bs) = spec_run h' es in (h'', b # bs))"

abbreviation event_times :: "(string \<times> nat \<times> instant) list \<Rightarrow> instant list" where
  "event_times es \<equiv> map (\<lambda>(_, _, now). now) es"

lemma check_run_refines:
  assumes "tracks (rl_windows s) h (now - secs 60) now" and "sorted (now # event_times es)"
  shows "snd (check_run s es) = snd (spec_run h es)"
  using assms
proof (induction es arbitrary: s h now)
  case Nil
  then show ?case by simp
next
  case (Cons e es)
  obtain k l t where e: "e = (k, l, t)" by (cases e)
  from Cons.prems have "now \<le> t" and sr: "sorted (t # event_times es)" by (auto simp: e)
  with Cons.prems(1)
  have step: "snd (RateLimiter_check s k l t) = snd (spec_check h k l t)"
    and tr: "tracks (rl_windows (fst (RateLimiter_check s k l t))) (fst (spec_check h k l t)) (t - secs 60) t"
    using check_step [of s h "now - secs 60" now t k l] by auto
  from Cons.IH [OF tr sr] step show ?case
    by (simp add: e Let_def split_beta)
qed

lemma tracks_new: "tracks (rl_windows RateLimiter_new) (\<lambda>_. []) c now"
  by (simp add: tracks_def RateLimiter_new_def)

text \<open>
  Histories the abstract limiter can produce for one key: every admission saw fewer than
  the limit in its own window.
\<close>

inductive admissible :: "nat \<Rightarrow> instant list \<Rightarrow> bool" for l where
  start: "admissible l []"
| admit: "admissible l h \<Longrightarrow> length (filter (\<lambda>t. now - secs 60 < t) h) < l \<Longrightarrow>
    admissible l (h @ [now])"

lemma admissible_window:
  "admissible l h \<Longrightarrow> length (filter (\<lambda>s. t - secs 60 < s \<and> s \<le> t) h) \<le> l"
proof (induction rule: admissible.induct)
  case start
  then show ?case by simp
next
  case (admit h now)
  show ?case
  proof (cases "t - secs 60 < now \<and> now \<le> t")
    case True
    then have "length (filter (\<lambda>s. t - secs 60 < s \<and> s \<le> t) h)
        \<le> length (filter (\<lambda>s. now - secs 60 < s) h)"
      by (intro filter_length_mono) auto
    with admit.hyps(2) True show ?thesis by simp
  next
    case False
    with admit.IH show ?thesis by auto
  qed
qed

lemma admissible_mono: "admissible l h \<Longrightarrow> l \<le> l' \<Longrightarrow> admissible l' h"
  by (induction rule: admissible.induct) (auto intro: admissible.intros)

lemma spec_run_admissible:
  assumes "\<And>k. admissible L (h k)" and "\<forall>(k, l, now) \<in> set es. l \<le> L"
  shows "admissible L (fst (spec_run h es) k)"
  using assms
proof (induction es arbitrary: h)
  case Nil
  then show ?case by simp
next
  case (Cons e es)
  obtain q l t where e: "e = (q, l, t)" by (cases e)
  from Cons.prems have "admissible L (fst (spec_check h q l t) k')" for k'
    by (auto simp: e spec_check_def spec_admits_def intro: admissible.admit)
  from Cons.IH [OF this] Cons.prems(2) show ?case
    by (simp add: e Let_def split_beta)
qed

text \<open>The times at which the requests of one key were admitted, read off a run.\<close>

definition admitted :: "string \<Rightarrow> (string \<times> nat \<times> instant) list \<Rightarrow> bool list \<Rightarrow> instant list" where
  "admitted key es bs = map (\<lambda>((_, _, now), _). now) (filter (\<lambda>((k, _, _), b). b \<and> k = key) (zip es bs))"

lemma spec_run_admitted: "fst (spec_run h es) k = h k @ admitted k es (snd (spec_run h es))"
proof (induction es arbitrary: h)
  case Nil
  then show ?case by (simp add: admitted_def)
next
  case (Cons e es)
  obtain q l t where e: "e = (q, l, t)" by (cases e)
  obtain h' b where c: "spec_check h q l t = (h', b)" by (cases "spec_check h q l t")
  then have "h' k = (if b \<and> q = k then h k @ [t] else h k)"
    by (auto simp: spec_check_def split: if_splits)
  with Cons.IH [of h'] show ?case
    by (simp add: e c Let_def split_beta admitted_def)
qed

section \<open>The passkey challenges\<close>

record 'a challenges = pending :: "string \<rightharpoonup> instant \<times> 'a"

definition retain_pending :: "instant \<Rightarrow> (string \<rightharpoonup> instant \<times> 'a) \<Rightarrow> (string \<rightharpoonup> instant \<times> 'a)" where
  "retain_pending now m = (\<lambda>k. case m k of Some (e, a) \<Rightarrow> if now < e then Some (e, a) else None | None \<Rightarrow> None)"

text \<open>
  The identifier is \<open>discoverable-\<close> followed by a fresh UUID, which is an argument here.
\<close>

definition challenge_insert ::
  "'a challenges \<Rightarrow> 'a \<Rightarrow> string \<Rightarrow> instant \<Rightarrow> 'a challenges \<times> string option" where
  "challenge_insert s authentication uuid now =
     (let p = retain_pending now (pending s)
      in if card (dom p) \<ge> 1024 then (\<lparr>pending = p\<rparr>, None)
         else (let cid = ''discoverable-'' @ uuid
               in (\<lparr>pending = p(cid \<mapsto> (now + secs 300, authentication))\<rparr>, Some cid)))"

definition challenge_take ::
  "'a challenges \<Rightarrow> string \<Rightarrow> instant \<Rightarrow> 'a challenges \<times> 'a option" where
  "challenge_take s cid now =
     (case pending s cid of
        None \<Rightarrow> (s, None)
      | Some (expires, st) \<Rightarrow>
          (\<lparr>pending = (pending s)(cid := None)\<rparr>, if now < expires then Some st else None))"

lemma retain_pending_dom: "dom (retain_pending now m) \<subseteq> dom m"
  by (auto simp: retain_pending_def split: option.splits)

lemma retain_pending_live: "retain_pending now m k = Some (e, a) \<longleftrightarrow> m k = Some (e, a) \<and> now < e"
  by (auto simp: retain_pending_def split: option.splits)

datatype 'a challenge_op = Insert 'a string instant | Take string instant

fun challenge_step :: "'a challenges \<Rightarrow> 'a challenge_op \<Rightarrow> 'a challenges" where
  "challenge_step s (Insert a u now) = fst (challenge_insert s a u now)"
| "challenge_step s (Take i now) = fst (challenge_take s i now)"

definition challenges_inv :: "'a challenges \<Rightarrow> bool" where
  "challenges_inv s \<longleftrightarrow> finite (dom (pending s)) \<and> card (dom (pending s)) \<le> 1024"

lemma challenge_step_inv: "challenges_inv s \<Longrightarrow> challenges_inv (challenge_step s op)"
proof (cases op)
  case (Insert a u now)
  let ?p = "retain_pending now (pending s)"
  assume inv: "challenges_inv s"
  then have f: "finite (dom ?p)"
    by (meson challenges_inv_def finite_subset retain_pending_dom)
  have "card (dom ?p) \<le> 1024"
    using inv by (meson card_mono challenges_inv_def le_trans retain_pending_dom)
  with f show ?thesis
    by (auto simp: Insert challenges_inv_def challenge_insert_def Let_def card_insert_if)
next
  case (Take i now)
  assume inv: "challenges_inv s"
  show ?thesis
  proof (cases "pending s i")
    case None
    with inv show ?thesis by (simp add: Take challenge_take_def)
  next
    case (Some v)
    with inv show ?thesis
      by (auto simp: Take challenges_inv_def challenge_take_def split: prod.splits
          intro: le_trans [OF card_Diff1_le])
  qed
qed

lemma challenge_run_inv:
  "challenges_inv s \<Longrightarrow> challenges_inv (foldl challenge_step s ops)"
  by (induction ops arbitrary: s) (auto simp: challenge_step_inv)

section \<open>The login limiter over sequences of calls\<close>

datatype login_op = Record string instant | Clear string | Query string nat instant

fun login_step :: "login_limiter \<Rightarrow> login_op \<Rightarrow> login_limiter" where
  "login_step s (Record k now) = login_record s k now"
| "login_step s (Clear k) = login_clear s k"
| "login_step s (Query k l now) = fst (is_limited s k l now)"

text \<open>The specification: the failed attempts of a key since it was last cleared.\<close>

fun attempts_step :: "history \<Rightarrow> login_op \<Rightarrow> history" where
  "attempts_step h (Record k now) = h(k := h k @ [now])"
| "attempts_step h (Clear k) = h(k := [])"
| "attempts_step h (Query k l now) = h"

fun login_times :: "login_op list \<Rightarrow> instant list" where
  "login_times [] = []"
| "login_times (Record k now # ops) = now # login_times ops"
| "login_times (Clear k # ops) = login_times ops"
| "login_times (Query k l now # ops) = now # login_times ops"

lemma is_limited_answer:
  assumes "tracks (ll_attempts s) h c now" and "c \<le> now' - secs (15 * 60)" and "now \<le> now'"
  shows "snd (is_limited s key l now') \<longleftrightarrow>
     (let n = length (filter (\<lambda>t. now' - secs (15 * 60) < t) (h key)) in 0 < n \<and> l \<le> n)"
proof -
  let ?c = "now' - secs (15 * 60)"
  let ?m = "retain_windows ?c (ll_attempts s)"
  have "tracks ?m h ?c now'"
    using assms by (blast intro: ll.tracks_retain ll.tracks_later)
  then have w: "window_of ?m key = filter (\<lambda>t. ?c < t) (h key)"
    by (simp add: tracks_def)
  with retain_windows_nonempty [of ?c "ll_attempts s" key] show ?thesis
    by (cases "?m key") (auto simp: is_limited_def Let_def simp flip: w)
qed

lemma login_step_tracks:
  assumes "tracks (ll_attempts s) h c now" and "c \<le> now - secs (15 * 60)"
    and "sorted (now # login_times [op] @ rest)"
  shows "\<exists>c' now'. tracks (ll_attempts (login_step s op)) (attempts_step h op) c' now' \<and>
     c' \<le> now' - secs (15 * 60) \<and> sorted (now' # rest)"
proof (cases op)
  case (Record k t)
  have "tracks (ll_attempts (login_step s op)) (attempts_step h op) c t"
    using assms ll.tracks_record [of "ll_attempts s" h c now t k]
    by (auto simp: Record login_record_def secs_def)
  with assms show ?thesis by (intro exI [of _ c] exI [of _ t]) (auto simp: Record)
next
  case (Clear k)
  with assms show ?thesis
    by (intro exI [of _ c] exI [of _ now]) (auto simp: login_clear_def intro: ll.tracks_clear)
next
  case (Query k l t)
  have "tracks (ll_attempts (login_step s op)) (attempts_step h op) (t - secs (15 * 60)) t"
    using assms by (auto simp: Query is_limited_def Let_def intro: ll.tracks_retain ll.tracks_later)
  with assms show ?thesis
    by (intro exI [of _ "t - secs (15 * 60)"] exI [of _ t]) (auto simp: Query)
qed

lemma login_times_Cons: "login_times (op # ops) = login_times [op] @ login_times ops"
  by (cases op) simp_all

lemma login_run_tracks:
  assumes "tracks (ll_attempts s) h c now" and "c \<le> now - secs (15 * 60)"
    and "sorted (now # login_times ops @ [t])"
  shows "\<exists>c' now'. tracks (ll_attempts (foldl login_step s ops)) (foldl attempts_step h ops) c' now' \<and>
     c' \<le> now' - secs (15 * 60) \<and> now' \<le> t"
  using assms
proof (induction ops arbitrary: s h c now)
  case Nil
  then show ?case by auto
next
  case (Cons op ops)
  from Cons.prems(3) have "sorted (now # login_times [op] @ (login_times ops @ [t]))"
    by (simp only: login_times_Cons [of op ops] append_assoc)
  from login_step_tracks [OF Cons.prems(1,2) this]
  obtain c' now' where
    "tracks (ll_attempts (login_step s op)) (attempts_step h op) c' now'"
    "c' \<le> now' - secs (15 * 60)" "sorted (now' # login_times ops @ [t])"
    by blast
  from Cons.IH [OF this] show ?case by simp
qed

section \<open>Properties\<close>

text \<open>C26: Over any sequence of calls with non-decreasing clock readings, the pruned deques of
  the rate limiter give exactly the decisions of the limiter that keeps every admitted
  timestamp and counts those of the last sixty seconds.\<close>

theorem rate_limiter_refines_spec:
  assumes "sorted (event_times es)"
  shows "snd (check_run RateLimiter_new es) = snd (spec_run (\<lambda>_. []) es)"
proof (cases es)
  case Nil
  then show ?thesis by simp
next
  case (Cons e es')
  obtain k l now where e: "e = (k, l, now)" by (cases e)
  from assms Cons e have "sorted (now # event_times es)" by auto
  then show ?thesis by (intro check_run_refines [where now = now] tracks_new)
qed

theorem rate_limiter_refines_spec_witness:
  "snd (check_run RateLimiter_new [(''a'', 1, 0), (''a'', 1, 5), (''a'', 1, secs 61)]) =
   [True, False, True]"
  by (subst rate_limiter_refines_spec) (simp_all add: secs_def spec_check_def spec_admits_def)

text \<open>The limit holds on every sliding window, not only on aligned minutes: with
  non-decreasing clock readings and limits of at most \<open>L\<close>, no interval of sixty seconds
  contains more than \<open>L\<close> admitted requests of one key.\<close>

theorem rate_limiter_window_bound:
  assumes "sorted (event_times es)" and "\<forall>(k, l, now) \<in> set es. l \<le> L"
  shows "length (filter (\<lambda>s. t - secs 60 < s \<and> s \<le> t)
           (admitted key es (snd (check_run RateLimiter_new es)))) \<le> L"
proof -
  have "snd (check_run RateLimiter_new es) = snd (spec_run (\<lambda>_. []) es)"
    using assms(1) by (cases es) (auto intro!: check_run_refines tracks_new simp del: check_run.simps spec_run.simps)
  moreover have "admissible L (fst (spec_run (\<lambda>_. []) es) key)"
    using assms(2) by (intro spec_run_admissible) (auto intro: admissible.start)
  ultimately show ?thesis
    using admissible_window [of L "admitted key es (snd (spec_run (\<lambda>_. []) es))" t]
    by (simp add: spec_run_admitted)
qed

text \<open>A check leaves in memory only the key it was called for and keys with an admitted
  request in the last sixty seconds: idle keys are dropped, whatever was tracked before.\<close>

lemma rate_limiter_forgets_idle_keys:
  assumes "\<And>k. sorted (window_of (rl_windows s) k)"
    and "k \<in> dom (rl_windows (fst (RateLimiter_check s key l now)))"
  shows "k = key \<or> (\<exists>t \<in> set (window_of (rl_windows s) k). now - secs 60 < t)"
proof -
  let ?m = "retain_windows (now - secs 60) (rl_windows s)"
  from assms(2) have "k = key \<or> k \<in> dom ?m"
    by (auto simp: RateLimiter_check_def Let_def split: if_splits)
  moreover have "\<exists>t \<in> set (window_of (rl_windows s) k). now - secs 60 < t" if "k \<in> dom ?m"
  proof -
    from that obtain w where "?m k = Some w" by blast
    with retain_windows_nonempty [of _ _ k] have "window_of ?m k \<noteq> []" by auto
    then show ?thesis
      using assms(1) by (simp add: retain_windows_entries filter_empty_conv)
  qed
  ultimately show ?thesis by blast
qed

text \<open>With non-decreasing clock readings, the administrator login limiter refuses a
  login exactly when the key has recorded at least the limit (and at least one) failed
  attempt since it was last cleared, within the last fifteen minutes.\<close>

theorem login_limiter_counts_recent_failures:
  assumes "sorted (login_times ops @ [now])"
  shows "snd (is_limited (foldl login_step AdminLoginRateLimiter_new ops) key limit now) \<longleftrightarrow>
     (let n = length (filter (\<lambda>t. now - secs (15 * 60) < t) (foldl attempts_step (\<lambda>_. []) ops key))
      in 0 < n \<and> limit \<le> n)"
proof -
  define t0 where "t0 = hd (login_times ops @ [now])"
  have "sorted (t0 # login_times ops @ [now])"
    using assms by (cases "login_times ops") (auto simp: t0_def)
  moreover have "tracks (ll_attempts AdminLoginRateLimiter_new) (\<lambda>_. []) (t0 - secs (15 * 60)) t0"
    by (simp add: tracks_def AdminLoginRateLimiter_new_def)
  ultimately obtain c' now' where
    "tracks (ll_attempts (foldl login_step AdminLoginRateLimiter_new ops)) (foldl attempts_step (\<lambda>_. []) ops) c' now'"
    "c' \<le> now' - secs (15 * 60)" "now' \<le> now"
    using login_run_tracks by blast
  then show ?thesis by (intro is_limited_answer) auto
qed

text \<open>A passkey challenge can be taken once: after an insertion, taking it within five
  minutes returns the stored state, and a second take of the same identifier returns
  nothing at any time.\<close>

theorem challenge_single_use:
  assumes "challenge_insert s a uuid now = (s', Some cid)" and "now' < now + secs 300"
  shows "snd (challenge_take s' cid now') = Some a \<and>
         snd (challenge_take (fst (challenge_take s' cid now')) cid now'') = None"
proof -
  from assms(1) have "pending s' cid = Some (now + secs 300, a)"
    by (auto simp: challenge_insert_def Let_def split: if_splits)
  with assms(2) show ?thesis by (simp add: challenge_take_def)
qed

text \<open>Anonymous clients cannot grow the challenge table: after any sequence of
  insertions and takes it holds at most 1024 entries.\<close>

theorem challenges_bounded:
  "challenges_inv (foldl challenge_step \<lparr>pending = Map.empty\<rparr> ops)"
  by (rule challenge_run_inv) (simp add: challenges_inv_def)

end
