(* ===== verification/Ip_Access.thy ===== *)
theory Ip_Access
  imports MP_Prelude "HOL-Library.Word"
begin

unbundle bit_operations_syntax

text \<open>
  IP addresses and the decisions taken on them: the parsers of \<open>std::net\<close> the sources
  call, trusted proxies (\<open>config.rs\<close>), access rules (\<open>geoip.rs\<close>), the client address
  behind a chain of proxies (\<open>main.rs\<close>) and the address classes that outgoing requests
  may reach (\<open>proxy/oci.rs\<close>, \<open>geoip.rs\<close>).  The locale \<open>ip_networks\<close> is the contract
  both CIDR implementations of the program keep.
\<close>

datatype ip_addr = V4 "32 word" | V6 "128 word"

fun is_ipv4 :: "ip_addr \<Rightarrow> bool" where
  "is_ipv4 (V4 _) = True"
| "is_ipv4 (V6 _) = False"

section \<open>Parsing addresses\<close>

text \<open>
  \<open>Ipv4Addr::from_str\<close>: four decimal octets of one to three digits, no leading zero.
\<close>

definition parse_octet :: "string \<Rightarrow> nat option" where
  "parse_octet s =
     (if s \<noteq> [] \<and> length s \<le> 3 \<and> list_all is_digit s \<and> (length s = 1 \<or> hd s \<noteq> CHR ''0'')
         \<and> digits_val s \<le> 255
      then Some (digits_val s) else None)"

definition parse_ipv4 :: "string \<Rightarrow> 32 word option" where
  "parse_ipv4 s =
     (case map parse_octet (split_on (CHR ''.'') s) of
        [Some a, Some b, Some c, Some d] \<Rightarrow>
          Some (word_of_nat (((a * 256 + b) * 256 + c) * 256 + d))
      | _ \<Rightarrow> None)"

definition is_hex :: "char \<Rightarrow> bool" where
  "is_hex c \<longleftrightarrow> is_digit c \<or> (97 \<le> (of_char (ascii_lower c) :: nat) \<and> (of_char (ascii_lower c) :: nat) \<le> 102)"

definition hex_val :: "char \<Rightarrow> nat" where
  "hex_val c = (if is_digit c then digit_val c else (of_char (ascii_lower c) :: nat) - 87)"

definition parse_hex_group :: "string \<Rightarrow> nat option" where
  "parse_hex_group s =
     (if s \<noteq> [] \<and> length s \<le> 4 \<and> list_all is_hex s
      then Some (foldl (\<lambda>a c. a * 16 + hex_val c) 0 s) else None)"

text \<open>The groups between colons; the last may be an embedded IPv4 address, worth two.\<close>

fun parse_groups :: "bool \<Rightarrow> string list \<Rightarrow> nat list option" where
  "parse_groups v4 [] = Some []"
| "parse_groups v4 [s] =
     (case parse_hex_group s of
        Some g \<Rightarrow> Some [g]
      | None \<Rightarrow> if v4 then map_option (\<lambda>a. [unat a div 65536, unat a mod 65536]) (parse_ipv4 s) else None)"
| "parse_groups v4 (s # t # ts) =
     (case parse_hex_group s of Some g \<Rightarrow> map_option ((#) g) (parse_groups v4 (t # ts)) | None \<Rightarrow> None)"

definition groups_of :: "bool \<Rightarrow> string \<Rightarrow> nat list option" where
  "groups_of v4 s = (if s = [] then Some [] else parse_groups v4 (split_on (CHR '':'') s))"

fun split_double_colon :: "string \<Rightarrow> (string \<times> string) option" where
  "split_double_colon [] = None"
| "split_double_colon (x # xs) =
     (if starts_with (x # xs) ''::'' then Some ([], tl xs)
      else map_option (\<lambda>(a, b). (x # a, b)) (split_double_colon xs))"

definition ipv6_of_groups :: "nat list \<Rightarrow> 128 word" where
  "ipv6_of_groups gs = word_of_nat (foldl (\<lambda>a g. a * 65536 + g) 0 gs)"

text \<open>
  \<open>Ipv6Addr::from_str\<close>: eight groups, or two runs around one \<open>::\<close> that stands for at
  least one group; an embedded IPv4 address may only end the address.
\<close>

definition parse_ipv6 :: "string \<Rightarrow> 128 word option" where
  "parse_ipv6 s =
     (case split_double_colon s of
        None \<Rightarrow>
          (case groups_of True s of
             Some gs \<Rightarrow> if length gs = 8 then Some (ipv6_of_groups gs) else None
           | None \<Rightarrow> None)
      | Some (h, t) \<Rightarrow>
          (case (groups_of False h, groups_of True t) of
             (Some a, Some b) \<Rightarrow>
               if length a + length b \<le> 7
               then Some (ipv6_of_groups (a @ replicate (8 - length a - length b) 0 @ b)) else None
           | _ \<Rightarrow> None))"

definition parse_ip :: "string \<Rightarrow> ip_addr option" where
  "parse_ip s =
     (case parse_ipv4 s of Some a \<Rightarrow> Some (V4 a) | None \<Rightarrow> map_option V6 (parse_ipv6 s))"

text \<open>
  \<open>SocketAddr::from_str\<close>, of which only the address is used: \<open>a.b.c.d:port\<close> or
  \<open>[v6]:port\<close>, the latter with an optional numeric scope after a percent sign.
\<close>

definition port_ok :: "string \<Rightarrow> bool" where
  "port_ok s \<longleftrightarrow> s \<noteq> [] \<and> list_all is_digit s \<and> digits_val s \<le> 65535"

definition scope_ok :: "string \<Rightarrow> bool" where
  "scope_ok s \<longleftrightarrow> s \<noteq> [] \<and> list_all is_digit s \<and> digits_val s \<le> U32_MAX"

definition parse_socket_ip :: "string \<Rightarrow> ip_addr option" where
  "parse_socket_ip s =
     (case s of
        CHR ''['' # r \<Rightarrow>
          (case split_once (CHR '']'') r of
             Some (a, CHR '':'' # p) \<Rightarrow>
               if port_ok p
               then (case split_once (CHR ''%'') a of
                       None \<Rightarrow> map_option V6 (parse_ipv6 a)
                     | Some (b, sc) \<Rightarrow> if scope_ok sc then map_option V6 (parse_ipv6 b) else None)
               else None
           | _ \<Rightarrow> None)
      | _ \<Rightarrow>
          (case split_once (CHR '':'') s of
             Some (a, p) \<Rightarrow> if port_ok p then map_option V4 (parse_ipv4 a) else None
           | None \<Rightarrow> None))"

definition parse_forwarded_ip :: "string \<Rightarrow> ip_addr option" where
  "parse_forwarded_ip value =
     (case parse_ip value of Some a \<Rightarrow> Some a | None \<Rightarrow> parse_socket_ip value)"

section \<open>Networks\<close>

definition prefix_mask32 :: "nat \<Rightarrow> 32 word" where
  "prefix_mask32 prefix = (if prefix = 0 then 0 else push_bit (32 - prefix) (- 1))"

definition prefix_mask128 :: "nat \<Rightarrow> 128 word" where
  "prefix_mask128 prefix = (if prefix = 0 then 0 else push_bit (128 - prefix) (- 1))"

subsection \<open>Trusted proxies (config.rs)\<close>

datatype trusted_proxy = TrustedV4 "32 word" nat | TrustedV6 "128 word" nat

fun TrustedProxy_contains :: "trusted_proxy \<Rightarrow> ip_addr \<Rightarrow> bool" where
  "TrustedProxy_contains (TrustedV4 network prefix) (V4 address) =
     (address AND prefix_mask32 prefix = network AND prefix_mask32 prefix)"
| "TrustedProxy_contains (TrustedV6 network prefix) (V6 address) =
     (address AND prefix_mask128 prefix = network AND prefix_mask128 prefix)"
| "TrustedProxy_contains _ _ = False"

definition parse_trusted_proxy :: "string \<Rightarrow> string + trusted_proxy" where
  "parse_trusted_proxy value =
     (let (address, prefix) =
            (case split_once (CHR ''/'') (trim value) of
               Some (a, p) \<Rightarrow> (a, Some p) | None \<Rightarrow> (trim value, None))
      in bindr (ok_or ''expected an IP address or CIDR range'' (parse_ip address)) (\<lambda>address.
         case address of
           V4 a \<Rightarrow>
             bindr (ok_or ''invalid IPv4 prefix'' (case prefix of None \<Rightarrow> Some 32 | Some p \<Rightarrow> parse_uint 255 p)) (\<lambda>p.
             if p > 32 then Inl ''IPv4 prefix must be between 0 and 32'' else Inr (TrustedV4 a p))
         | V6 a \<Rightarrow>
             bindr (ok_or ''invalid IPv6 prefix'' (case prefix of None \<Rightarrow> Some 128 | Some p \<Rightarrow> parse_uint 255 p)) (\<lambda>p.
             if p > 128 then Inl ''IPv6 prefix must be between 0 and 128'' else Inr (TrustedV6 a p))))"

definition is_trusted_proxy :: "string list \<Rightarrow> ip_addr \<Rightarrow> bool" where
  "is_trusted_proxy trusted_proxies address =
     list_ex (\<lambda>proxy. case parse_trusted_proxy proxy of
        Inr network \<Rightarrow> TrustedProxy_contains network address | Inl _ \<Rightarrow> False) trusted_proxies"

subsection \<open>Access rules (geoip.rs)\<close>

record ip_network =
  network :: ip_addr
  prefix :: nat

datatype ip_rule_error = AddrParse | PrefixParse | PrefixTooLong nat | UnsupportedAction string

fun mask_ip :: "ip_addr \<Rightarrow> nat \<Rightarrow> ip_addr" where
  "mask_ip (V4 ip) p = V4 (ip AND prefix_mask32 p)"
| "mask_ip (V6 ip) p = V6 (ip AND prefix_mask128 p)"

definition max_prefix :: "ip_addr \<Rightarrow> nat" where
  "max_prefix ip = (if is_ipv4 ip then 32 else 128)"

definition IpNetwork_parse :: "string \<Rightarrow> ip_rule_error + (ip_network \<times> bool)" where
  "IpNetwork_parse value =
     bindr (case split_once (CHR ''/'') (trim value) of
        Some (ip, p) \<Rightarrow>
          bindr (ok_or AddrParse (parse_ip ip)) (\<lambda>ip.
          bindr (ok_or PrefixParse (parse_uint 255 p)) (\<lambda>p. Inr (ip, p, False)))
      | None \<Rightarrow>
          bindr (ok_or AddrParse (parse_ip (trim value))) (\<lambda>ip. Inr (ip, max_prefix ip, True)))
     (\<lambda>(ip, p, exact).
        if p > max_prefix ip then Inl (PrefixTooLong (max_prefix ip))
        else Inr (\<lparr>network = mask_ip ip p, prefix = p\<rparr>, exact))"

definition IpNetwork_contains :: "ip_network \<Rightarrow> ip_addr \<Rightarrow> bool" where
  "IpNetwork_contains n ip =
     (if is_ipv4 (network n) \<noteq> is_ipv4 ip then False else mask_ip ip (prefix n) = network n)"

datatype access_decision = Allow | DenyRule | AllowlistRequired

record ip_access_policy =
  allow :: "ip_network list"
  deny :: "ip_network list"

fun compile_rules ::
  "ip_access_policy \<Rightarrow> (string \<times> string \<times> bool) list \<Rightarrow> ip_rule_error + ip_access_policy" where
  "compile_rules policy [] = Inr policy"
| "compile_rules policy ((action, net, enabled) # rules) =
     (if \<not> enabled then compile_rules policy rules
      else bindr (IpNetwork_parse net) (\<lambda>(n, _).
        if action = ''allow'' then compile_rules (policy\<lparr>allow := allow policy @ [n]\<rparr>) rules
        else if action = ''deny'' then compile_rules (policy\<lparr>deny := deny policy @ [n]\<rparr>) rules
        else Inl (UnsupportedAction action)))"

definition IpAccessPolicy_compile :: "(string \<times> string \<times> bool) list \<Rightarrow> ip_rule_error + ip_access_policy" where
  "IpAccessPolicy_compile rules = compile_rules \<lparr>allow = [], deny = []\<rparr> rules"

definition decide :: "ip_access_policy \<Rightarrow> ip_addr \<Rightarrow> access_decision" where
  "decide policy ip =
     (if list_ex (\<lambda>n. IpNetwork_contains n ip) (deny policy) then DenyRule
      else if allow policy \<noteq> [] \<and> \<not> list_ex (\<lambda>n. IpNetwork_contains n ip) (allow policy)
      then AllowlistRequired else Allow)"

section \<open>The client address behind trusted proxies (main.rs)\<close>

text \<open>The loop over the forwarded addresses, rightmost first.\<close>

fun walk_forwarded :: "(ip_addr \<Rightarrow> bool) \<Rightarrow> ip_addr \<Rightarrow> ip_addr list \<Rightarrow> ip_addr" where
  "walk_forwarded trusted current [] = current"
| "walk_forwarded trusted current (candidate # rest) =
     (if \<not> trusted current then current else walk_forwarded trusted candidate rest)"

text \<open>
  The \<open>x-forwarded-for\<close> value is \<^const>\<open>None\<close> when the header is absent or not text.
\<close>

definition resolve_client_ip_from :: "string list \<Rightarrow> ip_addr \<Rightarrow> string option \<Rightarrow> ip_addr" where
  "resolve_client_ip_from trusted_proxies peer forwarded_for =
     (if \<not> is_trusted_proxy trusted_proxies peer then peer
      else case forwarded_for of
        None \<Rightarrow> peer
      | Some value \<Rightarrow>
          (case collect_opt (map (\<lambda>s. parse_forwarded_ip (trim s)) (split_on (CHR '','') value)) of
             None \<Rightarrow> peer
           | Some addresses \<Rightarrow> walk_forwarded (is_trusted_proxy trusted_proxies) peer (rev addresses)))"

section \<open>Address classes\<close>

definition octet :: "32 word \<Rightarrow> nat \<Rightarrow> nat" where
  "octet a i = unat a div 256 ^ (3 - i) mod 256"

definition segment :: "128 word \<Rightarrow> nat \<Rightarrow> nat" where
  "segment a i = unat a div 65536 ^ (7 - i) mod 65536"

text \<open>The address predicates of \<open>std::net\<close> that the sources use.\<close>

definition v4_is_private :: "32 word \<Rightarrow> bool" where
  "v4_is_private a \<longleftrightarrow> octet a 0 = 10 \<or> (octet a 0 = 172 \<and> 16 \<le> octet a 1 \<and> octet a 1 \<le> 31)
     \<or> (octet a 0 = 192 \<and> octet a 1 = 168)"

definition v4_is_documentation :: "32 word \<Rightarrow> bool" where
  "v4_is_documentation a \<longleftrightarrow>
     (octet a 0 = 192 \<and> octet a 1 = 0 \<and> octet a 2 = 2)
     \<or> (octet a 0 = 198 \<and> octet a 1 = 51 \<and> octet a 2 = 100)
     \<or> (octet a 0 = 203 \<and> octet a 1 = 0 \<and> octet a 2 = 113)"

definition v4_is_multicast :: "32 word \<Rightarrow> bool" where
  "v4_is_multicast a \<longleftrightarrow> 224 \<le> octet a 0 \<and> octet a 0 \<le> 239"

definition v6_is_multicast :: "128 word \<Rightarrow> bool" where
  "v6_is_multicast a \<longleftrightarrow> segment a 0 div 256 = 255"

definition v6_is_unique_local :: "128 word \<Rightarrow> bool" where
  "v6_is_unique_local a \<longleftrightarrow> segment a 0 div 512 = 126"

definition v6_is_link_local :: "128 word \<Rightarrow> bool" where
  "v6_is_link_local a \<longleftrightarrow> segment a 0 div 64 = 1018"

definition to_ipv4_mapped :: "128 word \<Rightarrow> 32 word option" where
  "to_ipv4_mapped a = (if unat a div 4294967296 = 65535 then Some (word_of_nat (unat a mod 4294967296)) else None)"

fun is_public_ip :: "ip_addr \<Rightarrow> bool" where
  "is_public_ip (V4 ip) =
     (\<not> (v4_is_private ip \<or> octet ip 0 = 127 \<or> (octet ip 0 = 169 \<and> octet ip 1 = 254)
        \<or> ip = - 1 \<or> v4_is_documentation ip \<or> ip = 0 \<or> v4_is_multicast ip))"
| "is_public_ip (V6 ip) =
     (\<not> (ip = 1 \<or> ip = 0 \<or> v6_is_multicast ip
        \<or> segment ip 0 div 512 = 126 \<or> segment ip 0 div 64 = 1018))"

definition v4_is_public_address :: "32 word \<Rightarrow> bool" where
  "v4_is_public_address a =
     (let first = octet a 0; second = octet a 1; third = octet a 2
      in \<not> (first = 0 \<or> first = 10 \<or> first = 127
         \<or> (first = 100 \<and> 64 \<le> second \<and> second \<le> 127)
         \<or> (first = 169 \<and> second = 254)
         \<or> (first = 172 \<and> 16 \<le> second \<and> second \<le> 31)
         \<or> (first = 192 \<and> second = 0 \<and> third = 0)
         \<or> (first = 192 \<and> second = 0 \<and> third = 2)
         \<or> (first = 192 \<and> second = 88 \<and> third = 99)
         \<or> (first = 192 \<and> second = 168)
         \<or> (first = 198 \<and> (second = 18 \<or> second = 19))
         \<or> (first = 198 \<and> second = 51 \<and> third = 100)
         \<or> (first = 203 \<and> second = 0 \<and> third = 113)
         \<or> first \<ge> 224))"

fun is_public_address :: "ip_addr \<Rightarrow> bool" where
  "is_public_address (V4 a) = v4_is_public_address a"
| "is_public_address (V6 a) =
     (\<not> (a = 1 \<or> a = 0 \<or> v6_is_multicast a \<or> v6_is_unique_local a \<or> v6_is_link_local a
        \<or> (segment a 0 = 8193 \<and> segment a 1 = 3512)
        \<or> (segment a 0 = 8193 \<and> segment a 1 = 2)
        \<or> (segment a 0 = 256 \<and> segment a 1 = 0 \<and> segment a 2 = 0 \<and> segment a 3 = 0))
      \<and> (case to_ipv4_mapped a of None \<Rightarrow> True | Some m \<Rightarrow> v4_is_public_address m))"

section \<open>The contract of a CIDR implementation\<close>

text \<open>The text of a rule, read as an address and a prefix length.\<close>

definition cidr_of :: "string \<Rightarrow> (ip_addr \<times> nat) option" where
  "cidr_of value =
     (let (a, p) = (case split_once (CHR ''/'') (trim value) of
            Some (a, p) \<Rightarrow> (a, Some p) | None \<Rightarrow> (trim value, None))
      in case parse_ip a of
           None \<Rightarrow> None
         | Some ip \<Rightarrow>
             (case (case p of None \<Rightarrow> Some (max_prefix ip) | Some q \<Rightarrow> parse_uint 255 q) of
                None \<Rightarrow> None
              | Some n \<Rightarrow> if n \<le> max_prefix ip then Some (ip, n) else None))"

text \<open>Membership: the same family, and the same leading bits.\<close>

fun in_cidr :: "ip_addr \<Rightarrow> nat \<Rightarrow> ip_addr \<Rightarrow> bool" where
  "in_cidr (V4 n) p (V4 a) \<longleftrightarrow> drop_bit (32 - p) a = drop_bit (32 - p) n"
| "in_cidr (V6 n) p (V6 a) \<longleftrightarrow> drop_bit (128 - p) a = drop_bit (128 - p) n"
| "in_cidr _ _ _ \<longleftrightarrow> False"

lemma and_push_bit_eq_iff:
  fixes a b :: "'a::len word"
  shows "a AND push_bit k (- 1) = b AND push_bit k (- 1) \<longleftrightarrow> drop_bit k a = drop_bit k b"
proof
  assume l: "a AND push_bit k (- 1) = b AND push_bit k (- 1)"
  show "drop_bit k a = drop_bit k b"
  proof (rule bit_word_eqI)
    fix j
    assume j: "j < LENGTH('a)"
    have "bit (a AND push_bit k (- 1)) (k + j) = bit (b AND push_bit k (- 1)) (k + j)"
      using l by simp
    then show "bit (drop_bit k a) j = bit (drop_bit k b) j"
      by (cases "k + j < LENGTH('a)")
         (auto simp: bit_simps dest: bit_imp_le_length)
  qed
next
  assume r: "drop_bit k a = drop_bit k b"
  show "a AND push_bit k (- 1) = b AND push_bit k (- 1)"
  proof (rule bit_word_eqI)
    fix i
    have "k \<le> i \<Longrightarrow> bit a i = bit b i"
      using r by (metis bit_drop_bit_eq le_add_diff_inverse comp_apply)
    then show "bit (a AND push_bit k (- 1)) i = bit (b AND push_bit k (- 1)) i"
      by (auto simp: bit_simps)
  qed
qed

lemma drop_bit_length [simp]: "drop_bit LENGTH('a) (a :: 'a::len word) = 0"
  by (rule bit_word_eqI) (auto simp: bit_simps dest: bit_imp_le_length)

lemma mask32_eq_iff:
  "a AND prefix_mask32 p = b AND prefix_mask32 p \<longleftrightarrow> drop_bit (32 - p) a = drop_bit (32 - p) b"
proof (cases "p = 0")
  case True
  then show ?thesis using drop_bit_length [where 'a = 32] by (simp add: prefix_mask32_def)
next
  case False
  then show ?thesis by (simp only: prefix_mask32_def if_False and_push_bit_eq_iff)
qed

lemma mask128_eq_iff:
  "a AND prefix_mask128 p = b AND prefix_mask128 p \<longleftrightarrow> drop_bit (128 - p) a = drop_bit (128 - p) b"
proof (cases "p = 0")
  case True
  then show ?thesis using drop_bit_length [where 'a = 128] by (simp add: prefix_mask128_def)
next
  case False
  then show ?thesis by (simp only: prefix_mask128_def if_False and_push_bit_eq_iff)
qed

locale ip_networks =
  fixes parse :: "string \<Rightarrow> 'n option"
    and contains :: "'n \<Rightarrow> ip_addr \<Rightarrow> bool"
  assumes parse_sound:
      "parse v = Some n \<Longrightarrow> \<exists>ip p. cidr_of v = Some (ip, p) \<and> (\<forall>a. contains n a \<longleftrightarrow> in_cidr ip p a)"
    and parse_complete: "cidr_of v \<noteq> None \<Longrightarrow> parse v \<noteq> None"
begin

lemma parse_None_iff: "parse v = None \<longleftrightarrow> cidr_of v = None"
  using parse_sound [of v] parse_complete [of v] by (cases "parse v"; cases "cidr_of v") auto

lemma contains_iff: "parse v = Some n \<Longrightarrow> cidr_of v = Some (ip, p) \<Longrightarrow> contains n a \<longleftrightarrow> in_cidr ip p a"
  using parse_sound [of v n] by auto

lemma contains_family: "parse v = Some n \<Longrightarrow> cidr_of v = Some (ip, p) \<Longrightarrow> contains n a \<Longrightarrow> is_ipv4 a = is_ipv4 ip"
  using contains_iff by (cases ip; cases a) auto

lemma matches_any_iff:
  "list_ex (\<lambda>v. case parse v of Some n \<Rightarrow> contains n a | None \<Rightarrow> False) vs \<longleftrightarrow>
   (\<exists>v \<in> set vs. \<exists>ip p. cidr_of v = Some (ip, p) \<and> in_cidr ip p a)"
proof -
  have "(case parse v of Some n \<Rightarrow> contains n a | None \<Rightarrow> False) \<longleftrightarrow>
      (\<exists>ip p. cidr_of v = Some (ip, p) \<and> in_cidr ip p a)" for v
  proof (cases "parse v")
    case None
    with parse_None_iff [of v] show ?thesis by simp
  next
    case (Some n)
    from parse_sound [OF Some] obtain ip p where
      "cidr_of v = Some (ip, p)" "\<forall>a. contains n a = in_cidr ip p a" by blast
    with Some show ?thesis by simp
  qed
  then show ?thesis by (simp add: list_ex_iff)
qed

end

locale ip_networks_pair = A: ip_networks parse1 contains1 + B: ip_networks parse2 contains2
  for parse1 :: "string \<Rightarrow> 'n option" and contains1 and parse2 :: "string \<Rightarrow> 'm option" and contains2
begin

lemma same_language: "parse1 v = None \<longleftrightarrow> parse2 v = None"
  by (simp add: A.parse_None_iff B.parse_None_iff)

lemma same_members: "parse1 v = Some n \<Longrightarrow> parse2 v = Some m \<Longrightarrow> contains1 n a \<longleftrightarrow> contains2 m a"
  using A.parse_sound [of v n] B.parse_sound [of v m] by auto

end

definition trusted_parse :: "string \<Rightarrow> trusted_proxy option" where
  "trusted_parse v = (case parse_trusted_proxy v of Inr n \<Rightarrow> Some n | Inl _ \<Rightarrow> None)"

definition network_parse :: "string \<Rightarrow> ip_network option" where
  "network_parse v = (case IpNetwork_parse v of Inr (n, _) \<Rightarrow> Some n | Inl _ \<Rightarrow> None)"

text \<open>Address and optional prefix text of a rule.\<close>

definition cidr_parts :: "string \<Rightarrow> string \<times> string option" where
  "cidr_parts v = (case split_once (CHR ''/'') (trim v) of
     Some (a, p) \<Rightarrow> (a, Some p) | None \<Rightarrow> (trim v, None))"

lemma trusted_parse_eq:
  "trusted_parse v = (case cidr_of v of
     Some (V4 a, p) \<Rightarrow> Some (TrustedV4 a p) | Some (V6 a, p) \<Rightarrow> Some (TrustedV6 a p) | None \<Rightarrow> None)"
proof -
  obtain a p where ap: "cidr_parts v = (a, p)" by (cases "cidr_parts v")
  show ?thesis
    unfolding trusted_parse_def parse_trusted_proxy_def cidr_of_def cidr_parts_def [symmetric] ap Let_def
    by (cases "parse_ip a"; cases p; cases "the (parse_ip a)")
       (simp_all add: max_prefix_def ok_or_def split: ip_addr.splits option.splits)
qed

lemma network_parse_eq:
  "network_parse v = map_option (\<lambda>(ip, p). \<lparr>network = mask_ip ip p, prefix = p\<rparr>) (cidr_of v)"
  by (auto simp: network_parse_def IpNetwork_parse_def cidr_of_def Let_def ok_or_def bindr_def
      split: option.splits)

lemma mask_ip_eq_iff: "is_ipv4 n = is_ipv4 a \<Longrightarrow> mask_ip a p = mask_ip n p \<longleftrightarrow> in_cidr n p a"
  by (cases n; cases a) (auto simp: mask32_eq_iff mask128_eq_iff)

lemma mask_ip_family [simp]: "is_ipv4 (mask_ip a p) = is_ipv4 a"
  by (cases a) auto

lemma in_cidr_family: "in_cidr n p a \<Longrightarrow> is_ipv4 n = is_ipv4 a"
  by (cases n; cases a) auto

interpretation tp: ip_networks trusted_parse TrustedProxy_contains
proof
  fix v n
  assume "trusted_parse v = Some n"
  then obtain ip p where c: "cidr_of v = Some (ip, p)"
    and n: "n = (case ip of V4 a \<Rightarrow> TrustedV4 a p | V6 a \<Rightarrow> TrustedV6 a p)"
    by (auto simp: trusted_parse_eq split: option.splits prod.splits ip_addr.splits)
  have "TrustedProxy_contains n a \<longleftrightarrow> in_cidr ip p a" for a
    by (cases ip; cases a) (auto simp: n mask32_eq_iff mask128_eq_iff)
  with c show "\<exists>ip p. cidr_of v = Some (ip, p) \<and> (\<forall>a. TrustedProxy_contains n a \<longleftrightarrow> in_cidr ip p a)"
    by blast
qed (auto simp: trusted_parse_eq split: ip_addr.splits)

interpretation nw: ip_networks network_parse IpNetwork_contains
proof
  fix v n
  assume "network_parse v = Some n"
  then obtain ip p where c: "cidr_of v = Some (ip, p)" and n: "n = \<lparr>network = mask_ip ip p, prefix = p\<rparr>"
    by (auto simp: network_parse_eq)
  have "IpNetwork_contains n a \<longleftrightarrow> in_cidr ip p a" for a
    using mask_ip_eq_iff [of ip a p] in_cidr_family [of ip p a]
    by (auto simp: n IpNetwork_contains_def)
  with c show "\<exists>ip p. cidr_of v = Some (ip, p) \<and> (\<forall>a. IpNetwork_contains n a \<longleftrightarrow> in_cidr ip p a)"
    by blast
qed (auto simp: network_parse_eq)

interpretation tpnw: ip_networks_pair trusted_parse TrustedProxy_contains network_parse IpNetwork_contains
  by unfold_locales

section \<open>Lemmas on the decisions\<close>

lemma is_trusted_proxy_iff:
  "is_trusted_proxy ps a \<longleftrightarrow> (\<exists>v \<in> set ps. \<exists>ip p. cidr_of v = Some (ip, p) \<and> in_cidr ip p a)"
proof -
  have "is_trusted_proxy ps a =
      list_ex (\<lambda>v. case trusted_parse v of Some n \<Rightarrow> TrustedProxy_contains n a | None \<Rightarrow> False) ps"
    by (induction ps) (auto simp: is_trusted_proxy_def trusted_parse_def split: sum.splits)
  then show ?thesis by (simp add: tp.matches_any_iff)
qed

text \<open>The networks of the enabled rules with one action.\<close>

definition rule_networks :: "string \<Rightarrow> (string \<times> string \<times> bool) list \<Rightarrow> ip_network list" where
  "rule_networks act rules =
     List.map_filter (\<lambda>(action, net, enabled). if enabled \<and> action = act then network_parse net else None) rules"

lemma rule_networks_Cons:
  "rule_networks act ((action, net, enabled) # rules) =
     (if enabled \<and> action = act
      then (case network_parse net of Some n \<Rightarrow> n # rule_networks act rules | None \<Rightarrow> rule_networks act rules)
      else rule_networks act rules)"
  by (auto simp: rule_networks_def map_filter_simps split: option.splits)

lemma compile_rules_networks:
  "compile_rules policy rules = Inr q \<Longrightarrow>
   allow q = allow policy @ rule_networks ''allow'' rules \<and>
   deny q = deny policy @ rule_networks ''deny'' rules"
proof (induction policy rules rule: compile_rules.induct)
  case (1 policy)
  then show ?case by (simp add: rule_networks_def map_filter_simps)
next
  case (2 policy action net enabled rules)
  show ?case
  proof (cases enabled)
    case False
    with 2 show ?thesis by (simp add: rule_networks_Cons)
  next
    case True
    with "2.prems" obtain n ex where n: "IpNetwork_parse net = Inr (n, ex)"
      by (auto simp: bindr_eq_Inr)
    then have "network_parse net = Some n" by (simp add: network_parse_def)
    with True n "2.prems" "2.IH"(2,3) [of n] show ?thesis
      by (cases "action = ''allow''"; cases "action = ''deny''") (simp_all add: rule_networks_Cons)
  qed
qed

lemma compile_rules_empty:
  assumes "compile_rules policy rules = Inr q"
  shows "rule_networks ''allow'' rules = [] \<longleftrightarrow> (\<forall>net. (''allow'', net, True) \<notin> set rules)"
  using assms
proof (induction policy rules rule: compile_rules.induct)
  case (1 policy)
  then show ?case by (simp add: rule_networks_def map_filter_simps)
next
  case (2 policy action net enabled rules)
  show ?case
  proof (cases enabled)
    case False
    with 2 show ?thesis by (simp add: rule_networks_Cons)
  next
    case True
    with "2.prems" obtain n ex where n: "IpNetwork_parse net = Inr (n, ex)"
      by (auto simp: bindr_eq_Inr)
    then have "network_parse net = Some n" by (simp add: network_parse_def)
    with True n "2.prems" "2.IH"(2,3) [of n] show ?thesis
      by (cases "action = ''allow''"; cases "action = ''deny''") (auto simp: rule_networks_Cons)
  qed
qed

lemma rule_networks_any:
  "list_ex (\<lambda>n. IpNetwork_contains n a) (rule_networks act rules) \<longleftrightarrow>
   (\<exists>net. (act, net, True) \<in> set rules \<and> (\<exists>ip p. cidr_of net = Some (ip, p) \<and> in_cidr ip p a))"
proof (induction rules)
  case Nil
  then show ?case by (simp add: rule_networks_def map_filter_simps)
next
  case (Cons r rules)
  obtain action net enabled where r: "r = (action, net, enabled)" by (cases r)
  have "(case network_parse net of Some n \<Rightarrow> IpNetwork_contains n a | None \<Rightarrow> False) \<longleftrightarrow>
      (\<exists>ip p. cidr_of net = Some (ip, p) \<and> in_cidr ip p a)"
    using nw.matches_any_iff [of a "[net]"] by simp
  with Cons.IH show ?case
    by (cases "network_parse net") (auto simp: r rule_networks_Cons)
qed

lemma walk_forwarded_find:
  "walk_forwarded trusted c xs =
     (case find (\<lambda>a. \<not> trusted a) (c # xs) of Some a \<Rightarrow> a | None \<Rightarrow> last (c # xs))"
  by (induction xs arbitrary: c) (auto split: option.splits)

lemma walk_forwarded_stop:
  assumes "trusted c" and "\<forall>y \<in> set ys. trusted y" and "\<not> trusted a"
  shows "walk_forwarded trusted c (ys @ a # xs) = a"
  using assms by (induction ys arbitrary: c) (auto split: list.splits, (cases xs; simp)+)

lemma public_not_private: "v4_is_public_address a \<Longrightarrow> \<not> v4_is_private a"
  unfolding v4_is_public_address_def v4_is_private_def Let_def by blast

lemma public_not_documentation: "v4_is_public_address a \<Longrightarrow> \<not> v4_is_documentation a"
  unfolding v4_is_public_address_def v4_is_documentation_def Let_def by blast

lemma public_first_octet: "v4_is_public_address a \<Longrightarrow> octet a 0 \<noteq> 0 \<and> octet a 0 < 224"
  unfolding v4_is_public_address_def Let_def de_Morgan_disj not_le by (elim conjE) (intro conjI)

lemma public_not_multicast: "v4_is_public_address a \<Longrightarrow> \<not> v4_is_multicast a"
  using public_first_octet [of a] by (simp add: v4_is_multicast_def)

lemma public_not_local:
  "v4_is_public_address a \<Longrightarrow> octet a 0 \<noteq> 127 \<and> \<not> (octet a 0 = 169 \<and> octet a 1 = 254)"
  unfolding v4_is_public_address_def Let_def de_Morgan_disj by (elim conjE) (intro conjI)

section \<open>Properties\<close>

text \<open>A rule admits exactly the addresses of its family that agree with its address on
  the leading bits of its prefix: the shift-and-mask code of \<open>TrustedProxy\<close> is CIDR
  membership, for every textual rule list.\<close>

theorem trusted_proxy_is_cidr_membership:
  "is_trusted_proxy proxies a \<longleftrightarrow>
     (\<exists>v \<in> set proxies. \<exists>ip p. cidr_of v = Some (ip, p) \<and> in_cidr ip p a)"
  by (rule is_trusted_proxy_iff)

text \<open>The two CIDR implementations of the program, \<open>TrustedProxy\<close> of the configuration
  and \<open>IpNetwork\<close> of the access rules, accept the same texts and contain the same
  addresses.\<close>

theorem cidr_implementations_agree:
  "(trusted_parse v = None \<longleftrightarrow> network_parse v = None) \<and>
   (\<forall>n m. trusted_parse v = Some n \<longrightarrow> network_parse v = Some m \<longrightarrow>
      (\<forall>a. TrustedProxy_contains n a \<longleftrightarrow> IpNetwork_contains m a))"
  using tpnw.same_language [of v] tpnw.same_members [of v] by blast

text \<open>A compiled access policy allows an address exactly when no enabled deny rule
  covers it and, if there is an enabled allow rule at all, one of them does; so the order
  of the rules and the disabled rules do not matter.\<close>

theorem access_policy_decision:
  assumes "IpAccessPolicy_compile rules = Inr policy"
  shows "decide policy a = Allow \<longleftrightarrow>
     \<not> (\<exists>net. (''deny'', net, True) \<in> set rules \<and> (\<exists>ip p. cidr_of net = Some (ip, p) \<and> in_cidr ip p a)) \<and>
     ((\<forall>net. (''allow'', net, True) \<notin> set rules) \<or>
      (\<exists>net. (''allow'', net, True) \<in> set rules \<and> (\<exists>ip p. cidr_of net = Some (ip, p) \<and> in_cidr ip p a)))"
proof -
  have al: "allow policy = rule_networks ''allow'' rules" and dn: "deny policy = rule_networks ''deny'' rules"
    using compile_rules_networks [OF assms [unfolded IpAccessPolicy_compile_def]] by simp_all
  have "rule_networks ''allow'' rules = [] \<longleftrightarrow> (\<forall>net. (''allow'', net, True) \<notin> set rules)"
    using assms unfolding IpAccessPolicy_compile_def
    by (rule compile_rules_empty)
  then show ?thesis
    unfolding decide_def al dn rule_networks_any by auto
qed



text \<open>The destinations an outgoing request may be redirected to are a subset of the
  addresses GeoIP treats as public, and for an IPv4-mapped IPv6 address the class of the
  embedded IPv4 address decides.\<close>

theorem public_address_classes:
  "(is_public_address ip \<longrightarrow> is_public_ip ip) \<and>
   (\<forall>a m. to_ipv4_mapped a = Some m \<longrightarrow> is_public_address (V6 a) \<longrightarrow> is_public_address (V4 m))"
proof (intro conjI)
  show "is_public_address ip \<longrightarrow> is_public_ip ip"
  proof (cases ip)
    case (V4 a)
    have "octet (- 1) 0 = 255" "octet 0 0 = 0" by code_simp+
    then have "v4_is_public_address a \<Longrightarrow> a \<noteq> - 1 \<and> a \<noteq> 0"
      using public_first_octet [of a] by auto
    then show ?thesis
      using public_not_private [of a] public_not_documentation [of a] public_not_local [of a]
        public_not_multicast [of a]
      by (auto simp: V4)
  next
    case (V6 a)
    then show ?thesis by (auto simp: v6_is_unique_local_def v6_is_link_local_def)
  qed
qed auto

end
