(* ===== verification/Catalog_Systems.thy ===== *)
theory Catalog_Systems
  imports MP_Prelude
begin

text \<open>
  The catalogue of operating systems (\<open>crates/catalog/src/systems.rs\<close>): the supported
  distributions with the version ranges their adapters accept, and the repository roots
  they use.  The server takes the built-in upstreams of \<open>additional_os\<close> from it.
\<close>

section \<open>Data\<close>

datatype SystemFormat = Apt | Rpm | Pacman | Apk | Gentoo | Nix | Xbps

fun SystemFormat_as_str :: "SystemFormat \<Rightarrow> string" where
  "SystemFormat_as_str Apt = ''apt''"
| "SystemFormat_as_str Rpm = ''rpm''"
| "SystemFormat_as_str Pacman = ''pacman''"
| "SystemFormat_as_str Apk = ''apk''"
| "SystemFormat_as_str Gentoo = ''gentoo''"
| "SystemFormat_as_str Nix = ''nix''"
| "SystemFormat_as_str Xbps = ''xbps''"

record SystemDistribution =
  sd_code :: string
  sd_name :: string
  sd_ids :: "string list"
  sd_versions :: string
  sd_format :: SystemFormat
  sd_repositories :: "string list"

definition distro where
  "distro code nm ids versions fmt repositories =
     \<lparr>sd_code = code, sd_name = nm, sd_ids = ids, sd_versions = versions, sd_format = fmt,
      sd_repositories = repositories\<rparr>"

definition SYSTEM_DISTRIBUTIONS :: "SystemDistribution list" where
  "SYSTEM_DISTRIBUTIONS = [
      distro ''debian'' ''Debian'' [''debian''] ''8-14'' Apt [''debian'', ''debian-security'',
        ''debian-archive'', ''debian-security-archive''],
      distro ''ubuntu'' ''Ubuntu'' [''ubuntu''] ''14-26'' Apt [''ubuntu'', ''ubuntu-security'',
        ''ubuntu-ports'', ''ubuntu-old''],
      distro ''kali'' ''Kali Linux'' [''kali''] ''rolling'' Apt [''kali''],
      distro ''linuxmint'' ''Linux Mint / LMDE'' [''linuxmint'', ''lmde''] ''19-22 / LMDE 6-7''
        Apt [''linuxmint'', ''ubuntu'', ''ubuntu-security'', ''ubuntu-ports'', ''ubuntu-old'',
        ''debian'', ''debian-security'', ''debian-archive'', ''debian-security-archive''],
      distro ''deepin'' ''Deepin'' [''deepin''] ''all'' Apt [''deepin-root''],
      distro ''zorin'' ''Zorin OS'' [''zorin''] ''all'' Apt [''ubuntu'', ''ubuntu-security'',
        ''ubuntu-ports'', ''ubuntu-old''],
      distro ''armbian'' ''Armbian'' [''armbian''] ''all'' Apt [''armbian'', ''ubuntu'',
        ''ubuntu-security'', ''ubuntu-ports'', ''ubuntu-old'', ''debian'', ''debian-security'',
        ''debian-archive'', ''debian-security-archive''],
      distro ''proxmox'' ''Proxmox VE'' [''proxmox'', ''pve''] ''all'' Apt [''proxmox'',
        ''debian'', ''debian-security'', ''debian-archive'', ''debian-security-archive''],
      distro ''raspios'' ''Raspberry Pi OS'' [''raspbian'', ''raspios''] ''all'' Apt
        [''raspios'', ''raspbian'', ''debian'', ''debian-security'', ''debian-archive'',
        ''debian-security-archive''],
      distro ''rhel'' ''Red Hat Enterprise Linux'' [''rhel''] 
       ''7-10 (customer mirror required)'' Rpm [''rhel'', ''epel'', ''epel-next'', ''epel-archive''],
      distro ''fedora'' ''Fedora'' [''fedora''] ''30-44'' Rpm [''fedora'', ''fedora-archive''],
      distro ''centos'' ''CentOS'' [''centos''] ''7-8'' Rpm [''centos-vault'', ''epel'',
        ''epel-next'', ''epel-archive''],
      distro ''centos-stream'' ''CentOS Stream'' [''centos-stream''] ''8-10'' Rpm
        [''centos-stream'', ''centos-vault'', ''epel'', ''epel-next'', ''epel-archive''],
      distro ''rocky'' ''Rocky Linux'' [''rocky''] ''8-10'' Rpm [''rocky'', ''epel'',
        ''epel-next'', ''epel-archive''],
      distro ''alma'' ''AlmaLinux'' [''almalinux'', ''alma''] ''8-10'' Rpm [''alma'',
        ''alma-vault'', ''epel'', ''epel-next'', ''epel-archive''],
      distro ''oraclelinux'' ''Oracle Linux'' [''ol'', ''oraclelinux''] ''8-10'' Rpm
        [''oraclelinux'', ''epel'', ''epel-next'', ''epel-archive''],
      distro ''openeuler'' ''openEuler'' [''openeuler''] ''20-26'' Rpm [''openeuler''],
      distro ''opencloudos'' ''OpenCloudOS'' [''opencloudos''] ''8.6-9 / Stream 23'' Rpm
        [''opencloudos'', ''opencloudos-stream''],
      distro ''openkylin'' ''openKylin'' [''openkylin''] ''all'' Apt [''openkylin''],
      distro ''anolis'' ''Anolis OS'' [''anolis''] ''8 / 23'' Rpm [''anolis''],
      distro ''opensuse'' ''openSUSE Leap / Tumbleweed'' [''opensuse-leap'',
        ''opensuse-tumbleweed'', ''opensuse''] ''Leap 15-16 / Tumbleweed'' Rpm [''opensuse''],
      distro ''archlinux'' ''Arch Linux'' [''arch'', ''archarm''] ''rolling'' Pacman
        [''archlinux'', ''archlinuxarm''],
      distro ''manjaro'' ''Manjaro'' [''manjaro''] ''rolling'' Pacman [''manjaro''],
      distro ''endeavouros'' ''EndeavourOS'' [''endeavouros''] ''rolling'' Pacman
        [''archlinux'', ''endeavouros''],
      distro ''alpine'' ''Alpine Linux'' [''alpine''] ''v3 / edge'' Apk [''alpine''],
      distro ''gentoo'' ''Gentoo'' [''gentoo''] ''all'' Gentoo [''gentoo''],
      distro ''nixos'' ''NixOS'' [''nixos''] ''19-26'' Nix [''nix-store'', ''nix-channels''],
      distro ''void'' ''Void Linux'' [''void''] ''rolling'' Xbps [''void'']]"

record SystemRepository =
  sr_code :: string
  sr_upstream :: string
  sr_mirror_path :: string
  sr_aliases :: "string list"

definition repo where
  "repo code upstream path aliases =
     \<lparr>sr_code = code, sr_upstream = upstream, sr_mirror_path = path, sr_aliases = aliases\<rparr>"

definition SYSTEM_REPOSITORIES :: "SystemRepository list" where
  "SYSTEM_REPOSITORIES = [
      repo ''epel'' ''https://dl.fedoraproject.org/pub/epel'' ''epel''
        [''https://download.fedoraproject.org/pub/epel''],
      repo ''epel-next'' ''https://dl.fedoraproject.org/pub/epel/next'' ''epel/next''
        [''https://download.fedoraproject.org/pub/epel/next''],
      repo ''epel-archive'' ''https://archives.fedoraproject.org/pub/archive/epel''
        ''epel-archive'' [''https://dl.fedoraproject.org/pub/archive/epel''],
      repo ''alma-vault'' ''https://vault.almalinux.org'' ''almalinux-vault''
        [''https://repo.almalinux.org/vault''],
      repo ''docker-ce'' ''https://download.docker.com'' ''docker-ce'' [],
      repo ''debian'' ''https://deb.debian.org/debian'' ''debian''
        [''https://ftp.debian.org/debian''],
      repo ''debian-security'' ''https://security.debian.org/debian-security''
        ''debian-security'' [''https://deb.debian.org/debian-security'',
        ''https://security.debian.org''],
      repo ''debian-archive'' ''https://archive.debian.org/debian'' ''debian-archive/debian'' [],
      repo ''debian-security-archive'' ''https://archive.debian.org/debian-security''
        ''debian-archive/debian-security'' [],
      repo ''ubuntu'' ''https://archive.ubuntu.com/ubuntu'' ''ubuntu'' [],
      repo ''ubuntu-security'' ''https://security.ubuntu.com/ubuntu'' ''ubuntu'' [],
      repo ''ubuntu-ports'' ''https://ports.ubuntu.com/ubuntu-ports'' ''ubuntu-ports'' [],
      repo ''ubuntu-old'' ''https://old-releases.ubuntu.com/ubuntu'' ''ubuntu-old-releases'' [],
      repo ''kali'' ''https://kali.download/kali'' ''kali'' [''https://http.kali.org/kali'',
        ''https://http.kali.org''],
      repo ''linuxmint'' ''https://packages.linuxmint.com'' ''linuxmint-packages'' [],
      repo ''deepin-root'' ''https://community-packages.deepin.com'' ''deepin''
        [''https://packages.deepin.com/deepin''],
      repo ''armbian'' ''https://apt.armbian.com'' ''armbian'' [],
      repo ''proxmox'' ''https://download.proxmox.com/debian'' ''proxmox/debian'' [],
      repo ''raspios'' ''https://archive.raspberrypi.com/debian'' ''raspberrypi''
        [''https://archive.raspberrypi.org/debian''],
      repo ''raspbian'' ''https://raspbian.raspberrypi.com/raspbian'' ''raspbian/raspbian''
        [''https://raspbian.raspberrypi.org/raspbian'', ''https://raspbian.raspberrypi.com''],
      repo ''rhel'' '''' ''rhel'' [''https://cdn.redhat.com''],
      repo ''fedora'' ''https://dl.fedoraproject.org/pub/fedora/linux'' ''fedora''
        [''https://download.fedoraproject.org/pub/fedora/linux''],
      repo ''fedora-archive'' ''https://archives.fedoraproject.org/pub/archive/fedora/linux''
        ''fedora-archive'' [],
      repo ''centos-vault'' ''https://vault.centos.org'' ''centos-vault''
        [''https://mirror.centos.org/centos'', ''https://mirror.centos.org/$contentdir'',
        ''https://mirror.centos.org/altarch'', ''https://vault.centos.org/centos''],
      repo ''centos-stream'' ''https://mirror.stream.centos.org'' ''centos-stream'' [],
      repo ''rocky'' ''https://dl.rockylinux.org/pub/rocky'' ''rocky''
        [''https://dl.rockylinux.org/$contentdir''],
      repo ''alma'' ''https://repo.almalinux.org/almalinux'' ''almalinux'' [],
      repo ''oraclelinux'' ''https://yum.oracle.com/repo'' ''oraclelinux''
        [''https://yum$ociregion.$ocidomain/repo'',
        ''https://yum${ociregion}.${ocidomain}/repo''],
      repo ''openeuler'' ''https://repo.openeuler.org'' ''openeuler'' [],
      repo ''opencloudos'' ''https://mirrors.opencloudos.tech/opencloudos'' ''opencloudos''
        [''https://mirrors.tencent.com/opencloudos''],
      repo ''opencloudos-stream'' ''https://mirrors.opencloudos.tech/opencloudos-stream''
        ''opencloudos-stream'' [],
      repo ''openkylin'' ''https://archive.build.openkylin.top/openkylin'' ''openkylin'' [],
      repo ''anolis'' ''https://mirrors.openanolis.cn/anolis'' ''anolis'' [],
      repo ''opensuse'' ''https://download.opensuse.org'' ''opensuse''
        [''https://cdn.opensuse.org''],
      repo ''archlinuxarm'' ''https://mirror.archlinuxarm.org'' ''archlinuxarm'' [],
      repo ''archlinux'' ''https://geo.mirror.pkgbuild.com'' ''archlinux'' [],
      repo ''manjaro'' ''https://repo.manjaro.org/repo'' ''manjaro'' [],
      repo ''endeavouros'' ''https://mirrors.alpix.eu/endeavouros/repo'' ''endeavouros/repo'' [],
      repo ''alpine'' ''https://dl-cdn.alpinelinux.org/alpine'' ''alpine''
        [''https://dl-1.alpinelinux.org/alpine'', ''https://dl-2.alpinelinux.org/alpine''],
      repo ''gentoo'' ''https://distfiles.gentoo.org'' ''gentoo'' [],
      repo ''nix-store'' ''https://cache.nixos.org'' ''nix-channels/store'' [],
      repo ''nix-channels'' ''https://channels.nixos.org'' ''nix-channels''
        [''https://nixos.org/channels''],
      repo ''void'' ''https://repo-default.voidlinux.org'' ''voidlinux''
        [''https://repo-us.voidlinux.org'', ''https://repo-de.voidlinux.org'',
        ''https://alpha.de.repo.voidlinux.org'']]"

section \<open>Lookups\<close>

definition system_distribution :: "string \<Rightarrow> SystemDistribution option" where
  "system_distribution code =
     find (\<lambda>d. sd_code d = code \<or> list_ex (\<lambda>i. eq_ignore_ascii_case i code) (sd_ids d)) SYSTEM_DISTRIBUTIONS"

definition system_repository :: "string \<Rightarrow> SystemRepository option" where
  "system_repository code = find (\<lambda>r. sr_code r = code) SYSTEM_REPOSITORIES"

definition version_major :: "string \<Rightarrow> nat option" where
  "version_major version =
     parse_uint U32_MAX (hd (split_on (CHR ''.'') (trim_start_matches (CHR ''v'') version)))"

definition version_minor :: "string \<Rightarrow> nat option" where
  "version_minor version =
     (case split_on (CHR ''.'') version of _ # m # _ \<Rightarrow> parse_uint U32_MAX m | _ \<Rightarrow> None)"

definition supports_version :: "SystemDistribution \<Rightarrow> string \<Rightarrow> string \<Rightarrow> bool" where
  "supports_version d version nm =
     (let major = version_major version;
          within = (\<lambda>lo hi. is_some_and (\<lambda>n. lo \<le> n \<and> n \<le> hi) major);
          code = sd_code d
      in if code = ''debian'' then
           within 8 14 \<or> version \<in> set [''jessie'', ''stretch'', ''buster'', ''bullseye'', ''bookworm'',
             ''trixie'', ''forky'', ''sid'', ''testing'']
         else if code = ''ubuntu'' then within 14 26
         else if code = ''linuxmint'' \<and> (contains_str nm ''LMDE'' \<or> eq_ignore_ascii_case nm ''lmde'') then within 6 7
         else if code = ''linuxmint'' then within 19 22
         else if code = ''rhel'' then within 7 10
         else if code = ''fedora'' then within 30 44
         else if code = ''centos'' then within 7 8
         else if code \<in> set [''centos-stream'', ''rocky'', ''alma'', ''oraclelinux''] then within 8 10
         else if code = ''openeuler'' then within 20 26
         else if code = ''opencloudos'' then
           within 9 9 \<or> within 23 23 \<or> (major = Some 8 \<and> is_some_and (\<lambda>n. n \<ge> 6) (version_minor version))
         else if code = ''anolis'' then major = Some 8 \<or> major = Some 23
         else if code = ''opensuse'' then within 15 16 \<or> contains_str (to_ascii_lowercase nm) ''tumbleweed''
         else if code = ''alpine'' then major = Some 3 \<or> version = ''edge''
         else if code = ''nixos'' then within 19 26
         else True)"

section \<open>Consistency\<close>

definition catalog_closed :: bool where
  "catalog_closed =
     (distinct (map sd_code SYSTEM_DISTRIBUTIONS) \<and> distinct (map sr_code SYSTEM_REPOSITORIES) \<and>
      list_all (\<lambda>d. list_all (\<lambda>key. system_repository key \<noteq> None) (sd_repositories d)) SYSTEM_DISTRIBUTIONS)"

lemma catalog_closed_holds: catalog_closed
  by code_simp

lemma find_code_distinct:
  assumes "distinct (map f xs)" and "x \<in> set xs"
  shows "find (\<lambda>y. f y = f x) xs = Some x"
  using assms by (induction xs) auto

lemma system_repository_lookup:
  assumes "r \<in> set SYSTEM_REPOSITORIES"
  shows "system_repository (sr_code r) = Some r"
  unfolding system_repository_def
  by (rule find_code_distinct [OF _ assms]) (use catalog_closed_holds in \<open>simp add: catalog_closed_def\<close>)

text \<open>The catalogue is closed: every repository key a distribution lists resolves to
  exactly one entry of the repository table, the entry that carries that key.\<close>

theorem distribution_repositories_resolve:
  assumes "d \<in> set SYSTEM_DISTRIBUTIONS" and "key \<in> set (sd_repositories d)"
  shows "\<exists>!r. r \<in> set SYSTEM_REPOSITORIES \<and> sr_code r = key \<and> system_repository key = Some r"
proof -
  have "system_repository key \<noteq> None"
    using catalog_closed_holds assms by (auto simp: catalog_closed_def list_all_iff)
  then obtain r where r: "system_repository key = Some r" by blast
  then have "r \<in> set SYSTEM_REPOSITORIES \<and> sr_code r = key"
    by (auto simp: system_repository_def find_Some_iff)
  with r show ?thesis by auto
qed

end
