(* ===== verification/Http_Types.thy ===== *)
theory Http_Types
  imports MP_Prelude
begin

text \<open>
  The HTTP vocabulary of the server.  A \<open>Url\<close> is the record of what its accessors return;
  the functions of the \<open>url\<close> crate that build or change one (parsing, joining, setting the
  path or the query) are not part of the repository, so they are fields of a parameter of
  type \<open>url_lib\<close>, and what the program relies on is the predicate \<open>url_lib_ok\<close>.  A
  \<open>HeaderMap\<close> is the multimap it is documented to be: names in lower case, values in
  insertion order.
\<close>

section \<open>Methods, headers\<close>

datatype http_method = GET | HEAD | POST | PUT | PATCH | DELETE | OtherMethod string

definition hdr_get_all :: "header_map \<Rightarrow> string \<Rightarrow> string list" where
  "hdr_get_all h name = map snd (filter (\<lambda>(n, _). n = to_ascii_lowercase name) h)"

definition hdr_get :: "header_map \<Rightarrow> string \<Rightarrow> string option" where
  "hdr_get h name = (case hdr_get_all h name of [] \<Rightarrow> None | v # _ \<Rightarrow> Some v)"

definition hdr_contains :: "header_map \<Rightarrow> string \<Rightarrow> bool" where
  "hdr_contains h name \<longleftrightarrow> hdr_get_all h name \<noteq> []"

definition hdr_remove :: "string \<Rightarrow> header_map \<Rightarrow> header_map" where
  "hdr_remove name h = filter (\<lambda>(n, _). n \<noteq> to_ascii_lowercase name) h"

definition hdr_insert :: "string \<Rightarrow> string \<Rightarrow> header_map \<Rightarrow> header_map" where
  "hdr_insert name v h = hdr_remove name h @ [(to_ascii_lowercase name, v)]"

definition hdr_append :: "string \<Rightarrow> string \<Rightarrow> header_map \<Rightarrow> header_map" where
  "hdr_append name v h = h @ [(to_ascii_lowercase name, v)]"

text \<open>\<open>HeaderValue::to_str\<close>: only visible ASCII and tab are text.\<close>

definition visible :: "char \<Rightarrow> bool" where
  "visible c \<longleftrightarrow> c = CHR 0x09 \<or> (32 \<le> (of_char c :: nat) \<and> (of_char c :: nat) < 127)"

definition to_str :: "string \<Rightarrow> string option" where
  "to_str v = (if list_all visible v then Some v else None)"

definition hdr_str :: "header_map \<Rightarrow> string \<Rightarrow> string option" where
  "hdr_str h name = Option.bind (hdr_get h name) to_str"

lemma hdr_get_all_remove:
  "hdr_get_all (hdr_remove n h) m =
     (if to_ascii_lowercase n = to_ascii_lowercase m then [] else hdr_get_all h m)"
  by (auto simp: hdr_get_all_def hdr_remove_def filter_empty_conv intro!: arg_cong [where f = "map snd"] filter_cong)

lemma hdr_get_all_append [simp]: "hdr_get_all (a @ b) m = hdr_get_all a m @ hdr_get_all b m"
  by (simp add: hdr_get_all_def)

lemma hdr_get_all_Cons:
  "hdr_get_all ((n, v) # h) m = (if n = to_ascii_lowercase m then v # hdr_get_all h m else hdr_get_all h m)"
  by (simp add: hdr_get_all_def)

lemma hdr_get_all_Nil [simp]: "hdr_get_all [] m = []"
  by (simp add: hdr_get_all_def)

lemma hdr_get_remove:
  "hdr_get (hdr_remove n h) m =
     (if to_ascii_lowercase n = to_ascii_lowercase m then None else hdr_get h m)"
  by (simp add: hdr_get_def hdr_get_all_remove)

lemma hdr_get_None_iff: "hdr_get h m = None \<longleftrightarrow> \<not> hdr_contains h m"
  by (simp add: hdr_get_def hdr_contains_def split: list.splits)

lemma hdr_contains_iff: "hdr_contains h m \<longleftrightarrow> (\<exists>v. (to_ascii_lowercase m, v) \<in> set h)"
  by (auto simp: hdr_contains_def hdr_get_all_def filter_empty_conv)

section \<open>URLs\<close>

record url =
  u_scheme :: string
  u_username :: string
  u_password :: "string option"
  u_host :: "string option"
  u_port :: "nat option"
  u_known_port :: "nat option"
  u_path :: string
  u_query :: "string option"
  u_fragment :: "string option"
  u_str :: string

text \<open>The parameter: functions of the \<open>url\<close> crate.\<close>

record url_lib =
  url_parse :: "string \<Rightarrow> url option"
  url_join :: "url \<Rightarrow> string \<Rightarrow> url option"
  url_set_path :: "url \<Rightarrow> string \<Rightarrow> url"
  url_set_query :: "url \<Rightarrow> string option \<Rightarrow> url"
  url_origin_ascii :: "url \<Rightarrow> string"

text \<open>
  \<open>Url::origin\<close> of an HTTP or HTTPS URL, the only schemes the configuration admits.
\<close>

definition url_origin :: "url \<Rightarrow> string \<times> string option \<times> nat option" where
  "url_origin u = (u_scheme u, u_host u, u_known_port u)"

text \<open>
  Documented behaviour of the crate: setting the path changes the path (and the
  serialisation) only, setting the query changes the query only, and the serialisation of
  an origin depends on the origin only.
\<close>

definition url_lib_ok :: "url_lib \<Rightarrow> bool" where
  "url_lib_ok L \<longleftrightarrow>
     (\<forall>u p. let v = url_set_path L u p in
        u_scheme v = u_scheme u \<and> u_username v = u_username u \<and> u_password v = u_password u \<and>
        u_host v = u_host u \<and> u_port v = u_port u \<and> u_known_port v = u_known_port u \<and>
        u_query v = u_query u \<and> u_fragment v = u_fragment u) \<and>
     (\<forall>u q. let v = url_set_query L u q in
        u_scheme v = u_scheme u \<and> u_username v = u_username u \<and> u_password v = u_password u \<and>
        u_host v = u_host u \<and> u_port v = u_port u \<and> u_known_port v = u_known_port u \<and>
        u_path v = u_path u \<and> u_query v = q \<and> u_fragment v = u_fragment u) \<and>
     (\<forall>u v. url_origin u = url_origin v \<longrightarrow> url_origin_ascii L u = url_origin_ascii L v)"

lemma set_path_origin: "url_lib_ok L \<Longrightarrow> url_origin (url_set_path L u p) = url_origin u"
  by (simp add: url_lib_ok_def url_origin_def Let_def)

lemma set_query_origin: "url_lib_ok L \<Longrightarrow> url_origin (url_set_query L u q) = url_origin u"
  by (simp add: url_lib_ok_def url_origin_def Let_def)

lemma set_query_path: "url_lib_ok L \<Longrightarrow> u_path (url_set_query L u q) = u_path u"
  by (simp add: url_lib_ok_def Let_def)

text \<open>
  A concrete library on which the hypotheses are discharged in the witnesses: URLs of the
  form \<open>scheme://host/path\<close> without port, user or query, kept as they are written.
\<close>

definition plain_url :: "string \<Rightarrow> string \<Rightarrow> string \<Rightarrow> url" where
  "plain_url s h p =
     \<lparr>u_scheme = s, u_username = [], u_password = None, u_host = Some h, u_port = None,
      u_known_port = Some (if s = ''https'' then 443 else 80), u_path = p, u_query = None,
      u_fragment = None, u_str = s @ ''://'' @ h @ p\<rparr>"

definition plain_parse :: "string \<Rightarrow> url option" where
  "plain_parse s =
     (case split_once (CHR '':'') s of
        Some (sch, CHR ''/'' # CHR ''/'' # r) \<Rightarrow>
          (case split_once (CHR ''/'') r of
             None \<Rightarrow> Some (plain_url sch r ''/'')
           | Some (h, p) \<Rightarrow> Some (plain_url sch h (CHR ''/'' # p)))
      | _ \<Rightarrow> None)"

definition plain_url_lib :: url_lib where
  "plain_url_lib =
     \<lparr>url_parse = plain_parse,
      url_join = (\<lambda>u l. if starts_with l ''/'' then Some (u\<lparr>u_path := l\<rparr>) else plain_parse l),
      url_set_path = (\<lambda>u p. u\<lparr>u_path := p\<rparr>),
      url_set_query = (\<lambda>u q. u\<lparr>u_query := q\<rparr>),
      url_origin_ascii = (\<lambda>u. u_scheme u @ ''://'' @ unwrap_or [] (u_host u))\<rparr>"

lemma plain_url_lib_ok: "url_lib_ok plain_url_lib"
  by (simp add: url_lib_ok_def plain_url_lib_def url_origin_def)

end
