(* ===== verification/Config_Model.thy ===== *)
theory Config_Model
  imports Http_Types Ip_Access
begin

text \<open>
  The runtime configuration (\<open>crates/server/src/config.rs\<close>): the records the request path
  reads, the upstream groups, the expansion of a requested URL to the candidates of its
  group, the choice of upstream credentials, and the URL validators.  A \<open>BTreeMap\<close> is an
  association list in key order.
\<close>

section \<open>Records\<close>

record upstreams =
  up_github :: string
  up_github_raw :: string
  up_packagist :: string
  up_docker_hub :: string
  up_ghcr :: string
  up_quay :: string
  up_kubernetes :: string
  up_gcr :: string
  up_mcr :: string
  up_elastic :: string
  up_gitlab :: string
  up_nvcr :: string
  up_oracle :: string
  up_npm :: string
  up_nvm :: string
  up_opam :: string
  up_go_proxy :: string
  up_maven :: string
  up_rubygems :: string
  up_rustup :: string
  up_nuget :: string
  up_cpan :: string
  up_cran :: string
  up_hackage :: string
  up_julia :: string
  up_luarocks :: string
  up_clojars :: string
  up_cocoapods :: string
  up_pub_repository :: string
  up_anaconda :: string
  up_texlive :: string
  up_winget :: string
  up_huggingface :: string
  up_elpa :: string
  up_nix :: string
  up_guix :: string
  up_flatpak :: string
  up_homebrew :: string
  up_alpine :: string
  up_openwrt :: string
  up_termux :: string
  up_debian :: string
  up_ubuntu :: string
  up_fedora :: string
  up_archlinux :: string
  up_opensuse :: string
  up_void :: string
  up_gentoo :: string
  up_freebsd :: string
  up_additional_os :: "(string \<times> string) list"
  up_crates_index :: string
  up_crates_api :: string
  up_pypi_simple :: string
  up_pypi_files :: string

record upstream_auth =
  ua_username :: "string option"
  ua_password :: "string option"
  ua_bearer_token :: "string option"

record selection_config =
  sel_strategy :: string
  sel_failure_threshold :: nat
  sel_cooldown_secs :: nat

record rate_limit_config =
  rlc_enabled :: bool
  rlc_requests_per_minute :: nat

record cache_config =
  cc_enabled :: bool
  cc_directory :: string
  cc_max_entry_mb :: nat
  cc_max_total_mb :: nat
  cc_default_ttl_secs :: nat
  cc_max_ttl_secs :: nat

record quota_config =
  qc_enabled :: bool
  qc_bidirectional_accounting :: bool
  qc_monthly_gb :: nat
  qc_timezone :: string
  qc_on_exceeded :: string
  qc_request_event_retention_days :: nat
  qc_default_user_monthly_gb :: "nat option"

record user_access_config =
  uac_base_domain :: string
  uac_mode :: string
  uac_infrastructure_ready :: bool
  uac_routing_id_min_length :: nat
  uac_routing_rotation_cooldown_hours :: nat

record outbound_proxy_config =
  opc_enabled :: bool
  opc_url :: string
  opc_no_proxy :: "string list"
  opc_username :: "string option"
  opc_password :: "string option"

record management_config =
  mgc_enabled :: bool
  mgc_listen_addr :: string

record metrics_config =
  mtc_local_only :: bool

record site_config =
  sc_title :: string
  sc_description :: string
  sc_keywords :: "string list"
  sc_icon_url :: string
  sc_footer_text :: string

record alert_config =
  alc_enabled :: bool
  alc_webhook_url :: string
  alc_email_enabled :: bool
  alc_email_recipients :: "string list"
  alc_quota_percent :: nat
  alc_source_failures :: nat
  alc_cooldown_secs :: nat

record timeout_config =
  tc_request_secs :: nat

record geoip_config =
  gc_enabled :: bool
  gc_ipv4_path :: string
  gc_ipv6_path :: string

record acme_dns_config =
  adc_provider :: string
  adc_cloudflare_zone_id :: string
  adc_cloudflare_api_token :: string
  adc_cloudflare_api_key :: string
  adc_cloudflare_email :: string
  adc_aliyun_domain :: string
  adc_aliyun_access_key_id :: string
  adc_aliyun_access_key_secret :: string
  adc_tencent_domain :: string
  adc_tencent_secret_id :: string
  adc_tencent_secret_key :: string
  adc_route53_hosted_zone_id :: string
  adc_route53_access_key_id :: string
  adc_route53_secret_access_key :: string
  adc_route53_session_token :: string
  adc_webhook_url :: string
  adc_webhook_bearer_token :: string
  adc_propagation_delay_secs :: nat

record acme_config =
  ac_enabled :: bool
  ac_email :: string
  ac_domains :: "string list"
  ac_challenge :: string
  ac_directory_url :: string
  ac_storage_directory :: string
  ac_renew_before_days :: nat
  ac_check_interval_hours :: nat
  ac_direct_https :: bool
  ac_http_listen_addr :: string
  ac_https_listen_addr :: string
  ac_redirect_http_to_https :: bool
  ac_dns :: acme_dns_config

record registration_config =
  rgc_mode :: string
  rgc_allowed_email_domains :: "string list"
  rgc_email_token_ttl_minutes :: nat

record webauthn_config =
  wc_enabled :: bool
  wc_rp_id :: string
  wc_rp_origin :: string
  wc_rp_name :: string
  wc_require_passkey :: bool
  wc_break_glass_username :: string

record upstream_tls_config =
  utc_ca_certificates :: "string list"
  utc_insecure_skip_verify :: bool

record download_config =
  dlc_enabled :: bool
  dlc_max_file_bytes :: nat
  dlc_daily_user_bytes :: nat
  dlc_max_concurrent :: nat
  dlc_max_user_concurrent :: nat
  dlc_requests_per_minute :: nat
  dlc_max_duration_secs :: nat
  dlc_bandwidth_bytes_per_sec :: nat

record config =
  cfg_database_path :: string
  cfg_listen_addr :: string
  cfg_management :: management_config
  cfg_metrics :: metrics_config
  cfg_public_base_url :: string
  cfg_site :: site_config
  cfg_trusted_proxies :: "string list"
  cfg_enabled_proxies :: "string list"
  cfg_upstreams :: upstreams
  cfg_oci_token_issuers :: "(string \<times> string list) list"
  cfg_timeout :: timeout_config
  cfg_upstream_selection :: selection_config
  cfg_rate_limit :: rate_limit_config
  cfg_cache :: cache_config
  cfg_geoip :: geoip_config
  cfg_acme :: acme_config
  cfg_quota :: quota_config
  cfg_download :: download_config
  cfg_alerts :: alert_config
  cfg_user_access :: user_access_config
  cfg_registration :: registration_config
  cfg_webauthn :: webauthn_config
  cfg_outbound_proxy :: outbound_proxy_config
  cfg_upstream_tls :: upstream_tls_config
  cfg_forward_client_authorization :: bool
  cfg_upstream_auth :: "(string \<times> upstream_auth) list"

section \<open>Operations\<close>

definition is_enabled :: "config \<Rightarrow> string \<Rightarrow> bool" where
  "is_enabled c proxy = list_ex (\<lambda>item. item = proxy) (cfg_enabled_proxies c)"

definition config_trusts :: "config \<Rightarrow> ip_addr \<Rightarrow> bool" where
  "config_trusts c address = is_trusted_proxy (cfg_trusted_proxies c) address"

definition parse_url_list :: "string \<Rightarrow> string list" where
  "parse_url_list value = filter (\<lambda>item. item \<noteq> []) (map trim (split_on (CHR '','') value))"

definition upstream_groups :: "upstreams \<Rightarrow> string list" where
  "upstream_groups u =
     [up_maven u, up_github u, up_github_raw u, up_packagist u, up_docker_hub u, up_ghcr u,
      up_quay u, up_kubernetes u, up_gcr u, up_mcr u, up_elastic u, up_gitlab u, up_nvcr u,
      up_oracle u, up_npm u, up_nvm u, up_opam u, up_go_proxy u, up_rubygems u, up_rustup u,
      up_nuget u, up_cpan u, up_cran u, up_hackage u, up_julia u, up_luarocks u, up_clojars u,
      up_cocoapods u, up_pub_repository u, up_anaconda u, up_texlive u, up_winget u,
      up_huggingface u, up_elpa u, up_nix u, up_guix u, up_flatpak u, up_homebrew u, up_alpine
      u, up_openwrt u, up_termux u, up_debian u, up_ubuntu u, up_fedora u, up_archlinux u,
      up_opensuse u, up_void u, up_gentoo u, up_freebsd u, up_crates_index u, up_crates_api u,
      up_pypi_simple u, up_pypi_files u]
     @ map snd (up_additional_os u)"

text \<open>\<open>Config::upstream_url\<close>: the group a credential entry is for.\<close>

definition upstream_url :: "upstreams \<Rightarrow> string \<Rightarrow> string option" where
  "upstream_url u name = map_of
     [(''github'', up_github u),
      (''github_raw'', up_github_raw u),
      (''packagist'', up_packagist u),
      (''docker_hub'', up_docker_hub u),
      (''ghcr'', up_ghcr u),
      (''quay'', up_quay u),
      (''kubernetes'', up_kubernetes u),
      (''gcr'', up_gcr u),
      (''mcr'', up_mcr u),
      (''elastic'', up_elastic u),
      (''npm'', up_npm u),
      (''nvm'', up_nvm u),
      (''opam'', up_opam u),
      (''go_proxy'', up_go_proxy u),
      (''maven'', up_maven u),
      (''rubygems'', up_rubygems u),
      (''rustup'', up_rustup u),
      (''nuget'', up_nuget u),
      (''cpan'', up_cpan u),
      (''cran'', up_cran u),
      (''hackage'', up_hackage u),
      (''julia'', up_julia u),
      (''luarocks'', up_luarocks u),
      (''clojars'', up_clojars u),
      (''cocoapods'', up_cocoapods u),
      (''pub_repository'', up_pub_repository u),
      (''anaconda'', up_anaconda u),
      (''texlive'', up_texlive u),
      (''winget'', up_winget u),
      (''huggingface'', up_huggingface u),
      (''elpa'', up_elpa u),
      (''nix'', up_nix u),
      (''guix'', up_guix u),
      (''flatpak'', up_flatpak u),
      (''homebrew'', up_homebrew u),
      (''alpine'', up_alpine u),
      (''openwrt'', up_openwrt u),
      (''termux'', up_termux u),
      (''debian'', up_debian u),
      (''ubuntu'', up_ubuntu u),
      (''fedora'', up_fedora u),
      (''archlinux'', up_archlinux u),
      (''opensuse'', up_opensuse u),
      (''void'', up_void u),
      (''gentoo'', up_gentoo u),
      (''freebsd'', up_freebsd u),
      (''crates_index'', up_crates_index u),
      (''crates_api'', up_crates_api u),
      (''pypi_simple'', up_pypi_simple u),
      (''pypi_files'', up_pypi_files u)] name"

definition upstream_path_suffix :: "url \<Rightarrow> url \<Rightarrow> string option" where
  "upstream_path_suffix primary requested =
     (if u_scheme primary \<noteq> u_scheme requested \<or> u_host primary \<noteq> u_host requested
         \<or> u_known_port primary \<noteq> u_known_port requested then None
      else opt_filter (\<lambda>suffix. suffix = [] \<or> starts_with suffix ''/'')
             (strip_prefix (trim_end_matches (CHR ''/'') (u_path primary)) (u_path requested)))"

text \<open>The closure \<open>consider\<close> of \<open>upstream_candidates_for\<close>, on the current best match.\<close>

definition expand_endpoints :: "url_lib \<Rightarrow> url \<Rightarrow> string \<Rightarrow> string list \<Rightarrow> url list" where
  "expand_endpoints L requested suffix endpoints =
     map (\<lambda>c. url_set_query L (url_set_path L c (trim_end_matches (CHR ''/'') (u_path c) @ suffix)) (u_query requested))
       (filter_map (url_parse L) endpoints)"

definition consider_group ::
  "url_lib \<Rightarrow> url \<Rightarrow> (nat \<times> url list) option \<Rightarrow> string \<Rightarrow> (nat \<times> url list) option" where
  "consider_group L requested best configured =
     (let endpoints = parse_url_list configured
      in case endpoints of
           [] \<Rightarrow> best
         | e # _ \<Rightarrow>
             (case url_parse L e of
                None \<Rightarrow> best
              | Some primary \<Rightarrow>
                  (case upstream_path_suffix primary requested of
                     None \<Rightarrow> best
                   | Some suffix \<Rightarrow>
                       (let specificity = length (u_path primary)
                        in if (case best of None \<Rightarrow> True | Some (current, _) \<Rightarrow> specificity > current)
                           then Some (specificity, expand_endpoints L requested suffix endpoints)
                           else best))))"

definition upstream_candidates_for :: "url_lib \<Rightarrow> config \<Rightarrow> url \<Rightarrow> url list" where
  "upstream_candidates_for L c requested =
     (case foldl (consider_group L requested) None (upstream_groups (cfg_upstreams c)) of
        Some (_, candidates) \<Rightarrow> if candidates = [] then [requested] else candidates
      | None \<Rightarrow> [requested])"

definition same_endpoint :: "url \<Rightarrow> url \<Rightarrow> bool" where
  "same_endpoint a b \<longleftrightarrow> u_scheme a = u_scheme b \<and> u_host a = u_host b \<and> u_known_port a = u_known_port b"

definition upstream_auth_for :: "url_lib \<Rightarrow> config \<Rightarrow> url \<Rightarrow> upstream_auth option" where
  "upstream_auth_for L c url =
     find_map (\<lambda>(name, auth).
       case upstream_url (cfg_upstreams c) name of
         None \<Rightarrow> None
       | Some upstream \<Rightarrow>
           if list_ex (\<lambda>configured. same_endpoint configured url)
                (filter_map (url_parse L) (map trim (split_on (CHR '','') upstream)))
           then Some auth else None) (cfg_upstream_auth c)"

subsection \<open>Validators\<close>

datatype url_error =
    NoUrl string
  | BadUrl string nat
  | BadScheme string nat string
  | NoHost string nat
  | NotHttpsOrigin string
  | BadOrigin string

fun validate_endpoints :: "url_lib \<Rightarrow> string \<Rightarrow> nat \<Rightarrow> string list \<Rightarrow> url_error + unit" where
  "validate_endpoints L field index [] = Inr ()"
| "validate_endpoints L field index (endpoint # rest) =
     (case url_parse L endpoint of
        None \<Rightarrow> Inl (BadUrl field index)
      | Some url \<Rightarrow>
          if u_scheme url \<noteq> ''http'' \<and> u_scheme url \<noteq> ''https'' then Inl (BadScheme field index (u_scheme url))
          else if u_host url = None then Inl (NoHost field index)
          else validate_endpoints L field (Suc index) rest)"

definition validate_http_url :: "url_lib \<Rightarrow> string \<Rightarrow> string \<Rightarrow> url_error + unit" where
  "validate_http_url L field value =
     (let endpoints = filter (\<lambda>e. e \<noteq> []) (map trim (split_on (CHR '','') value))
      in if endpoints = [] then Inl (NoUrl field) else validate_endpoints L field 0 endpoints)"

definition validate_https_origin :: "url_lib \<Rightarrow> string \<Rightarrow> string \<Rightarrow> url_error + unit" where
  "validate_https_origin L field value =
     (case url_parse L value of
        None \<Rightarrow> Inl (BadOrigin field)
      | Some url \<Rightarrow>
          if u_scheme url \<noteq> ''https'' \<or> u_host url = None \<or> u_username url \<noteq> [] \<or> u_password url \<noteq> None
             \<or> u_path url \<noteq> ''/'' \<or> u_query url \<noteq> None \<or> u_fragment url \<noteq> None
          then Inl (NotHttpsOrigin field) else Inr ())"

text \<open>The check of one \<open>upstream_auth\<close> entry in \<open>Config::validate\<close>.\<close>

definition auth_entry_ok :: "upstream_auth \<Rightarrow> bool" where
  "auth_entry_ok auth =
     (let basic = ua_username auth \<noteq> None \<or> ua_password auth \<noteq> None;
          bearer = ua_bearer_token auth \<noteq> None
      in \<not> (basic = bearer
          \<or> (basic \<and> (unwrap_or [] (ua_username auth) = [] \<or> unwrap_or [] (ua_password auth) = []))
          \<or> (bearer \<and> unwrap_or [] (ua_bearer_token auth) = [])))"

definition upstream_auth_valid :: "config \<Rightarrow> bool" where
  "upstream_auth_valid c =
     list_all (\<lambda>(name, auth). upstream_url (cfg_upstreams c) name \<noteq> None \<and> auth_entry_ok auth)
       (cfg_upstream_auth c)"

section \<open>Lemmas\<close>

text \<open>What one group contributes: its specificity and its expanded candidates.\<close>

definition group_match :: "url_lib \<Rightarrow> url \<Rightarrow> string \<Rightarrow> (nat \<times> url list) option" where
  "group_match L requested g =
     (case parse_url_list g of
        [] \<Rightarrow> None
      | e # _ \<Rightarrow>
          (case url_parse L e of
             None \<Rightarrow> None
           | Some primary \<Rightarrow>
               map_option (\<lambda>suffix. (length (u_path primary), expand_endpoints L requested suffix (parse_url_list g)))
                 (upstream_path_suffix primary requested)))"

lemma consider_group_match:
  "consider_group L requested best g =
     (case group_match L requested g of
        None \<Rightarrow> best
      | Some (n, cs) \<Rightarrow> if (case best of None \<Rightarrow> True | Some (m, _) \<Rightarrow> m < n) then Some (n, cs) else best)"
  by (simp add: consider_group_def group_match_def Let_def split: list.splits option.splits)

definition best_of :: "('g \<Rightarrow> (nat \<times> 'c) option) \<Rightarrow> 'g list \<Rightarrow> (nat \<times> 'c) option \<Rightarrow> bool" where
  "best_of f gs r \<longleftrightarrow>
     (case r of
        None \<Rightarrow> \<forall>g \<in> set gs. f g = None
      | Some (n, c) \<Rightarrow> \<exists>pre g post. gs = pre @ g # post \<and> f g = Some (n, c) \<and>
          (\<forall>h \<in> set pre. \<forall>m d. f h = Some (m, d) \<longrightarrow> m < n) \<and>
          (\<forall>h \<in> set post. \<forall>m d. f h = Some (m, d) \<longrightarrow> m \<le> n))"

lemma best_of_SomeI:
  assumes "gs = pre @ g # post" "f g = Some (n, c)"
    "\<And>h m d. h \<in> set pre \<Longrightarrow> f h = Some (m, d) \<Longrightarrow> m < n"
    "\<And>h m d. h \<in> set post \<Longrightarrow> f h = Some (m, d) \<Longrightarrow> m \<le> n"
  shows "best_of f gs (Some (n, c))"
proof -
  have "\<exists>pre g post. gs = pre @ g # post \<and> f g = Some (n, c) \<and>
          (\<forall>h \<in> set pre. \<forall>m d. f h = Some (m, d) \<longrightarrow> m < n) \<and>
          (\<forall>h \<in> set post. \<forall>m d. f h = Some (m, d) \<longrightarrow> m \<le> n)"
    using assms by blast
  then show ?thesis by (simp add: best_of_def)
qed

lemma best_of_SomeE:
  assumes "best_of f gs (Some (n, c))"
  obtains pre g post where "gs = pre @ g # post" "f g = Some (n, c)"
    "\<And>h m d. h \<in> set pre \<Longrightarrow> f h = Some (m, d) \<Longrightarrow> m < n"
    "\<And>h m d. h \<in> set post \<Longrightarrow> f h = Some (m, d) \<Longrightarrow> m \<le> n"
  using assms unfolding best_of_def by auto

lemma best_of_snoc:
  assumes b: "best_of f gs r"
  shows "best_of f (gs @ [x])
    (case f x of None \<Rightarrow> r | Some (n, c) \<Rightarrow> if (case r of None \<Rightarrow> True | Some (m, _) \<Rightarrow> m < n) then Some (n, c) else r)"
proof (cases r)
  case None
  with b have none: "\<And>h. h \<in> set gs \<Longrightarrow> f h = None" by (simp add: best_of_def)
  show ?thesis
  proof (cases "f x")
    case None
    with \<open>r = None\<close> none show ?thesis by (simp add: best_of_def)
  next
    case (Some nc)
    then show ?thesis using none \<open>r = None\<close>
      by (cases nc) (auto intro: best_of_SomeI [where pre = gs and g = x and post = "[]"])
  qed
next
  case (Some md)
  obtain m d where r: "r = Some (m, d)" using Some by (cases md) auto
  with b obtain pre g post where g: "gs = pre @ g # post" "f g = Some (m, d)"
      "\<And>h k d. h \<in> set pre \<Longrightarrow> f h = Some (k, d) \<Longrightarrow> k < m"
      "\<And>h k d. h \<in> set post \<Longrightarrow> f h = Some (k, d) \<Longrightarrow> k \<le> m"
    by (auto elim: best_of_SomeE)
  have keep: "best_of f (gs @ [x]) r" if "\<And>k d. f x = Some (k, d) \<Longrightarrow> k \<le> m"
    unfolding r
    by (rule best_of_SomeI [where pre = pre and g = g and post = "post @ [x]"]) (use g that in auto)
  have below: "k \<le> m" if "h \<in> set gs" "f h = Some (k, d)" for h k d
    using g that by (auto intro: less_imp_le)
  have take: "best_of f (gs @ [x]) (Some (n, c))" if "f x = Some (n, c)" "m < n" for n c
    by (rule best_of_SomeI [where pre = gs and g = x and post = "[]"])
      (use that below in \<open>auto intro: le_less_trans\<close>)
  show ?thesis
    using keep take by (auto simp: r not_less split: option.splits)
qed

lemma fold_consider_best: "best_of (group_match L requested) gs (foldl (consider_group L requested) None gs)"
proof (induction gs rule: rev_induct)
  case Nil
  then show ?case by (simp add: best_of_def)
next
  case (snoc x gs)
  have "foldl (consider_group L requested) None (gs @ [x])
      = consider_group L requested (foldl (consider_group L requested) None gs) x" by simp
  then show ?case using best_of_snoc [OF snoc, of x]
    by (simp only: consider_group_match [of L requested "foldl (consider_group L requested) None gs" x])
qed

lemma group_match_nonempty: "group_match L requested g = Some (n, cs) \<Longrightarrow> cs \<noteq> []"
  by (auto simp: group_match_def expand_endpoints_def filter_map_def map_filter_simps
      split: list.splits option.splits)

lemma candidates_cases:
  obtains (none) "\<forall>g \<in> set (upstream_groups (cfg_upstreams c)). group_match L requested g = None"
      "upstream_candidates_for L c requested = [requested]"
  | (group) pre g post n where "upstream_groups (cfg_upstreams c) = pre @ g # post"
      "group_match L requested g = Some (n, upstream_candidates_for L c requested)"
      "\<forall>h \<in> set pre. \<forall>m d. group_match L requested h = Some (m, d) \<longrightarrow> m < n"
      "\<forall>h \<in> set post. \<forall>m d. group_match L requested h = Some (m, d) \<longrightarrow> m \<le> n"
proof -
  let ?gs = "upstream_groups (cfg_upstreams c)"
  let ?r = "foldl (consider_group L requested) None ?gs"
  have b: "best_of (group_match L requested) ?gs ?r" by (rule fold_consider_best)
  show thesis
  proof (cases ?r)
    case None
    with b show ?thesis
      by (intro none) (auto simp: best_of_def upstream_candidates_for_def)
  next
    case (Some nc)
    obtain n cs where r: "?r = Some (n, cs)" using Some by (cases nc) auto
    with b obtain pre g post where g: "?gs = pre @ g # post" "group_match L requested g = Some (n, cs)"
        "\<forall>h \<in> set pre. \<forall>m d. group_match L requested h = Some (m, d) \<longrightarrow> m < n"
        "\<forall>h \<in> set post. \<forall>m d. group_match L requested h = Some (m, d) \<longrightarrow> m \<le> n"
      unfolding best_of_def by auto
    have "upstream_candidates_for L c requested = cs"
      using r group_match_nonempty [OF g(2)] by (simp add: upstream_candidates_for_def)
    with g show ?thesis by (intro group) auto
  qed
qed

lemma candidates_nonempty: "upstream_candidates_for L c requested \<noteq> []"
  by (rule candidates_cases [of c L requested]) (auto dest: group_match_nonempty)

lemma expand_endpoints_mem:
  assumes "url_lib_ok L" and "u \<in> set (expand_endpoints L requested suffix es)"
  shows "u_query u = u_query requested \<and> (\<exists>e \<in> set es. \<exists>p. url_parse L e = Some p \<and> url_origin u = url_origin p)"
proof -
  from assms(2) obtain e p where "e \<in> set es" "url_parse L e = Some p"
    and u: "u = url_set_query L (url_set_path L p (trim_end_matches (CHR ''/'') (u_path p) @ suffix)) (u_query requested)"
    by (auto simp: expand_endpoints_def set_filter_map)
  moreover have "url_origin u = url_origin p"
    by (simp add: u assms(1) set_query_origin set_path_origin)
  moreover have "u_query u = u_query requested"
    using assms(1) by (simp add: u url_lib_ok_def Let_def)
  ultimately show ?thesis by blast
qed

lemma same_endpoint_origin: "same_endpoint a b \<longleftrightarrow> url_origin a = url_origin b"
  by (auto simp: same_endpoint_def url_origin_def)

lemma validate_endpoints_ok:
  "validate_endpoints L field i es = Inr () \<longleftrightarrow>
     (\<forall>e \<in> set es. \<exists>u. url_parse L e = Some u \<and> u_scheme u \<in> {''http'', ''https''} \<and> u_host u \<noteq> None)"
  by (induction L field i es rule: validate_endpoints.induct) (auto split: option.splits)

lemma auth_entry_shape:
  "auth_entry_ok a \<longleftrightarrow>
     (\<exists>n p. a = \<lparr>ua_username = Some n, ua_password = Some p, ua_bearer_token = None\<rparr> \<and> n \<noteq> [] \<and> p \<noteq> []) \<or>
     (\<exists>t. a = \<lparr>ua_username = None, ua_password = None, ua_bearer_token = Some t\<rparr> \<and> t \<noteq> [])"
  by (cases a) (auto simp: auth_entry_ok_def Let_def unwrap_or_def split: option.splits)

end
