(* ===== verification/Config_Defaults.thy ===== *)
theory Config_Defaults
  imports Config_Model Catalog_Systems
begin

text \<open>
  The built-in configuration (\<open>crates/server/src/config.rs\<close>, \<open>download.rs\<close>): the
  \<open>default_*\<close> functions and the \<open>Default\<close> instances, in the order of the source, and the
  upgrade of configurations written with older defaults.  A text that is not ASCII is the list of
  its UTF-8 bytes.
\<close>

section \<open>Key order of a BTreeMap\<close>

fun key_less :: "string \<Rightarrow> string \<Rightarrow> bool" where
  "key_less [] [] = False"
| "key_less [] (_ # _) = True"
| "key_less (_ # _) [] = False"
| "key_less (a # x) (b # y) =
     ((of_char a :: nat) < of_char b \<or> (a = b \<and> key_less x y))"

section \<open>Defaults\<close>

definition default_listen_addr :: string where
  "default_listen_addr = ''127.0.0.1:3000''"

definition default_management_listen_addr :: string where
  "default_management_listen_addr = ''127.0.0.1:3001''"

definition default_webauthn_rp_name :: string where
  "default_webauthn_rp_name = ''MirrorProxy''"

definition default_break_glass_username :: string where
  "default_break_glass_username = ''admin''"

definition default_user_access_mode :: string where
  "default_user_access_mode = ''public''"

definition default_routing_id_min_length :: nat where
  "default_routing_id_min_length = 12"

definition default_routing_rotation_cooldown_hours :: nat where
  "default_routing_rotation_cooldown_hours = 24"

definition default_registration_mode :: string where
  "default_registration_mode = ''invite_only''"

definition default_email_token_ttl_minutes :: nat where
  "default_email_token_ttl_minutes = 10"

definition default_database_path :: string where
  "default_database_path = ''mirrorproxy.sqlite3''"

definition default_trusted_proxies :: "string list" where
  "default_trusted_proxies = [''127.0.0.1'', ''::1'']"

definition default_cache_directory :: string where
  "default_cache_directory = ''mirrorproxy-cache''"

definition default_cache_max_entry_mb :: nat where
  "default_cache_max_entry_mb = 8"

definition default_cache_max_total_mb :: nat where
  "default_cache_max_total_mb = 256"

definition default_geoip_enabled :: bool where
  "default_geoip_enabled = True"

definition default_geoip_ipv4_path :: string where
  "default_geoip_ipv4_path = ''geoip/ip2region_v4.xdb''"

definition default_geoip_ipv6_path :: string where
  "default_geoip_ipv6_path = ''geoip/ip2region_v6.xdb''"

definition default_acme_challenge :: string where
  "default_acme_challenge = ''http-01''"

definition default_acme_directory_url :: string where
  "default_acme_directory_url = ''https://acme-v02.api.letsencrypt.org/directory''"

definition default_acme_storage_directory :: string where
  "default_acme_storage_directory = ''acme''"

definition default_acme_renew_before_days :: nat where
  "default_acme_renew_before_days = 30"

definition default_acme_check_interval_hours :: nat where
  "default_acme_check_interval_hours = 12"

definition default_acme_http_listen_addr :: string where
  "default_acme_http_listen_addr = ''0.0.0.0:80''"

definition default_acme_https_listen_addr :: string where
  "default_acme_https_listen_addr = ''0.0.0.0:443''"

definition default_true :: bool where
  "default_true = True"

definition default_acme_dns_propagation_delay_secs :: nat where
  "default_acme_dns_propagation_delay_secs = 30"

definition default_enabled_proxies :: "string list" where
  "default_enabled_proxies =
     [''github'', ''composer'', ''oci'', ''npm'', ''nvm'', ''opam'', ''go'', ''maven'',
       ''rubygems'', ''rustup'', ''nuget'', ''cpan'', ''cran'', ''hackage'', ''julia'',
       ''luarocks'', ''clojars'', ''pub'', ''anaconda'', ''texlive'', ''winget'',
       ''huggingface'', ''elpa'', ''nix'', ''guix'', ''flatpak'', ''homebrew'', ''os'',
       ''crates'', ''pypi'']"

definition default_github_base :: string where
  "default_github_base = ''https://github.com''"

definition default_github_raw_base :: string where
  "default_github_raw_base = ''https://raw.githubusercontent.com''"

definition default_packagist_base :: string where
  "default_packagist_base = ''https://repo.packagist.org''"

definition default_docker_hub_registry :: string where
  "default_docker_hub_registry = ''https://registry-1.docker.io''"

definition default_ghcr_registry :: string where
  "default_ghcr_registry = ''https://ghcr.io''"

definition default_quay_registry :: string where
  "default_quay_registry = ''https://quay.io''"

definition default_kubernetes_registry :: string where
  "default_kubernetes_registry = ''https://registry.k8s.io''"

definition default_gcr_registry :: string where
  "default_gcr_registry = ''https://gcr.io''"

definition default_mcr_registry :: string where
  "default_mcr_registry = ''https://mcr.microsoft.com''"

definition default_elastic_registry :: string where
  "default_elastic_registry = ''https://docker.elastic.co''"

definition default_gitlab_registry :: string where
  "default_gitlab_registry = ''https://registry.gitlab.com''"

definition default_nvcr_registry :: string where
  "default_nvcr_registry = ''https://nvcr.io''"

definition default_oracle_registry :: string where
  "default_oracle_registry = ''https://container-registry.oracle.com''"

definition default_npm_registry :: string where
  "default_npm_registry = ''https://registry.npmjs.org''"

definition default_nvm_repository :: string where
  "default_nvm_repository = ''https://nodejs.org/dist''"

definition default_opam_repository :: string where
  "default_opam_repository = ''https://opam.ocaml.org''"

definition default_go_proxy :: string where
  "default_go_proxy = ''https://proxy.golang.org''"

definition default_maven_repository :: string where
  "default_maven_repository = ''https://maven-central.storage-download.googleapis.com/maven2''"

definition default_rubygems_repository :: string where
  "default_rubygems_repository = ''https://rubygems.org''"

definition default_rustup_repository :: string where
  "default_rustup_repository = ''https://static.rust-lang.org''"

definition default_nuget_repository :: string where
  "default_nuget_repository = ''https://api.nuget.org''"

definition default_cpan_repository :: string where
  "default_cpan_repository = ''https://cpan.metacpan.org''"

definition default_cran_repository :: string where
  "default_cran_repository = ''https://cloud.r-project.org''"

definition default_hackage_repository :: string where
  "default_hackage_repository = ''https://hackage.haskell.org''"

definition default_julia_repository :: string where
  "default_julia_repository = ''https://pkg.julialang.org''"

definition default_luarocks_repository :: string where
  "default_luarocks_repository = ''https://luarocks.org''"

definition default_clojars_repository :: string where
  "default_clojars_repository = ''https://repo.clojars.org''"

definition default_cocoapods_repository :: string where
  "default_cocoapods_repository = ''https://cdn.cocoapods.org''"

definition default_pub_repository :: string where
  "default_pub_repository = ''https://pub.dev''"

definition default_anaconda_repository :: string where
  "default_anaconda_repository = ''https://repo.anaconda.com/pkgs''"

definition default_texlive_repository :: string where
  "default_texlive_repository = ''https://mirrors.ctan.org/systems/texlive/tlnet''"

definition default_winget_repository :: string where
  "default_winget_repository = ''https://cdn.winget.microsoft.com''"

definition default_huggingface_repository :: string where
  "default_huggingface_repository = ''https://huggingface.co''"

definition default_elpa_repository :: string where
  "default_elpa_repository = ''https://elpa.gnu.org/packages''"

definition default_nix_repository :: string where
  "default_nix_repository = ''https://cache.nixos.org''"

definition default_guix_repository :: string where
  "default_guix_repository = ''https://ci.guix.gnu.org''"

definition default_flatpak_repository :: string where
  "default_flatpak_repository = ''https://dl.flathub.org/repo''"

definition default_homebrew_bottles_repository :: string where
  "default_homebrew_bottles_repository = ''https://ghcr.io/v2/homebrew/core''"

definition default_alpine_repository :: string where
  "default_alpine_repository = ''https://dl-cdn.alpinelinux.org/alpine''"

definition default_openwrt_repository :: string where
  "default_openwrt_repository = ''https://downloads.openwrt.org''"

definition default_termux_repository :: string where
  "default_termux_repository = ''https://packages.termux.dev/apt/termux-main''"

definition default_debian_repository :: string where
  "default_debian_repository = ''https://deb.debian.org/debian''"

definition default_ubuntu_repository :: string where
  "default_ubuntu_repository = ''https://archive.ubuntu.com/ubuntu''"

definition default_fedora_repository :: string where
  "default_fedora_repository = ''https://dl.fedoraproject.org/pub/fedora/linux''"

definition default_archlinux_repository :: string where
  "default_archlinux_repository = ''https://geo.mirror.pkgbuild.com''"

definition default_opensuse_repository :: string where
  "default_opensuse_repository = ''https://download.opensuse.org''"

definition default_void_repository :: string where
  "default_void_repository = ''https://repo-default.voidlinux.org''"

definition default_gentoo_repository :: string where
  "default_gentoo_repository = ''https://distfiles.gentoo.org''"

definition default_freebsd_repository :: string where
  "default_freebsd_repository = ''https://pkg.freebsd.org''"

definition default_crates_index :: string where
  "default_crates_index = ''https://index.crates.io''"

definition default_crates_api :: string where
  "default_crates_api = ''https://crates.io''"

definition default_pypi_simple :: string where
  "default_pypi_simple = ''https://pypi.org/simple''"

definition default_pypi_files :: string where
  "default_pypi_files = ''https://files.pythonhosted.org''"

definition default_request_timeout_secs :: nat where
  "default_request_timeout_secs = 60"

definition default_upstream_selection_strategy :: string where
  "default_upstream_selection_strategy = ''ordered''"

definition default_upstream_failure_threshold :: nat where
  "default_upstream_failure_threshold = 3"

definition default_upstream_cooldown_secs :: nat where
  "default_upstream_cooldown_secs = 30"

definition default_rate_limit_requests_per_minute :: nat where
  "default_rate_limit_requests_per_minute = 600"

definition default_cache_default_ttl_secs :: nat where
  "default_cache_default_ttl_secs = 300"

definition default_cache_max_ttl_secs :: nat where
  "default_cache_max_ttl_secs = 24 * 60 * 60"

definition default_alert_quota_percent :: nat where
  "default_alert_quota_percent = 80"

definition default_alert_source_failures :: nat where
  "default_alert_source_failures = 3"

definition default_alert_cooldown_secs :: nat where
  "default_alert_cooldown_secs = 60 * 60"

definition default_site_title :: string where
  "default_site_title = ''MirrorProxy''"

definition default_site_description :: string where
  "default_site_description =
     ''MirrorProxy '' @ [CHR 0xE8, CHR 0x87, CHR 0xAA, CHR 0xE6, CHR 0x89, CHR 0x98, CHR 0xE7,
       CHR 0xAE, CHR 0xA1, CHR 0xE9, CHR 0x95, CHR 0x9C, CHR 0xE5, CHR 0x83, CHR 0x8F, CHR 0xE5,
       CHR 0x8A, CHR 0xA0, CHR 0xE9, CHR 0x80, CHR 0x9F, CHR 0xE6, CHR 0x9C, CHR 0x8D, CHR 0xE5,
       CHR 0x8A, CHR 0xA1, CHR 0xEF, CHR 0xBC, CHR 0x8C, CHR 0xE6, CHR 0x94, CHR 0xAF, CHR 0xE6,
       CHR 0x8C, CHR 0x81] @ '' GitHub'' @ [CHR 0xE3, CHR 0x80, CHR 0x81] @ ''Docker/OCI'' @
       [CHR 0xE3, CHR 0x80, CHR 0x81] @ ''npm'' @ [CHR 0xE3, CHR 0x80, CHR 0x81] @ ''PyPI'' @
       [CHR 0xE3, CHR 0x80, CHR 0x81] @ ''crates.io'' @ [CHR 0xE3, CHR 0x80, CHR 0x81] @ 
       ''Go Modules'' @ [CHR 0xE3, CHR 0x80, CHR 0x81] @ ''Composer'' @ [CHR 0xE3, CHR 0x80, CHR
       0x81] @ ''Maven'' @ [CHR 0xE3, CHR 0x80, CHR 0x81] @ ''RubyGems'' @ [CHR 0xE3, CHR 0x80,
       CHR 0x81] @ ''NuGet'' @ [CHR 0xE3, CHR 0x80, CHR 0x81] @ ''CPAN'' @ [CHR 0xE3, CHR 0x80,
       CHR 0x81] @ ''CRAN'' @ [CHR 0xE3, CHR 0x80, CHR 0x81] @ ''Hackage'' @ [CHR 0xE3, CHR
       0x80, CHR 0x81] @ ''Homebrew'' @ [CHR 0xE3, CHR 0x80, CHR 0x81] @ ''Hugging Face '' @
       [CHR 0xE5, CHR 0x8F, CHR 0x8A] @ '' Linux/BSD '' @ [CHR 0xE8, CHR 0xBD, CHR 0xAF, CHR
       0xE4, CHR 0xBB, CHR 0xB6, CHR 0xE6, CHR 0xBA, CHR 0x90, CHR 0xEF, CHR 0xBC, CHR 0x8C, CHR
       0xE6, CHR 0x8F, CHR 0x90, CHR 0xE4, CHR 0xBE, CHR 0x9B] @ '' AI Agent Skill '' @ [CHR
       0xE4, CHR 0xB8, CHR 0x8E] @ '' MCP '' @ [CHR 0xE9, CHR 0x85, CHR 0x8D, CHR 0xE7, CHR
       0xBD, CHR 0xAE, CHR 0xE3, CHR 0x80, CHR 0x82] @ 
       '' Self-hosted source and package mirrors with AI Agent Skill and MCP setup.''"

definition default_site_keywords :: "string list" where
  "default_site_keywords =
     [''MirrorProxy'', [CHR 0xE9, CHR 0x95, CHR 0x9C, CHR 0xE5, CHR 0x83, CHR 0x8F, CHR 0xE5,
       CHR 0x8A, CHR 0xA0, CHR 0xE9, CHR 0x80, CHR 0x9F], [CHR 0xE8, CHR 0xBD, CHR 0xAF, CHR
       0xE4, CHR 0xBB, CHR 0xB6, CHR 0xE6, CHR 0xBA, CHR 0x90], ''GitHub'', ''Docker/OCI'',
       ''npm'', ''Go Modules'', ''Maven'', ''PyPI'', ''crates.io'', ''Homebrew'', ''Linux/BSD'',
       ''Composer'', ''RubyGems'', ''NuGet'', ''CPAN'', ''CRAN'', ''Hugging Face'', 
       ''AI Skill'', ''MCP'']"

definition default_site_icon_url :: string where
  "default_site_icon_url = ''/favicon.svg''"

definition default_quota_monthly_gb :: nat where
  "default_quota_monthly_gb = 500"

definition default_quota_timezone :: string where
  "default_quota_timezone = ''local''"

definition default_quota_on_exceeded :: string where
  "default_quota_on_exceeded = ''stop_proxy''"

definition default_request_event_retention_days :: nat where
  "default_request_event_retention_days = 30"

definition default_oci_token_issuers :: "(string \<times> string list) list" where
  "default_oci_token_issuers =
     [(''docker_hub'', [''https://auth.docker.io'']), (''elastic'',
       [''https://docker-auth.elastic.co'']), (''gitlab'', [''https://gitlab.com''])]"

text \<open>\<open>BTreeMap::entry(k).or_insert(v)\<close> on an association list in key order.\<close>

fun or_insert :: "string \<Rightarrow> 'v \<Rightarrow> (string \<times> 'v) list \<Rightarrow> (string \<times> 'v) list" where
  "or_insert k v [] = [(k, v)]"
| "or_insert k v ((k', v') # m) =
     (if k = k' then (k', v') # m
      else if key_less k k' then (k, v) # (k', v') # m
      else (k', v') # or_insert k v m)"

definition default_os_repositories :: "(string \<times> string) list" where
  "default_os_repositories =
     foldl (\<lambda>repositories r.
         if sr_upstream r \<noteq> [] \<and> sr_code r \<notin> set [''debian'', ''ubuntu'', ''fedora'', ''archlinux'',
              ''opensuse'', ''void'', ''gentoo'', ''alpine'']
         then or_insert (sr_code r) (sr_upstream r) repositories else repositories)
       (foldl (\<lambda>repositories (k, v). or_insert k v repositories) []
         [(''kali'', ''https://kali.download/kali''), (''rocky'',
           ''https://dl.rockylinux.org/pub/rocky''), (''alma'',
           ''https://repo.almalinux.org/almalinux''), (''manjaro'',
           ''https://repo.manjaro.org/repo''), (''msys2'', ''https://repo.msys2.org''),
           (''raspios'', ''https://archive.raspberrypi.com/debian''), (''armbian'',
           ''https://apt.armbian.com''), (''openeuler'', ''https://repo.openeuler.org''),
           (''anolis'', ''https://mirrors.openanolis.cn/anolis''), (''deepin'',
           ''https://community-packages.deepin.com/beige''), (''linuxmint'',
           ''https://mirrors.edge.kernel.org/linuxmint-packages''), (''solus'',
           ''https://cdn.getsol.us/repo''), (''trisquel'',
           ''https://archive.trisquel.info/trisquel''), (''linuxlite'',
           ''https://repo.linuxliteos.com/linuxlite''), (''ros'',
           ''http://packages.ros.org/ros2/ubuntu''), (''netbsd'', ''https://cdn.netbsd.org''),
           (''openbsd'', ''https://cdn.openbsd.org'')])
       SYSTEM_REPOSITORIES"

definition Upstreams_default :: upstreams where
  "Upstreams_default =
     \<lparr>up_github = default_github_base, up_github_raw = default_github_raw_base,
       up_packagist = default_packagist_base, up_docker_hub = default_docker_hub_registry,
       up_ghcr = default_ghcr_registry, up_quay = default_quay_registry, up_kubernetes =
       default_kubernetes_registry, up_gcr = default_gcr_registry, up_mcr =
       default_mcr_registry, up_elastic = default_elastic_registry, up_gitlab =
       default_gitlab_registry, up_nvcr = default_nvcr_registry, up_oracle =
       default_oracle_registry, up_npm = default_npm_registry, up_nvm = default_nvm_repository,
       up_opam = default_opam_repository, up_go_proxy = default_go_proxy, up_maven =
       default_maven_repository, up_rubygems = default_rubygems_repository, up_rustup =
       default_rustup_repository, up_nuget = default_nuget_repository, up_cpan =
       default_cpan_repository, up_cran = default_cran_repository, up_hackage =
       default_hackage_repository, up_julia = default_julia_repository, up_luarocks =
       default_luarocks_repository, up_clojars = default_clojars_repository, up_cocoapods =
       default_cocoapods_repository, up_pub_repository = default_pub_repository, up_anaconda =
       default_anaconda_repository, up_texlive = default_texlive_repository, up_winget =
       default_winget_repository, up_huggingface = default_huggingface_repository, up_elpa =
       default_elpa_repository, up_nix = default_nix_repository, up_guix =
       default_guix_repository, up_flatpak = default_flatpak_repository, up_homebrew =
       default_homebrew_bottles_repository, up_alpine = default_alpine_repository, up_openwrt =
       default_openwrt_repository, up_termux = default_termux_repository, up_debian =
       default_debian_repository, up_ubuntu = default_ubuntu_repository, up_fedora =
       default_fedora_repository, up_archlinux = default_archlinux_repository, up_opensuse =
       default_opensuse_repository, up_void = default_void_repository, up_gentoo =
       default_gentoo_repository, up_freebsd = default_freebsd_repository, up_additional_os =
       default_os_repositories, up_crates_index = default_crates_index, up_crates_api =
       default_crates_api, up_pypi_simple = default_pypi_simple, up_pypi_files =
       default_pypi_files\<rparr>"

definition TimeoutConfig_default :: timeout_config where
  "TimeoutConfig_default =
     \<lparr>tc_request_secs = default_request_timeout_secs\<rparr>"

definition UpstreamSelectionConfig_default :: selection_config where
  "UpstreamSelectionConfig_default =
     \<lparr>sel_strategy = default_upstream_selection_strategy, sel_failure_threshold =
       default_upstream_failure_threshold, sel_cooldown_secs =
       default_upstream_cooldown_secs\<rparr>"

definition ManagementConfig_default :: management_config where
  "ManagementConfig_default =
     \<lparr>mgc_enabled = False, mgc_listen_addr = default_management_listen_addr\<rparr>"

definition MetricsConfig_default :: metrics_config where
  "MetricsConfig_default =
     \<lparr>mtc_local_only = True\<rparr>"

definition SiteConfig_default :: site_config where
  "SiteConfig_default =
     \<lparr>sc_title = default_site_title, sc_description = default_site_description,
       sc_keywords = default_site_keywords, sc_icon_url = default_site_icon_url, sc_footer_text
       = ''''\<rparr>"

definition AlertConfig_default :: alert_config where
  "AlertConfig_default =
     \<lparr>alc_enabled = False, alc_webhook_url = '''', alc_email_enabled = False,
       alc_email_recipients = [], alc_quota_percent = default_alert_quota_percent,
       alc_source_failures = default_alert_source_failures, alc_cooldown_secs =
       default_alert_cooldown_secs\<rparr>"

definition RateLimitConfig_default :: rate_limit_config where
  "RateLimitConfig_default =
     \<lparr>rlc_enabled = False, rlc_requests_per_minute =
       default_rate_limit_requests_per_minute\<rparr>"

definition CacheConfig_default :: cache_config where
  "CacheConfig_default =
     \<lparr>cc_enabled = False, cc_directory = default_cache_directory, cc_max_entry_mb =
       default_cache_max_entry_mb, cc_max_total_mb = default_cache_max_total_mb,
       cc_default_ttl_secs = default_cache_default_ttl_secs, cc_max_ttl_secs =
       default_cache_max_ttl_secs\<rparr>"

definition GeoIpConfig_default :: geoip_config where
  "GeoIpConfig_default =
     \<lparr>gc_enabled = default_geoip_enabled, gc_ipv4_path = default_geoip_ipv4_path,
       gc_ipv6_path = default_geoip_ipv6_path\<rparr>"

definition AcmeDnsConfig_default :: acme_dns_config where
  "AcmeDnsConfig_default =
     \<lparr>adc_provider = '''', adc_cloudflare_zone_id = '''', adc_cloudflare_api_token =
       '''', adc_cloudflare_api_key = '''', adc_cloudflare_email = '''', adc_aliyun_domain =
       '''', adc_aliyun_access_key_id = '''', adc_aliyun_access_key_secret = '''',
       adc_tencent_domain = '''', adc_tencent_secret_id = '''', adc_tencent_secret_key = '''',
       adc_route53_hosted_zone_id = '''', adc_route53_access_key_id = '''',
       adc_route53_secret_access_key = '''', adc_route53_session_token = '''', adc_webhook_url =
       '''', adc_webhook_bearer_token = '''', adc_propagation_delay_secs =
       default_acme_dns_propagation_delay_secs\<rparr>"

definition AcmeConfig_default :: acme_config where
  "AcmeConfig_default =
     \<lparr>ac_enabled = False, ac_email = '''', ac_domains = [], ac_challenge =
       default_acme_challenge, ac_directory_url = default_acme_directory_url,
       ac_storage_directory = default_acme_storage_directory, ac_renew_before_days =
       default_acme_renew_before_days, ac_check_interval_hours =
       default_acme_check_interval_hours, ac_direct_https = False, ac_http_listen_addr =
       default_acme_http_listen_addr, ac_https_listen_addr = default_acme_https_listen_addr,
       ac_redirect_http_to_https = True, ac_dns = AcmeDnsConfig_default\<rparr>"

definition QuotaConfig_default :: quota_config where
  "QuotaConfig_default =
     \<lparr>qc_enabled = False, qc_bidirectional_accounting = False, qc_monthly_gb =
       default_quota_monthly_gb, qc_timezone = default_quota_timezone, qc_on_exceeded =
       default_quota_on_exceeded, qc_request_event_retention_days =
       default_request_event_retention_days, qc_default_user_monthly_gb = None\<rparr>"

definition WebauthnConfig_default :: webauthn_config where
  "WebauthnConfig_default =
     \<lparr>wc_enabled = False, wc_rp_id = '''', wc_rp_origin = '''', wc_rp_name =
       default_webauthn_rp_name, wc_require_passkey = False, wc_break_glass_username =
       default_break_glass_username\<rparr>"

definition UserAccessConfig_default :: user_access_config where
  "UserAccessConfig_default =
     \<lparr>uac_base_domain = '''', uac_mode = default_user_access_mode,
       uac_infrastructure_ready = False, uac_routing_id_min_length =
       default_routing_id_min_length, uac_routing_rotation_cooldown_hours =
       default_routing_rotation_cooldown_hours\<rparr>"

definition RegistrationConfig_default :: registration_config where
  "RegistrationConfig_default =
     \<lparr>rgc_mode = default_registration_mode, rgc_allowed_email_domains = [],
       rgc_email_token_ttl_minutes = default_email_token_ttl_minutes\<rparr>"

definition DownloadConfig_default :: download_config where
  "DownloadConfig_default =
     \<lparr>dlc_enabled = False, dlc_max_file_bytes = 10 * 2 ^ 30, dlc_daily_user_bytes = 20 *
       2 ^ 30, dlc_max_concurrent = 16, dlc_max_user_concurrent = 5, dlc_requests_per_minute =
       300, dlc_max_duration_secs = 1800, dlc_bandwidth_bytes_per_sec = 100 * 2 ^ 20\<rparr>"

text \<open>Derived defaults.\<close>

definition OutboundProxyConfig_default :: outbound_proxy_config where
  "OutboundProxyConfig_default =
     \<lparr>opc_enabled = False, opc_url = [], opc_no_proxy = [], opc_username = None, opc_password = None\<rparr>"

definition UpstreamTlsConfig_default :: upstream_tls_config where
  "UpstreamTlsConfig_default = \<lparr>utc_ca_certificates = [], utc_insecure_skip_verify = False\<rparr>"

definition Config_default :: config where
  "Config_default =
     \<lparr>cfg_database_path = default_database_path, cfg_listen_addr = default_listen_addr,
       cfg_management = ManagementConfig_default, cfg_metrics = MetricsConfig_default,
       cfg_public_base_url = '''', cfg_site = SiteConfig_default, cfg_trusted_proxies =
       default_trusted_proxies, cfg_enabled_proxies = default_enabled_proxies, cfg_upstreams =
       Upstreams_default, cfg_oci_token_issuers = default_oci_token_issuers, cfg_timeout =
       TimeoutConfig_default, cfg_upstream_selection = UpstreamSelectionConfig_default,
       cfg_rate_limit = RateLimitConfig_default, cfg_cache = CacheConfig_default, cfg_geoip =
       GeoIpConfig_default, cfg_acme = AcmeConfig_default, cfg_quota = QuotaConfig_default,
       cfg_download = DownloadConfig_default, cfg_alerts = AlertConfig_default, cfg_user_access
       = UserAccessConfig_default, cfg_registration = RegistrationConfig_default, cfg_webauthn =
       WebauthnConfig_default, cfg_outbound_proxy = OutboundProxyConfig_default,
       cfg_upstream_tls = UpstreamTlsConfig_default, cfg_forward_client_authorization = False,
       cfg_upstream_auth = []\<rparr>"

section \<open>A small deployment\<close>

text \<open>One upstream, no site texts and no certificates; the sample runs of the components use it.\<close>

definition pypi_upstreams :: upstreams where
  "pypi_upstreams = \<lparr>up_github = [], up_github_raw = [], up_packagist = [], up_docker_hub =
     [], up_ghcr = [], up_quay = [], up_kubernetes = [], up_gcr = [], up_mcr = [], up_elastic = [],
     up_gitlab = [], up_nvcr = [], up_oracle = [], up_npm = [], up_nvm = [], up_opam = [],
     up_go_proxy = [], up_maven = [], up_rubygems = [], up_rustup = [], up_nuget = [], up_cpan = [],
     up_cran = [], up_hackage = [], up_julia = [], up_luarocks = [], up_clojars = [], up_cocoapods =
     [], up_pub_repository = [], up_anaconda = [], up_texlive = [], up_winget = [], up_huggingface =
     [], up_elpa = [], up_nix = [], up_guix = [], up_flatpak = [], up_homebrew = [], up_alpine = [],
     up_openwrt = [], up_termux = [], up_debian = [], up_ubuntu = [], up_fedora = [], up_archlinux =
     [], up_opensuse = [], up_void = [], up_gentoo = [], up_freebsd = [], up_additional_os = [],
     up_crates_index = [], up_crates_api = [], up_pypi_simple = ''https://pypi.org/simple'',
     up_pypi_files = []\<rparr>"

definition small_config :: config where
  "small_config = \<lparr>cfg_database_path = [], cfg_listen_addr = [], cfg_management =
     ManagementConfig_default, cfg_metrics = MetricsConfig_default, cfg_public_base_url = [],
     cfg_site = \<lparr>sc_title = [], sc_description = [], sc_keywords = [], sc_icon_url = [],
     sc_footer_text = []\<rparr>, cfg_trusted_proxies = [], cfg_enabled_proxies = [], cfg_upstreams
     = pypi_upstreams, cfg_oci_token_issuers = [], cfg_timeout = TimeoutConfig_default,
     cfg_upstream_selection = UpstreamSelectionConfig_default, cfg_rate_limit =
     RateLimitConfig_default, cfg_cache = CacheConfig_default, cfg_geoip = GeoIpConfig_default,
     cfg_acme = \<lparr>ac_enabled = False, ac_email = [], ac_domains = [], ac_challenge = [],
     ac_directory_url = [], ac_storage_directory = [], ac_renew_before_days = 0,
     ac_check_interval_hours = 0, ac_direct_https = False, ac_http_listen_addr = [],
     ac_https_listen_addr = [], ac_redirect_http_to_https = False, ac_dns = \<lparr>adc_provider =
     [], adc_cloudflare_zone_id = [], adc_cloudflare_api_token = [], adc_cloudflare_api_key = [],
     adc_cloudflare_email = [], adc_aliyun_domain = [], adc_aliyun_access_key_id = [],
     adc_aliyun_access_key_secret = [], adc_tencent_domain = [], adc_tencent_secret_id = [],
     adc_tencent_secret_key = [], adc_route53_hosted_zone_id = [], adc_route53_access_key_id = [],
     adc_route53_secret_access_key = [], adc_route53_session_token = [], adc_webhook_url = [],
     adc_webhook_bearer_token = [], adc_propagation_delay_secs = 0\<rparr>\<rparr>, cfg_quota =
     QuotaConfig_default, cfg_download = DownloadConfig_default, cfg_alerts = \<lparr>alc_enabled =
     False, alc_webhook_url = [], alc_email_enabled = False, alc_email_recipients = [],
     alc_quota_percent = 0, alc_source_failures = 0, alc_cooldown_secs = 0\<rparr>, cfg_user_access
     = UserAccessConfig_default, cfg_registration = RegistrationConfig_default, cfg_webauthn =
     WebauthnConfig_default, cfg_outbound_proxy = OutboundProxyConfig_default, cfg_upstream_tls =
     UpstreamTlsConfig_default, cfg_forward_client_authorization = False, cfg_upstream_auth =
     []\<rparr>"

section \<open>Upgrades of old defaults\<close>

definition Upstreams_upgrade_legacy_defaults :: "upstreams \<Rightarrow> upstreams" where
  "Upstreams_upgrade_legacy_defaults u =
     (let u1 = (if trim_end_matches (CHR ''/'') (up_fedora u) = ''https://mirrors.xmission.com/fedora/linux''
                then u\<lparr>up_fedora := default_fedora_repository\<rparr> else u)
      in u1\<lparr>up_additional_os :=
           foldl (\<lambda>m code. case system_repository code of
                    Some r \<Rightarrow> or_insert code (sr_upstream r) m
                  | None \<Rightarrow> m)
             (up_additional_os u1) [''epel'', ''epel-next'', ''epel-archive'', ''alma-vault'', ''docker-ce'']\<rparr>)"

section \<open>Properties\<close>

text \<open>A requested URL is expanded by the matching upstream group of longest primary
  path, the first one in configuration order among equals; without a matching group the
  request goes to the URL itself.  There is always a candidate.\<close>

theorem candidates_from_longest_group:
  "upstream_candidates_for L c requested \<noteq> [] \<and>
   ((\<forall>g \<in> set (upstream_groups (cfg_upstreams c)). group_match L requested g = None) \<and>
      upstream_candidates_for L c requested = [requested]
    \<or> (\<exists>pre g post n. upstream_groups (cfg_upstreams c) = pre @ g # post \<and>
        group_match L requested g = Some (n, upstream_candidates_for L c requested) \<and>
        (\<forall>h \<in> set pre. \<forall>m d. group_match L requested h = Some (m, d) \<longrightarrow> m < n) \<and>
        (\<forall>h \<in> set post. \<forall>m d. group_match L requested h = Some (m, d) \<longrightarrow> m \<le> n)))"
  by (rule candidates_cases [of c L requested]) (use candidates_nonempty [of L c requested] in blast)+

text \<open>Expansion never invents a destination: every candidate is the requested URL
  itself or has the origin of a configured endpoint, and every expanded candidate carries
  the query of the request.\<close>

theorem candidates_only_configured_origins:
  assumes "url_lib_ok L" and "u \<in> set (upstream_candidates_for L c requested)"
  shows "u_query u = u_query requested \<and>
     (u = requested \<or>
      (\<exists>g \<in> set (upstream_groups (cfg_upstreams c)). \<exists>e \<in> set (parse_url_list g). \<exists>p.
         url_parse L e = Some p \<and> url_origin u = url_origin p))"
proof (cases rule: candidates_cases [of c L requested])
  case none
  with assms(2) show ?thesis by simp
next
  case (group pre g post n)
  from group(2) obtain suffix where
    "upstream_candidates_for L c requested = expand_endpoints L requested suffix (parse_url_list g)"
    unfolding group_match_def by (auto split: list.splits option.splits dest: sym)
  with assms have "u_query u = u_query requested \<and> (\<exists>e \<in> set (parse_url_list g). \<exists>p. url_parse L e = Some p \<and> url_origin u = url_origin p)"
    using expand_endpoints_mem by metis
  moreover have "g \<in> set (upstream_groups (cfg_upstreams c))" by (simp add: group(1))
  ultimately show ?thesis by blast
qed

text \<open>Configured credentials are released only to an origin that is configured for the
  same upstream: if a request gets an \<open>upstream_auth\<close> entry, the URL has the scheme, host
  and port of one of the endpoints of the group the entry names.\<close>

theorem credentials_bound_to_configured_origin:
  assumes "upstream_auth_for L c url = Some auth"
  shows "\<exists>name group e p. (name, auth) \<in> set (cfg_upstream_auth c) \<and>
     upstream_url (cfg_upstreams c) name = Some group \<and>
     e \<in> set (map trim (split_on (CHR '','') group)) \<and> url_parse L e = Some p \<and>
     url_origin p = url_origin url"
proof -
  from find_map_Some [OF assms [unfolded upstream_auth_for_def]]
  obtain name a where m: "(name, a) \<in> set (cfg_upstream_auth c)"
    and r: "(case upstream_url (cfg_upstreams c) name of None \<Rightarrow> None
       | Some upstream \<Rightarrow>
           if list_ex (\<lambda>configured. same_endpoint configured url)
                (filter_map (url_parse L) (map trim (split_on (CHR '','') upstream)))
           then Some a else None) = Some auth"
    by auto
  then obtain group where g: "upstream_url (cfg_upstreams c) name = Some group" and a: "a = auth"
    and l: "list_ex (\<lambda>configured. same_endpoint configured url)
                (filter_map (url_parse L) (map trim (split_on (CHR '','') group)))"
    by (auto split: option.splits if_splits)
  from l obtain e p where "e \<in> set (map trim (split_on (CHR '','') group))" "url_parse L e = Some p"
      "url_origin p = url_origin url"
    unfolding list_ex_iff set_filter_map same_endpoint_origin by blast
  with m g a show ?thesis by blast
qed

definition sample_auth :: upstream_auth where
  "sample_auth = \<lparr>ua_username = None, ua_password = None, ua_bearer_token = Some ''t''\<rparr>"

end
