(* ===== verification/Config_Validate.thy ===== *)
theory Config_Validate
  imports Config_Defaults
begin

text \<open>
  Loading a configuration (\<open>crates/server/src/config.rs\<close>, \<open>download.rs\<close>): the validators of
  the sections, \<open>Config::validate\<close>, the normalisation of the ACME section and the rule that
  keeps stored secrets when a form submits blanks.  The parser of IANA time zone names is the
  parameter \<open>tz_known\<close>, the \<open>url\<close> crate the parameter \<open>L\<close>.  An error is the field it names.
\<close>

section \<open>Results\<close>

datatype config_error = Bail string | UrlError url_error

fun all_ok :: "('e + unit) list \<Rightarrow> 'e + unit" where
  "all_ok [] = Inr ()"
| "all_ok (r # rs) = (case r of Inl e \<Rightarrow> Inl e | Inr _ \<Rightarrow> all_ok rs)"

definition bail_if :: "bool \<Rightarrow> string \<Rightarrow> config_error + unit" where
  "bail_if b what = (if b then Inl (Bail what) else Inr ())"

definition url_result :: "url_error + unit \<Rightarrow> config_error + unit" where
  "url_result r = (case r of Inl e \<Rightarrow> Inl (UrlError e) | Inr _ \<Rightarrow> Inr ())"

lemma all_ok_iff: "all_ok rs = Inr () \<longleftrightarrow> (\<forall>r \<in> set rs. r = Inr ())"
  by (induction rs) (auto split: sum.splits)

lemma all_ok_Cons [simp]: "all_ok (r # rs) = Inr () \<longleftrightarrow> r = Inr () \<and> all_ok rs = Inr ()"
  by (auto split: sum.splits)

declare all_ok.simps(2) [simp del]

lemma bail_if_ok [simp]: "bail_if b w = Inr () \<longleftrightarrow> \<not> b"
  by (simp add: bail_if_def)

lemma url_result_ok [simp]: "url_result r = Inr () \<longleftrightarrow> r = Inr ()"
  by (simp add: url_result_def split: sum.splits)

section \<open>Names\<close>

definition is_ascii_lowercase :: "char \<Rightarrow> bool" where
  "is_ascii_lowercase c \<longleftrightarrow> 97 \<le> (of_char c :: nat) \<and> (of_char c :: nat) \<le> 122"

definition is_ascii_alphanumeric :: "char \<Rightarrow> bool" where
  "is_ascii_alphanumeric c \<longleftrightarrow> is_digit c \<or> is_ascii_lowercase (ascii_lower c)"

text \<open>\<open>chars().count()\<close> on the UTF-8 bytes of a text.\<close>

definition chars_count :: "string \<Rightarrow> nat" where
  "chars_count s = length (filter (\<lambda>c. (of_char c :: nat) < 128 \<or> 192 \<le> (of_char c :: nat)) s)"

definition valid_acme_domain :: "string \<Rightarrow> bool" where
  "valid_acme_domain value =
     (let domain = unwrap_or value (strip_prefix ''*.'' value)
      in domain \<noteq> [] \<and> domain = to_ascii_lowercase domain
         \<and> \<not> starts_with domain ''.'' \<and> \<not> ends_with domain ''.''
         \<and> contains_str domain ''.'' \<and> \<not> contains_str domain ''..''
         \<and> list_all (\<lambda>label. label \<noteq> [] \<and> \<not> starts_with label ''-'' \<and> \<not> ends_with label ''-''
               \<and> list_all (\<lambda>c. is_ascii_alphanumeric c \<or> c = CHR ''-'') label)
             (split_on (CHR ''.'') domain))"

definition valid_dns_zone :: "string \<Rightarrow> bool" where
  "valid_dns_zone value \<longleftrightarrow> \<not> starts_with value ''*.'' \<and> valid_acme_domain value"

definition valid_email_address :: "string \<Rightarrow> bool" where
  "valid_email_address value \<longleftrightarrow>
     length value \<le> 320 \<and> \<not> list_ex is_ws value
     \<and> is_some_and (\<lambda>(local_part, domain). local_part \<noteq> [] \<and> contains_str domain ''.''
          \<and> \<not> starts_with domain ''.'' \<and> \<not> ends_with domain ''.'')
        (split_once (CHR ''@'') value)"

text \<open>\<open>SocketAddr::from_str\<close>, with the port and the IPv6 scope.\<close>

definition scope_of :: "string \<Rightarrow> nat" where
  "scope_of s =
     (case split_once (CHR ''%'') s of
        None \<Rightarrow> 0
      | Some (_, r) \<Rightarrow> digits_val (takeWhile (\<lambda>c. c \<noteq> CHR '']'') r))"

definition parse_socket_addr :: "string \<Rightarrow> (ip_addr \<times> nat \<times> nat) option" where
  "parse_socket_addr s =
     map_option (\<lambda>ip. (ip, scope_of s, digits_val (rev (takeWhile (\<lambda>c. c \<noteq> CHR '':'') (rev s)))))
       (parse_socket_ip s)"

section \<open>Sections of the configuration\<close>

definition DownloadConfig_validate :: "download_config \<Rightarrow> config_error + unit" where
  "DownloadConfig_validate d = all_ok
     [bail_if (\<not> (1 \<le> dlc_max_file_bytes d \<and> dlc_max_file_bytes d \<le> 64 * 2 ^ 30)) ''download.max_file_bytes'',
      bail_if (\<not> (1 \<le> dlc_daily_user_bytes d \<and> dlc_daily_user_bytes d \<le> nat I64_MAX div 2)) ''download.daily_user_bytes'',
      bail_if (\<not> (1 \<le> dlc_max_concurrent d \<and> dlc_max_concurrent d \<le> 128 \<and>
                  1 \<le> dlc_max_user_concurrent d \<and> dlc_max_user_concurrent d \<le> dlc_max_concurrent d))
        ''download concurrency limits'',
      bail_if (\<not> (1 \<le> dlc_requests_per_minute d \<and> dlc_requests_per_minute d \<le> 3600)) ''download.requests_per_minute'',
      bail_if (\<not> (1 \<le> dlc_max_duration_secs d \<and> dlc_max_duration_secs d \<le> 86400)) ''download.max_duration_secs'',
      bail_if (\<not> (65536 \<le> dlc_bandwidth_bytes_per_sec d \<and> dlc_bandwidth_bytes_per_sec d \<le> 2 ^ 30)) ''download bandwidth'']"

definition SiteConfig_validate :: "url_lib \<Rightarrow> site_config \<Rightarrow> config_error + unit" where
  "SiteConfig_validate L s =
     (let title_length = chars_count (trim (sc_title s)); icon = trim (sc_icon_url s)
      in all_ok
        [bail_if (\<not> (1 \<le> title_length \<and> title_length \<le> 100)) ''site.title'',
         bail_if (chars_count (sc_description s) > 300) ''site.description'',
         bail_if (chars_count (sc_footer_text s) > 200) ''site.footer_text'',
         bail_if (length (sc_keywords s) > 20
             \<or> list_ex (\<lambda>k. trim k = [] \<or> chars_count k > 50) (sc_keywords s)) ''site.keywords'',
         bail_if (icon = [] \<or> length icon > 2048) ''site.icon_url length'',
         (if starts_with icon ''/''
          then bail_if (starts_with icon ''//'' \<or> list_ex is_ws icon) ''site.icon_url''
          else url_result (validate_http_url L ''site.icon_url'' icon))])"

definition dns_domain_char :: "char \<Rightarrow> bool" where
  "dns_domain_char c \<longleftrightarrow> is_ascii_lowercase c \<or> is_digit c \<or> c = CHR ''.'' \<or> c = CHR ''-''"

definition RegistrationConfig_validate :: "registration_config \<Rightarrow> config_error + unit" where
  "RegistrationConfig_validate r = all_ok
     [bail_if (rgc_mode r \<notin> set [''invite_only'', ''domain_allowlist'', ''open'', ''disabled'']) ''registration.mode'',
      bail_if (\<not> (1 \<le> rgc_email_token_ttl_minutes r \<and> rgc_email_token_ttl_minutes r \<le> 60))
        ''registration.email_token_ttl_minutes'',
      bail_if (list_ex (\<lambda>domain. domain = [] \<or> starts_with domain ''.'' \<or> ends_with domain ''.''
           \<or> contains_str domain ''..'' \<or> contains_str domain ''@''
           \<or> list_ex (\<lambda>label. label = [] \<or> starts_with label ''-'' \<or> ends_with label ''-'')
               (split_on (CHR ''.'') domain)
           \<or> \<not> list_all dns_domain_char domain) (rgc_allowed_email_domains r))
        ''registration.allowed_email_domains'',
      bail_if (rgc_mode r = ''domain_allowlist'' \<and> rgc_allowed_email_domains r = [])
        ''registration.allowed_email_domains is required'']"

definition UserAccessConfig_validate :: "url_lib \<Rightarrow> user_access_config \<Rightarrow> string \<Rightarrow> config_error + unit" where
  "UserAccessConfig_validate L a public_base_url =
     (if uac_mode a \<noteq> ''public'' \<and> uac_mode a \<noteq> ''subdomain_required'' then Inl (Bail ''user_access.mode'')
      else if uac_mode a = ''subdomain_required'' \<and> \<not> uac_infrastructure_ready a
      then Inl (Bail ''user_access.infrastructure_ready'')
      else if \<not> (8 \<le> uac_routing_id_min_length a \<and> uac_routing_id_min_length a \<le> 32)
      then Inl (Bail ''user_access.routing_id_min_length'')
      else if uac_routing_rotation_cooldown_hours a > 24 * 365
      then Inl (Bail ''user_access.routing_rotation_cooldown_hours'')
      else
        (let domain = trim (uac_base_domain a)
         in if domain = [] then
              (if uac_mode a = ''subdomain_required'' then Inl (Bail ''user_access.base_domain is required'')
               else Inr ())
            else if starts_with domain ''.'' \<or> ends_with domain ''.'' \<or> contains_str domain ''..''
                 \<or> contains_str domain ''*'' \<or> parse_ip domain \<noteq> None \<or> \<not> list_all dns_domain_char domain
            then Inl (Bail ''user_access.base_domain'')
            else case url_parse L public_base_url of
                   None \<Rightarrow> Inl (Bail ''public_base_url must be set'')
                 | Some public_url \<Rightarrow>
                     if u_scheme public_url \<noteq> ''https'' \<or> u_host public_url \<noteq> Some domain
                     then Inl (Bail ''public_base_url'') else Inr ()))"

definition OutboundProxyConfig_validate :: "url_lib \<Rightarrow> outbound_proxy_config \<Rightarrow> config_error + unit" where
  "OutboundProxyConfig_validate L p =
     (if \<not> opc_enabled p then Inr ()
      else if trim (opc_url p) = [] then Inl (Bail ''outbound_proxy.url cannot be empty'')
      else case url_parse L (opc_url p) of
             None \<Rightarrow> Inl (Bail ''outbound_proxy.url is invalid'')
           | Some url \<Rightarrow> all_ok
               [bail_if (u_scheme url \<notin> set [''http'', ''https'', ''socks5'', ''socks5h'']) ''outbound_proxy.url scheme'',
                bail_if (u_host url = None) ''outbound_proxy.url host'',
                bail_if (u_username url \<noteq> [] \<or> u_password url \<noteq> None) ''outbound_proxy.url credentials'',
                (case (opc_username p, opc_password p) of
                   (None, None) \<Rightarrow> Inr ()
                 | (Some username, Some password) \<Rightarrow>
                     bail_if (\<not> (trim username \<noteq> [] \<and> password \<noteq> [])) ''outbound_proxy.username''
                 | _ \<Rightarrow> Inl (Bail ''outbound_proxy.username'')),
                bail_if (list_ex (\<lambda>v. trim v = []) (opc_no_proxy p)) ''outbound_proxy.no_proxy''])"

definition UpstreamTlsConfig_validate :: "upstream_tls_config \<Rightarrow> config_error + unit" where
  "UpstreamTlsConfig_validate t = all_ok
     [bail_if (list_ex (\<lambda>path. trim path = []) (utc_ca_certificates t)) ''upstream_tls.ca_certificates'',
      bail_if (\<not> distinct (utc_ca_certificates t)) ''upstream_tls.ca_certificates contains a duplicate path'']"

definition WebauthnConfig_validate :: "url_lib \<Rightarrow> webauthn_config \<Rightarrow> config_error + unit" where
  "WebauthnConfig_validate L w =
     (if \<not> wc_enabled w then bail_if (wc_require_passkey w) ''webauthn.require_passkey''
      else
        (let rp_id = trim (wc_rp_id w)
         in if rp_id = [] \<or> starts_with rp_id ''.'' \<or> ends_with rp_id ''.'' \<or> contains_str rp_id ''..''
              \<or> contains_str rp_id ''*'' \<or> parse_ip rp_id \<noteq> None
              \<or> \<not> list_all (\<lambda>c. is_ascii_alphanumeric c \<or> c = CHR ''.'' \<or> c = CHR ''-'') rp_id
            then Inl (Bail ''webauthn.rp_id'')
            else if trim (wc_rp_name w) = [] then Inl (Bail ''webauthn.rp_name'')
            else if trim (wc_break_glass_username w) = [] then Inl (Bail ''webauthn.break_glass_username'')
            else case url_parse L (wc_rp_origin w) of
                   None \<Rightarrow> Inl (Bail ''webauthn.rp_origin is invalid'')
                 | Some origin \<Rightarrow>
                     if u_scheme origin \<noteq> ''https'' \<or> u_host origin = None \<or> u_username origin \<noteq> []
                        \<or> u_password origin \<noteq> None \<or> u_path origin \<noteq> ''/'' \<or> u_query origin \<noteq> None
                        \<or> u_fragment origin \<noteq> None
                     then Inl (Bail ''webauthn.rp_origin'')
                     else (let origin_host = unwrap_or [] (u_host origin)
                           in bail_if (origin_host \<noteq> rp_id \<and> \<not> ends_with origin_host (CHR ''.'' # rp_id))
                                ''webauthn.rp_id must equal or be a suffix'')))"

definition acme_challenge_ok :: "url_lib \<Rightarrow> acme_config \<Rightarrow> config_error + unit" where
  "acme_challenge_ok L a =
     (let d = ac_dns a; blank = (\<lambda>s. trim s = [])
      in if ac_challenge a = ''http-01'' then
           bail_if (list_ex (\<lambda>domain. starts_with domain ''*.'') (ac_domains a)) ''wildcard ACME domains''
         else if ac_challenge a = ''dns-01'' then
           (if adc_provider d = ''cloudflare'' then
              (let token = \<not> blank (adc_cloudflare_api_token d);
                   global_key = \<not> blank (adc_cloudflare_api_key d) \<and> \<not> blank (adc_cloudflare_email d)
               in bail_if (blank (adc_cloudflare_zone_id d) \<or> (\<not> token \<and> \<not> global_key)) ''Cloudflare DNS-01'')
            else if adc_provider d = ''aliyun'' then
              bail_if (\<not> valid_dns_zone (adc_aliyun_domain d) \<or> blank (adc_aliyun_access_key_id d)
                \<or> blank (adc_aliyun_access_key_secret d)) ''Alibaba Cloud DNS-01''
            else if adc_provider d = ''tencent'' then
              bail_if (\<not> valid_dns_zone (adc_tencent_domain d) \<or> blank (adc_tencent_secret_id d)
                \<or> blank (adc_tencent_secret_key d)) ''Tencent DNSPod DNS-01''
            else if adc_provider d = ''route53'' then
              bail_if (blank (adc_route53_hosted_zone_id d) \<or> blank (adc_route53_access_key_id d)
                \<or> blank (adc_route53_secret_access_key d)) ''AWS Route53 DNS-01''
            else if adc_provider d = ''webhook'' then
              url_result (validate_http_url L ''acme.dns.webhook_url'' (adc_webhook_url d))
            else Inl (Bail ''acme.dns.provider''))
         else Inl (Bail ''acme.challenge''))"

definition AcmeConfig_validate :: "url_lib \<Rightarrow> acme_config \<Rightarrow> config_error + unit" where
  "AcmeConfig_validate L a =
     (if ac_direct_https a \<and> \<not> ac_enabled a then Inl (Bail ''acme.direct_https'')
      else if \<not> ac_enabled a then Inr ()
      else all_ok
        [bail_if (trim (ac_email a) = [] \<or> \<not> contains_str (ac_email a) ''@'') ''acme.email'',
         bail_if (ac_domains a = [] \<or> list_ex (\<lambda>domain. \<not> valid_acme_domain domain) (ac_domains a)) ''acme.domains'',
         bail_if (trim (ac_storage_directory a) = []) ''acme.storage_directory'',
         bail_if (ac_renew_before_days a = 0 \<or> ac_check_interval_hours a = 0) ''ACME renewal intervals'',
         (if ac_direct_https a then
            (case parse_socket_addr (ac_http_listen_addr a) of
               None \<Rightarrow> Inl (Bail ''acme.http_listen_addr'')
             | Some http_addr \<Rightarrow>
                 (case parse_socket_addr (ac_https_listen_addr a) of
                    None \<Rightarrow> Inl (Bail ''acme.https_listen_addr'')
                  | Some https_addr \<Rightarrow>
                      bail_if (http_addr = https_addr) ''ACME HTTP and HTTPS listen addresses must be different''))
          else Inr ()),
         (case url_parse L (ac_directory_url a) of
            None \<Rightarrow> Inl (Bail ''acme.directory_url is invalid'')
          | Some directory \<Rightarrow>
              bail_if (u_scheme directory \<noteq> ''https'' \<or> u_host directory = None) ''acme.directory_url''),
         acme_challenge_ok L a])"

section \<open>The whole configuration\<close>

definition validate_listeners :: "config \<Rightarrow> config_error + unit" where
  "validate_listeners c =
     (case parse_socket_addr (cfg_listen_addr c) of
        None \<Rightarrow> Inl (Bail ''listen_addr'')
      | Some public_listener \<Rightarrow>
          if mgc_enabled (cfg_management c) then
            (case parse_socket_addr (mgc_listen_addr (cfg_management c)) of
               None \<Rightarrow> Inl (Bail ''management.listen_addr'')
             | Some management_listener \<Rightarrow>
                 bail_if (management_listener = public_listener) ''management.listen_addr must differ'')
          else Inr ())"

definition validate_alerts :: "url_lib \<Rightarrow> alert_config \<Rightarrow> config_error + unit" where
  "validate_alerts L a = all_ok
     [bail_if (\<not> (1 \<le> alc_quota_percent a \<and> alc_quota_percent a \<le> 100)) ''alerts.quota_percent'',
      bail_if (alc_source_failures a = 0 \<or> alc_cooldown_secs a = 0) ''alerts.source_failures'',
      bail_if (alc_enabled a \<and> trim (alc_webhook_url a) = []
          \<and> (\<not> alc_email_enabled a \<or> alc_email_recipients a = [])) ''alerts require a webhook URL'',
      (if alc_enabled a \<and> trim (alc_webhook_url a) \<noteq> []
       then url_result (validate_http_url L ''alerts.webhook_url'' (alc_webhook_url a)) else Inr ()),
      bail_if (alc_email_enabled a \<and> alc_email_recipients a = []) ''alerts.email_recipients'',
      bail_if (list_ex (\<lambda>r. \<not> valid_email_address r) (alc_email_recipients a)) ''invalid alert email recipient'']"

definition validate_limits :: "(string \<Rightarrow> bool) \<Rightarrow> url_lib \<Rightarrow> config \<Rightarrow> config_error + unit" where
  "validate_limits tz_known L c =
     (let sel = cfg_upstream_selection c; rl = cfg_rate_limit c; ca = cfg_cache c; g = cfg_geoip c; q = cfg_quota c
      in all_ok
        [bail_if (list_ex (\<lambda>p. isl (parse_trusted_proxy p)) (cfg_trusted_proxies c)) ''trusted_proxies'',
         bail_if (tc_request_secs (cfg_timeout c) = 0) ''timeout.request_secs'',
         bail_if (sel_strategy sel \<notin> set [''ordered'', ''adaptive'']) ''upstream_selection.strategy'',
         bail_if (sel_failure_threshold sel = 0) ''upstream_selection.failure_threshold'',
         bail_if (sel_cooldown_secs sel = 0) ''upstream_selection.cooldown_secs'',
         bail_if (rlc_enabled rl \<and> rlc_requests_per_minute rl = 0) ''rate_limit.requests_per_minute'',
         bail_if (cc_enabled ca \<and> trim (cc_directory ca) = []) ''cache.directory'',
         bail_if (cc_enabled ca \<and> cc_max_entry_mb ca = 0) ''cache.max_entry_mb'',
         bail_if (cc_enabled ca \<and> cc_max_total_mb ca = 0) ''cache.max_total_mb'',
         bail_if (cc_enabled ca \<and> cc_default_ttl_secs ca = 0) ''cache.default_ttl_secs'',
         bail_if (cc_enabled ca \<and> cc_max_ttl_secs ca < cc_default_ttl_secs ca) ''cache.max_ttl_secs'',
         bail_if (gc_enabled g \<and> trim (gc_ipv4_path g) = [] \<and> trim (gc_ipv6_path g) = []) ''geoip'',
         AcmeConfig_validate L (cfg_acme c),
         bail_if (qc_enabled q \<and> trim (qc_timezone q) = []) ''quota.timezone cannot be empty'',
         bail_if (qc_request_event_retention_days q = 0) ''quota.request_event_retention_days'',
         bail_if (qc_timezone q \<noteq> ''local'' \<and> \<not> tz_known (qc_timezone q)) ''quota.timezone'',
         bail_if (qc_on_exceeded q \<notin> set [''stop_proxy'', ''throttle'']) ''quota.on_exceeded''])"

definition supported_proxies :: "string list" where
  "supported_proxies =
     [''github'', ''composer'', ''oci'', ''npm'', ''nvm'', ''opam'', ''go'', ''maven'', ''rubygems'', ''rustup'',
      ''nuget'', ''cpan'', ''cran'', ''hackage'', ''julia'', ''luarocks'', ''clojars'', ''cocoapods'', ''pub'',
      ''anaconda'', ''texlive'', ''elpa'', ''nix'', ''guix'', ''flatpak'', ''homebrew'', ''winget'', ''os'',
      ''crates'', ''pypi'', ''huggingface'']"

definition validate_urls :: "url_lib \<Rightarrow> (string \<times> string) list \<Rightarrow> config_error + unit" where
  "validate_urls L fs = all_ok (map (\<lambda>(field, value). url_result (validate_http_url L field value)) fs)"

definition oci_registries :: "string list" where
  "oci_registries = [''docker_hub'', ''ghcr'', ''quay'', ''kubernetes'', ''gcr'', ''mcr'', ''elastic'', ''gitlab'',
     ''nvcr'', ''oracle'']"

definition validate_token_issuers :: "url_lib \<Rightarrow> (string \<times> string list) list \<Rightarrow> config_error + unit" where
  "validate_token_issuers L m = all_ok (map (\<lambda>(registry, issuers).
     if registry \<notin> set oci_registries then Inl (Bail ''oci_token_issuers contains unknown registry'')
     else all_ok (map (\<lambda>issuer. url_result (validate_https_origin L (''oci_token_issuers.'' @ registry) issuer))
            issuers)) m)"

definition validate_huggingface :: "url_lib \<Rightarrow> string \<Rightarrow> config_error + unit" where
  "validate_huggingface L value = all_ok (map (\<lambda>endpoint.
     case url_parse L endpoint of
       None \<Rightarrow> Inl (UrlError (BadUrl ''upstreams.huggingface'' 0))
     | Some url \<Rightarrow> bail_if (u_username url \<noteq> [] \<or> u_password url \<noteq> None \<or> u_query url \<noteq> None
           \<or> u_fragment url \<noteq> None) ''upstreams.huggingface'') (parse_url_list value))"

definition validate_upstreams :: "url_lib \<Rightarrow> config \<Rightarrow> config_error + unit" where
  "validate_upstreams L c =
     (let u = cfg_upstreams c
      in all_ok
      [validate_urls L
       [(''upstreams.github'', up_github u), (''upstreams.github_raw'', up_github_raw u),
        (''upstreams.packagist'', up_packagist u), (''upstreams.docker_hub'', up_docker_hub u),
        (''upstreams.ghcr'', up_ghcr u), (''upstreams.quay'', up_quay u),
        (''upstreams.kubernetes'', up_kubernetes u), (''upstreams.gcr'', up_gcr u),
        (''upstreams.mcr'', up_mcr u), (''upstreams.elastic'', up_elastic u),
        (''upstreams.gitlab'', up_gitlab u), (''upstreams.nvcr'', up_nvcr u),
        (''upstreams.oracle'', up_oracle u)],
       validate_token_issuers L (cfg_oci_token_issuers c),
       validate_urls L
       [(''upstreams.npm'', up_npm u), (''upstreams.nvm'', up_nvm u),
        (''upstreams.opam'', up_opam u), (''upstreams.go_proxy'', up_go_proxy u),
        (''upstreams.maven'', up_maven u), (''upstreams.rubygems'', up_rubygems u),
        (''upstreams.rustup'', up_rustup u), (''upstreams.nuget'', up_nuget u),
        (''upstreams.cpan'', up_cpan u), (''upstreams.cran'', up_cran u),
        (''upstreams.hackage'', up_hackage u), (''upstreams.julia'', up_julia u),
        (''upstreams.luarocks'', up_luarocks u), (''upstreams.clojars'', up_clojars u),
        (''upstreams.cocoapods'', up_cocoapods u),
        (''upstreams.pub_repository'', up_pub_repository u),
        (''upstreams.anaconda'', up_anaconda u), (''upstreams.texlive'', up_texlive u),
        (''upstreams.winget'', up_winget u), (''upstreams.huggingface'', up_huggingface u)],
       validate_huggingface L (up_huggingface u),
       validate_urls L
       [(''upstreams.elpa'', up_elpa u), (''upstreams.nix'', up_nix u),
        (''upstreams.guix'', up_guix u), (''upstreams.flatpak'', up_flatpak u),
        (''upstreams.homebrew'', up_homebrew u), (''upstreams.alpine'', up_alpine u),
        (''upstreams.openwrt'', up_openwrt u), (''upstreams.termux'', up_termux u),
        (''upstreams.debian'', up_debian u), (''upstreams.ubuntu'', up_ubuntu u),
        (''upstreams.fedora'', up_fedora u), (''upstreams.archlinux'', up_archlinux u),
        (''upstreams.opensuse'', up_opensuse u), (''upstreams.void'', up_void u),
        (''upstreams.gentoo'', up_gentoo u), (''upstreams.freebsd'', up_freebsd u)],
       validate_urls L (map (\<lambda>(target, url). (''upstreams.additional_os.'' @ target, url)) (up_additional_os u)),
       validate_urls L
       [(''upstreams.crates_index'', up_crates_index u),
        (''upstreams.crates_api'', up_crates_api u),
        (''upstreams.pypi_simple'', up_pypi_simple u),
        (''upstreams.pypi_files'', up_pypi_files u)]])"

definition Config_validate :: "(string \<Rightarrow> bool) \<Rightarrow> url_lib \<Rightarrow> config \<Rightarrow> config_error + unit" where
  "Config_validate tz_known L c = all_ok
     [DownloadConfig_validate (cfg_download c),
      bail_if (trim (cfg_database_path c) = []) ''database_path'',
      validate_listeners c,
      validate_alerts L (cfg_alerts c),
      (if cfg_public_base_url c \<noteq> [] then url_result (validate_http_url L ''public_base_url'' (cfg_public_base_url c))
       else Inr ()),
      SiteConfig_validate L (cfg_site c),
      validate_limits tz_known L c,
      UserAccessConfig_validate L (cfg_user_access c) (cfg_public_base_url c),
      RegistrationConfig_validate (cfg_registration c),
      WebauthnConfig_validate L (cfg_webauthn c),
      OutboundProxyConfig_validate L (cfg_outbound_proxy c),
      UpstreamTlsConfig_validate (cfg_upstream_tls c),
      bail_if (\<not> upstream_auth_valid c) ''upstream_auth'',
      bail_if (\<not> list_all (\<lambda>proxy. proxy \<in> set supported_proxies) (cfg_enabled_proxies c)) ''enabled_proxies'',
      validate_upstreams L c]"

section \<open>Normalisation and secrets\<close>

definition normalize_acme_dns_provider :: "string \<Rightarrow> string" where
  "normalize_acme_dns_provider value =
     (let v = to_ascii_lowercase (trim value)
      in if v = ''dns_cf'' then ''cloudflare''
         else if v = ''dns_ali'' then ''aliyun''
         else if v = ''dns_tencent'' \<or> v = ''dns_dp'' then ''tencent''
         else if v = ''dns_aws'' then ''route53''
         else v)"

definition AcmeConfig_normalize :: "acme_config \<Rightarrow> acme_config" where
  "AcmeConfig_normalize a = a
     \<lparr>ac_email := trim (ac_email a),
      ac_domains := filter (\<lambda>d. d \<noteq> []) (map (\<lambda>d. to_ascii_lowercase (trim d)) (ac_domains a)),
      ac_challenge := to_ascii_lowercase (trim (ac_challenge a)),
      ac_directory_url := trim (ac_directory_url a),
      ac_storage_directory := trim (ac_storage_directory a),
      ac_http_listen_addr := trim (ac_http_listen_addr a),
      ac_https_listen_addr := trim (ac_https_listen_addr a),
      ac_dns := (ac_dns a)\<lparr>adc_provider := normalize_acme_dns_provider (adc_provider (ac_dns a))\<rparr>\<rparr>"

definition preserve_blank :: "string \<Rightarrow> string \<Rightarrow> string" where
  "preserve_blank nxt current = (if trim nxt = [] then current else nxt)"

definition preserve_blank_secrets_from :: "acme_config \<Rightarrow> acme_config \<Rightarrow> acme_config" where
  "preserve_blank_secrets_from current a =
     (let d = ac_dns a; o1 = ac_dns current;
          new_cloudflare_token = trim (adc_cloudflare_api_token d) \<noteq> [];
          new_cloudflare_global = trim (adc_cloudflare_api_key d) \<noteq> [] \<or> trim (adc_cloudflare_email d) \<noteq> [];
          d1 = d\<lparr>adc_cloudflare_api_token := preserve_blank (adc_cloudflare_api_token d) (adc_cloudflare_api_token o1),
                 adc_cloudflare_api_key := preserve_blank (adc_cloudflare_api_key d) (adc_cloudflare_api_key o1),
                 adc_cloudflare_email := preserve_blank (adc_cloudflare_email d) (adc_cloudflare_email o1)\<rparr>;
          d2 = (if new_cloudflare_token then d1\<lparr>adc_cloudflare_api_key := [], adc_cloudflare_email := []\<rparr>
                else if new_cloudflare_global then d1\<lparr>adc_cloudflare_api_token := []\<rparr>
                else d1)
      in a\<lparr>ac_dns := d2
        \<lparr>adc_aliyun_access_key_id := preserve_blank (adc_aliyun_access_key_id d) (adc_aliyun_access_key_id o1),
         adc_aliyun_access_key_secret := preserve_blank (adc_aliyun_access_key_secret d) (adc_aliyun_access_key_secret o1),
         adc_tencent_secret_id := preserve_blank (adc_tencent_secret_id d) (adc_tencent_secret_id o1),
         adc_tencent_secret_key := preserve_blank (adc_tencent_secret_key d) (adc_tencent_secret_key o1),
         adc_route53_access_key_id := preserve_blank (adc_route53_access_key_id d) (adc_route53_access_key_id o1),
         adc_route53_secret_access_key := preserve_blank (adc_route53_secret_access_key d) (adc_route53_secret_access_key o1),
         adc_route53_session_token := preserve_blank (adc_route53_session_token d) (adc_route53_session_token o1),
         adc_webhook_bearer_token := preserve_blank (adc_webhook_bearer_token d) (adc_webhook_bearer_token o1)\<rparr>\<rparr>)"

definition parse_env_bool :: "string \<Rightarrow> string \<Rightarrow> config_error + bool" where
  "parse_env_bool nm value =
     (let v = to_ascii_lowercase (trim value)
      in if v \<in> set [''1'', ''true'', ''yes'', ''on''] then Inr True
         else if v \<in> set [''0'', ''false'', ''no'', ''off''] then Inr False
         else Inl (Bail nm))"

end
