(* ===== verification/Config_Load.thy ===== *)
theory Config_Load
  imports Config_Validate
begin

text \<open>
  \<open>Config::load\<close> and \<open>apply_env_overrides\<close> (\<open>crates/server/src/config.rs\<close>): the
  environment is a partial function from variable names to values, and the overrides are
  the assignments of the source in their order, each with the variable it reads.  The TOML
  file is what its parser returned: none, an error, or a configuration.
\<close>

section \<open>Overrides\<close>

definition truthy :: "string \<Rightarrow> bool" where
  "truthy v \<longleftrightarrow> to_ascii_lowercase v \<in> set [''1'', ''true'', ''yes'', ''on'']"

definition parse_env_uint :: "nat \<Rightarrow> string \<Rightarrow> string \<Rightarrow> config_error + nat" where
  "parse_env_uint m nm v = ok_or (Bail nm) (parse_uint m v)"

type_synonym env_override = "string \<times> (string \<Rightarrow> config \<Rightarrow> config_error + config)"

definition env_overrides_service :: "env_override list" where
  "env_overrides_service =
     [
      (''MIRRORPROXY_DB'', \<lambda>v c. Inr (c\<lparr>cfg_database_path := v\<rparr>)),
      (''MIRRORPROXY_LISTEN_ADDR'', \<lambda>v c. Inr (c\<lparr>cfg_listen_addr := v\<rparr>)),
      (''MIRRORPROXY_MANAGEMENT_ENABLED'', \<lambda>v c. bindr (parse_env_bool ''MIRRORPROXY_MANAGEMENT_ENABLED'' v) (\<lambda>b. Inr (c\<lparr>cfg_management := (cfg_management c)\<lparr>mgc_enabled := b\<rparr>\<rparr>))),
      (''MIRRORPROXY_MANAGEMENT_LISTEN_ADDR'', \<lambda>v c. Inr (c\<lparr>cfg_management := (cfg_management c)\<lparr>mgc_listen_addr := v\<rparr>\<rparr>)),
      (''MIRRORPROXY_METRICS_LOCAL_ONLY'', \<lambda>v c. bindr (parse_env_bool ''MIRRORPROXY_METRICS_LOCAL_ONLY'' v) (\<lambda>b. Inr (c\<lparr>cfg_metrics := (cfg_metrics c)\<lparr>mtc_local_only := b\<rparr>\<rparr>))),
      (''MIRRORPROXY_ALERTS_ENABLED'', \<lambda>v c. bindr (parse_env_bool ''MIRRORPROXY_ALERTS_ENABLED'' v) (\<lambda>b. Inr (c\<lparr>cfg_alerts := (cfg_alerts c)\<lparr>alc_enabled := b\<rparr>\<rparr>))),
      (''MIRRORPROXY_ALERTS_WEBHOOK_URL'', \<lambda>v c. Inr (c\<lparr>cfg_alerts := (cfg_alerts c)\<lparr>alc_webhook_url := v\<rparr>\<rparr>)),
      (''MIRRORPROXY_ALERTS_EMAIL_ENABLED'', \<lambda>v c. bindr (parse_env_bool ''MIRRORPROXY_ALERTS_EMAIL_ENABLED'' v) (\<lambda>b. Inr (c\<lparr>cfg_alerts := (cfg_alerts c)\<lparr>alc_email_enabled := b\<rparr>\<rparr>))),
      (''MIRRORPROXY_ALERTS_EMAIL_RECIPIENTS'', \<lambda>v c. Inr (c\<lparr>cfg_alerts := (cfg_alerts c)\<lparr>alc_email_recipients := parse_url_list v\<rparr>\<rparr>)),
      (''MIRRORPROXY_ALERTS_QUOTA_PERCENT'', \<lambda>v c. bindr (parse_env_uint 255 ''MIRRORPROXY_ALERTS_QUOTA_PERCENT'' v) (\<lambda>n. Inr (c\<lparr>cfg_alerts := (cfg_alerts c)\<lparr>alc_quota_percent := n\<rparr>\<rparr>))),
      (''MIRRORPROXY_ALERTS_SOURCE_FAILURES'', \<lambda>v c. bindr (parse_env_uint U32_MAX ''MIRRORPROXY_ALERTS_SOURCE_FAILURES'' v) (\<lambda>n. Inr (c\<lparr>cfg_alerts := (cfg_alerts c)\<lparr>alc_source_failures := n\<rparr>\<rparr>))),
      (''MIRRORPROXY_ALERTS_COOLDOWN_SECS'', \<lambda>v c. bindr (parse_env_uint U64_MAX ''MIRRORPROXY_ALERTS_COOLDOWN_SECS'' v) (\<lambda>n. Inr (c\<lparr>cfg_alerts := (cfg_alerts c)\<lparr>alc_cooldown_secs := n\<rparr>\<rparr>))),
      (''MIRRORPROXY_PUBLIC_BASE_URL'', \<lambda>v c. Inr (c\<lparr>cfg_public_base_url := trim_end_matches (CHR ''/'') v\<rparr>)),
      (''MIRRORPROXY_SITE_TITLE'', \<lambda>v c. Inr (c\<lparr>cfg_site := (cfg_site c)\<lparr>sc_title := v\<rparr>\<rparr>)),
      (''MIRRORPROXY_SITE_DESCRIPTION'', \<lambda>v c. Inr (c\<lparr>cfg_site := (cfg_site c)\<lparr>sc_description := v\<rparr>\<rparr>)),
      (''MIRRORPROXY_SITE_KEYWORDS'', \<lambda>v c. Inr (c\<lparr>cfg_site := (cfg_site c)\<lparr>sc_keywords := parse_url_list v\<rparr>\<rparr>)),
      (''MIRRORPROXY_SITE_ICON_URL'', \<lambda>v c. Inr (c\<lparr>cfg_site := (cfg_site c)\<lparr>sc_icon_url := v\<rparr>\<rparr>)),
      (''MIRRORPROXY_SITE_FOOTER_TEXT'', \<lambda>v c. Inr (c\<lparr>cfg_site := (cfg_site c)\<lparr>sc_footer_text := v\<rparr>\<rparr>)),
      (''MIRRORPROXY_TRUSTED_PROXIES'', \<lambda>v c. Inr (c\<lparr>cfg_trusted_proxies := parse_url_list v\<rparr>)),
      (''MIRRORPROXY_ENABLED_PROXIES'', \<lambda>v c. Inr (c\<lparr>cfg_enabled_proxies := parse_url_list v\<rparr>)),
      (''MIRRORPROXY_REQUEST_TIMEOUT_SECS'', \<lambda>v c. Inr (case parse_uint U64_MAX v of Some n \<Rightarrow> c\<lparr>cfg_timeout := (cfg_timeout c)\<lparr>tc_request_secs := n\<rparr>\<rparr> | None \<Rightarrow> c)),
      (''MIRRORPROXY_UPSTREAM_SELECTION_STRATEGY'', \<lambda>v c. Inr (c\<lparr>cfg_upstream_selection := (cfg_upstream_selection c)\<lparr>sel_strategy := v\<rparr>\<rparr>)),
      (''MIRRORPROXY_UPSTREAM_FAILURE_THRESHOLD'', \<lambda>v c. Inr (case parse_uint U32_MAX v of Some n \<Rightarrow> c\<lparr>cfg_upstream_selection := (cfg_upstream_selection c)\<lparr>sel_failure_threshold := n\<rparr>\<rparr> | None \<Rightarrow> c)),
      (''MIRRORPROXY_UPSTREAM_COOLDOWN_SECS'', \<lambda>v c. Inr (case parse_uint U64_MAX v of Some n \<Rightarrow> c\<lparr>cfg_upstream_selection := (cfg_upstream_selection c)\<lparr>sel_cooldown_secs := n\<rparr>\<rparr> | None \<Rightarrow> c)),
      (''MIRRORPROXY_RATE_LIMIT_ENABLED'', \<lambda>v c. Inr (c\<lparr>cfg_rate_limit := (cfg_rate_limit c)\<lparr>rlc_enabled := truthy v\<rparr>\<rparr>)),
      (''MIRRORPROXY_RATE_LIMIT_REQUESTS_PER_MINUTE'', \<lambda>v c. Inr (case parse_uint U32_MAX v of Some n \<Rightarrow> c\<lparr>cfg_rate_limit := (cfg_rate_limit c)\<lparr>rlc_requests_per_minute := n, rlc_enabled := True\<rparr>\<rparr> | None \<Rightarrow> c)),
      (''MIRRORPROXY_CACHE_ENABLED'', \<lambda>v c. Inr (c\<lparr>cfg_cache := (cfg_cache c)\<lparr>cc_enabled := truthy v\<rparr>\<rparr>)),
      (''MIRRORPROXY_CACHE_DIRECTORY'', \<lambda>v c. Inr (c\<lparr>cfg_cache := (cfg_cache c)\<lparr>cc_directory := v\<rparr>\<rparr>)),
      (''MIRRORPROXY_CACHE_MAX_ENTRY_MB'', \<lambda>v c. Inr (case parse_uint U64_MAX v of Some n \<Rightarrow> c\<lparr>cfg_cache := (cfg_cache c)\<lparr>cc_max_entry_mb := n\<rparr>\<rparr> | None \<Rightarrow> c)),
      (''MIRRORPROXY_CACHE_MAX_TOTAL_MB'', \<lambda>v c. Inr (case parse_uint U64_MAX v of Some n \<Rightarrow> c\<lparr>cfg_cache := (cfg_cache c)\<lparr>cc_max_total_mb := n\<rparr>\<rparr> | None \<Rightarrow> c)),
      (''MIRRORPROXY_CACHE_DEFAULT_TTL_SECS'', \<lambda>v c. Inr (case parse_uint U64_MAX v of Some n \<Rightarrow> c\<lparr>cfg_cache := (cfg_cache c)\<lparr>cc_default_ttl_secs := n\<rparr>\<rparr> | None \<Rightarrow> c)),
      (''MIRRORPROXY_CACHE_MAX_TTL_SECS'', \<lambda>v c. Inr (case parse_uint U64_MAX v of Some n \<Rightarrow> c\<lparr>cfg_cache := (cfg_cache c)\<lparr>cc_max_ttl_secs := n\<rparr>\<rparr> | None \<Rightarrow> c)),
      (''MIRRORPROXY_GEOIP_ENABLED'', \<lambda>v c. bindr (parse_env_bool ''MIRRORPROXY_GEOIP_ENABLED'' v) (\<lambda>b. Inr (c\<lparr>cfg_geoip := (cfg_geoip c)\<lparr>gc_enabled := b\<rparr>\<rparr>))),
      (''MIRRORPROXY_GEOIP_IPV4_PATH'', \<lambda>v c. Inr (c\<lparr>cfg_geoip := (cfg_geoip c)\<lparr>gc_ipv4_path := v\<rparr>\<rparr>)),
      (''MIRRORPROXY_GEOIP_IPV6_PATH'', \<lambda>v c. Inr (c\<lparr>cfg_geoip := (cfg_geoip c)\<lparr>gc_ipv6_path := v\<rparr>\<rparr>))]"

definition env_overrides_acme :: "env_override list" where
  "env_overrides_acme =
     [
      (''MIRRORPROXY_ACME_ENABLED'', \<lambda>v c. bindr (parse_env_bool ''MIRRORPROXY_ACME_ENABLED'' v) (\<lambda>b. Inr (c\<lparr>cfg_acme := (cfg_acme c)\<lparr>ac_enabled := b\<rparr>\<rparr>))),
      (''MIRRORPROXY_ACME_EMAIL'', \<lambda>v c. Inr (c\<lparr>cfg_acme := (cfg_acme c)\<lparr>ac_email := v\<rparr>\<rparr>)),
      (''MIRRORPROXY_ACME_DOMAINS'', \<lambda>v c. Inr (c\<lparr>cfg_acme := (cfg_acme c)\<lparr>ac_domains := parse_url_list v\<rparr>\<rparr>)),
      (''MIRRORPROXY_ACME_CHALLENGE'', \<lambda>v c. Inr (c\<lparr>cfg_acme := (cfg_acme c)\<lparr>ac_challenge := v\<rparr>\<rparr>)),
      (''MIRRORPROXY_ACME_DIRECTORY_URL'', \<lambda>v c. Inr (c\<lparr>cfg_acme := (cfg_acme c)\<lparr>ac_directory_url := v\<rparr>\<rparr>)),
      (''MIRRORPROXY_ACME_STORAGE_DIRECTORY'', \<lambda>v c. Inr (c\<lparr>cfg_acme := (cfg_acme c)\<lparr>ac_storage_directory := v\<rparr>\<rparr>)),
      (''MIRRORPROXY_ACME_DIRECT_HTTPS'', \<lambda>v c. bindr (parse_env_bool ''MIRRORPROXY_ACME_DIRECT_HTTPS'' v) (\<lambda>b. Inr (c\<lparr>cfg_acme := (cfg_acme c)\<lparr>ac_direct_https := b\<rparr>\<rparr>))),
      (''MIRRORPROXY_ACME_HTTP_LISTEN_ADDR'', \<lambda>v c. Inr (c\<lparr>cfg_acme := (cfg_acme c)\<lparr>ac_http_listen_addr := v\<rparr>\<rparr>)),
      (''MIRRORPROXY_ACME_HTTPS_LISTEN_ADDR'', \<lambda>v c. Inr (c\<lparr>cfg_acme := (cfg_acme c)\<lparr>ac_https_listen_addr := v\<rparr>\<rparr>)),
      (''MIRRORPROXY_ACME_REDIRECT_HTTP_TO_HTTPS'', \<lambda>v c. bindr (parse_env_bool ''MIRRORPROXY_ACME_REDIRECT_HTTP_TO_HTTPS'' v) (\<lambda>b. Inr (c\<lparr>cfg_acme := (cfg_acme c)\<lparr>ac_redirect_http_to_https := b\<rparr>\<rparr>))),
      (''MIRRORPROXY_ACME_DNS_PROVIDER'', \<lambda>v c. Inr (c\<lparr>cfg_acme := (cfg_acme c)\<lparr>ac_dns := (ac_dns (cfg_acme c))\<lparr>adc_provider := v\<rparr>\<rparr>\<rparr>)),
      (''CF_Zone_ID'', \<lambda>v c. Inr (c\<lparr>cfg_acme := (cfg_acme c)\<lparr>ac_dns := (ac_dns (cfg_acme c))\<lparr>adc_cloudflare_zone_id := v\<rparr>\<rparr>\<rparr>)),
      (''CF_Token'', \<lambda>v c. Inr (c\<lparr>cfg_acme := (cfg_acme c)\<lparr>ac_dns := (ac_dns (cfg_acme c))\<lparr>adc_cloudflare_api_token := v\<rparr>\<rparr>\<rparr>)),
      (''CF_Key'', \<lambda>v c. Inr (c\<lparr>cfg_acme := (cfg_acme c)\<lparr>ac_dns := (ac_dns (cfg_acme c))\<lparr>adc_cloudflare_api_key := v\<rparr>\<rparr>\<rparr>)),
      (''CF_Email'', \<lambda>v c. Inr (c\<lparr>cfg_acme := (cfg_acme c)\<lparr>ac_dns := (ac_dns (cfg_acme c))\<lparr>adc_cloudflare_email := v\<rparr>\<rparr>\<rparr>)),
      (''MIRRORPROXY_ACME_CLOUDFLARE_ZONE_ID'', \<lambda>v c. Inr (c\<lparr>cfg_acme := (cfg_acme c)\<lparr>ac_dns := (ac_dns (cfg_acme c))\<lparr>adc_cloudflare_zone_id := v\<rparr>\<rparr>\<rparr>)),
      (''MIRRORPROXY_ACME_CLOUDFLARE_API_TOKEN'', \<lambda>v c. Inr (c\<lparr>cfg_acme := (cfg_acme c)\<lparr>ac_dns := (ac_dns (cfg_acme c))\<lparr>adc_cloudflare_api_token := v\<rparr>\<rparr>\<rparr>)),
      (''MIRRORPROXY_ACME_CLOUDFLARE_API_KEY'', \<lambda>v c. Inr (c\<lparr>cfg_acme := (cfg_acme c)\<lparr>ac_dns := (ac_dns (cfg_acme c))\<lparr>adc_cloudflare_api_key := v\<rparr>\<rparr>\<rparr>)),
      (''MIRRORPROXY_ACME_CLOUDFLARE_EMAIL'', \<lambda>v c. Inr (c\<lparr>cfg_acme := (cfg_acme c)\<lparr>ac_dns := (ac_dns (cfg_acme c))\<lparr>adc_cloudflare_email := v\<rparr>\<rparr>\<rparr>)),
      (''Ali_Key'', \<lambda>v c. Inr (c\<lparr>cfg_acme := (cfg_acme c)\<lparr>ac_dns := (ac_dns (cfg_acme c))\<lparr>adc_aliyun_access_key_id := v\<rparr>\<rparr>\<rparr>)),
      (''Ali_Secret'', \<lambda>v c. Inr (c\<lparr>cfg_acme := (cfg_acme c)\<lparr>ac_dns := (ac_dns (cfg_acme c))\<lparr>adc_aliyun_access_key_secret := v\<rparr>\<rparr>\<rparr>)),
      (''MIRRORPROXY_ACME_ALIYUN_DOMAIN'', \<lambda>v c. Inr (c\<lparr>cfg_acme := (cfg_acme c)\<lparr>ac_dns := (ac_dns (cfg_acme c))\<lparr>adc_aliyun_domain := v\<rparr>\<rparr>\<rparr>)),
      (''MIRRORPROXY_ACME_ALIYUN_ACCESS_KEY_ID'', \<lambda>v c. Inr (c\<lparr>cfg_acme := (cfg_acme c)\<lparr>ac_dns := (ac_dns (cfg_acme c))\<lparr>adc_aliyun_access_key_id := v\<rparr>\<rparr>\<rparr>)),
      (''MIRRORPROXY_ACME_ALIYUN_ACCESS_KEY_SECRET'', \<lambda>v c. Inr (c\<lparr>cfg_acme := (cfg_acme c)\<lparr>ac_dns := (ac_dns (cfg_acme c))\<lparr>adc_aliyun_access_key_secret := v\<rparr>\<rparr>\<rparr>)),
      (''Tencent_SecretId'', \<lambda>v c. Inr (c\<lparr>cfg_acme := (cfg_acme c)\<lparr>ac_dns := (ac_dns (cfg_acme c))\<lparr>adc_tencent_secret_id := v\<rparr>\<rparr>\<rparr>)),
      (''Tencent_SecretKey'', \<lambda>v c. Inr (c\<lparr>cfg_acme := (cfg_acme c)\<lparr>ac_dns := (ac_dns (cfg_acme c))\<lparr>adc_tencent_secret_key := v\<rparr>\<rparr>\<rparr>)),
      (''MIRRORPROXY_ACME_TENCENT_DOMAIN'', \<lambda>v c. Inr (c\<lparr>cfg_acme := (cfg_acme c)\<lparr>ac_dns := (ac_dns (cfg_acme c))\<lparr>adc_tencent_domain := v\<rparr>\<rparr>\<rparr>)),
      (''MIRRORPROXY_ACME_TENCENT_SECRET_ID'', \<lambda>v c. Inr (c\<lparr>cfg_acme := (cfg_acme c)\<lparr>ac_dns := (ac_dns (cfg_acme c))\<lparr>adc_tencent_secret_id := v\<rparr>\<rparr>\<rparr>)),
      (''MIRRORPROXY_ACME_TENCENT_SECRET_KEY'', \<lambda>v c. Inr (c\<lparr>cfg_acme := (cfg_acme c)\<lparr>ac_dns := (ac_dns (cfg_acme c))\<lparr>adc_tencent_secret_key := v\<rparr>\<rparr>\<rparr>)),
      (''AWS_ACCESS_KEY_ID'', \<lambda>v c. Inr (c\<lparr>cfg_acme := (cfg_acme c)\<lparr>ac_dns := (ac_dns (cfg_acme c))\<lparr>adc_route53_access_key_id := v\<rparr>\<rparr>\<rparr>)),
      (''AWS_SECRET_ACCESS_KEY'', \<lambda>v c. Inr (c\<lparr>cfg_acme := (cfg_acme c)\<lparr>ac_dns := (ac_dns (cfg_acme c))\<lparr>adc_route53_secret_access_key := v\<rparr>\<rparr>\<rparr>)),
      (''AWS_SESSION_TOKEN'', \<lambda>v c. Inr (c\<lparr>cfg_acme := (cfg_acme c)\<lparr>ac_dns := (ac_dns (cfg_acme c))\<lparr>adc_route53_session_token := v\<rparr>\<rparr>\<rparr>)),
      (''MIRRORPROXY_ACME_ROUTE53_HOSTED_ZONE_ID'', \<lambda>v c. Inr (c\<lparr>cfg_acme := (cfg_acme c)\<lparr>ac_dns := (ac_dns (cfg_acme c))\<lparr>adc_route53_hosted_zone_id := v\<rparr>\<rparr>\<rparr>)),
      (''MIRRORPROXY_ACME_ROUTE53_ACCESS_KEY_ID'', \<lambda>v c. Inr (c\<lparr>cfg_acme := (cfg_acme c)\<lparr>ac_dns := (ac_dns (cfg_acme c))\<lparr>adc_route53_access_key_id := v\<rparr>\<rparr>\<rparr>)),
      (''MIRRORPROXY_ACME_ROUTE53_SECRET_ACCESS_KEY'', \<lambda>v c. Inr (c\<lparr>cfg_acme := (cfg_acme c)\<lparr>ac_dns := (ac_dns (cfg_acme c))\<lparr>adc_route53_secret_access_key := v\<rparr>\<rparr>\<rparr>)),
      (''MIRRORPROXY_ACME_ROUTE53_SESSION_TOKEN'', \<lambda>v c. Inr (c\<lparr>cfg_acme := (cfg_acme c)\<lparr>ac_dns := (ac_dns (cfg_acme c))\<lparr>adc_route53_session_token := v\<rparr>\<rparr>\<rparr>)),
      (''MIRRORPROXY_ACME_DNS_WEBHOOK_URL'', \<lambda>v c. Inr (c\<lparr>cfg_acme := (cfg_acme c)\<lparr>ac_dns := (ac_dns (cfg_acme c))\<lparr>adc_webhook_url := v\<rparr>\<rparr>\<rparr>)),
      (''MIRRORPROXY_ACME_DNS_WEBHOOK_BEARER_TOKEN'', \<lambda>v c. Inr (c\<lparr>cfg_acme := (cfg_acme c)\<lparr>ac_dns := (ac_dns (cfg_acme c))\<lparr>adc_webhook_bearer_token := v\<rparr>\<rparr>\<rparr>))]"

definition env_overrides_access :: "env_override list" where
  "env_overrides_access =
     [
      (''MIRRORPROXY_QUOTA_ENABLED'', \<lambda>v c. Inr (c\<lparr>cfg_quota := (cfg_quota c)\<lparr>qc_enabled := truthy v\<rparr>\<rparr>)),
      (''MIRRORPROXY_QUOTA_BIDIRECTIONAL_ACCOUNTING'', \<lambda>v c. bindr (parse_env_bool ''MIRRORPROXY_QUOTA_BIDIRECTIONAL_ACCOUNTING'' v) (\<lambda>b. Inr (c\<lparr>cfg_quota := (cfg_quota c)\<lparr>qc_bidirectional_accounting := b\<rparr>\<rparr>))),
      (''MIRRORPROXY_QUOTA_MONTHLY_GB'', \<lambda>v c. Inr (case parse_uint U64_MAX v of Some n \<Rightarrow> c\<lparr>cfg_quota := (cfg_quota c)\<lparr>qc_monthly_gb := n, qc_enabled := True\<rparr>\<rparr> | None \<Rightarrow> c)),
      (''MIRRORPROXY_QUOTA_TIMEZONE'', \<lambda>v c. Inr (c\<lparr>cfg_quota := (cfg_quota c)\<lparr>qc_timezone := v\<rparr>\<rparr>)),
      (''MIRRORPROXY_QUOTA_ON_EXCEEDED'', \<lambda>v c. Inr (c\<lparr>cfg_quota := (cfg_quota c)\<lparr>qc_on_exceeded := v\<rparr>\<rparr>)),
      (''MIRRORPROXY_FORWARD_CLIENT_AUTHORIZATION'', \<lambda>v c. Inr (c\<lparr>cfg_forward_client_authorization := truthy v\<rparr>)),
      (''MIRRORPROXY_REQUEST_EVENT_RETENTION_DAYS'', \<lambda>v c. Inr (case parse_uint U32_MAX v of Some n \<Rightarrow> c\<lparr>cfg_quota := (cfg_quota c)\<lparr>qc_request_event_retention_days := n\<rparr>\<rparr> | None \<Rightarrow> c)),
      (''MIRRORPROXY_WEBAUTHN_ENABLED'', \<lambda>v c. bindr (parse_env_bool ''MIRRORPROXY_WEBAUTHN_ENABLED'' v) (\<lambda>b. Inr (c\<lparr>cfg_webauthn := (cfg_webauthn c)\<lparr>wc_enabled := b\<rparr>\<rparr>))),
      (''MIRRORPROXY_WEBAUTHN_RP_ID'', \<lambda>v c. Inr (c\<lparr>cfg_webauthn := (cfg_webauthn c)\<lparr>wc_rp_id := v\<rparr>\<rparr>)),
      (''MIRRORPROXY_WEBAUTHN_RP_ORIGIN'', \<lambda>v c. Inr (c\<lparr>cfg_webauthn := (cfg_webauthn c)\<lparr>wc_rp_origin := trim_end_matches (CHR ''/'') v\<rparr>\<rparr>)),
      (''MIRRORPROXY_WEBAUTHN_RP_NAME'', \<lambda>v c. Inr (c\<lparr>cfg_webauthn := (cfg_webauthn c)\<lparr>wc_rp_name := v\<rparr>\<rparr>)),
      (''MIRRORPROXY_WEBAUTHN_REQUIRE_PASSKEY'', \<lambda>v c. bindr (parse_env_bool ''MIRRORPROXY_WEBAUTHN_REQUIRE_PASSKEY'' v) (\<lambda>b. Inr (c\<lparr>cfg_webauthn := (cfg_webauthn c)\<lparr>wc_require_passkey := b\<rparr>\<rparr>))),
      (''MIRRORPROXY_WEBAUTHN_BREAK_GLASS_USERNAME'', \<lambda>v c. Inr (c\<lparr>cfg_webauthn := (cfg_webauthn c)\<lparr>wc_break_glass_username := v\<rparr>\<rparr>)),
      (''MIRRORPROXY_BASE_DOMAIN'', \<lambda>v c. Inr (c\<lparr>cfg_user_access := (cfg_user_access c)\<lparr>uac_base_domain := to_ascii_lowercase (trim_end_matches (CHR ''.'') (trim v))\<rparr>\<rparr>)),
      (''MIRRORPROXY_ACCESS_MODE'', \<lambda>v c. Inr (c\<lparr>cfg_user_access := (cfg_user_access c)\<lparr>uac_mode := v\<rparr>\<rparr>)),
      (''MIRRORPROXY_SUBDOMAIN_INFRASTRUCTURE_READY'', \<lambda>v c. bindr (parse_env_bool ''MIRRORPROXY_SUBDOMAIN_INFRASTRUCTURE_READY'' v) (\<lambda>b. Inr (c\<lparr>cfg_user_access := (cfg_user_access c)\<lparr>uac_infrastructure_ready := b\<rparr>\<rparr>))),
      (''MIRRORPROXY_ROUTING_ID_MIN_LENGTH'', \<lambda>v c. bindr (parse_env_uint 255 ''MIRRORPROXY_ROUTING_ID_MIN_LENGTH'' v) (\<lambda>n. Inr (c\<lparr>cfg_user_access := (cfg_user_access c)\<lparr>uac_routing_id_min_length := n\<rparr>\<rparr>))),
      (''MIRRORPROXY_ROUTING_ROTATION_COOLDOWN_HOURS'', \<lambda>v c. bindr (parse_env_uint U32_MAX ''MIRRORPROXY_ROUTING_ROTATION_COOLDOWN_HOURS'' v) (\<lambda>n. Inr (c\<lparr>cfg_user_access := (cfg_user_access c)\<lparr>uac_routing_rotation_cooldown_hours := n\<rparr>\<rparr>))),
      (''MIRRORPROXY_REGISTRATION_MODE'', \<lambda>v c. Inr (c\<lparr>cfg_registration := (cfg_registration c)\<lparr>rgc_mode := v\<rparr>\<rparr>)),
      (''MIRRORPROXY_ALLOWED_EMAIL_DOMAINS'', \<lambda>v c. Inr (c\<lparr>cfg_registration := (cfg_registration c)\<lparr>rgc_allowed_email_domains := filter (\<lambda>d. d \<noteq> []) (map (\<lambda>d. to_ascii_lowercase (trim d)) (split_on (CHR '','') v))\<rparr>\<rparr>)),
      (''MIRRORPROXY_EMAIL_TOKEN_TTL_MINUTES'', \<lambda>v c. bindr (parse_env_uint U32_MAX ''MIRRORPROXY_EMAIL_TOKEN_TTL_MINUTES'' v) (\<lambda>n. Inr (c\<lparr>cfg_registration := (cfg_registration c)\<lparr>rgc_email_token_ttl_minutes := n\<rparr>\<rparr>))),
      (''MIRRORPROXY_DEFAULT_USER_MONTHLY_GB'', \<lambda>v c. if trim v = [] then Inr (c\<lparr>cfg_quota := (cfg_quota c)\<lparr>qc_default_user_monthly_gb := None\<rparr>\<rparr>) else bindr (parse_env_uint U64_MAX ''MIRRORPROXY_DEFAULT_USER_MONTHLY_GB'' v) (\<lambda>n. Inr (c\<lparr>cfg_quota := (cfg_quota c)\<lparr>qc_default_user_monthly_gb := Some n\<rparr>\<rparr>))),
      (''MIRRORPROXY_OUTBOUND_PROXY_ENABLED'', \<lambda>v c. bindr (parse_env_bool ''MIRRORPROXY_OUTBOUND_PROXY_ENABLED'' v) (\<lambda>b. Inr (c\<lparr>cfg_outbound_proxy := (cfg_outbound_proxy c)\<lparr>opc_enabled := b\<rparr>\<rparr>))),
      (''MIRRORPROXY_OUTBOUND_PROXY_URL'', \<lambda>v c. Inr (c\<lparr>cfg_outbound_proxy := (cfg_outbound_proxy c)\<lparr>opc_url := v\<rparr>\<rparr>)),
      (''MIRRORPROXY_OUTBOUND_PROXY_NO_PROXY'', \<lambda>v c. Inr (c\<lparr>cfg_outbound_proxy := (cfg_outbound_proxy c)\<lparr>opc_no_proxy := parse_url_list v\<rparr>\<rparr>)),
      (''MIRRORPROXY_OUTBOUND_PROXY_USERNAME'', \<lambda>v c. Inr (c\<lparr>cfg_outbound_proxy := (cfg_outbound_proxy c)\<lparr>opc_username := if v = [] then None else Some v\<rparr>\<rparr>)),
      (''MIRRORPROXY_OUTBOUND_PROXY_PASSWORD'', \<lambda>v c. Inr (c\<lparr>cfg_outbound_proxy := (cfg_outbound_proxy c)\<lparr>opc_password := if v = [] then None else Some v\<rparr>\<rparr>)),
      (''MIRRORPROXY_UPSTREAM_TLS_CA_CERTIFICATES'', \<lambda>v c. Inr (c\<lparr>cfg_upstream_tls := (cfg_upstream_tls c)\<lparr>utc_ca_certificates := parse_url_list v\<rparr>\<rparr>)),
      (''MIRRORPROXY_UPSTREAM_TLS_INSECURE_SKIP_VERIFY'', \<lambda>v c. bindr (parse_env_bool ''MIRRORPROXY_UPSTREAM_TLS_INSECURE_SKIP_VERIFY'' v) (\<lambda>b. Inr (c\<lparr>cfg_upstream_tls := (cfg_upstream_tls c)\<lparr>utc_insecure_skip_verify := b\<rparr>\<rparr>)))]"

fun apply_overrides :: "(string \<Rightarrow> string option) \<Rightarrow> env_override list \<Rightarrow> config \<Rightarrow> config_error + config" where
  "apply_overrides env [] c = Inr c"
| "apply_overrides env ((nm, f) # rest) c =
     (case env nm of
        None \<Rightarrow> apply_overrides env rest c
      | Some v \<Rightarrow> bindr (f v c) (apply_overrides env rest))"

definition apply_env_overrides :: "(string \<Rightarrow> string option) \<Rightarrow> config \<Rightarrow> config_error + config" where
  "apply_env_overrides env c =
     apply_overrides env (env_overrides_service @ env_overrides_acme @ env_overrides_access) c"

section \<open>Loading\<close>

definition Config_load ::
  "(string \<Rightarrow> bool) \<Rightarrow> url_lib \<Rightarrow> (string \<Rightarrow> string option) \<Rightarrow> (config_error + config) option \<Rightarrow> config_error + config" where
  "Config_load tz_known L env file =
     bindr (case file of None \<Rightarrow> Inr Config_default | Some r \<Rightarrow> r) (\<lambda>c0.
     let c1 = c0\<lparr>cfg_public_base_url := trim_end_matches (CHR ''/'') (cfg_public_base_url c0)\<rparr>
     in bindr (apply_env_overrides env c1) (\<lambda>c2.
        let c3 = c2\<lparr>cfg_acme := AcmeConfig_normalize (cfg_acme c2)\<rparr>
        in bindr (Config_validate tz_known L c3) (\<lambda>_. Inr c3)))"

section \<open>Lemmas\<close>

lemma apply_overrides_unset:
  "(\<forall>nm \<in> fst ` set os. env nm = None) \<Longrightarrow> apply_overrides env os c = Inr c"
  by (induction os) (auto simp: case_prod_beta)

lemma Config_load_validates: "Config_load tz L env file = Inr c \<Longrightarrow> Config_validate tz L c = Inr ()"
  by (auto simp: Config_load_def Let_def bindr_eq_Inr)

lemma validate_http_url_ok:
  assumes "validate_http_url L field value = Inr ()"
  shows "parse_url_list value \<noteq> [] \<and>
     (\<forall>e \<in> set (parse_url_list value). \<exists>u. url_parse L e = Some u \<and> u_scheme u \<in> {''http'', ''https''} \<and> u_host u \<noteq> None)"
  using assms by (auto simp: validate_http_url_def parse_url_list_def Let_def validate_endpoints_ok split: if_splits)

lemma validate_urls_ok:
  "validate_urls L fs = Inr () \<longleftrightarrow> (\<forall>(f, v) \<in> set fs. validate_http_url L f v = Inr ())"
  by (auto simp: validate_urls_def all_ok_iff)

lemma Config_validate_parts:
  assumes "Config_validate tz L c = Inr ()"
  shows "validate_limits tz L c = Inr ()" "validate_upstreams L c = Inr ()" "upstream_auth_valid c"
    "UserAccessConfig_validate L (cfg_user_access c) (cfg_public_base_url c) = Inr ()"
    "DownloadConfig_validate (cfg_download c) = Inr ()"
  using assms by (simp_all add: Config_validate_def all_ok_iff)

lemma upstream_groups_validated:
  assumes "validate_upstreams L c = Inr ()" and "g \<in> set (upstream_groups (cfg_upstreams c))"
  shows "\<exists>f. validate_http_url L f g = Inr ()"
proof (cases "g \<in> snd ` set (up_additional_os (cfg_upstreams c))")
  case True
  with assms(1) show ?thesis
    by (fastforce simp: validate_upstreams_def Let_def all_ok_iff validate_urls_ok)
next
  case False
  let ?u = "cfg_upstreams c"
  have ok: "\<And>r. r \<in> set (map (\<lambda>v. \<exists>f. validate_http_url L f v = Inr ()) (take 53 (upstream_groups ?u))) \<Longrightarrow> r"
    using assms(1)
    by (simp add: validate_upstreams_def Let_def all_ok_iff validate_urls_ok upstream_groups_def) blast
  from False assms(2) have "g \<in> set (take 53 (upstream_groups ?u))"
    by (simp add: upstream_groups_def)
  then show ?thesis using ok [of "\<exists>f. validate_http_url L f g = Inr ()"] by auto
qed

section \<open>Properties\<close>

text \<open>C29: A configuration that loads is usable by every component that reads it: each
  upstream group has an endpoint and every endpoint of it is an HTTP or HTTPS URL with a
  host, the trusted proxies parse, the selection policy has a known strategy and positive
  thresholds, the cache lifetimes are ordered, a required sub-domain access mode has a base
  domain that is the HTTPS host of the public URL, and every upstream credential is either
  a full user and password pair or a token.\<close>

theorem loaded_configuration_usable:
  assumes "Config_load tz_known L env file = Inr c"
  shows "(\<forall>g \<in> set (upstream_groups (cfg_upstreams c)). parse_url_list g \<noteq> [] \<and>
           (\<forall>e \<in> set (parse_url_list g). \<exists>u. url_parse L e = Some u \<and> u_scheme u \<in> {''http'', ''https''} \<and> u_host u \<noteq> None)) \<and>
     (\<forall>p \<in> set (cfg_trusted_proxies c). \<exists>n. parse_trusted_proxy p = Inr n) \<and>
     sel_strategy (cfg_upstream_selection c) \<in> {''ordered'', ''adaptive''} \<and>
     0 < sel_failure_threshold (cfg_upstream_selection c) \<and> 0 < sel_cooldown_secs (cfg_upstream_selection c) \<and>
     (cc_enabled (cfg_cache c) \<longrightarrow> 0 < cc_default_ttl_secs (cfg_cache c) \<and>
        cc_default_ttl_secs (cfg_cache c) \<le> cc_max_ttl_secs (cfg_cache c)) \<and>
     (uac_mode (cfg_user_access c) = ''subdomain_required'' \<longrightarrow>
        (\<exists>u. url_parse L (cfg_public_base_url c) = Some u \<and> u_scheme u = ''https'' \<and>
           u_host u = Some (trim (uac_base_domain (cfg_user_access c))))) \<and>
     (\<forall>(name, a) \<in> set (cfg_upstream_auth c). upstream_url (cfg_upstreams c) name \<noteq> None \<and>
        ((\<exists>n p. a = \<lparr>ua_username = Some n, ua_password = Some p, ua_bearer_token = None\<rparr> \<and> n \<noteq> [] \<and> p \<noteq> []) \<or>
         (\<exists>t. a = \<lparr>ua_username = None, ua_password = None, ua_bearer_token = Some t\<rparr> \<and> t \<noteq> [])))"
proof -
  note v = Config_validate_parts [OF Config_load_validates [OF assms]]
  have "\<forall>g \<in> set (upstream_groups (cfg_upstreams c)). parse_url_list g \<noteq> [] \<and>
      (\<forall>e \<in> set (parse_url_list g). \<exists>u. url_parse L e = Some u \<and> u_scheme u \<in> {''http'', ''https''} \<and> u_host u \<noteq> None)"
    using upstream_groups_validated [OF v(2)] validate_http_url_ok by metis
  moreover have "\<forall>p \<in> set (cfg_trusted_proxies c). \<exists>n. parse_trusted_proxy p = Inr n"
    using v(1) by (simp add: validate_limits_def Let_def list_ex_iff) (metis sum.collapse(2))
  moreover have "sel_strategy (cfg_upstream_selection c) \<in> {''ordered'', ''adaptive''}"
      "0 < sel_failure_threshold (cfg_upstream_selection c)" "0 < sel_cooldown_secs (cfg_upstream_selection c)"
      "cc_enabled (cfg_cache c) \<longrightarrow> 0 < cc_default_ttl_secs (cfg_cache c) \<and>
        cc_default_ttl_secs (cfg_cache c) \<le> cc_max_ttl_secs (cfg_cache c)"
    using v(1) by (auto simp: validate_limits_def Let_def)
  moreover have "uac_mode (cfg_user_access c) = ''subdomain_required'' \<longrightarrow>
        (\<exists>u. url_parse L (cfg_public_base_url c) = Some u \<and> u_scheme u = ''https'' \<and>
           u_host u = Some (trim (uac_base_domain (cfg_user_access c))))"
    using v(4) by (auto simp: UserAccessConfig_validate_def Let_def split: if_splits option.splits)
  moreover have "\<forall>(name, a) \<in> set (cfg_upstream_auth c). upstream_url (cfg_upstreams c) name \<noteq> None \<and> auth_entry_ok a"
    using v(3) by (auto simp: upstream_auth_valid_def list_all_iff)
  ultimately show ?thesis unfolding auth_entry_shape [symmetric] by blast
qed

lemma default_upstreams_validate: "validate_upstreams plain_url_lib Config_default = Inr ()"
  by code_simp

lemma default_fields:
  "cfg_download Config_default = DownloadConfig_default"
  "cfg_listen_addr Config_default = default_listen_addr" "cfg_management Config_default = ManagementConfig_default"
  "cfg_alerts Config_default = AlertConfig_default" "cfg_user_access Config_default = UserAccessConfig_default"
  "cfg_registration Config_default = RegistrationConfig_default" "cfg_webauthn Config_default = WebauthnConfig_default"
  "cfg_outbound_proxy Config_default = OutboundProxyConfig_default"
  "cfg_upstream_tls Config_default = UpstreamTlsConfig_default" "cfg_site Config_default = SiteConfig_default"
  "cfg_acme Config_default = AcmeConfig_default" "cfg_timeout Config_default = TimeoutConfig_default"
  "cfg_upstream_selection Config_default = UpstreamSelectionConfig_default"
  "cfg_rate_limit Config_default = RateLimitConfig_default" "cfg_cache Config_default = CacheConfig_default"
  "cfg_geoip Config_default = GeoIpConfig_default" "cfg_quota Config_default = QuotaConfig_default"
  "cfg_trusted_proxies Config_default = default_trusted_proxies" "cfg_upstream_auth Config_default = []"
  "cfg_public_base_url Config_default = []" "cfg_enabled_proxies Config_default = default_enabled_proxies"
  "cfg_database_path Config_default = default_database_path"
  by (simp_all add: Config_default_def)

lemma default_sections_validate:
  "DownloadConfig_validate DownloadConfig_default = Inr ()"
  "validate_alerts plain_url_lib AlertConfig_default = Inr ()"
  "UserAccessConfig_validate plain_url_lib UserAccessConfig_default [] = Inr ()"
  "RegistrationConfig_validate RegistrationConfig_default = Inr ()"
  "WebauthnConfig_validate plain_url_lib WebauthnConfig_default = Inr ()"
  "OutboundProxyConfig_validate plain_url_lib OutboundProxyConfig_default = Inr ()"
  "UpstreamTlsConfig_validate UpstreamTlsConfig_default = Inr ()"
  "AcmeConfig_validate plain_url_lib AcmeConfig_default = Inr ()"
  by code_simp+

lemma default_listeners_validate: "validate_listeners Config_default = Inr ()"
  unfolding validate_listeners_def default_fields by code_simp

lemma default_limits_validate: "validate_limits (\<lambda>_. False) plain_url_lib Config_default = Inr ()"
  unfolding validate_limits_def default_fields by code_simp

lemma default_site_validates: "SiteConfig_validate plain_url_lib SiteConfig_default = Inr ()"
  by code_simp

lemma default_auth_valid: "upstream_auth_valid Config_default"
  by (simp add: upstream_auth_valid_def default_fields)

lemma default_proxies_supported:
  "list_all (\<lambda>proxy. proxy \<in> set supported_proxies) default_enabled_proxies"
  "trim default_database_path \<noteq> []" "trim_end_matches (CHR ''/'') [] = []"
  by code_simp+

lemmas default_validate =
  default_sections_validate default_listeners_validate default_limits_validate default_site_validates
  default_auth_valid default_proxies_supported default_upstreams_validate

lemma default_acme_normal: "AcmeConfig_normalize AcmeConfig_default = AcmeConfig_default"
  by code_simp

lemma default_configuration_loads:
  "Config_load (\<lambda>_. False) plain_url_lib (\<lambda>_. None) None = Inr Config_default"
proof -
  have "Config_validate (\<lambda>_. False) plain_url_lib Config_default = Inr ()"
    by (simp add: Config_validate_def default_fields default_validate)
  moreover have "apply_env_overrides (\<lambda>_. None) c = Inr c" for c
    by (simp add: apply_env_overrides_def apply_overrides_unset)
  moreover have "Config_default\<lparr>cfg_public_base_url := trim_end_matches (CHR ''/'') (cfg_public_base_url Config_default)\<rparr> = Config_default"
    by (simp add: default_fields default_proxies_supported)
  moreover have "Config_default\<lparr>cfg_acme := AcmeConfig_normalize (cfg_acme Config_default)\<rparr> = Config_default"
    by (simp add: default_fields default_acme_normal)
  ultimately show ?thesis by (simp add: Config_load_def Let_def)
qed

theorem loaded_configuration_usable_witness:
  "sel_strategy (cfg_upstream_selection Config_default) \<in> {''ordered'', ''adaptive''} \<and>
   list_all (\<lambda>g. parse_url_list g \<noteq> []) (upstream_groups (cfg_upstreams Config_default))"
  unfolding list_all_iff using loaded_configuration_usable [OF default_configuration_loads] by blast

text \<open>Submitting the ACME form does not lose or mix secrets: a provider secret that is
  left blank keeps its stored value; a new Cloudflare token replaces a stored global key and
  address, a new global key or address replaces a stored token, and a form that gives none of
  the three keeps all three.\<close>

theorem acme_secrets_preserved:
  "let d = ac_dns a; s = ac_dns current; r = ac_dns (preserve_blank_secrets_from current a);
       blank = (\<lambda>x. trim x = [])
   in (\<forall>f \<in> {adc_aliyun_access_key_id, adc_aliyun_access_key_secret, adc_tencent_secret_id,
            adc_tencent_secret_key, adc_route53_access_key_id, adc_route53_secret_access_key,
            adc_route53_session_token, adc_webhook_bearer_token}.
          f r = (if blank (f d) then f s else f d)) \<and>
      (\<not> blank (adc_cloudflare_api_token d) \<longrightarrow> adc_cloudflare_api_token r = adc_cloudflare_api_token d \<and>
          adc_cloudflare_api_key r = [] \<and> adc_cloudflare_email r = []) \<and>
      (blank (adc_cloudflare_api_token d) \<and> (\<not> blank (adc_cloudflare_api_key d) \<or> \<not> blank (adc_cloudflare_email d)) \<longrightarrow>
          adc_cloudflare_api_token r = []) \<and>
      (blank (adc_cloudflare_api_token d) \<and> blank (adc_cloudflare_api_key d) \<and> blank (adc_cloudflare_email d) \<longrightarrow>
          adc_cloudflare_api_token r = adc_cloudflare_api_token s \<and>
          adc_cloudflare_api_key r = adc_cloudflare_api_key s \<and> adc_cloudflare_email r = adc_cloudflare_email s)"
  by (simp add: preserve_blank_secrets_from_def preserve_blank_def Let_def)

end
