(* ===== verification/Proxy_Base.thy ===== *)
theory Proxy_Base
  imports Config_Model
begin

text \<open>
  The parts of \<open>crates/server/src/proxy/mod.rs\<close> that every adapter uses: the error type with
  its HTTP status, the first endpoint of a group, the repository path check, the two URL
  builders, and the header and status filters.
\<close>

section \<open>Errors\<close>

datatype ProxyError =
    Disabled string
  | CacheWorker
  | InvalidUrl
  | UnsupportedTarget
  | MethodNotAllowed
  | Upstream
  | InvalidHeader
  | UnsafeRedirect

fun status_code :: "ProxyError \<Rightarrow> nat" where
  "status_code (Disabled _) = 404"
| "status_code InvalidUrl = 400"
| "status_code UnsupportedTarget = 400"
| "status_code InvalidHeader = 400"
| "status_code UnsafeRedirect = 502"
| "status_code CacheWorker = 500"
| "status_code MethodNotAllowed = 405"
| "status_code Upstream = 502"

section \<open>URLs\<close>

definition select_upstream :: "string \<Rightarrow> ProxyError + string" where
  "select_upstream configured =
     ok_or InvalidUrl (find (\<lambda>endpoint. endpoint \<noteq> []) (map trim (split_on (CHR '','') configured)))"

definition sanitize_repository_path :: "string \<Rightarrow> ProxyError + string" where
  "sanitize_repository_path path =
     (let path = trim_start_matches (CHR ''/'') path
      in if path = [] \<or> CHR 0x5C \<in> set path
            \<or> list_ex (\<lambda>part. part = [] \<or> part = ''.'' \<or> part = ''..'' \<or> CHR 0x00 \<in> set part)
                (split_on (CHR ''/'') path)
         then Inl InvalidUrl else Inr path)"

definition base_url :: "url_lib \<Rightarrow> string \<Rightarrow> ProxyError + url" where
  "base_url L base = bindr (select_upstream base) (\<lambda>e. ok_or InvalidUrl (url_parse L e))"

definition repository_url :: "url_lib \<Rightarrow> string \<Rightarrow> string \<Rightarrow> string option \<Rightarrow> ProxyError + url" where
  "repository_url L base path query =
     bindr (base_url L base) (\<lambda>url.
       Inr (url_set_query L (url_set_path L url (trim_end_matches (CHR ''/'') (u_path url) @ ''/'' @ path)) query))"

definition build_url :: "url_lib \<Rightarrow> string \<Rightarrow> string \<Rightarrow> string option \<Rightarrow> ProxyError + url" where
  "build_url L base path query =
     bindr (base_url L base) (\<lambda>url. Inr (url_set_query L (url_set_path L url path) query))"

definition proxied_absolute_url :: "string \<Rightarrow> string \<Rightarrow> string" where
  "proxied_absolute_url public_base_url absolute =
     trim_end_matches (CHR ''/'') public_base_url @ ''/'' @ absolute"

definition metadata_cache_value :: string where
  "metadata_cache_value = ''public, max-age=300, stale-while-revalidate=3600''"

definition metadata_vary_value :: string where
  "metadata_vary_value = ''X-Forwarded-Host, X-Forwarded-Proto''"

section \<open>Filters\<close>

definition should_forward_request_header :: "string \<Rightarrow> bool" where
  "should_forward_request_header name \<longleftrightarrow>
     to_ascii_lowercase name \<notin> set [''host'', ''authorization'', ''cookie'', ''connection'', ''keep-alive'',
       ''proxy-authenticate'', ''proxy-authorization'', ''traceparent'', ''tracestate'', ''baggage'', ''te'',
       ''trailer'', ''transfer-encoding'', ''upgrade'']"

definition should_forward_response_header :: "string \<Rightarrow> bool" where
  "should_forward_response_header name \<longleftrightarrow>
     to_ascii_lowercase name \<notin> set [''connection'', ''keep-alive'', ''proxy-authenticate'', ''proxy-authorization'',
       ''te'', ''trailer'', ''transfer-encoding'', ''upgrade'']"

definition should_failover_status :: "nat \<Rightarrow> bool" where
  "should_failover_status status \<longleftrightarrow>
     status = 404 \<or> status = 408 \<or> status = 429 \<or> (500 \<le> status \<and> status < 600)"

definition cacheable_request :: "http_method \<Rightarrow> header_map \<Rightarrow> bool" where
  "cacheable_request method headers \<longleftrightarrow>
     method = GET \<and> \<not> hdr_contains headers ''authorization'' \<and> \<not> hdr_contains headers ''cookie''
     \<and> \<not> hdr_contains headers ''range''"

definition max_cache_entry_bytes :: "cache_config \<Rightarrow> nat" where
  "max_cache_entry_bytes cache = sat_mul (cc_max_entry_mb cache) (1024 * 1024)"

definition max_cache_total_bytes :: "cache_config \<Rightarrow> nat" where
  "max_cache_total_bytes cache = sat_mul (cc_max_total_mb cache) (1024 * 1024)"

text \<open>A response: its status, its headers and its body.\<close>

record response =
  r_status :: nat
  r_headers :: header_map
  r_body :: string

definition response_with_headers :: "nat \<Rightarrow> header_map \<Rightarrow> string \<Rightarrow> response" where
  "response_with_headers status headers body =
     \<lparr>r_status = status, r_headers = filter (\<lambda>(n, _). should_forward_response_header n) headers, r_body = body\<rparr>"

section \<open>Lemmas\<close>

lemma sanitize_ok:
  assumes "sanitize_repository_path path = Inr p"
  shows "p = trim_start_matches (CHR ''/'') path \<and> p \<noteq> [] \<and> CHR 0x5C \<notin> set p \<and>
     (\<forall>part \<in> set (split_on (CHR ''/'') p). part \<noteq> [] \<and> part \<noteq> ''.'' \<and> part \<noteq> ''..'')"
  using assms by (auto simp: sanitize_repository_path_def Let_def list_ex_iff split: if_splits)

lemma repository_url_ok:
  assumes "repository_url L base path query = Inr u"
  obtains e b where "select_upstream base = Inr e" "url_parse L e = Some b"
    "u = url_set_query L (url_set_path L b (trim_end_matches (CHR ''/'') (u_path b) @ ''/'' @ path)) query"
  using assms by (auto simp: repository_url_def base_url_def bindr_eq_Inr)

lemma response_headers_filtered:
  "\<forall>(n, v) \<in> set (r_headers (response_with_headers st h b)). should_forward_response_header n"
  by (auto simp: response_with_headers_def)

end
