(* ===== verification/Disk_Cache.thy ===== *)
theory Disk_Cache
  imports Proxy_Base Config_Defaults "HOL-Library.AList"
begin

text \<open>
  The response cache on disk (\<open>crates/server/src/proxy/cache.rs\<close>): the lifetime and the
  variants of a response, storing, loading and revalidating an entry, the incremental
  account of the bytes stored, eviction of the least recently used bodies, statistics and
  purge.

  The file system is an association list from paths to files; a path is a directory and a
  file name.  The argument \<open>io\<close> says which operations on it succeed; one that fails changes
  nothing.  SHA-256 in hexadecimal is the parameter \<open>sha\<close>, and the JSON encoding of the
  metadata the parameter \<open>J\<close>.  Writers hold a lock, so every operation is one step.
\<close>

section \<open>Files\<close>

type_synonym path = "string \<times> string"

record cache_file =
  f_bytes :: string
  f_mtime :: int

datatype io_op =
    CreateDir string | ReadDir string | WriteFile path | RenameFile path path | RemoveFile path | TouchFile path

type_synonym io = "io_op \<Rightarrow> bool"

text \<open>\<open>Path::extension\<close> and \<open>Path::with_extension\<close> on a file name.\<close>

definition name_extension :: "string \<Rightarrow> string option" where
  "name_extension n =
     (let e = takeWhile (\<lambda>c. c \<noteq> CHR ''.'') (rev n)
      in if length n \<le> length e + 1 then None else Some (rev e))"

definition name_stem :: "string \<Rightarrow> string" where
  "name_stem n =
     (case name_extension n of None \<Rightarrow> n | Some e \<Rightarrow> take (length n - length e - 1) n)"

definition with_extension :: "path \<Rightarrow> string \<Rightarrow> path" where
  "with_extension p e = (fst p, name_stem (snd p) @ ''.'' @ e)"

type_synonym files = "(path \<times> cache_file) list"

definition fs_write :: "io \<Rightarrow> int \<Rightarrow> path \<Rightarrow> string \<Rightarrow> files \<Rightarrow> files option" where
  "fs_write io t p b fs =
     (if io (WriteFile p) then Some (AList.update p \<lparr>f_bytes = b, f_mtime = t\<rparr> fs) else None)"

definition fs_rename :: "io \<Rightarrow> path \<Rightarrow> path \<Rightarrow> files \<Rightarrow> files option" where
  "fs_rename io a b fs =
     (case map_of fs a of
        None \<Rightarrow> None
      | Some f \<Rightarrow> if io (RenameFile a b) then Some (AList.update b f (AList.delete a fs)) else None)"

definition fs_remove :: "io \<Rightarrow> path \<Rightarrow> files \<Rightarrow> files option" where
  "fs_remove io p fs =
     (if map_of fs p \<noteq> None \<and> io (RemoveFile p) then Some (AList.delete p fs) else None)"

text \<open>An operation whose result is dropped: \<open>let _ = ...\<close>.\<close>

definition attempt :: "files option \<Rightarrow> files \<Rightarrow> files" where
  "attempt r fs = unwrap_or fs r"

section \<open>State\<close>

record Capacity =
  cap_directory :: string
  cap_max_bytes :: nat
  cap_bytes :: nat
  cap_checked_at :: instant

record disk =
  dk_dirs :: "string list"
  dk_files :: files
  dk_capacity :: "Capacity option"

record DiskCacheMetadata =
  dm_status :: nat
  dm_headers :: header_map
  dm_stored_at :: nat
  dm_expires_at :: nat
  dm_vary :: "(string \<times> string) list"

record DiskCacheEntry =
  de_body :: string
  de_metadata :: DiskCacheMetadata

record codec =
  to_vec :: "DiskCacheMetadata \<Rightarrow> string"
  from_slice :: "string \<Rightarrow> DiskCacheMetadata option"

text \<open>The clock of an operation: unix time in seconds, the file time and the monotonic one.\<close>

record clock =
  ck_unix :: nat
  ck_mtime :: int
  ck_instant :: instant

section \<open>Lifetime and variants\<close>

definition cache_paths :: "(string \<Rightarrow> string) \<Rightarrow> cache_config \<Rightarrow> url \<Rightarrow> (path \<times> path) option" where
  "cache_paths sha cache url =
     (if \<not> cc_enabled cache \<or> trim (cc_directory cache) = [] then None
      else let key = sha (u_str url)
           in Some ((cc_directory cache, key @ ''.body''), (cc_directory cache, key @ ''.json'')))"

definition cache_directives :: "header_map \<Rightarrow> string list" where
  "cache_directives headers = map trim (split_on (CHR '','') (unwrap_or [] (hdr_str headers ''cache-control'')))"

definition directive_ttl :: "string \<Rightarrow> nat option" where
  "directive_ttl directive =
     (case split_once (CHR ''='') directive of
        None \<Rightarrow> None
      | Some (name, value) \<Rightarrow>
          if to_ascii_lowercase (trim name) \<in> set [''s-maxage'', ''max-age'']
          then parse_uint U64_MAX (trim_matches (CHR 0x22) value) else None)"

definition cache_lifetime :: "cache_config \<Rightarrow> header_map \<Rightarrow> nat \<Rightarrow> (nat \<times> nat) option" where
  "cache_lifetime cache headers now =
     (let directives = cache_directives headers
      in if list_ex (\<lambda>d. to_ascii_lowercase d \<in> set [''no-store'', ''private'', ''no-cache'']) directives then None
         else (let upstream_ttl = find_map directive_ttl directives;
                   ttl = min (unwrap_or (cc_default_ttl_secs cache) upstream_ttl) (cc_max_ttl_secs cache)
               in if ttl > 0 then Some (now, sat_add now ttl) else None))"

definition vary_names :: "header_map \<Rightarrow> string list" where
  "vary_names headers =
     filter (\<lambda>v. v \<noteq> []) (map trim (concat (map (split_on (CHR '',''))
       (filter_map to_str (hdr_get_all headers ''vary'')))))"

definition cache_vary :: "header_map \<Rightarrow> header_map \<Rightarrow> (string \<times> string) list option" where
  "cache_vary headers incoming =
     (if ''*'' \<in> set (vary_names headers) then None
      else Some (map (\<lambda>name. (to_ascii_lowercase name, unwrap_or [] (hdr_str incoming name))) (vary_names headers)))"

definition cached_header :: "DiskCacheMetadata \<Rightarrow> string \<Rightarrow> string option" where
  "cached_header m name =
     map_option snd (find (\<lambda>(existing, _). eq_ignore_ascii_case existing name) (dm_headers m))"

section \<open>Loading\<close>

definition vary_mismatch :: "DiskCacheMetadata \<Rightarrow> header_map \<Rightarrow> bool" where
  "vary_mismatch m incoming =
     list_ex (\<lambda>(name, expected). unwrap_or [] (hdr_str incoming name) \<noteq> expected) (dm_vary m)"

definition load_disk_cache ::
  "io \<Rightarrow> (string \<Rightarrow> string) \<Rightarrow> codec \<Rightarrow> clock \<Rightarrow> cache_config \<Rightarrow> url \<Rightarrow> header_map \<Rightarrow> disk \<Rightarrow> DiskCacheEntry option \<times> disk" where
  "load_disk_cache io sha J ck cache url incoming d =
     (case cache_paths sha cache url of
        None \<Rightarrow> (None, d)
      | Some (body_path, metadata_path) \<Rightarrow>
          (case Option.bind (map_of (dk_files d) metadata_path) (\<lambda>f. from_slice J (f_bytes f)) of
             None \<Rightarrow> (None, d)
           | Some metadata \<Rightarrow>
               if vary_mismatch metadata incoming then (None, d)
               else (case map_of (dk_files d) body_path of
                       None \<Rightarrow> (None, d)
                     | Some f \<Rightarrow>
                         if length (f_bytes f) > max_cache_entry_bytes cache then (None, d)
                         else (Some \<lparr>de_body = f_bytes f, de_metadata = metadata\<rparr>,
                               if io (TouchFile body_path)
                               then d\<lparr>dk_files := AList.update body_path (f\<lparr>f_mtime := ck_mtime ck\<rparr>) (dk_files d)\<rparr>
                               else d))))"

definition cached_response :: "nat \<Rightarrow> string \<Rightarrow> DiskCacheEntry \<Rightarrow> ProxyError + response" where
  "cached_response now cache_status entry =
     (let m = de_metadata entry
      in if \<not> (100 \<le> dm_status m \<and> dm_status m < 1000) then Inl InvalidHeader
         else Inr \<lparr>r_status = dm_status m,
                   r_headers = (''x-mirrorproxy-cache'', cache_status)
                     # (''age'', dec_of_nat (sat_sub now (dm_stored_at m)))
                     # filter (\<lambda>(n, v). should_forward_response_header n \<and> to_ascii_lowercase n \<noteq> ''age'') (dm_headers m),
                   r_body = de_body entry\<rparr>)"

section \<open>Capacity and eviction\<close>

definition is_body :: "string \<Rightarrow> path \<Rightarrow> bool" where
  "is_body dir p \<longleftrightarrow> fst p = dir \<and> name_extension (snd p) = Some ''body''"

definition bodies :: "string \<Rightarrow> files \<Rightarrow> files" where
  "bodies dir fs = filter (\<lambda>(p, _). is_body dir p) fs"

definition total_bytes :: "files \<Rightarrow> nat" where
  "total_bytes fs = sum_list (map (\<lambda>(_, f). length (f_bytes f)) fs)"

fun evict_loop :: "io \<Rightarrow> nat \<Rightarrow> files \<Rightarrow> nat \<Rightarrow> files \<Rightarrow> nat \<times> files" where
  "evict_loop io limit [] tot fs = (tot, fs)"
| "evict_loop io limit ((p, f) # rest) tot fs =
     (if tot \<le> limit then (tot, fs)
      else (case fs_remove io p fs of
              Some fs1 \<Rightarrow>
                evict_loop io limit rest (sat_sub tot (length (f_bytes f)))
                  (attempt (fs_remove io (with_extension p ''json'') fs1) fs1)
            | None \<Rightarrow> evict_loop io limit rest tot fs))"

definition evict_disk_cache :: "io \<Rightarrow> cache_config \<Rightarrow> disk \<Rightarrow> nat \<times> disk" where
  "evict_disk_cache io cache d =
     (if cc_directory cache \<notin> set (dk_dirs d) \<or> \<not> io (ReadDir (cc_directory cache)) then (0, d)
      else (let bs = bodies (cc_directory cache) (dk_files d);
                tot = total_bytes bs
            in if tot \<le> max_cache_total_bytes cache then (tot, d)
               else (let (tot1, fs) = evict_loop io (max_cache_total_bytes cache)
                           (sort_key (\<lambda>(_, f). f_mtime f) bs) tot (dk_files d)
                     in (tot1, d\<lparr>dk_files := fs\<rparr>))))"

definition recheck :: "io \<Rightarrow> clock \<Rightarrow> cache_config \<Rightarrow> disk \<Rightarrow> disk" where
  "recheck io ck cache d =
     (let (bytes, d') = evict_disk_cache io cache d
      in d'\<lparr>dk_capacity := Some \<lparr>cap_directory = cc_directory cache, cap_max_bytes = max_cache_total_bytes cache,
            cap_bytes = bytes, cap_checked_at = ck_instant ck\<rparr>\<rparr>)"

definition maintain_capacity :: "io \<Rightarrow> clock \<Rightarrow> cache_config \<Rightarrow> nat \<Rightarrow> nat \<Rightarrow> disk \<Rightarrow> disk" where
  "maintain_capacity io ck cache previous_bytes written_bytes d =
     (case opt_filter (\<lambda>c. cap_directory c = cc_directory cache \<and> cap_max_bytes c = max_cache_total_bytes cache)
             (dk_capacity d) of
        Some current \<Rightarrow>
          (let bytes = sat_add (sat_sub (cap_bytes current) previous_bytes) written_bytes;
               current' = current\<lparr>cap_bytes := bytes\<rparr>
           in if bytes \<le> cap_max_bytes current \<and> ck_instant ck - cap_checked_at current < secs 30
              then d\<lparr>dk_capacity := Some current'\<rparr>
              else recheck io ck cache d)
      | None \<Rightarrow> recheck io ck cache d)"

section \<open>Storing\<close>

definition stored_metadata :: "nat \<Rightarrow> header_map \<Rightarrow> nat \<times> nat \<Rightarrow> (string \<times> string) list \<Rightarrow> DiskCacheMetadata" where
  "stored_metadata status headers lifetime vary =
     \<lparr>dm_status = status,
      dm_headers = filter_map (\<lambda>(n, v). map_option (Pair n) (to_str v))
        (filter (\<lambda>(n, _). should_forward_response_header n) headers),
      dm_stored_at = fst lifetime, dm_expires_at = snd lifetime, dm_vary = vary\<rparr>"

definition file_len :: "files \<Rightarrow> path \<Rightarrow> nat" where
  "file_len fs p = (case map_of fs p of None \<Rightarrow> 0 | Some f \<Rightarrow> length (f_bytes f))"

definition commit_entry ::
  "io \<Rightarrow> codec \<Rightarrow> clock \<Rightarrow> cache_config \<Rightarrow> path \<Rightarrow> path \<Rightarrow> DiskCacheMetadata \<Rightarrow> string \<Rightarrow> disk \<Rightarrow> disk" where
  "commit_entry io J ck cache body_path metadata_path metadata body d =
     (let previous_bytes = file_len (dk_files d) body_path;
          body_tmp = with_extension body_path ''body.tmp'';
          metadata_tmp = with_extension metadata_path ''json.tmp''
      in case fs_write io (ck_mtime ck) body_tmp body (dk_files d) of
           None \<Rightarrow> d
         | Some fs1 \<Rightarrow>
             (case fs_write io (ck_mtime ck) metadata_tmp (to_vec J metadata) fs1 of
                None \<Rightarrow> d\<lparr>dk_files := fs1\<rparr>
              | Some fs2 \<Rightarrow>
                  (let d' = (case fs_rename io body_tmp body_path fs2 of
                               None \<Rightarrow> d\<lparr>dk_files := fs2\<rparr>
                             | Some fs3 \<Rightarrow>
                                 (case fs_rename io metadata_tmp metadata_path fs3 of
                                    None \<Rightarrow> d\<lparr>dk_files := fs3\<rparr>
                                  | Some fs4 \<Rightarrow>
                                      maintain_capacity io ck cache previous_bytes (length body) (d\<lparr>dk_files := fs4\<rparr>)));
                       fs5 = attempt (fs_remove io body_tmp (dk_files d')) (dk_files d')
                   in d'\<lparr>dk_files := attempt (fs_remove io metadata_tmp fs5) fs5\<rparr>)))"

definition create_dir_all :: "io \<Rightarrow> string \<Rightarrow> disk \<Rightarrow> disk option" where
  "create_dir_all io dir d =
     (if dir \<in> set (dk_dirs d) then Some d
      else if io (CreateDir dir) then Some (d\<lparr>dk_dirs := dir # dk_dirs d\<rparr>) else None)"

definition write_disk_cache ::
  "io \<Rightarrow> (string \<Rightarrow> string) \<Rightarrow> codec \<Rightarrow> clock \<Rightarrow> cache_config \<Rightarrow> url \<Rightarrow> header_map \<Rightarrow> nat \<Rightarrow> header_map \<Rightarrow> string \<Rightarrow> disk \<Rightarrow> disk" where
  "write_disk_cache io sha J ck cache url incoming status headers body d =
     (case cache_paths sha cache url of
        None \<Rightarrow> d
      | Some (body_path, metadata_path) \<Rightarrow>
          (case create_dir_all io (fst body_path) d of
             None \<Rightarrow> d
           | Some d1 \<Rightarrow>
               (case cache_lifetime cache headers (ck_unix ck) of
                  None \<Rightarrow> d1
                | Some lifetime \<Rightarrow>
                    if hdr_contains headers ''set-cookie'' then d1
                    else (case cache_vary headers incoming of
                            None \<Rightarrow> d1
                          | Some vary \<Rightarrow>
                              commit_entry io J ck cache body_path metadata_path
                                (stored_metadata status headers lifetime vary) body d1))))"

definition refresh_header :: "header_map \<Rightarrow> DiskCacheMetadata \<Rightarrow> string \<Rightarrow> DiskCacheMetadata" where
  "refresh_header response_headers m name =
     (case hdr_str response_headers name of
        None \<Rightarrow> m
      | Some value \<Rightarrow>
          m\<lparr>dm_headers := filter (\<lambda>(existing, _). \<not> eq_ignore_ascii_case existing name) (dm_headers m) @ [(name, value)]\<rparr>)"

definition refresh_cache_metadata ::
  "io \<Rightarrow> (string \<Rightarrow> string) \<Rightarrow> codec \<Rightarrow> clock \<Rightarrow> cache_config \<Rightarrow> url \<Rightarrow> DiskCacheMetadata \<Rightarrow> header_map \<Rightarrow> disk
     \<Rightarrow> DiskCacheMetadata \<times> disk" where
  "refresh_cache_metadata io sha J ck cache url metadata response_headers d =
     (case cache_lifetime cache response_headers (ck_unix ck) of
        None \<Rightarrow> (metadata, d)
      | Some (stored_at, expires_at) \<Rightarrow>
          (let m = foldl (refresh_header response_headers)
                     (metadata\<lparr>dm_stored_at := stored_at, dm_expires_at := expires_at\<rparr>)
                     [''etag'', ''last-modified'', ''cache-control'', ''expires'']
           in (m, case cache_paths sha cache url of
                    None \<Rightarrow> d
                  | Some (_, metadata_path) \<Rightarrow>
                      (let temporary = with_extension metadata_path ''json.tmp''
                       in case fs_write io (ck_mtime ck) temporary (to_vec J m) (dk_files d) of
                            None \<Rightarrow> d
                          | Some fs1 \<Rightarrow> d\<lparr>dk_files := attempt (fs_rename io temporary metadata_path fs1) fs1\<rparr>))))"

section \<open>Statistics and purge\<close>

record CacheStats =
  cs_enabled :: bool
  cs_directory :: string
  cs_entries :: nat
  cs_bytes :: nat
  cs_max_bytes :: nat

definition disk_cache_stats :: "io \<Rightarrow> cache_config \<Rightarrow> disk \<Rightarrow> CacheStats" where
  "disk_cache_stats io cache d =
     (let bs = (if cc_directory cache \<in> set (dk_dirs d) \<and> io (ReadDir (cc_directory cache))
                then bodies (cc_directory cache) (dk_files d) else [])
      in \<lparr>cs_enabled = cc_enabled cache, cs_directory = cc_directory cache, cs_entries = length bs,
          cs_bytes = foldl (\<lambda>n (_, f). sat_add n (length (f_bytes f))) 0 bs,
          cs_max_bytes = max_cache_total_bytes cache\<rparr>)"

definition purgeable :: "string \<Rightarrow> path \<Rightarrow> bool" where
  "purgeable dir p \<longleftrightarrow> fst p = dir \<and> name_extension (snd p) \<in> Some ` set [''body'', ''json'', ''tmp'']"

definition purge_disk_cache :: "io \<Rightarrow> cache_config \<Rightarrow> disk \<Rightarrow> nat option \<times> disk" where
  "purge_disk_cache io cache d =
     (let d0 = d\<lparr>dk_capacity := None\<rparr>; dir = cc_directory cache
      in if dir \<notin> set (dk_dirs d) then (Some 0, d0)
         else if \<not> io (ReadDir dir) then (None, d0)
         else (let gone = (\<lambda>(p, _). purgeable dir p \<and> io (RemoveFile p))
               in (Some (length (filter gone (dk_files d))),
                   d0\<lparr>dk_files := filter (\<lambda>e. \<not> gone e) (dk_files d)\<rparr>)))"

section \<open>Names of cache files\<close>

lemma name_extension_dot:
  assumes "k \<noteq> []" "CHR ''.'' \<notin> set e"
  shows "name_extension (k @ CHR ''.'' # e) = Some e"
proof -
  have "takeWhile (\<lambda>c. c \<noteq> CHR ''.'') (rev (k @ CHR ''.'' # e)) = rev e"
    using assms(2) by (simp add: takeWhile_append)
  with assms(1) show ?thesis by (simp add: name_extension_def Let_def)
qed

lemma name_stem_dot:
  assumes "k \<noteq> []" "CHR ''.'' \<notin> set e"
  shows "name_stem (k @ CHR ''.'' # e) = k"
  by (simp add: name_stem_def name_extension_dot [OF assms])

lemma body_names:
  assumes "k \<noteq> []"
  shows "name_extension (k @ ''.body'') = Some ''body''" "name_extension (k @ ''.json'') = Some ''json''"
    "name_extension (k @ ''.body.tmp'') = Some ''tmp''" "name_extension (k @ ''.json.tmp'') = Some ''tmp''"
    "with_extension (dir, k @ ''.body'') ''body.tmp'' = (dir, k @ ''.body.tmp'')"
    "with_extension (dir, k @ ''.json'') ''json.tmp'' = (dir, k @ ''.json.tmp'')"
  using name_extension_dot [OF assms, of "''body''"] name_extension_dot [OF assms, of "''json''"]
    name_extension_dot [of "k @ ''.body''" "''tmp''"] name_extension_dot [of "k @ ''.json''" "''tmp''"]
    name_stem_dot [OF assms, of "''body''"] name_stem_dot [OF assms, of "''json''"]
  by (simp_all add: with_extension_def)

lemma extension_suffix: "name_extension n = Some e \<Longrightarrow> n = name_stem n @ CHR ''.'' # e"
proof -
  assume a: "name_extension n = Some e"
  let ?t = "takeWhile (\<lambda>c. c \<noteq> CHR ''.'') (rev n)"
  from a have e: "e = rev ?t" and l: "length ?t + 1 < length n"
    by (auto simp: name_extension_def Let_def split: if_splits)
  have "rev n = ?t @ dropWhile (\<lambda>c. c \<noteq> CHR ''.'') (rev n)" by simp
  moreover obtain r where "dropWhile (\<lambda>c. c \<noteq> CHR ''.'') (rev n) = CHR ''.'' # r"
  proof (cases "dropWhile (\<lambda>c. c \<noteq> CHR ''.'') (rev n)")
    case Nil
    with l have False by (metis append_Nil2 length_rev less_add_one not_less_iff_gr_or_eq takeWhile_dropWhile_id)
    then show ?thesis ..
  next
    case (Cons c r)
    then have "c = CHR ''.''" using hd_dropWhile [of "\<lambda>c. c \<noteq> CHR ''.''" "rev n"] by fastforce
    with Cons that show ?thesis by blast
  qed
  ultimately have "rev n = ?t @ CHR ''.'' # r" by metis
  then have n: "n = rev r @ CHR ''.'' # e" using e by (metis append.assoc append_Cons append_Nil rev.simps(2) rev_append rev_rev_ident)
  then show ?thesis using a by (simp add: name_stem_def)
qed

section \<open>Totals\<close>

lemma total_bytes_append [simp]: "total_bytes (a @ b) = total_bytes a + total_bytes b"
  by (simp add: total_bytes_def)

lemma total_bytes_Nil [simp]: "total_bytes [] = 0"
  by (simp add: total_bytes_def)

lemma total_bytes_Cons [simp]: "total_bytes ((p, f) # fs) = length (f_bytes f) + total_bytes fs"
  by (simp add: total_bytes_def)

lemma total_bytes_mset: "mset a = mset b \<Longrightarrow> total_bytes a = total_bytes b"
proof -
  have "total_bytes fs = sum_mset (image_mset (\<lambda>(_, f). length (f_bytes f)) (mset fs))" for fs
    unfolding total_bytes_def by (simp only: mset_map [symmetric] sum_mset_sum_list)
  then show "mset a = mset b \<Longrightarrow> total_bytes a = total_bytes b" by simp
qed

definition body_len :: "string \<Rightarrow> path \<Rightarrow> cache_file option \<Rightarrow> nat" where
  "body_len dir p f = (if is_body dir p then (case f of None \<Rightarrow> 0 | Some f \<Rightarrow> length (f_bytes f)) else 0)"

definition dir_bytes :: "string \<Rightarrow> files \<Rightarrow> nat" where
  "dir_bytes dir fs = total_bytes (bodies dir fs)"

lemma dir_bytes_Cons: "dir_bytes dir ((p, f) # fs) = body_len dir p (Some f) + dir_bytes dir fs"
  by (simp add: dir_bytes_def bodies_def body_len_def)

lemma dir_bytes_delete:
  "distinct (map fst fs) \<Longrightarrow> dir_bytes dir (AList.delete p fs) + body_len dir p (map_of fs p) = dir_bytes dir fs"
proof (induction fs)
  case Nil
  then show ?case by (simp add: body_len_def)
next
  case (Cons x fs)
  obtain q f where x: "x = (q, f)" by (cases x)
  show ?case
  proof (cases "q = p")
    case True
    with Cons.prems x have "AList.delete p fs = fs" by auto
    with True x show ?thesis by (simp add: dir_bytes_Cons)
  next
    case False
    with Cons x show ?thesis by (simp add: dir_bytes_Cons)
  qed
qed

lemma dir_bytes_update:
  "distinct (map fst fs) \<Longrightarrow>
   dir_bytes dir (AList.update p f fs) + body_len dir p (map_of fs p) = dir_bytes dir fs + body_len dir p (Some f)"
proof (induction fs)
  case Nil
  then show ?case by (simp add: dir_bytes_Cons) (simp add: body_len_def dir_bytes_def bodies_def)
next
  case (Cons x fs)
  obtain q g where x: "x = (q, g)" by (cases x)
  with Cons show ?case by (auto simp: dir_bytes_Cons)
qed

lemma body_len_non_body [simp]: "\<not> is_body dir p \<Longrightarrow> body_len dir p f = 0"
  by (simp add: body_len_def)

section \<open>Eviction\<close>

definition reliable :: "io \<Rightarrow> bool" where
  "reliable io \<longleftrightarrow> (\<forall>p. io (RemoveFile p)) \<and> (\<forall>a b. io (RenameFile a b)) \<and> (\<forall>d. io (ReadDir d))"

lemma reliableD:
  assumes "reliable io"
  shows "io (RemoveFile p)" "io (RenameFile a b)" "io (ReadDir d)"
  using assms unfolding reliable_def by blast+

lemma attempt_remove: "reliable io \<Longrightarrow> attempt (fs_remove io p fs) fs = AList.delete p fs"
  using reliableD(1) [of io p]
  by (auto simp: attempt_def fs_remove_def unwrap_or_def map_of_eq_None_iff)

lemma fs_remove_present: "reliable io \<Longrightarrow> p \<in> fst ` set fs \<Longrightarrow> fs_remove io p fs = Some (AList.delete p fs)"
  using reliableD(1) [of io p] by (auto simp: fs_remove_def map_of_eq_None_iff)

definition json_of :: "path \<times> cache_file \<Rightarrow> path" where
  "json_of x = with_extension (fst x) ''json''"

lemma json_not_body: "is_body dir p \<Longrightarrow> \<not> is_body dir' (with_extension p ''json'')"
proof -
  assume "is_body dir p"
  then have "name_extension (snd p) = Some ''body''" by (simp add: is_body_def)
  then have "name_stem (snd p) \<noteq> []"
    by (auto simp: name_stem_def name_extension_def Let_def split: if_splits)
  from name_extension_dot [OF this, of "''json''"] show ?thesis
    by (simp add: is_body_def with_extension_def)
qed

definition without :: "(path \<times> cache_file) list \<Rightarrow> files \<Rightarrow> files" where
  "without xs fs = filter (\<lambda>(p, _). p \<notin> fst ` set xs \<and> p \<notin> json_of ` set xs) fs"

lemma without_Nil [simp]: "without [] fs = fs"
  by (simp add: without_def case_prod_beta)

lemma without_Cons: "without (x # xs) fs = without xs (AList.delete (json_of x) (AList.delete (fst x) fs))"
  by (auto simp: without_def AList.delete_eq intro: filter_cong)

lemma evict_loop_prefix:
  assumes "reliable io" "distinct (map fst xs)" "\<forall>x \<in> set xs. is_body dir (fst x) \<and> fst x \<in> fst ` set fs"
  shows "\<exists>k \<le> length xs. evict_loop io limit xs tot fs = (tot - total_bytes (take k xs), without (take k xs) fs) \<and>
     (k < length xs \<longrightarrow> tot - total_bytes (take k xs) \<le> limit) \<and>
     (\<forall>j < k. limit < tot - total_bytes (take j xs))"
  using assms(2,3)
proof (induction xs arbitrary: tot fs)
  case Nil
  then show ?case by simp
next
  case (Cons x xs)
  obtain p f where x: "x = (p, f)" by (cases x)
  show ?case
  proof (cases "tot \<le> limit")
    case True
    then show ?thesis by (intro exI [of _ 0]) (simp add: x)
  next
    case False
    let ?fs = "AList.delete (json_of x) (AList.delete p fs)"
    have pres: "\<forall>y \<in> set xs. is_body dir (fst y) \<and> fst y \<in> fst ` set ?fs"
    proof
      fix y assume y: "y \<in> set xs"
      with Cons.prems x have "fst y \<noteq> p" "is_body dir (fst y)" "fst y \<in> fst ` set fs" by force+
      moreover have "fst y \<noteq> json_of x"
        using json_not_body [of dir p dir] Cons.prems(2) x \<open>is_body dir (fst y)\<close> by (auto simp: json_of_def)
      ultimately show "is_body dir (fst y) \<and> fst y \<in> fst ` set ?fs" by (force simp: AList.delete_eq)
    qed
    from Cons.prems(1) have "distinct (map fst xs)" by simp
    from Cons.IH [OF this pres, of "tot - length (f_bytes f)"]
    obtain k where k: "k \<le> length xs"
      "evict_loop io limit xs (tot - length (f_bytes f)) ?fs =
         (tot - length (f_bytes f) - total_bytes (take k xs), without (take k xs) ?fs)"
      "k < length xs \<longrightarrow> tot - length (f_bytes f) - total_bytes (take k xs) \<le> limit"
      "\<forall>j < k. limit < tot - length (f_bytes f) - total_bytes (take j xs)" by blast
    have step: "evict_loop io limit (x # xs) tot fs = evict_loop io limit xs (tot - length (f_bytes f)) ?fs"
      using False Cons.prems(2) x
      by (simp add: fs_remove_present [OF assms(1)] attempt_remove [OF assms(1)] sat_sub_def json_of_def)
    show ?thesis
    proof (intro exI [of _ "Suc k"] conjI)
      show "evict_loop io limit (x # xs) tot fs = (tot - total_bytes (take (Suc k) (x # xs)), without (take (Suc k) (x # xs)) fs)"
        using k(2) step by (simp add: without_Cons x)
      show "\<forall>j < Suc k. limit < tot - total_bytes (take j (x # xs))"
        using k(4) False by (auto simp: x less_Suc_eq_0_disj)
    qed (use k in \<open>auto simp: x\<close>)
  qed
qed


lemma bodies_without:
  assumes "\<forall>x \<in> set xs. is_body dir (fst x)"
  shows "bodies dir (without xs fs) = filter (\<lambda>y. fst y \<notin> fst ` set xs) (bodies dir fs)"
proof -
  have "fst y \<notin> json_of ` set xs" if "is_body dir (fst y)" for y :: "path \<times> cache_file"
    using assms json_not_body that by (auto simp: json_of_def)
  then show ?thesis unfolding bodies_def without_def filter_filter case_prod_beta
    by (intro filter_cong) blast+
qed

lemma filter_fst_append:
  assumes "distinct (map fst (a @ b))"
  shows "filter (\<lambda>y. fst y \<notin> fst ` set a) (a @ b) = b"
proof -
  have "filter (\<lambda>y. fst y \<notin> fst ` set a) a = []" by (simp add: filter_empty_conv)
  moreover have "filter (\<lambda>y. fst y \<notin> fst ` set a) b = b"
    using assms by (auto simp: filter_id_conv)
  ultimately show ?thesis by simp
qed

lemma filter_fst_take_drop:
  "distinct (map fst xs) \<Longrightarrow> filter (\<lambda>y. fst y \<notin> fst ` set (take k xs)) xs = drop k xs"
  using filter_fst_append [of "take k xs" "drop k xs"] by simp

text \<open>What eviction does when the file system lets it: it drops the oldest bodies, with their
  metadata, and only as many as needed.\<close>

lemma evict_disk_cache_spec:
  assumes "reliable io" "distinct (map fst (dk_files d))" "cc_directory cache \<in> set (dk_dirs d)"
    and "bs = sort_key (\<lambda>(_, f). f_mtime f) (bodies (cc_directory cache) (dk_files d))"
  shows "\<exists>k. evict_disk_cache io cache d =
       (total_bytes (drop k bs), d\<lparr>dk_files := without (take k bs) (dk_files d)\<rparr>) \<and> k \<le> length bs \<and>
     total_bytes (drop k bs) \<le> max_cache_total_bytes cache \<and>
     (\<forall>j < k. max_cache_total_bytes cache < total_bytes (drop j bs)) \<and>
     mset (bodies (cc_directory cache) (without (take k bs) (dk_files d))) = mset (drop k bs)"
proof -
  let ?dir = "cc_directory cache" and ?limit = "max_cache_total_bytes cache" and ?fs = "dk_files d"
  let ?b = "bodies ?dir ?fs"
  have perm: "mset bs = mset ?b" by (simp add: assms(4))
  then have tot: "total_bytes bs = total_bytes ?b" by (rule total_bytes_mset)
  have "distinct (map fst ?b)" using assms(2) by (simp add: bodies_def distinct_map_filter)
  then have dist: "distinct (map fst bs)" using perm by (metis mset_eq_imp_distinct_iff mset_map)
  have set: "set bs = set ?b" using perm by (rule mset_eq_setD)
  have body: "\<forall>x \<in> set bs. is_body ?dir (fst x) \<and> fst x \<in> fst ` set ?fs"
    unfolding set by (auto simp: bodies_def image_iff) (metis fst_conv)
  have split: "total_bytes bs - total_bytes (take j bs) = total_bytes (drop j bs)" for j
    using total_bytes_append [of "take j bs" "drop j bs"] by simp
  have kept: "mset (bodies ?dir (without (take k bs) ?fs)) = mset (drop k bs)" for k
  proof -
    have "bodies ?dir (without (take k bs) ?fs) = filter (\<lambda>y. fst y \<notin> fst ` set (take k bs)) ?b"
      by (rule bodies_without) (use body in \<open>auto dest: in_set_takeD\<close>)
    then have "mset (bodies ?dir (without (take k bs) ?fs)) = filter_mset (\<lambda>y. fst y \<notin> fst ` set (take k bs)) (mset bs)"
      by (simp add: perm)
    also have "\<dots> = mset (filter (\<lambda>y. fst y \<notin> fst ` set (take k bs)) bs)" by simp
    finally show ?thesis using filter_fst_take_drop [OF dist] by simp
  qed
  show ?thesis
  proof (cases "total_bytes ?b \<le> ?limit")
    case True
    then have "evict_disk_cache io cache d = (total_bytes bs, d)"
      using assms(3) reliableD(3) [OF assms(1)] by (simp add: evict_disk_cache_def Let_def tot)
    with True tot kept [of 0] show ?thesis by (intro exI [of _ 0]) simp
  next
    case False
    obtain k where k: "k \<le> length bs"
      "evict_loop io ?limit bs (total_bytes bs) ?fs = (total_bytes bs - total_bytes (take k bs), without (take k bs) ?fs)"
      "k < length bs \<longrightarrow> total_bytes bs - total_bytes (take k bs) \<le> ?limit"
      "\<forall>j < k. ?limit < total_bytes bs - total_bytes (take j bs)"
      using evict_loop_prefix [OF assms(1) dist body, of ?limit "total_bytes bs"] by blast
    have "evict_disk_cache io cache d = (total_bytes (drop k bs), d\<lparr>dk_files := without (take k bs) ?fs\<rparr>)"
      using assms(3) reliableD(3) [OF assms(1)] False k(2)
      by (simp add: evict_disk_cache_def Let_def flip: assms(4) tot split)
    moreover have "total_bytes (drop k bs) \<le> ?limit"
      using k(1,3) split [of k] by (cases "k < length bs") auto
    ultimately show ?thesis using k(1,4) kept by (intro exI [of _ k]) (simp add: split)
  qed
qed


section \<open>The account of stored bytes\<close>

text \<open>Files lie in existing directories, every path is one file, and the incremental count is
  the size of the bodies of its directory.\<close>

definition disk_inv :: "disk \<Rightarrow> bool" where
  "disk_inv d \<longleftrightarrow>
     distinct (map fst (dk_files d)) \<and> (\<forall>p \<in> fst ` set (dk_files d). fst p \<in> set (dk_dirs d)) \<and>
     (\<forall>c. dk_capacity d = Some c \<longrightarrow>
        cap_directory c \<in> set (dk_dirs d) \<and> cap_bytes c = dir_bytes (cap_directory c) (dk_files d))"

lemma without_paths: "fst ` set (without xs fs) \<subseteq> fst ` set fs"
  by (auto simp: without_def)

lemma without_distinct: "distinct (map fst fs) \<Longrightarrow> distinct (map fst (without xs fs))"
  by (simp add: without_def distinct_map_filter)

lemma recheck_spec:
  assumes "reliable io" "distinct (map fst (dk_files d))" "\<forall>p \<in> fst ` set (dk_files d). fst p \<in> set (dk_dirs d)"
    and "cc_directory cache \<in> set (dk_dirs d)"
  shows "disk_inv (recheck io ck cache d)"
    and "dir_bytes (cc_directory cache) (dk_files (recheck io ck cache d)) \<le> max_cache_total_bytes cache"
    and "dk_dirs (recheck io ck cache d) = dk_dirs d"
proof -
  define bs where "bs = sort_key (\<lambda>(_, f). f_mtime f) (bodies (cc_directory cache) (dk_files d))"
  obtain k where k: "evict_disk_cache io cache d = (total_bytes (drop k bs), d\<lparr>dk_files := without (take k bs) (dk_files d)\<rparr>)"
    "total_bytes (drop k bs) \<le> max_cache_total_bytes cache"
    "mset (bodies (cc_directory cache) (without (take k bs) (dk_files d))) = mset (drop k bs)"
    using evict_disk_cache_spec [OF assms(1,2,4) bs_def] by blast
  have tot: "dir_bytes (cc_directory cache) (without (take k bs) (dk_files d)) = total_bytes (drop k bs)"
    unfolding dir_bytes_def by (rule total_bytes_mset [OF k(3)])
  have "\<forall>p \<in> fst ` set (without (take k bs) (dk_files d)). fst p \<in> set (dk_dirs d)"
    using assms(3) without_paths by blast
  then show "disk_inv (recheck io ck cache d)"
    using assms(4) without_distinct [OF assms(2)] by (simp add: disk_inv_def recheck_def k(1) tot)
  show "dir_bytes (cc_directory cache) (dk_files (recheck io ck cache d)) \<le> max_cache_total_bytes cache"
    using k(2) by (simp add: recheck_def k(1) tot)
  show "dk_dirs (recheck io ck cache d) = dk_dirs d" by (simp add: recheck_def k(1))
qed

text \<open>A store replaces the body of one entry: before \<open>maintain_capacity\<close> the count is off by
  exactly what the call is told.\<close>

lemma maintain_capacity_spec:
  assumes "reliable io" "distinct (map fst (dk_files d))" "\<forall>p \<in> fst ` set (dk_files d). fst p \<in> set (dk_dirs d)"
    and "cc_directory cache \<in> set (dk_dirs d)"
    and "\<And>c. dk_capacity d = Some c \<Longrightarrow> cap_directory c = cc_directory cache \<Longrightarrow>
           cap_bytes c + written = dir_bytes (cc_directory cache) (dk_files d) + previous \<and> previous \<le> cap_bytes c"
    and "dir_bytes (cc_directory cache) (dk_files d) \<le> U64_MAX"
  shows "disk_inv (maintain_capacity io ck cache previous written d)"
    and "dir_bytes (cc_directory cache) (dk_files (maintain_capacity io ck cache previous written d)) \<le> max_cache_total_bytes cache"
    and "dk_dirs (maintain_capacity io ck cache previous written d) = dk_dirs d"
proof -
  let ?m = "maintain_capacity io ck cache previous written d"
  have "?m = recheck io ck cache d \<or>
     (\<exists>c. dk_capacity d = Some c \<and> cap_directory c = cc_directory cache \<and> cap_max_bytes c = max_cache_total_bytes cache \<and>
        sat_add (sat_sub (cap_bytes c) previous) written \<le> cap_max_bytes c \<and>
        ?m = d\<lparr>dk_capacity := Some (c\<lparr>cap_bytes := sat_add (sat_sub (cap_bytes c) previous) written\<rparr>)\<rparr>)"
    by (auto simp: maintain_capacity_def opt_filter_def Let_def split: option.splits if_splits)
  then have "disk_inv ?m \<and> dir_bytes (cc_directory cache) (dk_files ?m) \<le> max_cache_total_bytes cache \<and> dk_dirs ?m = dk_dirs d"
  proof (elim disjE exE conjE)
    assume "?m = recheck io ck cache d"
    then show ?thesis using recheck_spec [OF assms(1-4)] by simp
  next
    fix c :: Capacity
    let ?n = "sat_add (sat_sub (cap_bytes c) previous) written"
    assume c: "dk_capacity d = Some c" "cap_directory c = cc_directory cache" "cap_max_bytes c = max_cache_total_bytes cache"
      "?n \<le> cap_max_bytes c" and m: "?m = d\<lparr>dk_capacity := Some (c\<lparr>cap_bytes := ?n\<rparr>)\<rparr>"
    have "?n = dir_bytes (cc_directory cache) (dk_files d)"
      using assms(5) [OF c(1,2)] assms(6) by (simp add: sat_add_def sat_sub_def)
    with c m assms(2-4) show ?thesis by (simp add: disk_inv_def)
  qed
  then show "disk_inv ?m" "dir_bytes (cc_directory cache) (dk_files ?m) \<le> max_cache_total_bytes cache"
    "dk_dirs ?m = dk_dirs d" by simp_all
qed


section \<open>Operations keep the account\<close>

definition no_body :: "path \<Rightarrow> bool" where
  "no_body p \<longleftrightarrow> name_extension (snd p) \<noteq> Some ''body''"

lemma no_body_bytes: "no_body p \<Longrightarrow> body_len dir p f = 0"
  by (simp add: no_body_def body_len_def is_body_def)

lemma dir_bytes_update_no_body: "distinct (map fst fs) \<Longrightarrow> no_body p \<Longrightarrow> dir_bytes dir (AList.update p f fs) = dir_bytes dir fs"
  using dir_bytes_update [of fs dir p f] by (simp add: no_body_bytes)

lemma dir_bytes_delete_no_body: "distinct (map fst fs) \<Longrightarrow> no_body p \<Longrightarrow> dir_bytes dir (AList.delete p fs) = dir_bytes dir fs"
  using dir_bytes_delete [of fs dir p] by (simp add: no_body_bytes)

lemma dom_delete: "fst ` set (AList.delete p fs) = fst ` set fs - {p}"
  by (force simp: AList.delete_eq)

lemma disk_inv_update:
  assumes "disk_inv d" "no_body p" "fst p \<in> set (dk_dirs d)"
  shows "disk_inv (d\<lparr>dk_files := AList.update p f (dk_files d)\<rparr>)"
proof -
  have "\<forall>q \<in> fst ` set (AList.update p f (dk_files d)). fst q \<in> set (dk_dirs d)"
    using assms(1,3) unfolding disk_inv_def AList.dom_update by blast
  moreover have "dir_bytes e (AList.update p f (dk_files d)) = dir_bytes e (dk_files d)" for e
    using assms(1,2) by (simp add: disk_inv_def dir_bytes_update_no_body)
  moreover have "distinct (map fst (AList.update p f (dk_files d)))"
    using assms(1) by (simp add: disk_inv_def AList.distinct_update)
  ultimately show ?thesis using assms(1) unfolding disk_inv_def by simp
qed

lemma disk_inv_delete:
  assumes "disk_inv d" "no_body p"
  shows "disk_inv (d\<lparr>dk_files := AList.delete p (dk_files d)\<rparr>)"
proof -
  have "\<forall>q \<in> fst ` set (AList.delete p (dk_files d)). fst q \<in> set (dk_dirs d)"
    using assms(1) unfolding disk_inv_def dom_delete by blast
  with assms show ?thesis
    by (simp add: disk_inv_def AList.distinct_delete dir_bytes_delete_no_body)
qed

lemma disk_inv_filter_bytes:
  "disk_inv d \<Longrightarrow> distinct (map fst (dk_files d))"
  by (simp add: disk_inv_def)

text \<open>The four files of an entry.\<close>

lemma entry_paths:
  assumes "k \<noteq> []"
  shows "no_body (dir, k @ ''.json'')" "no_body (dir, k @ ''.body.tmp'')" "no_body (dir, k @ ''.json.tmp'')"
    "is_body dir' (dir, k @ ''.body'') = (dir = dir')"
  by (auto simp: no_body_def is_body_def body_names [OF assms])

lemma committed_files:
  assumes "k \<noteq> []" "distinct (map fst fs)"
    and "fs4 = AList.update (dir, k @ ''.json'') m (AList.delete (dir, k @ ''.json.tmp'')
       (AList.update (dir, k @ ''.body'') \<lparr>f_bytes = body, f_mtime = t\<rparr> (AList.delete (dir, k @ ''.body.tmp'')
         (AList.update (dir, k @ ''.json.tmp'') m (AList.update (dir, k @ ''.body.tmp'') \<lparr>f_bytes = body, f_mtime = t\<rparr> fs)))))"
  shows "distinct (map fst fs4)"
    and "dir_bytes dir fs4 + file_len fs (dir, k @ ''.body'') = dir_bytes dir fs + length body"
    and "dir' \<noteq> dir \<Longrightarrow> dir_bytes dir' fs4 = dir_bytes dir' fs"
    and "fst ` set fs4 \<subseteq> fst ` set fs \<union> {(dir, k @ ''.json''), (dir, k @ ''.body''), (dir, k @ ''.json.tmp'')}"
    and "map_of fs4 (dir, k @ ''.body'') = Some \<lparr>f_bytes = body, f_mtime = t\<rparr>" "map_of fs4 (dir, k @ ''.json'') = Some m"
proof -
  let ?bp = "(dir, k @ ''.body'')" and ?b = "\<lparr>f_bytes = body, f_mtime = t\<rparr>"
  let ?fs2 = "AList.delete (dir, k @ ''.body.tmp'') (AList.update (dir, k @ ''.json.tmp'') m (AList.update (dir, k @ ''.body.tmp'') ?b fs))"
  note np = entry_paths [OF assms(1)]
  have d2: "distinct (map fst ?fs2)" using assms(2) by (simp add: AList.distinct_update AList.distinct_delete)
  then have d3: "distinct (map fst (AList.update ?bp ?b ?fs2))" by (rule AList.distinct_update)
  then show "distinct (map fst fs4)" by (simp add: assms(3) AList.distinct_update AList.distinct_delete)
  have b2: "dir_bytes e ?fs2 = dir_bytes e fs" for e
    using assms(2) np by (simp add: dir_bytes_update_no_body dir_bytes_delete_no_body AList.distinct_update)
  have b4: "dir_bytes e fs4 = dir_bytes e (AList.update ?bp ?b ?fs2)" for e
    unfolding assms(3) using d3 np by (simp add: dir_bytes_update_no_body dir_bytes_delete_no_body AList.distinct_update AList.distinct_delete)
  have m2: "map_of ?fs2 ?bp = map_of fs ?bp" by (simp add: AList.update_conv' AList.delete_conv')
  show "dir_bytes dir fs4 + file_len fs ?bp = dir_bytes dir fs + length body"
    using dir_bytes_update [OF d2, of dir ?bp ?b] b2 [of dir] np(4) [of dir dir]
    by (simp add: b4 m2 body_len_def file_len_def)
  show "dir_bytes dir' fs4 = dir_bytes dir' fs" if "dir' \<noteq> dir"
    using dir_bytes_update [OF d2, of dir' ?bp ?b] b2 [of dir'] np(4) [of dir' dir] that
    by (simp add: b4 body_len_def)
  show "fst ` set fs4 \<subseteq> fst ` set fs \<union> {(dir, k @ ''.json''), ?bp, (dir, k @ ''.json.tmp'')}"
    unfolding assms(3) AList.dom_update dom_delete by blast
  show "map_of fs4 ?bp = Some ?b" "map_of fs4 (dir, k @ ''.json'') = Some m"
    unfolding assms(3) by (simp_all add: AList.update_conv' AList.delete_conv')
qed


lemma fs_rename_reliable:
  "reliable io \<Longrightarrow> map_of fs a = Some f \<Longrightarrow> fs_rename io a b fs = Some (AList.update b f (AList.delete a fs))"
  using reliableD(2) [of io a b] by (simp add: fs_rename_def)

lemma commit_entry_ok:
  assumes "reliable io" "k \<noteq> []" "io (WriteFile (dir, k @ ''.body.tmp''))" "io (WriteFile (dir, k @ ''.json.tmp''))"
    and "fs4 = AList.update (dir, k @ ''.json'') \<lparr>f_bytes = to_vec J md, f_mtime = ck_mtime ck\<rparr> (AList.delete (dir, k @ ''.json.tmp'')
       (AList.update (dir, k @ ''.body'') \<lparr>f_bytes = body, f_mtime = ck_mtime ck\<rparr> (AList.delete (dir, k @ ''.body.tmp'')
         (AList.update (dir, k @ ''.json.tmp'') \<lparr>f_bytes = to_vec J md, f_mtime = ck_mtime ck\<rparr>
           (AList.update (dir, k @ ''.body.tmp'') \<lparr>f_bytes = body, f_mtime = ck_mtime ck\<rparr> (dk_files d))))))"
  shows "commit_entry io J ck cache (dir, k @ ''.body'') (dir, k @ ''.json'') md body d =
        (let d' = maintain_capacity io ck cache (file_len (dk_files d) (dir, k @ ''.body'')) (length body) (d\<lparr>dk_files := fs4\<rparr>)
         in d'\<lparr>dk_files := AList.delete (dir, k @ ''.json.tmp'') (AList.delete (dir, k @ ''.body.tmp'') (dk_files d'))\<rparr>)"
  using assms(3,4) unfolding assms(5)
  by (simp add: commit_entry_def Let_def fs_write_def body_names [OF assms(2)] attempt_remove [OF assms(1)]
      fs_rename_reliable [OF assms(1)] AList.update_conv' AList.delete_conv')

text \<open>Unless a write fails, storing commits both files, accounts for them and cleans up.\<close>

lemma commit_entry_cases:
  assumes "reliable io" "k \<noteq> []"
  obtains (fail1) "commit_entry io J ck cache (dir, k @ ''.body'') (dir, k @ ''.json'') md body d = d"
  | (fail2) "commit_entry io J ck cache (dir, k @ ''.body'') (dir, k @ ''.json'') md body d =
       d\<lparr>dk_files := AList.update (dir, k @ ''.body.tmp'') \<lparr>f_bytes = body, f_mtime = ck_mtime ck\<rparr> (dk_files d)\<rparr>"
  | (commit) fs4 where
      "fs4 = AList.update (dir, k @ ''.json'') \<lparr>f_bytes = to_vec J md, f_mtime = ck_mtime ck\<rparr> (AList.delete (dir, k @ ''.json.tmp'')
       (AList.update (dir, k @ ''.body'') \<lparr>f_bytes = body, f_mtime = ck_mtime ck\<rparr> (AList.delete (dir, k @ ''.body.tmp'')
         (AList.update (dir, k @ ''.json.tmp'') \<lparr>f_bytes = to_vec J md, f_mtime = ck_mtime ck\<rparr>
           (AList.update (dir, k @ ''.body.tmp'') \<lparr>f_bytes = body, f_mtime = ck_mtime ck\<rparr> (dk_files d))))))"
      "commit_entry io J ck cache (dir, k @ ''.body'') (dir, k @ ''.json'') md body d =
        (let d' = maintain_capacity io ck cache (file_len (dk_files d) (dir, k @ ''.body'')) (length body) (d\<lparr>dk_files := fs4\<rparr>)
         in d'\<lparr>dk_files := AList.delete (dir, k @ ''.json.tmp'') (AList.delete (dir, k @ ''.body.tmp'') (dk_files d'))\<rparr>)"
      "io (WriteFile (dir, k @ ''.body.tmp''))" "io (WriteFile (dir, k @ ''.json.tmp''))"
proof -
  let ?bt = "(dir, k @ ''.body.tmp'')" and ?mt = "(dir, k @ ''.json.tmp'')"
  show thesis
  proof (cases "io (WriteFile ?bt)")
    case False
    then show ?thesis by (intro fail1) (simp add: commit_entry_def Let_def fs_write_def body_names [OF assms(2)])
  next
    case bt: True
    show ?thesis
    proof (cases "io (WriteFile ?mt)")
      case False
      with bt show ?thesis by (intro fail2) (simp add: commit_entry_def Let_def fs_write_def body_names [OF assms(2)])
    next
      case True
      with bt show ?thesis by (intro commit [OF refl commit_entry_ok [OF assms _ _ refl]])
    qed
  qed
qed

lemma commit_entry_account:
  assumes "reliable io" "k \<noteq> []" "disk_inv d" "cc_directory cache = dir" "dir \<in> set (dk_dirs d)"
    and "dir_bytes dir (dk_files d) + length body \<le> U64_MAX"
    and "d' = commit_entry io J ck cache (dir, k @ ''.body'') (dir, k @ ''.json'') md body d"
  shows "disk_inv d' \<and> dir_bytes dir (dk_files d') \<le> max (dir_bytes dir (dk_files d)) (max_cache_total_bytes cache)"
proof (cases rule: commit_entry_cases [OF assms(1,2), of J ck cache dir md body d, case_names fail1 fail2 commit])
  case fail1
  then show ?thesis using assms(3,7) by simp
next
  case fail2
  then show ?thesis
    using assms(3,5,7) disk_inv_update [OF assms(3)] entry_paths [OF assms(2)]
      dir_bytes_update_no_body [OF disk_inv_filter_bytes [OF assms(3)]] by simp
next
  case (commit fs4)
  have dist: "distinct (map fst (dk_files d))" and paths: "\<forall>p \<in> fst ` set (dk_files d). fst p \<in> set (dk_dirs d)"
    using assms(3) by (simp_all add: disk_inv_def)
  note cf = committed_files [OF assms(2) dist commit(1)]
  let ?prev = "file_len (dk_files d) (dir, k @ ''.body'')"
  let ?d4 = "d\<lparr>dk_files := fs4\<rparr>"
  let ?m = "maintain_capacity io ck cache ?prev (length body) ?d4"
  have "p \<in> fst ` set (dk_files d) \<or> fst p = dir" if "p \<in> fst ` set fs4" for p
    using subsetD [OF cf(4) that] by (elim UnE insertE emptyE) simp_all
  then have "\<forall>p \<in> fst ` set fs4. fst p \<in> set (dk_dirs d)" using paths assms(5) by blast
  moreover have "cap_bytes c + length body = dir_bytes dir fs4 + ?prev \<and> ?prev \<le> cap_bytes c"
    if "dk_capacity d = Some c" "cap_directory c = dir" for c
  proof -
    from that assms(3) have "cap_bytes c = dir_bytes dir (dk_files d)" by (auto simp: disk_inv_def)
    moreover have "?prev \<le> dir_bytes dir (dk_files d)"
      using dir_bytes_delete [OF dist, of dir "(dir, k @ ''.body'')"] entry_paths(4) [OF assms(2), of dir dir]
      by (simp add: body_len_def file_len_def)
    ultimately show ?thesis using cf(2) by simp
  qed
  moreover have "dir_bytes dir fs4 \<le> U64_MAX" using cf(2) assms(6) by simp
  ultimately have m: "disk_inv ?m" "dir_bytes dir (dk_files ?m) \<le> max_cache_total_bytes cache"
    using maintain_capacity_spec [OF assms(1), of ?d4 cache "length body" ?prev ck] cf(1) assms(4,5) by simp_all
  note del = disk_inv_delete [OF disk_inv_delete [OF m(1) entry_paths(2) [OF assms(2), of dir]] entry_paths(3) [OF assms(2), of dir]]
  have dm: "distinct (map fst (dk_files ?m))" using m(1) by (simp add: disk_inv_def)
  have "dir_bytes dir (AList.delete (dir, k @ ''.json.tmp'') (AList.delete (dir, k @ ''.body.tmp'') (dk_files ?m))) = dir_bytes dir (dk_files ?m)"
    using dm entry_paths [OF assms(2)] by (simp add: dir_bytes_delete_no_body AList.distinct_delete)
  with del m(2) commit(2) assms(7) show ?thesis by (simp add: Let_def le_max_iff_disj)
qed


definition sha_ok :: "(string \<Rightarrow> string) \<Rightarrow> bool" where
  "sha_ok sha \<longleftrightarrow> (\<forall>s. length (sha s) = 64)"

lemma cache_paths_key:
  assumes "sha_ok sha" "cache_paths sha cache url = Some (bp, mp)"
  shows "bp = (cc_directory cache, sha (u_str url) @ ''.body'')" "mp = (cc_directory cache, sha (u_str url) @ ''.json'')"
    "sha (u_str url) \<noteq> []" "cc_enabled cache" "trim (cc_directory cache) \<noteq> []"
proof -
  have "length (sha (u_str url)) = 64" using assms(1) by (simp add: sha_ok_def)
  then show "sha (u_str url) \<noteq> []" by auto
qed (use assms(2) in \<open>auto simp: cache_paths_def Let_def split: if_splits\<close>)

lemma create_dir_all_inv:
  assumes "create_dir_all io dir d = Some d1"
  shows "dk_files d1 = dk_files d" "dk_capacity d1 = dk_capacity d" "dir \<in> set (dk_dirs d1)" "disk_inv d \<Longrightarrow> disk_inv d1"
  using assms by (fastforce simp: create_dir_all_def disk_inv_def split: if_splits)+

definition within :: "cache_config \<Rightarrow> disk \<Rightarrow> bool" where
  "within cache d \<longleftrightarrow> disk_inv d \<and> dir_bytes (cc_directory cache) (dk_files d) \<le> max_cache_total_bytes cache"

lemma write_within:
  assumes "sha_ok sha" "reliable io" "within cache d" "max_cache_total_bytes cache + length body \<le> U64_MAX"
  shows "within cache (write_disk_cache io sha J ck cache url incoming status headers body d)"
proof (cases "cache_paths sha cache url")
  case None
  with assms(3) show ?thesis by (simp add: write_disk_cache_def)
next
  case (Some bm)
  obtain bp mp where bm: "bm = (bp, mp)" by (cases bm)
  note key = cache_paths_key [OF assms(1) Some [unfolded bm]]
  show ?thesis
  proof (cases "create_dir_all io (fst bp) d")
    case None
    with Some bm assms(3) show ?thesis by (simp add: write_disk_cache_def)
  next
    case (Some d1)
    note cd = create_dir_all_inv [OF Some]
    have w1: "within cache d1" using assms(3) cd by (simp add: within_def)
    have "within cache (commit_entry io J ck cache bp mp md body d1)" for md
      using commit_entry_account [OF assms(2) key(3) _ refl, of d1 cache body _ J ck md] w1 cd(3) assms(4)
      by (simp add: within_def key(1,2))
    with w1 Some \<open>cache_paths sha cache url = Some bm\<close> bm show ?thesis
      by (simp add: write_disk_cache_def split: option.splits)
  qed
qed

lemma load_within:
  assumes "within cache d"
  shows "within cache (snd (load_disk_cache io sha J ck cache url incoming d))"
proof -
  have "within cache (d\<lparr>dk_files := AList.update p (f\<lparr>f_mtime := t\<rparr>) (dk_files d)\<rparr>)" if f: "map_of (dk_files d) p = Some f" for p f t
  proof -
    have dist: "distinct (map fst (dk_files d))" using assms by (simp add: within_def disk_inv_def)
    have b: "dir_bytes e (AList.update p (f\<lparr>f_mtime := t\<rparr>) (dk_files d)) = dir_bytes e (dk_files d)" for e
      using dir_bytes_update [OF dist, of e p "f\<lparr>f_mtime := t\<rparr>"] f
      by (cases "is_body e p") (simp_all add: body_len_def)
    have "p \<in> fst ` set (dk_files d)" using f by (metis map_of_eq_None_iff option.distinct(1))
    then have "\<forall>q \<in> fst ` set (AList.update p (f\<lparr>f_mtime := t\<rparr>) (dk_files d)). fst q \<in> set (dk_dirs d)"
      using assms unfolding within_def disk_inv_def AList.dom_update by blast
    then show ?thesis using assms AList.distinct_update [OF dist] b unfolding within_def disk_inv_def by simp
  qed
  then show ?thesis using assms by (auto simp: load_disk_cache_def split: option.splits)
qed

lemma within_update_no_body:
  "within cache d \<Longrightarrow> no_body p \<Longrightarrow> fst p \<in> set (dk_dirs d) \<Longrightarrow> within cache (d\<lparr>dk_files := AList.update p f (dk_files d)\<rparr>)"
  by (simp add: within_def disk_inv_update dir_bytes_update_no_body disk_inv_filter_bytes)

lemma within_delete_no_body:
  "within cache d \<Longrightarrow> no_body p \<Longrightarrow> within cache (d\<lparr>dk_files := AList.delete p (dk_files d)\<rparr>)"
  by (simp add: within_def disk_inv_delete dir_bytes_delete_no_body disk_inv_filter_bytes)

lemma refresh_within:
  assumes "sha_ok sha" "within cache d" "cc_directory cache \<in> set (dk_dirs d)"
  shows "within cache (snd (refresh_cache_metadata io sha J ck cache url m h d))"
proof -
  let ?dir = "cc_directory cache" and ?k = "sha (u_str url)"
  have k: "?k \<noteq> []" using assms(1) by (metis list.size(3) sha_ok_def zero_neq_numeral)
  note np = entry_paths [OF k, of ?dir]
  let ?t = "(?dir, ?k @ ''.json.tmp'')" and ?j = "(?dir, ?k @ ''.json'')"
  have "within cache (d\<lparr>dk_files := attempt (fs_rename io ?t ?j fs1) fs1\<rparr>)"
    if fs1: "fs_write io (ck_mtime ck) ?t b (dk_files d) = Some fs1" for b fs1
  proof -
    from fs1 obtain f where f: "fs1 = AList.update ?t f (dk_files d)" by (auto simp: fs_write_def split: if_splits)
    have w1: "within cache (d\<lparr>dk_files := fs1\<rparr>)"
      unfolding f by (rule within_update_no_body) (use assms np in auto)
    have "within cache (d\<lparr>dk_files := AList.update ?j g (AList.delete ?t fs1)\<rparr>)" for g
      using within_update_no_body [OF within_delete_no_body [OF w1 np(3)] np(1)] assms(3) by simp
    with w1 show ?thesis by (auto simp: attempt_def unwrap_or_def fs_rename_def split: option.splits)
  qed
  then show ?thesis using assms(2)
    by (auto simp: refresh_cache_metadata_def cache_paths_def Let_def body_names [OF k] split: option.splits)
qed

lemma dir_bytes_filter: "dir_bytes dir (filter P fs) \<le> dir_bytes dir fs"
  by (induction fs) (auto simp: dir_bytes_Cons)

lemma purge_within: "within cache d \<Longrightarrow> within cache (snd (purge_disk_cache io cache d))"
proof -
  assume w: "within cache d"
  have "within cache (d\<lparr>dk_capacity := None, dk_files := filter P (dk_files d)\<rparr>)" for P
    using w order_trans [OF dir_bytes_filter, of "cc_directory cache" "dk_files d" _ P]
    by (auto simp: within_def disk_inv_def distinct_map_filter)
  moreover have "within cache (d\<lparr>dk_capacity := None\<rparr>)" using w by (simp add: within_def disk_inv_def)
  ultimately show ?thesis by (simp add: purge_disk_cache_def Let_def)
qed

text \<open>The cache of one configuration, used in any order.\<close>

definition empty_disk :: disk where
  "empty_disk = \<lparr>dk_dirs = [], dk_files = [], dk_capacity = None\<rparr>"

inductive cache_reachable :: "(string \<Rightarrow> string) \<Rightarrow> codec \<Rightarrow> cache_config \<Rightarrow> disk \<Rightarrow> bool"
  for sha :: "string \<Rightarrow> string" and J :: codec and cache :: cache_config where
  start: "cache_reachable sha J cache empty_disk"
| store: "cache_reachable sha J cache d \<Longrightarrow> reliable io \<Longrightarrow> length body \<le> max_cache_entry_bytes cache \<Longrightarrow>
    cache_reachable sha J cache (write_disk_cache io sha J ck cache url incoming status headers body d)"
| load: "cache_reachable sha J cache d \<Longrightarrow>
    cache_reachable sha J cache (snd (load_disk_cache io sha J ck cache url incoming d))"
| refresh: "cache_reachable sha J cache d \<Longrightarrow> cc_directory cache \<in> set (dk_dirs d) \<Longrightarrow>
    cache_reachable sha J cache (snd (refresh_cache_metadata io sha J ck cache url m headers d))"
| purge: "cache_reachable sha J cache d \<Longrightarrow> cache_reachable sha J cache (snd (purge_disk_cache io cache d))"

lemma reachable_within:
  assumes "cache_reachable sha J cache d" "sha_ok sha" "max_cache_total_bytes cache + max_cache_entry_bytes cache \<le> U64_MAX"
  shows "within cache d"
  using assms(1)
proof induction
  case start
  then show ?case by (simp add: within_def disk_inv_def empty_disk_def dir_bytes_def bodies_def)
next
  case (store d io body ck url incoming status headers)
  then show ?case using assms(3) by (intro write_within assms(2)) auto
next
  case (load d io ck url incoming)
  then show ?case by (intro load_within)
next
  case (refresh d io ck url m headers)
  then show ?case by (intro refresh_within assms(2))
next
  case (purge d io)
  then show ?case by (intro purge_within)
qed


section \<open>Round trip\<close>

lemma map_of_filter_keys: "map_of (filter (\<lambda>(q, _). P q) fs) p = (if P p then map_of fs p else None)"
  by (induction fs) auto

lemma map_of_without:
  "map_of (without xs fs) p = (if p \<notin> fst ` set xs \<and> p \<notin> json_of ` set xs then map_of fs p else None)"
  unfolding without_def by (rule map_of_filter_keys)

lemma newest_last:
  assumes "x \<in> set xs" "\<And>y. y \<in> set xs \<Longrightarrow> y \<noteq> x \<Longrightarrow> f y < (f x :: int)" "distinct xs"
  shows "\<exists>ys. sort_key f xs = ys @ [x]"
proof -
  let ?s = "sort_key f xs"
  have set: "set ?s = set xs" and ne: "?s \<noteq> []" using assms(1) by (auto simp: sort_key_simps dest: arg_cong [where f = set])
  have "last ?s \<in> set xs" using last_in_set [OF ne] set by simp
  moreover have "f x \<le> f (last ?s)"
  proof -
    obtain i where "i < length ?s" "?s ! i = x" using assms(1) set by (metis in_set_conv_nth)
    moreover have "sorted (map f ?s)" by simp
    ultimately have "map f ?s ! i \<le> map f ?s ! (length ?s - 1)"
      by (intro sorted_nth_mono) auto
    with \<open>i < length ?s\<close> \<open>?s ! i = x\<close> ne show ?thesis by (simp add: last_conv_nth)
  qed
  ultimately have "last ?s = x" using assms(2) by (meson not_less)
  with ne show ?thesis by (metis append_butlast_last_id)
qed

text \<open>Eviction spares the newest body when it fits, and its metadata.\<close>

lemma evict_spares_newest:
  assumes "reliable io" "distinct (map fst (dk_files d))" "cc_directory cache \<in> set (dk_dirs d)" "k \<noteq> []"
    and "map_of (dk_files d) (cc_directory cache, k @ ''.body'') = Some f"
    and "\<And>p g. (p, g) \<in> set (dk_files d) \<Longrightarrow> is_body (cc_directory cache) p \<Longrightarrow>
           p \<noteq> (cc_directory cache, k @ ''.body'') \<Longrightarrow> f_mtime g < f_mtime f"
    and "length (f_bytes f) \<le> max_cache_total_bytes cache"
    and "p \<in> {(cc_directory cache, k @ ''.body''), (cc_directory cache, k @ ''.json'')}"
  shows "map_of (dk_files (snd (evict_disk_cache io cache d))) p = map_of (dk_files d) p"
proof -
  let ?dir = "cc_directory cache" and ?bp = "(cc_directory cache, k @ ''.body'')"
  let ?b = "bodies ?dir (dk_files d)"
  define bs where "bs = sort_key (\<lambda>(_, f). f_mtime f) ?b"
  obtain n where n: "evict_disk_cache io cache d = (total_bytes (drop n bs), d\<lparr>dk_files := without (take n bs) (dk_files d)\<rparr>)"
    "n \<le> length bs" "\<forall>j < n. max_cache_total_bytes cache < total_bytes (drop j bs)"
    using evict_disk_cache_spec [OF assms(1-3) bs_def] by blast
  have mem: "(?bp, f) \<in> set ?b" using map_of_SomeD [OF assms(5)] entry_paths(4) [OF assms(4), of ?dir ?dir] by (simp add: bodies_def)
  have dist: "distinct (map fst ?b)" using assms(2) by (simp add: bodies_def distinct_map_filter)
  then have keyu: "y \<in> set ?b \<Longrightarrow> fst y = ?bp \<Longrightarrow> y = (?bp, f)" for y
    using mem by (metis distinct_map fst_conv inj_on_def)
  have older: "(\<lambda>(_, f). f_mtime f) y < (\<lambda>(_, f). f_mtime f) (?bp, f)" if "y \<in> set ?b" "y \<noteq> (?bp, f)" for y
  proof -
    have "fst y \<noteq> ?bp" using keyu that by blast
    then show ?thesis using assms(6) [of "fst y" "snd y"] that(1) by (cases y) (simp add: bodies_def)
  qed
  obtain ys where ys: "bs = ys @ [(?bp, f)]"
    using newest_last [of "(?bp, f)" ?b "\<lambda>(_, f). f_mtime f"] mem older dist unfolding bs_def distinct_map by blast
  have nl: "n \<le> length ys"
  proof (rule ccontr)
    assume "\<not> n \<le> length ys"
    with n(3) have "max_cache_total_bytes cache < total_bytes (drop (length ys) bs)" by simp
    with assms(7) show False by (simp add: ys)
  qed
  have "x \<in> set ys \<Longrightarrow> fst x \<noteq> ?bp \<and> is_body ?dir (fst x)" for x
  proof -
    assume x: "x \<in> set ys"
    have "distinct (map fst bs)" using dist by (metis bs_def mset_eq_imp_distinct_iff mset_map mset_sort)
    then have "?bp \<notin> fst ` set ys" by (simp add: ys)
    with x have "fst x \<noteq> ?bp" by (metis imageI)
    moreover have "x \<in> set ?b" using x ys by (metis Un_iff bs_def set_append set_sort)
    ultimately show ?thesis by (auto simp: bodies_def)
  qed
  moreover have "take n bs = take n ys" using nl by (simp add: ys)
  ultimately have ys': "x \<in> set (take n bs) \<Longrightarrow> fst x \<noteq> ?bp \<and> is_body ?dir (fst x)" for x
    by (metis in_set_takeD)
  have "p \<notin> fst ` set (take n bs) \<and> p \<notin> json_of ` set (take n bs)"
  proof (intro conjI notI)
    assume "p \<in> fst ` set (take n bs)"
    then obtain x where "x \<in> set (take n bs)" "p = fst x" by blast
    with ys' [of x] assms(8) entry_paths(1) [OF assms(4), of ?dir] show False by (auto simp: no_body_def is_body_def)
  next
    assume "p \<in> json_of ` set (take n bs)"
    then obtain x where x: "x \<in> set (take n bs)" "p = json_of x" by blast
    with ys' have xb: "is_body ?dir (fst x)" "fst x \<noteq> ?bp" by auto
    then have s: "snd (fst x) = name_stem (snd (fst x)) @ ''.body''" "fst (fst x) = ?dir"
      using extension_suffix [of "snd (fst x)" "''body''"] by (simp_all add: is_body_def)
    have "\<not> is_body ?dir p" using json_not_body [OF xb(1)] x(2) by (simp add: json_of_def)
    with assms(8) entry_paths(4) [OF assms(4), of ?dir ?dir] have "p = (?dir, k @ ''.json'')" by auto
    with x(2) have "name_stem (snd (fst x)) = k" by (simp add: json_of_def with_extension_def)
    with s xb(2) show False by (metis prod.collapse)
  qed
  then show ?thesis by (simp add: n(1) map_of_without)
qed


lemma maintain_spares_newest:
  assumes "reliable io" "distinct (map fst (dk_files d))" "cc_directory cache \<in> set (dk_dirs d)" "k \<noteq> []"
    and "map_of (dk_files d) (cc_directory cache, k @ ''.body'') = Some f"
    and "\<And>p g. (p, g) \<in> set (dk_files d) \<Longrightarrow> is_body (cc_directory cache) p \<Longrightarrow>
           p \<noteq> (cc_directory cache, k @ ''.body'') \<Longrightarrow> f_mtime g < f_mtime f"
    and "length (f_bytes f) \<le> max_cache_total_bytes cache"
    and "p \<in> {(cc_directory cache, k @ ''.body''), (cc_directory cache, k @ ''.json'')}"
  shows "map_of (dk_files (maintain_capacity io ck cache previous written d)) p = map_of (dk_files d) p"
  using evict_spares_newest [OF assms]
  by (auto simp: maintain_capacity_def recheck_def Let_def case_prod_beta split: option.splits)

lemma hdr_str_lower: "hdr_str h (to_ascii_lowercase n) = hdr_str h n"
proof -
  have "to_ascii_lowercase (to_ascii_lowercase n) = to_ascii_lowercase n"
    by (simp add: to_ascii_lowercase_idem)
  then show ?thesis by (simp add: hdr_str_def hdr_get_def hdr_get_all_def)
qed

definition same_variant :: "header_map \<Rightarrow> header_map \<Rightarrow> header_map \<Rightarrow> bool" where
  "same_variant headers incoming incoming' \<longleftrightarrow>
     (\<forall>n \<in> set (vary_names headers). unwrap_or [] (hdr_str incoming' n) = unwrap_or [] (hdr_str incoming n))"

lemma vary_mismatch_stored:
  assumes "cache_vary headers incoming = Some vary"
  shows "vary_mismatch (stored_metadata status headers lt vary) incoming' \<longleftrightarrow> \<not> same_variant headers incoming incoming'"
proof -
  have v: "vary = map (\<lambda>name. (to_ascii_lowercase name, unwrap_or [] (hdr_str incoming name))) (vary_names headers)"
    using assms by (simp add: cache_vary_def split: if_splits)
  show ?thesis
    unfolding vary_mismatch_def stored_metadata_def v same_variant_def by (auto simp: list_ex_iff hdr_str_lower)
qed

lemma stored_files:
  assumes "sha_ok sha" "reliable io" "\<And>p. io (WriteFile p)" "\<And>p. io (CreateDir p)" "disk_inv d"
    and "cache_paths sha cache url = Some (bp, mp)"
    and "cache_lifetime cache headers (ck_unix ck) = Some lt" "\<not> hdr_contains headers ''set-cookie''"
    and "cache_vary headers incoming = Some vary"
    and "length body \<le> max_cache_total_bytes cache"
    and "\<And>p f. (p, f) \<in> set (dk_files d) \<Longrightarrow> f_mtime f < ck_mtime ck"
    and "d' = write_disk_cache io sha J ck cache url incoming status headers body d"
  shows "map_of (dk_files d') bp = Some \<lparr>f_bytes = body, f_mtime = ck_mtime ck\<rparr>"
    and "map_of (dk_files d') mp = Some \<lparr>f_bytes = to_vec J (stored_metadata status headers lt vary), f_mtime = ck_mtime ck\<rparr>"
proof -
  let ?dir = "cc_directory cache" and ?k = "sha (u_str url)"
  note key = cache_paths_key [OF assms(1,6)]
  have "create_dir_all io (fst bp) d \<noteq> None" using assms(4) by (simp add: create_dir_all_def)
  then obtain d1 where cd: "create_dir_all io (fst bp) d = Some d1" by blast
  note d1 = create_dir_all_inv [OF cd]
  have inv1: "disk_inv d1" using d1(4) assms(5) .
  let ?md = "stored_metadata status headers lt vary"
  have d': "d' = commit_entry io J ck cache (?dir, ?k @ ''.body'') (?dir, ?k @ ''.json'') ?md body d1"
    using assms(6-9,12) cd key(1,2) by (simp add: write_disk_cache_def)
  have dist: "distinct (map fst (dk_files d1))" using inv1 by (simp add: disk_inv_def)
  have "map_of (dk_files d') p = map_of fs4 p"
    if fs4: "fs4 = AList.update (?dir, ?k @ ''.json'') \<lparr>f_bytes = to_vec J ?md, f_mtime = ck_mtime ck\<rparr> (AList.delete (?dir, ?k @ ''.json.tmp'')
       (AList.update (?dir, ?k @ ''.body'') \<lparr>f_bytes = body, f_mtime = ck_mtime ck\<rparr> (AList.delete (?dir, ?k @ ''.body.tmp'')
         (AList.update (?dir, ?k @ ''.json.tmp'') \<lparr>f_bytes = to_vec J ?md, f_mtime = ck_mtime ck\<rparr>
           (AList.update (?dir, ?k @ ''.body.tmp'') \<lparr>f_bytes = body, f_mtime = ck_mtime ck\<rparr> (dk_files d1))))))"
      and p: "p \<in> {(?dir, ?k @ ''.body''), (?dir, ?k @ ''.json'')}" for p fs4
  proof -
    note cf = committed_files [OF key(3) dist fs4]
    have old: "f_mtime g < ck_mtime ck" if "(q, g) \<in> set fs4" "is_body ?dir q" "q \<noteq> (?dir, ?k @ ''.body'')" for q g
    proof -
      have "map_of fs4 q = Some g" by (rule map_of_is_SomeI [OF cf(1) that(1)])
      moreover have "q \<noteq> (?dir, ?k @ ''.json'')" "q \<noteq> (?dir, ?k @ ''.json.tmp'')" "q \<noteq> (?dir, ?k @ ''.body.tmp'')"
        using that(2) entry_paths(1-3) [OF key(3), of ?dir] unfolding no_body_def is_body_def by blast+
      ultimately have "map_of (dk_files d1) q = Some g"
        using that(3) by (simp add: fs4 AList.update_conv' AList.delete_conv')
      then show ?thesis using assms(11) d1(1) map_of_SomeD by metis
    qed
    from p have np: "p \<noteq> (?dir, ?k @ ''.body.tmp'')" "p \<noteq> (?dir, ?k @ ''.json.tmp'')" by auto
    note ce = commit_entry_ok [OF assms(2) key(3) assms(3) assms(3) fs4, of cache, folded d']
    let ?e = "d1\<lparr>dk_files := fs4\<rparr>" and ?prev = "file_len (dk_files d1) (?dir, ?k @ ''.body'')"
    have "map_of (dk_files (maintain_capacity io ck cache ?prev (length body) ?e)) p = map_of (dk_files ?e) p"
    proof (rule maintain_spares_newest [OF assms(2) _ _ key(3)])
      show "map_of (dk_files ?e) (?dir, ?k @ ''.body'') = Some \<lparr>f_bytes = body, f_mtime = ck_mtime ck\<rparr>" using cf(5) by simp
      show "f_mtime g < f_mtime \<lparr>f_bytes = body, f_mtime = ck_mtime ck\<rparr>"
        if "(q, g) \<in> set (dk_files ?e)" "is_body ?dir q" "q \<noteq> (?dir, ?k @ ''.body'')" for q g
        using old [of q g] that by simp
    qed (use cf(1) d1(3) key(1) assms(10) p in simp_all)
    then show ?thesis using np unfolding ce Let_def by (simp add: AList.delete_conv')
  qed
  note lk = this [OF refl] and cf = committed_files [OF key(3) dist refl]
  show "map_of (dk_files d') bp = Some \<lparr>f_bytes = body, f_mtime = ck_mtime ck\<rparr>" unfolding key(1) by (subst lk) (simp, rule cf(5))
  show "map_of (dk_files d') mp = Some \<lparr>f_bytes = to_vec J ?md, f_mtime = ck_mtime ck\<rparr>"
    unfolding key(2) by (subst lk) (simp, rule cf(6))
qed

section \<open>Properties\<close>

text \<open>C6: What is stored can be loaded.  After a storable response has been written to the
  cache, a request for the same URL is answered from it with the same body, status, headers
  and expiry if it agrees with the storing request on every header the response varies on,
  and is not answered from it otherwise; making room never evicts the entry just written.\<close>

theorem cache_round_trip:
  assumes "sha_ok sha" and "reliable io" and "\<And>p. io (WriteFile p)" and "\<And>dir. io (CreateDir dir)"
    and "disk_inv d" and "cc_enabled cache" and "trim (cc_directory cache) \<noteq> []"
    and "cache_lifetime cache headers (ck_unix ck) = Some lt" and "\<not> hdr_contains headers ''set-cookie''"
    and "cache_vary headers incoming = Some vary"
    and "length body \<le> max_cache_entry_bytes cache" and "length body \<le> max_cache_total_bytes cache"
    and "\<And>p f. (p, f) \<in> set (dk_files d) \<Longrightarrow> f_mtime f < ck_mtime ck"
    and "from_slice J (to_vec J (stored_metadata status headers lt vary)) = Some (stored_metadata status headers lt vary)"
  shows "fst (load_disk_cache io' sha J ck' cache url incoming'
            (write_disk_cache io sha J ck cache url incoming status headers body d)) =
     (if same_variant headers incoming incoming'
      then Some \<lparr>de_body = body, de_metadata = stored_metadata status headers lt vary\<rparr> else None)"
proof -
  obtain bp mp where paths: "cache_paths sha cache url = Some (bp, mp)"
    using assms(6,7) by (simp add: cache_paths_def Let_def)
  note st = stored_files [OF assms(1-5) paths assms(8-10,12,13) refl, where J = J and status = status]
  show ?thesis
    using vary_mismatch_stored [OF assms(10)] assms(11,14)
    by (simp add: load_disk_cache_def paths st)
qed

definition sample_cache :: cache_config where
  "sample_cache = CacheConfig_default\<lparr>cc_enabled := True\<rparr>"

definition sample_headers :: header_map where
  "sample_headers = [(''cache-control'', ''public, max-age=60''), (''vary'', ''Accept'')]"

definition sample_metadata :: DiskCacheMetadata where
  "sample_metadata = stored_metadata 200 sample_headers (1000, 1060) [(''accept'', ''text/html'')]"

definition sample_codec :: codec where
  "sample_codec = \<lparr>to_vec = (\<lambda>_. ''metadata''), from_slice = (\<lambda>_. Some sample_metadata)\<rparr>"

definition sample_sha :: "string \<Rightarrow> string" where
  "sample_sha s = replicate 64 (CHR ''a'')"

definition sample_clock :: clock where
  "sample_clock = \<lparr>ck_unix = 1000, ck_mtime = 1, ck_instant = 1\<rparr>"

theorem cache_round_trip_witness:
  "fst (load_disk_cache (\<lambda>_. True) sample_sha sample_codec sample_clock sample_cache (plain_url ''https'' ''a'' ''/'')
        [(''accept'', ''text/html'')]
        (write_disk_cache (\<lambda>_. True) sample_sha sample_codec sample_clock sample_cache (plain_url ''https'' ''a'' ''/'')
          [(''accept'', ''text/html'')] 200 sample_headers ''body'' empty_disk)) =
     Some \<lparr>de_body = ''body'', de_metadata = sample_metadata\<rparr>"
proof -
  have lt: "cache_lifetime sample_cache sample_headers (ck_unix sample_clock) = Some (1000, 1060)" by code_simp
  have vary: "cache_vary sample_headers [(''accept'', ''text/html'')] = Some [(''accept'', ''text/html'')]" by code_simp
  have sv: "same_variant sample_headers [(''accept'', ''text/html'')] [(''accept'', ''text/html'')]"
    by (simp add: same_variant_def)
  have len: "length ''body'' \<le> max_cache_entry_bytes sample_cache" "length ''body'' \<le> max_cache_total_bytes sample_cache"
    by code_simp+
  have cfg: "cc_enabled sample_cache" "trim (cc_directory sample_cache) \<noteq> []" "\<not> hdr_contains sample_headers ''set-cookie''"
    by code_simp+
  show ?thesis
    using cache_round_trip [where J = sample_codec and sha = sample_sha and io = "\<lambda>_. True" and d = empty_disk
        and status = 200, OF _ _ _ _ _ cfg(1,2) lt cfg(3) vary len]
    by (simp add: sv sha_ok_def sample_sha_def reliable_def disk_inv_def empty_disk_def sample_codec_def sample_metadata_def)
qed

text \<open>A response that its origin marks \<open>no-store\<close>, \<open>private\<close> or \<open>no-cache\<close> in its
  \<open>Cache-Control\<close> header, that sets a cookie, or that varies on everything is never written:
  the files and the account of the cache stay as they are.\<close>

theorem private_responses_not_stored:
  assumes "(\<exists>v d'. hdr_str headers ''cache-control'' = Some v \<and> d' \<in> set (split_on (CHR '','') v) \<and>
              to_ascii_lowercase (trim d') \<in> {''no-store'', ''private'', ''no-cache''}) \<or>
           hdr_contains headers ''set-cookie'' \<or> ''*'' \<in> set (vary_names headers)"
  shows "dk_files (write_disk_cache io sha J ck cache url incoming status headers body d) = dk_files d \<and>
         dk_capacity (write_disk_cache io sha J ck cache url incoming status headers body d) = dk_capacity d"
proof -
  have "cache_lifetime cache headers (ck_unix ck) = None \<or> hdr_contains headers ''set-cookie'' \<or> cache_vary headers incoming = None"
    using assms
    by (auto simp: cache_lifetime_def cache_directives_def cache_vary_def list_ex_iff unwrap_or_def Let_def)
  then show ?thesis using create_dir_all_inv(1,2)
    by (auto simp: write_disk_cache_def split: option.splits)
qed

text \<open>The lifetime of a stored response starts at the time it is stored and is positive and
  at most the configured maximum, whatever the origin asks for.\<close>

theorem cache_lifetime_bounded:
  assumes "cache_lifetime cache headers now = Some (stored_at, expires_at)"
    and "now + cc_max_ttl_secs cache \<le> U64_MAX"
  shows "stored_at = now \<and> now < expires_at \<and> expires_at \<le> now + cc_max_ttl_secs cache"
  using assms by (auto simp: cache_lifetime_def Let_def sat_add_def split: if_splits)

text \<open>C13: The cache keeps to its budget: however stores, loads, revalidations and purges are
  interleaved, the bodies in the directory never exceed the configured total, although the
  directory is scanned only when the incremental count says so.  Writes and directory
  creation may fail.\<close>

theorem cache_stays_within_budget:
  assumes "cache_reachable sha J cache d" and "sha_ok sha"
    and "max_cache_total_bytes cache + max_cache_entry_bytes cache \<le> U64_MAX"
  shows "total_bytes (bodies (cc_directory cache) (dk_files d)) \<le> max_cache_total_bytes cache"
  using reachable_within [OF assms] by (simp add: within_def dir_bytes_def)

theorem cache_stays_within_budget_witness:
  "total_bytes (bodies (cc_directory sample_cache) (dk_files (write_disk_cache (\<lambda>_. True) sample_sha sample_codec sample_clock
     sample_cache (plain_url ''https'' ''a'' ''/'') [] 200 sample_headers ''body'' empty_disk))) \<le> max_cache_total_bytes sample_cache"
proof (rule cache_stays_within_budget)
  show "cache_reachable sample_sha sample_codec sample_cache (write_disk_cache (\<lambda>_. True) sample_sha sample_codec sample_clock
     sample_cache (plain_url ''https'' ''a'' ''/'') [] 200 sample_headers ''body'' empty_disk)"
    by (intro cache_reachable.intros) (simp add: reliable_def, code_simp)
  show "sha_ok sample_sha" by (simp add: sha_ok_def sample_sha_def)
  show "max_cache_total_bytes sample_cache + max_cache_entry_bytes sample_cache \<le> U64_MAX" by code_simp
qed

text \<open>Eviction is least recently used and minimal: it removes the oldest bodies, each with
  its metadata, until the rest fits the budget, and not one more; what it reports is the
  size of what is left.\<close>

theorem eviction_is_lru_and_minimal:
  assumes "reliable io" and "distinct (map fst (dk_files d))" and "cc_directory cache \<in> set (dk_dirs d)"
  shows "\<exists>evicted kept.
     mset (evicted @ kept) = mset (bodies (cc_directory cache) (dk_files d)) \<and>
     (\<forall>x \<in> set evicted. \<forall>y \<in> set kept. f_mtime (snd x) \<le> f_mtime (snd y)) \<and>
     total_bytes kept \<le> max_cache_total_bytes cache \<and>
     (\<forall>e x. evicted = e @ [x] \<longrightarrow> max_cache_total_bytes cache < total_bytes (x # kept)) \<and>
     fst (evict_disk_cache io cache d) = total_bytes kept \<and>
     mset (bodies (cc_directory cache) (dk_files (snd (evict_disk_cache io cache d)))) = mset kept \<and>
     (\<forall>p. map_of (dk_files (snd (evict_disk_cache io cache d))) p =
        (if p \<in> fst ` set evicted \<or> p \<in> json_of ` set evicted then None else map_of (dk_files d) p))"
proof -
  define bs where "bs = sort_key (\<lambda>(_, f). f_mtime f) (bodies (cc_directory cache) (dk_files d))"
  obtain k where k: "evict_disk_cache io cache d = (total_bytes (drop k bs), d\<lparr>dk_files := without (take k bs) (dk_files d)\<rparr>)"
    "k \<le> length bs" "total_bytes (drop k bs) \<le> max_cache_total_bytes cache"
    "\<forall>j < k. max_cache_total_bytes cache < total_bytes (drop j bs)"
    "mset (bodies (cc_directory cache) (without (take k bs) (dk_files d))) = mset (drop k bs)"
    using evict_disk_cache_spec [OF assms bs_def] by blast
  have "sorted (map (\<lambda>(_, f). f_mtime f) (take k bs @ drop k bs))" by (simp add: bs_def)
  then have older: "\<forall>x \<in> set (take k bs). \<forall>y \<in> set (drop k bs). f_mtime (snd x) \<le> f_mtime (snd y)"
    unfolding map_append sorted_append by (auto simp: case_prod_beta)
  have minimal: "max_cache_total_bytes cache < total_bytes (x # drop k bs)" if "take k bs = e @ [x]" for e x
  proof -
    have le: "length e + 1 = k" using that k(2) by (metis length_append_singleton length_take min.absorb2 Suc_eq_plus1)
    have "bs = e @ x # drop k bs" using that by (metis append.assoc append_Cons append_Nil append_take_drop_id)
    then have "drop (length e) bs = x # drop k bs" by (metis append_eq_conv_conj)
    with k(4) le show ?thesis by (metis less_add_one)
  qed
  have "mset (take k bs @ drop k bs) = mset (bodies (cc_directory cache) (dk_files d))" by (simp add: bs_def)
  with older minimal k show ?thesis
    by (intro exI [of _ "take k bs"] exI [of _ "drop k bs"]) (simp add: map_of_without)
qed

definition full_disk :: disk where
  "full_disk = \<lparr>dk_dirs = [cc_directory sample_cache],
     dk_files = [((cc_directory sample_cache, ''k.body''), \<lparr>f_bytes = ''body'', f_mtime = 3\<rparr>)], dk_capacity = None\<rparr>"

end
