(* ===== verification/Upstream_Selection.thy ===== *)
theory Upstream_Selection
  imports Config_Defaults Complex_Main
begin

text \<open>
  The upstream selector (\<open>crates/server/src/upstream_selection.rs\<close>): the circuit breaker and
  the latency average of every endpoint, the ranking of the candidates of a request, and the
  report of recent rankings.  The hash map of endpoints is an association list in its
  iteration order.  The clock is an argument; \<open>rnd\<close> is the rounding of a real number to a
  double, of which the theorems use that it is monotone and exact on small integers.
\<close>

section \<open>Doubles\<close>

type_synonym rounding = "rat \<Rightarrow> rat"

definition rounding_ok :: "rounding \<Rightarrow> bool" where
  "rounding_ok rnd \<longleftrightarrow> mono rnd \<and> (\<forall>n \<le> 2 ^ 53. rnd (of_nat n) = of_nat n)"

lemma rounding_ok_id: "rounding_ok (\<lambda>x. x)"
  by (simp add: rounding_ok_def mono_def)

definition as_secs_f64 :: "rounding \<Rightarrow> nat \<Rightarrow> rat" where
  "as_secs_f64 rnd ns =
     rnd (rnd (of_nat (ns div 10 ^ 9)) + rnd (of_nat (ns mod 10 ^ 9) / 10 ^ 9))"

section \<open>State\<close>

definition MAX_ENDPOINTS :: nat where
  "MAX_ENDPOINTS = 512"

record EndpointState =
  es_consecutive_failures :: nat
  es_open_until :: "instant option"
  es_latency_ewma_ms :: "rat option"
  es_last_seen :: "instant option"

definition EndpointState_default :: EndpointState where
  "EndpointState_default =
     \<lparr>es_consecutive_failures = 0, es_open_until = None, es_latency_ewma_ms = None, es_last_seen = None\<rparr>"

record RequestSample =
  rs_candidates :: "url list"
  rs_observed_at :: int

record SelectorState =
  sl_endpoints :: "(string \<times> EndpointState) list"
  sl_samples :: "RequestSample list"
  sl_bases :: "url list"

definition SelectorState_default :: SelectorState where
  "SelectorState_default = \<lparr>sl_endpoints = [], sl_samples = [], sl_bases = []\<rparr>"

section \<open>Operations\<close>

definition selector_configure :: "url_lib \<Rightarrow> config \<Rightarrow> SelectorState \<Rightarrow> SelectorState" where
  "selector_configure L c s =
     (let bases = filter_map (\<lambda>base. url_parse L (trim base))
                    (concat (map (split_on (CHR '','')) (upstream_groups (cfg_upstreams c))))
      in \<lparr>sl_endpoints = [], sl_samples = [],
          sl_bases = sort_key (\<lambda>base. - int (length (u_path base))) bases\<rparr>)"

definition selector_configured :: "url_lib \<Rightarrow> config \<Rightarrow> SelectorState" where
  "selector_configured L c = selector_configure L c SelectorState_default"

definition base_path :: "url \<Rightarrow> string" where
  "base_path base = trim_end_matches (CHR ''/'') (u_path base)"

definition base_covers :: "url \<Rightarrow> url \<Rightarrow> bool" where
  "base_covers url base \<longleftrightarrow>
     url_origin base = url_origin url \<and>
     (u_path url = base_path base
      \<or> is_some_and (\<lambda>suffix. starts_with suffix ''/'') (strip_prefix (base_path base) (u_path url)))"

definition endpoint_key :: "url_lib \<Rightarrow> url list \<Rightarrow> url \<Rightarrow> string" where
  "endpoint_key L bases url =
     (case find (base_covers url) bases of
        Some base \<Rightarrow> url_origin_ascii L base @ base_path base
      | None \<Rightarrow> url_origin_ascii L url)"

text \<open>\<open>min_by_key\<close> on \<open>last_seen\<close>: the first entry of least key, \<open>None\<close> below every instant.\<close>

fun seen_less :: "instant option \<Rightarrow> instant option \<Rightarrow> bool" where
  "seen_less None None = False"
| "seen_less None (Some _) = True"
| "seen_less (Some _) None = False"
| "seen_less (Some a) (Some b) = (a < b)"

fun oldest_entry :: "(string \<times> EndpointState) list \<Rightarrow> (string \<times> EndpointState) option" where
  "oldest_entry [] = None"
| "oldest_entry (e # es) =
     (case oldest_entry es of
        None \<Rightarrow> Some e
      | Some f \<Rightarrow> if seen_less (es_last_seen (snd f)) (es_last_seen (snd e)) then Some f else Some e)"

definition make_room :: "(string \<times> EndpointState) list \<Rightarrow> string \<Rightarrow> (string \<times> EndpointState) list" where
  "make_room es key =
     (if length es \<ge> MAX_ENDPOINTS \<and> key \<notin> set (map fst es)
      then (case oldest_entry es of
              Some (oldest, _) \<Rightarrow> filter (\<lambda>(k, _). k \<noteq> oldest) es
            | None \<Rightarrow> es)
      else es)"

text \<open>\<open>endpoint_state\<close> followed by the assignments of its caller, the argument \<open>f\<close>.\<close>

fun update_or_default :: "string \<Rightarrow> (EndpointState \<Rightarrow> EndpointState) \<Rightarrow> (string \<times> EndpointState) list
    \<Rightarrow> (string \<times> EndpointState) list" where
  "update_or_default key f [] = [(key, f EndpointState_default)]"
| "update_or_default key f ((k, e) # es) =
     (if k = key then (k, f e) # es else (k, e) # update_or_default key f es)"

definition endpoint_state ::
  "instant \<Rightarrow> string \<Rightarrow> (EndpointState \<Rightarrow> EndpointState) \<Rightarrow> SelectorState \<Rightarrow> SelectorState" where
  "endpoint_state now key f s =
     s\<lparr>sl_endpoints := update_or_default key (\<lambda>e. f (e\<lparr>es_last_seen := Some now\<rparr>))
                        (make_room (sl_endpoints s) key)\<rparr>"

definition success_update :: "rounding \<Rightarrow> nat \<Rightarrow> EndpointState \<Rightarrow> EndpointState" where
  "success_update rnd elapsed e =
     (let ms = rnd (as_secs_f64 rnd elapsed * 1000)
      in e\<lparr>es_consecutive_failures := 0, es_open_until := None,
           es_latency_ewma_ms := Some (case es_latency_ewma_ms e of
               Some previous \<Rightarrow> rnd (rnd (previous * rnd (4 / 5)) + rnd (ms * rnd (1 / 5)))
             | None \<Rightarrow> ms)\<rparr>)"

definition record_success ::
  "url_lib \<Rightarrow> rounding \<Rightarrow> instant \<Rightarrow> url \<Rightarrow> nat \<Rightarrow> SelectorState \<Rightarrow> SelectorState" where
  "record_success L rnd now url elapsed s =
     endpoint_state now (endpoint_key L (sl_bases s) url) (success_update rnd elapsed) s"

definition failure_update :: "selection_config \<Rightarrow> instant \<Rightarrow> EndpointState \<Rightarrow> EndpointState" where
  "failure_update cfg now e =
     (let n = u32_sat_add (es_consecutive_failures e) 1;
          e' = e\<lparr>es_consecutive_failures := n\<rparr>
      in if n \<ge> sel_failure_threshold cfg
         then e'\<lparr>es_open_until := Some (now + secs (sel_cooldown_secs cfg))\<rparr> else e')"

definition record_failure ::
  "url_lib \<Rightarrow> instant \<Rightarrow> url \<Rightarrow> selection_config \<Rightarrow> SelectorState \<Rightarrow> SelectorState" where
  "record_failure L now url cfg s =
     endpoint_state now (endpoint_key L (sl_bases s) url) (failure_update cfg now) s"

definition circuit_open :: "instant \<Rightarrow> EndpointState \<Rightarrow> bool" where
  "circuit_open now e = is_some_and (\<lambda>deadline. now < deadline) (es_open_until e)"

definition endpoint_rank :: "rounding \<Rightarrow> EndpointState option \<Rightarrow> instant \<Rightarrow> nat \<Rightarrow> rat" where
  "endpoint_rank rnd st now configured_index =
     (case st of
        None \<Rightarrow> rnd (of_nat configured_index)
      | Some e \<Rightarrow>
          (let circuit_penalty = (if circuit_open now e then 1000000 else 0)
           in rnd (rnd (circuit_penalty + rnd (of_nat (es_consecutive_failures e) * 10000))
                   + unwrap_or (rnd (of_nat configured_index)) (es_latency_ewma_ms e))))"

definition candidate_rank :: "url_lib \<Rightarrow> rounding \<Rightarrow> SelectorState \<Rightarrow> instant \<Rightarrow> nat \<times> url \<Rightarrow> rat" where
  "candidate_rank L rnd s now iu =
     endpoint_rank rnd (map_of (sl_endpoints s) (endpoint_key L (sl_bases s) (snd iu))) now (fst iu)"

definition ranked_candidates ::
  "url_lib \<Rightarrow> rounding \<Rightarrow> url list \<Rightarrow> SelectorState \<Rightarrow> selection_config \<Rightarrow> instant \<Rightarrow> (nat \<times> url) list" where
  "ranked_candidates L rnd candidates s cfg now =
     (let ranked = List.enumerate 0 candidates
      in if sel_strategy cfg = ''adaptive'' then sort_key (candidate_rank L rnd s now) ranked else ranked)"

definition sample_origins :: "RequestSample \<Rightarrow> (string \<times> string option \<times> nat option) list" where
  "sample_origins sample = map url_origin (rs_candidates sample)"

definition selector_rank ::
  "url_lib \<Rightarrow> rounding \<Rightarrow> instant \<Rightarrow> int \<Rightarrow> url list \<Rightarrow> selection_config \<Rightarrow> SelectorState \<Rightarrow> url list \<times> SelectorState" where
  "selector_rank L rnd now utc candidates cfg s =
     (let s' = (if candidates \<noteq> []
                then s\<lparr>sl_samples := take 32
                        (\<lparr>rs_candidates = candidates, rs_observed_at = utc\<rparr>
                         # filter (\<lambda>sample. sample_origins sample \<noteq> map url_origin candidates) (sl_samples s))\<rparr>
                else s)
      in (map snd (ranked_candidates L rnd candidates s' cfg now), s'))"

subsection \<open>The report\<close>

datatype rank_reason = ConfiguredOrder | Cooldown | Failures | Latency | Unobserved

record EndpointExplanation =
  ee_origin :: string
  ee_configured_position :: nat
  ee_rank :: nat
  ee_reason :: rank_reason
  ee_consecutive_failures :: nat
  ee_cooldown_remaining_secs :: nat
  ee_latency_ewma_ms :: "rat option"

record SelectionReport =
  rep_strategy :: string
  rep_samples :: "(int \<times> EndpointExplanation list) list"

definition cooldown_remaining :: "instant \<Rightarrow> EndpointState option \<Rightarrow> nat option" where
  "cooldown_remaining now st =
     (case Option.bind st es_open_until of
        Some deadline \<Rightarrow> if now < deadline then Some (nat (deadline - now)) else None
      | None \<Rightarrow> None)"

definition explain ::
  "url_lib \<Rightarrow> SelectorState \<Rightarrow> selection_config \<Rightarrow> instant \<Rightarrow> nat \<times> (nat \<times> url) \<Rightarrow> EndpointExplanation" where
  "explain L s cfg now ranked =
     (case ranked of (rank, position, url) \<Rightarrow>
      let endpoint = map_of (sl_endpoints s) (endpoint_key L (sl_bases s) url);
          remaining = cooldown_remaining now endpoint;
          failures = (case endpoint of None \<Rightarrow> 0 | Some e \<Rightarrow> es_consecutive_failures e);
          latency = Option.bind endpoint es_latency_ewma_ms
      in \<lparr>ee_origin = url_origin_ascii L url, ee_configured_position = position + 1, ee_rank = rank + 1,
          ee_reason = (if sel_strategy cfg \<noteq> ''adaptive'' then ConfiguredOrder
                       else if remaining \<noteq> None then Cooldown
                       else if failures > 0 then Failures
                       else if latency \<noteq> None then Latency else Unobserved),
          ee_consecutive_failures = failures,
          ee_cooldown_remaining_secs = (case remaining of None \<Rightarrow> 0
             | Some ns \<Rightarrow> sat_add (ns div 10 ^ 9) (if ns mod 10 ^ 9 > 0 then 1 else 0)),
          ee_latency_ewma_ms = latency\<rparr>)"

definition report_at ::
  "url_lib \<Rightarrow> rounding \<Rightarrow> selection_config \<Rightarrow> instant \<Rightarrow> SelectorState \<Rightarrow> SelectionReport" where
  "report_at L rnd cfg now s =
     \<lparr>rep_strategy = sel_strategy cfg,
      rep_samples = map (\<lambda>sample. (rs_observed_at sample,
          map (explain L s cfg now) (List.enumerate 0 (ranked_candidates L rnd (rs_candidates sample) s cfg now))))
        (sl_samples s)\<rparr>"

section \<open>The endpoint table\<close>

lemma keys_update_or_default:
  "map fst (update_or_default key f es) = (if key \<in> set (map fst es) then map fst es else map fst es @ [key])"
  by (induction key f es rule: update_or_default.induct) auto

lemma map_of_update_or_default:
  "map_of (update_or_default key f es) k =
     (if k = key then Some (f (unwrap_or EndpointState_default (map_of es key))) else map_of es k)"
  by (induction key f es rule: update_or_default.induct) (auto simp: unwrap_or_def)

lemma oldest_entry_mem: "oldest_entry es = Some e \<Longrightarrow> e \<in> set es"
  by (induction es arbitrary: e) (auto split: option.splits if_splits)

lemma oldest_entry_None: "oldest_entry es = None \<longleftrightarrow> es = []"
  by (cases es) (auto split: option.splits)

lemma seen_less_trans: "\<not> seen_less a b \<Longrightarrow> \<not> seen_less b c \<Longrightarrow> \<not> seen_less a c"
  by (cases a; cases b; cases c) auto

lemma oldest_entry_least:
  "oldest_entry es = Some e \<Longrightarrow> f \<in> set es \<Longrightarrow> \<not> seen_less (es_last_seen (snd f)) (es_last_seen (snd e))"
proof (induction es arbitrary: e)
  case (Cons x es)
  have irrefl: "\<not> seen_less a a" for a by (cases a) auto
  have asym: "seen_less a b \<Longrightarrow> \<not> seen_less b a" for a b by (cases a; cases b) auto
  show ?case
  proof (cases "oldest_entry es")
    case None
    with Cons.prems show ?thesis by (auto simp: oldest_entry_None irrefl)
  next
    case (Some g)
    with Cons.IH [OF Some] Cons.prems show ?thesis
      by (auto split: if_splits intro: irrefl dest: asym seen_less_trans)
  qed
qed simp

lemma make_room_length: "distinct (map fst es) \<Longrightarrow> length es \<le> MAX_ENDPOINTS \<Longrightarrow>
    key \<notin> set (map fst es) \<Longrightarrow> length (make_room es key) < MAX_ENDPOINTS"
proof -
  assume d: "distinct (map fst es)" and l: "length es \<le> MAX_ENDPOINTS" and k: "key \<notin> set (map fst es)"
  show ?thesis
  proof (cases "length es \<ge> MAX_ENDPOINTS")
    case True
    then have "es \<noteq> []" by (auto simp: MAX_ENDPOINTS_def)
    then obtain o1 e where oe: "oldest_entry es = Some (o1, e)"
      using oldest_entry_None by (metis option.exhaust surj_pair)
    from oldest_entry_mem [OF oe] have "length (filter (\<lambda>(k, _). k \<noteq> o1) es) < length es"
      by (intro length_filter_less) auto
    with True k l oe show ?thesis by (auto simp: make_room_def)
  next
    case False
    then show ?thesis by (simp add: make_room_def)
  qed
qed

lemma make_room_distinct: "distinct (map fst es) \<Longrightarrow> distinct (map fst (make_room es key))"
  by (auto simp: make_room_def distinct_map_filter split: option.splits)

lemma make_room_present: "key \<in> set (map fst es) \<Longrightarrow> make_room es key = es"
  by (simp add: make_room_def)

lemma make_room_keys: "set (map fst (make_room es key)) \<subseteq> set (map fst es)"
  by (auto simp: make_room_def split: option.splits)

definition selector_inv :: "SelectorState \<Rightarrow> bool" where
  "selector_inv s \<longleftrightarrow>
     length (sl_endpoints s) \<le> MAX_ENDPOINTS \<and> distinct (map fst (sl_endpoints s)) \<and>
     length (sl_samples s) \<le> 32 \<and> distinct (map sample_origins (sl_samples s)) \<and>
     list_all (\<lambda>sample. rs_candidates sample \<noteq> []) (sl_samples s)"

lemma endpoint_state_inv: "selector_inv s \<Longrightarrow> selector_inv (endpoint_state now key f s)"
proof -
  assume inv: "selector_inv s"
  let ?m = "make_room (sl_endpoints s) key"
  have d: "distinct (map fst ?m)" using inv by (simp add: selector_inv_def make_room_distinct)
  have "length (update_or_default key g ?m) \<le> MAX_ENDPOINTS" for g
  proof (cases "key \<in> set (map fst (sl_endpoints s))")
    case True
    then have "length (map fst (update_or_default key g ?m)) = length (sl_endpoints s)"
      by (simp add: keys_update_or_default make_room_present)
    with inv show ?thesis by (simp add: selector_inv_def)
  next
    case False
    then have "key \<notin> set (map fst ?m)" using make_room_keys by blast
    then have "length (map fst (update_or_default key g ?m)) = Suc (length ?m)"
      by (simp add: keys_update_or_default)
    with make_room_length [OF _ _ False] inv show ?thesis by (simp add: selector_inv_def Suc_le_eq)
  qed
  with d inv show ?thesis by (auto simp: selector_inv_def endpoint_state_def keys_update_or_default)
qed

lemma distinct_take_map: "distinct (map f xs) \<Longrightarrow> distinct (map f (take n xs))"
  by (simp add: take_map [symmetric])

lemma selector_rank_inv: "selector_inv s \<Longrightarrow> selector_inv (snd (selector_rank L rnd now utc cs cfg s))"
proof -
  assume inv: "selector_inv s"
  let ?n = "\<lparr>rs_candidates = cs, rs_observed_at = utc\<rparr>"
  let ?f = "filter (\<lambda>sample. sample_origins sample \<noteq> map url_origin cs) (sl_samples s)"
  have "distinct (map sample_origins (?n # ?f))"
    using inv by (auto simp: selector_inv_def sample_origins_def distinct_map_filter)
  from distinct_take_map [OF this, of 32] inv show ?thesis
    by (auto simp: selector_rank_def Let_def selector_inv_def list_all_iff dest!: in_set_takeD)
qed

text \<open>The operations that change the selector, in any order and with any arguments.\<close>

inductive selector_reachable :: "url_lib \<Rightarrow> rounding \<Rightarrow> SelectorState \<Rightarrow> bool"
  for L :: url_lib and rnd :: rounding where
  configured: "selector_reachable L rnd (selector_configured L c)"
| reconfigure: "selector_reachable L rnd s \<Longrightarrow> selector_reachable L rnd (selector_configure L c s)"
| rank: "selector_reachable L rnd s \<Longrightarrow> selector_reachable L rnd (snd (selector_rank L rnd now utc cs cfg s))"
| success: "selector_reachable L rnd s \<Longrightarrow> selector_reachable L rnd (record_success L rnd now url elapsed s)"
| failure: "selector_reachable L rnd s \<Longrightarrow> selector_reachable L rnd (record_failure L now url cfg s)"

lemma reachable_inv: "selector_reachable L rnd s \<Longrightarrow> selector_inv s"
proof (induction rule: selector_reachable.induct)
  case (rank s now utc cs cfg)
  then show ?case by (simp add: selector_rank_inv)
next
  case (success s now url elapsed)
  then show ?case by (simp add: record_success_def endpoint_state_inv)
next
  case (failure s now url cfg)
  then show ?case by (simp add: record_failure_def endpoint_state_inv)
qed (simp_all add: selector_configured_def selector_configure_def selector_inv_def Let_def)

section \<open>Ranking\<close>

lemma rounding_exact: "rounding_ok rnd \<Longrightarrow> n \<le> 2 ^ 53 \<Longrightarrow> rnd (of_nat n) = of_nat n"
  by (simp add: rounding_ok_def)

lemma rounding_mono: "rounding_ok rnd \<Longrightarrow> x \<le> y \<Longrightarrow> rnd x \<le> rnd y"
  by (simp add: rounding_ok_def monoD)

lemma rounding_nonneg: "rounding_ok rnd \<Longrightarrow> 0 \<le> x \<Longrightarrow> 0 \<le> rnd x"
  using rounding_mono [of rnd 0 x] rounding_exact [of rnd 0] by simp

definition observations_ok :: "EndpointState \<Rightarrow> bool" where
  "observations_ok e \<longleftrightarrow> es_consecutive_failures e \<le> U32_MAX \<and>
     (case es_latency_ewma_ms e of None \<Rightarrow> True | Some l \<Rightarrow> 0 \<le> l)"

definition selector_observations_ok :: "SelectorState \<Rightarrow> bool" where
  "selector_observations_ok s \<longleftrightarrow> (\<forall>k e. map_of (sl_endpoints s) k = Some e \<longrightarrow> observations_ok e)"

lemma success_observations: "rounding_ok rnd \<Longrightarrow> observations_ok e \<Longrightarrow> observations_ok (success_update rnd n e)"
proof -
  assume r: "rounding_ok rnd" and e: "observations_ok e"
  have "0 \<le> as_secs_f64 rnd n"
    unfolding as_secs_f64_def by (intro rounding_nonneg [OF r] add_nonneg_nonneg divide_nonneg_nonneg) simp_all
  then have ms: "0 \<le> rnd (as_secs_f64 rnd n * 1000)"
    by (intro rounding_nonneg [OF r]) simp
  have "0 \<le> rnd (rnd (p * rnd (4 / 5)) + rnd (q * rnd (1 / 5)))" if "0 \<le> p" "0 \<le> q" for p q
    by (intro rounding_nonneg [OF r] add_nonneg_nonneg mult_nonneg_nonneg that) simp_all
  with ms e show ?thesis by (simp add: observations_ok_def success_update_def Let_def split: option.splits)
qed

lemma failure_observations: "observations_ok e \<Longrightarrow> observations_ok (failure_update cfg now e)"
  by (simp add: observations_ok_def failure_update_def Let_def u32_sat_add_def)

lemma make_room_map_of: "distinct (map fst es) \<Longrightarrow> map_of (make_room es key) k = Some e \<Longrightarrow> map_of es k = Some e"
  by (auto simp: make_room_def map_of_filter_in dest!: map_of_SomeD split: option.splits if_splits)

lemma endpoint_state_observations:
  assumes "selector_inv s" "selector_observations_ok s" "\<And>e. observations_ok e \<Longrightarrow> observations_ok (f e)"
  shows "selector_observations_ok (endpoint_state now key f s)"
proof -
  have "observations_ok (e\<lparr>es_last_seen := x\<rparr>) = observations_ok e" for e x by (simp add: observations_ok_def)
  moreover have "observations_ok EndpointState_default" by (simp add: observations_ok_def EndpointState_default_def)
  moreover have "map_of (make_room (sl_endpoints s) key) k = Some e \<Longrightarrow> observations_ok e" for k e
    using make_room_map_of [of "sl_endpoints s" key k e] assms(1,2)
    unfolding selector_inv_def selector_observations_ok_def by blast
  ultimately show ?thesis
    by (auto simp: selector_observations_ok_def endpoint_state_def map_of_update_or_default unwrap_or_def
        intro!: assms(3) split: option.splits)
qed

lemma reachable_observations: "selector_reachable L rnd s \<Longrightarrow> rounding_ok rnd \<Longrightarrow> selector_observations_ok s"
proof (induction rule: selector_reachable.induct)
  case (success s now url elapsed)
  then show ?case unfolding record_success_def
    by (intro endpoint_state_observations success_observations reachable_inv) auto
next
  case (failure s now url cfg)
  then show ?case unfolding record_failure_def
    by (intro endpoint_state_observations failure_observations reachable_inv) auto
qed (auto simp: selector_configured_def selector_configure_def selector_rank_def selector_observations_ok_def Let_def)

text \<open>The score of an endpoint without the circuit penalty and before rounding.\<close>

definition health_score :: "EndpointState option \<Rightarrow> nat \<Rightarrow> rat" where
  "health_score st configured_index =
     (case st of
        None \<Rightarrow> of_nat configured_index
      | Some e \<Rightarrow> of_nat (es_consecutive_failures e) * 10000 + unwrap_or (of_nat configured_index) (es_latency_ewma_ms e))"

lemma open_rank_ge:
  assumes "rounding_ok rnd" "observations_ok e" "circuit_open now e"
  shows "1000000 \<le> endpoint_rank rnd (Some e) now i"
proof -
  let ?p = "1000000 + rnd (of_nat (es_consecutive_failures e) * 10000)"
  have k: "rnd 1000000 = 1000000" using rounding_exact [OF assms(1), of 1000000] by simp
  have lat: "0 \<le> unwrap_or (rnd (of_nat i)) (es_latency_ewma_ms e)"
    using assms(1,2) by (auto simp: unwrap_or_def observations_ok_def intro: rounding_nonneg split: option.splits)
  have "0 \<le> rnd (of_nat (es_consecutive_failures e) * 10000)"
    by (rule rounding_nonneg [OF assms(1)]) simp
  then have "rnd 1000000 \<le> rnd ?p" by (intro rounding_mono [OF assms(1)]) simp
  with lat k have "1000000 \<le> rnd ?p + unwrap_or (rnd (of_nat i)) (es_latency_ewma_ms e)" by simp
  from rounding_mono [OF assms(1) this] k assms(3) show ?thesis by (simp add: endpoint_rank_def)
qed

lemma closed_rank_le:
  assumes "rounding_ok rnd" "i \<le> 2 ^ 53"
    and "case st of None \<Rightarrow> True | Some e \<Rightarrow> observations_ok e \<and> \<not> circuit_open now e"
    and "health_score st i \<le> 999999"
  shows "endpoint_rank rnd st now i \<le> 999999"
proof -
  have k: "rnd 999999 = 999999" using rounding_exact [OF assms(1), of 999999] by simp
  have i: "rnd (of_nat i) = of_nat i" using assms(1,2) by (rule rounding_exact)
  show ?thesis
  proof (cases st)
    case None
    with assms(4) show ?thesis by (simp add: endpoint_rank_def health_score_def i)
  next
    case (Some e)
    with assms(3) have "es_consecutive_failures e * 10000 \<le> 2 ^ 53" by (simp add: observations_ok_def U32_MAX_def)
    from rounding_exact [OF assms(1) this] have f: "rnd (of_nat (es_consecutive_failures e) * 10000) = of_nat (es_consecutive_failures e) * 10000"
      by simp
    from assms(4) Some have "rnd (of_nat (es_consecutive_failures e) * 10000 + unwrap_or (of_nat i) (es_latency_ewma_ms e)) \<le> rnd 999999"
      by (intro rounding_mono [OF assms(1)]) (simp add: health_score_def)
    with assms(3) Some k show ?thesis by (simp add: endpoint_rank_def f i)
  qed
qed

lemma ranked_mset: "mset (ranked_candidates L rnd cs s cfg now) = mset (List.enumerate 0 cs)"
  by (simp add: ranked_candidates_def Let_def)

lemma ranked_index_bound: "iu \<in> set (ranked_candidates L rnd cs s cfg now) \<Longrightarrow> fst iu < length cs"
  using arg_cong [OF ranked_mset [of L rnd cs s cfg now], where f = set_mset]
  by (simp add: in_set_enumerate_eq)

lemma ranked_sorted:
  "sel_strategy cfg = ''adaptive'' \<Longrightarrow> sorted (map (candidate_rank L rnd s now) (ranked_candidates L rnd cs s cfg now))"
  by (simp add: ranked_candidates_def Let_def)

section \<open>Keys\<close>

lemma find_sorted_max:
  assumes "sorted (map (\<lambda>b. - int (f b)) bs)" "find P bs = Some b" "c \<in> set bs" "P c"
  shows "f c \<le> f b"
  using assms by (induction bs) (auto split: if_splits)

lemma configured_bases:
  "sl_bases (selector_configured L c) = sort_key (\<lambda>base. - int (length (u_path base)))
     (filter_map (\<lambda>base. url_parse L (trim base)) (concat (map (split_on (CHR '','')) (upstream_groups (cfg_upstreams c)))))"
  by (simp add: selector_configured_def selector_configure_def Let_def)

section \<open>Histories of one endpoint\<close>

datatype outcome = Success nat | Failure

definition record_outcome ::
  "url_lib \<Rightarrow> rounding \<Rightarrow> selection_config \<Rightarrow> url \<Rightarrow> SelectorState \<Rightarrow> instant \<times> outcome \<Rightarrow> SelectorState" where
  "record_outcome L rnd cfg url s ev =
     (case ev of
        (now, Success elapsed) \<Rightarrow> record_success L rnd now url elapsed s
      | (now, Failure) \<Rightarrow> record_failure L now url cfg s)"

lemma record_outcome_simps:
  "record_outcome L rnd cfg url s (t, Success n) =
     endpoint_state t (endpoint_key L (sl_bases s) url) (success_update rnd n) s"
  "record_outcome L rnd cfg url s (t, Failure) =
     endpoint_state t (endpoint_key L (sl_bases s) url) (failure_update cfg t) s"
  by (simp_all add: record_outcome_def record_success_def record_failure_def)

definition trailing_failures :: "(instant \<times> outcome) list \<Rightarrow> nat" where
  "trailing_failures evs = length (takeWhile (\<lambda>ev. snd ev = Failure) (rev evs))"

lemma trailing_failures_snoc:
  "trailing_failures (evs @ [(t, Failure)]) = Suc (trailing_failures evs)"
  "trailing_failures (evs @ [(t, Success n)]) = 0"
  by (simp_all add: trailing_failures_def)

lemma bases_record_outcome [simp]: "sl_bases (record_outcome L rnd cfg url s ev) = sl_bases s"
  by (simp add: record_outcome_def record_success_def record_failure_def endpoint_state_def
      split: prod.splits outcome.splits)

lemma bases_record_outcomes [simp]: "sl_bases (foldl (record_outcome L rnd cfg url) s evs) = sl_bases s"
  by (induction evs arbitrary: s) simp_all

lemma lookup_endpoint_state:
  "map_of (sl_endpoints (endpoint_state now key f s)) key =
     Some (f ((unwrap_or EndpointState_default (map_of (make_room (sl_endpoints s) key) key))\<lparr>es_last_seen := Some now\<rparr>))"
  by (simp add: endpoint_state_def map_of_update_or_default)

lemma lookup_endpoint_state_present:
  "map_of (sl_endpoints s) key = Some e \<Longrightarrow>
   map_of (sl_endpoints (endpoint_state now key f s)) key = Some (f (e\<lparr>es_last_seen := Some now\<rparr>))"
proof -
  assume e: "map_of (sl_endpoints s) key = Some e"
  then have "key \<in> set (map fst (sl_endpoints s))" by (metis map_of_eq_None_iff set_map option.distinct(1))
  with e show ?thesis by (simp add: lookup_endpoint_state make_room_present unwrap_or_def)
qed

lemma lookup_endpoint_state_fresh:
  "map_of (sl_endpoints s) key = None \<Longrightarrow>
   map_of (sl_endpoints (endpoint_state now key f s)) key = Some (f (EndpointState_default\<lparr>es_last_seen := Some now\<rparr>))"
proof -
  assume "map_of (sl_endpoints s) key = None"
  then have "key \<notin> set (map fst (make_room (sl_endpoints s) key))"
    using make_room_keys [of "sl_endpoints s" key] by (auto simp: map_of_eq_None_iff)
  then have "map_of (make_room (sl_endpoints s) key) key = None" by (simp add: map_of_eq_None_iff)
  then show ?thesis by (simp add: lookup_endpoint_state unwrap_or_def)
qed

text \<open>What the history of an endpoint determines about its circuit.\<close>

definition circuit_after :: "selection_config \<Rightarrow> (instant \<times> outcome) list \<Rightarrow> EndpointState \<Rightarrow> bool" where
  "circuit_after cfg evs e \<longleftrightarrow>
     es_consecutive_failures e = min (trailing_failures evs) U32_MAX \<and>
     es_open_until e = (if sel_failure_threshold cfg \<le> trailing_failures evs
                        then Some (fst (last evs) + secs (sel_cooldown_secs cfg)) else None)"

lemma circuit_after_failure:
  assumes "circuit_after cfg evs e" "0 < sel_failure_threshold cfg" "sel_failure_threshold cfg \<le> U32_MAX"
  shows "circuit_after cfg (evs @ [(t, Failure)]) (failure_update cfg t (e\<lparr>es_last_seen := Some t\<rparr>))"
  using assms
  by (auto simp: circuit_after_def failure_update_def Let_def u32_sat_add_def trailing_failures_snoc)

lemma circuit_after_success:
  assumes "0 < sel_failure_threshold cfg"
  shows "circuit_after cfg (evs @ [(t, Success n)]) (success_update rnd n e)"
  using assms by (simp add: circuit_after_def success_update_def Let_def trailing_failures_snoc)

lemma circuit_after_empty: "0 < sel_failure_threshold cfg \<Longrightarrow> circuit_after cfg [] EndpointState_default"
  by (simp add: circuit_after_def trailing_failures_def EndpointState_default_def)

lemma history_state:
  assumes "0 < sel_failure_threshold cfg" "sel_failure_threshold cfg \<le> U32_MAX"
    and "map_of (sl_endpoints s) (endpoint_key L (sl_bases s) url) = None" and "evs \<noteq> []"
  shows "\<exists>e. map_of (sl_endpoints (foldl (record_outcome L rnd cfg url) s evs)) (endpoint_key L (sl_bases s) url) = Some e \<and>
     circuit_after cfg evs e"
  using assms(4)
proof (induction evs rule: rev_nonempty_induct)
  case (single ev)
  obtain t oc where ev: "ev = (t, oc)" by (cases ev)
  note fresh = lookup_endpoint_state_fresh [OF assms(3)]
  show ?case
  proof (cases oc)
    case (Success n)
    with circuit_after_success [OF assms(1), of "[]"] fresh show ?thesis
      by (simp add: ev record_outcome_simps)
  next
    case Failure
    with circuit_after_failure [OF circuit_after_empty [OF assms(1)] assms(1,2)] fresh show ?thesis
      by (simp add: ev record_outcome_simps)
  qed
next
  case (snoc ev evs)
  let ?s = "foldl (record_outcome L rnd cfg url) s evs"
  from snoc obtain e where e: "map_of (sl_endpoints ?s) (endpoint_key L (sl_bases s) url) = Some e"
    and ca: "circuit_after cfg evs e" by blast
  obtain t oc where ev: "ev = (t, oc)" by (cases ev)
  note present = lookup_endpoint_state_present [OF e]
  show ?case
  proof (cases oc)
    case (Success n)
    with circuit_after_success [OF assms(1)] present show ?thesis
      by (simp add: ev record_outcome_simps)
  next
    case Failure
    with circuit_after_failure [OF ca assms(1,2)] present show ?thesis
      by (simp add: ev record_outcome_simps)
  qed
qed

section \<open>Properties\<close>

text \<open>Ranking never drops, invents or duplicates a candidate.  Under the ordered strategy
  the configured order is kept; under the adaptive one the candidates are sorted by their
  score and candidates of equal score keep their configured order.\<close>

theorem ranking_is_stable_permutation:
  "let r = ranked_candidates L rnd cs s cfg now
   in mset (map snd r) = mset cs \<and>
      (sel_strategy cfg \<noteq> ''adaptive'' \<longrightarrow> map snd r = cs) \<and>
      (sel_strategy cfg = ''adaptive'' \<longrightarrow>
         sorted (map (candidate_rank L rnd s now) r) \<and>
         (\<forall>k. filter (\<lambda>iu. candidate_rank L rnd s now iu = k) r =
              filter (\<lambda>iu. candidate_rank L rnd s now iu = k) (List.enumerate 0 cs)))"
proof -
  let ?e = "List.enumerate 0 cs"
  have "filter (\<lambda>iu. f iu = k) (sort_key f ?e) = filter (\<lambda>iu. f iu = k) ?e" for f :: "nat \<times> url \<Rightarrow> rat" and k
    by (rule sort_key_stable)
  moreover have "mset (map snd (sort_key f ?e)) = mset cs" for f :: "nat \<times> url \<Rightarrow> rat"
    by (metis map_snd_enumerate mset_map mset_sort)
  ultimately show ?thesis by (simp add: ranked_candidates_def Let_def)
qed

definition sample_urls :: "url list" where
  "sample_urls = [plain_url ''https'' ''a.example'' ''/x'', plain_url ''https'' ''b.example'' ''/x'']"

definition adaptive_config :: selection_config where
  "adaptive_config = \<lparr>sel_strategy = ''adaptive'', sel_failure_threshold = 2, sel_cooldown_secs = 30\<rparr>"

text \<open>However the selector is used, it remembers at most 512 endpoints, each once, and at
  most 32 request samples, at most one for each list of origins and none of them empty.\<close>

theorem selector_memory_bounded:
  assumes "selector_reachable L rnd s"
  shows "length (sl_endpoints s) \<le> 512 \<and> distinct (map fst (sl_endpoints s)) \<and>
     length (sl_samples s) \<le> 32 \<and> distinct (map sample_origins (sl_samples s)) \<and>
     (\<forall>sample \<in> set (sl_samples s). rs_candidates sample \<noteq> [])"
  using reachable_inv [OF assms] by (simp add: selector_inv_def MAX_ENDPOINTS_def list_all_iff)

definition tripped_selector :: SelectorState where
  "tripped_selector =
     record_failure plain_url_lib 2 (hd sample_urls) adaptive_config
       (record_failure plain_url_lib 1 (hd sample_urls) adaptive_config
         (selector_configured plain_url_lib Config_default))"

lemma tripped_selector_reachable: "selector_reachable plain_url_lib (\<lambda>x. x) tripped_selector"
  unfolding tripped_selector_def by (intro selector_reachable.intros)

text \<open>The adaptive ranking puts an endpoint whose circuit is open behind every candidate
  whose circuit is closed and whose failures and latency score below the circuit penalty,
  whatever the rounding of the scores.\<close>

theorem open_circuits_rank_last:
  assumes "selector_reachable L rnd s" and "rounding_ok rnd" and "sel_strategy cfg = ''adaptive''"
    and "length cs \<le> 2 ^ 53"
    and "r = ranked_candidates L rnd cs s cfg now" and "i < length r" and "j < length r"
    and "map_of (sl_endpoints s) (endpoint_key L (sl_bases s) (snd (r ! i))) = Some e" and "circuit_open now e"
    and "st = map_of (sl_endpoints s) (endpoint_key L (sl_bases s) (snd (r ! j)))"
    and "case st of None \<Rightarrow> True | Some f \<Rightarrow> \<not> circuit_open now f" and "health_score st (fst (r ! j)) \<le> 999999"
  shows "j < i"
proof -
  have obs: "selector_observations_ok s" using reachable_observations assms(1,2) by blast
  have "observations_ok e" using obs assms(8) by (auto simp: selector_observations_ok_def)
  with assms(2,8,9) have i: "1000000 \<le> candidate_rank L rnd s now (r ! i)"
    by (simp add: candidate_rank_def open_rank_ge)
  have "fst (r ! j) < length cs" using ranked_index_bound assms(5,7) nth_mem by blast
  then have "fst (r ! j) \<le> 2 ^ 53" using assms(4) by simp
  moreover have "case st of None \<Rightarrow> True | Some f \<Rightarrow> observations_ok f \<and> \<not> circuit_open now f"
    using obs assms(10,11) by (auto simp: selector_observations_ok_def split: option.splits)
  ultimately have j: "candidate_rank L rnd s now (r ! j) \<le> 999999"
    using closed_rank_le [OF assms(2) _ _ assms(12)] assms(10) by (simp add: candidate_rank_def)
  show ?thesis
  proof (rule ccontr)
    assume "\<not> j < i"
    then have "candidate_rank L rnd s now (r ! i) \<le> candidate_rank L rnd s now (r ! j)"
      using sorted_nth_mono [OF ranked_sorted [OF assms(3), of L rnd s now cs], of i j] assms(5-7) by simp
    with i j show False by simp
  qed
qed

lemma endpoint_key_uncovered:
  "\<forall>b \<in> set bases. \<not> base_covers url b \<Longrightarrow> endpoint_key L bases url = url_origin_ascii L url"
  using find_None_iff [of "base_covers url" bases] by (auto simp: endpoint_key_def)

lemma sample_uncovered:
  "list_all (\<lambda>b. \<not> base_covers (sample_urls ! 0) b \<and> \<not> base_covers (sample_urls ! 1) b)
     (filter_map (\<lambda>base. url_parse plain_url_lib (trim base))
       (concat (map (split_on (CHR '','')) (upstream_groups Upstreams_default))))"
  by code_simp

lemma sample_keys:
  "endpoint_key plain_url_lib (sl_bases (selector_configured plain_url_lib Config_default)) (sample_urls ! 0) = ''https://a.example''"
  "endpoint_key plain_url_lib (sl_bases (selector_configured plain_url_lib Config_default)) (sample_urls ! 1) = ''https://b.example''"
proof -
  have u: "cfg_upstreams Config_default = Upstreams_default" by (simp add: Config_default_def)
  have "\<forall>b \<in> set (sl_bases (selector_configured plain_url_lib Config_default)).
      \<not> base_covers (sample_urls ! 0) b \<and> \<not> base_covers (sample_urls ! 1) b"
    using sample_uncovered unfolding configured_bases u set_sort list_all_iff .
  moreover have "url_origin_ascii plain_url_lib (sample_urls ! 0) = ''https://a.example''"
      "url_origin_ascii plain_url_lib (sample_urls ! 1) = ''https://b.example''" by code_simp+
  ultimately show
    "endpoint_key plain_url_lib (sl_bases (selector_configured plain_url_lib Config_default)) (sample_urls ! 0) = ''https://a.example''"
    "endpoint_key plain_url_lib (sl_bases (selector_configured plain_url_lib Config_default)) (sample_urls ! 1) = ''https://b.example''"
    by (auto simp: endpoint_key_uncovered)
qed

lemma tripped_bases: "sl_bases tripped_selector = sl_bases (selector_configured plain_url_lib Config_default)"
  by (simp add: tripped_selector_def record_failure_def endpoint_state_def)

lemma tripped_endpoints:
  "sl_endpoints tripped_selector =
     [(''https://a.example'', \<lparr>es_consecutive_failures = 2, es_open_until = Some (2 + secs 30),
        es_latency_ewma_ms = None, es_last_seen = Some 2\<rparr>)]"
  using sample_keys(1)
  by (simp add: tripped_selector_def record_failure_def endpoint_state_def make_room_def MAX_ENDPOINTS_def
      failure_update_def adaptive_config_def EndpointState_default_def u32_sat_add_def U32_MAX_def
      selector_configured_def selector_configure_def sample_urls_def Let_def)

lemma sample_ranks:
  "candidate_rank plain_url_lib (\<lambda>x. x) tripped_selector 3 (0, sample_urls ! 0) = 1020000"
  "candidate_rank plain_url_lib (\<lambda>x. x) tripped_selector 3 (1, sample_urls ! 1) = 1"
  by (simp_all add: candidate_rank_def tripped_bases tripped_endpoints sample_keys endpoint_rank_def circuit_open_def
      is_some_and_def unwrap_or_def secs_def del: One_nat_def)

lemma sample_ranking:
  "ranked_candidates plain_url_lib (\<lambda>x. x) sample_urls tripped_selector adaptive_config 3 =
     [(1, sample_urls ! 1), (0, sample_urls ! 0)]"
proof -
  have "List.enumerate 0 sample_urls = [(0, sample_urls ! 0), (1, sample_urls ! 1)]" by (simp add: sample_urls_def)
  then show ?thesis
    by (simp add: ranked_candidates_def adaptive_config_def sample_ranks del: One_nat_def)
qed

text \<open>The circuit breaker counts consecutive failures.  For an endpoint that was unknown,
  after any history of outcomes the recorded count is the number of failures since the last
  success, and the circuit is open until the cooldown after the last outcome exactly when
  that number reaches the threshold; one success closes it.\<close>

theorem circuit_breaker_history:
  assumes "0 < sel_failure_threshold cfg" and "sel_failure_threshold cfg \<le> U32_MAX"
    and "map_of (sl_endpoints s) (endpoint_key L (sl_bases s) url) = None" and "evs \<noteq> []"
  shows "\<exists>e. map_of (sl_endpoints (foldl (record_outcome L rnd cfg url) s evs)) (endpoint_key L (sl_bases s) url) = Some e \<and>
     es_consecutive_failures e = min (trailing_failures evs) U32_MAX \<and>
     es_open_until e = (if sel_failure_threshold cfg \<le> trailing_failures evs
                        then Some (fst (last evs) + secs (sel_cooldown_secs cfg)) else None)"
  using history_state [OF assms] unfolding circuit_after_def .

text \<open>Two repositories of one host have separate circuits: a configured selector files a
  URL under the configured endpoint of longest path that covers it, and under its origin
  when no endpoint covers it.\<close>

theorem endpoint_key_longest_base:
  "let bases = sl_bases (selector_configured L c) in
     (\<exists>b \<in> set bases. base_covers url b \<and> endpoint_key L bases url = url_origin_ascii L b @ base_path b \<and>
        (\<forall>b' \<in> set bases. base_covers url b' \<longrightarrow> length (u_path b') \<le> length (u_path b))) \<or>
     ((\<forall>b \<in> set bases. \<not> base_covers url b) \<and> endpoint_key L bases url = url_origin_ascii L url)"
proof (cases "find (base_covers url) (sl_bases (selector_configured L c))")
  case None
  then have "endpoint_key L (sl_bases (selector_configured L c)) url = url_origin_ascii L url"
    by (simp add: endpoint_key_def)
  with None show ?thesis by (simp add: find_None_iff Let_def)
next
  case (Some b)
  have "sorted (map (\<lambda>b. - int (length (u_path b))) (sl_bases (selector_configured L c)))"
    by (simp add: configured_bases)
  from find_sorted_max [OF this Some]
  have "\<forall>b' \<in> set (sl_bases (selector_configured L c)). base_covers url b' \<longrightarrow> length (u_path b') \<le> length (u_path b)"
    by blast
  moreover have "endpoint_key L (sl_bases (selector_configured L c)) url = url_origin_ascii L b @ base_path b"
    by (simp add: endpoint_key_def Some)
  moreover have "b \<in> set (sl_bases (selector_configured L c)) \<and> base_covers url b"
    using Some by (auto simp: find_Some_iff)
  ultimately show ?thesis unfolding Let_def by blast
qed

end
