(* ===== verification/Egress.thy ===== *)
theory Egress
  imports Proxy_Base Config_Defaults
begin

text \<open>
  Requests to upstreams (\<open>crates/server/src/proxy/mod.rs\<close>: \<open>upstream_request\<close>,
  \<open>send_upstream_request\<close>, \<open>probe_endpoint\<close>; \<open>proxy/oci.rs\<close>: \<open>public_destination_addresses\<close>).
  The network is the parameter \<open>eg_exec\<close>, which sees every request sent so far, name
  resolution the parameter \<open>eg_lookup\<close>; a client is the addresses its connections are pinned
  to.  The functions return, beside their result, the requests they sent.
\<close>

section \<open>Requests\<close>

datatype request_body = NoBody | Stream string

record request =
  rq_method :: http_method
  rq_url :: url
  rq_headers :: header_map
  rq_body :: request_body

text \<open>The client of the process, or one whose connections to a host go to fixed addresses.\<close>

datatype client = Shared | Pinned string "(ip_addr \<times> nat) list"

type_synonym sent = "(client \<times> request) list"

record upstream_response =
  ur_status :: nat
  ur_headers :: header_map
  ur_body :: "string option"

record egress =
  eg_exec :: "sent \<Rightarrow> client \<Rightarrow> request \<Rightarrow> upstream_response option"
  eg_lookup :: "string \<Rightarrow> nat \<Rightarrow> (ip_addr \<times> nat) list option"
  eg_client_ok :: bool
  eg_basic :: "string \<Rightarrow> string \<Rightarrow> string"
  eg_trace_headers :: header_map

text \<open>\<open>RequestBuilder::headers\<close>: every name given replaces what is there.\<close>

definition replace_headers :: "header_map \<Rightarrow> header_map \<Rightarrow> header_map" where
  "replace_headers new h = filter (\<lambda>(n, _). n \<notin> fst ` set new) h @ new"

text \<open>\<open>None\<close> is the \<open>unreachable!\<close> of an unvalidated credential entry.\<close>

definition upstream_request ::
  "egress \<Rightarrow> url_lib \<Rightarrow> config \<Rightarrow> http_method \<Rightarrow> url \<Rightarrow> header_map \<Rightarrow> request option" where
  "upstream_request E L c method url incoming =
     (let h0 = filter (\<lambda>(n, _). should_forward_request_header n) incoming;
          h1 = replace_headers (eg_trace_headers E) h0;
          mk = (\<lambda>h. \<lparr>rq_method = method, rq_url = url, rq_headers = h, rq_body = NoBody\<rparr>)
      in case upstream_auth_for L c url of
           Some auth \<Rightarrow>
             (case (ua_username auth, ua_password auth, ua_bearer_token auth) of
                (Some username, Some password, None) \<Rightarrow>
                  Some (mk (hdr_append ''authorization'' (eg_basic E username password) h1))
              | (None, None, Some token) \<Rightarrow> Some (mk (hdr_append ''authorization'' (''Bearer '' @ token) h1))
              | _ \<Rightarrow> None)
         | None \<Rightarrow>
             (if cfg_forward_client_authorization c
              then (case hdr_get incoming ''authorization'' of
                      Some value \<Rightarrow> Some (mk (hdr_append ''authorization'' value h1))
                    | None \<Rightarrow> Some (mk h1))
              else Some (mk h1)))"

section \<open>Destinations\<close>

definition public_destination_addresses :: "egress \<Rightarrow> url \<Rightarrow> ProxyError + (ip_addr \<times> nat) list" where
  "public_destination_addresses E url =
     bindr (ok_or InvalidUrl (u_host url)) (\<lambda>host.
     bindr (ok_or InvalidUrl (u_known_port url)) (\<lambda>port.
       case parse_ip host of
         Some address \<Rightarrow> if is_public_address address then Inr [(address, port)] else Inl UnsupportedTarget
       | None \<Rightarrow>
           (case eg_lookup E host port of
              None \<Rightarrow> Inl InvalidUrl
            | Some addresses \<Rightarrow>
                if addresses \<noteq> [] \<and> list_all (\<lambda>a. is_public_address (fst a)) addresses
                then Inr addresses else Inl UnsupportedTarget)))"

definition same_origin :: "url \<Rightarrow> url \<Rightarrow> bool" where
  "same_origin a b \<longleftrightarrow> u_scheme a = u_scheme b \<and> u_host a = u_host b \<and> u_known_port a = u_known_port b"

definition is_redirect :: "nat \<Rightarrow> bool" where
  "is_redirect status \<longleftrightarrow> status \<in> set [301, 302, 303, 307, 308]"

definition forbidden_target :: "url \<Rightarrow> url \<Rightarrow> bool" where
  "forbidden_target previous target \<longleftrightarrow>
     u_scheme target \<notin> set [''http'', ''https'']
     \<or> (u_scheme previous = ''https'' \<and> u_scheme target \<noteq> ''https'')
     \<or> u_host target = None \<or> u_username target \<noteq> [] \<or> u_password target \<noteq> None \<or> u_fragment target \<noteq> None"

definition explicit_ip_origin :: "url \<Rightarrow> url \<Rightarrow> url \<Rightarrow> bool" where
  "explicit_ip_origin original previous target \<longleftrightarrow>
     same_origin previous target \<and> same_origin original target \<and> Option.bind (u_host target) parse_ip \<noteq> None"

definition redirect_addresses :: "egress \<Rightarrow> url \<Rightarrow> url \<Rightarrow> url \<Rightarrow> ProxyError + (ip_addr \<times> nat) list" where
  "redirect_addresses E original previous target =
     (if explicit_ip_origin original previous target
      then bindr (ok_or UnsafeRedirect (Option.bind (u_host target) parse_ip)) (\<lambda>ip.
           bindr (ok_or UnsafeRedirect (u_known_port target)) (\<lambda>port. Inr [(ip, port)]))
      else (case public_destination_addresses E target of Inl _ \<Rightarrow> Inl UnsafeRedirect | Inr as \<Rightarrow> Inr as))"

definition redirect_headers :: "url \<Rightarrow> url \<Rightarrow> header_map \<Rightarrow> header_map" where
  "redirect_headers previous target headers =
     (if same_origin previous target then headers
      else foldl (\<lambda>h n. hdr_remove n h) headers [''authorization'', ''cookie'', ''proxy-authorization''])"

definition changes_to_get :: "http_method \<Rightarrow> nat \<Rightarrow> bool" where
  "changes_to_get method status \<longleftrightarrow> method \<noteq> GET \<and> method \<noteq> HEAD \<and> status \<in> set [301, 302, 303]"

text \<open>What follows a response: it is returned, the redirect is refused, or a new request goes
  out with a new client.  \<open>redirects\<close> counts the redirects followed before.\<close>

datatype hop = Return | Refuse | Follow client request

definition next_hop ::
  "egress \<Rightarrow> url_lib \<Rightarrow> config \<Rightarrow> url \<Rightarrow> nat \<Rightarrow> request \<Rightarrow> upstream_response \<Rightarrow> hop" where
  "next_hop E L c original redirects request response =
     (if \<not> is_redirect (ur_status response) then Return
      else case hdr_get (ur_headers response) ''location'' of
        None \<Rightarrow> Return
      | Some value \<Rightarrow>
          (case Option.bind (to_str value) (url_join L (rq_url request)) of
             None \<Rightarrow> Refuse
           | Some target \<Rightarrow>
               if redirects = 10 \<or> forbidden_target (rq_url request) target then Refuse
               else (case redirect_addresses E original (rq_url request) target of
                 Inl _ \<Rightarrow> Refuse
               | Inr addresses \<Rightarrow>
                   if opc_enabled (cfg_outbound_proxy c) \<and> \<not> explicit_ip_origin original (rq_url request) target
                   then Refuse
                   else if \<not> eg_client_ok E then Refuse
                   else
                     (let pin = Pinned (unwrap_or [] (u_host target)) addresses;
                          headers = redirect_headers (rq_url request) target (rq_headers request)
                      in if changes_to_get (rq_method request) (ur_status response)
                         then Follow pin \<lparr>rq_method = GET, rq_url = target, rq_headers =
                                foldl (\<lambda>h n. hdr_remove n h) headers [''content-length'', ''content-type'', ''transfer-encoding''],
                                rq_body = NoBody\<rparr>
                         else (case rq_body request of
                                 NoBody \<Rightarrow> Follow pin (request\<lparr>rq_url := target, rq_headers := headers\<rparr>)
                               | Stream _ \<Rightarrow> Return)))))"

text \<open>The loop of \<open>send_upstream_request\<close>; \<open>left\<close> is ten minus the redirects followed.\<close>

fun send_loop ::
  "egress \<Rightarrow> url_lib \<Rightarrow> config \<Rightarrow> url \<Rightarrow> nat \<Rightarrow> client \<Rightarrow> request \<Rightarrow> sent \<Rightarrow> (ProxyError + upstream_response) \<times> sent" where
  "send_loop E L c original left client request sent =
     (let sent' = sent @ [(client, request)]
      in case eg_exec E sent client request of
           None \<Rightarrow> (Inl Upstream, sent')
         | Some response \<Rightarrow>
             (case next_hop E L c original (10 - left) request response of
                Return \<Rightarrow> (Inr response, sent')
              | Refuse \<Rightarrow> (Inl UnsafeRedirect, sent')
              | Follow pin request' \<Rightarrow>
                  (case left of
                     0 \<Rightarrow> (Inl UnsafeRedirect, sent')
                   | Suc left' \<Rightarrow> send_loop E L c original left' pin request' sent')))"

definition send_upstream_request ::
  "egress \<Rightarrow> url_lib \<Rightarrow> config \<Rightarrow> request \<Rightarrow> sent \<Rightarrow> (ProxyError + upstream_response) \<times> sent" where
  "send_upstream_request E L c request sent = send_loop E L c (rq_url request) 10 Shared request sent"

definition probe_endpoint ::
  "egress \<Rightarrow> url_lib \<Rightarrow> config \<Rightarrow> http_method \<Rightarrow> url \<Rightarrow> sent \<Rightarrow> ((ProxyError + upstream_response) \<times> sent) option" where
  "probe_endpoint E L c method url sent =
     map_option (\<lambda>rq. send_upstream_request E L c rq sent) (upstream_request E L c method url [])"

section \<open>Lemmas on one hop\<close>

lemma same_origin_iff: "same_origin a b \<longleftrightarrow> url_origin a = url_origin b"
  by (auto simp: same_origin_def url_origin_def)

lemma public_destination_public:
  "public_destination_addresses E u = Inr as \<Longrightarrow> as \<noteq> [] \<and> (\<forall>a \<in> set as. is_public_address (fst a))"
  by (auto simp: public_destination_addresses_def bindr_eq_Inr list_all_iff simp del: is_public_address.simps
      split: option.splits if_splits)

definition sensitive :: "string set" where
  "sensitive = {''authorization'', ''cookie'', ''proxy-authorization''}"

definition secret_free :: "header_map \<Rightarrow> bool" where
  "secret_free h \<longleftrightarrow> (\<forall>n \<in> sensitive. \<not> hdr_contains h n)"

lemma contains_remove: "hdr_contains (hdr_remove n h) m \<Longrightarrow> hdr_contains h m"
  by (simp add: hdr_contains_def hdr_get_all_remove split: if_splits)

lemma secret_free_remove: "secret_free h \<Longrightarrow> secret_free (hdr_remove n h)"
  using contains_remove by (auto simp: secret_free_def)

lemma redirect_headers_secret_free:
  "secret_free h \<or> \<not> same_origin p t \<Longrightarrow> secret_free (redirect_headers p t h)"
  by (auto simp: redirect_headers_def secret_free_def sensitive_def hdr_contains_def hdr_get_all_remove)

text \<open>What is known of a request that a redirect sends, given the one before it.\<close>

definition hop_ok :: "config \<Rightarrow> url \<Rightarrow> request \<Rightarrow> client \<Rightarrow> request \<Rightarrow> bool" where
  "hop_ok c original previous pin rq \<longleftrightarrow>
     u_scheme (rq_url rq) \<in> {''http'', ''https''} \<and>
     (u_scheme (rq_url previous) = ''https'' \<longrightarrow> u_scheme (rq_url rq) = ''https'') \<and>
     u_username (rq_url rq) = [] \<and> u_password (rq_url rq) = None \<and>
     (\<exists>host as. u_host (rq_url rq) = Some host \<and> pin = Pinned host as \<and> as \<noteq> [] \<and>
        ((\<forall>a \<in> set as. is_public_address (fst a)) \<or>
         (url_origin (rq_url rq) = url_origin original \<and> parse_ip host = Some (fst (hd as)) \<and> length as = 1))) \<and>
     (opc_enabled (cfg_outbound_proxy c) \<longrightarrow> url_origin (rq_url rq) = url_origin original) \<and>
     (secret_free (rq_headers previous) \<or> url_origin (rq_url rq) \<noteq> url_origin (rq_url previous) \<longrightarrow> secret_free (rq_headers rq))"

lemma next_hop_follow:
  assumes "next_hop E L c original n rq rsp = Follow pin rq'"
  shows "n \<noteq> 10 \<and> hop_ok c original rq pin rq'"
proof -
  from assms obtain target as where t: "n \<noteq> 10" "\<not> forbidden_target (rq_url rq) target"
    and a: "redirect_addresses E original (rq_url rq) target = Inr as"
    and o1: "opc_enabled (cfg_outbound_proxy c) \<longrightarrow> explicit_ip_origin original (rq_url rq) target"
    and p: "pin = Pinned (unwrap_or [] (u_host target)) as" and u: "rq_url rq' = target"
    and h: "rq_headers rq' = redirect_headers (rq_url rq) target (rq_headers rq) \<or>
        rq_headers rq' = foldl (\<lambda>h n. hdr_remove n h) (redirect_headers (rq_url rq) target (rq_headers rq))
           [''content-length'', ''content-type'', ''transfer-encoding'']"
    by (auto simp: next_hop_def Let_def split: if_splits option.splits sum.splits request_body.splits)
  obtain host where host: "u_host target = Some host" using t(2) by (auto simp: forbidden_target_def)
  have "as \<noteq> [] \<and> ((\<forall>a \<in> set as. is_public_address (fst a)) \<or>
         (url_origin target = url_origin original \<and> parse_ip host = Some (fst (hd as)) \<and> length as = 1))"
  proof (cases "explicit_ip_origin original (rq_url rq) target")
    case True
    with a host show ?thesis
      by (auto simp: redirect_addresses_def explicit_ip_origin_def bindr_eq_Inr same_origin_iff)
  next
    case False
    with a show ?thesis using public_destination_public
      by (auto simp: redirect_addresses_def split: sum.splits)
  qed
  moreover have "secret_free (rq_headers rq) \<or> url_origin target \<noteq> url_origin (rq_url rq) \<Longrightarrow> secret_free (rq_headers rq')"
    using h redirect_headers_secret_free [of "rq_headers rq" "rq_url rq" target]
    by (auto simp: same_origin_iff intro!: secret_free_remove)
  ultimately show ?thesis using t o1 p u host
    by (auto simp: hop_ok_def forbidden_target_def unwrap_or_def explicit_ip_origin_def same_origin_iff)
qed

section \<open>Lemmas on the loop\<close>

fun hops_ok :: "config \<Rightarrow> url \<Rightarrow> request \<Rightarrow> sent \<Rightarrow> bool" where
  "hops_ok c original previous [] = True"
| "hops_ok c original previous ((pin, rq) # hops) = (hop_ok c original previous pin rq \<and> hops_ok c original rq hops)"

declare send_loop.simps [simp del]

lemma send_loop_trace:
  "left \<le> 10 \<Longrightarrow> \<exists>hops. snd (send_loop E L c original left client rq sent) = sent @ (client, rq) # hops \<and>
     length hops \<le> left \<and> hops_ok c original rq hops"
proof (induction left arbitrary: client rq sent)
  case 0
  show ?case
  proof (cases "eg_exec E sent client rq")
    case (Some rsp)
    then show ?thesis using next_hop_follow [of E L c original 10 rq rsp]
      by (cases "next_hop E L c original 10 rq rsp") (auto simp: send_loop.simps [of _ _ _ _ 0])
  qed (simp add: send_loop.simps [of _ _ _ _ 0])
next
  case (Suc left)
  show ?case
  proof (cases "eg_exec E sent client rq")
    case None
    then show ?thesis by (simp add: send_loop.simps [of _ _ _ _ "Suc left"])
  next
    case (Some rsp)
    show ?thesis
    proof (cases "next_hop E L c original (10 - Suc left) rq rsp")
      case (Follow pin rq')
      from next_hop_follow [OF this] have ok: "hop_ok c original rq pin rq'" by simp
      obtain hops where "snd (send_loop E L c original left pin rq' (sent @ [(client, rq)])) = (sent @ [(client, rq)]) @ (pin, rq') # hops"
          "length hops \<le> left" "hops_ok c original rq' hops"
        using Suc.IH Suc.prems by (meson Suc_leD)
      with ok Follow Some show ?thesis
        by (intro exI [of _ "(pin, rq') # hops"]) (simp add: send_loop.simps [of _ _ _ _ "Suc left"])
    qed (simp_all add: Some send_loop.simps [of _ _ _ _ "Suc left"])
  qed
qed

lemma hops_ok_nth:
  "hops_ok c original rq hops \<Longrightarrow> i < length hops \<Longrightarrow>
   hop_ok c original ((rq # map snd hops) ! i) (fst (hops ! i)) (snd (hops ! i))"
proof (induction hops arbitrary: rq i)
  case (Cons x hops)
  then show ?case by (cases x; cases i) auto
qed simp

lemma hops_ok_secrets:
  assumes "hops_ok c original rq hops"
    and "secret_free (rq_headers rq) \<or> url_origin (rq_url rq) = url_origin original"
    and "(pin, r) \<in> set hops" and "\<not> secret_free (rq_headers r)"
  shows "url_origin (rq_url r) = url_origin original"
  using assms
proof (induction c original rq hops rule: hops_ok.induct)
  case (2 c original previous pin' rq hops)
  then have "secret_free (rq_headers rq) \<or> url_origin (rq_url rq) = url_origin original"
    by (auto simp: hop_ok_def)
  with 2 show ?case by auto
qed simp

lemma trace_of_send:
  obtains hops where "snd (send_upstream_request E L c rq sent) = sent @ (Shared, rq) # hops"
    "length hops \<le> 10" "hops_ok c (rq_url rq) rq hops"
  using send_loop_trace [of 10 E L c "rq_url rq" Shared rq sent] unfolding send_upstream_request_def by blast

lemma contains_append: "hdr_contains (a @ b) n \<longleftrightarrow> hdr_contains a n \<or> hdr_contains b n"
  by (simp add: hdr_contains_def)

lemma lower_names: "to_ascii_lowercase ''authorization'' = ''authorization''" "to_ascii_lowercase ''cookie'' = ''cookie''"
  "to_ascii_lowercase ''proxy-authorization'' = ''proxy-authorization''" "to_ascii_lowercase ''host'' = ''host''"
  by code_simp+

lemma forwarded_filtered:
  assumes "n \<in> {''authorization'', ''cookie'', ''proxy-authorization'', ''host''}"
  shows "\<not> hdr_contains (filter (\<lambda>(n, _). should_forward_request_header n) h) n"
  using assms lower_names by (auto simp: hdr_contains_iff should_forward_request_header_def)

section \<open>Properties\<close>

text \<open>C2: Redirects cannot be used to reach what the operator did not configure.  Sending a
  request issues at most ten redirected requests; each of them is HTTP or HTTPS and never
  leaves HTTPS, carries no credentials in its URL, and goes over a connection pinned to
  addresses that are all public, or to the one address that the operator configured as a
  literal; with an outbound proxy none leaves the configured origin.\<close>

theorem redirects_are_confined:
  "\<exists>hops. snd (send_upstream_request E L c rq sent) = sent @ (Shared, rq) # hops \<and> length hops \<le> 10 \<and>
     (\<forall>i < length hops.
        let previous = (rq # map snd hops) ! i; pin = fst (hops ! i); r = snd (hops ! i) in
        u_scheme (rq_url r) \<in> {''http'', ''https''} \<and>
        (u_scheme (rq_url previous) = ''https'' \<longrightarrow> u_scheme (rq_url r) = ''https'') \<and>
        u_username (rq_url r) = [] \<and> u_password (rq_url r) = None \<and>
        (\<exists>host as. u_host (rq_url r) = Some host \<and> pin = Pinned host as \<and> as \<noteq> [] \<and>
           ((\<forall>a \<in> set as. is_public_address (fst a)) \<or>
            (url_origin (rq_url r) = url_origin (rq_url rq) \<and> parse_ip host = Some (fst (hd as)) \<and> length as = 1))) \<and>
        (opc_enabled (cfg_outbound_proxy c) \<longrightarrow> url_origin (rq_url r) = url_origin (rq_url rq)))"
proof (rule trace_of_send [of E L c rq sent])
  fix hops assume h: "snd (send_upstream_request E L c rq sent) = sent @ (Shared, rq) # hops" "length hops \<le> 10"
    "hops_ok c (rq_url rq) rq hops"
  show ?thesis
    using h(1,2) hops_ok_nth [OF h(3), unfolded hop_ok_def] unfolding Let_def by (intro exI [of _ hops]) blast
qed

definition redirecting_network :: egress where
  "redirecting_network =
     \<lparr>eg_exec = (\<lambda>sent cl rq. if sent = [] then Some \<lparr>ur_status = 302,
          ur_headers = [(''location'', ''https://mirror.example/x'')], ur_body = Some []\<rparr>
        else Some \<lparr>ur_status = 200, ur_headers = [], ur_body = Some ''ok''\<rparr>),
      eg_lookup = (\<lambda>_ p. Some [(V4 0x08080808, p)]), eg_client_ok = True, eg_basic = (\<lambda>u p. ''Basic ''), eg_trace_headers = []\<rparr>"

definition sample_request :: request where
  "sample_request =
     \<lparr>rq_method = GET, rq_url = plain_url ''https'' ''files.example'' ''/x'',
      rq_headers = [(''authorization'', ''Bearer t''), (''accept'', ''a'')], rq_body = NoBody\<rparr>"

theorem redirects_are_confined_witness:
  "\<exists>hops. snd (send_upstream_request redirecting_network plain_url_lib Config_default sample_request []) =
      [] @ (Shared, sample_request) # hops \<and> length hops \<le> 10"
  using redirects_are_confined [of redirecting_network plain_url_lib Config_default sample_request "[]"] by blast

text \<open>C3: Credentials stay with the origin they were meant for: of all the requests that one
  upstream request leads to, only those to the origin of the first carry an
  \<open>Authorization\<close>, \<open>Cookie\<close> or \<open>Proxy-Authorization\<close> header, and a chain of redirects that
  has left the origin does not get them back by returning.\<close>

theorem credentials_never_cross_origin:
  assumes "snd (send_upstream_request E L c rq sent) = sent @ issued" and "(pin, r) \<in> set issued"
    and "hdr_contains (rq_headers r) n" and "n \<in> {''authorization'', ''cookie'', ''proxy-authorization''}"
  shows "url_origin (rq_url r) = url_origin (rq_url rq)"
proof (rule trace_of_send [of E L c rq sent])
  fix hops assume h: "snd (send_upstream_request E L c rq sent) = sent @ (Shared, rq) # hops"
    "hops_ok c (rq_url rq) rq hops"
  from assms(3,4) have "\<not> secret_free (rq_headers r)" by (auto simp: secret_free_def sensitive_def)
  moreover have "issued = (Shared, rq) # hops" using assms(1) h(1) by simp
  ultimately show ?thesis using hops_ok_secrets [OF h(2)] assms(2) by auto
qed

theorem credentials_never_cross_origin_witness:
  "url_origin (rq_url sample_request) = (''https'', Some ''files.example'', Some 443)"
proof -
  obtain hops where h: "snd (send_upstream_request redirecting_network plain_url_lib Config_default sample_request [])
      = [] @ (Shared, sample_request) # hops"
    by (rule trace_of_send)
  have "hdr_contains (rq_headers sample_request) ''authorization''" by code_simp
  from credentials_never_cross_origin [OF h _ this]
  have "url_origin (rq_url sample_request) = url_origin (rq_url sample_request)" by simp
  then show ?thesis by (simp add: sample_request_def url_origin_def plain_url_def)
qed

text \<open>A client's secrets are not handed to upstreams: the request built for an upstream has
  no \<open>Cookie\<close>, \<open>Proxy-Authorization\<close> or \<open>Host\<close> header of the client, and an
  \<open>Authorization\<close> header only if the operator configured credentials for that origin, then
  these, or enabled forwarding, then the client's own.\<close>

theorem client_secrets_not_forwarded:
  assumes "fst ` set (eg_trace_headers E) \<subseteq> {''traceparent'', ''tracestate'', ''baggage''}"
    and "upstream_request E L c method url incoming = Some rq"
  shows "rq_url rq = url \<and> rq_method rq = method \<and>
     (\<forall>n \<in> {''cookie'', ''proxy-authorization'', ''host''}. \<not> hdr_contains (rq_headers rq) n) \<and>
     hdr_get_all (rq_headers rq) ''authorization'' =
       (case upstream_auth_for L c url of
          Some a \<Rightarrow> (case ua_bearer_token a of
                       Some token \<Rightarrow> [''Bearer '' @ token]
                     | None \<Rightarrow> [eg_basic E (the (ua_username a)) (the (ua_password a))])
        | None \<Rightarrow> if cfg_forward_client_authorization c
                  then (case hdr_get incoming ''authorization'' of Some v \<Rightarrow> [v] | None \<Rightarrow> []) else [])"
proof -
  let ?h0 = "filter (\<lambda>(n, _). should_forward_request_header n) incoming"
  let ?h1 = "replace_headers (eg_trace_headers E) ?h0"
  have h1: "\<not> hdr_contains ?h1 n" if "n \<in> {''authorization'', ''cookie'', ''proxy-authorization'', ''host''}" for n
  proof -
    have "\<not> hdr_contains (filter P ?h0) n" for P
      using forwarded_filtered [OF that, of incoming] by (auto simp: hdr_contains_iff)
    moreover have "\<not> hdr_contains (eg_trace_headers E) n"
      using assms(1) that lower_names by (fastforce simp: hdr_contains_iff)
    ultimately show ?thesis by (simp add: replace_headers_def contains_append)
  qed
  then have auth: "hdr_get_all ?h1 ''authorization'' = []" by (simp add: hdr_contains_def)
  have other: "\<not> hdr_contains (hdr_append ''authorization'' v ?h1) n" if "n \<in> {''cookie'', ''proxy-authorization'', ''host''}" for n v
    using h1 [of n] that lower_names by (auto simp: hdr_append_def hdr_contains_iff)
  have get: "hdr_get_all (hdr_append ''authorization'' v ?h1) ''authorization'' = [v]" for v
    by (simp add: hdr_append_def hdr_get_all_Cons auth)
  let ?expected = "case upstream_auth_for L c url of
      Some a \<Rightarrow> (case ua_bearer_token a of Some token \<Rightarrow> [''Bearer '' @ token]
                   | None \<Rightarrow> [eg_basic E (the (ua_username a)) (the (ua_password a))])
    | None \<Rightarrow> if cfg_forward_client_authorization c
              then (case hdr_get incoming ''authorization'' of Some v \<Rightarrow> [v] | None \<Rightarrow> []) else []"
  have "(rq = \<lparr>rq_method = method, rq_url = url, rq_headers = ?h1, rq_body = NoBody\<rparr> \<and> ?expected = []) \<or>
    (\<exists>v. rq = \<lparr>rq_method = method, rq_url = url, rq_headers = hdr_append ''authorization'' v ?h1, rq_body = NoBody\<rparr> \<and>
       ?expected = [v])"
  proof (cases "upstream_auth_for L c url")
    case None
    with assms(2) show ?thesis
      by (cases "hdr_get incoming ''authorization''") (auto simp: upstream_request_def Let_def split: if_splits)
  next
    case (Some a)
    with assms(2) show ?thesis
      by (cases "ua_username a"; cases "ua_password a"; cases "ua_bearer_token a") (simp_all add: upstream_request_def Let_def)
  qed
  then show ?thesis
  proof (elim disjE exE conjE)
    assume "rq = \<lparr>rq_method = method, rq_url = url, rq_headers = ?h1, rq_body = NoBody\<rparr>" "?expected = []"
    then show ?thesis using h1 auth by simp
  next
    fix v assume "rq = \<lparr>rq_method = method, rq_url = url, rq_headers = hdr_append ''authorization'' v ?h1, rq_body = NoBody\<rparr>"
      "?expected = [v]"
    then show ?thesis using other get by simp
  qed
qed

end
