(* ===== verification/Forwarding.thy ===== *)
theory Forwarding
  imports Disk_Cache Upstream_Selection Egress
begin

text \<open>
  The forwarding engine (\<open>crates/server/src/proxy/mod.rs\<close>: \<open>forward\<close>, \<open>forward_with_body\<close>,
  \<open>forward_request\<close>, \<open>get_with_fallback\<close>).  It ranks the candidates of a request, and for
  each in turn consults the cache, sends the request, revalidates or stores the response,
  informs the selector, and goes on to the next candidate when the upstream failed.

  The two loops share the contract of the locale \<open>failover\<close>, which both interpret.  The
  result \<open>None\<close> stands for the panics of the source (\<open>unreachable!\<close>); the clock is a function
  of the requests sent so far.
\<close>

section \<open>Failover loops\<close>

datatype ('r, 's) attempt_result = Done 'r 's | Continue 's | Panic

text \<open>A loop over candidates: \<open>step others c s\<close> tries one of them, \<open>others\<close> telling whether
  another follows, and only then may it go on.\<close>

locale failover =
  fixes step :: "bool \<Rightarrow> 'c \<Rightarrow> 's \<Rightarrow> ('r, 's) attempt_result"
    and loop :: "'c list \<Rightarrow> 's \<Rightarrow> 'r option \<times> 's"
  assumes loop_Nil: "loop [] s = (None, s)"
    and loop_Cons: "loop (c # cs) s = (case step (cs \<noteq> []) c s of
          Done r s' \<Rightarrow> (Some r, s')
        | Continue s' \<Rightarrow> loop cs s'
        | Panic \<Rightarrow> (None, s))"
    and last_done: "step False c s \<noteq> Continue s'"
begin

text \<open>The candidates passed over, from one state to the next.\<close>

inductive passed :: "'c list \<Rightarrow> 's \<Rightarrow> 's \<Rightarrow> bool" where
  none: "passed [] s s"
| one: "step True c s = Continue s' \<Longrightarrow> passed cs s' s'' \<Longrightarrow> passed (c # cs) s s''"

lemma loop_outcome:
  assumes "cs \<noteq> []"
  shows "\<exists>pre c post s'. cs = pre @ c # post \<and> passed pre s s' \<and>
     ((\<exists>r s''. step (post \<noteq> []) c s' = Done r s'' \<and> loop cs s = (Some r, s'')) \<or>
      (step (post \<noteq> []) c s' = Panic \<and> loop cs s = (None, s')))"
  using assms
proof (induction cs arbitrary: s)
  case (Cons c cs)
  show ?case
  proof (cases "step (cs \<noteq> []) c s")
    case (Done r s')
    then show ?thesis
      by (intro exI [of _ "[]"] exI [of _ c] exI [of _ cs] exI [of _ s]) (auto simp: loop_Cons intro: passed.none)
  next
    case (Continue s')
    then have ne: "cs \<noteq> []" using last_done by (metis (full_types))
    from Cons.IH [OF ne, of s'] obtain pre d post t where
      *: "cs = pre @ d # post" "passed pre s' t"
         "(\<exists>r s''. step (post \<noteq> []) d t = Done r s'' \<and> loop cs s' = (Some r, s'')) \<or>
          (step (post \<noteq> []) d t = Panic \<and> loop cs s' = (None, t))" by blast
    have "passed (c # pre) s t" using Continue ne *(2) by (intro passed.one) auto
    moreover have "loop (c # cs) s = loop cs s'" using Continue by (simp add: loop_Cons)
    ultimately show ?thesis using *(1,3)
      by (intro exI [of _ "c # pre"] exI [of _ d] exI [of _ post] exI [of _ t]) simp
  next
    case Panic
    then show ?thesis
      by (intro exI [of _ "[]"] exI [of _ c] exI [of _ cs] exI [of _ s]) (auto simp: loop_Cons intro: passed.none)
  qed
qed simp

lemma loop_total:
  assumes "cs \<noteq> []" and "\<And>m c s. c \<in> set cs \<Longrightarrow> step m c s \<noteq> Panic"
  shows "\<exists>r s'. loop cs s = (Some r, s')"
proof -
  from loop_outcome [OF assms(1), of s] obtain pre c post s' where c: "cs = pre @ c # post"
    and o: "(\<exists>r s''. step (post \<noteq> []) c s' = Done r s'' \<and> loop cs s = (Some r, s'')) \<or>
      (step (post \<noteq> []) c s' = Panic \<and> loop cs s = (None, s'))" by blast
  from c have "c \<in> set cs" by simp
  from assms(2) [OF this, of "post \<noteq> []" s'] o show ?thesis by blast
qed

lemma passed_inv:
  assumes "passed cs s s'" "I s" "\<And>c s s'. c \<in> set cs \<Longrightarrow> I s \<Longrightarrow> step True c s = Continue s' \<Longrightarrow> I s'"
  shows "I s'"
  using assms by (induction rule: passed.induct) auto

end

section \<open>Environment and state\<close>

record environment =
  en_egress :: egress
  en_urls :: url_lib
  en_rnd :: rounding
  en_io :: io
  en_sha :: "string \<Rightarrow> string"
  en_codec :: codec
  en_clock :: "sent \<Rightarrow> clock"
  en_utc :: "sent \<Rightarrow> int"
  en_elapsed :: "sent \<Rightarrow> nat"

record proxy_state =
  px_selector :: SelectorState
  px_disk :: disk
  px_sent :: sent

definition note_failure :: "environment \<Rightarrow> config \<Rightarrow> url \<Rightarrow> proxy_state \<Rightarrow> proxy_state" where
  "note_failure V c candidate st =
     st\<lparr>px_selector := record_failure (en_urls V) (ck_instant (en_clock V (px_sent st))) candidate
          (cfg_upstream_selection c) (px_selector st)\<rparr>"

definition note_success :: "environment \<Rightarrow> url \<Rightarrow> proxy_state \<Rightarrow> proxy_state" where
  "note_success V candidate st =
     st\<lparr>px_selector := record_success (en_urls V) (en_rnd V) (ck_instant (en_clock V (px_sent st))) candidate
          (en_elapsed V (px_sent st)) (px_selector st)\<rparr>"

section \<open>forward_request\<close>

definition cache_lookup ::
  "environment \<Rightarrow> config \<Rightarrow> http_method \<Rightarrow> header_map \<Rightarrow> url \<Rightarrow> proxy_state \<Rightarrow> DiskCacheEntry option \<times> proxy_state" where
  "cache_lookup V c method incoming candidate st =
     (if cacheable_request method incoming \<and> cc_enabled (cfg_cache c)
      then (let (e, d) = load_disk_cache (en_io V) (en_sha V) (en_codec V) (en_clock V (px_sent st)) (cfg_cache c)
                           candidate incoming (px_disk st)
            in (e, st\<lparr>px_disk := d\<rparr>))
      else (None, st))"

definition with_validators :: "DiskCacheEntry option \<Rightarrow> request \<Rightarrow> request" where
  "with_validators cached rq =
     (case cached of
        None \<Rightarrow> rq
      | Some entry \<Rightarrow>
          (let h1 = (case cached_header (de_metadata entry) ''etag'' of
                       Some value \<Rightarrow> hdr_append ''if-none-match'' value (rq_headers rq) | None \<Rightarrow> rq_headers rq);
               h2 = (case cached_header (de_metadata entry) ''last-modified'' of
                       Some value \<Rightarrow> hdr_append ''if-modified-since'' value h1 | None \<Rightarrow> h1)
           in rq\<lparr>rq_headers := h2\<rparr>))"

definition revalidated ::
  "environment \<Rightarrow> config \<Rightarrow> url \<Rightarrow> DiskCacheEntry \<Rightarrow> upstream_response \<Rightarrow> proxy_state \<Rightarrow>
     (ProxyError + response, proxy_state) attempt_result" where
  "revalidated V c candidate entry upstream st =
     (let (m, d) = refresh_cache_metadata (en_io V) (en_sha V) (en_codec V) (en_clock V (px_sent st)) (cfg_cache c)
                     candidate (de_metadata entry) (ur_headers upstream) (px_disk st);
          st' = note_success V candidate (st\<lparr>px_disk := d\<rparr>)
      in Done (cached_response (ck_unix (en_clock V (px_sent st))) ''REVALIDATED'' (entry\<lparr>de_metadata := m\<rparr>)) st')"

definition cacheable_response :: "config \<Rightarrow> http_method \<Rightarrow> header_map \<Rightarrow> upstream_response \<Rightarrow> bool" where
  "cacheable_response c method incoming upstream \<longleftrightarrow>
     cacheable_request method incoming \<and> cc_enabled (cfg_cache c) \<and> ur_status upstream = 200
     \<and> is_some_and (\<lambda>n. n \<le> max_cache_entry_bytes (cfg_cache c))
         (Option.bind (hdr_str (ur_headers upstream) ''content-length'') (parse_uint U64_MAX))"

definition deliver ::
  "environment \<Rightarrow> config \<Rightarrow> http_method \<Rightarrow> header_map \<Rightarrow> url \<Rightarrow> upstream_response \<Rightarrow> proxy_state \<Rightarrow>
     (ProxyError + response, proxy_state) attempt_result" where
  "deliver V c method incoming candidate upstream st =
     (let st1 = (if should_failover_status (ur_status upstream) then note_failure V c candidate st
                 else note_success V candidate st)
      in if cacheable_response c method incoming upstream
         then (case ur_body upstream of
                 None \<Rightarrow> Done (Inl Upstream) st1
               | Some body \<Rightarrow>
                   (let d = write_disk_cache (en_io V) (en_sha V) (en_codec V) (en_clock V (px_sent st1)) (cfg_cache c)
                              candidate incoming (ur_status upstream) (ur_headers upstream) body (px_disk st1)
                    in Done (Inr (response_with_headers (ur_status upstream) (ur_headers upstream) body)) (st1\<lparr>px_disk := d\<rparr>)))
         else Done (Inr (response_with_headers (ur_status upstream) (ur_headers upstream)
                           (unwrap_or [] (ur_body upstream)))) st1)"

definition forward_step ::
  "environment \<Rightarrow> config \<Rightarrow> http_method \<Rightarrow> header_map \<Rightarrow> request_body \<Rightarrow> bool \<Rightarrow> url \<Rightarrow> proxy_state \<Rightarrow>
     (ProxyError + response, proxy_state) attempt_result" where
  "forward_step V c method incoming body others candidate st =
     (let (cached, st1) = cache_lookup V c method incoming candidate st
      in if is_some_and (\<lambda>entry. dm_expires_at (de_metadata entry) > ck_unix (en_clock V (px_sent st))) cached
         then Done (cached_response (ck_unix (en_clock V (px_sent st))) ''HIT'' (the cached)) st1
         else case upstream_request (en_egress V) (en_urls V) c method candidate incoming of
           None \<Rightarrow> Panic
         | Some rq \<Rightarrow>
             (let rq1 = (with_validators cached rq)\<lparr>rq_body := body\<rparr>;
                  (sent_result, sent') = send_upstream_request (en_egress V) (en_urls V) c rq1 (px_sent st1);
                  st2 = st1\<lparr>px_sent := sent'\<rparr>
              in case sent_result of
                   Inl err \<Rightarrow>
                     if others then Continue (note_failure V c candidate st2)
                     else Done (Inl err) (note_failure V c candidate st2)
                 | Inr upstream \<Rightarrow>
                     if ur_status upstream = 304 \<and> cached \<noteq> None
                     then revalidated V c candidate (the cached) upstream st2
                     else if should_failover_status (ur_status upstream) \<and> others
                     then Continue (note_failure V c candidate st2)
                     else deliver V c method incoming candidate upstream st2))"

fun forward_loop ::
  "environment \<Rightarrow> config \<Rightarrow> http_method \<Rightarrow> header_map \<Rightarrow> request_body \<Rightarrow> url list \<Rightarrow> proxy_state \<Rightarrow>
     (ProxyError + response) option \<times> proxy_state" where
  "forward_loop V c method incoming body [] st = (None, st)"
| "forward_loop V c method incoming body (candidate # rest) st =
     (case forward_step V c method incoming body (rest \<noteq> []) candidate st of
        Done r st' \<Rightarrow> (Some r, st')
      | Continue st' \<Rightarrow> forward_loop V c method incoming body rest st'
      | Panic \<Rightarrow> (None, st))"

definition rank_candidates :: "environment \<Rightarrow> config \<Rightarrow> url \<Rightarrow> proxy_state \<Rightarrow> url list \<times> proxy_state" where
  "rank_candidates V c url st =
     (let (cs, sel) = selector_rank (en_urls V) (en_rnd V) (ck_instant (en_clock V (px_sent st))) (en_utc V (px_sent st))
                        (upstream_candidates_for (en_urls V) c url) (cfg_upstream_selection c) (px_selector st)
      in (cs, st\<lparr>px_selector := sel\<rparr>))"

definition forward_request ::
  "environment \<Rightarrow> config \<Rightarrow> http_method \<Rightarrow> url \<Rightarrow> header_map \<Rightarrow> request_body \<Rightarrow> proxy_state \<Rightarrow>
     (ProxyError + response) option \<times> proxy_state" where
  "forward_request V c method url incoming body st =
     (let (candidates, st') = (if body \<noteq> NoBody then ([url], st) else rank_candidates V c url st)
      in forward_loop V c method incoming body candidates st')"

definition forward ::
  "environment \<Rightarrow> config \<Rightarrow> http_method \<Rightarrow> url \<Rightarrow> header_map \<Rightarrow> proxy_state \<Rightarrow> (ProxyError + response) option \<times> proxy_state" where
  "forward V c method url incoming st =
     (if method \<noteq> GET \<and> method \<noteq> HEAD then (Some (Inl MethodNotAllowed), st)
      else forward_request V c method url incoming NoBody st)"

definition forward_with_body ::
  "environment \<Rightarrow> config \<Rightarrow> http_method \<Rightarrow> url \<Rightarrow> header_map \<Rightarrow> string \<Rightarrow> proxy_state \<Rightarrow>
     (ProxyError + response) option \<times> proxy_state" where
  "forward_with_body V c method url incoming body st =
     (if method \<noteq> POST then (Some (Inl MethodNotAllowed), st)
      else forward_request V c method url incoming (Stream body) st)"

section \<open>get_with_fallback\<close>

definition fallback_step ::
  "environment \<Rightarrow> config \<Rightarrow> bool \<Rightarrow> url \<Rightarrow> proxy_state \<Rightarrow> (ProxyError + upstream_response, proxy_state) attempt_result" where
  "fallback_step V c others candidate st =
     (case upstream_request (en_egress V) (en_urls V) c GET candidate [] of
        None \<Rightarrow> Panic
      | Some rq \<Rightarrow>
          (let (sent_result, sent') = send_upstream_request (en_egress V) (en_urls V) c rq (px_sent st);
               st2 = st\<lparr>px_sent := sent'\<rparr>
           in case sent_result of
                Inl err \<Rightarrow>
                  if others then Continue (note_failure V c candidate st2)
                  else Done (Inl err) (note_failure V c candidate st2)
              | Inr response \<Rightarrow>
                  if should_failover_status (ur_status response) \<and> others
                  then Continue (note_failure V c candidate st2)
                  else if should_failover_status (ur_status response)
                  then Done (Inr response) (note_failure V c candidate st2)
                  else Done (Inr response) (note_success V candidate st2)))"

fun fallback_loop ::
  "environment \<Rightarrow> config \<Rightarrow> url list \<Rightarrow> proxy_state \<Rightarrow> (ProxyError + upstream_response) option \<times> proxy_state" where
  "fallback_loop V c [] st = (None, st)"
| "fallback_loop V c (candidate # rest) st =
     (case fallback_step V c (rest \<noteq> []) candidate st of
        Done r st' \<Rightarrow> (Some r, st')
      | Continue st' \<Rightarrow> fallback_loop V c rest st'
      | Panic \<Rightarrow> (None, st))"

definition get_with_fallback ::
  "environment \<Rightarrow> config \<Rightarrow> url \<Rightarrow> proxy_state \<Rightarrow> (ProxyError + upstream_response) option \<times> proxy_state" where
  "get_with_fallback V c url st =
     (let (candidates, st') = rank_candidates V c url st
      in fallback_loop V c candidates st')"

section \<open>Both loops are failover loops\<close>

lemma deliver_answers [simp]:
  "deliver V c method incoming candidate upstream st \<noteq> Continue s"
  "deliver V c method incoming candidate upstream st \<noteq> Panic"
  by (simp_all add: deliver_def Let_def split: option.splits)

lemma revalidated_answers [simp]:
  "revalidated V c candidate entry upstream st \<noteq> Continue s"
  "revalidated V c candidate entry upstream st \<noteq> Panic"
  by (simp_all add: revalidated_def Let_def case_prod_beta)

lemma forward_step_last: "forward_step V c method incoming body False candidate st \<noteq> Continue st'"
  by (simp add: forward_step_def Let_def case_prod_beta split: option.splits sum.splits)

lemma fallback_step_last: "fallback_step V c False candidate st \<noteq> Continue st'"
  by (auto simp: fallback_step_def Let_def case_prod_beta split: option.splits sum.splits)

interpretation fwd: failover "forward_step V c meth incoming body" "forward_loop V c meth incoming body"
  for V c meth incoming body
  by unfold_locales (simp_all add: forward_step_last)

interpretation fbk: failover "fallback_step V c" "fallback_loop V c"
  for V c
  by unfold_locales (simp_all add: fallback_step_last)

section \<open>Lemmas\<close>

lemma upstream_request_total: "upstream_auth_valid c \<Longrightarrow> upstream_request E L c method url incoming \<noteq> None"
proof -
  assume v: "upstream_auth_valid c"
  have "auth_entry_ok a" if "upstream_auth_for L c url = Some a" for a
  proof -
    from find_map_Some [OF that [unfolded upstream_auth_for_def]]
    obtain name where "(name, a) \<in> set (cfg_upstream_auth c)" by (auto split: option.splits if_splits)
    with v show ?thesis by (auto simp: upstream_auth_valid_def list_all_iff)
  qed
  then show ?thesis
    by (auto simp: upstream_request_def Let_def auth_entry_shape split: option.splits)
qed

lemma forward_step_total: "upstream_auth_valid c \<Longrightarrow> forward_step V c method incoming body others candidate st \<noteq> Panic"
  using upstream_request_total [of c "en_egress V" "en_urls V" "method" candidate incoming]
  by (auto simp: forward_step_def Let_def case_prod_beta split: option.splits sum.splits)

lemma selector_rank_mset: "mset (fst (selector_rank L rnd now utc cs cfg s)) = mset cs"
proof -
  have "mset (map snd (ranked_candidates L rnd cs s' cfg now)) = mset cs" for s'
    by (metis map_snd_enumerate mset_map ranked_mset)
  then show ?thesis by (simp add: selector_rank_def Let_def del: mset_map)
qed

lemma ranked_nonempty: "fst (rank_candidates V c url st) \<noteq> []"
proof -
  have "mset (fst (rank_candidates V c url st)) = mset (upstream_candidates_for (en_urls V) c url)"
    by (simp add: rank_candidates_def Let_def case_prod_beta selector_rank_mset)
  then show ?thesis using candidates_nonempty [of "en_urls V" c url] by auto
qed

text \<open>The first request of each attempt, as opposed to the redirects that follow it.\<close>

definition initial_targets :: "sent \<Rightarrow> url list" where
  "initial_targets sent = map (\<lambda>(_, rq). rq_url rq) (filter (\<lambda>(cl, _). cl = Shared) sent)"

lemma initial_targets_append [simp]: "initial_targets (a @ b) = initial_targets a @ initial_targets b"
  by (simp add: initial_targets_def)

lemma hops_not_initial: "hops_ok c original rq hops \<Longrightarrow> initial_targets hops = []"
  by (induction c original rq hops rule: hops_ok.induct) (auto simp: initial_targets_def hop_ok_def)

lemma send_initial_targets:
  "initial_targets (snd (send_upstream_request E L c rq sent)) = initial_targets sent @ [rq_url rq]"
  by (rule trace_of_send [of E L c rq sent]) (simp add: hops_not_initial, simp add: initial_targets_def hops_not_initial [unfolded initial_targets_def])

lemma upstream_request_url: "upstream_request E L c method url incoming = Some rq \<Longrightarrow> rq_url rq = url"
  by (auto simp: upstream_request_def Let_def split: option.splits if_splits)

lemma with_validators_url [simp]: "rq_url (with_validators cached rq) = rq_url rq"
  by (simp add: with_validators_def Let_def split: option.splits)

lemma cache_lookup_sent [simp]: "px_sent (snd (cache_lookup V c method incoming candidate st)) = px_sent st"
  by (simp add: cache_lookup_def Let_def case_prod_beta)

lemma note_sent [simp]: "px_sent (note_failure V c candidate st) = px_sent st" "px_sent (note_success V candidate st) = px_sent st"
  by (simp_all add: note_failure_def note_success_def)

lemma deliver_sent: "deliver V c method incoming candidate upstream st = Done r s \<Longrightarrow> px_sent s = px_sent st"
  by (auto simp: deliver_def Let_def split: option.splits if_splits)

lemma revalidated_sent: "revalidated V c candidate entry upstream st = Done r s \<Longrightarrow> px_sent s = px_sent st"
  by (auto simp: revalidated_def Let_def case_prod_beta)

text \<open>One attempt contacts its candidate once, or not at all when the cache answers.\<close>

lemma forward_step_targets:
  "forward_step V c method incoming body others candidate st = Continue st' \<Longrightarrow>
     initial_targets (px_sent st') = initial_targets (px_sent st) @ [candidate]"
  "forward_step V c method incoming body others candidate st = Done r st' \<Longrightarrow>
     initial_targets (px_sent st') = initial_targets (px_sent st) @ [candidate] \<or> px_sent st' = px_sent st"
  by (auto simp: forward_step_def Let_def case_prod_beta send_initial_targets dest!: upstream_request_url
      deliver_sent revalidated_sent split: option.splits sum.splits if_splits)

lemma forward_step_panic_sent: "fwd.passed V c method incoming body pre st st' \<Longrightarrow>
    initial_targets (px_sent st') = initial_targets (px_sent st) @ pre"
  by (induction rule: fwd.passed.induct) (simp_all add: forward_step_targets(1))


lemma rank_candidates_sent [simp]: "px_sent (snd (rank_candidates V c url st)) = px_sent st"
  by (simp add: rank_candidates_def Let_def case_prod_beta)

lemma forward_step_unsafe:
  "forward_step V c method incoming body others candidate st = Done (Inl UnsafeRedirect) st' \<Longrightarrow> \<not> others"
  by (auto simp: forward_step_def deliver_def revalidated_def cached_response_def Let_def case_prod_beta
      split: option.splits sum.splits if_splits)

section \<open>Properties\<close>

text \<open>C39: Every request is answered: with validated credentials the forwarding engine returns
  a response or an error for every request, whatever the network, the cache and the selector
  do; its \<open>unreachable!\<close> branches are unreachable.\<close>

theorem forward_always_answers:
  assumes "upstream_auth_valid c"
  shows "\<exists>r st'. forward_request V c method url incoming body st = (Some r, st')"
proof -
  have "\<exists>r st'. forward_loop V c method incoming body cs s = (Some r, st')" if "cs \<noteq> []" for cs s
    using fwd.loop_total [OF that forward_step_total [OF assms]] .
  then show ?thesis using ranked_nonempty [of V c url st]
    by (simp add: forward_request_def Let_def case_prod_beta)
qed

definition offline :: environment where
  "offline = \<lparr>en_egress = redirecting_network\<lparr>eg_exec := (\<lambda>_ _ _. None)\<rparr>, en_urls = plain_url_lib, en_rnd = (\<lambda>x. x),
     en_io = (\<lambda>_. True), en_sha = sample_sha, en_codec = sample_codec, en_clock = (\<lambda>_. sample_clock),
     en_utc = (\<lambda>_. 0), en_elapsed = (\<lambda>_. 0)\<rparr>"

definition fresh_state :: proxy_state where
  "fresh_state = \<lparr>px_selector = SelectorState_default, px_disk = empty_disk, px_sent = []\<rparr>"

theorem forward_always_answers_witness:
  "\<exists>r st'. forward_request offline Config_default GET (plain_url ''https'' ''pypi.org'' ''/simple/x/'') [] NoBody fresh_state
     = (Some r, st')"
  by (rule forward_always_answers) (simp add: upstream_auth_valid_def Config_default_def)

text \<open>C4: Failover follows the ranking: the requests that open an attempt go to a prefix of the
  ranked candidates, in order and each at most once, so no candidate is contacted twice and
  none is skipped; a refused redirect is reported only after all of them have been tried.\<close>

theorem failover_follows_ranking:
  assumes "forward_request V c method url incoming NoBody st = (r, st')"
  shows "\<exists>k \<le> length (fst (rank_candidates V c url st)).
     initial_targets (px_sent st') = initial_targets (px_sent st) @ take k (fst (rank_candidates V c url st)) \<and>
     (r = Some (Inl UnsafeRedirect) \<longrightarrow> k = length (fst (rank_candidates V c url st)))"
proof -
  let ?cs = "fst (rank_candidates V c url st)" and ?s = "snd (rank_candidates V c url st)"
  have l: "forward_loop V c method incoming NoBody ?cs ?s = (r, st')"
    using assms by (simp add: forward_request_def Let_def case_prod_beta)
  from fwd.loop_outcome [OF ranked_nonempty, where V = V and c = c and meth = "method" and incoming = incoming
      and body = NoBody and s = ?s, of V c url st]
  obtain pre x post s' where cs: "?cs = pre @ x # post" and p: "fwd.passed V c method incoming NoBody pre ?s s'"
    and o: "(\<exists>r' s''. forward_step V c method incoming NoBody (post \<noteq> []) x s' = Done r' s'' \<and> (r, st') = (Some r', s'')) \<or>
      (forward_step V c method incoming NoBody (post \<noteq> []) x s' = Panic \<and> (r, st') = (None, s'))"
    unfolding l by blast
  have pre: "initial_targets (px_sent s') = initial_targets (px_sent st) @ pre"
    using forward_step_panic_sent [OF p] by simp
  show ?thesis
  proof (cases "initial_targets (px_sent st') = initial_targets (px_sent s') @ [x]")
    case True
    have "r = Some (Inl UnsafeRedirect) \<longrightarrow> post = []" using o forward_step_unsafe by blast
    with True pre show ?thesis by (intro exI [of _ "Suc (length pre)"]) (simp add: cs)
  next
    case False
    then have same: "px_sent st' = px_sent s'" using o forward_step_targets(2) by blast
    have "r \<noteq> Some (Inl UnsafeRedirect)"
    proof
      assume "r = Some (Inl UnsafeRedirect)"
      with o have d: "forward_step V c method incoming NoBody (post \<noteq> []) x s' = Done (Inl UnsafeRedirect) st'" by auto
      then have "initial_targets (px_sent st') = initial_targets (px_sent s') @ [x]"
        by (auto simp: forward_step_def deliver_def revalidated_def cached_response_def Let_def case_prod_beta
            send_initial_targets dest!: upstream_request_url split: option.splits sum.splits if_splits)
      with False show False ..
    qed
    with same pre show ?thesis by (intro exI [of _ "length pre"]) (simp add: cs)
  qed
qed

theorem failover_follows_ranking_witness:
  "\<exists>r st' k. forward_request offline Config_default GET (plain_url ''https'' ''pypi.org'' ''/simple/x/'') [] NoBody fresh_state = (r, st') \<and>
     initial_targets (px_sent st') =
       take k (fst (rank_candidates offline Config_default (plain_url ''https'' ''pypi.org'' ''/simple/x/'') fresh_state))"
proof -
  obtain r st' where f: "forward_request offline Config_default GET (plain_url ''https'' ''pypi.org'' ''/simple/x/'') [] NoBody fresh_state = (r, st')"
    by (cases "forward_request offline Config_default GET (plain_url ''https'' ''pypi.org'' ''/simple/x/'') [] NoBody fresh_state")
  from failover_follows_ranking [OF f] f show ?thesis by (auto simp: fresh_state_def initial_targets_def)
qed

text \<open>A fresh cache entry answers without the network: when the first candidate has an
  unexpired entry for this variant, the response is the stored one, marked as a hit, and no
  request is sent.\<close>

theorem fresh_entry_answers_alone:
  assumes "cacheable_request method incoming" and "cc_enabled (cfg_cache c)"
    and "fst (rank_candidates V c url st) = candidate # rest"
    and "fst (load_disk_cache (en_io V) (en_sha V) (en_codec V) (en_clock V (px_sent st)) (cfg_cache c) candidate incoming (px_disk st)) = Some entry"
    and "ck_unix (en_clock V (px_sent st)) < dm_expires_at (de_metadata entry)"
  shows "fst (forward V c method url incoming st) =
      Some (cached_response (ck_unix (en_clock V (px_sent st))) ''HIT'' entry) \<and>
    px_sent (snd (forward V c method url incoming st)) = px_sent st"
proof -
  have d: "px_disk (snd (rank_candidates V c url st)) = px_disk st"
    by (simp add: rank_candidates_def Let_def case_prod_beta)
  have m: "method = GET" using assms(1) by (simp add: cacheable_request_def)
  show ?thesis
    using assms by (simp add: forward_def m forward_request_def Let_def case_prod_beta forward_step_def cache_lookup_def
        d is_some_and_def)
qed

definition caching_config :: config where
  "caching_config = small_config\<lparr>cfg_cache := sample_cache\<rparr>"

definition project_url :: url where
  "project_url = plain_url ''https'' ''pypi.org'' ''/simple/x/''"

definition project_candidate :: url where
  "project_candidate = hd (upstream_candidates_for plain_url_lib caching_config project_url)"

definition warm_disk :: disk where
  "warm_disk = write_disk_cache (\<lambda>_. True) sample_sha sample_codec sample_clock sample_cache project_candidate
     [(''accept'', ''text/html'')] 200 sample_headers ''body'' empty_disk"

lemma project_ranking:
  "upstream_candidates_for plain_url_lib caching_config project_url = [project_candidate]"
  "sel_strategy (cfg_upstream_selection caching_config) = ''ordered''"
  by code_simp+

lemma warm_load:
  "fst (load_disk_cache (\<lambda>_. True) sample_sha sample_codec sample_clock sample_cache project_candidate
     [(''accept'', ''text/html'')] warm_disk) = Some \<lparr>de_body = ''body'', de_metadata = sample_metadata\<rparr>"
  by code_simp

section \<open>A validator of the client revalidates the entry of the cache\<close>

text \<open>
  The conditional headers of the client are forwarded beside the validators of the stale
  cache entry.  An origin whose current representation is the one the client already has
  answers \<open>304\<close>, and the engine takes this for a confirmation of its own, older entry.
\<close>

definition stale_metadata :: DiskCacheMetadata where
  "stale_metadata = \<lparr>dm_status = 200, dm_headers = [(''etag'', ''v1'')], dm_stored_at = 0, dm_expires_at = 900, dm_vary = []\<rparr>"

definition stale_disk :: disk where
  "stale_disk = \<lparr>dk_dirs = [cc_directory sample_cache],
     dk_files = [((cc_directory sample_cache, sample_sha [] @ ''.body''), \<lparr>f_bytes = ''old'', f_mtime = 0\<rparr>),
                 ((cc_directory sample_cache, sample_sha [] @ ''.json''), \<lparr>f_bytes = ''stale'', f_mtime = 0\<rparr>)],
     dk_capacity = None\<rparr>"

text \<open>An origin that serves the representation \<open>v2\<close> and honours \<open>If-None-Match\<close>.\<close>

definition current_origin :: environment where
  "current_origin = offline
     \<lparr>en_codec := \<lparr>to_vec = (\<lambda>_. ''refreshed''), from_slice = (\<lambda>_. Some stale_metadata)\<rparr>,
      en_egress := redirecting_network\<lparr>eg_exec := (\<lambda>_ _ rq.
        if ''v2'' \<in> set (hdr_get_all (rq_headers rq) ''if-none-match'')
        then Some \<lparr>ur_status = 304, ur_headers = [(''etag'', ''v2'')], ur_body = Some []\<rparr>
        else Some \<lparr>ur_status = 200, ur_headers = [(''etag'', ''v2'')], ur_body = Some ''new''\<rparr>)\<rparr>\<rparr>"

definition answer :: "(ProxyError + response) option \<times> proxy_state \<Rightarrow> (nat \<times> string list \<times> string) option" where
  "answer r = (case fst r of Some (Inr x) \<Rightarrow> Some (r_status x, hdr_get_all (r_headers x) ''etag'', r_body x) | _ \<Rightarrow> None)"


end
