(* ===== verification/Quota_Db.thy ===== *)
theory Quota_Db
  imports MP_Prelude "HOL-Library.List_Lexorder" "HOL-Library.Char_ord"
begin

text \<open>
  The billing and traffic tables of \<open>crates/server/src/database.rs\<close> and the transactions
  on them: billing groups and their target policy, user billing profiles, the three-level
  quota reservation and the settlement of a proxied response.

  A table whose primary key is looked up is a map from that key to the row; a table that
  the code scans (\<open>groups\<close>, \<open>group_members\<close>, \<open>group_target_access\<close>, the event and audit
  logs) is the list of its rows.  A transaction is one function from the database to a
  result and a database: returning before \<open>commit\<close> rolls back, so such a branch returns
  the database it was given, and a violated constraint is an error value.  Columns that
  are sums are \<^typ>\<open>int\<close>: SQLite's integer addition does not wrap (a sum beyond 64 bits
  becomes a REAL), so the comparisons with a limit below \<open>i64::MAX\<close> agree.
\<close>

section \<open>Rows\<close>

record traffic_row =
  request_count :: int
  row_response_bytes :: int
  error_count :: int
  row_reserved_bytes :: int

record month_row = traffic_row +
  upstream_bytes :: int
  quota_exceeded :: bool

record daily_row =
  d_request_count :: int
  d_response_bytes :: int
  d_error_count :: int

record geo_row = daily_row +
  billed_bytes :: int

record user_row =
  disabled :: bool
  deleted_at :: "int option"

record group_row =
  g_id :: int
  g_name :: string
  kind :: string

record member_row =
  m_group_id :: int
  m_user_id :: int
  is_billing :: bool

record override_row =
  quota_mode :: string
  override_limit :: "int option"

record event_row =
  e_created_at :: int
  e_target_code :: string
  e_method :: string
  e_path :: string
  e_status_code :: int
  e_response_bytes :: int

record audit_row =
  a_created_at :: int
  a_username :: string
  a_action :: string
  a_detail :: string

record database =
  users :: "int \<rightharpoonup> user_row"
  groups :: "group_row list"
  groups_seq :: int
  group_quota_settings :: "int \<rightharpoonup> int option"
  group_members :: "member_row list"
  user_quota_overrides :: "int \<rightharpoonup> override_row"
  group_target_access_rows :: "(int \<times> string) list"
  traffic_monthly :: "string \<rightharpoonup> month_row"
  user_traffic_monthly :: "string \<times> int \<rightharpoonup> traffic_row"
  group_traffic_monthly :: "string \<times> int \<rightharpoonup> traffic_row"
  traffic_daily :: "string \<times> string \<rightharpoonup> daily_row"
  user_traffic_daily :: "string \<times> int \<times> string \<rightharpoonup> daily_row"
  geo_traffic_daily :: "string \<times> string \<times> string \<times> string \<times> string \<times> string \<rightharpoonup> geo_row"
  request_events :: "event_row list"
  config_audit_log :: "audit_row list"

definition empty_database :: database where
  "empty_database = \<lparr>users = Map.empty, groups = [], groups_seq = 0,
     group_quota_settings = Map.empty, group_members = [], user_quota_overrides = Map.empty,
     group_target_access_rows = [], traffic_monthly = Map.empty,
     user_traffic_monthly = Map.empty, group_traffic_monthly = Map.empty,
     traffic_daily = Map.empty, user_traffic_daily = Map.empty,
     geo_traffic_daily = Map.empty, request_events = [], config_audit_log = []\<rparr>"

datatype db_error = UniqueViolation | ForeignKeyViolation

type_synonym 'a db_result = "(db_error + 'a) \<times> database"

record billing_group =
  bg_id :: int
  bg_name :: string
  bg_monthly_limit_bytes :: "nat option"
  member_count :: nat

record group_target_access_view =
  gta_group_id :: int
  target_codes :: "string list"

record user_billing_profile_view =
  ubp_user_id :: int
  ubp_group_id :: "int option"
  ubp_group_name :: "string option"
  group_monthly_limit_bytes :: "nat option"
  ubp_quota_mode :: string
  user_monthly_limit_bytes :: "nat option"

datatype reservation_outcome = Reserved "int option" | Exceeded string

record quota_usage_view =
  limit_bytes :: "nat option"
  used_bytes :: nat
  remaining_bytes :: "nat option"

record geo_location =
  country :: "string option"
  province :: "string option"
  city :: "string option"
  isp :: "string option"
  country_code :: "string option"

record proxy_traffic_record =
  p_day :: string
  p_month :: string
  p_target_code :: string
  p_method :: string
  p_path :: string
  p_status_code :: nat
  p_response_bytes :: nat
  p_delivered_response_bytes :: nat
  p_stream_error :: bool
  p_reserved_bytes :: nat
  p_user_id :: "int option"
  p_group_id :: "int option"
  p_request_event_retention_days :: nat
  p_location :: geo_location

section \<open>Conversions\<close>

definition as_u64 :: "int \<Rightarrow> nat" where
  "as_u64 v = nat (max v 0)"

definition limit_to_i64 :: "nat \<Rightarrow> int" where
  "limit_to_i64 v = (if int v \<le> I64_MAX then int v else I64_MAX)"

definition quota_usage :: "nat option \<Rightarrow> nat \<Rightarrow> quota_usage_view" where
  "quota_usage lim used =
     \<lparr>limit_bytes = lim, used_bytes = used, remaining_bytes = map_option (\<lambda>l. sat_sub l used) lim\<rparr>"

definition i64_sat :: "int \<Rightarrow> int" where
  "i64_sat v = max (- I64_MAX - 1) (min v I64_MAX)"

definition country_bucket :: "geo_location \<Rightarrow> string \<times> string" where
  "country_bucket l = (unwrap_or ''ZZ'' (country_code l), unwrap_or ''Unknown'' (country l))"

definition province_bucket :: "geo_location \<Rightarrow> string" where
  "province_bucket l = unwrap_or ''Unknown'' (province l)"

definition city_bucket :: "geo_location \<Rightarrow> string" where
  "city_bucket l = unwrap_or ''Unknown'' (city l)"

text \<open>Rust's \<open>Display\<close> of an \<open>i64\<close>.\<close>

definition dec_of_int :: "int \<Rightarrow> string" where
  "dec_of_int v = (if v < 0 then ''-'' @ dec_of_nat (nat (- v)) else dec_of_nat (nat v))"

definition audit :: "int \<Rightarrow> string \<Rightarrow> string \<Rightarrow> string \<Rightarrow> database \<Rightarrow> database" where
  "audit now actor action detail db = db\<lparr>config_audit_log := config_audit_log db @
     [\<lparr>a_created_at = now, a_username = actor, a_action = action, a_detail = detail\<rparr>]\<rparr>"

section \<open>Statements shared by the transactions\<close>

text \<open>\<open>INSERT OR IGNORE\<close>, and the guarded \<open>UPDATE ... SET reserved_bytes\<close> with the number
  of affected rows.  One definition serves the three monthly tables.\<close>

definition insert_or_ignore :: "'k \<Rightarrow> 'r \<Rightarrow> ('k \<rightharpoonup> 'r) \<Rightarrow> ('k \<rightharpoonup> 'r)" where
  "insert_or_ignore k r t = (case t k of None \<Rightarrow> t(k \<mapsto> r) | Some _ \<Rightarrow> t)"

definition reserve_update ::
  "int \<Rightarrow> int option \<Rightarrow> 'k \<Rightarrow> ('k \<rightharpoonup> 'a traffic_row_scheme) \<Rightarrow> ('k \<rightharpoonup> 'a traffic_row_scheme) \<times> nat"
where
  "reserve_update bytes limit k t = (case t k of None \<Rightarrow> (t, 0)
     | Some r \<Rightarrow>
        if (case limit of None \<Rightarrow> True
              | Some l \<Rightarrow> row_response_bytes r + row_reserved_bytes r + bytes \<le> l)
        then (t(k \<mapsto> r\<lparr>row_reserved_bytes := row_reserved_bytes r + bytes\<rparr>), 1)
        else (t, 0))"

text \<open>The upsert of a settled response in a monthly table: a fresh row starts from the
  table's defaults (so its \<open>reserved_bytes\<close> is 0), an existing one is added to.\<close>

definition settle_upsert ::
  "int \<Rightarrow> int \<Rightarrow> int \<Rightarrow> 'a traffic_row_scheme \<Rightarrow> 'k \<Rightarrow> ('k \<rightharpoonup> 'a traffic_row_scheme)
     \<Rightarrow> ('k \<rightharpoonup> 'a traffic_row_scheme)"
where
  "settle_upsert bytes errors reserved fresh k t = (case t k of
       None \<Rightarrow> t(k \<mapsto> fresh\<lparr>request_count := 1, row_response_bytes := bytes, error_count := errors\<rparr>)
     | Some r \<Rightarrow> t(k \<mapsto> r\<lparr>request_count := request_count r + 1,
          row_response_bytes := row_response_bytes r + bytes,
          error_count := error_count r + errors,
          row_reserved_bytes := max 0 (row_reserved_bytes r - reserved)\<rparr>))"

definition daily_upsert :: "int \<Rightarrow> int \<Rightarrow> 'k \<Rightarrow> ('k \<rightharpoonup> daily_row) \<Rightarrow> ('k \<rightharpoonup> daily_row)" where
  "daily_upsert bytes errors k t = (case t k of
       None \<Rightarrow> t(k \<mapsto> \<lparr>d_request_count = 1, d_response_bytes = bytes, d_error_count = errors\<rparr>)
     | Some r \<Rightarrow> t(k \<mapsto> r\<lparr>d_request_count := d_request_count r + 1,
          d_response_bytes := d_response_bytes r + bytes,
          d_error_count := d_error_count r + errors\<rparr>))"

definition geo_upsert :: "int \<Rightarrow> int \<Rightarrow> int \<Rightarrow> 'k \<Rightarrow> ('k \<rightharpoonup> geo_row) \<Rightarrow> ('k \<rightharpoonup> geo_row)" where
  "geo_upsert delivered bytes errors k t = (case t k of
       None \<Rightarrow> t(k \<mapsto> \<lparr>d_request_count = 1, d_response_bytes = delivered, d_error_count = errors,
          billed_bytes = bytes\<rparr>)
     | Some r \<Rightarrow> t(k \<mapsto> r\<lparr>d_request_count := d_request_count r + 1,
          d_response_bytes := d_response_bytes r + delivered,
          d_error_count := d_error_count r + errors,
          billed_bytes := billed_bytes r + bytes\<rparr>))"

definition new_traffic_row :: traffic_row where
  "new_traffic_row = \<lparr>request_count = 0, row_response_bytes = 0, error_count = 0,
     row_reserved_bytes = 0\<rparr>"

definition new_month_row :: month_row where
  "new_month_row = \<lparr>request_count = 0, row_response_bytes = 0, error_count = 0,
     row_reserved_bytes = 0, upstream_bytes = 0, quota_exceeded = False\<rparr>"

section \<open>Billing groups and profiles\<close>

definition billing_group_exists :: "int \<Rightarrow> database \<Rightarrow> bool" where
  "billing_group_exists gid db \<longleftrightarrow> (\<exists>g\<in>set (groups db). g_id g = gid \<and> kind g = ''billing'')"

definition list_billing_groups :: "database \<Rightarrow> billing_group list" where
  "list_billing_groups db =
     map (\<lambda>g. \<lparr>bg_id = g_id g, bg_name = g_name g,
           bg_monthly_limit_bytes = map_option as_u64
             (case group_quota_settings db (g_id g) of None \<Rightarrow> None | Some l \<Rightarrow> l),
           member_count = length (filter (\<lambda>m. m_group_id m = g_id g \<and> is_billing m)
             (group_members db))\<rparr>)
       (sort_key g_name (filter (\<lambda>g. kind g = ''billing'') (groups db)))"

definition create_billing_group ::
  "int \<Rightarrow> string \<Rightarrow> string \<Rightarrow> nat option \<Rightarrow> database \<Rightarrow> billing_group option db_result" where
  "create_billing_group now actor name monthly_limit_bytes db =
     (if \<exists>g\<in>set (groups db). g_name g = name then (Inr None, db)
      else
        let gid = groups_seq db + 1;
            db1 = db\<lparr>groups := groups db @ [\<lparr>g_id = gid, g_name = name, kind = ''billing''\<rparr>],
                     groups_seq := gid\<rparr>;
            db2 = db1\<lparr>group_quota_settings :=
                       (group_quota_settings db1)(gid \<mapsto> map_option limit_to_i64 monthly_limit_bytes)\<rparr>;
            db3 = audit now actor ''billing_group_created'' (''group_id='' @ dec_of_int gid) db2
        in (Inr (Some \<lparr>bg_id = gid, bg_name = name,
              bg_monthly_limit_bytes = monthly_limit_bytes, member_count = 0\<rparr>), db3))"

definition update_billing_group ::
  "int \<Rightarrow> string \<Rightarrow> int \<Rightarrow> string \<Rightarrow> nat option \<Rightarrow> database \<Rightarrow> bool db_result" where
  "update_billing_group now actor gid name monthly_limit_bytes db =
     (if \<not> billing_group_exists gid db then (Inr False, db)
      else if \<exists>g\<in>set (groups db). g_id g \<noteq> gid \<and> g_name g = name then (Inl UniqueViolation, db)
      else
        let db1 = db\<lparr>groups := map (\<lambda>g. if g_id g = gid \<and> kind g = ''billing''
                       then g\<lparr>g_name := name\<rparr> else g) (groups db)\<rparr>;
            db2 = db1\<lparr>group_quota_settings :=
                       (group_quota_settings db1)(gid \<mapsto> map_option limit_to_i64 monthly_limit_bytes)\<rparr>;
            db3 = audit now actor ''billing_group_updated'' (''group_id='' @ dec_of_int gid) db2
        in (Inr True, db3))"

definition group_target_access :: "int \<Rightarrow> database \<Rightarrow> group_target_access_view option" where
  "group_target_access gid db =
     (if \<not> billing_group_exists gid db then None
      else Some \<lparr>gta_group_id = gid, target_codes =
        sort (map snd (filter (\<lambda>a. fst a = gid) (group_target_access_rows db)))\<rparr>)"

text \<open>The \<open>INSERT\<close> loop of \<open>set_group_target_access\<close>; a repeated target violates the
  primary key and the transaction is rolled back.\<close>

fun insert_targets :: "int \<Rightarrow> string list \<Rightarrow> (int \<times> string) list \<Rightarrow> (int \<times> string) list option" where
  "insert_targets gid [] rows = Some rows"
| "insert_targets gid (t # ts) rows =
     (if (gid, t) \<in> set rows then None else insert_targets gid ts (rows @ [(gid, t)]))"

definition set_group_target_access ::
  "int \<Rightarrow> string \<Rightarrow> int \<Rightarrow> string list \<Rightarrow> database \<Rightarrow> bool db_result" where
  "set_group_target_access now actor gid codes db =
     (if \<not> billing_group_exists gid db then (Inr False, db)
      else (case insert_targets gid codes
                   (filter (\<lambda>a. fst a \<noteq> gid) (group_target_access_rows db)) of
          None \<Rightarrow> (Inl UniqueViolation, db)
        | Some rows \<Rightarrow>
            (Inr True, audit now actor ''group_target_access_updated''
               (''group_id='' @ dec_of_int gid @ '', targets='' @ join '','' codes)
               (db\<lparr>group_target_access_rows := rows\<rparr>))))"

text \<open>The first row of the grouped query of \<open>user_target_allowed\<close>: the billing groups the
  user is a billing member of; the partial unique index leaves at most one.\<close>

definition billing_groups_of :: "int \<Rightarrow> database \<Rightarrow> group_row list" where
  "billing_groups_of user_id db =
     concat (map (\<lambda>m. filter (\<lambda>g. g_id g = m_group_id m \<and> kind g = ''billing'') (groups db))
       (filter (\<lambda>m. m_user_id m = user_id \<and> is_billing m) (group_members db)))"

definition user_target_allowed :: "int \<Rightarrow> string \<Rightarrow> database \<Rightarrow> bool" where
  "user_target_allowed user_id target_code db =
     (case billing_groups_of user_id db of
        [] \<Rightarrow> True
      | g # _ \<Rightarrow>
          (let access = filter (\<lambda>a. fst a = g_id g) (group_target_access_rows db);
               configured = length access;
               matched = length (filter (\<lambda>a. snd a = target_code) access)
           in configured = 0 \<or> matched > 0))"

definition upsert_member :: "int \<Rightarrow> int \<Rightarrow> member_row list \<Rightarrow> member_row list" where
  "upsert_member gid user_id rows =
     (if \<exists>m\<in>set rows. m_group_id m = gid \<and> m_user_id m = user_id
      then map (\<lambda>m. if m_group_id m = gid \<and> m_user_id m = user_id
                    then m\<lparr>is_billing := True\<rparr> else m) rows
      else rows @ [\<lparr>m_group_id = gid, m_user_id = user_id, is_billing = True\<rparr>])"

definition live_user :: "int \<Rightarrow> database \<Rightarrow> bool" where
  "live_user user_id db = (case users db user_id of None \<Rightarrow> False | Some u \<Rightarrow> deleted_at u = None)"

definition set_user_billing_profile ::
  "int \<Rightarrow> string \<Rightarrow> int \<Rightarrow> int option \<Rightarrow> string \<Rightarrow> nat option \<Rightarrow> database \<Rightarrow> bool db_result" where
  "set_user_billing_profile now actor user_id group_id mode user_limit db =
     (if \<not> live_user user_id db then (Inr False, db)
      else if (case group_id of None \<Rightarrow> False | Some gid \<Rightarrow> \<not> billing_group_exists gid db)
      then (Inr False, db)
      else
        let rows = filter (\<lambda>m. \<not> (m_user_id m = user_id \<and> is_billing m)) (group_members db);
            db1 = db\<lparr>group_members :=
                    (case group_id of None \<Rightarrow> rows | Some gid \<Rightarrow> upsert_member gid user_id rows)\<rparr>;
            db2 = db1\<lparr>user_quota_overrides :=
                    (if mode = ''default'' then (user_quota_overrides db1)(user_id := None)
                     else (user_quota_overrides db1)(user_id \<mapsto>
                       \<lparr>quota_mode = mode, override_limit = map_option limit_to_i64 user_limit\<rparr>))\<rparr>
        in (Inr True, audit now actor ''user_billing_updated'' (''user_id='' @ dec_of_int user_id) db2))"

text \<open>The \<open>LEFT JOIN\<close>s shared by \<open>user_billing_profile\<close> and the reservation.\<close>

definition joined_group :: "int \<Rightarrow> database \<Rightarrow> group_row option" where
  "joined_group user_id db =
     (case find (\<lambda>m. m_user_id m = user_id \<and> is_billing m) (group_members db) of
        None \<Rightarrow> None
      | Some m \<Rightarrow> find (\<lambda>g. g_id g = m_group_id m) (groups db))"

definition joined_group_limit :: "int \<Rightarrow> database \<Rightarrow> int option" where
  "joined_group_limit user_id db =
     (case joined_group user_id db of None \<Rightarrow> None
      | Some g \<Rightarrow> (case group_quota_settings db (g_id g) of None \<Rightarrow> None | Some l \<Rightarrow> l))"

definition user_billing_profile :: "int \<Rightarrow> database \<Rightarrow> user_billing_profile_view option" where
  "user_billing_profile user_id db =
     (if \<not> live_user user_id db then None
      else Some \<lparr>ubp_user_id = user_id,
        ubp_group_id = map_option g_id (joined_group user_id db),
        ubp_group_name = map_option g_name (joined_group user_id db),
        group_monthly_limit_bytes = map_option as_u64 (joined_group_limit user_id db),
        ubp_quota_mode = (case user_quota_overrides db user_id of
            None \<Rightarrow> ''default'' | Some q \<Rightarrow> quota_mode q),
        user_monthly_limit_bytes = (case user_quota_overrides db user_id of
            None \<Rightarrow> None | Some q \<Rightarrow> map_option as_u64 (override_limit q))\<rparr>)"

section \<open>Reservation and settlement\<close>

definition active_user :: "int \<Rightarrow> database \<Rightarrow> bool" where
  "active_user user_id db = (case users db user_id of None \<Rightarrow> False
     | Some u \<Rightarrow> \<not> disabled u \<and> deleted_at u = None)"

definition effective_user_limit :: "int \<Rightarrow> nat option \<Rightarrow> database \<Rightarrow> int option" where
  "effective_user_limit user_id default_user_limit db =
     (case user_quota_overrides db user_id of
        None \<Rightarrow> map_option limit_to_i64 default_user_limit
      | Some q \<Rightarrow> if quota_mode q = ''unlimited'' then None
                  else if quota_mode q = ''custom'' then override_limit q
                  else map_option limit_to_i64 default_user_limit)"

definition try_reserve_hierarchical_bytes ::
  "string \<Rightarrow> int \<Rightarrow> nat option \<Rightarrow> nat option \<Rightarrow> nat \<Rightarrow> database
     \<Rightarrow> reservation_outcome \<times> database" where
  "try_reserve_hierarchical_bytes month user_id global_limit default_user_limit nbytes db =
     (let bytes = limit_to_i64 nbytes in
      if \<not> active_user user_id db then (Exceeded ''user'', db)
      else
        let group_id = map_option g_id (joined_group user_id db);
            group_limit = joined_group_limit user_id db;
            user_limit = effective_user_limit user_id default_user_limit db;
            db1 = db\<lparr>traffic_monthly := insert_or_ignore month new_month_row (traffic_monthly db)\<rparr>;
            (t, n) = reserve_update bytes (map_option limit_to_i64 global_limit) month
                       (traffic_monthly db1)
        in if global_limit \<noteq> None \<and> n = 0 then (Exceeded ''global'', db)
           else
             let db2 = db1\<lparr>traffic_monthly := t\<rparr>;
                 (ut, un) = reserve_update bytes user_limit (month, user_id)
                              (insert_or_ignore (month, user_id) new_traffic_row
                                (user_traffic_monthly db2))
             in if un = 0 then (Exceeded ''user'', db)
                else
                  let db3 = db2\<lparr>user_traffic_monthly := ut\<rparr>
                  in (case group_id of
                        None \<Rightarrow> (Reserved None, db3)
                      | Some gid \<Rightarrow>
                          let (gt, gn) = reserve_update bytes group_limit (month, gid)
                                (insert_or_ignore (month, gid) new_traffic_row
                                  (group_traffic_monthly db3))
                          in if gn = 0 then (Exceeded ''group'', db)
                             else (Reserved (Some gid), db3\<lparr>group_traffic_monthly := gt\<rparr>)))"

definition try_reserve_monthly_bytes ::
  "string \<Rightarrow> nat \<Rightarrow> nat \<Rightarrow> database \<Rightarrow> bool \<times> database" where
  "try_reserve_monthly_bytes month limit bytes db =
     (let t0 = insert_or_ignore month new_month_row (traffic_monthly db);
          (t, n) = reserve_update (limit_to_i64 bytes) (Some (limit_to_i64 limit)) month t0
      in (n = 1, db\<lparr>traffic_monthly := t\<rparr>))"

definition record_proxy_response ::
  "int \<Rightarrow> proxy_traffic_record \<Rightarrow> database \<Rightarrow> unit db_result" where
  "record_proxy_response now r db =
     (let bytes = limit_to_i64 (p_response_bytes r);
          reserved = limit_to_i64 (p_reserved_bytes r);
          errors = (if p_stream_error r \<or> p_status_code r \<ge> 400 then 1 else 0);
          db1 = db\<lparr>traffic_daily :=
                  daily_upsert bytes errors (p_day r, p_target_code r) (traffic_daily db)\<rparr>;
          db2 = db1\<lparr>traffic_monthly :=
                  settle_upsert bytes errors reserved new_month_row (p_month r)
                    (traffic_monthly db1)\<rparr>
      in if (case p_user_id r of None \<Rightarrow> False | Some u \<Rightarrow> users db u = None)
            \<or> (case p_group_id r of None \<Rightarrow> False
                | Some gid \<Rightarrow> \<not> (\<exists>g\<in>set (groups db). g_id g = gid))
         then (Inl ForeignKeyViolation, db)
         else
           let db3 = (case p_user_id r of None \<Rightarrow> db2
                 | Some u \<Rightarrow> db2\<lparr>
                     user_traffic_daily := daily_upsert bytes errors
                       (p_day r, u, p_target_code r) (user_traffic_daily db2),
                     user_traffic_monthly := settle_upsert bytes errors reserved new_traffic_row
                       (p_month r, u) (user_traffic_monthly db2)\<rparr>);
               db4 = (case p_group_id r of None \<Rightarrow> db3
                 | Some gid \<Rightarrow> db3\<lparr>group_traffic_monthly :=
                     settle_upsert bytes errors reserved new_traffic_row (p_month r, gid)
                       (group_traffic_monthly db3)\<rparr>);
               (country_code, country) = country_bucket (p_location r);
               db5 = db4\<lparr>geo_traffic_daily :=
                       geo_upsert (limit_to_i64 (p_delivered_response_bytes r)) bytes errors
                         (p_day r, p_target_code r, country_code, country,
                          province_bucket (p_location r), city_bucket (p_location r))
                         (geo_traffic_daily db4)\<rparr>;
               events = request_events db5 @ [\<lparr>e_created_at = now,
                          e_target_code = p_target_code r, e_method = p_method r,
                          e_path = p_path r, e_status_code = int (p_status_code r),
                          e_response_bytes = bytes\<rparr>];
               cutoff = i64_sat (now - i64_sat (int (p_request_event_retention_days r) * 86400))
           in (Inr (), db5\<lparr>request_events := filter (\<lambda>e. \<not> e_created_at e < cutoff) events\<rparr>))"

definition mark_month_quota_exceeded :: "string \<Rightarrow> database \<Rightarrow> database" where
  "mark_month_quota_exceeded month db = db\<lparr>traffic_monthly :=
     (traffic_monthly db)(month \<mapsto> (case traffic_monthly db month of
        None \<Rightarrow> new_month_row | Some r \<Rightarrow> r)\<lparr>quota_exceeded := True\<rparr>)\<rparr>"

definition monthly_quota_totals :: "string \<Rightarrow> database \<Rightarrow> nat \<times> nat" where
  "monthly_quota_totals month db = (case traffic_monthly db month of
       None \<Rightarrow> (as_u64 0, as_u64 0)
     | Some r \<Rightarrow> (as_u64 (row_response_bytes r), as_u64 (row_reserved_bytes r)))"

section \<open>Usage of a monthly table\<close>

text \<open>What a monthly table says about a key; a missing row counts as zero usage.\<close>

definition reserved_of :: "('k \<rightharpoonup> 'a traffic_row_scheme) \<Rightarrow> 'k \<Rightarrow> int" where
  "reserved_of t k = (case t k of None \<Rightarrow> 0 | Some r \<Rightarrow> row_reserved_bytes r)"

definition billed_of :: "('k \<rightharpoonup> 'a traffic_row_scheme) \<Rightarrow> 'k \<Rightarrow> int" where
  "billed_of t k = (case t k of None \<Rightarrow> 0 | Some r \<Rightarrow> row_response_bytes r)"

definition requests_of :: "('k \<rightharpoonup> 'a traffic_row_scheme) \<Rightarrow> 'k \<Rightarrow> int" where
  "requests_of t k = (case t k of None \<Rightarrow> 0 | Some r \<Rightarrow> request_count r)"

lemmas usage_defs = reserved_of_def billed_of_def requests_of_def

definition within_limit :: "int option \<Rightarrow> int \<Rightarrow> bool" where
  "within_limit limit v = (case limit of None \<Rightarrow> True | Some l \<Rightarrow> v \<le> l)"

lemma within_limit_simps [simp]:
  "within_limit None v" "within_limit (Some l) v \<longleftrightarrow> v \<le> l"
  by (simp_all add: within_limit_def)

text \<open>The laws of the two statements that move bytes through a monthly table.  The locale
  is the contract the reservation machine relies on; its parameter is the table's default
  row.\<close>

locale usage_table =
  fixes fresh :: "'a traffic_row_scheme"
  assumes fresh_zero: "request_count fresh = 0" "row_response_bytes fresh = 0"
      "error_count fresh = 0" "row_reserved_bytes fresh = 0"
begin

lemma reserve_admits:
  "snd (reserve_update b limit k (insert_or_ignore k fresh t)) =
     (if within_limit limit (billed_of t k + reserved_of t k + b) then 1 else 0)"
  using fresh_zero
  by (auto simp: reserve_update_def insert_or_ignore_def usage_defs within_limit_def
      split: option.splits)

lemma reserve_refused:
  assumes "\<not> within_limit limit (billed_of t k + reserved_of t k + b)"
  shows "fst (reserve_update b limit k (insert_or_ignore k fresh t)) = insert_or_ignore k fresh t"
  using assms fresh_zero
  by (auto simp: reserve_update_def insert_or_ignore_def usage_defs within_limit_def
      split: option.splits)

lemma ignored_usage [simp]:
  "reserved_of (insert_or_ignore k fresh t) k' = reserved_of t k'"
  "billed_of (insert_or_ignore k fresh t) k' = billed_of t k'"
  "requests_of (insert_or_ignore k fresh t) k' = requests_of t k'"
  using fresh_zero by (auto simp: insert_or_ignore_def usage_defs split: option.splits)

lemma reserve_usage:
  assumes "within_limit limit (billed_of t k + reserved_of t k + b)"
  shows "reserved_of (fst (reserve_update b limit k (insert_or_ignore k fresh t))) k' =
           reserved_of t k' + (if k' = k then b else 0)"
    and "billed_of (fst (reserve_update b limit k (insert_or_ignore k fresh t))) k' = billed_of t k'"
    and "requests_of (fst (reserve_update b limit k (insert_or_ignore k fresh t))) k' = requests_of t k'"
  using assms fresh_zero
  by (auto simp: reserve_update_def insert_or_ignore_def usage_defs within_limit_def
      split: option.splits)

lemma settle_usage:
  shows "billed_of (settle_upsert b e r fresh k t) k' = billed_of t k' + (if k' = k then b else 0)"
    and "requests_of (settle_upsert b e r fresh k t) k' = requests_of t k' + (if k' = k then 1 else 0)"
    and "0 \<le> r \<Longrightarrow> k' = k \<longrightarrow> r \<le> reserved_of t k \<Longrightarrow>
         reserved_of (settle_upsert b e r fresh k t) k' = reserved_of t k' - (if k' = k then r else 0)"
  using fresh_zero by (auto simp: settle_upsert_def usage_defs split: option.splits)

end

interpretation month_table: usage_table new_month_row
  by unfold_locales (simp_all add: new_month_row_def)

interpretation scope_table: usage_table new_traffic_row
  by unfold_locales (simp_all add: new_traffic_row_def)

lemma limit_to_i64_nonneg [simp]: "0 \<le> limit_to_i64 n"
  by (simp add: limit_to_i64_def I64_MAX_def)

lemma limit_to_i64_le [simp]: "limit_to_i64 n \<le> I64_MAX"
  by (simp add: limit_to_i64_def)

lemma limit_to_i64_mono: "m \<le> n \<Longrightarrow> limit_to_i64 m \<le> limit_to_i64 n"
  by (simp add: limit_to_i64_def)

section \<open>The reservation\<close>

definition has_room ::
  "int option \<Rightarrow> int \<Rightarrow> ('k \<rightharpoonup> 'a traffic_row_scheme) \<Rightarrow> 'k \<Rightarrow> bool" where
  "has_room limit b t k = within_limit limit (billed_of t k + reserved_of t k + b)"

text \<open>The scope that refuses a reservation, if any: checked from the outside in.\<close>

definition refusing_scope ::
  "string \<Rightarrow> int \<Rightarrow> nat option \<Rightarrow> nat option \<Rightarrow> nat \<Rightarrow> database \<Rightarrow> string option" where
  "refusing_scope month user_id global_limit default_user_limit n db =
     (let b = limit_to_i64 n in
      if \<not> active_user user_id db then Some ''user''
      else if \<not> has_room (map_option limit_to_i64 global_limit) b (traffic_monthly db) month
      then Some ''global''
      else if \<not> has_room (effective_user_limit user_id default_user_limit db) b
                  (user_traffic_monthly db) (month, user_id) then Some ''user''
      else (case joined_group user_id db of
              None \<Rightarrow> None
            | Some g \<Rightarrow> if has_room (joined_group_limit user_id db) b (group_traffic_monthly db)
                             (month, g_id g) then None else Some ''group''))"

definition hold ::
  "'a traffic_row_scheme \<Rightarrow> int \<Rightarrow> int option \<Rightarrow> 'k \<Rightarrow> ('k \<rightharpoonup> 'a traffic_row_scheme)
     \<Rightarrow> ('k \<rightharpoonup> 'a traffic_row_scheme)" where
  "hold fresh b limit k t = fst (reserve_update b limit k (insert_or_ignore k fresh t))"

definition held_database ::
  "string \<Rightarrow> int \<Rightarrow> nat option \<Rightarrow> nat option \<Rightarrow> nat \<Rightarrow> database \<Rightarrow> database" where
  "held_database month user_id global_limit default_user_limit n db =
     (let b = limit_to_i64 n in
      db\<lparr>traffic_monthly := hold new_month_row b (map_option limit_to_i64 global_limit) month
           (traffic_monthly db),
         user_traffic_monthly := hold new_traffic_row b
           (effective_user_limit user_id default_user_limit db) (month, user_id)
           (user_traffic_monthly db),
         group_traffic_monthly := (case joined_group user_id db of
             None \<Rightarrow> group_traffic_monthly db
           | Some g \<Rightarrow> hold new_traffic_row b (joined_group_limit user_id db) (month, g_id g)
               (group_traffic_monthly db))\<rparr>)"

lemma reservation_by_scope:
  "try_reserve_hierarchical_bytes month u gl ul n db =
     (case refusing_scope month u gl ul n db of
        Some s \<Rightarrow> (Exceeded s, db)
      | None \<Rightarrow> (Reserved (map_option g_id (joined_group u db)), held_database month u gl ul n db))"
proof -
  let ?b = "limit_to_i64 n"
  have m: "reserve_update ?b l month (insert_or_ignore month new_month_row (traffic_monthly db)) =
      (hold new_month_row ?b l month (traffic_monthly db),
       if has_room l ?b (traffic_monthly db) month then 1 else 0)" for l
    by (rule prod_eqI) (simp_all add: hold_def has_room_def month_table.reserve_admits)
  have s: "reserve_update ?b l k (insert_or_ignore k new_traffic_row t) =
      (hold new_traffic_row ?b l k t, if has_room l ?b t k then 1 else 0)" for l k t
    by (rule prod_eqI) (simp_all add: hold_def has_room_def scope_table.reserve_admits)
  show ?thesis
  proof (cases gl)
    case None
    then have "has_room (map_option limit_to_i64 gl) ?b (traffic_monthly db) month"
      by (simp add: has_room_def)
    with None show ?thesis
      by (simp add: try_reserve_hierarchical_bytes_def refusing_scope_def held_database_def Let_def
          m s split: option.split)
  next
    case (Some l)
    then show ?thesis
      by (simp add: try_reserve_hierarchical_bytes_def refusing_scope_def held_database_def Let_def
          m s split: option.split)
  qed
qed

lemma has_room_empty [simp]: "has_room l b Map.empty k \<longleftrightarrow> within_limit l b"
  by (simp add: has_room_def usage_defs)

lemma refusing_scope_None:
  "refusing_scope month u gl ul n db = None \<longleftrightarrow>
     active_user u db
     \<and> has_room (map_option limit_to_i64 gl) (limit_to_i64 n) (traffic_monthly db) month
     \<and> has_room (effective_user_limit u ul db) (limit_to_i64 n) (user_traffic_monthly db) (month, u)
     \<and> (\<forall>g. joined_group u db = Some g \<longrightarrow>
          has_room (joined_group_limit u db) (limit_to_i64 n) (group_traffic_monthly db) (month, g_id g))"
  by (auto simp: refusing_scope_def Let_def split: option.splits)

lemma hold_month_usage:
  assumes "has_room l b t k"
  shows "reserved_of (hold new_month_row b l k t) k' = reserved_of t k' + (if k' = k then b else 0)"
    and "billed_of (hold new_month_row b l k t) k' = billed_of t k'"
    and "requests_of (hold new_month_row b l k t) k' = requests_of t k'"
  using month_table.reserve_usage[OF assms[unfolded has_room_def], of k']
  by (simp_all add: hold_def)

lemma hold_scope_usage:
  assumes "has_room l b t k"
  shows "reserved_of (hold new_traffic_row b l k t) k' = reserved_of t k' + (if k' = k then b else 0)"
    and "billed_of (hold new_traffic_row b l k t) k' = billed_of t k'"
    and "requests_of (hold new_traffic_row b l k t) k' = requests_of t k'"
  using scope_table.reserve_usage[OF assms[unfolded has_room_def], of k']
  by (simp_all add: hold_def)

lemma held_database_usage:
  assumes "refusing_scope month u gl ul n db = None"
  defines "db' \<equiv> held_database month u gl ul n db" and "b \<equiv> limit_to_i64 n"
  shows "reserved_of (traffic_monthly db') m = reserved_of (traffic_monthly db) m + (if m = month then b else 0)"
    and "billed_of (traffic_monthly db') m = billed_of (traffic_monthly db) m"
    and "requests_of (traffic_monthly db') m = requests_of (traffic_monthly db) m"
    and "reserved_of (user_traffic_monthly db') k =
           reserved_of (user_traffic_monthly db) k + (if k = (month, u) then b else 0)"
    and "billed_of (user_traffic_monthly db') k = billed_of (user_traffic_monthly db) k"
    and "requests_of (user_traffic_monthly db') k = requests_of (user_traffic_monthly db) k"
    and "reserved_of (group_traffic_monthly db') k = reserved_of (group_traffic_monthly db) k +
           (if \<exists>g. joined_group u db = Some g \<and> k = (month, g_id g) then b else 0)"
    and "billed_of (group_traffic_monthly db') k = billed_of (group_traffic_monthly db) k"
    and "requests_of (group_traffic_monthly db') k = requests_of (group_traffic_monthly db) k"
  using assms(1)
  unfolding refusing_scope_None db'_def b_def held_database_def Let_def
  by (simp_all add: hold_month_usage hold_scope_usage split: option.splits)

text \<open>C5: A hierarchical reservation is atomic and respects every limit.  When it is refused,
  the database is exactly what it was (the insertions and partial updates before the refusal
  are rolled back).  When it is granted, the user is active, billed plus reserved bytes stay
  within the global, the user's effective and the billing group's limit, and the reserved
  bytes grew by the requested amount at exactly those three rows.  And it is granted
  whenever the user is active and all three have room.\<close>

theorem hierarchical_reservation_atomic:
  assumes "try_reserve_hierarchical_bytes month u gl ul n db = (out, db')"
  shows "(\<forall>s. out = Exceeded s \<longrightarrow> db' = db)
    \<and> (\<forall>grp. out = Reserved grp \<longrightarrow>
         active_user u db \<and> grp = map_option g_id (joined_group u db)
         \<and> within_limit (map_option limit_to_i64 gl)
             (billed_of (traffic_monthly db') month + reserved_of (traffic_monthly db') month)
         \<and> within_limit (effective_user_limit u ul db)
             (billed_of (user_traffic_monthly db') (month, u)
              + reserved_of (user_traffic_monthly db') (month, u))
         \<and> (\<forall>gid. grp = Some gid \<longrightarrow> within_limit (joined_group_limit u db)
             (billed_of (group_traffic_monthly db') (month, gid)
              + reserved_of (group_traffic_monthly db') (month, gid)))
         \<and> (\<forall>m. reserved_of (traffic_monthly db') m =
              reserved_of (traffic_monthly db) m + (if m = month then limit_to_i64 n else 0))
         \<and> (\<forall>k. reserved_of (user_traffic_monthly db') k =
              reserved_of (user_traffic_monthly db) k + (if k = (month, u) then limit_to_i64 n else 0))
         \<and> (\<forall>k. reserved_of (group_traffic_monthly db') k =
              reserved_of (group_traffic_monthly db) k
              + (if \<exists>gid. grp = Some gid \<and> k = (month, gid) then limit_to_i64 n else 0)))
    \<and> (active_user u db
         \<and> has_room (map_option limit_to_i64 gl) (limit_to_i64 n) (traffic_monthly db) month
         \<and> has_room (effective_user_limit u ul db) (limit_to_i64 n) (user_traffic_monthly db) (month, u)
         \<and> (\<forall>g. joined_group u db = Some g \<longrightarrow> has_room (joined_group_limit u db)
              (limit_to_i64 n) (group_traffic_monthly db) (month, g_id g))
       \<longrightarrow> (\<exists>grp. out = Reserved grp))"
proof (cases "refusing_scope month u gl ul n db")
  case None
  note r = reservation_by_scope[of month u gl ul n db, unfolded None assms, simplified]
  note h = held_database_usage[OF None]
  have "has_room (map_option limit_to_i64 gl) (limit_to_i64 n) (traffic_monthly db) month"
    "has_room (effective_user_limit u ul db) (limit_to_i64 n) (user_traffic_monthly db) (month, u)"
    "\<And>g. joined_group u db = Some g \<Longrightarrow>
       has_room (joined_group_limit u db) (limit_to_i64 n) (group_traffic_monthly db) (month, g_id g)"
    "active_user u db"
    using None refusing_scope_None by blast+
  then show ?thesis
    using r by (auto simp: h has_room_def add.assoc)
next
  case (Some s)
  then have "\<not> (active_user u db
         \<and> has_room (map_option limit_to_i64 gl) (limit_to_i64 n) (traffic_monthly db) month
         \<and> has_room (effective_user_limit u ul db) (limit_to_i64 n) (user_traffic_monthly db) (month, u)
         \<and> (\<forall>g. joined_group u db = Some g \<longrightarrow> has_room (joined_group_limit u db)
              (limit_to_i64 n) (group_traffic_monthly db) (month, g_id g)))"
    using refusing_scope_None[of month u gl ul n db] by simp
  moreover have "out = Exceeded s" "db' = db"
    using reservation_by_scope[of month u gl ul n db] Some assms by auto
  ultimately show ?thesis by simp
qed

definition sample_database :: database where
  "sample_database = empty_database\<lparr>
     users := [1 \<mapsto> \<lparr>disabled = False, deleted_at = None\<rparr>],
     groups := [\<lparr>g_id = 7, g_name = ''team'', kind = ''billing''\<rparr>], groups_seq := 7,
     group_quota_settings := [7 \<mapsto> Some 10],
     group_members := [\<lparr>m_group_id = 7, m_user_id = 1, is_billing = True\<rparr>]\<rparr>"

lemma sample_simps:
  "joined_group 1 sample_database = Some \<lparr>g_id = 7, g_name = ''team'', kind = ''billing''\<rparr>"
  "joined_group_limit 1 sample_database = Some 10"
  "active_user 1 sample_database"
  "effective_user_limit 1 ul sample_database = map_option limit_to_i64 ul"
  "traffic_monthly sample_database = Map.empty"
  "user_traffic_monthly sample_database = Map.empty"
  "group_traffic_monthly sample_database = Map.empty"
  by (simp_all add: joined_group_def joined_group_limit_def active_user_def sample_database_def
      empty_database_def effective_user_limit_def)

theorem hierarchical_reservation_atomic_witness:
  "\<exists>db'. try_reserve_hierarchical_bytes ''2026-07'' 1 (Some 100) (Some 8) 6 sample_database =
     (Reserved (Some 7), db') \<and> reserved_of (group_traffic_monthly db') (''2026-07'', 7) = 6
     \<and> reserved_of (traffic_monthly db') ''2026-07'' \<le> 100"
proof -
  obtain out db' where e: "try_reserve_hierarchical_bytes ''2026-07'' 1 (Some 100) (Some 8) 6
      sample_database = (out, db')"
    by (cases "try_reserve_hierarchical_bytes ''2026-07'' 1 (Some 100) (Some 8) 6 sample_database")
  have six: "limit_to_i64 6 = 6" "limit_to_i64 8 = 8" "limit_to_i64 100 = 100"
    by (simp_all add: limit_to_i64_def I64_MAX_def)
  note p = hierarchical_reservation_atomic[OF e]
  then have "\<exists>grp. out = Reserved grp"
    by (simp add: sample_simps six)
  then obtain grp where "out = Reserved grp" by blast
  then have "out = Reserved (Some 7) \<and> reserved_of (group_traffic_monthly db') (''2026-07'', 7) = 6
     \<and> reserved_of (traffic_monthly db') ''2026-07'' \<le> 100"
    using p by (auto simp: sample_simps six usage_defs)
  then show ?thesis using e by auto
qed

section \<open>The schema's constraints and the target policy\<close>

text \<open>The keys and references the migrations declare: unique group ids and names, one row
  per group and member, at most one billing row per user, no dangling reference.\<close>

definition group_ids :: "database \<Rightarrow> int set" where
  "group_ids db = g_id ` set (groups db)"

definition schema_ok :: "database \<Rightarrow> bool" where
  "schema_ok db \<longleftrightarrow>
     distinct (map g_id (groups db)) \<and> distinct (map g_name (groups db))
     \<and> (\<forall>g\<in>set (groups db). g_id g \<le> groups_seq db)
     \<and> distinct (map (\<lambda>m. (m_group_id m, m_user_id m)) (group_members db))
     \<and> distinct (map m_user_id (filter is_billing (group_members db)))
     \<and> (\<forall>m\<in>set (group_members db). m_group_id m \<in> group_ids db \<and> users db (m_user_id m) \<noteq> None)
     \<and> distinct (group_target_access_rows db)
     \<and> (\<forall>a\<in>set (group_target_access_rows db). fst a \<in> group_ids db)"

lemma audit_simps [simp]:
  "users (audit n a b c db) = users db" "groups (audit n a b c db) = groups db"
  "groups_seq (audit n a b c db) = groups_seq db"
  "group_quota_settings (audit n a b c db) = group_quota_settings db"
  "group_members (audit n a b c db) = group_members db"
  "user_quota_overrides (audit n a b c db) = user_quota_overrides db"
  "group_target_access_rows (audit n a b c db) = group_target_access_rows db"
  "traffic_monthly (audit n a b c db) = traffic_monthly db"
  "user_traffic_monthly (audit n a b c db) = user_traffic_monthly db"
  "group_traffic_monthly (audit n a b c db) = group_traffic_monthly db"
  by (simp_all add: audit_def)

lemma schema_ok_empty: "schema_ok empty_database"
  by (simp add: schema_ok_def empty_database_def)

lemma create_billing_group_schema:
  assumes "schema_ok db"
  shows "schema_ok (snd (create_billing_group now actor name limit db))"
  using assms
  by (force simp: create_billing_group_def schema_ok_def group_ids_def Let_def)

lemma renamed_ids: "map g_id (map (\<lambda>g. if P g then g\<lparr>g_name := n\<rparr> else g) gs) = map g_id gs"
  by (induction gs) auto

lemma renamed_names:
  assumes "distinct (map g_name gs)" "distinct (map g_id gs)"
    "\<forall>g\<in>set gs. g_id g \<noteq> gid \<longrightarrow> g_name g \<noteq> n"
  shows "distinct (map g_name (map (\<lambda>g. if g_id g = gid \<and> P g then g\<lparr>g_name := n\<rparr> else g) gs))"
proof -
  have i: "inj_on g_id (set gs)" "inj_on g_name (set gs)" "distinct gs"
    using assms by (simp_all add: distinct_map)
  have "inj_on (\<lambda>g. if g_id g = gid \<and> P g then n else g_name g) (set gs)"
    using i(1,2) assms(3) unfolding inj_on_def by (metis (no_types))
  moreover have "map g_name (map (\<lambda>g. if g_id g = gid \<and> P g then g\<lparr>g_name := n\<rparr> else g) gs) =
      map (\<lambda>g. if g_id g = gid \<and> P g then n else g_name g) gs"
    by simp
  ultimately show ?thesis
    using i(3) by (simp only: distinct_map)
qed

lemma update_billing_group_schema:
  assumes "schema_ok db"
  shows "schema_ok (snd (update_billing_group now actor gid name limit db))"
proof (cases "billing_group_exists gid db \<and> \<not> (\<exists>g\<in>set (groups db). g_id g \<noteq> gid \<and> g_name g = name)")
  case True
  let ?f = "\<lambda>g. if g_id g = gid \<and> kind g = ''billing'' then g\<lparr>g_name := name\<rparr> else g"
  let ?db = "snd (update_billing_group now actor gid name limit db)"
  have d: "groups ?db = map ?f (groups db)" "groups_seq ?db = groups_seq db" "users ?db = users db"
    "group_members ?db = group_members db"
    "group_target_access_rows ?db = group_target_access_rows db"
    using True by (auto simp: update_billing_group_def Let_def)
  have i: "map g_id (map ?f (groups db)) = map g_id (groups db)"
    by (rule renamed_ids)
  have n: "distinct (map g_name (map ?f (groups db)))"
    using True assms by (intro renamed_names) (auto simp: schema_ok_def)
  have s: "group_ids ?db = group_ids db"
    unfolding group_ids_def d by (metis i list.set_map)
  have q: "\<forall>g\<in>set (map ?f (groups db)). g_id g \<le> groups_seq db"
    using assms by (auto simp: schema_ok_def)
  show ?thesis
    using assms n q unfolding schema_ok_def s d i by blast
next
  case False
  then have "snd (update_billing_group now actor gid name limit db) = db"
    by (auto simp: update_billing_group_def)
  then show ?thesis using assms by simp
qed

lemma insert_targets_eq:
  "insert_targets gid codes rows =
     (if distinct codes \<and> (\<forall>t\<in>set codes. (gid, t) \<notin> set rows)
      then Some (rows @ map (Pair gid) codes) else None)"
  by (induction codes arbitrary: rows) auto

lemma set_group_target_access_ok:
  "set_group_target_access now actor gid codes db = (Inr True, db') \<longleftrightarrow>
     billing_group_exists gid db \<and> distinct codes \<and>
     db' = audit now actor ''group_target_access_updated''
               (''group_id='' @ dec_of_int gid @ '', targets='' @ join '','' codes)
               (db\<lparr>group_target_access_rows :=
                  filter (\<lambda>a. fst a \<noteq> gid) (group_target_access_rows db) @ map (Pair gid) codes\<rparr>)"
  by (auto simp: set_group_target_access_def insert_targets_eq)

lemma set_group_target_access_schema:
  assumes "schema_ok db"
  shows "schema_ok (snd (set_group_target_access now actor gid codes db))"
proof (cases "set_group_target_access now actor gid codes db")
  case (Pair r db')
  show ?thesis
  proof (cases "r = Inr True")
    case True
    then have e: "billing_group_exists gid db" "distinct codes"
      "groups db' = groups db" "groups_seq db' = groups_seq db" "users db' = users db"
      "group_members db' = group_members db"
      "group_target_access_rows db' =
         filter (\<lambda>a. fst a \<noteq> gid) (group_target_access_rows db) @ map (Pair gid) codes"
      using Pair set_group_target_access_ok[of now actor gid codes db db'] by auto
    have "gid \<in> group_ids db" using e(1) by (auto simp: billing_group_exists_def group_ids_def)
    with assms e show ?thesis
      by (auto simp: Pair schema_ok_def group_ids_def distinct_map inj_on_def)
  next
    case False
    then have "db' = db"
      using Pair by (auto simp: set_group_target_access_def split: if_splits option.splits)
    then show ?thesis using assms Pair by simp
  qed
qed

lemma upsert_member_billing:
  assumes "\<forall>m\<in>set rows. \<not> (m_user_id m = u \<and> is_billing m)"
    "distinct (map (\<lambda>m. (m_group_id m, m_user_id m)) rows)"
    "distinct (map m_user_id (filter is_billing rows))"
  shows "distinct (map (\<lambda>m. (m_group_id m, m_user_id m)) (upsert_member gid u rows))"
    and "distinct (map m_user_id (filter is_billing (upsert_member gid u rows)))"
proof -
  have k: "map (\<lambda>m. (m_group_id m, m_user_id m))
     (map (\<lambda>m. if m_group_id m = gid \<and> m_user_id m = u then m\<lparr>is_billing := True\<rparr> else m) rows) =
     map (\<lambda>m. (m_group_id m, m_user_id m)) rows"
    by (induction rows) auto
  show "distinct (map (\<lambda>m. (m_group_id m, m_user_id m)) (upsert_member gid u rows))"
  proof (cases "\<exists>m\<in>set rows. m_group_id m = gid \<and> m_user_id m = u")
    case True
    then have "map (\<lambda>m. (m_group_id m, m_user_id m)) (upsert_member gid u rows) =
        map (\<lambda>m. (m_group_id m, m_user_id m)) rows"
      using k by (simp only: upsert_member_def if_True)
    then show ?thesis using assms(2) by (simp only:)
  next
    case False
    then show ?thesis using assms(2) by (auto simp: upsert_member_def)
  qed
  have "distinct (map m_user_id (filter is_billing
     (map (\<lambda>m. if m_group_id m = gid \<and> m_user_id m = u then m\<lparr>is_billing := True\<rparr> else m) rows)))"
    (is "distinct (map m_user_id (filter is_billing (map ?f rows)))")
  proof -
    have e: "map m_user_id (filter is_billing (map ?f rows)) =
        map m_user_id (filter (\<lambda>m. is_billing m \<or> m_group_id m = gid \<and> m_user_id m = u) rows)"
      by (induction rows) auto
    have "inj_on (\<lambda>m. (m_group_id m, m_user_id m)) (set rows)" "distinct rows"
      using assms(2) by (simp_all add: distinct_map)
    moreover have "inj_on m_user_id (set (filter is_billing rows))"
      using assms(3) by (simp add: distinct_map)
    ultimately have "inj_on m_user_id
        (set (filter (\<lambda>m. is_billing m \<or> m_group_id m = gid \<and> m_user_id m = u) rows))"
      using assms(1) unfolding inj_on_def by auto
    then show ?thesis
      unfolding e using \<open>distinct rows\<close> by (simp add: distinct_map)
  qed
  then show "distinct (map m_user_id (filter is_billing (upsert_member gid u rows)))"
    using assms(1,3) unfolding upsert_member_def by auto
qed

lemma distinct_map_filter_filter:
  "distinct (map f (filter P xs)) \<Longrightarrow> distinct (map f (filter P (filter Q xs)))"
  by (induction xs) auto

lemma set_user_billing_profile_schema:
  assumes "schema_ok db"
  shows "schema_ok (snd (set_user_billing_profile now actor u grp mode limit db))"
proof (cases "live_user u db \<and> (case grp of None \<Rightarrow> True | Some gid \<Rightarrow> billing_group_exists gid db)")
  case True
  let ?rows = "filter (\<lambda>m. \<not> (m_user_id m = u \<and> is_billing m)) (group_members db)"
  let ?new = "case grp of None \<Rightarrow> ?rows | Some gid \<Rightarrow> upsert_member gid u ?rows"
  let ?db = "snd (set_user_billing_profile now actor u grp mode limit db)"
  have d: "groups ?db = groups db" "groups_seq ?db = groups_seq db" "users ?db = users db"
    "group_members ?db = ?new" "group_target_access_rows ?db = group_target_access_rows db"
    using True by (auto simp: set_user_billing_profile_def Let_def split: option.splits)
  have r: "\<forall>m\<in>set ?rows. \<not> (m_user_id m = u \<and> is_billing m)"
    "distinct (map (\<lambda>m. (m_group_id m, m_user_id m)) ?rows)"
    "distinct (map m_user_id (filter is_billing ?rows))"
    using assms distinct_map_filter_filter[of m_user_id is_billing "group_members db"]
    by (auto simp: schema_ok_def distinct_map_filter simp del: filter_filter)
  have n: "distinct (map (\<lambda>m. (m_group_id m, m_user_id m)) ?new)"
    "distinct (map m_user_id (filter is_billing ?new))"
    using upsert_member_billing[OF r] r(2,3) by (auto split: option.splits)
  have "users db u \<noteq> None"
    using True by (auto simp: live_user_def split: option.splits)
  then have m: "\<forall>m\<in>set ?new. m_group_id m \<in> group_ids db \<and> users db (m_user_id m) \<noteq> None"
    using True assms
    by (auto simp: upsert_member_def schema_ok_def billing_group_exists_def group_ids_def
        split: option.splits if_splits)
  show ?thesis
    using assms n m unfolding schema_ok_def group_ids_def d by blast
next
  case False
  then have "snd (set_user_billing_profile now actor u grp mode limit db) = db"
    by (auto simp: set_user_billing_profile_def split: option.splits)
  then show ?thesis using assms by simp
qed

lemma find_filter_hd: "filter P xs = y # ys \<Longrightarrow> find P xs = Some y"
  by (induction xs) (auto split: if_splits)

lemma filter_by_key:
  assumes "distinct (map f xs)"
  shows "filter (\<lambda>x. f x = k \<and> P x) xs =
     (case find (\<lambda>x. f x = k) xs of None \<Rightarrow> [] | Some x \<Rightarrow> if P x then [x] else [])"
  using assms
proof (induction xs)
  case (Cons a xs)
  have "f a = k \<Longrightarrow> filter (\<lambda>x. f x = k \<and> P x) xs = []"
    using Cons.prems by (auto simp: filter_empty_conv rev_image_eqI)
  then show ?case using Cons by simp
qed simp

lemma unique_by_key:
  "distinct (map f xs) \<Longrightarrow> x \<in> set xs \<Longrightarrow> y \<in> set xs \<Longrightarrow> f x = f y \<Longrightarrow> x = y"
  by (auto simp: distinct_map inj_on_def)

lemma joined_group_mem: "joined_group u db = Some g \<Longrightarrow> g \<in> set (groups db)"
  by (auto simp: joined_group_def find_Some_iff split: option.splits)

lemma billing_groups_of_shape:
  assumes "schema_ok db"
  shows "billing_groups_of u db = (case joined_group u db of None \<Rightarrow> []
     | Some g \<Rightarrow> if kind g = ''billing'' then [g] else [])"
proof -
  let ?ms = "filter (\<lambda>m. m_user_id m = u \<and> is_billing m) (group_members db)"
  have "distinct (map m_user_id ?ms)"
    using assms distinct_map_filter_filter[of m_user_id is_billing "group_members db" "\<lambda>m. m_user_id m = u"]
    by (simp add: schema_ok_def conj_commute)
  moreover have "set (map m_user_id ?ms) \<subseteq> {u}" by auto
  ultimately have "length ?ms \<le> 1"
    using card_mono[of "{u}" "set (map m_user_id ?ms)"] distinct_card[of "map m_user_id ?ms"] by simp
  then consider (none) "?ms = []" | (one) m where "?ms = [m]"
    by (cases ?ms) (auto simp: le_Suc_eq)
  then show ?thesis
  proof cases
    case none
    then have "find (\<lambda>m. m_user_id m = u \<and> is_billing m) (group_members db) = None"
      by (auto simp: find_None_iff filter_empty_conv)
    then show ?thesis using none by (simp add: billing_groups_of_def joined_group_def)
  next
    case one
    have "find (\<lambda>m. m_user_id m = u \<and> is_billing m) (group_members db) = Some m"
      using one by (simp add: find_filter_hd)
    moreover have "filter (\<lambda>g. g_id g = m_group_id m \<and> kind g = ''billing'') (groups db) =
        (case find (\<lambda>g. g_id g = m_group_id m) (groups db) of None \<Rightarrow> []
         | Some g \<Rightarrow> if kind g = ''billing'' then [g] else [])"
      using assms by (intro filter_by_key) (simp add: schema_ok_def)
    ultimately show ?thesis
      using one by (simp add: billing_groups_of_def joined_group_def)
  qed
qed

lemma user_target_allowed_iff:
  assumes "schema_ok db"
  shows "user_target_allowed u t db \<longleftrightarrow>
    (case joined_group u db of None \<Rightarrow> True
     | Some g \<Rightarrow> kind g = ''billing'' \<longrightarrow>
         (\<forall>a\<in>set (group_target_access_rows db). fst a \<noteq> g_id g)
         \<or> (g_id g, t) \<in> set (group_target_access_rows db))"
  unfolding user_target_allowed_def billing_groups_of_shape[OF assms] Let_def
  by (auto simp: filter_empty_conv length_greater_0_conv[symmetric] simp del: length_greater_0_conv
      split: option.splits) (auto simp: filter_empty_conv)

text \<open>Replacing a group's target policy does what it says and nothing else.  In a database
  that satisfies the schema, a successful \<open>set_group_target_access\<close> keeps the schema, is
  read back by \<open>group_target_access\<close>, and afterwards a user whose billing group it is may
  use exactly the listed targets (every target when the list is empty), while every other
  user keeps the access he had.  A list with a repeated target is refused with the
  database unchanged.\<close>

theorem target_policy_round_trip:
  assumes "schema_ok db" and "billing_group_exists gid db"
  shows "(distinct codes \<longrightarrow>
     (\<exists>db'. set_group_target_access now actor gid codes db = (Inr True, db')
        \<and> schema_ok db'
        \<and> group_target_access gid db' = Some \<lparr>gta_group_id = gid, target_codes = sort codes\<rparr>
        \<and> (\<forall>u t. user_target_allowed u t db' \<longleftrightarrow>
             (if map_option g_id (joined_group u db) = Some gid then codes = [] \<or> t \<in> set codes
              else user_target_allowed u t db))))
    \<and> (\<not> distinct codes \<longrightarrow>
     set_group_target_access now actor gid codes db = (Inl UniqueViolation, db))"
proof (intro conjI)
  show "\<not> distinct codes \<longrightarrow>
      set_group_target_access now actor gid codes db = (Inl UniqueViolation, db)"
    using assms by (simp add: set_group_target_access_def insert_targets_eq)
  show "distinct codes \<longrightarrow>
     (\<exists>db'. set_group_target_access now actor gid codes db = (Inr True, db')
        \<and> schema_ok db'
        \<and> group_target_access gid db' = Some \<lparr>gta_group_id = gid, target_codes = sort codes\<rparr>
        \<and> (\<forall>u t. user_target_allowed u t db' \<longleftrightarrow>
             (if map_option g_id (joined_group u db) = Some gid then codes = [] \<or> t \<in> set codes
              else user_target_allowed u t db)))"
  proof
    assume d: "distinct codes"
    define db' where "db' = snd (set_group_target_access now actor gid codes db)"
    have e: "set_group_target_access now actor gid codes db = (Inr True, db')"
      using assms d by (simp add: db'_def set_group_target_access_def insert_targets_eq)
    have ok: "schema_ok db'"
      unfolding db'_def by (rule set_group_target_access_schema[OF assms(1)])
    have f: "groups db' = groups db" "group_members db' = group_members db"
      "group_target_access_rows db' =
         filter (\<lambda>a. fst a \<noteq> gid) (group_target_access_rows db) @ map (Pair gid) codes"
      using e set_group_target_access_ok[of now actor gid codes db db'] by auto
    have j: "joined_group u db' = joined_group u db" for u
      unfolding joined_group_def f by (rule refl)
    have k: "kind g = ''billing''" if "joined_group u db = Some g" "g_id g = gid" for u g
    proof -
      have "distinct (map g_id (groups db))" using assms(1) by (simp add: schema_ok_def)
      moreover obtain g' where "g' \<in> set (groups db)" "g_id g' = gid" "kind g' = ''billing''"
        using assms(2) by (auto simp: billing_group_exists_def)
      ultimately show ?thesis
        using that joined_group_mem[OF that(1)] unique_by_key[of g_id "groups db" g g'] by simp
    qed
    have "group_target_access gid db' = Some \<lparr>gta_group_id = gid, target_codes = sort codes\<rparr>"
      using assms(2) by (simp add: group_target_access_def billing_group_exists_def f o_def)
    moreover have "user_target_allowed u t db' \<longleftrightarrow>
        (if map_option g_id (joined_group u db) = Some gid then codes = [] \<or> t \<in> set codes
         else user_target_allowed u t db)" for u t
      unfolding user_target_allowed_iff[OF ok] user_target_allowed_iff[OF assms(1)] j f
      using k by (cases "joined_group u db") (auto simp: ball_Un)
    ultimately show "\<exists>db'. set_group_target_access now actor gid codes db = (Inr True, db')
        \<and> schema_ok db'
        \<and> group_target_access gid db' = Some \<lparr>gta_group_id = gid, target_codes = sort codes\<rparr>
        \<and> (\<forall>u t. user_target_allowed u t db' \<longleftrightarrow>
             (if map_option g_id (joined_group u db) = Some gid then codes = [] \<or> t \<in> set codes
              else user_target_allowed u t db))"
      using e ok by blast
  qed
qed

end
