(* ===== verification/Traffic.thy ===== *)
theory Traffic
  imports Quota_Db
begin

text \<open>
  Quota accounting of proxied responses: \<open>crates/server/src/traffic.rs\<close>.  A \<open>ProxyTraffic\<close>
  guard owns a reservation from the moment it is committed; whoever holds the guard
  settles it, at the end of the body, on a body error, or when the guard is dropped.
  Settlement runs in a detached task, so tasks of different requests interleave freely
  with each other, with new reservations and with administration.

  The guard's methods are functions that return the spawned task as a value.  The machine
  at the end runs them for any number of concurrent requests, one database transaction at
  a time, which is the granularity SQLite serialises.  It keeps two ghost lists, the ids
  admitted and the records settled, to state conservation.
\<close>

section \<open>The guard\<close>

record traffic_record =
  t_day :: string
  t_month :: string
  t_target_code :: string
  t_method :: string
  t_path :: string
  t_status_code :: nat
  t_response_bytes :: nat
  t_reserved_bytes :: nat
  t_accounting_multiplier :: nat
  t_user_id :: "int option"
  t_group_id :: "int option"
  t_request_event_retention_days :: nat
  t_location :: geo_location

record proxy_traffic =
  pt_record :: "traffic_record option"
  armed :: bool

record traffic_args =
  ta_day :: string
  ta_month :: string
  ta_target_code :: string
  ta_method :: string
  ta_path :: string
  ta_accounting_multiplier :: nat
  ta_user_id :: "int option"
  ta_request_event_retention_days :: nat
  ta_location :: geo_location

datatype reservation_error = QuotaExceeded string | DatabaseFailed

definition ProxyTraffic_new :: "traffic_args \<Rightarrow> proxy_traffic" where
  "ProxyTraffic_new a = \<lparr>pt_record = Some
     \<lparr>t_day = ta_day a, t_month = ta_month a, t_target_code = ta_target_code a,
      t_method = ta_method a, t_path = ta_path a, t_status_code = 499,
      t_response_bytes = 0, t_reserved_bytes = 0,
      t_accounting_multiplier = ta_accounting_multiplier a, t_user_id = ta_user_id a,
      t_group_id = None,
      t_request_event_retention_days = ta_request_event_retention_days a,
      t_location = ta_location a\<rparr>, armed = False\<rparr>"

text \<open>A missing record panics inside the spawned task, which the caller sees as a failed
  join.\<close>

definition reserve ::
  "nat option \<Rightarrow> nat option \<Rightarrow> nat \<Rightarrow> proxy_traffic \<Rightarrow> database
     \<Rightarrow> (reservation_error + proxy_traffic) \<times> database" where
  "reserve global_limit default_user_limit bytes g db =
     (case pt_record g of
        None \<Rightarrow> (Inl DatabaseFailed, db)
      | Some r \<Rightarrow>
          (case t_user_id r of
             Some user_id \<Rightarrow>
               (case try_reserve_hierarchical_bytes (t_month r) user_id global_limit
                       default_user_limit bytes db of
                  (Reserved group_id, db') \<Rightarrow>
                    (Inr (g\<lparr>pt_record := Some (r\<lparr>t_group_id := group_id,
                       t_reserved_bytes := bytes\<rparr>), armed := True\<rparr>), db')
                | (Exceeded scope, db') \<Rightarrow> (Inl (QuotaExceeded scope), db'))
           | None \<Rightarrow>
               (case global_limit of
                  Some limit \<Rightarrow>
                    (case try_reserve_monthly_bytes (t_month r) limit bytes db of
                       (False, db') \<Rightarrow> (Inl (QuotaExceeded ''global''), db')
                     | (True, db') \<Rightarrow>
                         (Inr (g\<lparr>pt_record := Some (r\<lparr>t_reserved_bytes := bytes\<rparr>),
                            armed := True\<rparr>), db'))
                | None \<Rightarrow> (Inr (g\<lparr>armed := True\<rparr>), db))))"

text \<open>The record the settlement task passes to \<open>record_proxy_response\<close>.\<close>

definition settlement :: "bool \<Rightarrow> traffic_record \<Rightarrow> proxy_traffic_record" where
  "settlement stream_error r =
     \<lparr>p_day = t_day r, p_month = t_month r, p_target_code = t_target_code r,
      p_method = t_method r, p_path = t_path r, p_status_code = t_status_code r,
      p_response_bytes = sat_mul (t_response_bytes r) (t_accounting_multiplier r),
      p_delivered_response_bytes = t_response_bytes r, p_stream_error = stream_error,
      p_reserved_bytes = t_reserved_bytes r, p_user_id = t_user_id r,
      p_group_id = t_group_id r,
      p_request_event_retention_days = t_request_event_retention_days r,
      p_location = t_location r\<rparr>"

definition settle :: "bool \<Rightarrow> proxy_traffic \<Rightarrow> proxy_traffic \<times> proxy_traffic_record list" where
  "settle stream_error g =
     (if \<not> armed g then (g, [])
      else (case pt_record g of
          None \<Rightarrow> (g\<lparr>armed := False\<rparr>, [])
        | Some r \<Rightarrow> (g\<lparr>armed := False, pt_record := None\<rparr>, [settlement stream_error r])))"

text \<open>\<open>Drop\<close>, and \<open>finish\<close> followed by the drop of the guard it was called on.\<close>

definition drop_traffic :: "proxy_traffic \<Rightarrow> proxy_traffic_record list" where
  "drop_traffic g = snd (settle True g)"

definition settle_and_drop :: "bool \<Rightarrow> proxy_traffic \<Rightarrow> proxy_traffic_record list" where
  "settle_and_drop stream_error g =
     (let (g', spawned) = settle stream_error g in spawned @ drop_traffic g')"

definition is_informational :: "nat \<Rightarrow> bool" where
  "is_informational status \<longleftrightarrow> 100 \<le> status \<and> status < 200"

text \<open>\<open>track_proxy_response\<close>: the guard moved into the body, if it is, and the tasks spawned.
  \<open>None\<close> is the panic of \<open>expect\<close>.\<close>

definition track_proxy_response ::
  "nat \<Rightarrow> proxy_traffic \<Rightarrow> (proxy_traffic option \<times> proxy_traffic_record list) option" where
  "track_proxy_response status g =
     (case pt_record g of
        None \<Rightarrow> None
      | Some r \<Rightarrow>
          (let g' = g\<lparr>pt_record := Some (r\<lparr>t_status_code := status\<rparr>)\<rparr>
           in if t_method r = ''HEAD'' \<or> is_informational status \<or> status \<in> {204, 304}
              then Some (None, settle_and_drop False g')
              else Some (Some g', [])))"

datatype body_item = Chunk nat | BodyError | BodyEnd

text \<open>One poll of the tracked body.  The guard is \<open>None\<close> after an error was delivered.\<close>

definition poll_body ::
  "body_item \<Rightarrow> proxy_traffic option \<Rightarrow> (proxy_traffic option \<times> proxy_traffic_record list) option"
where
  "poll_body item traffic =
     (case traffic of
        None \<Rightarrow> Some (None, [])
      | Some g \<Rightarrow>
          (case item of
             Chunk n \<Rightarrow>
               (case pt_record g of
                  None \<Rightarrow> None
                | Some r \<Rightarrow> Some (Some (g\<lparr>pt_record := Some (r\<lparr>t_response_bytes :=
                      sat_add (t_response_bytes r) n\<rparr>)\<rparr>), []))
           | BodyError \<Rightarrow> Some (None, settle_and_drop True g)
           | BodyEnd \<Rightarrow> Some (None, settle_and_drop False g)))"

section \<open>Concurrent requests\<close>

datatype conn = Handling proxy_traffic | Streaming "proxy_traffic option"

record accounting =
  ac_db :: database
  conns :: "(nat \<times> conn) list"
  tasks :: "(nat \<times> proxy_traffic_record) list"
  admitted :: "nat list"
  settled :: "(nat \<times> proxy_traffic_record) list"

datatype admin_op =
    CreateGroup int string string "nat option"
  | UpdateGroup int string int string "nat option"
  | SetTargets int string int "string list"
  | SetProfile int string int "int option" string "nat option"
  | MarkExceeded string
  | PutUser int user_row

fun admin_step :: "admin_op \<Rightarrow> database \<Rightarrow> database" where
  "admin_step (CreateGroup now actor name limit) db = snd (create_billing_group now actor name limit db)"
| "admin_step (UpdateGroup now actor gid name limit) db =
     snd (update_billing_group now actor gid name limit db)"
| "admin_step (SetTargets now actor gid codes) db = snd (set_group_target_access now actor gid codes db)"
| "admin_step (SetProfile now actor u grp mode limit) db =
     snd (set_user_billing_profile now actor u grp mode limit db)"
| "admin_step (MarkExceeded month) db = mark_month_quota_exceeded month db"
| "admin_step (PutUser u row) db = db\<lparr>users := (users db)(u \<mapsto> row)\<rparr>"

datatype event =
    Admit nat traffic_args "nat option" "nat option" nat
  | Respond nat nat
  | Poll nat body_item
  | Disconnect nat
  | RunTask nat int
  | Admin admin_op

text \<open>The element at an index and the list without it.\<close>

definition pick :: "nat \<Rightarrow> 'a list \<Rightarrow> ('a \<times> 'a list) option" where
  "pick i xs = (if i < length xs then Some (xs ! i, take i xs @ drop (Suc i) xs) else None)"

definition spawn :: "nat \<Rightarrow> proxy_traffic_record list \<Rightarrow> accounting \<Rightarrow> accounting" where
  "spawn i rs s = s\<lparr>tasks := tasks s @ map (Pair i) rs\<rparr>"

text \<open>What dropping a connection does: the guard it holds, if any, is dropped with it.\<close>

fun conn_guard :: "conn \<Rightarrow> proxy_traffic option" where
  "conn_guard (Handling g) = Some g"
| "conn_guard (Streaming t) = t"

definition drop_conn :: "conn \<Rightarrow> proxy_traffic_record list" where
  "drop_conn c = (case conn_guard c of None \<Rightarrow> [] | Some g \<Rightarrow> drop_traffic g)"

fun respond :: "nat \<Rightarrow> conn \<Rightarrow> conn option \<times> proxy_traffic_record list" where
  "respond status (Handling g) = (case track_proxy_response status g of
       None \<Rightarrow> (None, drop_traffic g)
     | Some (None, rs) \<Rightarrow> (None, rs)
     | Some (Some g', rs) \<Rightarrow> (Some (Streaming (Some g')), rs))"
| "respond status (Streaming t) = (Some (Streaming t), [])"

fun poll_conn :: "body_item \<Rightarrow> conn \<Rightarrow> conn option \<times> proxy_traffic_record list" where
  "poll_conn item (Streaming t) = (case poll_body item t of
       None \<Rightarrow> (None, drop_conn (Streaming t))
     | Some (t', rs) \<Rightarrow> (Some (Streaming t'), rs))"
| "poll_conn item (Handling g) = (Some (Handling g), [])"

definition with_conn ::
  "nat \<Rightarrow> (conn \<Rightarrow> conn option \<times> proxy_traffic_record list) \<Rightarrow> accounting \<Rightarrow> accounting" where
  "with_conn i f s = (case pick i (conns s) of
       None \<Rightarrow> s
     | Some ((ident, c), others) \<Rightarrow>
         (case f c of
            (None, rs) \<Rightarrow> spawn ident rs (s\<lparr>conns := others\<rparr>)
          | (Some c', rs) \<Rightarrow> spawn ident rs (s\<lparr>conns := others @ [(ident, c')]\<rparr>)))"

text \<open>A request is admitted under an id not used before.  A settlement task whose
  transaction fails is logged and gone.\<close>

fun accounting_step :: "event \<Rightarrow> accounting \<Rightarrow> accounting" where
  "accounting_step (Admit ident args gl ul n) s =
     (if ident \<in> set (admitted s) then s
      else (case reserve gl ul n (ProxyTraffic_new args) (ac_db s) of
          (Inl _, db') \<Rightarrow> s\<lparr>ac_db := db'\<rparr>
        | (Inr g, db') \<Rightarrow> s\<lparr>ac_db := db', conns := conns s @ [(ident, Handling g)],
             admitted := admitted s @ [ident]\<rparr>))"
| "accounting_step (Respond i status) s = with_conn i (respond status) s"
| "accounting_step (Poll i item) s = with_conn i (poll_conn item) s"
| "accounting_step (Disconnect i) s = with_conn i (\<lambda>c. (None, drop_conn c)) s"
| "accounting_step (RunTask i now) s = (case pick i (tasks s) of
       None \<Rightarrow> s
     | Some ((ident, r), others) \<Rightarrow>
         (case record_proxy_response now r (ac_db s) of
            (Inl _, db') \<Rightarrow> s\<lparr>ac_db := db', tasks := others\<rparr>
          | (Inr _, db') \<Rightarrow> s\<lparr>ac_db := db', tasks := others, settled := settled s @ [(ident, r)]\<rparr>))"
| "accounting_step (Admin op) s = s\<lparr>ac_db := admin_step op (ac_db s)\<rparr>"

definition start :: "database \<Rightarrow> accounting" where
  "start db = \<lparr>ac_db = db, conns = [], tasks = [], admitted = [], settled = []\<rparr>"

definition run :: "event list \<Rightarrow> accounting \<Rightarrow> accounting" where
  "run evs s = fold accounting_step evs s"

section \<open>Claims\<close>

text \<open>What a guard or a spawned task still owes the database: the reservation it must
  release.  Neither the body, the status nor the error flag matters to it.\<close>

record claim =
  cl_month :: string
  cl_user :: "int option"
  cl_group :: "int option"
  cl_bytes :: nat

definition claim_of :: "proxy_traffic_record \<Rightarrow> claim" where
  "claim_of r = \<lparr>cl_month = p_month r, cl_user = p_user_id r, cl_group = p_group_id r,
     cl_bytes = p_reserved_bytes r\<rparr>"

definition guard_claims :: "proxy_traffic \<Rightarrow> claim list" where
  "guard_claims g = (if armed g then (case pt_record g of None \<Rightarrow> []
     | Some r \<Rightarrow> [claim_of (settlement True r)]) else [])"

definition conn_claims :: "conn \<Rightarrow> claim list" where
  "conn_claims c = (case conn_guard c of None \<Rightarrow> [] | Some g \<Rightarrow> guard_claims g)"

definition outstanding :: "accounting \<Rightarrow> (nat \<times> claim) multiset" where
  "outstanding s = mset (map (\<lambda>(i, r). (i, claim_of r)) (tasks s))
     + mset (concat (map (\<lambda>(i, c). map (Pair i) (conn_claims c)) (conns s)))"

lemma pick_mset:
  assumes "pick i xs = Some (x, others)"
  shows "mset xs = add_mset x (mset others)"
proof -
  have "i < length xs" "x = xs ! i" "others = take i xs @ drop (Suc i) xs"
    using assms by (auto simp: pick_def split: if_splits)
  then have "xs = take i xs @ x # drop (Suc i) xs" by (simp add: id_take_nth_drop)
  then show ?thesis
    using \<open>others = _\<close> by (metis mset_append mset.simps(2) union_mset_add_mset_right)
qed

lemma pick_concat:
  assumes "pick i xs = Some (x, others)"
  shows "mset (concat (map f xs)) = mset (f x) + mset (concat (map f others))"
  using arg_cong[OF pick_mset[OF assms], of "\<lambda>M. \<Sum>x\<in>#M. mset (f x)"]
  by (simp add: mset_concat o_def flip: sum_mset_sum_list mset_map)

lemma claim_of_settlement: "claim_of (settlement e r) = claim_of (settlement True r)"
  by (simp add: claim_of_def settlement_def)

lemma settle_and_drop_claims: "map claim_of (settle_and_drop e g) = guard_claims g"
  by (auto simp: settle_and_drop_def drop_traffic_def settle_def guard_claims_def
      claim_of_settlement[of e] split: option.splits)

lemma drop_traffic_claims: "map claim_of (drop_traffic g) = guard_claims g"
  by (auto simp: drop_traffic_def settle_def guard_claims_def split: option.splits)

text \<open>A step of one connection moves its claim to a task or keeps it.\<close>

locale claim_keeping =
  fixes f :: "conn \<Rightarrow> conn option \<times> proxy_traffic_record list"
  assumes keeps: "f c = (c', rs) \<Longrightarrow>
    map claim_of rs @ (case c' of None \<Rightarrow> [] | Some d \<Rightarrow> conn_claims d) = conn_claims c"
begin

lemma with_conn_frame [simp]:
  "ac_db (with_conn i f s) = ac_db s" "admitted (with_conn i f s) = admitted s"
  "settled (with_conn i f s) = settled s"
  by (auto simp: with_conn_def spawn_def split: option.splits prod.splits)

lemma with_conn_outstanding: "outstanding (with_conn i f s) = outstanding s"
proof (cases "pick i (conns s)")
  case None
  then show ?thesis by (simp add: with_conn_def)
next
  case (Some p)
  obtain ident c others where p: "p = ((ident, c), others)" by (cases p) auto
  obtain c' rs where f: "f c = (c', rs)" by (cases "f c") auto
  have k: "mset (map (Pair ident) (conn_claims c)) = mset (map (\<lambda>r. (ident, claim_of r)) rs)
      + mset (case c' of None \<Rightarrow> [] | Some d \<Rightarrow> map (Pair ident) (conn_claims d))"
    using keeps[OF f, symmetric] by (simp add: o_def split: option.splits)
  show ?thesis
    using pick_concat[OF Some[unfolded p], of "\<lambda>(i, c). map (Pair i) (conn_claims c)"] k
    by (cases c')
      (simp_all add: with_conn_def Some p f spawn_def outstanding_def o_def case_prod_beta)
qed

end

interpretation responding: claim_keeping "respond status"
proof
  fix c c' rs
  assume "respond status c = (c', rs)"
  then show "map claim_of rs @ (case c' of None \<Rightarrow> [] | Some d \<Rightarrow> conn_claims d) = conn_claims c"
    by (cases c) (auto simp: track_proxy_response_def Let_def conn_claims_def drop_traffic_claims
        settle_and_drop_def drop_traffic_def settle_def guard_claims_def claim_of_def settlement_def
        split: option.splits if_splits)
qed

interpretation polling: claim_keeping "poll_conn item"
proof
  fix c c' rs
  assume "poll_conn item c = (c', rs)"
  then show "map claim_of rs @ (case c' of None \<Rightarrow> [] | Some d \<Rightarrow> conn_claims d) = conn_claims c"
    by (cases c) (auto simp: poll_body_def conn_claims_def drop_conn_def settle_and_drop_def
        drop_traffic_def settle_def guard_claims_def claim_of_def settlement_def
        split: option.splits body_item.splits)
qed

interpretation disconnecting: claim_keeping "\<lambda>c. (None, drop_conn c)"
  by unfold_locales
    (auto simp: conn_claims_def drop_conn_def drop_traffic_claims split: option.splits)

section \<open>What the transactions do to users, groups and usage\<close>

definition refers :: "database \<Rightarrow> claim \<Rightarrow> bool" where
  "refers db c \<longleftrightarrow> (\<forall>u. cl_user c = Some u \<longrightarrow> users db u \<noteq> None)
     \<and> (\<forall>gid. cl_group c = Some gid \<longrightarrow> gid \<in> group_ids db)"

definition keeps_rows :: "database \<Rightarrow> database \<Rightarrow> bool" where
  "keeps_rows db db' \<longleftrightarrow> dom (users db) \<subseteq> dom (users db') \<and> group_ids db \<subseteq> group_ids db'"

lemma keeps_rows_refers: "keeps_rows db db' \<Longrightarrow> refers db c \<Longrightarrow> refers db' c"
  by (fastforce simp: keeps_rows_def refers_def)

lemma keeps_rows_same: "users db' = users db \<Longrightarrow> groups db' = groups db \<Longrightarrow> keeps_rows db db'"
  by (simp add: keeps_rows_def group_ids_def)

lemma update_billing_group_ids:
  "group_ids (snd (update_billing_group now actor gid name limit db)) = group_ids db"
proof -
  have "map g_id (groups (snd (update_billing_group now actor gid name limit db))) = map g_id (groups db)"
    by (simp add: update_billing_group_def Let_def renamed_ids del: map_map)
  then show ?thesis unfolding group_ids_def by (metis list.set_map)
qed

lemma admin_step_keeps_rows: "keeps_rows db (admin_step op db)"
proof (cases op)
  case (UpdateGroup now actor gid name limit)
  have "users (snd (update_billing_group now actor gid name limit db)) = users db"
    by (simp add: update_billing_group_def Let_def)
  then show ?thesis
    using UpdateGroup by (simp add: keeps_rows_def update_billing_group_ids)
qed (auto simp: keeps_rows_def group_ids_def create_billing_group_def set_group_target_access_def
    set_user_billing_profile_def mark_month_quota_exceeded_def Let_def split: option.splits)

lemma admin_step_usage:
  shows "user_traffic_monthly (admin_step op db) = user_traffic_monthly db"
    and "group_traffic_monthly (admin_step op db) = group_traffic_monthly db"
    and "reserved_of (traffic_monthly (admin_step op db)) = reserved_of (traffic_monthly db)"
    and "billed_of (traffic_monthly (admin_step op db)) = billed_of (traffic_monthly db)"
    and "requests_of (traffic_monthly (admin_step op db)) = requests_of (traffic_monthly db)"
  by (cases op; auto simp: create_billing_group_def update_billing_group_def
      set_group_target_access_def set_user_billing_profile_def mark_month_quota_exceeded_def Let_def
      usage_defs fun_eq_iff new_month_row_def split: option.splits)+

lemma held_database_frame [simp]:
  "users (held_database m u gl ul n db) = users db" "groups (held_database m u gl ul n db) = groups db"
  by (simp_all add: held_database_def Let_def)

definition in_month :: "string \<Rightarrow> claim \<Rightarrow> bool" where
  "in_month m c \<longleftrightarrow> cl_month c = m"

definition in_user :: "string \<times> int \<Rightarrow> claim \<Rightarrow> bool" where
  "in_user k c \<longleftrightarrow> cl_month c = fst k \<and> cl_user c = Some (snd k)"

definition in_group :: "string \<times> int \<Rightarrow> claim \<Rightarrow> bool" where
  "in_group k c \<longleftrightarrow> cl_month c = fst k \<and> cl_group c = Some (snd k)"

lemmas in_scope_defs = in_month_def in_user_def in_group_def

definition part :: "('k \<Rightarrow> claim \<Rightarrow> bool) \<Rightarrow> 'k \<Rightarrow> claim \<Rightarrow> int" where
  "part P k c = (if P k c then limit_to_i64 (cl_bytes c) else 0)"

lemma part_nonneg [simp]: "0 \<le> part P k c"
  by (simp add: part_def)

text \<open>The usage of the three scopes, as one value: reserved, billed and counted.\<close>

definition month_usage :: "database \<Rightarrow> string \<Rightarrow> int \<times> int \<times> int" where
  "month_usage db m = (reserved_of (traffic_monthly db) m, billed_of (traffic_monthly db) m,
     requests_of (traffic_monthly db) m)"

definition user_usage :: "database \<Rightarrow> string \<times> int \<Rightarrow> int \<times> int \<times> int" where
  "user_usage db k = (reserved_of (user_traffic_monthly db) k, billed_of (user_traffic_monthly db) k,
     requests_of (user_traffic_monthly db) k)"

definition group_usage :: "database \<Rightarrow> string \<times> int \<Rightarrow> int \<times> int \<times> int" where
  "group_usage db k = (reserved_of (group_traffic_monthly db) k, billed_of (group_traffic_monthly db) k,
     requests_of (group_traffic_monthly db) k)"

lemmas scope_usage_defs = month_usage_def user_usage_def group_usage_def

definition holds_more :: "(database \<Rightarrow> 'k \<Rightarrow> int \<times> int \<times> int) \<Rightarrow> ('k \<Rightarrow> claim \<Rightarrow> bool)
     \<Rightarrow> claim \<Rightarrow> database \<Rightarrow> database \<Rightarrow> bool" where
  "holds_more usage P c db db' \<longleftrightarrow>
     (\<forall>k. usage db' k = (fst (usage db k) + part P k c, snd (usage db k)))"

lemma try_reserve_monthly_shape:
  "try_reserve_monthly_bytes m l n db =
     (has_room (Some (limit_to_i64 l)) (limit_to_i64 n) (traffic_monthly db) m,
      db\<lparr>traffic_monthly := hold new_month_row (limit_to_i64 n) (Some (limit_to_i64 l)) m
           (traffic_monthly db)\<rparr>)"
  using month_table.reserve_admits[of "limit_to_i64 n" "Some (limit_to_i64 l)" m "traffic_monthly db"]
  by (auto simp: try_reserve_monthly_bytes_def Let_def hold_def has_room_def case_prod_beta)

lemma hold_refused_usage:
  assumes "\<not> has_room l b t k"
  shows "reserved_of (hold new_month_row b l k t) = reserved_of t"
    "billed_of (hold new_month_row b l k t) = billed_of t"
    "requests_of (hold new_month_row b l k t) = requests_of t"
  unfolding hold_def month_table.reserve_refused[OF assms[unfolded has_room_def]]
  by (simp_all add: fun_eq_iff)

lemma reservation_refused:
  assumes "reserve gl ul n (ProxyTraffic_new a) db = (Inl e, db')"
  shows "month_usage db' = month_usage db" "user_usage db' = user_usage db"
    "group_usage db' = group_usage db" "users db' = users db" "groups db' = groups db"
  using assms
  by (auto simp: reserve_def ProxyTraffic_new_def reservation_by_scope try_reserve_monthly_shape
      hold_refused_usage scope_usage_defs fun_eq_iff split: option.splits bool.splits)

text \<open>The claim a granted reservation puts into its guard.\<close>

definition granted_claim :: "traffic_args \<Rightarrow> nat option \<Rightarrow> nat \<Rightarrow> database \<Rightarrow> claim" where
  "granted_claim a gl n db = \<lparr>cl_month = ta_month a, cl_user = ta_user_id a,
     cl_group = (case ta_user_id a of None \<Rightarrow> None | Some u \<Rightarrow> map_option g_id (joined_group u db)),
     cl_bytes = (if ta_user_id a = None \<and> gl = None then 0 else n)\<rparr>"

lemma reserve_granted_user:
  assumes "reserve gl ul n (ProxyTraffic_new a) db = (Inr g, db')" "ta_user_id a = Some u"
  shows "refusing_scope (ta_month a) u gl ul n db = None"
    "db' = held_database (ta_month a) u gl ul n db"
    "guard_claims g = [granted_claim a gl n db]"
  using assms
  by (auto simp: reserve_def ProxyTraffic_new_def reservation_by_scope guard_claims_def
      granted_claim_def claim_of_def settlement_def split: option.splits)

lemma reserve_granted_anonymous:
  assumes "reserve gl ul n (ProxyTraffic_new a) db = (Inr g, db')" "ta_user_id a = None"
  shows "guard_claims g = [granted_claim a gl n db]"
    and "gl = None \<Longrightarrow> db' = db"
    and "gl = Some l \<Longrightarrow> has_room (Some (limit_to_i64 l)) (limit_to_i64 n) (traffic_monthly db) (ta_month a)
       \<and> db' = db\<lparr>traffic_monthly := hold new_month_row (limit_to_i64 n) (Some (limit_to_i64 l))
                     (ta_month a) (traffic_monthly db)\<rparr>"
  using assms
  by (auto simp: reserve_def ProxyTraffic_new_def try_reserve_monthly_shape guard_claims_def
      granted_claim_def claim_of_def settlement_def split: option.splits bool.splits)

lemma reserve_granted_claim:
  assumes "reserve gl ul n (ProxyTraffic_new a) db = (Inr g, db')"
  shows "guard_claims g = [granted_claim a gl n db]"
  using reserve_granted_user(3)[OF assms] reserve_granted_anonymous(1)[OF assms]
  by (cases "ta_user_id a") auto

lemma reserve_granted_rows:
  assumes "reserve gl ul n (ProxyTraffic_new a) db = (Inr g, db')"
  shows "users db' = users db" "groups db' = groups db" "refers db (granted_claim a gl n db)"
proof -
  have "users db' = users db \<and> groups db' = groups db \<and> refers db (granted_claim a gl n db)"
  proof (cases "ta_user_id a")
    case None
    then show ?thesis
      using reserve_granted_anonymous(2,3)[OF assms None]
      by (cases gl) (auto simp: refers_def granted_claim_def)
  next
    case (Some u)
    note r = reserve_granted_user[OF assms Some]
    have "active_user u db" using r(1) refusing_scope_None by blast
    then have "users db u \<noteq> None" by (auto simp: active_user_def split: option.splits)
    then show ?thesis
      using r(2) Some joined_group_mem[of u db]
      by (auto simp: refers_def granted_claim_def group_ids_def)
  qed
  then show "users db' = users db" "groups db' = groups db" "refers db (granted_claim a gl n db)"
    by auto
qed

lemma reserve_granted_month:
  assumes "reserve gl ul n (ProxyTraffic_new a) db = (Inr g, db')"
  shows "holds_more month_usage in_month (granted_claim a gl n db) db db'"
proof (cases "ta_user_id a")
  case None
  then show ?thesis
    using reserve_granted_anonymous(2,3)[OF assms None]
    by (cases gl) (auto simp: holds_more_def month_usage_def hold_month_usage granted_claim_def
        part_def in_month_def limit_to_i64_def I64_MAX_def)
next
  case (Some u)
  then show ?thesis
    using reserve_granted_user[OF assms Some]
    by (auto simp: holds_more_def month_usage_def held_database_usage(1-3) granted_claim_def
        part_def in_month_def)
qed

lemma reserve_granted_user_scope:
  assumes "reserve gl ul n (ProxyTraffic_new a) db = (Inr g, db')"
  shows "holds_more user_usage in_user (granted_claim a gl n db) db db'"
proof (cases "ta_user_id a")
  case None
  then show ?thesis
    using reserve_granted_anonymous(2,3)[OF assms None]
    by (cases gl) (auto simp: holds_more_def user_usage_def granted_claim_def part_def in_user_def)
next
  case (Some u)
  then show ?thesis
    using reserve_granted_user[OF assms Some]
    by (auto simp: holds_more_def user_usage_def held_database_usage(4-6) granted_claim_def
        part_def in_user_def)
qed

lemma reserve_granted_group_scope:
  assumes "reserve gl ul n (ProxyTraffic_new a) db = (Inr g, db')"
  shows "holds_more group_usage in_group (granted_claim a gl n db) db db'"
proof (cases "ta_user_id a")
  case None
  then show ?thesis
    using reserve_granted_anonymous(2,3)[OF assms None]
    by (cases gl) (auto simp: holds_more_def group_usage_def granted_claim_def part_def in_group_def)
next
  case (Some u)
  then show ?thesis
    using reserve_granted_user[OF assms Some]
    by (auto simp: holds_more_def group_usage_def held_database_usage(7-9) granted_claim_def
        part_def in_group_def)
qed

definition settles :: "(database \<Rightarrow> 'k \<Rightarrow> int \<times> int \<times> int) \<Rightarrow> ('k \<Rightarrow> claim \<Rightarrow> bool)
     \<Rightarrow> proxy_traffic_record \<Rightarrow> database \<Rightarrow> database \<Rightarrow> bool" where
  "settles usage P r db db' \<longleftrightarrow>
     (\<forall>k. part P k (claim_of r) \<le> fst (usage db k) \<longrightarrow> 0 \<le> fst (usage db k) \<longrightarrow>
        usage db' k =
          (fst (usage db k) - part P k (claim_of r),
           fst (snd (usage db k)) + (if P k (claim_of r) then limit_to_i64 (p_response_bytes r) else 0),
           snd (snd (usage db k)) + (if P k (claim_of r) then 1 else 0)))"

lemma record_proxy_response_tables:
  assumes "refers db (claim_of r)"
  shows "\<exists>db' e. record_proxy_response now r db = (Inr (), db')
    \<and> users db' = users db \<and> groups db' = groups db
    \<and> traffic_monthly db' = settle_upsert (limit_to_i64 (p_response_bytes r)) e
        (limit_to_i64 (p_reserved_bytes r)) new_month_row (p_month r) (traffic_monthly db)
    \<and> user_traffic_monthly db' = (case p_user_id r of None \<Rightarrow> user_traffic_monthly db
        | Some u \<Rightarrow> settle_upsert (limit_to_i64 (p_response_bytes r)) e
            (limit_to_i64 (p_reserved_bytes r)) new_traffic_row (p_month r, u) (user_traffic_monthly db))
    \<and> group_traffic_monthly db' = (case p_group_id r of None \<Rightarrow> group_traffic_monthly db
        | Some g \<Rightarrow> settle_upsert (limit_to_i64 (p_response_bytes r)) e
            (limit_to_i64 (p_reserved_bytes r)) new_traffic_row (p_month r, g) (group_traffic_monthly db))"
proof -
  let ?e = "if p_stream_error r \<or> 400 \<le> p_status_code r then 1 else 0 :: int"
  have fk: "\<not> ((case p_user_id r of None \<Rightarrow> False | Some u \<Rightarrow> users db u = None)
            \<or> (case p_group_id r of None \<Rightarrow> False
                | Some gid \<Rightarrow> \<not> (\<exists>g\<in>set (groups db). g_id g = gid)))"
    using assms by (auto simp: refers_def claim_of_def group_ids_def split: option.splits)
  obtain cc cn where cb: "country_bucket (p_location r) = (cc, cn)" by (cases "country_bucket (p_location r)")
  show ?thesis
    by (intro exI[of _ "snd (record_proxy_response now r db)"] exI[of _ ?e],
        unfold record_proxy_response_def Let_def cb if_not_P[OF fk])
      (cases "p_user_id r"; cases "p_group_id r"; simp)
qed

lemma record_settles:
  assumes "refers db (claim_of r)" "record_proxy_response now r db = (res, db')"
  shows "res = Inr ()" "users db' = users db" "groups db' = groups db"
    "settles month_usage in_month r db db'" "settles user_usage in_user r db db'"
    "settles group_usage in_group r db db'"
proof -
  obtain e where t: "res = Inr ()" "users db' = users db" "groups db' = groups db"
    "traffic_monthly db' = settle_upsert (limit_to_i64 (p_response_bytes r)) e
        (limit_to_i64 (p_reserved_bytes r)) new_month_row (p_month r) (traffic_monthly db)"
    "user_traffic_monthly db' = (case p_user_id r of None \<Rightarrow> user_traffic_monthly db
        | Some u \<Rightarrow> settle_upsert (limit_to_i64 (p_response_bytes r)) e
            (limit_to_i64 (p_reserved_bytes r)) new_traffic_row (p_month r, u) (user_traffic_monthly db))"
    "group_traffic_monthly db' = (case p_group_id r of None \<Rightarrow> group_traffic_monthly db
        | Some g \<Rightarrow> settle_upsert (limit_to_i64 (p_response_bytes r)) e
            (limit_to_i64 (p_reserved_bytes r)) new_traffic_row (p_month r, g) (group_traffic_monthly db))"
    using record_proxy_response_tables[OF assms(1), of now] assms(2) by auto
  show "res = Inr ()" "users db' = users db" "groups db' = groups db" using t(1-3) by auto
  show "settles month_usage in_month r db db'"
    unfolding settles_def month_usage_def t(4)
    by (auto simp: month_table.settle_usage part_def in_month_def claim_of_def)
  show "settles user_usage in_user r db db'"
    unfolding settles_def user_usage_def t(5)
    by (cases "p_user_id r")
      (auto simp: scope_table.settle_usage part_def in_user_def claim_of_def)
  show "settles group_usage in_group r db db'"
    unfolding settles_def group_usage_def t(6)
    by (cases "p_group_id r")
      (auto simp: scope_table.settle_usage part_def in_group_def claim_of_def)
qed

section \<open>Conservation\<close>

text \<open>The three ways a step can act on the outstanding claims.\<close>

definition quiet :: "accounting \<Rightarrow> accounting \<Rightarrow> bool" where
  "quiet s s' \<longleftrightarrow> outstanding s' = outstanding s \<and> admitted s' = admitted s \<and> settled s' = settled s
     \<and> keeps_rows (ac_db s) (ac_db s') \<and> month_usage (ac_db s') = month_usage (ac_db s)
     \<and> user_usage (ac_db s') = user_usage (ac_db s) \<and> group_usage (ac_db s') = group_usage (ac_db s)"

definition admits :: "accounting \<Rightarrow> accounting \<Rightarrow> event \<Rightarrow> bool" where
  "admits s s' e \<longleftrightarrow> (\<exists>i a gl ul n g. e = Admit i a gl ul n \<and> i \<notin> set (admitted s)
     \<and> reserve gl ul n (ProxyTraffic_new a) (ac_db s) = (Inr g, ac_db s')
     \<and> outstanding s' = add_mset (i, granted_claim a gl n (ac_db s)) (outstanding s)
     \<and> admitted s' = admitted s @ [i] \<and> settled s' = settled s)"

definition settles_one :: "accounting \<Rightarrow> accounting \<Rightarrow> bool" where
  "settles_one s s' \<longleftrightarrow> (\<exists>i r now res. record_proxy_response now r (ac_db s) = (res, ac_db s')
     \<and> outstanding s = add_mset (i, claim_of r) (outstanding s')
     \<and> admitted s' = admitted s
     \<and> settled s' = (case res of Inl _ \<Rightarrow> settled s | Inr _ \<Rightarrow> settled s @ [(i, r)]))"

lemma quiet_refl [simp]: "quiet s s"
  by (simp add: quiet_def keeps_rows_def)

lemma with_conn_quiet:
  assumes "claim_keeping f"
  shows "quiet s (with_conn i f s)"
proof -
  note k = claim_keeping.with_conn_frame[OF assms] claim_keeping.with_conn_outstanding[OF assms]
  show ?thesis by (simp add: quiet_def k keeps_rows_def)
qed

lemma admit_step_cases:
  "quiet s (accounting_step (Admit i a gl ul n) s)
   \<or> admits s (accounting_step (Admit i a gl ul n) s) (Admit i a gl ul n)"
proof (cases "i \<in> set (admitted s)")
  case False
  obtain res db' where r: "reserve gl ul n (ProxyTraffic_new a) (ac_db s) = (res, db')"
    by (cases "reserve gl ul n (ProxyTraffic_new a) (ac_db s)")
  show ?thesis
  proof (cases res)
    case (Inl e)
    then have "quiet s (accounting_step (Admit i a gl ul n) s)"
      using False r reservation_refused[OF r[unfolded Inl]]
      by (simp add: quiet_def outstanding_def keeps_rows_same)
    then show ?thesis ..
  next
    case (Inr g)
    then have "admits s (accounting_step (Admit i a gl ul n) s) (Admit i a gl ul n)"
      using False r reserve_granted_claim[OF r[unfolded Inr]]
      by (simp add: admits_def outstanding_def conn_claims_def)
    then show ?thesis ..
  qed
qed simp

lemma run_task_cases:
  "quiet s (accounting_step (RunTask i now) s) \<or> settles_one s (accounting_step (RunTask i now) s)"
proof (cases "pick i (tasks s)")
  case (Some p)
  obtain ident r others where p: "p = ((ident, r), others)" by (cases p) auto
  obtain res db' where q: "record_proxy_response now r (ac_db s) = (res, db')"
    by (cases "record_proxy_response now r (ac_db s)")
  have "mset (tasks s) = add_mset (ident, r) (mset others)"
    using pick_mset[OF Some[unfolded p]] .
  then have "settles_one s (accounting_step (RunTask i now) s)"
    unfolding settles_one_def
    by (intro exI[of _ ident] exI[of _ r] exI[of _ now] exI[of _ res])
      (simp add: Some p q outstanding_def split: sum.split)
  then show ?thesis ..
qed simp

lemma accounting_step_cases:
  "quiet s (accounting_step e s) \<or> admits s (accounting_step e s) e
     \<or> settles_one s (accounting_step e s)"
proof (cases e)
  case (Admit i a gl ul n)
  then show ?thesis using admit_step_cases by blast
next
  case (RunTask i now)
  then show ?thesis using run_task_cases by blast
next
  case (Admin op)
  have "quiet s (accounting_step (Admin op) s)"
    by (simp add: quiet_def outstanding_def admin_step_keeps_rows scope_usage_defs fun_eq_iff
        admin_step_usage)
  then show ?thesis using Admin by blast
qed (simp_all add: with_conn_quiet responding.claim_keeping_axioms polling.claim_keeping_axioms
    disconnecting.claim_keeping_axioms)

text \<open>Ids and references.\<close>

definition claims_ok :: "accounting \<Rightarrow> bool" where
  "claims_ok s \<longleftrightarrow> distinct (admitted s)
     \<and> mset (admitted s) = image_mset fst (outstanding s) + mset (map fst (settled s))
     \<and> (\<forall>x. x \<in># outstanding s \<longrightarrow> refers (ac_db s) (snd x))"

lemma claims_ok_start: "claims_ok (start db)"
  by (simp add: claims_ok_def start_def outstanding_def)

lemma claims_ok_step:
  assumes "claims_ok s"
  shows "claims_ok (accounting_step e s)"
proof -
  let ?s = "accounting_step e s"
  consider "quiet s ?s" | "admits s ?s e" | "settles_one s ?s"
    using accounting_step_cases by blast
  then show ?thesis
  proof cases
    case 1
    then show ?thesis
      using assms by (auto simp: claims_ok_def quiet_def intro: keeps_rows_refers)
  next
    case 2
    then obtain i a gl ul n g where "e = Admit i a gl ul n" "i \<notin> set (admitted s)"
      and r: "reserve gl ul n (ProxyTraffic_new a) (ac_db s) = (Inr g, ac_db ?s)"
      and o: "outstanding ?s = add_mset (i, granted_claim a gl n (ac_db s)) (outstanding s)"
      "admitted ?s = admitted s @ [i]" "settled ?s = settled s"
      unfolding admits_def by blast
    note k = keeps_rows_refers[OF keeps_rows_same[OF reserve_granted_rows(1,2)[OF r]]]
    show ?thesis
      using assms \<open>i \<notin> _\<close> k reserve_granted_rows(3)[OF r] unfolding claims_ok_def o
      by (auto simp: o)
  next
    case 3
    then obtain i r now res where r: "record_proxy_response now r (ac_db s) = (res, ac_db ?s)"
      and o: "outstanding s = add_mset (i, claim_of r) (outstanding ?s)" "admitted ?s = admitted s"
      "settled ?s = (case res of Inl _ \<Rightarrow> settled s | Inr _ \<Rightarrow> settled s @ [(i, r)])"
      unfolding settles_one_def by blast
    have "refers (ac_db s) (claim_of r)" using assms o(1) by (auto simp: claims_ok_def)
    note q = record_settles(1-3)[OF this r]
    show ?thesis
      using assms keeps_rows_refers[OF keeps_rows_same[OF q(2,3)]] unfolding claims_ok_def o
      by (auto simp: q(1))
  qed
qed

lemma claims_ok_run: "claims_ok s \<Longrightarrow> claims_ok (run evs s)"
  unfolding run_def by (induction evs arbitrary: s) (simp_all add: claims_ok_step)

lemma sum_mset_nonneg_int: "(\<And>x. x \<in># M \<Longrightarrow> 0 \<le> f x) \<Longrightarrow> 0 \<le> (\<Sum>x\<in>#M. f x :: int)"
  by (induction M) auto

text \<open>One scope of the quota: what its table reports, and which claims count in it.  The
  laws are those of the four kinds of transaction; balance is proved once and holds for
  the global, the user and the group table.\<close>

definition balanced ::
  "(database \<Rightarrow> 'k \<Rightarrow> int \<times> int \<times> int) \<Rightarrow> ('k \<Rightarrow> claim \<Rightarrow> bool) \<Rightarrow> database \<Rightarrow> accounting \<Rightarrow> bool" where
  "balanced usage P db0 s \<longleftrightarrow> (\<forall>k. usage (ac_db s) k =
     (fst (usage db0 k) + (\<Sum>x\<in>#outstanding s. part P k (snd x)),
      fst (snd (usage db0 k)) + (\<Sum>x\<leftarrow>settled s.
        if P k (claim_of (snd x)) then limit_to_i64 (p_response_bytes (snd x)) else 0),
      snd (snd (usage db0 k)) + (\<Sum>x\<leftarrow>settled s. if P k (claim_of (snd x)) then 1 else 0)))"

locale scope_ledger =
  fixes usage :: "database \<Rightarrow> 'k \<Rightarrow> int \<times> int \<times> int"
    and P :: "'k \<Rightarrow> claim \<Rightarrow> bool"
  assumes granted: "reserve gl ul n (ProxyTraffic_new a) db = (Inr g, db') \<Longrightarrow>
      holds_more usage P (granted_claim a gl n db) db db'"
    and recorded: "refers db (claim_of r) \<Longrightarrow> record_proxy_response now r db = (res, db') \<Longrightarrow>
      settles usage P r db db'"
    and unaffected: "quiet s s' \<Longrightarrow> usage (ac_db s') = usage (ac_db s)"
begin

lemma balanced_start: "balanced usage P db0 (start db0)"
  by (simp add: balanced_def start_def outstanding_def)

lemma balanced_step:
  assumes b: "balanced usage P db0 s" and "claims_ok s" and pos: "\<And>k. 0 \<le> fst (usage db0 k)"
  shows "balanced usage P db0 (accounting_step e s)"
proof -
  let ?s = "accounting_step e s"
  consider "quiet s ?s" | "admits s ?s e" | "settles_one s ?s"
    using accounting_step_cases by blast
  then show ?thesis
  proof cases
    case 1
    then show ?thesis
      using b unaffected[OF 1] by (simp add: balanced_def quiet_def)
  next
    case 2
    then obtain i a gl ul n g where
      r: "reserve gl ul n (ProxyTraffic_new a) (ac_db s) = (Inr g, ac_db ?s)"
      and o: "outstanding ?s = add_mset (i, granted_claim a gl n (ac_db s)) (outstanding s)"
      "settled ?s = settled s"
      unfolding admits_def by blast
    show ?thesis
      using b granted[OF r] unfolding balanced_def holds_more_def o by simp
  next
    case 3
    then obtain i r now res where r: "record_proxy_response now r (ac_db s) = (res, ac_db ?s)"
      and o: "outstanding s = add_mset (i, claim_of r) (outstanding ?s)"
      "settled ?s = (case res of Inl _ \<Rightarrow> settled s | Inr _ \<Rightarrow> settled s @ [(i, r)])"
      unfolding settles_one_def by blast
    have f: "refers (ac_db s) (claim_of r)" using assms(2) o(1) by (auto simp: claims_ok_def)
    have st: "settled ?s = settled s @ [(i, r)]" using o(2) record_settles(1)[OF f r] by simp
    show ?thesis
      unfolding balanced_def
    proof
      fix k
      have u: "usage (ac_db s) k = (fst (usage db0 k) + (\<Sum>x\<in>#outstanding s. part P k (snd x)),
          fst (snd (usage db0 k)) + (\<Sum>x\<leftarrow>settled s.
            if P k (claim_of (snd x)) then limit_to_i64 (p_response_bytes (snd x)) else 0),
          snd (snd (usage db0 k)) + (\<Sum>x\<leftarrow>settled s. if P k (claim_of (snd x)) then 1 else 0))"
        using b unfolding balanced_def by blast
      have "0 \<le> (\<Sum>x\<in>#outstanding ?s. part P k (snd x))"
        by (rule sum_mset_nonneg_int) simp
      then have g: "part P k (claim_of r) \<le> fst (usage (ac_db s) k)" "0 \<le> fst (usage (ac_db s) k)"
        using u pos[of k] part_nonneg[of P k "claim_of r"] unfolding o(1) by auto
      have "usage (ac_db ?s) k = (fst (usage (ac_db s) k) - part P k (claim_of r),
           fst (snd (usage (ac_db s) k)) + (if P k (claim_of r) then limit_to_i64 (p_response_bytes r) else 0),
           snd (snd (usage (ac_db s) k)) + (if P k (claim_of r) then 1 else 0))"
        using recorded[OF f r] g unfolding settles_def by blast
      then show "usage (ac_db ?s) k =
          (fst (usage db0 k) + (\<Sum>x\<in>#outstanding ?s. part P k (snd x)),
          fst (snd (usage db0 k)) + (\<Sum>x\<leftarrow>settled ?s.
            if P k (claim_of (snd x)) then limit_to_i64 (p_response_bytes (snd x)) else 0),
          snd (snd (usage db0 k)) + (\<Sum>x\<leftarrow>settled ?s. if P k (claim_of (snd x)) then 1 else 0))"
        unfolding u o(1) st by simp
    qed
  qed
qed

lemma balanced_run:
  assumes "\<And>k. 0 \<le> fst (usage db0 k)"
  shows "balanced usage P db0 (run evs (start db0))"
proof -
  have "balanced usage P db0 s \<Longrightarrow> claims_ok s \<Longrightarrow> balanced usage P db0 (run evs s)" for s
    unfolding run_def
    by (induction evs arbitrary: s) (simp_all add: balanced_step[OF _ _ assms] claims_ok_step)
  then show ?thesis using balanced_start claims_ok_start by blast
qed

end

interpretation global_scope: scope_ledger month_usage in_month
  by unfold_locales (auto simp: reserve_granted_month record_settles(4) quiet_def)

interpretation user_scope: scope_ledger user_usage in_user
  by unfold_locales (auto simp: reserve_granted_user_scope record_settles(5) quiet_def)

interpretation group_scope: scope_ledger group_usage in_group
  by unfold_locales (auto simp: reserve_granted_group_scope record_settles(6) quiet_def)

section \<open>Properties of concurrent accounting\<close>

definition nonneg_reservations :: "database \<Rightarrow> bool" where
  "nonneg_reservations db \<longleftrightarrow> (\<forall>m. 0 \<le> reserved_of (traffic_monthly db) m)
     \<and> (\<forall>k. 0 \<le> reserved_of (user_traffic_monthly db) k)
     \<and> (\<forall>k. 0 \<le> reserved_of (group_traffic_monthly db) k)"

lemma scopes_balanced:
  assumes "nonneg_reservations db0"
  shows "balanced month_usage in_month db0 (run evs (start db0))"
    "balanced user_usage in_user db0 (run evs (start db0))"
    "balanced group_usage in_group db0 (run evs (start db0))"
proof -
  have p: "0 \<le> fst (month_usage db0 m)" "0 \<le> fst (user_usage db0 k)" "0 \<le> fst (group_usage db0 k)" for m k
    using assms unfolding nonneg_reservations_def scope_usage_defs fst_conv by blast+
  show "balanced month_usage in_month db0 (run evs (start db0))"
    "balanced user_usage in_user db0 (run evs (start db0))"
    "balanced group_usage in_group db0 (run evs (start db0))"
    by (rule global_scope.balanced_run[OF p(1)] user_scope.balanced_run[OF p(2)]
        group_scope.balanced_run[OF p(3)])+
qed

text \<open>C1: Reservations are conserved.  After any interleaving of admissions (granted or
  refused), response headers, body chunks, ends, errors, disconnects, settlement tasks in
  any order and administrative changes of limits, groups and users, the reserved bytes of
  every month, of every user and of every billing group are what they were at the start
  plus the reservations still owned by a live guard or a pending settlement task.  So no
  reservation leaks, none is released twice, and the clamp at zero in the settlement
  never hides an error.\<close>

theorem reservations_conserved:
  assumes "nonneg_reservations db0"
  shows "(\<forall>m. reserved_of (traffic_monthly (ac_db (run evs (start db0)))) m =
            reserved_of (traffic_monthly db0) m
            + (\<Sum>x\<in>#outstanding (run evs (start db0)). if cl_month (snd x) = m
                 then limit_to_i64 (cl_bytes (snd x)) else 0))
       \<and> (\<forall>m u. reserved_of (user_traffic_monthly (ac_db (run evs (start db0)))) (m, u) =
            reserved_of (user_traffic_monthly db0) (m, u)
            + (\<Sum>x\<in>#outstanding (run evs (start db0)).
                 if cl_month (snd x) = m \<and> cl_user (snd x) = Some u
                 then limit_to_i64 (cl_bytes (snd x)) else 0))
       \<and> (\<forall>m gid. reserved_of (group_traffic_monthly (ac_db (run evs (start db0)))) (m, gid) =
            reserved_of (group_traffic_monthly db0) (m, gid)
            + (\<Sum>x\<in>#outstanding (run evs (start db0)).
                 if cl_month (snd x) = m \<and> cl_group (snd x) = Some gid
                 then limit_to_i64 (cl_bytes (snd x)) else 0))"
  using scopes_balanced[OF assms, of evs]
  by (simp add: balanced_def scope_usage_defs part_def in_scope_defs)

definition sample_args :: traffic_args where
  "sample_args = \<lparr>ta_day = ''2026-07-01'', ta_month = ''2026-07'', ta_target_code = ''npm'',
     ta_method = ''GET'', ta_path = ''/npm/x'', ta_accounting_multiplier = 1,
     ta_user_id = Some 1, ta_request_event_retention_days = 30,
     ta_location = \<lparr>country = None, province = None, city = None, isp = None,
       country_code = None\<rparr>\<rparr>"

definition sample_events :: "event list" where
  "sample_events = [Admit 0 sample_args (Some 100) None 6, Admit 1 sample_args (Some 100) None 4,
     Admit 2 sample_args (Some 100) None 1, Respond 0 200, Poll 1 (Chunk 5), Disconnect 0]"

lemma sample_nonneg: "nonneg_reservations sample_database"
  by (simp add: nonneg_reservations_def sample_simps usage_defs)

lemma sample_outstanding:
  "outstanding (run sample_events (start sample_database)) =
     {#(0, \<lparr>cl_month = ''2026-07'', cl_user = Some 1, cl_group = Some 7, cl_bytes = 6\<rparr>),
       (1, \<lparr>cl_month = ''2026-07'', cl_user = Some 1, cl_group = Some 7, cl_bytes = 4\<rparr>)#}"
  by code_simp

theorem reservations_conserved_witness:
  "reserved_of (group_traffic_monthly (ac_db (run sample_events (start sample_database))))
     (''2026-07'', 7) = 10"
  unfolding reservations_conserved[OF sample_nonneg, THEN conjunct2, THEN conjunct2, rule_format]
    sample_outstanding
  by (simp add: sample_simps usage_defs limit_to_i64_def I64_MAX_def)

text \<open>The steps that finish whatever is under way.\<close>

definition drain :: "accounting \<Rightarrow> event list" where
  "drain s = replicate (length (conns s)) (Disconnect 0)
     @ replicate (length (conns s) + length (tasks s)) (RunTask 0 0)"

lemma pick_0: "pick 0 (x # xs) = Some (x, xs)" "pick 0 [] = None"
  by (simp_all add: pick_def)

lemma drop_conn_length: "length (drop_conn c) \<le> 1"
  by (auto simp: drop_conn_def drop_traffic_def settle_def split: option.splits)

lemma disconnect_all:
  "conns (run (replicate n (Disconnect 0)) s) = drop n (conns s)
   \<and> length (tasks (run (replicate n (Disconnect 0)) s)) \<le> length (tasks s) + n"
proof (induction n arbitrary: s)
  case (Suc n)
  let ?s = "accounting_step (Disconnect 0) s"
  have "conns ?s = drop 1 (conns s) \<and> length (tasks ?s) \<le> length (tasks s) + 1"
    using drop_conn_length
    by (cases "conns s") (auto simp: with_conn_def pick_0 spawn_def split: prod.splits)
  then show ?case
    using Suc.IH[of ?s] by (auto simp: run_def drop_Suc simp flip: drop_drop)
qed (simp add: run_def)

lemma run_all_tasks:
  "conns (run (replicate n (RunTask 0 0)) s) = conns s
   \<and> tasks (run (replicate n (RunTask 0 0)) s) = drop n (tasks s)"
proof (induction n arbitrary: s)
  case (Suc n)
  let ?s = "accounting_step (RunTask 0 0) s"
  have "conns ?s = conns s \<and> tasks ?s = drop 1 (tasks s)"
    by (cases "tasks s") (auto simp: pick_0 split: prod.splits sum.splits)
  then show ?case
    using Suc.IH[of ?s] by (auto simp: run_def drop_Suc simp flip: drop_drop)
qed (simp add: run_def)

lemma run_append: "run (xs @ ys) s = run ys (run xs s)"
  by (simp add: run_def)

lemma drained: "conns (run (drain s) s) = [] \<and> tasks (run (drain s) s) = []"
proof -
  let ?s = "run (replicate (length (conns s)) (Disconnect 0)) s"
  have d: "conns ?s = []" "length (tasks ?s) \<le> length (conns s) + length (tasks s)"
    using disconnect_all[of "length (conns s)" s] by auto
  show ?thesis
    unfolding drain_def run_append
    using run_all_tasks[of "length (conns s) + length (tasks s)" ?s] d by simp
qed

text \<open>C28: Every admitted request is settled exactly once.  At any moment the admitted ids are
  the ones still outstanding together with the ones settled, each once; disconnecting the
  live connections and running the spawned tasks always reaches a state with nothing
  outstanding, and in such a state every admitted id has been settled and the month's
  request count and billed bytes have grown by exactly the settled responses of that
  month.\<close>

theorem settled_exactly_once:
  assumes "nonneg_reservations db0" and s_def: "s = run evs (start db0)"
  shows "distinct (admitted s)
    \<and> mset (admitted s) = image_mset fst (outstanding s) + mset (map fst (settled s))
    \<and> conns (run (drain s) s) = [] \<and> tasks (run (drain s) s) = []
    \<and> (conns s = [] \<and> tasks s = [] \<longrightarrow>
         mset (map fst (settled s)) = mset (admitted s)
         \<and> (\<forall>m. requests_of (traffic_monthly (ac_db s)) m =
              requests_of (traffic_monthly db0) m
              + int (length (filter (\<lambda>x. p_month (snd x) = m) (settled s))))
         \<and> (\<forall>m. billed_of (traffic_monthly (ac_db s)) m =
              billed_of (traffic_monthly db0) m
              + (\<Sum>x\<leftarrow>filter (\<lambda>x. p_month (snd x) = m) (settled s).
                   limit_to_i64 (p_response_bytes (snd x))))
         \<and> (\<forall>m. reserved_of (traffic_monthly (ac_db s)) m = reserved_of (traffic_monthly db0) m))"
proof -
  have c: "claims_ok s" unfolding s_def by (rule claims_ok_run[OF claims_ok_start])
  have cnt: "(\<Sum>x\<leftarrow>xs. if p_month (snd x) = m then 1 else 0 :: int) =
      int (length (filter (\<lambda>x. p_month (snd x) = m) xs))" for m and xs :: "(nat \<times> proxy_traffic_record) list"
    by (induction xs) auto
  have sm: "(\<Sum>x\<leftarrow>xs. if p_month (snd x) = m then limit_to_i64 (p_response_bytes (snd x)) else 0) =
      (\<Sum>x\<leftarrow>filter (\<lambda>x. p_month (snd x) = m) xs. limit_to_i64 (p_response_bytes (snd x)))"
    for m and xs :: "(nat \<times> proxy_traffic_record) list"
    by (induction xs) auto
  have o: "conns s = [] \<and> tasks s = [] \<Longrightarrow> outstanding s = {#}"
    by (simp add: outstanding_def)
  show ?thesis
    using c scopes_balanced(1)[OF assms(1), of evs, folded s_def] drained[of s] o
    by (simp add: claims_ok_def balanced_def month_usage_def in_month_def claim_of_def cnt sm)
qed

theorem settled_exactly_once_witness:
  "mset (admitted (run sample_events (start sample_database))) = {#0, 1#}
   \<and> image_mset fst (outstanding (run sample_events (start sample_database)))
     + mset (map fst (settled (run sample_events (start sample_database)))) = {#0, 1#}"
proof -
  note p = settled_exactly_once[OF sample_nonneg refl, of sample_events]
  have "admitted (run sample_events (start sample_database)) = [0, 1]" by code_simp
  then show ?thesis using p by simp
qed

text \<open>What the settled responses of a month used beyond their reservations.\<close>

definition overrun :: "string \<Rightarrow> accounting \<Rightarrow> int" where
  "overrun m s = (\<Sum>x\<leftarrow>settled s. if p_month (snd x) = m
     then max 0 (limit_to_i64 (p_response_bytes (snd x)) - limit_to_i64 (p_reserved_bytes (snd x)))
     else 0)"

lemma overrun_nonneg: "0 \<le> overrun m s"
  unfolding overrun_def by (induction "settled s" rule: list.induct) (auto intro!: sum_list_nonneg)

definition capped :: "string \<Rightarrow> nat \<Rightarrow> event \<Rightarrow> bool" where
  "capped m L e = (case e of Admit i a gl ul n \<Rightarrow>
     ta_month a = m \<longrightarrow> (case gl of None \<Rightarrow> False | Some l \<Rightarrow> l \<le> L) | _ \<Rightarrow> True)"

lemma reserve_granted_within:
  assumes "reserve (Some l) ul n (ProxyTraffic_new a) db = (Inr g, db')"
  shows "billed_of (traffic_monthly db') (ta_month a) + reserved_of (traffic_monthly db') (ta_month a)
     \<le> limit_to_i64 l"
proof -
  have room: "has_room (Some (limit_to_i64 l)) (limit_to_i64 n) (traffic_monthly db) (ta_month a)"
    using reserve_granted_user(1)[OF assms] reserve_granted_anonymous(3)[OF assms, of l]
    by (cases "ta_user_id a") (auto simp: refusing_scope_None)
  have "holds_more month_usage in_month (granted_claim a (Some l) n db) db db'"
    by (rule reserve_granted_month[OF assms])
  then show ?thesis
    using room by (simp add: holds_more_def month_usage_def has_room_def part_def in_month_def
        granted_claim_def add.assoc)
qed

lemma overrun_step:
  assumes b: "balanced month_usage in_month db0 s" and "claims_ok s"
    and pos: "\<And>k. 0 \<le> fst (month_usage db0 k)" and "capped m L e"
    and le: "billed_of (traffic_monthly (ac_db s)) m + reserved_of (traffic_monthly (ac_db s)) m
        \<le> limit_to_i64 L + overrun m s"
  shows "billed_of (traffic_monthly (ac_db (accounting_step e s))) m
     + reserved_of (traffic_monthly (ac_db (accounting_step e s))) m
     \<le> limit_to_i64 L + overrun m (accounting_step e s)"
proof -
  let ?s = "accounting_step e s"
  consider "quiet s ?s" | "admits s ?s e" | "settles_one s ?s"
    using accounting_step_cases by blast
  then show ?thesis
  proof cases
    case 1
    then show ?thesis
      using le by (simp add: quiet_def month_usage_def fun_eq_iff overrun_def)
  next
    case 2
    then obtain i a gl ul n g where e: "e = Admit i a gl ul n"
      and r: "reserve gl ul n (ProxyTraffic_new a) (ac_db s) = (Inr g, ac_db ?s)"
      and st: "settled ?s = settled s"
      unfolding admits_def by blast
    have ov: "overrun m ?s = overrun m s" by (simp add: overrun_def st)
    show ?thesis
    proof (cases "ta_month a = m")
      case True
      then obtain l where "gl = Some l" "l \<le> L"
        using assms(4) e by (auto simp: capped_def split: option.splits)
      then show ?thesis
        using reserve_granted_within[OF r[unfolded \<open>gl = _\<close>]] True limit_to_i64_mono[of l L]
          overrun_nonneg[of m s] ov by simp
    next
      case False
      then show ?thesis
        using reserve_granted_month[OF r] le ov
        by (simp add: holds_more_def month_usage_def part_def in_month_def granted_claim_def)
    qed
  next
    case 3
    then obtain i r now res where r: "record_proxy_response now r (ac_db s) = (res, ac_db ?s)"
      and o: "outstanding s = add_mset (i, claim_of r) (outstanding ?s)"
      "settled ?s = (case res of Inl _ \<Rightarrow> settled s | Inr _ \<Rightarrow> settled s @ [(i, r)])"
      unfolding settles_one_def by blast
    have f: "refers (ac_db s) (claim_of r)" using assms(2) o(1) by (auto simp: claims_ok_def)
    have st: "settled ?s = settled s @ [(i, r)]" using o(2) record_settles(1)[OF f r] by simp
    show ?thesis
      using b global_scope.balanced_step[OF b assms(2) pos, of e] le
      by (auto simp: balanced_def month_usage_def part_def in_month_def claim_of_def o(1) st overrun_def)
  qed
qed

text \<open>The monthly quota holds up to what responses use beyond their reservations.  If every
  admission of a month runs under a global limit of at most \<open>L\<close> and the month started
  within it, then at every moment the billed plus the reserved bytes of the month are at
  most \<open>L\<close> plus the sum, over the settled responses, of the bytes a response used beyond
  what it had reserved.  In particular the quota is never exceeded while responses stay
  within their reservations.\<close>

theorem monthly_quota_overrun_bounded:
  assumes "nonneg_reservations db0"
    and "\<And>e. e \<in> set evs \<Longrightarrow> capped m L e"
    and "billed_of (traffic_monthly db0) m + reserved_of (traffic_monthly db0) m \<le> limit_to_i64 L"
  shows "billed_of (traffic_monthly (ac_db (run evs (start db0)))) m
     + reserved_of (traffic_monthly (ac_db (run evs (start db0)))) m
     \<le> limit_to_i64 L + (\<Sum>x\<leftarrow>settled (run evs (start db0)). if p_month (snd x) = m
          then max 0 (limit_to_i64 (p_response_bytes (snd x)) - limit_to_i64 (p_reserved_bytes (snd x)))
          else 0)"
proof -
  have pos: "0 \<le> fst (month_usage db0 k)" for k
    using assms(1) by (simp add: nonneg_reservations_def month_usage_def)
  have "billed_of (traffic_monthly (ac_db (run evs s))) m + reserved_of (traffic_monthly (ac_db (run evs s))) m
      \<le> limit_to_i64 L + overrun m (run evs s)"
    if "balanced month_usage in_month db0 s" "claims_ok s"
      "billed_of (traffic_monthly (ac_db s)) m + reserved_of (traffic_monthly (ac_db s)) m
        \<le> limit_to_i64 L + overrun m s" for s
    using that assms(2)
  proof (induction evs arbitrary: s)
    case (Cons e es)
    have "run (e # es) s = run es (accounting_step e s)" by (simp add: run_def)
    then show ?case
      using Cons.IH[OF global_scope.balanced_step[OF Cons.prems(1,2) pos] claims_ok_step[OF Cons.prems(2)]
          overrun_step[OF Cons.prems(1,2) pos _ Cons.prems(3)]] Cons.prems(4) by simp
  qed (simp add: run_def)
  from this[OF global_scope.balanced_start claims_ok_start] assms(3)
  show ?thesis by (simp add: start_def overrun_def)
qed

end
