(* ===== verification/Account_Db.thy ===== *)
theory Account_Db
  imports Quota_Db
begin

text \<open>
  The identity tables of \<open>crates/server/src/database.rs\<close>: administrators and their sessions,
  passkeys and challenges, users with their routing ids and sessions, external identities
  and sign-in flows, invitations, one-time codes and outgoing mail.

  Each table is the list of its rows in insertion order, as in \<open>Quota_Db\<close>; a primary key or a
  \<open>UNIQUE\<close> column is checked by the inserting operation.  The \<open>users\<close> table is shared with the
  quota tables: its status columns are \<open>users\<close> of \<^typ>\<open>database\<close>, its other columns are
  \<open>profiles\<close> here.  One operation reads the clock once (\<open>now\<close>, in seconds).  Random tokens are
  arguments of the operation that draws them.  The functions of the hash libraries are the
  fields of a parameter of type \<open>crypto\<close>.
\<close>

record crypto =
  hash_token :: "string \<Rightarrow> string"
  argon2_matches :: "string \<Rightarrow> string \<Rightarrow> bool"

section \<open>Rows\<close>

record admin_row =
  ad_id :: int
  ad_username :: string
  ad_password_hash :: string
  ad_role :: string
  ad_disabled :: bool
  failed_login_count :: int
  locked_until :: "int option"
  user_handle :: string
  ad_updated_at :: int

record admin_session_row =
  as_token_hash :: string
  as_username :: string
  as_auth_method :: string
  as_created_at :: int
  as_expires_at :: int
  as_last_used_at :: int

record passkey_row =
  pk_id :: int
  pk_username :: string
  pk_name :: string
  pk_credential_id :: string
  pk_json :: string
  pk_created_at :: int
  pk_last_used_at :: "int option"

record webauthn_row =
  wa_challenge_hash :: string
  wa_username :: string
  wa_kind :: string
  wa_state_json :: string
  wa_session_token_hash :: "string option"
  wa_expires_at :: int

record setting_row =
  st_value :: string
  st_version :: int
  st_updated_at :: int

record admin_tables =
  admin_users :: "admin_row list"
  admin_users_seq :: int
  admin_sessions :: "admin_session_row list"
  admin_passkeys :: "passkey_row list"
  admin_passkeys_seq :: int
  webauthn_challenges :: "webauthn_row list"
  settings :: "string \<rightharpoonup> setting_row"

record profile_row =
  pr_id :: int
  pr_username :: "string option"
  pr_email :: string
  pr_display_name :: string
  pr_created_at :: int
  pr_updated_at :: int

record routing_row =
  ro_user_id :: int
  ro_public_number :: int
  ro_routing_id :: string
  ro_active :: bool
  ro_created_at :: int
  ro_revoked_at :: "int option"

record user_session_row =
  us_token_hash :: string
  us_user_id :: int
  us_auth_method :: string
  us_created_at :: int
  us_expires_at :: int
  us_last_used_at :: int

record identity_row =
  ui_id :: int
  ui_user_id :: int
  ui_provider_id :: string
  ui_provider_subject :: string
  ui_email :: "string option"
  ui_email_verified :: bool
  ui_created_at :: int
  ui_updated_at :: int

record flow_row =
  fl_state_hash :: string
  fl_provider_id :: int
  fl_payload :: string
  fl_mode :: string
  fl_user_id :: "int option"
  fl_expires_at :: int
  fl_used_at :: "int option"

record user_tables =
  profiles :: "profile_row list"
  users_seq :: int
  routing_ids :: "routing_row list"
  user_sessions :: "user_session_row list"
  user_identities :: "identity_row list"
  user_identities_seq :: int
  user_auth_flows :: "flow_row list"

record invitation_row =
  in_id :: int
  in_email :: string
  in_display_name :: string
  in_token_hash :: string
  in_status :: string
  in_expires_at :: int
  in_created_at :: int
  in_accepted_at :: "int option"
  in_revoked_at :: "int option"

record login_token_row =
  lt_id :: int
  lt_email :: string
  lt_token_hash :: string
  lt_code_hash :: string
  lt_attempts :: int
  lt_invitation_id :: "int option"
  lt_expires_at :: int
  lt_used_at :: "int option"

record email_limit_row =
  window_start :: int
  el_request_count :: int

record outbox_row =
  ob_id :: int
  ob_recipient :: string
  ob_subject :: string
  ob_body :: string
  ob_html_body :: "string option"
  ob_status :: string
  ob_attempts :: int
  ob_next_attempt_at :: int
  ob_last_error :: "string option"
  ob_sent_at :: "int option"

record mail_tables =
  email_invitations :: "invitation_row list"
  email_invitations_seq :: int
  email_login_tokens :: "login_token_row list"
  email_login_tokens_seq :: int
  email_rate_limits :: "string \<rightharpoonup> email_limit_row"
  email_outbox :: "outbox_row list"
  email_outbox_seq :: int

record store =
  qdb :: database
  adm :: admin_tables
  usr :: user_tables
  mail :: mail_tables

definition empty_store :: store where
  "empty_store = \<lparr>qdb = empty_database,
     adm = \<lparr>admin_users = [], admin_users_seq = 0, admin_sessions = [], admin_passkeys = [],
       admin_passkeys_seq = 0, webauthn_challenges = [], settings = Map.empty\<rparr>,
     usr = \<lparr>profiles = [], users_seq = 0, routing_ids = [], user_sessions = [],
       user_identities = [], user_identities_seq = 0, user_auth_flows = []\<rparr>,
     mail = \<lparr>email_invitations = [], email_invitations_seq = 0, email_login_tokens = [],
       email_login_tokens_seq = 0, email_rate_limits = Map.empty, email_outbox = [],
       email_outbox_seq = 0\<rparr>\<rparr>"

datatype account_error =
    ConstraintFailed
  | HashFailed
  | NoRoutingId
  | InvitationInvalid
  | StoredConfigInvalid

type_synonym 'a account_result = "(account_error + 'a) \<times> store"

section \<open>Shared statements\<close>

definition normalize_email :: "string \<Rightarrow> string" where
  "normalize_email email = to_ascii_lowercase (trim email)"

definition log_audit :: "int \<Rightarrow> string \<Rightarrow> string \<Rightarrow> string \<Rightarrow> store \<Rightarrow> store" where
  "log_audit now username action detail st = st\<lparr>qdb := audit now username action detail (qdb st)\<rparr>"

definition write_security_audit :: "int \<Rightarrow> string \<Rightarrow> string \<Rightarrow> string \<Rightarrow> store \<Rightarrow> store" where
  "write_security_audit now username action detail st =
     log_audit now (if username = [] then ''unknown'' else username) action detail st"

text \<open>\<open>UPDATE ... SET ... WHERE\<close> with the number of affected rows, and \<open>DELETE ... WHERE\<close>.\<close>

definition update_where :: "('r \<Rightarrow> bool) \<Rightarrow> ('r \<Rightarrow> 'r) \<Rightarrow> 'r list \<Rightarrow> 'r list" where
  "update_where p f rows = map (\<lambda>r. if p r then f r else r) rows"

definition affected :: "('r \<Rightarrow> bool) \<Rightarrow> 'r list \<Rightarrow> nat" where
  "affected p rows = length (filter p rows)"

definition delete_where :: "('r \<Rightarrow> bool) \<Rightarrow> 'r list \<Rightarrow> 'r list" where
  "delete_where p rows = filter (\<lambda>r. \<not> p r) rows"

definition fetch_optional :: "('r \<Rightarrow> bool) \<Rightarrow> 'r list \<Rightarrow> 'r option" where
  "fetch_optional p rows = List.find p rows"

lemma log_audit_simps [simp]:
  "adm (log_audit now u a d st) = adm st" "usr (log_audit now u a d st) = usr st"
  "mail (log_audit now u a d st) = mail st"
  "users (qdb (log_audit now u a d st)) = users (qdb st)"
  by (simp_all add: log_audit_def audit_def)

lemma write_security_audit_simps [simp]:
  "adm (write_security_audit now u a d st) = adm st"
  "usr (write_security_audit now u a d st) = usr st"
  "mail (write_security_audit now u a d st) = mail st"
  "users (qdb (write_security_audit now u a d st)) = users (qdb st)"
  by (simp_all add: write_security_audit_def)

lemma fetch_optional_Some: "fetch_optional p rows = Some r \<Longrightarrow> r \<in> set rows \<and> p r"
  by (auto simp: fetch_optional_def find_Some_iff)

lemma fetch_optional_None: "fetch_optional p rows = None \<longleftrightarrow> (\<forall>r\<in>set rows. \<not> p r)"
  by (auto simp: fetch_optional_def find_None_iff)

lemma fetch_optional_Cons [simp]:
  "fetch_optional p (r # rows) = (if p r then Some r else fetch_optional p rows)"
  "fetch_optional p [] = None"
  by (simp_all add: fetch_optional_def)

lemma fetch_optional_append:
  "fetch_optional p (xs @ ys) = (case fetch_optional p xs of None \<Rightarrow> fetch_optional p ys | Some r \<Rightarrow> Some r)"
  by (induction xs) auto

lemma fetch_optional_cong:
  "(\<And>r. r \<in> set rows \<Longrightarrow> p r = q r) \<Longrightarrow> fetch_optional p rows = fetch_optional q rows"
  by (induction rows) auto

text \<open>An update of columns the query does not look at, and a deletion of rows it does not
  select, leave what is fetched.\<close>

lemma fetch_update_where:
  assumes "\<And>r. q (f r) = q r"
  shows "fetch_optional q (update_where p f rows) =
    map_option (\<lambda>r. if p r then f r else r) (fetch_optional q rows)"
  using assms by (induction rows) (auto simp: update_where_def)

lemma fetch_delete_where:
  assumes "\<And>r. q r \<Longrightarrow> \<not> p r"
  shows "fetch_optional q (delete_where p rows) = fetch_optional q rows"
  using assms by (induction rows) (auto simp: delete_where_def)

lemma fetch_delete_where_none:
  assumes "\<And>r. q r \<Longrightarrow> p r"
  shows "fetch_optional q (delete_where p rows) = None"
  using assms by (auto simp: fetch_optional_None delete_where_def)

lemma set_delete_where [simp]: "set (delete_where p rows) = {r \<in> set rows. \<not> p r}"
  by (auto simp: delete_where_def)

lemma set_update_where: "set (update_where p f rows) = (\<lambda>r. if p r then f r else r) ` set rows"
  by (simp add: update_where_def)

lemma image_update_where:
  assumes "\<And>r. e (f r) = e r"
  shows "e ` set (update_where p f rows) = e ` set rows"
  unfolding set_update_where image_image using assms by (intro image_cong) auto

lemma affected_0 [simp]: "affected p rows = 0 \<longleftrightarrow> (\<forall>r\<in>set rows. \<not> p r)"
  by (auto simp: affected_def filter_empty_conv)

lemma distinct_map_delete [simp]: "distinct (map f xs) \<Longrightarrow> distinct (map f (delete_where p xs))"
  by (simp add: delete_where_def distinct_map_filter)

lemma map_update_where:
  "(\<And>r. f (g r) = f r) \<Longrightarrow> map f (update_where p g xs) = map f xs"
  by (auto simp: update_where_def)

lemma unique_row:
  assumes "distinct (map k rows)" and "r \<in> set rows" and "q r" and "\<And>x. q x \<Longrightarrow> k x = k r"
  shows "fetch_optional q rows = Some r"
proof (cases "fetch_optional q rows")
  case None
  then show ?thesis using assms(2,3) by (auto simp: fetch_optional_None)
next
  case (Some x)
  then show ?thesis
    using fetch_optional_Some[OF Some] assms by (metis inj_on_def distinct_map)
qed

lemma affected_one:
  assumes "distinct (map k rows)" and "r \<in> set rows" and "q r"
  shows "affected (\<lambda>x. k x = k r \<and> q x) rows = 1"
  using assms
proof (induction rows)
  case (Cons x rows)
  show ?case
  proof (cases "x = r")
    case True
    then have "affected (\<lambda>x. k x = k r \<and> q x) rows = 0"
      using Cons.prems(1) unfolding affected_0 by (auto simp: image_iff)
    then show ?thesis using True Cons.prems(3) by (simp add: affected_def)
  next
    case False
    then have "r \<in> set rows" "k x \<noteq> k r" using Cons.prems(1,2) by auto
    then show ?thesis using Cons by (simp add: affected_def)
  qed
qed simp

section \<open>Session tables\<close>

text \<open>
  The contract of a table of expiring sessions, shared by administrators and users.  A
  session is its token hash, its owner and its expiry; an operation grants one, revokes
  those a predicate selects, or keeps them.  The table may forget sessions that have
  expired, which \<open>prunes\<close> says.
\<close>

type_synonym 'o session = "string \<times> 'o \<times> int"

datatype 'o session_effect = Keep | Grant string 'o int | Revoke "string \<Rightarrow> 'o \<Rightarrow> bool"

fun apply_effect :: "'o session_effect \<Rightarrow> 'o session set \<Rightarrow> 'o session set" where
  "apply_effect Keep G = G"
| "apply_effect (Grant h u e) G = insert (h, u, e) G"
| "apply_effect (Revoke p) G = Set.filter (\<lambda>(h, u, e). \<not> p h u) G"

definition prunes :: "int \<Rightarrow> 'o session set \<Rightarrow> 'o session set \<Rightarrow> bool" where
  "prunes now full pruned \<longleftrightarrow> pruned \<subseteq> full \<and> (\<forall>(h, u, e)\<in>full. e > now \<longrightarrow> (h, u, e) \<in> pruned)"

lemma prunes_refl [simp]: "prunes now G G"
  by (auto simp: prunes_def)

lemma prunes_trans: "prunes c A B \<Longrightarrow> prunes now B C \<Longrightarrow> c \<le> now \<Longrightarrow> prunes now A C"
  by (fastforce simp: prunes_def)

lemma prunes_effect: "prunes c A B \<Longrightarrow> prunes c (apply_effect eff A) (apply_effect eff B)"
  by (cases eff) (auto simp: prunes_def)

lemma prunes_live: "prunes now A B \<Longrightarrow> e > now \<Longrightarrow> (h, u, e) \<in> A \<longleftrightarrow> (h, u, e) \<in> B"
  by (auto simp: prunes_def)

text \<open>The sessions granted and not revoked by a history, with nothing forgotten.\<close>

fun granted ::
  "(int \<Rightarrow> 'op \<Rightarrow> 's \<Rightarrow> 'o session_effect) \<Rightarrow> (int \<Rightarrow> 'op \<Rightarrow> 's \<Rightarrow> 's) \<Rightarrow> (int \<times> 'op) list \<Rightarrow> 's
     \<Rightarrow> 'o session set \<Rightarrow> 'o session set" where
  "granted eff step [] s G = G"
| "granted eff step ((now, op) # ops) s G = granted eff step ops (step now op s) (apply_effect (eff now op s) G)"

definition run_ops :: "(int \<Rightarrow> 'op \<Rightarrow> 's \<Rightarrow> 's) \<Rightarrow> (int \<times> 'op) list \<Rightarrow> 's \<Rightarrow> 's" where
  "run_ops step ops s = fold (\<lambda>(now, op). step now op) ops s"

lemma run_ops_simps [simp]:
  "run_ops step [] s = s" "run_ops step ((now, op) # ops) s = run_ops step ops (step now op s)"
  by (simp_all add: run_ops_def)

lemma sorted_from_first:
  "sorted (map fst ops) \<Longrightarrow> sorted ((case ops of [] \<Rightarrow> d | p # _ \<Rightarrow> fst p) # map fst ops)"
  by (cases ops) simp_all

lemma run_ops_invariant:
  assumes "\<And>now op s. P s \<Longrightarrow> P (step now op s)" and "P s"
  shows "P (run_ops step ops s)"
  using assms(2)
proof (induction ops arbitrary: s)
  case (Cons p ops)
  then show ?case by (cases p) (simp add: assms(1))
qed simp

locale session_service =
  fixes sessions :: "'s \<Rightarrow> 'o session set"
    and effect :: "int \<Rightarrow> 'op \<Rightarrow> 's \<Rightarrow> 'o session_effect"
    and step :: "int \<Rightarrow> 'op \<Rightarrow> 's \<Rightarrow> 's"
  assumes step_effect: "prunes now (apply_effect (effect now op s) (sessions s)) (sessions (step now op s))"
begin

lemma run_prunes:
  assumes "prunes clock G (sessions s)" and "sorted (clock # map fst ops)"
    and "\<forall>t\<in>set (map fst ops). t \<le> now" and "clock \<le> now"
  shows "prunes now (granted effect step ops s G) (sessions (run_ops step ops s))"
  using assms
proof (induction ops arbitrary: clock s G)
  case Nil
  then show ?case by (auto intro: prunes_trans[of clock])
next
  case (Cons p ops)
  obtain t op where p: "p = (t, op)" by (cases p)
  have le: "clock \<le> t" using Cons.prems(2) by (simp add: p)
  have "prunes t (apply_effect (effect t op s) G) (sessions (step t op s))"
    using prunes_effect[OF Cons.prems(1)] step_effect le by (rule prunes_trans)
  moreover have "sorted (t # map fst ops)" using Cons.prems(2) by (simp add: p)
  ultimately show ?case
    using Cons.IH[of t] Cons.prems(3) by (simp add: p)
qed

text \<open>After any history the unexpired sessions of the table are exactly those of the ledger.\<close>

lemma live_sessions:
  assumes "sessions s = {}" and "sorted (map fst ops)" and "\<forall>t\<in>set (map fst ops). t \<le> now" and "e > now"
  shows "(h, u, e) \<in> granted effect step ops s {} \<longleftrightarrow> (h, u, e) \<in> sessions (run_ops step ops s)"
proof -
  define clock where "clock = (case ops of [] \<Rightarrow> now | p # _ \<Rightarrow> fst p)"
  have "sorted (clock # map fst ops)" "clock \<le> now"
    using assms(2,3) by (auto simp only: clock_def sorted_from_first split: list.splits) auto
  then have "prunes now (granted effect step ops s {}) (sessions (run_ops step ops s))"
    using assms(1,3) by (intro run_prunes[of clock]) auto
  then show ?thesis using assms(4) by (rule prunes_live)
qed

end

text \<open>Concrete hash functions, for the witnesses.\<close>

definition toy_crypto :: crypto where
  "toy_crypto = \<lparr>hash_token = (\<lambda>t. ''h'' @ t), argon2_matches = (\<lambda>p h. h = ''a'' @ p)\<rparr>"

end
