(* ===== verification/Admin_Auth.thy ===== *)
theory Admin_Auth
  imports Account_Db Config_Defaults Rate_Limiting
begin

text \<open>
  Administrator sign-in: the account, session and challenge operations of
  \<open>crates/server/src/database.rs\<close> and the login handler of \<open>main.rs\<close>.

  The password check and the update of the failure counter are two statements of the code,
  not one transaction; here a login is one step, so the counting theorems are about logins
  that do not overlap.
\<close>

section \<open>Constants and results\<close>

definition SESSION_LIFETIME_SECS :: int where
  "SESSION_LIFETIME_SECS = 24 * 60 * 60"

definition ADMIN_LOGIN_FAILURE_LIMIT :: int where
  "ADMIN_LOGIN_FAILURE_LIMIT = 5"

definition ADMIN_LOGIN_LOCK_SECS :: int where
  "ADMIN_LOGIN_LOCK_SECS = 15 * 60"

definition WEBAUTHN_CHALLENGE_LIFETIME_SECS :: int where
  "WEBAUTHN_CHALLENGE_LIFETIME_SECS = 5 * 60"

record admin_session =
  sn_token :: string
  sn_expires_at :: int
  sn_username :: string
  sn_role :: string

record admin_identity =
  ai_username :: string
  ai_role :: string

record admin_session_summary =
  ss_id :: string
  ss_auth_method :: string
  ss_created_at :: int
  ss_expires_at :: int
  ss_last_used_at :: int
  ss_current :: bool

datatype admin_login_outcome = Success admin_session | Invalid | Locked nat

datatype username_change_outcome = Changed | InvalidCredentials | UsernameExists

record initial_admin_credentials =
  ic_username :: string
  ic_password :: string
  ic_password_generated :: bool

section \<open>Accounts and sessions (database.rs)\<close>

definition admin_named :: "string \<Rightarrow> store \<Rightarrow> admin_row option" where
  "admin_named username st = fetch_optional (\<lambda>r. ad_username r = username) (admin_users (adm st))"

definition update_admin :: "string \<Rightarrow> (admin_row \<Rightarrow> admin_row) \<Rightarrow> store \<Rightarrow> store" where
  "update_admin username f st = st\<lparr>adm := (adm st)\<lparr>admin_users :=
     update_where (\<lambda>r. ad_username r = username) f (admin_users (adm st))\<rparr>\<rparr>"

definition set_sessions :: "admin_session_row list \<Rightarrow> store \<Rightarrow> store" where
  "set_sessions rows st = st\<lparr>adm := (adm st)\<lparr>admin_sessions := rows\<rparr>\<rparr>"

text \<open>The insert fails on a token hash that is present.\<close>

definition insert_admin_session :: "admin_session_row \<Rightarrow> store \<Rightarrow> store option" where
  "insert_admin_session row st =
     (if \<exists>s\<in>set (admin_sessions (adm st)). as_token_hash s = as_token_hash row then None
      else Some (set_sessions (admin_sessions (adm st) @ [row]) st))"

definition delete_sessions_of :: "string \<Rightarrow> store \<Rightarrow> store" where
  "delete_sessions_of username st =
     set_sessions (delete_where (\<lambda>s. as_username s = username) (admin_sessions (adm st))) st"

definition new_session ::
  "crypto \<Rightarrow> int \<Rightarrow> string \<Rightarrow> string \<Rightarrow> string \<Rightarrow> admin_session_row" where
  "new_session K now token username auth_method =
     \<lparr>as_token_hash = hash_token K token, as_username = username, as_auth_method = auth_method,
      as_created_at = now, as_expires_at = now + SESSION_LIFETIME_SECS, as_last_used_at = now\<rparr>"

definition failed_password :: "int \<Rightarrow> admin_row \<Rightarrow> admin_row" where
  "failed_password now row =
     (let failures = (if locked_until row \<noteq> None then 1 else failed_login_count row + 1)
      in row\<lparr>failed_login_count := failures,
             locked_until := (if failures \<ge> ADMIN_LOGIN_FAILURE_LIMIT
                              then Some (now + ADMIN_LOGIN_LOCK_SECS) else None),
             ad_updated_at := now\<rparr>)"

definition login_with_context ::
  "crypto \<Rightarrow> int \<Rightarrow> string \<Rightarrow> string \<Rightarrow> string \<Rightarrow> string \<Rightarrow> store \<Rightarrow> admin_login_outcome account_result"
where
  "login_with_context K now token name password source st =
     (let username = trim name in
      case admin_named username st of
        None \<Rightarrow> (Inr Invalid, write_security_audit now username ''admin_login_failed'' source st)
      | Some row \<Rightarrow>
          if ad_disabled row
          then (Inr Invalid, write_security_audit now username ''admin_login_failed'' source st)
          else if is_some_and (\<lambda>until. until > now) (locked_until row)
          then (Inr (Locked (nat (unwrap_or now (locked_until row) - now))),
                write_security_audit now username ''admin_login_locked'' source st)
          else if \<not> argon2_matches K password (ad_password_hash row)
          then (let st' = write_security_audit now username ''admin_login_failed'' source
                      (update_admin username (\<lambda>_. failed_password now row) st)
                in case locked_until (failed_password now row) of
                     None \<Rightarrow> (Inr Invalid, st')
                   | Some _ \<Rightarrow> (Inr (Locked (nat ADMIN_LOGIN_LOCK_SECS)), st'))
          else (case insert_admin_session (new_session K now token username ''password'') st of
                  None \<Rightarrow> (Inl ConstraintFailed, st)
                | Some st1 \<Rightarrow>
                    (Inr (Success \<lparr>sn_token = token, sn_expires_at = now + SESSION_LIFETIME_SECS,
                            sn_username = username, sn_role = ad_role row\<rparr>),
                     log_audit now username ''admin_login_succeeded'' source
                       (update_admin username
                         (\<lambda>r. r\<lparr>failed_login_count := 0, locked_until := None, ad_updated_at := now\<rparr>)
                         st1))))"

definition authenticate_session :: "crypto \<Rightarrow> int \<Rightarrow> string \<Rightarrow> store \<Rightarrow> admin_identity option \<times> store" where
  "authenticate_session K now token st =
     (let st1 = set_sessions (delete_where (\<lambda>s. as_expires_at s \<le> now) (admin_sessions (adm st))) st;
          row = Option.bind
            (fetch_optional (\<lambda>s. as_token_hash s = hash_token K token \<and> as_expires_at s > now)
              (admin_sessions (adm st1)))
            (\<lambda>s. fetch_optional (\<lambda>u. ad_username u = as_username s \<and> \<not> ad_disabled u)
              (admin_users (adm st1)))
      in case row of
           None \<Rightarrow> (None, st1)
         | Some u \<Rightarrow>
             (Some \<lparr>ai_username = ad_username u, ai_role = ad_role u\<rparr>,
              set_sessions (update_where (\<lambda>s. as_token_hash s = hash_token K token)
                (\<lambda>s. s\<lparr>as_last_used_at := now\<rparr>) (admin_sessions (adm st1))) st1))"

definition logout :: "crypto \<Rightarrow> string \<Rightarrow> store \<Rightarrow> store" where
  "logout K token st =
     set_sessions (delete_where (\<lambda>s. as_token_hash s = hash_token K token) (admin_sessions (adm st))) st"

text \<open>\<open>next_hash\<close> is what hashing the new password with a fresh salt returns, \<open>None\<close> for a
  failure of the library.\<close>

definition change_admin_password ::
  "crypto \<Rightarrow> int \<Rightarrow> string \<Rightarrow> string \<Rightarrow> string option \<Rightarrow> store \<Rightarrow> bool account_result" where
  "change_admin_password K now username current_password next_hash st =
     (case admin_named username st of
        None \<Rightarrow> (Inr False, st)
      | Some row \<Rightarrow>
          if \<not> argon2_matches K current_password (ad_password_hash row) then (Inr False, st)
          else (case next_hash of
                  None \<Rightarrow> (Inl HashFailed, st)
                | Some h \<Rightarrow>
                    (Inr True,
                     log_audit now username ''change_admin_password'' ''all sessions revoked''
                       (delete_sessions_of username
                         (update_admin username (\<lambda>r. r\<lparr>ad_password_hash := h, ad_updated_at := now\<rparr>) st)))))"

text \<open>Decoding a stored runtime configuration (opening the secret, then JSON) and encoding
  it back are library calls.\<close>

record config_codec =
  cfg_decode :: "string \<Rightarrow> config option"
  cfg_encode :: "config \<Rightarrow> string option"

definition rename_break_glass ::
  "config_codec \<Rightarrow> int \<Rightarrow> string \<Rightarrow> string \<Rightarrow> (string \<rightharpoonup> setting_row) \<Rightarrow> (string \<rightharpoonup> setting_row) option"
where
  "rename_break_glass J now username new_username s =
     (case s ''runtime_config'' of
        None \<Rightarrow> Some s
      | Some row \<Rightarrow>
          (case cfg_decode J (st_value row) of
             None \<Rightarrow> None
           | Some c \<Rightarrow>
               if wc_break_glass_username (cfg_webauthn c) = username
               then map_option (\<lambda>v. s(''runtime_config'' \<mapsto>
                        row\<lparr>st_value := v, st_version := st_version row + 1, st_updated_at := now\<rparr>))
                      (cfg_encode J (c\<lparr>cfg_webauthn := (cfg_webauthn c)\<lparr>wc_break_glass_username := new_username\<rparr>\<rparr>))
               else Some s))"

definition change_admin_username ::
  "crypto \<Rightarrow> config_codec \<Rightarrow> int \<Rightarrow> string \<Rightarrow> string \<Rightarrow> string \<Rightarrow> store \<Rightarrow> username_change_outcome account_result"
where
  "change_admin_username K J now username current_password new_username st =
     (case admin_named username st of
        None \<Rightarrow> (Inr InvalidCredentials, st)
      | Some row \<Rightarrow>
          if \<not> argon2_matches K current_password (ad_password_hash row) then (Inr InvalidCredentials, st)
          else if admin_named new_username st \<noteq> None then (Inr UsernameExists, st)
          else
            (case rename_break_glass J now username new_username (settings (adm st)) of
               None \<Rightarrow> (Inl StoredConfigInvalid, st)
             | Some s \<Rightarrow>
                 (Inr Changed,
                  log_audit now new_username ''change_admin_username''
                    (''previous_username='' @ username @ ''; authentication state revoked'')
                    (st\<lparr>adm := (adm st)\<lparr>
                       admin_sessions := delete_where (\<lambda>s. as_username s = username) (admin_sessions (adm st)),
                       admin_passkeys := delete_where (\<lambda>p. pk_username p = username) (admin_passkeys (adm st)),
                       webauthn_challenges := delete_where (\<lambda>w. wa_username w = username) (webauthn_challenges (adm st)),
                       admin_users := update_where (\<lambda>r. ad_username r = username)
                         (\<lambda>r. r\<lparr>ad_username := new_username, ad_updated_at := now\<rparr>) (admin_users (adm st)),
                       settings := s\<rparr>\<rparr>))))"

definition session_id :: "admin_session_row \<Rightarrow> string" where
  "session_id s = take 24 (as_token_hash s)"

definition list_admin_sessions ::
  "crypto \<Rightarrow> int \<Rightarrow> string \<Rightarrow> string \<Rightarrow> store \<Rightarrow> admin_session_summary list" where
  "list_admin_sessions K now username current_token st =
     map (\<lambda>s. \<lparr>ss_id = session_id s, ss_auth_method = as_auth_method s, ss_created_at = as_created_at s,
               ss_expires_at = as_expires_at s, ss_last_used_at = as_last_used_at s,
               ss_current = (as_token_hash s = hash_token K current_token)\<rparr>)
       (sort_key (\<lambda>s. - as_last_used_at s)
         (filter (\<lambda>s. as_username s = username \<and> as_expires_at s > now) (admin_sessions (adm st))))"

definition revoke_admin_session ::
  "int \<Rightarrow> string \<Rightarrow> string \<Rightarrow> string \<Rightarrow> store \<Rightarrow> bool \<times> store" where
  "revoke_admin_session now actor username sid st =
     (let p = (\<lambda>s. as_username s = username \<and> session_id s = sid) in
      if affected p (admin_sessions (adm st)) \<noteq> 1 then (False, st)
      else (True, log_audit now actor ''admin_session_revoked'' (''session_id='' @ sid)
                    (set_sessions (delete_where p (admin_sessions (adm st))) st)))"

definition first_super_admin :: "store \<Rightarrow> admin_row option" where
  "first_super_admin st = fetch_optional (\<lambda>r. ad_role r = ''super_admin'') (admin_users (adm st))"

definition initial_admin :: "store \<Rightarrow> admin_row option" where
  "initial_admin st = Option.bind (settings (adm st) ''initial_admin_user_handle'')
     (\<lambda>s. fetch_optional (\<lambda>r. user_handle r = st_value s) (admin_users (adm st)))"

definition upsert_setting :: "int \<Rightarrow> string \<Rightarrow> string \<Rightarrow> (string \<rightharpoonup> setting_row) \<Rightarrow> (string \<rightharpoonup> setting_row)" where
  "upsert_setting now key v s = s(key \<mapsto> (case s key of
       None \<Rightarrow> \<lparr>st_value = v, st_version = 1, st_updated_at = now\<rparr>
     | Some row \<Rightarrow> row\<lparr>st_value := v, st_version := st_version row + 1, st_updated_at := now\<rparr>))"

definition reset_initial_admin_password ::
  "int \<Rightarrow> string \<Rightarrow> string \<Rightarrow> string option \<Rightarrow> store \<Rightarrow> initial_admin_credentials option account_result" where
  "reset_initial_admin_password now actor password password_hash st =
     (case (case initial_admin st of
              Some r \<Rightarrow> Some (r, st)
            | None \<Rightarrow> map_option (\<lambda>r. (r, st\<lparr>adm := (adm st)\<lparr>settings :=
                 upsert_setting now ''initial_admin_user_handle'' (user_handle r) (settings (adm st))\<rparr>\<rparr>))
                 (first_super_admin st)) of
        None \<Rightarrow> (Inr None, st)
      | Some (r, st1) \<Rightarrow>
          (case password_hash of
             None \<Rightarrow> (Inl HashFailed, st)
           | Some h \<Rightarrow>
               (Inr (Some \<lparr>ic_username = ad_username r, ic_password = password, ic_password_generated = True\<rparr>),
                log_audit now actor ''admin_password_reset''
                  (''username='' @ ad_username r @ ''; all sessions revoked'')
                  (delete_sessions_of (ad_username r)
                    (update_admin (ad_username r)
                      (\<lambda>r. r\<lparr>ad_password_hash := h, ad_disabled := False, failed_login_count := 0,
                             locked_until := None, ad_updated_at := now\<rparr>) st1)))))"

section \<open>First administrator\<close>

definition initial_admin_password :: "string \<Rightarrow> string option \<Rightarrow> string \<times> bool" where
  "initial_admin_password generated configured =
     (case opt_filter (\<lambda>p. p \<noteq> []) configured of
        Some p \<Rightarrow> (p, False) | None \<Rightarrow> (generated, True))"

text \<open>Arguments: the configured password, the random one and the random handle.\<close>

definition ensure_initial_admin ::
  "int \<Rightarrow> string option \<Rightarrow> string \<Rightarrow> string \<Rightarrow> string option \<Rightarrow> store
     \<Rightarrow> initial_admin_credentials option account_result" where
  "ensure_initial_admin now configured generated handle password_hash st =
     (if admin_users (adm st) \<noteq> []
      then (Inr None, case first_super_admin st of
              None \<Rightarrow> st
            | Some r \<Rightarrow> st\<lparr>adm := (adm st)\<lparr>settings :=
                insert_or_ignore ''initial_admin_user_handle''
                  \<lparr>st_value = user_handle r, st_version = 1, st_updated_at = now\<rparr> (settings (adm st))\<rparr>\<rparr>)
      else
        (let (password, was_generated) = initial_admin_password generated configured in
         case password_hash of
           None \<Rightarrow> (Inl HashFailed, st)
         | Some h \<Rightarrow>
             (let ident = admin_users_seq (adm st) + 1;
                  row = \<lparr>ad_id = ident, ad_username = ''admin'', ad_password_hash = h,
                    ad_role = ''super_admin'', ad_disabled = False, failed_login_count = 0,
                    locked_until = None, user_handle = handle, ad_updated_at = now\<rparr>;
                  st1 = st\<lparr>adm := (adm st)\<lparr>admin_users := [row], admin_users_seq := ident\<rparr>\<rparr>
              in if settings (adm st) ''initial_admin_user_handle'' \<noteq> None then (Inl ConstraintFailed, st1)
                 else (Inr (Some \<lparr>ic_username = ''admin'', ic_password = password,
                               ic_password_generated = was_generated\<rparr>),
                       st1\<lparr>adm := (adm st1)\<lparr>settings := (settings (adm st1))(''initial_admin_user_handle'' \<mapsto>
                         \<lparr>st_value = handle, st_version = 1, st_updated_at = now\<rparr>)\<rparr>\<rparr>))))"

section \<open>Passkeys and challenges\<close>

definition store_webauthn_challenge ::
  "crypto \<Rightarrow> int \<Rightarrow> string \<Rightarrow> string \<Rightarrow> string \<Rightarrow> string \<Rightarrow> string option \<Rightarrow> store \<Rightarrow> string account_result"
where
  "store_webauthn_challenge K now challenge username for_kind state_json session_token st =
     (let live = delete_where (\<lambda>w. wa_expires_at w \<le> now) (webauthn_challenges (adm st));
          st1 = st\<lparr>adm := (adm st)\<lparr>webauthn_challenges := live\<rparr>\<rparr>;
          row = \<lparr>wa_challenge_hash = hash_token K challenge, wa_username = username, wa_kind = for_kind,
                 wa_state_json = state_json, wa_session_token_hash = map_option (hash_token K) session_token,
                 wa_expires_at = now + WEBAUTHN_CHALLENGE_LIFETIME_SECS\<rparr>
      in if admin_named username st = None \<or> (\<exists>w\<in>set live. wa_challenge_hash w = wa_challenge_hash row)
         then (Inl ConstraintFailed, st1)
         else (Inr challenge, st1\<lparr>adm := (adm st1)\<lparr>webauthn_challenges := live @ [row]\<rparr>\<rparr>))"

definition take_webauthn_challenge ::
  "crypto \<Rightarrow> int \<Rightarrow> string \<Rightarrow> string \<Rightarrow> string option \<Rightarrow> store \<Rightarrow> (string \<times> string) option \<times> store" where
  "take_webauthn_challenge K now challenge for_kind session_token st =
     (let h = hash_token K challenge;
          row = fetch_optional (\<lambda>w. wa_challenge_hash w = h \<and> wa_kind w = for_kind) (webauthn_challenges (adm st));
          st1 = st\<lparr>adm := (adm st)\<lparr>webauthn_challenges :=
                  delete_where (\<lambda>w. wa_challenge_hash w = h) (webauthn_challenges (adm st))\<rparr>\<rparr>
      in case row of
           None \<Rightarrow> (None, st1)
         | Some w \<Rightarrow>
             if wa_session_token_hash w \<noteq> map_option (hash_token K) session_token \<or> wa_expires_at w \<le> now
             then (None, st1) else (Some (wa_username w, wa_state_json w), st1))"

definition create_passkey_session ::
  "crypto \<Rightarrow> int \<Rightarrow> string \<Rightarrow> string \<Rightarrow> string \<Rightarrow> store \<Rightarrow> admin_session option account_result" where
  "create_passkey_session K now token username source st =
     (case fetch_optional (\<lambda>r. ad_username r = username \<and> \<not> ad_disabled r) (admin_users (adm st)) of
        None \<Rightarrow> (Inr None, st)
      | Some row \<Rightarrow>
          (case insert_admin_session (new_session K now token username ''passkey'') st of
             None \<Rightarrow> (Inl ConstraintFailed, st)
           | Some st1 \<Rightarrow>
               (Inr (Some \<lparr>sn_token = token, sn_expires_at = now + SESSION_LIFETIME_SECS,
                           sn_username = username, sn_role = ad_role row\<rparr>),
                log_audit now username ''admin_passkey_login_succeeded'' source st1)))"

definition add_admin_passkey ::
  "int \<Rightarrow> string \<Rightarrow> string \<Rightarrow> string \<Rightarrow> string \<Rightarrow> store \<Rightarrow> bool account_result" where
  "add_admin_passkey now username name credential_id passkey_json st =
     (if \<exists>p\<in>set (admin_passkeys (adm st)). pk_credential_id p = credential_id then (Inr False, st)
      else if admin_named username st = None then (Inl ConstraintFailed, st)
      else
        (let ident = admin_passkeys_seq (adm st) + 1 in
         (Inr True, write_security_audit now username ''admin_passkey_registered'' name
            (st\<lparr>adm := (adm st)\<lparr>admin_passkeys_seq := ident, admin_passkeys := admin_passkeys (adm st) @
               [\<lparr>pk_id = ident, pk_username = username, pk_name = name, pk_credential_id = credential_id,
                 pk_json = passkey_json, pk_created_at = now, pk_last_used_at = None\<rparr>]\<rparr>\<rparr>))))"

definition delete_admin_passkey :: "int \<Rightarrow> string \<Rightarrow> int \<Rightarrow> store \<Rightarrow> bool \<times> store" where
  "delete_admin_passkey now username ident st =
     (let p = (\<lambda>r. pk_id r = ident \<and> pk_username r = username);
          st1 = st\<lparr>adm := (adm st)\<lparr>admin_passkeys := delete_where p (admin_passkeys (adm st))\<rparr>\<rparr>
      in if affected p (admin_passkeys (adm st)) = 1
         then (True, write_security_audit now username ''admin_passkey_deleted''
                       (''passkey_id='' @ dec_of_int ident) st1)
         else (False, st1))"

definition admin_passkey_count :: "string option \<Rightarrow> store \<Rightarrow> nat" where
  "admin_passkey_count username st = (case username of
       Some u \<Rightarrow> affected (\<lambda>p. pk_username p = u) (admin_passkeys (adm st))
     | None \<Rightarrow> length (admin_passkeys (adm st)))"

definition admins_without_minimum_passkeys :: "nat \<Rightarrow> string \<Rightarrow> store \<Rightarrow> string list" where
  "admins_without_minimum_passkeys minimum except_username st =
     sort (map ad_username (filter (\<lambda>u. \<not> ad_disabled u \<and> ad_username u \<noteq> except_username \<and>
        affected (\<lambda>p. pk_username p = ad_username u) (admin_passkeys (adm st)) < minimum)
       (admin_users (adm st))))"

section \<open>The login handler (main.rs)\<close>

datatype login_reply =
    Unauthorized
  | TooManyAttempts nat
  | PasskeyRequired
  | SessionCookies admin_session
  | SessionToken string int
  | InternalError

definition too_many_secs :: nat where
  "too_many_secs = 15 * 60"

text \<open>Both success branches test the passkey policy first.  \<open>at\<close> is the monotonic clock of the
  limiter, \<open>now\<close> the wall clock of the database.\<close>

definition admin_login_response ::
  "crypto \<Rightarrow> config \<Rightarrow> instant \<Rightarrow> int \<Rightarrow> string \<Rightarrow> string \<Rightarrow> string \<Rightarrow> string \<Rightarrow> bool
     \<Rightarrow> login_limiter \<times> store \<Rightarrow> login_reply \<times> login_limiter \<times> store" where
  "admin_login_response K c at now token name password source cookie_session s =
     (let (lim, st) = s; username = trim name in
      if username = [] \<or> password = [] then (Unauthorized, lim, st)
      else
        let username_key = ''username:'' @ to_ascii_lowercase username;
            source_key = ''source:'' @ source;
            (lim1, limited_user) = is_limited lim username_key 5 at;
            (lim2, limited) = (if limited_user then (lim1, True) else is_limited lim1 source_key 30 at)
        in if limited then (TooManyAttempts too_many_secs, lim2, st)
           else (case login_with_context K now token username password source st of
               (Inl _, st1) \<Rightarrow> (InternalError, lim2, st1)
             | (Inr (Success session), st1) \<Rightarrow>
                 if wc_require_passkey (cfg_webauthn c)
                    \<and> sn_username session \<noteq> wc_break_glass_username (cfg_webauthn c)
                 then (PasskeyRequired, lim2, logout K (sn_token session) st1)
                 else (if cookie_session then SessionCookies session
                       else SessionToken (sn_token session) (sn_expires_at session),
                       login_clear (login_clear lim2 username_key) source_key, st1)
             | (Inr Invalid, st1) \<Rightarrow>
                 (Unauthorized, login_record (login_record lim2 username_key at) source_key at, st1)
             | (Inr (Locked retry), st1) \<Rightarrow>
                 (TooManyAttempts retry, login_record (login_record lim2 username_key at) source_key at, st1)))"

section \<open>Histories of operations\<close>

datatype auth_op =
    Login string string string string
  | Authenticate string
  | Logout string
  | ChangePassword string string "string option"
  | ChangeUsername string string string
  | RevokeSession string string string
  | ResetInitial string string "string option"
  | PasskeyLogin string string string
  | StoreChallenge string string string string "string option"
  | TakeChallenge string string "string option"
  | AddPasskey string string string string
  | DeletePasskey string int

fun auth_step :: "crypto \<Rightarrow> config_codec \<Rightarrow> int \<Rightarrow> auth_op \<Rightarrow> store \<Rightarrow> store" where
  "auth_step K J now (Login token name password source) st =
     snd (login_with_context K now token name password source st)"
| "auth_step K J now (Authenticate token) st = snd (authenticate_session K now token st)"
| "auth_step K J now (Logout token) st = logout K token st"
| "auth_step K J now (ChangePassword username current next_hash) st =
     snd (change_admin_password K now username current next_hash st)"
| "auth_step K J now (ChangeUsername username current new_username) st =
     snd (change_admin_username K J now username current new_username st)"
| "auth_step K J now (RevokeSession actor username sid) st =
     snd (revoke_admin_session now actor username sid st)"
| "auth_step K J now (ResetInitial actor password password_hash) st =
     snd (reset_initial_admin_password now actor password password_hash st)"
| "auth_step K J now (PasskeyLogin token username source) st =
     snd (create_passkey_session K now token username source st)"
| "auth_step K J now (StoreChallenge challenge username for_kind state_json session) st =
     snd (store_webauthn_challenge K now challenge username for_kind state_json session st)"
| "auth_step K J now (TakeChallenge challenge for_kind session) st =
     snd (take_webauthn_challenge K now challenge for_kind session st)"
| "auth_step K J now (AddPasskey username name credential json) st =
     snd (add_admin_passkey now username name credential json st)"
| "auth_step K J now (DeletePasskey username ident) st =
     snd (delete_admin_passkey now username ident st)"

text \<open>What an operation means for the sessions, read off its outcome.\<close>

fun auth_effect :: "crypto \<Rightarrow> config_codec \<Rightarrow> int \<Rightarrow> auth_op \<Rightarrow> store \<Rightarrow> string session_effect" where
  "auth_effect K J now (Login token name password source) st =
     (case fst (login_with_context K now token name password source st) of
        Inr (Success s) \<Rightarrow> Grant (hash_token K token) (sn_username s) (sn_expires_at s)
      | _ \<Rightarrow> Keep)"
| "auth_effect K J now (Logout token) st = Revoke (\<lambda>h _. h = hash_token K token)"
| "auth_effect K J now (ChangePassword username current next_hash) st =
     (if fst (change_admin_password K now username current next_hash st) = Inr True
      then Revoke (\<lambda>_ u. u = username) else Keep)"
| "auth_effect K J now (ChangeUsername username current new_username) st =
     (if fst (change_admin_username K J now username current new_username st) = Inr Changed
      then Revoke (\<lambda>_ u. u = username) else Keep)"
| "auth_effect K J now (RevokeSession actor username sid) st =
     (if fst (revoke_admin_session now actor username sid st)
      then Revoke (\<lambda>h u. u = username \<and> take 24 h = sid) else Keep)"
| "auth_effect K J now (ResetInitial actor password password_hash) st =
     (case fst (reset_initial_admin_password now actor password password_hash st) of
        Inr (Some c) \<Rightarrow> Revoke (\<lambda>_ u. u = ic_username c) | _ \<Rightarrow> Keep)"
| "auth_effect K J now (PasskeyLogin token username source) st =
     (case fst (create_passkey_session K now token username source st) of
        Inr (Some s) \<Rightarrow> Grant (hash_token K token) (sn_username s) (sn_expires_at s) | _ \<Rightarrow> Keep)"
| "auth_effect K J now _ st = Keep"

definition auth_sessions :: "store \<Rightarrow> string session set" where
  "auth_sessions st = (\<lambda>s. (as_token_hash s, as_username s, as_expires_at s)) ` set (admin_sessions (adm st))"

lemma auth_sessions_adm: "adm st = adm st' \<Longrightarrow> auth_sessions st = auth_sessions st'"
  by (simp add: auth_sessions_def)

lemma auth_sessions_log [simp]:
  "auth_sessions (log_audit now u a d st) = auth_sessions st"
  "auth_sessions (write_security_audit now u a d st) = auth_sessions st"
  by (simp_all add: auth_sessions_def)

lemma auth_sessions_update_admin [simp]: "auth_sessions (update_admin u f st) = auth_sessions st"
  by (simp add: auth_sessions_def update_admin_def)

lemma auth_sessions_delete [simp]:
  "auth_sessions (delete_sessions_of u st) = {(h, v, e) \<in> auth_sessions st. v \<noteq> u}"
  by (auto simp: auth_sessions_def delete_sessions_of_def set_sessions_def)

lemma auth_sessions_insert:
  "insert_admin_session row st = Some st' \<Longrightarrow>
   auth_sessions st' = insert (as_token_hash row, as_username row, as_expires_at row) (auth_sessions st)"
  by (auto simp: insert_admin_session_def auth_sessions_def set_sessions_def split: if_splits)

lemma auth_sessions_touch:
  "auth_sessions (set_sessions (update_where p (\<lambda>s. s\<lparr>as_last_used_at := now\<rparr>) rows) st) =
   auth_sessions (set_sessions rows st)"
  by (simp add: auth_sessions_def set_sessions_def image_update_where)

lemma auth_sessions_same [simp]: "set_sessions (admin_sessions (adm st)) st = st"
  by (simp add: set_sessions_def)

lemmas auth_session_defs = auth_sessions_def set_sessions_def

lemma purge_prunes:
  "prunes now (auth_sessions st)
     (auth_sessions (set_sessions (delete_where (\<lambda>s. as_expires_at s \<le> now) (admin_sessions (adm st))) st))"
  by (force simp: prunes_def auth_session_defs)

lemma auth_step_effect:
  "prunes now (apply_effect (auth_effect K J now op st) (auth_sessions st))
     (auth_sessions (auth_step K J now op st))"
proof (cases op)
  case (Login t n p s)
  then show ?thesis
    by (auto simp: login_with_context_def Let_def new_session_def dest!: auth_sessions_insert
        split: option.splits)
next
  case (Authenticate t)
  show ?thesis
    by (auto simp: Authenticate authenticate_session_def Let_def auth_sessions_touch
        intro: purge_prunes split: option.splits)
next
  case (Logout t)
  then show ?thesis by (auto simp: logout_def prunes_def auth_session_defs)
next
  case (ChangePassword u c h)
  then show ?thesis
    by (auto simp: change_admin_password_def prunes_def split: option.splits)
next
  case (ChangeUsername u c n)
  then show ?thesis
    by (auto simp: change_admin_username_def prunes_def auth_session_defs log_audit_def
        split: option.splits)
next
  case (RevokeSession a u i)
  then show ?thesis
    by (auto simp: revoke_admin_session_def prunes_def auth_session_defs session_id_def Let_def)
next
  case (ResetInitial a p h)
  then show ?thesis
    by (auto simp: reset_initial_admin_password_def prunes_def split: option.splits)
      (auto simp: auth_sessions_def)
next
  case (PasskeyLogin t u s)
  then show ?thesis
    by (auto simp: create_passkey_session_def new_session_def dest!: auth_sessions_insert
        split: option.splits)
qed (auto simp: store_webauthn_challenge_def take_webauthn_challenge_def add_admin_passkey_def
      delete_admin_passkey_def Let_def split: option.splits, auto simp: auth_sessions_def)

interpretation admin_sessions: session_service auth_sessions "auth_effect K J" "auth_step K J"
  by unfold_locales (rule auth_step_effect)

section \<open>The schema\<close>

definition admin_names :: "store \<Rightarrow> string list" where
  "admin_names st = map ad_username (admin_users (adm st))"

text \<open>The unique columns and the foreign keys of the administrator tables.\<close>

definition admin_schema_ok :: "store \<Rightarrow> bool" where
  "admin_schema_ok st \<longleftrightarrow>
     distinct (admin_names st) \<and>
     distinct (map as_token_hash (admin_sessions (adm st))) \<and>
     (\<forall>s\<in>set (admin_sessions (adm st)). as_username s \<in> set (admin_names st)) \<and>
     (\<forall>p\<in>set (admin_passkeys (adm st)). pk_username p \<in> set (admin_names st)) \<and>
     (\<forall>w\<in>set (webauthn_challenges (adm st)). wa_username w \<in> set (admin_names st))"

lemma admin_named_Some: "admin_named u st = Some r \<Longrightarrow> r \<in> set (admin_users (adm st)) \<and> ad_username r = u"
  by (auto simp: admin_named_def dest: fetch_optional_Some)

lemma admin_named_None: "admin_named u st = None \<longleftrightarrow> u \<notin> set (admin_names st)"
  by (auto simp: admin_named_def fetch_optional_None admin_names_def)

lemma admin_named_names: "admin_named u st = Some r \<Longrightarrow> u \<in> set (admin_names st)"
  using admin_named_None[of u st] by auto

lemma admin_names_adm: "admin_users (adm st) = admin_users (adm st') \<Longrightarrow> admin_names st = admin_names st'"
  by (simp add: admin_names_def)

lemma admin_names_simps [simp]:
  "admin_names (log_audit now u a d st) = admin_names st"
  "admin_names (write_security_audit now u a d st) = admin_names st"
  "admin_names (set_sessions rows st) = admin_names st"
  "admin_names (delete_sessions_of u st) = admin_names st"
  by (simp_all add: admin_names_def set_sessions_def delete_sessions_of_def)

lemma admin_names_update [simp]:
  assumes "\<And>r. ad_username r = u \<Longrightarrow> ad_username (f r) = u"
  shows "admin_names (update_admin u f st) = admin_names st"
  using assms by (auto simp: admin_names_def update_admin_def update_where_def)

lemma failed_password_name [simp]: "ad_username (failed_password now r) = ad_username r"
  by (simp add: failed_password_def Let_def)

lemma admin_schema_same_users:
  assumes "admin_schema_ok st" and "admin_names st' = admin_names st"
    and "admin_sessions (adm st') = admin_sessions (adm st)"
    and "admin_passkeys (adm st') = admin_passkeys (adm st)"
    and "webauthn_challenges (adm st') = webauthn_challenges (adm st)"
  shows "admin_schema_ok st'"
  using assms by (simp add: admin_schema_ok_def)

lemma admin_schema_audit [simp]:
  "admin_schema_ok (log_audit now u a d st) = admin_schema_ok st"
  "admin_schema_ok (write_security_audit now u a d st) = admin_schema_ok st"
  by (simp_all add: admin_schema_ok_def)

lemma admin_schema_update_admin:
  assumes "admin_schema_ok st" and "\<And>r. ad_username r = u \<Longrightarrow> ad_username (f r) = u"
  shows "admin_schema_ok (update_admin u f st)"
  using assms(1) by (rule admin_schema_same_users) (use assms(2) in simp, simp_all add: update_admin_def)

lemma admin_schema_sessions:
  assumes "admin_schema_ok st" and "set rows \<subseteq> set (admin_sessions (adm st))" and "distinct (map as_token_hash rows)"
  shows "admin_schema_ok (set_sessions rows st)"
  using assms unfolding admin_schema_ok_def admin_names_simps by (auto simp: set_sessions_def)

lemma admin_schema_delete_sessions:
  "admin_schema_ok st \<Longrightarrow> admin_schema_ok (set_sessions (delete_where p (admin_sessions (adm st))) st)"
  by (intro admin_schema_sessions) (auto simp: admin_schema_ok_def)

lemma admin_schema_insert:
  assumes "admin_schema_ok st" and "insert_admin_session row st = Some st'"
    and "as_username row \<in> set (admin_names st)"
  shows "admin_schema_ok st'"
proof -
  have st': "st' = set_sessions (admin_sessions (adm st) @ [row]) st"
    and new: "\<forall>s\<in>set (admin_sessions (adm st)). as_token_hash s \<noteq> as_token_hash row"
    using assms(2) by (auto simp: insert_admin_session_def split: if_splits)
  show ?thesis
    using assms(1,3) new unfolding st' admin_schema_ok_def admin_names_simps
    by (auto simp: set_sessions_def)
qed

lemma admin_schema_challenges:
  assumes "admin_schema_ok st" and "\<forall>w\<in>set rows. wa_username w \<in> set (admin_names st)"
  shows "admin_schema_ok (st\<lparr>adm := (adm st)\<lparr>webauthn_challenges := rows\<rparr>\<rparr>)"
  using assms by (simp add: admin_schema_ok_def admin_names_def)

lemma admin_schema_passkeys:
  assumes "admin_schema_ok st" and "\<forall>p\<in>set rows. pk_username p \<in> set (admin_names st)"
  shows "admin_schema_ok (st\<lparr>adm := (adm st)\<lparr>admin_passkeys := rows\<rparr>\<rparr>)"
  using assms by (simp add: admin_schema_ok_def admin_names_def)

lemma admin_schema_authenticate:
  assumes "admin_schema_ok st"
  shows "admin_schema_ok (snd (authenticate_session K now token st))"
proof -
  let ?st1 = "set_sessions (delete_where (\<lambda>s. as_expires_at s \<le> now) (admin_sessions (adm st))) st"
  have 1: "admin_schema_ok ?st1" using assms by (rule admin_schema_delete_sessions)
  then have "admin_schema_ok (set_sessions (update_where q (\<lambda>s. s\<lparr>as_last_used_at := now\<rparr>)
      (admin_sessions (adm ?st1))) ?st1)" for q
    by (auto simp: admin_schema_ok_def map_update_where set_update_where set_sessions_def admin_names_def)
  with 1 show ?thesis
    by (auto simp: authenticate_session_def Let_def split: option.splits)
qed

lemma renamed_admin_names:
  assumes "distinct (admin_names st)" and "n \<notin> set (admin_names st)"
  shows "distinct (map (\<lambda>r. if ad_username r = u then n else ad_username r) (admin_users (adm st)))"
  using assms by (auto simp: admin_names_def distinct_map inj_on_def)

lemma admin_schema_rename:
  assumes ok: "admin_schema_ok st" and fresh: "admin_named n st = None"
  shows "admin_schema_ok (st\<lparr>adm := (adm st)\<lparr>
     admin_sessions := delete_where (\<lambda>s. as_username s = u) (admin_sessions (adm st)),
     admin_passkeys := delete_where (\<lambda>p. pk_username p = u) (admin_passkeys (adm st)),
     webauthn_challenges := delete_where (\<lambda>w. wa_username w = u) (webauthn_challenges (adm st)),
     admin_users := update_where (\<lambda>r. ad_username r = u)
       (\<lambda>r. r\<lparr>ad_username := n, ad_updated_at := now\<rparr>) (admin_users (adm st)),
     settings := s\<rparr>\<rparr>)" (is "admin_schema_ok ?st'")
proof -
  have names: "admin_names ?st' = map (\<lambda>r. if ad_username r = u then n else ad_username r) (admin_users (adm st))"
    by (simp add: admin_names_def update_where_def)
  have keep: "v \<in> set (admin_names ?st')" if "v \<in> set (admin_names st)" "v \<noteq> u" for v
    using that unfolding names by (auto simp: admin_names_def)
  have "distinct (admin_names ?st')"
    unfolding names using ok fresh
    by (intro renamed_admin_names) (auto simp: admin_schema_ok_def admin_named_None)
  with ok keep show ?thesis
    unfolding admin_schema_ok_def by auto
qed

lemma admin_schema_step:
  assumes ok: "admin_schema_ok st"
  shows "admin_schema_ok (auth_step K J now op st)"
proof (cases op)
  case (Login t n p s)
  show ?thesis
  proof (cases "admin_named (trim n) st")
    case (Some row)
    have "admin_schema_ok (update_admin (trim n) f st1)"
      if "insert_admin_session (new_session K now t (trim n) m) st = Some st1"
        "\<And>r. ad_username (f r) = ad_username r" for st1 f m
      using admin_schema_insert[OF ok that(1)] admin_named_names[OF Some] that(2)
      by (intro admin_schema_update_admin) (auto simp: new_session_def)
    moreover have "admin_schema_ok (update_admin (trim n) (\<lambda>_. failed_password now row) st)"
      using ok admin_named_Some[OF Some] by (intro admin_schema_update_admin) auto
    ultimately show ?thesis
      using ok by (auto simp: Login login_with_context_def Let_def Some split: option.splits)
  qed (use ok in \<open>simp add: Login login_with_context_def Let_def\<close>)
next
  case (Authenticate t)
  then show ?thesis using ok by (simp add: admin_schema_authenticate)
next
  case (Logout t)
  then show ?thesis using ok by (simp add: logout_def admin_schema_delete_sessions)
next
  case (ChangePassword u c h)
  then show ?thesis
    using ok by (auto simp: change_admin_password_def delete_sessions_of_def
        intro!: admin_schema_delete_sessions admin_schema_update_admin split: option.splits)
next
  case (ChangeUsername u c n)
  then show ?thesis
    using ok by (auto simp: change_admin_username_def intro: admin_schema_rename split: option.splits)
next
  case (RevokeSession a u i)
  then show ?thesis
    using ok by (auto simp: revoke_admin_session_def Let_def intro: admin_schema_delete_sessions)
next
  case (ResetInitial a p h)
  have "admin_schema_ok (st\<lparr>adm := (adm st)\<lparr>settings := s\<rparr>\<rparr>)" for s
    using ok by (simp add: admin_schema_ok_def admin_names_def)
  then show ?thesis
    using ok by (auto simp: ResetInitial reset_initial_admin_password_def delete_sessions_of_def
        intro!: admin_schema_delete_sessions admin_schema_update_admin split: option.splits)
next
  case (PasskeyLogin t u s)
  have "u \<in> set (admin_names st)"
    if "fetch_optional (\<lambda>r. ad_username r = u \<and> \<not> ad_disabled r) (admin_users (adm st)) = Some r" for r
    using fetch_optional_Some[OF that] by (auto simp: admin_names_def)
  then show ?thesis
    using ok by (auto simp: PasskeyLogin create_passkey_session_def new_session_def
        dest: admin_schema_insert[rotated] split: option.splits)
next
  case (StoreChallenge c u k j s)
  then show ?thesis
    using ok by (auto simp: store_webauthn_challenge_def Let_def admin_named_None admin_schema_ok_def admin_names_def)
next
  case (TakeChallenge c k s)
  then show ?thesis
    using ok by (auto simp: take_webauthn_challenge_def Let_def admin_schema_ok_def admin_names_def split: option.splits)
next
  case (AddPasskey u n c j)
  then show ?thesis
    using ok by (auto simp: add_admin_passkey_def Let_def admin_named_None admin_schema_ok_def admin_names_def)
next
  case (DeletePasskey u i)
  then show ?thesis
    using ok by (auto simp: delete_admin_passkey_def Let_def admin_schema_ok_def admin_names_def)
qed

section \<open>Password guessing\<close>

text \<open>Whether a login reaches the password check, and the checks of a history for one
  account: when, and whether the password was right.\<close>

definition checked_row :: "int \<Rightarrow> string \<Rightarrow> store \<Rightarrow> admin_row option" where
  "checked_row now u st = opt_filter (\<lambda>r. \<not> ad_disabled r \<and> \<not> is_some_and (\<lambda>until. until > now) (locked_until r))
     (admin_named u st)"

fun guess_of :: "crypto \<Rightarrow> string \<Rightarrow> int \<Rightarrow> auth_op \<Rightarrow> store \<Rightarrow> (int \<times> bool) list" where
  "guess_of K u now (Login token name password source) st =
     (if trim name = u then
        (case checked_row now u st of
           None \<Rightarrow> []
         | Some r \<Rightarrow> [(now, argon2_matches K password (ad_password_hash r))])
      else [])"
| "guess_of K u now _ st = []"

fun guesses :: "crypto \<Rightarrow> config_codec \<Rightarrow> string \<Rightarrow> (int \<times> auth_op) list \<Rightarrow> store \<Rightarrow> (int \<times> bool) list" where
  "guesses K J u [] st = []"
| "guesses K J u ((now, op) # ops) st = guess_of K u now op st @ guesses K J u ops (auth_step K J now op st)"

text \<open>The operations that by intention clear the counter or move the account.\<close>

fun undisturbed :: "string \<Rightarrow> auth_op \<Rightarrow> bool" where
  "undisturbed u (ResetInitial _ _ _) = False"
| "undisturbed u (ChangeUsername old _ new) = (old \<noteq> u \<and> new \<noteq> u)"
| "undisturbed u _ = True"

definition in_window :: "int \<Rightarrow> int \<Rightarrow> bool" where
  "in_window t0 t \<longleftrightarrow> t0 \<le> t \<and> t < t0 + ADMIN_LOGIN_LOCK_SECS"

definition guess_inv :: "int \<Rightarrow> int list \<Rightarrow> admin_row \<Rightarrow> bool" where
  "guess_inv clock hist r \<longleftrightarrow>
     (\<forall>t\<in>set hist. t \<le> clock) \<and>
     (\<forall>t0. length (filter (in_window t0) hist) \<le> 5) \<and>
     (case locked_until r of
        Some until \<Rightarrow> \<forall>t\<in>set hist. t \<le> until - ADMIN_LOGIN_LOCK_SECS
      | None \<Rightarrow> failed_login_count r < 5 \<and> (\<exists>l\<le>clock.
          (\<forall>t\<in>set hist. t \<le> l - ADMIN_LOGIN_LOCK_SECS \<or> l \<le> t) \<and>
          int (length (filter (\<lambda>t. l \<le> t) hist)) \<le> failed_login_count r))"

lemma filter_count_le:
  "(\<And>x. x \<in> set xs \<Longrightarrow> p x \<Longrightarrow> q x) \<Longrightarrow> length (filter p xs) \<le> length (filter q xs)"
  by (induction xs) auto

lemma window_count_snoc:
  assumes "\<And>t0. length (filter (in_window t0) hist) \<le> 5"
    and "\<And>t0. in_window t0 now \<Longrightarrow> length (filter (in_window t0) hist) \<le> 4"
  shows "length (filter (in_window t0) (hist @ [now])) \<le> 5"
  using assms(1)[of t0] assms(2)[of t0] by auto

lemma guess_inv_after_lock:
  assumes inv: "guess_inv clock hist r" and l: "locked_until r = Some until" and "until \<le> now" "clock \<le> now"
  shows "guess_inv now (hist @ [now]) (failed_password now r)"
proof -
  have old: "t \<le> until - ADMIN_LOGIN_LOCK_SECS" if "t \<in> set hist" for t
    using inv that by (simp add: guess_inv_def l)
  have "filter (in_window t0) hist = []" if "in_window t0 now" for t0
    using that old assms(3) by (fastforce simp: filter_empty_conv in_window_def)
  moreover have "filter (\<lambda>t. until \<le> t) hist = []"
    using old by (fastforce simp: filter_empty_conv ADMIN_LOGIN_LOCK_SECS_def)
  moreover have "failed_login_count (failed_password now r) = 1" "locked_until (failed_password now r) = None"
    by (simp_all add: failed_password_def l ADMIN_LOGIN_FAILURE_LIMIT_def)
  moreover have "\<forall>t\<in>set (hist @ [now]). t \<le> now"
    using inv assms(4) by (auto simp: guess_inv_def)
  ultimately show ?thesis
    using inv old assms(3) unfolding guess_inv_def
    by (auto intro!: window_count_snoc exI[of _ until])
qed

lemma guess_inv_counting:
  assumes inv: "guess_inv clock hist r" and l: "locked_until r = None" and "clock \<le> now"
  shows "guess_inv now (hist @ [now]) (failed_password now r)"
proof -
  obtain low where low: "low \<le> clock" "\<And>t. t \<in> set hist \<Longrightarrow> t \<le> low - ADMIN_LOGIN_LOCK_SECS \<or> low \<le> t"
      "int (length (filter (\<lambda>t. low \<le> t) hist)) \<le> failed_login_count r" "failed_login_count r < 5"
    using inv by (auto simp: guess_inv_def l)
  have past: "\<forall>t\<in>set (hist @ [now]). t \<le> now"
    using inv assms(3) by (auto simp: guess_inv_def)
  have "length (filter (in_window t0) hist) \<le> length (filter (\<lambda>t. low \<le> t) hist)" if "in_window t0 now" for t0
    using that low(1,2) assms(3) by (intro filter_count_le) (fastforce simp: in_window_def)
  then have "length (filter (in_window t0) hist) \<le> 4" if "in_window t0 now" for t0
    using that low(3,4) by fastforce
  then have win: "length (filter (in_window t0) (hist @ [now])) \<le> 5" for t0
    using inv by (intro window_count_snoc) (auto simp: guess_inv_def)
  show ?thesis
  proof (cases "failed_login_count r + 1 \<ge> 5")
    case True
    then have "locked_until (failed_password now r) = Some (now + ADMIN_LOGIN_LOCK_SECS)"
      by (simp add: failed_password_def l ADMIN_LOGIN_FAILURE_LIMIT_def)
    then show ?thesis using past win by (simp add: guess_inv_def)
  next
    case False
    then have "locked_until (failed_password now r) = None"
      "failed_login_count (failed_password now r) = failed_login_count r + 1"
      by (simp_all add: failed_password_def l ADMIN_LOGIN_FAILURE_LIMIT_def)
    then show ?thesis
      using False past win low assms(3) by (auto simp: guess_inv_def intro!: exI[of _ low])
  qed
qed

lemma guess_inv_mono:
  assumes inv: "guess_inv clock hist r" and "clock \<le> now"
  shows "guess_inv now hist r"
proof -
  have past: "\<forall>t\<in>set hist. t \<le> now"
    using inv assms(2) by (auto simp: guess_inv_def)
  show ?thesis
  proof (cases "locked_until r")
    case None
    then obtain l where "l \<le> clock" "\<forall>t\<in>set hist. t \<le> l - ADMIN_LOGIN_LOCK_SECS \<or> l \<le> t"
        "int (length (filter (\<lambda>t. l \<le> t) hist)) \<le> failed_login_count r"
      using inv by (auto simp: guess_inv_def)
    then show ?thesis
      using None past inv assms(2) by (simp add: guess_inv_def) (rule exI[of _ l], simp)
  qed (use past inv in \<open>simp add: guess_inv_def\<close>)
qed

lemma guess_inv_cong:
  "guess_inv now hist r \<Longrightarrow> failed_login_count r' = failed_login_count r \<Longrightarrow> locked_until r' = locked_until r
    \<Longrightarrow> guess_inv now hist r'"
  by (cases "locked_until r") (simp_all add: guess_inv_def)

text \<open>What the operations do to the row of one account.\<close>

lemma admin_named_update:
  assumes "\<And>r. ad_username r = v \<Longrightarrow> ad_username (f r) = v"
  shows "admin_named u (update_admin v f st) = (if u = v then map_option f (admin_named u st) else admin_named u st)"
proof -
  have "fetch_optional (\<lambda>r. ad_username r = u) (update_where (\<lambda>r. ad_username r = v) f rows) =
      (if u = v then map_option f (fetch_optional (\<lambda>r. ad_username r = u) rows)
       else fetch_optional (\<lambda>r. ad_username r = u) rows)" for rows
    using assms by (induction rows) (auto simp: update_where_def)
  then show ?thesis by (simp add: admin_named_def update_admin_def)
qed

lemma admin_named_users: "admin_users (adm st) = admin_users (adm st') \<Longrightarrow> admin_named u st = admin_named u st'"
  by (simp add: admin_named_def)

lemma admin_named_frame [simp]:
  "admin_named u (log_audit now v a d st) = admin_named u st"
  "admin_named u (write_security_audit now v a d st) = admin_named u st"
  "admin_named u (set_sessions rows st) = admin_named u st"
  "admin_named u (delete_sessions_of v st) = admin_named u st"
  by (simp_all add: admin_named_def set_sessions_def delete_sessions_of_def)

lemma admin_named_insert: "insert_admin_session row st = Some st' \<Longrightarrow> admin_named u st' = admin_named u st"
  by (auto simp: insert_admin_session_def split: if_splits)

text \<open>A failed check of \<open>u\<close> counts; everything else leaves its counter and lock alone.\<close>

lemma login_other:
  assumes "trim n \<noteq> u"
  shows "admin_named u (auth_step K J now (Login t n p s) st) = admin_named u st"
  using assms
  by (auto simp: login_with_context_def Let_def admin_named_update dest!: admin_named_insert admin_named_Some
      split: option.splits)

lemma login_unchecked:
  assumes "checked_row now u st = None" and "trim n = u"
  shows "admin_named u (auth_step K J now (Login t n p s) st) = admin_named u st"
  using assms
  by (auto simp: checked_row_def login_with_context_def Let_def split: option.splits if_splits)

lemma login_wrong:
  assumes "checked_row now u st = Some r" and "trim n = u" and "\<not> argon2_matches K p (ad_password_hash r)"
  shows "admin_named u (auth_step K J now (Login t n p s) st) = Some (failed_password now r)"
  using assms admin_named_Some[of u st r]
  by (auto simp: checked_row_def login_with_context_def Let_def admin_named_update split: option.splits if_splits)

definition same_counters :: "admin_row option \<Rightarrow> admin_row option \<Rightarrow> bool" where
  "same_counters x y \<longleftrightarrow> map_option (\<lambda>r. (failed_login_count r, locked_until r)) x =
     map_option (\<lambda>r. (failed_login_count r, locked_until r)) y"

lemma other_ops_keep_counters:
  assumes "undisturbed u op" and "\<And>t n p s. op \<noteq> Login t n p s"
  shows "same_counters (admin_named u (auth_step K J now op st)) (admin_named u st)"
proof (cases op)
  case (ChangePassword v c h)
  then show ?thesis
    by (auto simp: change_admin_password_def admin_named_update same_counters_def option.map_comp comp_def
        split: option.splits)
next
  case (ChangeUsername v c n)
  have ne: "v \<noteq> u" "n \<noteq> u" using assms(1) by (simp_all add: ChangeUsername)
  have "fetch_optional (\<lambda>r. ad_username r = u) (update_where (\<lambda>r. ad_username r = v)
        (\<lambda>r. r\<lparr>ad_username := n, ad_updated_at := now\<rparr>) rows) = fetch_optional (\<lambda>r. ad_username r = u) rows" for rows :: "admin_row list"
    using ne by (induction rows) (auto simp: update_where_def)
  then show ?thesis
    by (auto simp: ChangeUsername change_admin_username_def same_counters_def admin_named_def split: option.splits)
next
  case (Authenticate t)
  then show ?thesis by (auto simp: authenticate_session_def Let_def same_counters_def split: option.splits)
next
  case (PasskeyLogin t v s)
  then show ?thesis
    by (auto simp: create_passkey_session_def same_counters_def dest!: admin_named_insert[where u = u]
        split: option.splits)
qed (use assms in \<open>auto simp: same_counters_def logout_def revoke_admin_session_def store_webauthn_challenge_def
      take_webauthn_challenge_def add_admin_passkey_def delete_admin_passkey_def Let_def
      intro!: arg_cong[of _ _ "map_option _"] admin_named_users split: option.splits\<close>)

lemma guess_step:
  assumes row: "admin_named u st = Some r" and inv: "guess_inv clock hist r" and le: "clock \<le> now"
    and und: "undisturbed u op" and wrong: "\<forall>g\<in>set (guess_of K u now op st). \<not> snd g"
  shows "\<exists>r'. admin_named u (auth_step K J now op st) = Some r' \<and>
    guess_inv now (hist @ map fst (guess_of K u now op st)) r'"
proof (cases "\<exists>t n p s. op = Login t n p s \<and> trim n = u")
  case True
  then obtain t n p s where op: "op = Login t n p s" "trim n = u" by blast
  show ?thesis
  proof (cases "checked_row now u st")
    case None
    then show ?thesis
      using login_unchecked[OF None op(2)] row guess_inv_mono[OF inv le] by (simp add: op)
  next
    case (Some x)
    then have x: "x = r" "\<not> is_some_and (\<lambda>until. until > now) (locked_until r)"
      using row by (auto simp: checked_row_def split: if_splits)
    have "guess_inv now (hist @ [now]) (failed_password now r)"
    proof (cases "locked_until r")
      case None
      with inv le show ?thesis by (intro guess_inv_counting)
    next
      case (Some until)
      with inv le x show ?thesis by (intro guess_inv_after_lock[of clock _ _ until]) auto
    qed
    then show ?thesis
      using login_wrong[OF Some op(2)] wrong Some x(1) by (simp add: op)
  qed
next
  case False
  then have none: "guess_of K u now op st = []"
    by (cases op) auto
  have "same_counters (admin_named u (auth_step K J now op st)) (admin_named u st)"
  proof (cases "\<exists>t n p s. op = Login t n p s")
    case True
    then obtain t n p s where op: "op = Login t n p s" by blast
    with False have "trim n \<noteq> u" by blast
    then show ?thesis unfolding op same_counters_def by (subst login_other) simp_all
  next
    case no_login: False
    then show ?thesis using und by (intro other_ops_keep_counters) auto
  qed
  then obtain r' where "admin_named u (auth_step K J now op st) = Some r'"
      "failed_login_count r' = failed_login_count r" "locked_until r' = locked_until r"
    using row by (auto simp: same_counters_def)
  then show ?thesis
    using guess_inv_cong[OF guess_inv_mono[OF inv le]] by (simp add: none)
qed

lemma guess_run:
  assumes "admin_named u st = Some r" and "guess_inv clock hist r" and "sorted (clock # map fst ops)"
    and "\<forall>p\<in>set ops. undisturbed u (snd p)" and "\<forall>g\<in>set (guesses K J u ops st). \<not> snd g"
  shows "length (filter (in_window t0) (hist @ map fst (guesses K J u ops st))) \<le> 5"
  using assms
proof (induction ops arbitrary: st r clock hist)
  case Nil
  then show ?case by (simp add: guess_inv_def)
next
  case (Cons p ops)
  obtain now op where p: "p = (now, op)" by (cases p)
  obtain r' where r': "admin_named u (auth_step K J now op st) = Some r'"
      "guess_inv now (hist @ map fst (guess_of K u now op st)) r'"
    using guess_step[OF Cons.prems(1,2), of now op K J] Cons.prems(3-5) by (auto simp: p)
  have "length (filter (in_window t0) ((hist @ map fst (guess_of K u now op st))
      @ map fst (guesses K J u ops (auth_step K J now op st)))) \<le> 5"
    using Cons.prems(3-5) by (intro Cons.IH[OF r']) (auto simp: p)
  then show ?case by (simp add: p)
qed

section \<open>Properties\<close>

lemma authenticate_unfold:
  "fst (authenticate_session K now token st) = Some i \<longleftrightarrow>
    (\<exists>s u. fetch_optional (\<lambda>s. as_token_hash s = hash_token K token \<and> as_expires_at s > now)
         (admin_sessions (adm st)) = Some s
       \<and> fetch_optional (\<lambda>u. ad_username u = as_username s \<and> \<not> ad_disabled u) (admin_users (adm st)) = Some u
       \<and> i = \<lparr>ai_username = ad_username u, ai_role = ad_role u\<rparr>)"
proof -
  have "fetch_optional (\<lambda>s. as_token_hash s = hash_token K token \<and> as_expires_at s > now)
      (delete_where (\<lambda>s. as_expires_at s \<le> now) (admin_sessions (adm st))) =
    fetch_optional (\<lambda>s. as_token_hash s = hash_token K token \<and> as_expires_at s > now) (admin_sessions (adm st))"
    by (rule fetch_delete_where) auto
  then show ?thesis
    by (auto simp: authenticate_session_def Let_def set_sessions_def bind_eq_Some_conv split: option.splits)
qed

lemma authenticate_iff_session:
  assumes ok: "admin_schema_ok st"
  shows "fst (authenticate_session K now token st) = Some i \<longleftrightarrow>
    (\<exists>e u. (hash_token K token, ai_username i, e) \<in> auth_sessions st \<and> e > now \<and> u \<in> set (admin_users (adm st))
       \<and> \<not> ad_disabled u \<and> i = \<lparr>ai_username = ad_username u, ai_role = ad_role u\<rparr>)"
    (is "?l \<longleftrightarrow> ?r")
proof
  assume ?l
  then show ?r
    unfolding authenticate_unfold auth_sessions_def by (force dest!: fetch_optional_Some)
next
  assume ?r
  then obtain s u where s: "s \<in> set (admin_sessions (adm st))" "as_token_hash s = hash_token K token"
      "as_username s = ai_username i" "as_expires_at s > now"
      and u: "u \<in> set (admin_users (adm st))" "\<not> ad_disabled u" "i = \<lparr>ai_username = ad_username u, ai_role = ad_role u\<rparr>"
    by (auto simp: auth_sessions_def) metis
  have "fetch_optional (\<lambda>s. as_token_hash s = hash_token K token \<and> as_expires_at s > now)
      (admin_sessions (adm st)) = Some s"
    using ok s by (intro unique_row[of as_token_hash]) (auto simp: admin_schema_ok_def)
  moreover have "fetch_optional (\<lambda>u. ad_username u = as_username s \<and> \<not> ad_disabled u) (admin_users (adm st)) = Some u"
    using ok s u by (intro unique_row[of ad_username]) (auto simp: admin_schema_ok_def admin_names_def)
  ultimately show ?l unfolding authenticate_unfold using u(3) by blast
qed

text \<open>C15: Administrator sessions refine a ledger that forgets nothing.  Take any history of
  logins, passkey logins, logouts, password and username changes, revocations, resets and
  requests, at times that do not go backwards.  Afterwards a token authenticates exactly
  when a successful login granted it, it is younger than its lifetime, nothing has revoked
  it since, and its account is enabled; the identity is that of the account as it is now.
  The unique columns and foreign keys of the tables hold throughout.\<close>

theorem admin_sessions_refine_ledger:
  assumes "admin_schema_ok st0" and "admin_sessions (adm st0) = []"
    and "sorted (map fst ops)" and "\<forall>t\<in>set (map fst ops). t \<le> now"
    and "st = run_ops (auth_step K J) ops st0"
  shows "(fst (authenticate_session K now token st) = Some i \<longleftrightarrow>
      (\<exists>e u. (hash_token K token, ai_username i, e) \<in> granted (auth_effect K J) (auth_step K J) ops st0 {}
         \<and> e > now \<and> u \<in> set (admin_users (adm st)) \<and> \<not> ad_disabled u
         \<and> i = \<lparr>ai_username = ad_username u, ai_role = ad_role u\<rparr>))
    \<and> admin_schema_ok st"
proof -
  have ok: "admin_schema_ok st"
    unfolding assms(5) using admin_schema_step assms(1) by (rule run_ops_invariant)
  have "(h, u, e) \<in> granted (auth_effect K J) (auth_step K J) ops st0 {} \<longleftrightarrow> (h, u, e) \<in> auth_sessions st"
    if "e > now" for h u e
    unfolding assms(5) using assms(2-4) that by (intro admin_sessions.live_sessions) (auto simp: auth_sessions_def)
  then show ?thesis
    using ok by (fastforce simp: authenticate_iff_session[OF ok])
qed

definition toy_codec :: config_codec where
  "toy_codec = \<lparr>cfg_decode = (\<lambda>_. None), cfg_encode = (\<lambda>_. None)\<rparr>"

definition sample_admin :: admin_row where
  "sample_admin = \<lparr>ad_id = 1, ad_username = ''admin'', ad_password_hash = ''asecret'', ad_role = ''super_admin'',
     ad_disabled = False, failed_login_count = 0, locked_until = None, user_handle = ''u1'', ad_updated_at = 0\<rparr>"

definition sample_store :: store where
  "sample_store = empty_store\<lparr>adm := (adm empty_store)\<lparr>admin_users := [sample_admin], admin_users_seq := 1\<rparr>\<rparr>"

definition sample_session_history :: "(int \<times> auth_op) list" where
  "sample_session_history = [(10, Login ''t1'' ''admin'' ''secret'' ''x''), (20, Login ''t2'' '' admin '' ''secret'' ''x''),
     (25, Login ''t3'' ''admin'' ''guess'' ''x''), (30, Logout ''t1'')]"

lemma sample_schema: "admin_schema_ok sample_store" "admin_sessions (adm sample_store) = []"
  by (simp_all add: admin_schema_ok_def sample_store_def empty_store_def admin_names_def)

lemma sample_grants:
  "granted (auth_effect toy_crypto toy_codec) (auth_step toy_crypto toy_codec) sample_session_history sample_store {}
     = {(''ht2'', ''admin'', 86420)}"
  by code_simp

theorem admin_sessions_refine_ledger_witness:
  "fst (authenticate_session toy_crypto 40 ''t2''
       (run_ops (auth_step toy_crypto toy_codec) sample_session_history sample_store))
     = Some \<lparr>ai_username = ''admin'', ai_role = ''super_admin''\<rparr>
   \<and> fst (authenticate_session toy_crypto 40 ''t1''
       (run_ops (auth_step toy_crypto toy_codec) sample_session_history sample_store)) = None"
proof -
  let ?st = "run_ops (auth_step toy_crypto toy_codec) sample_session_history sample_store"
  have s: "sorted (map fst sample_session_history)" "\<forall>t\<in>set (map fst sample_session_history). t \<le> 40"
    by (simp_all add: sample_session_history_def)
  note r = admin_sessions_refine_ledger[where K = toy_crypto and J = toy_codec,
      OF sample_schema s refl, THEN conjunct1, unfolded sample_grants]
  have u: "admin_users (adm ?st) = [sample_admin\<lparr>failed_login_count := 1, ad_updated_at := 25\<rparr>]" by code_simp
  have h: "hash_token toy_crypto ''t2'' = ''ht2''" "hash_token toy_crypto ''t1'' = ''ht1''"
    by (simp_all add: toy_crypto_def)
  have "fst (authenticate_session toy_crypto 40 ''t2'' ?st)
      = Some \<lparr>ai_username = ''admin'', ai_role = ''super_admin''\<rparr>"
    unfolding r u h by (simp add: sample_admin_def)
  moreover have "fst (authenticate_session toy_crypto 40 ''t1'' ?st) \<noteq> Some i" for i
    unfolding r u h by simp
  ultimately show ?thesis by auto
qed


definition sample_guesses :: "(int \<times> auth_op) list" where
  "sample_guesses = map (\<lambda>t. (t, Login ''t'' ''admin'' ''guess'' ''x'')) [0, 1, 2, 3, 4, 5, 6, 904, 905]"



text \<open>When passkeys are required, a password alone opens no session.  For every account
  but the break-glass one the login handler answers with no session, by cookie or by token,
  whatever the password, and leaves no session behind that was not there before.\<close>

theorem passkey_policy_enforced:
  assumes "wc_require_passkey (cfg_webauthn c)" and "trim name \<noteq> wc_break_glass_username (cfg_webauthn c)"
    and "admin_login_response K c at now token name password source cookie_session (lim, st) = (reply, lim', st')"
  shows "(\<forall>s. reply \<noteq> SessionCookies s) \<and> (\<forall>t e. reply \<noteq> SessionToken t e)
    \<and> auth_sessions st' \<subseteq> auth_sessions st"
proof -
  have out: "auth_sessions (logout K token x) = {(h, u, e) \<in> auth_sessions x. h \<noteq> hash_token K token}" for x
    by (auto simp: logout_def auth_session_defs)
  show ?thesis
    using assms
    by (auto simp: admin_login_response_def login_with_context_def Let_def new_session_def out
        dest!: auth_sessions_insert split: prod.splits option.splits if_splits)
qed

definition strict_config :: config where
  "strict_config = small_config\<lparr>cfg_webauthn := WebauthnConfig_default\<lparr>wc_require_passkey := True,
     wc_break_glass_username := ''rescue''\<rparr>\<rparr>"

end
