(* ===== verification/Mail_Tokens.thy ===== *)
theory Mail_Tokens
  imports Account_Db
begin

text \<open>
  Invitations, one-time sign-in codes, mail limits and the outbox of
  \<open>crates/server/src/database.rs\<close>.  A sign-in mail carries a link token and a short code; either
  can be exchanged once, and five wrong codes spoil both.  Sealing of mail bodies is a
  library call: its result is an argument.
\<close>

section \<open>Invitations\<close>

record email_invitation_view =
  ev_id :: int
  ev_email :: string
  ev_display_name :: string
  ev_status :: string
  ev_expires_at :: int
  ev_created_at :: int

definition set_invitations :: "invitation_row list \<Rightarrow> store \<Rightarrow> store" where
  "set_invitations rows st = st\<lparr>mail := (mail st)\<lparr>email_invitations := rows\<rparr>\<rparr>"

definition create_email_invitation ::
  "crypto \<Rightarrow> int \<Rightarrow> string \<Rightarrow> string \<Rightarrow> string \<Rightarrow> string \<Rightarrow> int \<Rightarrow> store \<Rightarrow> int account_result" where
  "create_email_invitation K now actor email display_name token expires_at st =
     (if \<exists>v\<in>set (email_invitations (mail st)). in_token_hash v = hash_token K token then (Inl ConstraintFailed, st)
      else
        (let ident = email_invitations_seq (mail st) + 1;
             row = \<lparr>in_id = ident, in_email = normalize_email email, in_display_name = display_name,
                    in_token_hash = hash_token K token, in_status = ''pending'', in_expires_at = expires_at,
                    in_created_at = now, in_accepted_at = None, in_revoked_at = None\<rparr>
         in (Inr ident, log_audit now actor ''email_invitation_created'' (''invitation_id='' @ dec_of_int ident)
               (st\<lparr>mail := (mail st)\<lparr>email_invitations := email_invitations (mail st) @ [row],
                  email_invitations_seq := ident\<rparr>\<rparr>))))"

definition invitation_view :: "invitation_row \<Rightarrow> email_invitation_view" where
  "invitation_view v = \<lparr>ev_id = in_id v, ev_email = in_email v, ev_display_name = in_display_name v,
     ev_status = in_status v, ev_expires_at = in_expires_at v, ev_created_at = in_created_at v\<rparr>"

definition list_email_invitations :: "int \<Rightarrow> store \<Rightarrow> email_invitation_view list" where
  "list_email_invitations now st =
     map invitation_view (take 10 (rev (filter (\<lambda>v. in_created_at v \<ge> now - 3 * 24 * 60 * 60)
       (email_invitations (mail st)))))"

definition email_invitation :: "int \<Rightarrow> store \<Rightarrow> email_invitation_view option" where
  "email_invitation ident st =
     map_option invitation_view (fetch_optional (\<lambda>v. in_id v = ident) (email_invitations (mail st)))"

definition revoke_email_invitation :: "int \<Rightarrow> string \<Rightarrow> int \<Rightarrow> store \<Rightarrow> bool \<times> store" where
  "revoke_email_invitation now actor ident st =
     (let p = (\<lambda>v. in_id v = ident \<and> in_status v = ''pending'');
          st1 = set_invitations (update_where p (\<lambda>v. v\<lparr>in_status := ''revoked'', in_revoked_at := Some now\<rparr>)
                  (email_invitations (mail st))) st
      in if affected p (email_invitations (mail st)) = 1
         then (True, write_security_audit now actor ''email_invitation_revoked''
                       (''invitation_id='' @ dec_of_int ident) st1)
         else (False, st1))"

definition renew_email_invitation ::
  "crypto \<Rightarrow> int \<Rightarrow> string \<Rightarrow> int \<Rightarrow> string \<Rightarrow> int \<Rightarrow> store \<Rightarrow> email_invitation_view option account_result" where
  "renew_email_invitation K now actor ident token expires_at st =
     (let p = (\<lambda>v. in_id v = ident \<and> in_status v = ''pending'');
          rows = email_invitations (mail st)
      in if affected p rows = 0 then (Inr None, st)
         else if \<exists>v\<in>set rows. in_id v \<noteq> ident \<and> in_token_hash v = hash_token K token then (Inl ConstraintFailed, st)
         else
           (let st1 = write_security_audit now actor ''email_invitation_resent'' (''invitation_id='' @ dec_of_int ident)
                  (set_invitations (update_where p
                     (\<lambda>v. v\<lparr>in_token_hash := hash_token K token, in_expires_at := expires_at\<rparr>) rows) st)
            in (Inr (email_invitation ident st1), st1)))"

definition valid_invitation :: "crypto \<Rightarrow> int \<Rightarrow> string \<Rightarrow> string \<Rightarrow> store \<Rightarrow> int option" where
  "valid_invitation K now email token st =
     map_option in_id (fetch_optional (\<lambda>v. in_email v = normalize_email email \<and> in_token_hash v = hash_token K token
        \<and> in_status v = ''pending'' \<and> in_expires_at v > now) (email_invitations (mail st)))"

definition accept_email_invitation :: "int \<Rightarrow> int \<Rightarrow> store \<Rightarrow> store" where
  "accept_email_invitation now ident st =
     set_invitations (update_where (\<lambda>v. in_id v = ident \<and> in_status v = ''pending'')
       (\<lambda>v. v\<lparr>in_status := ''accepted'', in_accepted_at := Some now\<rparr>) (email_invitations (mail st))) st"

section \<open>One-time codes\<close>

definition set_login_tokens :: "login_token_row list \<Rightarrow> store \<Rightarrow> store" where
  "set_login_tokens rows st = st\<lparr>mail := (mail st)\<lparr>email_login_tokens := rows\<rparr>\<rparr>"

definition unused_for :: "string \<Rightarrow> login_token_row \<Rightarrow> bool" where
  "unused_for email r \<longleftrightarrow> lt_email r = email \<and> lt_used_at r = None"

text \<open>Two statements, not one transaction: when the insert fails, earlier codes stay used.\<close>

definition store_email_login_token ::
  "crypto \<Rightarrow> int \<Rightarrow> string \<Rightarrow> string \<Rightarrow> string \<Rightarrow> int option \<Rightarrow> int \<Rightarrow> store \<Rightarrow> unit account_result" where
  "store_email_login_token K now email token code invitation_id expires_at st =
     (let e = normalize_email email;
          rows = update_where (unused_for e) (\<lambda>r. r\<lparr>lt_used_at := Some now\<rparr>) (email_login_tokens (mail st));
          st1 = set_login_tokens rows st;
          ident = email_login_tokens_seq (mail st) + 1;
          row = \<lparr>lt_id = ident, lt_email = e, lt_token_hash = hash_token K token, lt_code_hash = hash_token K code,
                 lt_attempts = 0, lt_invitation_id = invitation_id, lt_expires_at = expires_at, lt_used_at = None\<rparr>;
          fk_ok = (case invitation_id of None \<Rightarrow> True
                   | Some i \<Rightarrow> (\<exists>v\<in>set (email_invitations (mail st)). in_id v = i))
      in if \<not> fk_ok \<or> (\<exists>r\<in>set rows. lt_token_hash r = hash_token K token) then (Inl ConstraintFailed, st1)
         else (Inr (), st1\<lparr>mail := (mail st1)\<lparr>email_login_tokens := rows @ [row], email_login_tokens_seq := ident\<rparr>\<rparr>))"

definition credential_hash :: "bool \<Rightarrow> login_token_row \<Rightarrow> string" where
  "credential_hash is_code r = (if is_code then lt_code_hash r else lt_token_hash r)"

definition exchangeable :: "crypto \<Rightarrow> int \<Rightarrow> string \<Rightarrow> string \<Rightarrow> bool \<Rightarrow> login_token_row \<Rightarrow> bool" where
  "exchangeable K now email credential is_code r \<longleftrightarrow>
     unused_for email r \<and> credential_hash is_code r = hash_token K credential \<and> lt_expires_at r > now \<and> lt_attempts r < 5"

text \<open>\<open>ORDER BY id DESC LIMIT 1\<close> is the last row: ids grow with insertion.\<close>

definition latest :: "('r \<Rightarrow> bool) \<Rightarrow> 'r list \<Rightarrow> 'r option" where
  "latest p rows = fetch_optional p (rev rows)"

definition consume_email_login_token ::
  "crypto \<Rightarrow> int \<Rightarrow> string \<Rightarrow> string \<Rightarrow> bool \<Rightarrow> store \<Rightarrow> int option option \<times> store" where
  "consume_email_login_token K now email credential is_code st =
     (let e = normalize_email email; rows = email_login_tokens (mail st) in
      case latest (exchangeable K now e credential is_code) rows of
        None \<Rightarrow>
          (None,
           if is_code
           then (case latest (unused_for e) rows of
                   None \<Rightarrow> st
                 | Some l \<Rightarrow> set_login_tokens (update_where (\<lambda>r. lt_id r = lt_id l)
                      (\<lambda>r. r\<lparr>lt_attempts := lt_attempts r + 1\<rparr>) rows) st)
           else st)
      | Some r \<Rightarrow>
          (let p = (\<lambda>x. lt_id x = lt_id r \<and> lt_used_at x = None)
           in (if affected p rows = 1 then Some (lt_invitation_id r) else None,
               set_login_tokens (update_where p (\<lambda>x. x\<lparr>lt_used_at := Some now\<rparr>) rows) st)))"

section \<open>Mail limits\<close>

definition email_limit_keys :: "string \<Rightarrow> string \<Rightarrow> (string \<times> int) list" where
  "email_limit_keys email source =
     [(''email:'' @ normalize_email email, 3), (''source:'' @ source, 10), (''instance'', 50)]"

definition email_window_secs :: int where
  "email_window_secs = 10 * 60"

definition count_email :: "int \<Rightarrow> string \<Rightarrow> (string \<rightharpoonup> email_limit_row) \<Rightarrow> (string \<rightharpoonup> email_limit_row)" where
  "count_email now key t = t(key \<mapsto> (case t key of
       None \<Rightarrow> \<lparr>window_start = now, el_request_count = 1\<rparr>
     | Some r \<Rightarrow>
         if window_start r + email_window_secs \<le> now then \<lparr>window_start = now, el_request_count = 1\<rparr>
         else r\<lparr>el_request_count := el_request_count r + 1\<rparr>))"

definition allow_email_send :: "int \<Rightarrow> string \<Rightarrow> string \<Rightarrow> store \<Rightarrow> bool \<times> store" where
  "allow_email_send now email source st =
     (let limits = email_rate_limits (mail st); keys = email_limit_keys email source in
      if list_ex (\<lambda>(key, limit). is_some_and (\<lambda>r. now < window_start r + email_window_secs
            \<and> el_request_count r \<ge> limit) (limits key)) keys
      then (False, st)
      else (True, st\<lparr>mail := (mail st)\<lparr>email_rate_limits := fold (\<lambda>(key, _). count_email now key) keys limits\<rparr>\<rparr>))"

section \<open>The outbox\<close>

definition enqueue_email ::
  "int \<Rightarrow> string \<Rightarrow> string \<Rightarrow> string option \<Rightarrow> string option option \<Rightarrow> store \<Rightarrow> int account_result" where
  "enqueue_email now recipient subject sealed_body sealed_html st =
     (case (sealed_body, sealed_html) of
        (Some body, Some html) \<Rightarrow>
          (let ident = email_outbox_seq (mail st) + 1;
               row = \<lparr>ob_id = ident, ob_recipient = normalize_email recipient, ob_subject = subject, ob_body = body,
                      ob_html_body = html, ob_status = ''pending'', ob_attempts = 0, ob_next_attempt_at = now,
                      ob_last_error = None, ob_sent_at = None\<rparr>
           in (Inr ident, st\<lparr>mail := (mail st)\<lparr>email_outbox := email_outbox (mail st) @ [row],
                 email_outbox_seq := ident\<rparr>\<rparr>))
      | _ \<Rightarrow> (Inl HashFailed, st))"

definition pending_outbox :: "int \<Rightarrow> nat \<Rightarrow> store \<Rightarrow> outbox_row list" where
  "pending_outbox now limit st =
     take limit (filter (\<lambda>r. ob_status r = ''pending'' \<and> ob_next_attempt_at r \<le> now) (email_outbox (mail st)))"

definition update_outbox :: "int \<Rightarrow> (outbox_row \<Rightarrow> outbox_row) \<Rightarrow> store \<Rightarrow> store" where
  "update_outbox ident f st = st\<lparr>mail := (mail st)\<lparr>email_outbox :=
     update_where (\<lambda>r. ob_id r = ident) f (email_outbox (mail st))\<rparr>\<rparr>"

definition mark_outbox_sent :: "int \<Rightarrow> int \<Rightarrow> store \<Rightarrow> store" where
  "mark_outbox_sent now ident st = update_outbox ident (\<lambda>r. r\<lparr>ob_status := ''sent'', ob_sent_at := Some now\<rparr>) st"

definition mark_outbox_failed :: "int \<Rightarrow> int \<Rightarrow> nat \<Rightarrow> string \<Rightarrow> store \<Rightarrow> store" where
  "mark_outbox_failed now ident attempts error st =
     (let terminal = attempts \<ge> 5; delay = 30 * 2 ^ min attempts 6 in
      update_outbox ident (\<lambda>r. r\<lparr>ob_status := (if terminal then ''failed'' else ''pending''),
        ob_attempts := int attempts, ob_next_attempt_at := now + delay, ob_last_error := Some (take 200 error)\<rparr>) st)"

section \<open>Exchange as a one-shot credential\<close>

text \<open>The rows of the table: ids are unique, and at most one code per address is unused.\<close>

definition tokens_ok :: "store \<Rightarrow> bool" where
  "tokens_ok st \<longleftrightarrow> distinct (map lt_id (email_login_tokens (mail st)))
     \<and> (\<forall>r\<in>set (email_login_tokens (mail st)). lt_id r \<le> email_login_tokens_seq (mail st))
     \<and> distinct (map lt_email (filter (\<lambda>r. lt_used_at r = None) (email_login_tokens (mail st))))"

definition pending_code :: "string \<Rightarrow> store \<Rightarrow> login_token_row option" where
  "pending_code email st = fetch_optional (unused_for email) (email_login_tokens (mail st))"

text \<open>What an exchange does to the pending code of its address.\<close>

definition exchange :: "crypto \<Rightarrow> int \<Rightarrow> string \<Rightarrow> bool \<Rightarrow> login_token_row option \<Rightarrow> int option option \<times> login_token_row option" where
  "exchange K now credential is_code c = (case c of
       None \<Rightarrow> (None, None)
     | Some r \<Rightarrow>
         if credential_hash is_code r = hash_token K credential \<and> lt_expires_at r > now \<and> lt_attempts r < 5
         then (Some (lt_invitation_id r), None)
         else (None, Some (if is_code then r\<lparr>lt_attempts := lt_attempts r + 1\<rparr> else r)))"

abbreviation unused :: "login_token_row \<Rightarrow> bool" where
  "unused r \<equiv> lt_used_at r = None"

lemma unused_unique:
  assumes "distinct (map lt_email (filter unused rows))" and "r \<in> set rows" "x \<in> set rows"
    and "unused_for e r" "unused_for e x"
  shows "r = x"
  using assms by (auto simp: distinct_map inj_on_def unused_for_def)

lemma pending_code_iff:
  assumes "tokens_ok st"
  shows "pending_code e st = Some r \<longleftrightarrow> r \<in> set (email_login_tokens (mail st)) \<and> unused_for e r"
proof
  assume "r \<in> set (email_login_tokens (mail st)) \<and> unused_for e r"
  moreover from this obtain x where x: "pending_code e st = Some x"
    by (cases "pending_code e st") (auto simp: pending_code_def fetch_optional_None)
  ultimately show "pending_code e st = Some r"
    using fetch_optional_Some[OF x[unfolded pending_code_def]] assms
    by (auto simp: tokens_ok_def x dest: unused_unique[of _ r x e])
qed (auto simp: pending_code_def dest: fetch_optional_Some)

lemma latest_pending:
  assumes ok: "tokens_ok st" and q: "\<And>r. q r \<longleftrightarrow> unused_for e r \<and> p r"
  shows "latest q (email_login_tokens (mail st)) = opt_filter p (pending_code e st)"
proof (cases "latest q (email_login_tokens (mail st))")
  case None
  then show ?thesis
    using pending_code_iff[OF ok, of e] q
    by (cases "pending_code e st") (auto simp: latest_def fetch_optional_None)
next
  case (Some r)
  then have "r \<in> set (email_login_tokens (mail st))" "q r"
    by (auto simp: latest_def dest: fetch_optional_Some)
  then have "pending_code e st = Some r" "p r" using pending_code_iff[OF ok] q by auto
  with Some show ?thesis by simp
qed

lemma distinct_unused_update:
  assumes "\<And>r. lt_email (f r) = lt_email r" and "\<And>r. unused (f r) \<Longrightarrow> unused r"
    and "distinct (map lt_email (filter unused rows))"
  shows "distinct (map lt_email (filter unused (update_where p f rows)))"
proof -
  define g where "g = (\<lambda>r. if p r then f r else r)"
  have "lt_email \<circ> g = lt_email" using assms(1) by (auto simp: g_def)
  moreover have "filter (\<lambda>r. unused (g r)) rows = filter (\<lambda>r. unused (g r)) (filter unused rows)"
    using assms(2) by (auto simp: g_def intro!: filter_cong split: if_splits)
  ultimately have "map lt_email (filter unused (map g rows)) =
      map lt_email (filter (\<lambda>r. unused (g r)) (filter unused rows))"
    unfolding filter_map map_map comp_def by simp
  then show ?thesis
    using distinct_map_filter[OF assms(3)] by (simp only: update_where_def g_def)
qed

lemma tokens_ok_update:
  assumes "tokens_ok st" and "\<And>r. lt_id (f r) = lt_id r" and "\<And>r. lt_email (f r) = lt_email r"
    and "\<And>r. unused (f r) \<Longrightarrow> unused r"
  shows "tokens_ok (set_login_tokens (update_where p f (email_login_tokens (mail st))) st)"
  using assms distinct_unused_update[of f "email_login_tokens (mail st)" p]
  by (auto simp: tokens_ok_def set_login_tokens_def map_update_where set_update_where)

text \<open>Changing the one row with the id of \<open>r\<close>.\<close>

lemma pending_after_update:
  assumes ok: "tokens_ok st" and r: "pending_code e st = Some r"
    and f: "\<And>x. lt_id (f x) = lt_id x" "\<And>x. lt_email (f x) = lt_email x" "\<And>x. unused (f x) \<Longrightarrow> unused x"
    and p: "\<And>x. x \<in> set (email_login_tokens (mail st)) \<Longrightarrow> p x \<longleftrightarrow> x = r"
  shows "pending_code e' (set_login_tokens (update_where p f (email_login_tokens (mail st))) st) =
    (if e' = e then opt_filter unused (Some (f r)) else pending_code e' st)"
    (is "pending_code e' ?st' = ?rhs")
proof -
  have ok': "tokens_ok ?st'" using ok f by (rule tokens_ok_update)
  have r': "r \<in> set (email_login_tokens (mail st))" "lt_email r = e" "unused r"
    using pending_code_iff[OF ok] r by (auto simp: unused_for_def)
  have rows: "email_login_tokens (mail ?st') = update_where p f (email_login_tokens (mail st))"
    by (simp add: set_login_tokens_def)
  have mem: "x \<in> set (email_login_tokens (mail ?st')) \<longleftrightarrow>
      (\<exists>y\<in>set (email_login_tokens (mail st)). x = (if y = r then f r else y))" for x
    unfolding rows set_update_where using p by (auto simp: image_iff)
  have uniq: "y = r" if "y \<in> set (email_login_tokens (mail st))" "lt_email y = e" "unused y" for y
    using pending_code_iff[OF ok, of e y] that r by (simp add: unused_for_def)
  have "pending_code e' ?st' = Some x \<longleftrightarrow> ?rhs = Some x" for x
  proof (cases "e' = e")
    case True
    have "x \<in> set (email_login_tokens (mail ?st')) \<and> unused_for e x \<longleftrightarrow> x = f r \<and> unused x"
    proof
      assume "x \<in> set (email_login_tokens (mail ?st')) \<and> unused_for e x"
      then obtain y where "y \<in> set (email_login_tokens (mail st))" "x = (if y = r then f r else y)" "unused_for e x"
        unfolding mem by blast
      then show "x = f r \<and> unused x" using uniq[of y] by (simp add: unused_for_def split: if_splits)
    qed (use mem r' f(2)[of r] in \<open>auto simp: unused_for_def\<close>)
    then show ?thesis unfolding pending_code_iff[OF ok'] using True by auto
  next
    case False
    have "x \<in> set (email_login_tokens (mail ?st')) \<and> unused_for e' x \<longleftrightarrow>
        x \<in> set (email_login_tokens (mail st)) \<and> unused_for e' x"
      unfolding mem using r' f(2)[of r] False by (auto simp: unused_for_def split: if_splits)
    then show ?thesis
      unfolding pending_code_iff[OF ok'] using False pending_code_iff[OF ok, of e'] by simp
  qed
  then show ?thesis by (metis not_None_eq)
qed

lemma consume_refines_exchange:
  assumes ok: "tokens_ok st"
    and c: "consume_email_login_token K now email credential is_code st = (result, st')"
  shows "tokens_ok st' \<and> exchange K now credential is_code (pending_code (normalize_email email) st)
      = (result, pending_code (normalize_email email) st')
    \<and> (\<forall>e. e \<noteq> normalize_email email \<longrightarrow> pending_code e st' = pending_code e st)"
proof -
  define e where "e = normalize_email email"
  have ex: "latest (exchangeable K now e credential is_code) (email_login_tokens (mail st)) =
      opt_filter (\<lambda>r. credential_hash is_code r = hash_token K credential \<and> lt_expires_at r > now \<and> lt_attempts r < 5)
        (pending_code e st)"
    by (rule latest_pending[OF ok]) (simp add: exchangeable_def)
  have un: "latest (unused_for e) (email_login_tokens (mail st)) = pending_code e st"
    using latest_pending[OF ok, of "unused_for e" e "\<lambda>_. True"] by (cases "pending_code e st") simp_all
  show ?thesis
  proof (cases "pending_code e st")
    case None
    then show ?thesis
      using c ok ex un by (auto simp: consume_email_login_token_def Let_def exchange_def e_def[symmetric])
  next
    case (Some r)
    have same: "x = r" if "x \<in> set (email_login_tokens (mail st))" "lt_id x = lt_id r" for x
      using that ok pending_code_iff[OF ok, of e r] Some by (auto simp: tokens_ok_def distinct_map inj_on_def)
    have r: "r \<in> set (email_login_tokens (mail st))" "unused r"
      using Some pending_code_iff[OF ok] by (auto simp: unused_for_def)
    show ?thesis
    proof (cases "credential_hash is_code r = hash_token K credential \<and> lt_expires_at r > now \<and> lt_attempts r < 5")
      case True
      let ?p = "\<lambda>x. lt_id x = lt_id r \<and> lt_used_at x = None"
      have one: "affected ?p (email_login_tokens (mail st)) = 1"
        using ok r by (intro affected_one) (auto simp: tokens_ok_def)
      have st': "result = Some (lt_invitation_id r)"
        "st' = set_login_tokens (update_where ?p (\<lambda>x. x\<lparr>lt_used_at := Some now\<rparr>) (email_login_tokens (mail st))) st"
        using c ex True Some one by (simp_all add: consume_email_login_token_def Let_def e_def[symmetric])
      have "tokens_ok st'" unfolding st'(2) using ok by (rule tokens_ok_update) simp_all
      moreover have "pending_code e' st' = (if e' = e then None else pending_code e' st)" for e'
        unfolding st'(2) using same r by (intro trans[OF pending_after_update[OF ok Some]]) auto
      ultimately show ?thesis
        using True Some st'(1) by (simp add: exchange_def e_def[symmetric])
    next
      case False
      then have res: "result = None" "st' = (if is_code then set_login_tokens (update_where (\<lambda>x. lt_id x = lt_id r)
          (\<lambda>r. r\<lparr>lt_attempts := lt_attempts r + 1\<rparr>) (email_login_tokens (mail st))) st else st)"
        using c ex un Some by (auto simp: consume_email_login_token_def Let_def e_def[symmetric])
      show ?thesis
      proof (cases is_code)
        case code: True
        have "tokens_ok st'" unfolding res(2) using code ok by (auto intro: tokens_ok_update)
        moreover have "pending_code e' st' =
            (if e' = e then Some (r\<lparr>lt_attempts := lt_attempts r + 1\<rparr>) else pending_code e' st)" for e'
          unfolding res(2) if_P[OF code] using same r
          by (intro trans[OF pending_after_update[OF ok Some]]) auto
        ultimately show ?thesis
          using False Some res(1) code by (simp add: exchange_def e_def[symmetric])
      next
        case no_code: False
        then show ?thesis
          using False Some res ok by (simp add: exchange_def e_def[symmetric])
      qed
    qed
  qed
qed

section \<open>Properties\<close>

type_synonym attempt = "int \<times> string \<times> string \<times> bool"

fun consume_run :: "crypto \<Rightarrow> attempt list \<Rightarrow> store \<Rightarrow> int option option list \<times> store" where
  "consume_run K [] st = ([], st)"
| "consume_run K ((now, email, credential, is_code) # as) st =
     (let (r, st1) = consume_email_login_token K now email credential is_code st;
          (rs, st2) = consume_run K as st1
      in (r # rs, st2))"

text \<open>The attempts on one address, with their results.\<close>

definition attempts_on :: "string \<Rightarrow> attempt list \<Rightarrow> int option option list \<Rightarrow> (attempt \<times> int option option) list" where
  "attempts_on email as rs = filter (\<lambda>((_, email', _), _). normalize_email email' = normalize_email email) (zip as rs)"

definition wrong_codes :: "(attempt \<times> int option option) list \<Rightarrow> nat" where
  "wrong_codes xs = length (filter (\<lambda>((_, _, _, is_code), r). is_code \<and> r = None) xs)"

lemma attempts_on_Cons:
  "attempts_on email ((now, email', credential, is_code) # as) (r # rs) =
     (if normalize_email email' = normalize_email email then [((now, email', credential, is_code), r)] else [])
       @ attempts_on email as rs"
  by (simp add: attempts_on_def)

text \<open>No pending code: nothing on this address succeeds.\<close>

lemma consume_run_dead:
  assumes "tokens_ok st" and "pending_code (normalize_email email) st = None" and "consume_run K as st = (rs, st')"
  shows "\<forall>x\<in>set (attempts_on email as rs). snd x = None"
  using assms
proof (induction as arbitrary: st rs st')
  case Nil
  then show ?case by (simp add: attempts_on_def)
next
  case (Cons a as)
  obtain now email' credential is_code where a: "a = (now, email', credential, is_code)" by (cases a)
  obtain r st1 where c: "consume_email_login_token K now email' credential is_code st = (r, st1)"
    by (cases "consume_email_login_token K now email' credential is_code st") auto
  obtain rs' st2 where rs': "consume_run K as st1 = (rs', st2)" by (cases "consume_run K as st1") auto
  have rs: "rs = r # rs'" using Cons.prems(3) by (simp add: a c rs')
  note step = consume_refines_exchange[OF Cons.prems(1) c]
  have "pending_code (normalize_email email) st1 = None \<and> (normalize_email email' = normalize_email email \<longrightarrow> r = None)"
  proof (cases "normalize_email email' = normalize_email email")
    case True
    then show ?thesis using step Cons.prems(2) by (simp add: exchange_def)
  next
    case False
    then show ?thesis using step Cons.prems(2) by simp
  qed
  moreover have "tokens_ok st1" using step by blast
  ultimately show ?case
    using Cons.IH[OF _ _ rs'] unfolding a rs attempts_on_Cons by auto
qed

lemma consume_run_live:
  assumes "tokens_ok st" and "pending_code (normalize_email email) st = Some row" and "consume_run K as st = (rs, st')"
  shows "(\<forall>x\<in>set (attempts_on email as rs). snd x = None) \<or>
    (\<exists>earlier now email' credential is_code later.
       attempts_on email as rs = earlier @ ((now, email', credential, is_code), Some (lt_invitation_id row)) # later
       \<and> (\<forall>x\<in>set earlier \<union> set later. snd x = None)
       \<and> lt_attempts row + int (wrong_codes earlier) < 5 \<and> now < lt_expires_at row
       \<and> hash_token K credential = credential_hash is_code row)"
  using assms
proof (induction as arbitrary: st rs row st')
  case Nil
  then show ?case by (simp add: attempts_on_def)
next
  case (Cons a as)
  obtain now email' credential is_code where a: "a = (now, email', credential, is_code)" by (cases a)
  obtain r st1 where c: "consume_email_login_token K now email' credential is_code st = (r, st1)"
    by (cases "consume_email_login_token K now email' credential is_code st") auto
  obtain rs' st2 where rs': "consume_run K as st1 = (rs', st2)" by (cases "consume_run K as st1") auto
  have rs: "rs = r # rs'" using Cons.prems(3) by (simp add: a c rs')
  note step = consume_refines_exchange[OF Cons.prems(1) c]
  have ok1: "tokens_ok st1" using step by blast
  show ?case
  proof (cases "normalize_email email' = normalize_email email")
    case False
    then have "pending_code (normalize_email email) st1 = Some row" using step Cons.prems(2) by simp
    from Cons.IH[OF ok1 this rs'] show ?thesis
      unfolding a rs attempts_on_Cons using False by simp
  next
    case True
    then have ex: "exchange K now credential is_code (Some row) = (r, pending_code (normalize_email email) st1)"
      using step Cons.prems(2) by simp
    show ?thesis
    proof (cases r)
      case (Some inv)
      then have "pending_code (normalize_email email) st1 = None" "inv = lt_invitation_id row"
        "lt_attempts row < 5" "now < lt_expires_at row" "hash_token K credential = credential_hash is_code row"
        using ex by (auto simp: exchange_def split: if_splits)
      then show ?thesis
        using consume_run_dead[OF ok1 _ rs'] True unfolding a rs attempts_on_Cons
        by (intro disjI2 exI[of _ "[]"]) (auto simp: Some wrong_codes_def)
    next
      case None
      then have p1: "pending_code (normalize_email email) st1 =
          Some (if is_code then row\<lparr>lt_attempts := lt_attempts row + 1\<rparr> else row)"
        using ex by (auto simp: exchange_def split: if_splits)
      have here: "attempts_on email (a # as) rs = ((now, email', credential, is_code), None) # attempts_on email as rs'"
        unfolding a rs attempts_on_Cons using True None by simp
      from Cons.IH[OF ok1 p1 rs'] show ?thesis
      proof
        assume "\<forall>x\<in>set (attempts_on email as rs'). snd x = None"
        then show ?thesis unfolding here by simp
      next
        assume "\<exists>earlier now email' credential isc later. attempts_on email as rs' =
             earlier @ ((now, email', credential, isc), Some (lt_invitation_id (if is_code then row\<lparr>lt_attempts := lt_attempts row + 1\<rparr> else row))) # later
           \<and> (\<forall>x\<in>set earlier \<union> set later. snd x = None)
           \<and> lt_attempts (if is_code then row\<lparr>lt_attempts := lt_attempts row + 1\<rparr> else row) + int (wrong_codes earlier) < 5
           \<and> now < lt_expires_at (if is_code then row\<lparr>lt_attempts := lt_attempts row + 1\<rparr> else row)
           \<and> hash_token K credential = credential_hash isc (if is_code then row\<lparr>lt_attempts := lt_attempts row + 1\<rparr> else row)"
        then obtain earlier t em cr isc later where e: "attempts_on email as rs' =
             earlier @ ((t, em, cr, isc), Some (lt_invitation_id row)) # later"
           "\<forall>x\<in>set earlier \<union> set later. snd x = None"
           "lt_attempts row + (if is_code then 1 else 0) + int (wrong_codes earlier) < 5"
           "t < lt_expires_at row" "hash_token K cr = credential_hash isc row"
          by (auto simp: credential_hash_def split: if_splits)
        show ?thesis
          unfolding here e(1)
          by (intro disjI2 exI[of _ "((now, email', credential, is_code), None) # earlier"])
            (use e(2-5) in \<open>auto simp: wrong_codes_def split: if_splits\<close>)
      qed
    qed
  qed
qed

lemma store_token_pending:
  assumes ok: "tokens_ok st" and s: "store_email_login_token K now email token code invited until st = (Inr (), st1)"
  shows "tokens_ok st1 \<and> (\<exists>row. pending_code (normalize_email email) st1 = Some row \<and> lt_token_hash row = hash_token K token
    \<and> lt_code_hash row = hash_token K code \<and> lt_attempts row = 0 \<and> lt_invitation_id row = invited \<and> lt_expires_at row = until)"
proof -
  define e where "e = normalize_email email"
  define rows where "rows = update_where (unused_for e) (\<lambda>r. r\<lparr>lt_used_at := Some now\<rparr>) (email_login_tokens (mail st))"
  define row where "row = \<lparr>lt_id = email_login_tokens_seq (mail st) + 1, lt_email = e, lt_token_hash = hash_token K token,
    lt_code_hash = hash_token K code, lt_attempts = 0, lt_invitation_id = invited, lt_expires_at = until, lt_used_at = None\<rparr>"
  have st1: "email_login_tokens (mail st1) = rows @ [row]" "email_login_tokens_seq (mail st1) = lt_id row"
    using s by (auto simp: store_email_login_token_def Let_def e_def rows_def row_def set_login_tokens_def split: if_splits)
  have "tokens_ok (set_login_tokens rows st)"
    unfolding rows_def using ok by (rule tokens_ok_update) simp_all
  then have rows: "distinct (map lt_id rows)" "\<forall>r\<in>set rows. lt_id r \<le> email_login_tokens_seq (mail st)"
      "distinct (map lt_email (filter unused rows))"
    by (simp_all add: tokens_ok_def set_login_tokens_def)
  have "\<not> unused_for e r" if mem: "r \<in> set rows" for r
  proof -
    obtain y where "r = (if unused_for e y then y\<lparr>lt_used_at := Some now\<rparr> else y)"
      using mem unfolding rows_def set_update_where by blast
    then show ?thesis by (cases "unused_for e y") (simp_all add: unused_for_def)
  qed
  then have new: "r \<in> set rows \<Longrightarrow> unused r \<Longrightarrow> lt_email r \<noteq> e" for r unfolding unused_for_def by blast
  have ok1: "tokens_ok st1"
    using rows new by (auto simp: tokens_ok_def st1 row_def)
  moreover have "pending_code e st1 = Some row"
    unfolding pending_code_iff[OF ok1] by (simp add: st1 unused_for_def row_def)
  ultimately show ?thesis by (auto simp: e_def[symmetric] row_def)
qed

text \<open>C20: A sign-in mail opens at most one session and survives at most four wrong codes.  After
  a code was mailed to an address, take any sequence of exchanges, on this and on other
  addresses, by link or by code.  Either none on this address succeeds, or exactly one
  does: its link token or code is the one mailed, it is not expired, fewer than five wrong
  codes were tried before, and it returns the invitation the mail belongs to.\<close>

theorem email_code_single_use:
  assumes "tokens_ok st"
    and "store_email_login_token K t0 email token code invited until st = (Inr (), st1)"
    and "consume_run K as st1 = (rs, st2)"
  shows "(\<forall>x\<in>set (attempts_on email as rs). snd x = None) \<or>
    (\<exists>earlier now email' credential is_code later.
       attempts_on email as rs = earlier @ ((now, email', credential, is_code), Some invited) # later
       \<and> (\<forall>x\<in>set earlier \<union> set later. snd x = None)
       \<and> wrong_codes earlier < 5 \<and> now < until
       \<and> hash_token K credential = hash_token K (if is_code then code else token))"
proof -
  obtain row where row: "tokens_ok st1" "pending_code (normalize_email email) st1 = Some row"
      "lt_token_hash row = hash_token K token" "lt_code_hash row = hash_token K code" "lt_attempts row = 0"
      "lt_invitation_id row = invited" "lt_expires_at row = until"
    using store_token_pending[OF assms(1,2)] by blast
  from consume_run_live[OF row(1,2) assms(3)] show ?thesis
    unfolding row(5-7) credential_hash_def row(3,4) by (simp add: if_distrib[of "hash_token K"])
qed

definition sample_attempts :: "attempt list" where
  "sample_attempts = [(10, ''A@x.org'', ''000000'', True), (11, ''b@x.org'', ''123456'', True),
     (12, ''a@x.org'', ''123456'', True), (13, ''a@x.org'', ''link'', False)]"

definition after_mail :: store where
  "after_mail = snd (store_email_login_token toy_crypto 5 ''a@x.org'' ''link'' ''123456'' None 600 empty_store)"

theorem email_code_single_use_witness:
  "fst (consume_run toy_crypto sample_attempts after_mail) = [None, None, Some None, None]
   \<and> \<not> list_all (\<lambda>x. snd x = None) (attempts_on ''a@x.org'' sample_attempts (fst (consume_run toy_crypto sample_attempts after_mail)))
   \<and> (\<exists>earlier now email' credential is_code later.
       attempts_on ''a@x.org'' sample_attempts (fst (consume_run toy_crypto sample_attempts after_mail))
         = earlier @ ((now, email', credential, is_code), Some None) # later
       \<and> wrong_codes earlier < 5 \<and> now < 600)"
proof -
  let ?r = "consume_run toy_crypto sample_attempts after_mail"
  have 1: "fst ?r = [None, None, Some None, None]" by code_simp
  have 2: "\<not> list_all (\<lambda>x. snd x = None) (attempts_on ''a@x.org'' sample_attempts (fst ?r))" by code_simp
  have 3: "tokens_ok empty_store" by (simp add: tokens_ok_def empty_store_def)
  have "isl (fst (store_email_login_token toy_crypto 5 ''a@x.org'' ''link'' ''123456'' None 600 empty_store)) = False"
    by code_simp
  then have 4: "store_email_login_token toy_crypto 5 ''a@x.org'' ''link'' ''123456'' None 600 empty_store = (Inr (), after_mail)"
    unfolding after_mail_def by (cases "store_email_login_token toy_crypto 5 ''a@x.org'' ''link'' ''123456'' None 600 empty_store";
        cases "fst (store_email_login_token toy_crypto 5 ''a@x.org'' ''link'' ''123456'' None 600 empty_store)") auto
  have "consume_run toy_crypto sample_attempts after_mail = (fst ?r, snd ?r)" by simp
  from email_code_single_use[OF 3 4 this] show ?thesis
    using 1 2 unfolding list_all_iff by blast
qed

end
