(* ===== verification/Routing.thy ===== *)
theory Routing
  imports Http_Types
begin

text \<open>
  The dispatch of request paths in \<open>crates/server/src/main.rs\<close>: the route table that
  \<open>build_application\<close> hands to the router, the fallback handler, and the two functions
  that classify a path for the middleware, \<open>proxy_target_for_path\<close> (rate limits, access
  policy, quota) and \<open>is_proxy_path\<close> (user subdomains).

  The middleware sees only the path, the router chooses the handler: that every package
  adapter is metered, and under its own target, is a property of the two tables together.
  The router itself is the \<open>axum\<close> crate, a parameter: which patterns match a path, with
  the documented restriction \<open>router_ok\<close>.
\<close>

section \<open>Classification\<close>

definition is_github_proxy_path :: "string \<Rightarrow> bool" where
  "is_github_proxy_path path \<longleftrightarrow>
     starts_with path ''/https://github.com/'' \<or>
     starts_with path ''/https://api.github.com/'' \<or>
     starts_with path ''/https://raw.githubusercontent.com/'' \<or>
     starts_with path ''/https://objects.githubusercontent.com/'' \<or>
     starts_with path ''/https://codeload.github.com/''"

definition proxy_target_for_path :: "string \<Rightarrow> string option" where
  "proxy_target_for_path path =
     (if path = ''/composer'' \<or> starts_with path ''/composer/'' then Some ''composer''
      else if path = ''/npm'' \<or> starts_with path ''/npm/'' then Some ''npm''
      else if path = ''/nvm'' \<or> starts_with path ''/nvm/'' then Some ''nvm''
      else if path = ''/opam'' \<or> starts_with path ''/opam/'' then Some ''opam''
      else if path = ''/goproxy'' \<or> starts_with path ''/goproxy/'' then Some ''go''
      else if path = ''/maven'' \<or> starts_with path ''/maven/'' then Some ''maven''
      else if path = ''/rubygems'' \<or> starts_with path ''/rubygems/'' then Some ''rubygems''
      else if path = ''/rustup'' \<or> starts_with path ''/rustup/'' then Some ''rustup''
      else if path = ''/luarocks'' \<or> starts_with path ''/luarocks/'' then Some ''luarocks''
      else if path = ''/nuget'' \<or> starts_with path ''/nuget/'' then Some ''nuget''
      else if path = ''/cpan'' \<or> starts_with path ''/cpan/'' then Some ''cpan''
      else if path = ''/cran'' \<or> starts_with path ''/cran/'' then Some ''cran''
      else if path = ''/hackage'' \<or> starts_with path ''/hackage/'' then Some ''hackage''
      else if path = ''/julia'' \<or> starts_with path ''/julia/'' then Some ''julia''
      else if path = ''/clojars'' \<or> starts_with path ''/clojars/'' then Some ''clojars''
      else if path = ''/cocoapods'' \<or> starts_with path ''/cocoapods/'' then Some ''cocoapods''
      else if path = ''/pub'' \<or> starts_with path ''/pub/'' then Some ''pub''
      else if path = ''/anaconda'' \<or> starts_with path ''/anaconda/'' then Some ''anaconda''
      else if path = ''/texlive'' \<or> starts_with path ''/texlive/'' then Some ''texlive''
      else if path = ''/winget'' \<or> starts_with path ''/winget/'' then Some ''winget''
      else if path = ''/huggingface'' \<or> starts_with path ''/huggingface/'' then Some ''huggingface''
      else if path = ''/elpa'' \<or> starts_with path ''/elpa/'' then Some ''elpa''
      else if path = ''/nix'' \<or> starts_with path ''/nix/'' then Some ''nix''
      else if path = ''/guix'' \<or> starts_with path ''/guix/'' then Some ''guix''
      else if path = ''/flatpak'' \<or> starts_with path ''/flatpak/'' then Some ''flatpak''
      else if path = ''/homebrew'' \<or> starts_with path ''/homebrew/'' then Some ''homebrew''
      else if path = ''/os'' \<or> starts_with path ''/os/'' then Some ''os''
      else if path = ''/pypi/simple'' \<or> starts_with path ''/pypi/simple/'' \<or> starts_with path ''/pypi/files/'' \<or> starts_with path ''/pypi/packages/'' then Some ''pypi''
      else if starts_with path ''/crates/api/'' \<or> path = ''/crates-index'' \<or> starts_with path ''/crates-index/'' then Some ''crates''
      else if path = ''/v2'' \<or> starts_with path ''/v2/'' then Some ''oci''
      else if is_github_proxy_path path then Some ''github''
      else None)"

definition is_proxy_path :: "string \<Rightarrow> bool" where
  "is_proxy_path path \<longleftrightarrow>
     path = ''/composer'' \<or> starts_with path ''/composer/'' \<or> path = ''/npm'' \<or>
     starts_with path ''/npm/'' \<or> path = ''/nvm'' \<or> starts_with path ''/nvm/'' \<or>
     path = ''/opam'' \<or> starts_with path ''/opam/'' \<or> path = ''/goproxy'' \<or>
     starts_with path ''/goproxy/'' \<or> path = ''/maven'' \<or>
     starts_with path ''/maven/'' \<or> path = ''/rubygems'' \<or>
     starts_with path ''/rubygems/'' \<or> path = ''/rustup'' \<or>
     starts_with path ''/rustup/'' \<or> path = ''/luarocks'' \<or>
     starts_with path ''/luarocks/'' \<or> path = ''/nuget'' \<or>
     starts_with path ''/nuget/'' \<or> path = ''/cpan'' \<or> starts_with path ''/cpan/'' \<or>
     path = ''/cran'' \<or> starts_with path ''/cran/'' \<or> path = ''/hackage'' \<or>
     starts_with path ''/hackage/'' \<or> path = ''/julia'' \<or>
     starts_with path ''/julia/'' \<or> path = ''/clojars'' \<or>
     starts_with path ''/clojars/'' \<or> path = ''/cocoapods'' \<or>
     starts_with path ''/cocoapods/'' \<or> path = ''/pub'' \<or>
     starts_with path ''/pub/'' \<or> path = ''/anaconda'' \<or>
     starts_with path ''/anaconda/'' \<or> path = ''/texlive'' \<or>
     starts_with path ''/texlive/'' \<or> path = ''/winget'' \<or>
     starts_with path ''/winget/'' \<or> path = ''/huggingface'' \<or>
     starts_with path ''/huggingface/'' \<or> path = ''/elpa'' \<or>
     starts_with path ''/elpa/'' \<or> path = ''/nix'' \<or> starts_with path ''/nix/'' \<or>
     path = ''/guix'' \<or> starts_with path ''/guix/'' \<or> path = ''/flatpak'' \<or>
     starts_with path ''/flatpak/'' \<or> path = ''/homebrew'' \<or>
     starts_with path ''/homebrew/'' \<or> path = ''/os'' \<or> starts_with path ''/os/'' \<or>
     path = ''/pypi/simple'' \<or> starts_with path ''/pypi/simple/'' \<or>
     starts_with path ''/pypi/files/'' \<or> starts_with path ''/pypi/packages/'' \<or>
     starts_with path ''/crates/api/'' \<or> path = ''/crates-index'' \<or>
     starts_with path ''/crates-index/'' \<or> path = ''/v2'' \<or>
     starts_with path ''/v2/'' \<or> is_github_proxy_path path"

definition route_group_for_path :: "string \<Rightarrow> string" where
  "route_group_for_path path =
     (case proxy_target_for_path path of
        Some target \<Rightarrow> ''/proxy/'' @ target
      | None \<Rightarrow>
          if path = ''/healthz'' then ''/healthz''
          else if path = ''/metrics'' then ''/metrics''
          else if path = ''/version'' then ''/version''
          else if path \<in> set [''/api/download'', ''/api/download/check''] then ''/api/download''
          else if path = ''/api/sources'' then ''/api/sources''
          else if path = ''/api/config'' \<or> path = ''/api/public-config'' then ''/api/public-config''
          else if starts_with path ''/api/admin/'' then ''/api/admin/:action''
          else if starts_with path ''/admin/api/'' then ''/admin/api/:resource''
          else if path = ''/admin'' \<or> starts_with path ''/admin/'' then ''/admin''
          else ''/static'')"

section \<open>Routes\<close>

type_synonym route = "string \<times> (http_method \<times> string) list"

definition control_routes :: "route list" where
  "control_routes =
     [(''/healthz'', [(GET, ''healthz'')]),
      (''/version'', [(GET, ''version'')]),
      (''/metrics'', [(GET, ''metrics'')]),
      (''/api/config'', [(GET, ''public_config'')]),
      (''/api/public-config'', [(GET, ''public_config'')]),
      (''/.well-known/acme-challenge/{token}'', [(GET, ''acme_http01_challenge'')]),
      (''/api/admin/login'', [(POST, ''admin_login'')]),
      (''/api/admin/logout'', [(POST, ''admin_logout'')]),
      (''/api/admin/password'', [(POST, ''change_admin_password'')]),
      (''/api/admin/username'', [(POST, ''change_admin_username'')]),
      (''/api/admin/config'', [(GET, ''admin_config''), (PUT, ''update_admin_config'')]),
      (''/api/admin/stats'', [(GET, ''admin_stats'')]),
      (''/api/admin/audit-log'', [(GET, ''admin_audit_log'')]),
      (''/api/admin/source-health'', [(GET, ''admin_source_health''), (POST, ''run_source_health_check'')]),
      (''/admin/api/auth/login'', [(POST, ''admin_cookie_login'')]),
      (''/admin/api/auth/logout'', [(POST, ''admin_cookie_logout'')]),
      (''/admin/api/auth/session'', [(GET, ''admin_session'')]),
      (''/admin/api/connection-info'', [(GET, ''admin_connection_info'')]),
      (''/admin/api/auth/passkey/options'', [(GET, ''admin_passkey_options'')]),
      (''/admin/api/auth/passkey/login/start'', [(POST, ''start_admin_passkey_login'')]),
      (''/admin/api/auth/passkey/login/finish'', [(POST, ''finish_admin_passkey_login'')]),
      (''/admin/api/auth/passkeys'', [(GET, ''list_admin_passkeys'')]),
      (''/admin/api/auth/sessions'', [(GET, ''list_admin_sessions'')]),
      (''/admin/api/auth/sessions/{id}'', [(DELETE, ''revoke_admin_session'')]),
      (''/admin/api/auth/passkeys/register/start'', [(POST, ''start_admin_passkey_registration'')]),
      (''/admin/api/auth/passkeys/register/finish'', [(POST, ''finish_admin_passkey_registration'')]),
      (''/admin/api/auth/passkeys/{id}'', [(DELETE, ''delete_admin_passkey'')]),
      (''/admin/api/password'', [(POST, ''change_admin_password'')]),
      (''/admin/api/username'', [(POST, ''change_admin_username'')]),
      (''/admin/api/config'', [(GET, ''admin_config''), (PUT, ''update_admin_config'')]),
      (''/admin/api/stats'', [(GET, ''admin_stats'')]),
      (''/admin/api/cache'', [(GET, ''admin_cache_stats''), (DELETE, ''admin_cache_purge'')]),
      (''/admin/api/geoip/status'', [(GET, ''admin_geoip_status'')]),
      (''/admin/api/geoip/lookup'', [(POST, ''admin_geoip_lookup'')]),
      (''/admin/api/geoip/update'', [(POST, ''admin_geoip_update'')]),
      (''/admin/api/acme/status'', [(GET, ''admin_acme_status'')]),
      (''/admin/api/acme/config'', [(GET, ''admin_acme_config''), (PUT, ''update_admin_acme_config'')]),
      (''/admin/api/acme/renew'', [(POST, ''admin_acme_renew'')]),
      (''/admin/api/ip-access-rules'', [(GET, ''list_ip_access_rules''), (POST, ''create_ip_access_rule'')]),
      (''/admin/api/ip-access-rules/{id}'', [(PUT, ''update_ip_access_rule''), (DELETE, ''delete_ip_access_rule'')]),
      (''/admin/api/geo-traffic'', [(GET, ''admin_geo_traffic'')]),
      (''/admin/api/audit-log'', [(GET, ''admin_audit_log'')]),
      (''/admin/api/source-health'', [(GET, ''admin_source_health''), (POST, ''run_source_health_check'')]),
      (''/admin/api/users'', [(GET, ''list_users''), (POST, ''create_user'')]),
      (''/api/download'', [(GET, ''download::fetch''), (HEAD, ''download::fetch'')]),
      (''/api/download/check'', [(GET, ''download::check'')]),
      (''/api/account/download'', [(GET, ''download::account'')]),
      (''/api/account/download/tokens'', [(POST, ''download::create_token'')]),
      (''/api/account/download/tokens/{id}'', [(DELETE, ''download::revoke_token'')]),
      (''/admin/api/download'', [(GET, ''download::admin'')]),
      (''/admin/api/download/config'', [(PUT, ''download::update_config'')]),
      (''/admin/api/download/permissions'', [(PUT, ''download::permission'')]),
      (''/admin/api/download/blocks'', [(PUT, ''download::block'')]),
      (''/admin/api/download/active/{id}'', [(DELETE, ''download::terminate'')]),
      (''/admin/api/users/summary'', [(GET, ''admin_billing::user_summaries'')]),
      (''/admin/api/users/{id}'', [(DELETE, ''delete_user'')]),
      (''/admin/api/users/{id}/status'', [(POST, ''update_user_status'')]),
      (''/admin/api/users/{id}/identities'', [(GET, ''admin_user_identities'')]),
      (''/admin/api/users/{user_id}/identities/{identity_id}'', [(DELETE, ''admin_unlink_user_identity'')]),
      (''/admin/api/users/{id}/billing'', [(GET, ''admin_user_billing''), (PUT, ''update_user_billing'')]),
      (''/admin/api/users/{id}/usage'', [(GET, ''admin_user_usage'')]),
      (''/admin/api/groups'', [(GET, ''list_billing_groups''), (POST, ''create_billing_group'')]),
      (''/admin/api/teams'', [(GET, ''list_billing_groups''), (POST, ''create_billing_group'')]),
      (''/admin/api/groups/{id}'', [(PUT, ''update_billing_group'')]),
      (''/admin/api/groups/{id}/target-access'', [(GET, ''admin_group_target_access''), (PUT, ''update_group_target_access'')]),
      (''/admin/api/teams/{id}/target-access'', [(GET, ''admin_group_target_access''), (PUT, ''update_group_target_access'')]),
      (''/admin/api/users/{id}/routing-id/rotate'', [(POST, ''admin_rotate_user_routing_id'')]),
      (''/admin/api/smtp'', [(GET, ''email::get_smtp_settings''), (PUT, ''email::update_smtp_settings'')]),
      (''/admin/api/smtp/test'', [(POST, ''email::test_smtp_settings'')]),
      (''/admin/api/invitations'', [(GET, ''email::list_invitations''), (POST, ''email::create_invitation'')]),
      (''/admin/api/invitations/{id}'', [(DELETE, ''email::revoke_invitation'')]),
      (''/admin/api/invitations/{id}/resend'', [(POST, ''email::resend_invitation'')]),
      (''/admin/api/auth-providers'', [(GET, ''oauth::list_admin_providers''), (POST, ''oauth::create_provider'')]),
      (''/admin/api/auth-providers/{id}'', [(PUT, ''oauth::update_provider''), (DELETE, ''oauth::delete_provider'')]),
      (''/admin/api/auth-providers/{id}/test'', [(POST, ''oauth::test_provider'')]),
      (''/admin/api/local-users'', [(POST, ''local_accounts::create'')]),
      (''/admin/api/registration-invitations'', [(GET, ''local_accounts::list''), (POST, ''local_accounts::invite'')]),
      (''/admin/api/registration-invitations/{id}'', [(DELETE, ''local_accounts::revoke'')]),
      (''/api/auth/password/login'', [(POST, ''local_accounts::login'')]),
      (''/api/auth/register'', [(POST, ''local_accounts::register'')]),
      (''/api/account/password'', [(POST, ''local_accounts::change_password'')]),
      (''/api/auth/email/request'', [(POST, ''email::request_email_login'')]),
      (''/api/auth/email/verify'', [(POST, ''email::verify_email_login'')]),
      (''/api/auth/providers'', [(GET, ''oauth::public_providers'')]),
      (''/api/auth/{slug}/start'', [(GET, ''oauth::start_login'')]),
      (''/api/auth/{slug}/callback'', [(GET, ''oauth::callback'')]),
      (''/api/auth/session'', [(GET, ''user_session'')]),
      (''/api/auth/logout'', [(POST, ''user_logout'')]),
      (''/api/account/profile'', [(GET, ''user_profile'')]),
      (''/api/account/providers'', [(GET, ''oauth::account_providers'')]),
      (''/api/account/providers/{slug}/link/start'', [(GET, ''oauth::start_link'')]),
      (''/api/account/providers/{id}'', [(DELETE, ''oauth::unlink_identity'')]),
      (''/api/account/usage'', [(GET, ''user_usage'')]),
      (''/api/source-health'', [(GET, ''public_source_health'')]),
      (''/api/account/routing-id/rotate'', [(POST, ''user_rotate_routing_id'')]),
      (''/api/sources'', [(GET, ''source_catalog'')])]"

definition adapter_routes :: "route list" where
  "adapter_routes =
     [(''/composer'', [(GET, ''composer::root'')]),
      (''/composer/'', [(GET, ''composer::root'')]),
      (''/composer/{*path}'', [(GET, ''composer::proxy''), (HEAD, ''composer::proxy'')]),
      (''/npm'', [(GET, ''npm::root''), (HEAD, ''npm::root'')]),
      (''/npm/'', [(GET, ''npm::root''), (HEAD, ''npm::root'')]),
      (''/npm/{*path}'', [(GET, ''npm::proxy''), (HEAD, ''npm::proxy''), (POST, ''npm::proxy'')]),
      (''/nvm'', [(GET, ''nvm::root''), (HEAD, ''nvm::root'')]),
      (''/nvm/'', [(GET, ''nvm::root''), (HEAD, ''nvm::root'')]),
      (''/nvm/{*path}'', [(GET, ''nvm::proxy''), (HEAD, ''nvm::proxy'')]),
      (''/opam'', [(GET, ''opam::root''), (HEAD, ''opam::root'')]),
      (''/opam/'', [(GET, ''opam::root''), (HEAD, ''opam::root'')]),
      (''/opam/{*path}'', [(GET, ''opam::proxy''), (HEAD, ''opam::proxy'')]),
      (''/goproxy'', [(GET, ''go::root''), (HEAD, ''go::root'')]),
      (''/goproxy/'', [(GET, ''go::root''), (HEAD, ''go::root'')]),
      (''/goproxy/{*path}'', [(GET, ''go::proxy''), (HEAD, ''go::proxy'')]),
      (''/maven'', [(GET, ''maven::root''), (HEAD, ''maven::root'')]),
      (''/maven/'', [(GET, ''maven::root''), (HEAD, ''maven::root'')]),
      (''/maven/{*path}'', [(GET, ''maven::proxy''), (HEAD, ''maven::proxy'')]),
      (''/rubygems'', [(GET, ''rubygems::root''), (HEAD, ''rubygems::root'')]),
      (''/rubygems/'', [(GET, ''rubygems::root''), (HEAD, ''rubygems::root'')]),
      (''/rubygems/{*path}'', [(GET, ''rubygems::proxy''), (HEAD, ''rubygems::proxy'')]),
      (''/rustup'', [(GET, ''rustup::root''), (HEAD, ''rustup::root'')]),
      (''/rustup/'', [(GET, ''rustup::root''), (HEAD, ''rustup::root'')]),
      (''/rustup/{*path}'', [(GET, ''rustup::proxy''), (HEAD, ''rustup::proxy'')]),
      (''/luarocks'', [(GET, ''luarocks::root''), (HEAD, ''luarocks::root'')]),
      (''/luarocks/'', [(GET, ''luarocks::root''), (HEAD, ''luarocks::root'')]),
      (''/luarocks/{*path}'', [(GET, ''luarocks::proxy''), (HEAD, ''luarocks::proxy'')]),
      (''/nuget'', [(GET, ''nuget::root''), (HEAD, ''nuget::root'')]),
      (''/nuget/'', [(GET, ''nuget::root''), (HEAD, ''nuget::root'')]),
      (''/nuget/v3/index.json'', [(GET, ''nuget::service_index''), (HEAD, ''nuget::service_index'')]),
      (''/nuget/{*path}'', [(GET, ''nuget::proxy''), (HEAD, ''nuget::proxy'')]),
      (''/cpan'', [(GET, ''cpan::root''), (HEAD, ''cpan::root'')]),
      (''/cpan/'', [(GET, ''cpan::root''), (HEAD, ''cpan::root'')]),
      (''/cpan/{*path}'', [(GET, ''cpan::proxy''), (HEAD, ''cpan::proxy'')]),
      (''/cran'', [(GET, ''cran::root''), (HEAD, ''cran::root'')]),
      (''/cran/'', [(GET, ''cran::root''), (HEAD, ''cran::root'')]),
      (''/cran/{*path}'', [(GET, ''cran::proxy''), (HEAD, ''cran::proxy'')]),
      (''/hackage'', [(GET, ''hackage::root''), (HEAD, ''hackage::root'')]),
      (''/hackage/'', [(GET, ''hackage::root''), (HEAD, ''hackage::root'')]),
      (''/hackage/{*path}'', [(GET, ''hackage::proxy''), (HEAD, ''hackage::proxy'')]),
      (''/julia'', [(GET, ''julia::root''), (HEAD, ''julia::root'')]),
      (''/julia/'', [(GET, ''julia::root''), (HEAD, ''julia::root'')]),
      (''/julia/{*path}'', [(GET, ''julia::proxy''), (HEAD, ''julia::proxy'')]),
      (''/clojars'', [(GET, ''clojars::root''), (HEAD, ''clojars::root'')]),
      (''/clojars/'', [(GET, ''clojars::root''), (HEAD, ''clojars::root'')]),
      (''/clojars/{*path}'', [(GET, ''clojars::proxy''), (HEAD, ''clojars::proxy'')]),
      (''/cocoapods'', [(GET, ''cocoapods::root''), (HEAD, ''cocoapods::root'')]),
      (''/cocoapods/'', [(GET, ''cocoapods::root''), (HEAD, ''cocoapods::root'')]),
      (''/cocoapods/{*path}'', [(GET, ''cocoapods::proxy''), (HEAD, ''cocoapods::proxy'')]),
      (''/pub'', [(GET, ''pub_repository::root''), (HEAD, ''pub_repository::root'')]),
      (''/pub/'', [(GET, ''pub_repository::root''), (HEAD, ''pub_repository::root'')]),
      (''/pub/{*path}'', [(GET, ''pub_repository::proxy''), (HEAD, ''pub_repository::proxy'')]),
      (''/anaconda'', [(GET, ''anaconda::root''), (HEAD, ''anaconda::root'')]),
      (''/anaconda/'', [(GET, ''anaconda::root''), (HEAD, ''anaconda::root'')]),
      (''/anaconda/{*path}'', [(GET, ''anaconda::proxy''), (HEAD, ''anaconda::proxy'')]),
      (''/texlive'', [(GET, ''texlive::root''), (HEAD, ''texlive::root'')]),
      (''/texlive/'', [(GET, ''texlive::root''), (HEAD, ''texlive::root'')]),
      (''/texlive/{*path}'', [(GET, ''texlive::proxy''), (HEAD, ''texlive::proxy'')]),
      (''/winget'', [(GET, ''winget::root''), (HEAD, ''winget::root'')]),
      (''/winget/'', [(GET, ''winget::root''), (HEAD, ''winget::root'')]),
      (''/winget/{*path}'', [(GET, ''winget::proxy''), (HEAD, ''winget::proxy'')]),
      (''/huggingface'', [(GET, ''huggingface::root''), (HEAD, ''huggingface::root'')]),
      (''/huggingface/'', [(GET, ''huggingface::root''), (HEAD, ''huggingface::root'')]),
      (''/huggingface/{*path}'', [(GET, ''huggingface::proxy''), (HEAD, ''huggingface::proxy'')]),
      (''/elpa'', [(GET, ''elpa::root''), (HEAD, ''elpa::root'')]),
      (''/elpa/'', [(GET, ''elpa::root''), (HEAD, ''elpa::root'')]),
      (''/elpa/{*path}'', [(GET, ''elpa::proxy''), (HEAD, ''elpa::proxy'')]),
      (''/nix'', [(GET, ''nix::root''), (HEAD, ''nix::root'')]),
      (''/nix/'', [(GET, ''nix::root''), (HEAD, ''nix::root'')]),
      (''/nix/{*path}'', [(GET, ''nix::proxy''), (HEAD, ''nix::proxy'')]),
      (''/guix'', [(GET, ''guix::root''), (HEAD, ''guix::root'')]),
      (''/guix/'', [(GET, ''guix::root''), (HEAD, ''guix::root'')]),
      (''/guix/{*path}'', [(GET, ''guix::proxy''), (HEAD, ''guix::proxy'')]),
      (''/flatpak'', [(GET, ''flatpak::root''), (HEAD, ''flatpak::root'')]),
      (''/flatpak/'', [(GET, ''flatpak::root''), (HEAD, ''flatpak::root'')]),
      (''/flatpak/{*path}'', [(GET, ''flatpak::proxy''), (HEAD, ''flatpak::proxy'')]),
      (''/homebrew'', [(GET, ''homebrew::root''), (HEAD, ''homebrew::root'')]),
      (''/homebrew/'', [(GET, ''homebrew::root''), (HEAD, ''homebrew::root'')]),
      (''/homebrew/{*path}'', [(GET, ''homebrew::proxy''), (HEAD, ''homebrew::proxy'')]),
      (''/os'', [(GET, ''os::root''), (HEAD, ''os::root'')]),
      (''/os/'', [(GET, ''os::root''), (HEAD, ''os::root'')]),
      (''/os/{*path}'', [(GET, ''os::proxy''), (HEAD, ''os::proxy'')]),
      (''/pypi/simple'', [(GET, ''pypi::simple_root''), (HEAD, ''pypi::simple_root'')]),
      (''/pypi/simple/'', [(GET, ''pypi::simple_root''), (HEAD, ''pypi::simple_root'')]),
      (''/pypi/simple/{*path}'', [(GET, ''pypi::simple''), (HEAD, ''pypi::simple'')]),
      (''/pypi/files/{*path}'', [(GET, ''pypi::file''), (HEAD, ''pypi::file'')]),
      (''/pypi/packages/{*path}'', [(GET, ''pypi::packages''), (HEAD, ''pypi::packages'')]),
      (''/crates/api/v1/crates/{crate}/{version}/download'', [(GET, ''cratesio::download''), (HEAD, ''cratesio::download'')]),
      (''/crates-index'', [(GET, ''cratesio::index_root''), (HEAD, ''cratesio::index_root'')]),
      (''/crates-index/'', [(GET, ''cratesio::index_root''), (HEAD, ''cratesio::index_root'')]),
      (''/crates-index/{*path}'', [(GET, ''cratesio::index''), (HEAD, ''cratesio::index'')]),
      (''/v2'', [(GET, ''oci::root''), (HEAD, ''oci::root'')]),
      (''/v2/'', [(GET, ''oci::root''), (HEAD, ''oci::root'')]),
      (''/v2/{*path}'', [(GET, ''oci::proxy''), (HEAD, ''oci::proxy'')])]"

definition routes :: "route list" where
  "routes = control_routes @ adapter_routes"

text \<open>The target an adapter module serves: the name it passes to \<open>Config::is_enabled\<close>.\<close>

definition adapter_modules :: "(string \<times> string) list" where
  "adapter_modules =
     [(''composer'', ''composer''), (''npm'', ''npm''), (''nvm'', ''nvm''),
     (''opam'', ''opam''), (''go'', ''go''), (''maven'', ''maven''),
     (''rubygems'', ''rubygems''), (''rustup'', ''rustup''), (''luarocks'', ''luarocks''),
     (''nuget'', ''nuget''), (''cpan'', ''cpan''), (''cran'', ''cran''),
     (''hackage'', ''hackage''), (''julia'', ''julia''), (''clojars'', ''clojars''),
     (''cocoapods'', ''cocoapods''), (''pub_repository'', ''pub''),
     (''anaconda'', ''anaconda''), (''texlive'', ''texlive''), (''winget'', ''winget''),
     (''huggingface'', ''huggingface''), (''elpa'', ''elpa''), (''nix'', ''nix''),
     (''guix'', ''guix''), (''flatpak'', ''flatpak''), (''homebrew'', ''homebrew''),
     (''os'', ''os''), (''pypi'', ''pypi''), (''cratesio'', ''crates''), (''oci'', ''oci'')]"

definition adapter_target :: "string \<Rightarrow> string option" where
  "adapter_target handler = map_of adapter_modules (takeWhile (\<lambda>c. c \<noteq> CHR '':'') handler)"

text \<open>The handler of a path that no route matches.\<close>

definition fallback_handler :: "string \<Rightarrow> string" where
  "fallback_handler path = (if is_github_proxy_path path then ''github::proxy'' else ''static_assets::serve'')"

section \<open>The classification as a table\<close>

datatype path_test = Exact string | Under string

fun passes :: "path_test \<Rightarrow> string \<Rightarrow> bool" where
  "passes (Exact s) path \<longleftrightarrow> path = s"
| "passes (Under s) path \<longleftrightarrow> starts_with path s"

definition target_tests :: "(path_test list \<times> string) list" where
  "target_tests =
     [([Exact ''/composer'', Under ''/composer/''], ''composer''),
      ([Exact ''/npm'', Under ''/npm/''], ''npm''),
      ([Exact ''/nvm'', Under ''/nvm/''], ''nvm''),
      ([Exact ''/opam'', Under ''/opam/''], ''opam''),
      ([Exact ''/goproxy'', Under ''/goproxy/''], ''go''),
      ([Exact ''/maven'', Under ''/maven/''], ''maven''),
      ([Exact ''/rubygems'', Under ''/rubygems/''], ''rubygems''),
      ([Exact ''/rustup'', Under ''/rustup/''], ''rustup''),
      ([Exact ''/luarocks'', Under ''/luarocks/''], ''luarocks''),
      ([Exact ''/nuget'', Under ''/nuget/''], ''nuget''),
      ([Exact ''/cpan'', Under ''/cpan/''], ''cpan''),
      ([Exact ''/cran'', Under ''/cran/''], ''cran''),
      ([Exact ''/hackage'', Under ''/hackage/''], ''hackage''),
      ([Exact ''/julia'', Under ''/julia/''], ''julia''),
      ([Exact ''/clojars'', Under ''/clojars/''], ''clojars''),
      ([Exact ''/cocoapods'', Under ''/cocoapods/''], ''cocoapods''),
      ([Exact ''/pub'', Under ''/pub/''], ''pub''),
      ([Exact ''/anaconda'', Under ''/anaconda/''], ''anaconda''),
      ([Exact ''/texlive'', Under ''/texlive/''], ''texlive''),
      ([Exact ''/winget'', Under ''/winget/''], ''winget''),
      ([Exact ''/huggingface'', Under ''/huggingface/''], ''huggingface''),
      ([Exact ''/elpa'', Under ''/elpa/''], ''elpa''),
      ([Exact ''/nix'', Under ''/nix/''], ''nix''),
      ([Exact ''/guix'', Under ''/guix/''], ''guix''),
      ([Exact ''/flatpak'', Under ''/flatpak/''], ''flatpak''),
      ([Exact ''/homebrew'', Under ''/homebrew/''], ''homebrew''),
      ([Exact ''/os'', Under ''/os/''], ''os''),
      ([Exact ''/pypi/simple'', Under ''/pypi/simple/'', Under ''/pypi/files/'', Under ''/pypi/packages/''], ''pypi''),
      ([Under ''/crates/api/'', Exact ''/crates-index'', Under ''/crates-index/''], ''crates''),
      ([Exact ''/v2'', Under ''/v2/''], ''oci''),
      ([Under ''/https://github.com/'', Under ''/https://api.github.com/'', Under ''/https://raw.githubusercontent.com/'', Under ''/https://objects.githubusercontent.com/'', Under ''/https://codeload.github.com/''], ''github'')]"

fun first_target :: "(path_test list \<times> string) list \<Rightarrow> string \<Rightarrow> string option" where
  "first_target [] path = None"
| "first_target ((ts, target) # rest) path =
     (if \<exists>t\<in>set ts. passes t path then Some target else first_target rest path)"

lemma proxy_target_for_path_table: "proxy_target_for_path path = first_target target_tests path"
  by (simp add: proxy_target_for_path_def target_tests_def is_github_proxy_path_def)

text \<open>What a literal prefix says about a test, for every continuation of it.\<close>

definition never :: "path_test \<Rightarrow> string \<Rightarrow> bool" where
  "never t l = (case t of Exact s \<Rightarrow> \<not> starts_with s l | Under s \<Rightarrow> \<not> starts_with s l \<and> \<not> starts_with l s)"

definition always :: "path_test \<Rightarrow> string \<Rightarrow> bool" where
  "always t l = (case t of Exact s \<Rightarrow> False | Under s \<Rightarrow> starts_with l s)"

fun decided_target :: "(path_test list \<times> string) list \<Rightarrow> string \<Rightarrow> string option option" where
  "decided_target [] l = Some None"
| "decided_target ((ts, target) # rest) l =
     (if list_ex (\<lambda>t. always t l) ts then Some (Some target)
      else if list_all (\<lambda>t. never t l) ts then decided_target rest l
      else None)"

lemma always_passes: "always t l \<Longrightarrow> starts_with path l \<Longrightarrow> passes t path"
  by (cases t) (auto simp: always_def starts_with_iff)

lemma never_passes: "never t l \<Longrightarrow> starts_with path l \<Longrightarrow> \<not> passes t path"
  by (cases t) (auto simp: never_def starts_with_iff append_eq_append_conv2)

lemma decided_target_sound:
  "decided_target ts l = Some r \<Longrightarrow> starts_with path l \<Longrightarrow> first_target ts path = r"
proof (induction ts)
  case (Cons p rest)
  obtain ts' target where p: "p = (ts', target)" by (cases p)
  show ?case
  proof (cases "list_ex (\<lambda>t. always t l) ts'")
    case True
    then show ?thesis
      using Cons.prems by (auto simp: p list_ex_iff dest: always_passes)
  next
    case False
    then have n: "list_all (\<lambda>t. never t l) ts'" and d: "decided_target rest l = Some r"
      using Cons.prems(1) by (auto simp: p split: if_splits)
    have "\<not> (\<exists>t\<in>set ts'. passes t path)"
      using n Cons.prems(2) by (auto simp: list_all_iff dest: never_passes)
    then show ?thesis
      using Cons.IH[OF d Cons.prems(2)] by (simp add: p)
  qed
qed simp

text \<open>The literal part of a pattern, and the check of one route.\<close>

definition literal :: "string \<Rightarrow> string" where
  "literal pat = takeWhile (\<lambda>c. c \<noteq> CHR ''{'') pat"

definition handled_as :: "string option option \<Rightarrow> (http_method \<times> string) list \<Rightarrow> bool" where
  "handled_as d hs = list_all (\<lambda>(m, h). d = Some (adapter_target h)) hs"

definition route_decided :: "route \<Rightarrow> bool" where
  "route_decided r = (case r of (pat, hs) \<Rightarrow>
     handled_as (if CHR ''{'' \<in> set pat then decided_target target_tests (literal pat)
                 else Some (proxy_target_for_path pat)) hs)"

lemma routes_decided: "list_all route_decided routes"
  by code_simp

lemma is_proxy_path_target: "is_proxy_path path \<longleftrightarrow> proxy_target_for_path path \<noteq> None"
  by (simp add: is_proxy_path_def proxy_target_for_path_def)

section \<open>Properties\<close>

text \<open>The documented restriction on the router: a pattern without captures matches only
  itself, a pattern with captures only paths that start with its literal part.\<close>

definition router_ok :: "(string \<Rightarrow> string \<Rightarrow> bool) \<Rightarrow> bool" where
  "router_ok matches \<longleftrightarrow> (\<forall>pat path. matches pat path \<longrightarrow>
     (if CHR ''{'' \<in> set pat then starts_with path (literal pat) else path = pat))"

text \<open>C38: Every package adapter is metered, under its own target, and nothing else is.  For
  every route that can match a path and every handler registered on it, the target the
  middleware computes from the path is the one the handler's adapter serves; handlers of
  the control plane and of the static site have none.  The fallback proxies to GitHub
  exactly the paths classified as such.  The classification by \<open>is_proxy_path\<close>, which
  guards user subdomains, agrees with the one by target.\<close>

theorem adapters_are_metered:
  assumes "router_ok matches"
  shows "(\<forall>pat hs m h path. (pat, hs) \<in> set routes \<and> (m, h) \<in> set hs \<and> matches pat path \<longrightarrow>
            proxy_target_for_path path = adapter_target h)
       \<and> (\<forall>path. fallback_handler path = ''github::proxy'' \<longrightarrow> proxy_target_for_path path = Some ''github'')
       \<and> (\<forall>path. is_proxy_path path \<longleftrightarrow> proxy_target_for_path path \<noteq> None)"
proof (intro conjI allI impI)
  fix pat hs m h path
  assume a: "(pat, hs) \<in> set routes \<and> (m, h) \<in> set hs \<and> matches pat path"
  have d: "(if CHR ''{'' \<in> set pat then decided_target target_tests (literal pat)
        else Some (proxy_target_for_path pat)) = Some (adapter_target h)"
    using routes_decided a by (force simp: list_all_iff route_decided_def handled_as_def)
  have r: "if CHR ''{'' \<in> set pat then starts_with path (literal pat) else path = pat"
    using assms a unfolding router_ok_def by blast
  show "proxy_target_for_path path = adapter_target h"
    using d r decided_target_sound[of target_tests "literal pat" "adapter_target h" path]
    by (auto simp: proxy_target_for_path_table split: if_splits)
next
  fix path
  assume "fallback_handler path = ''github::proxy''"
  then have g: "is_github_proxy_path path" by (auto simp: fallback_handler_def split: if_splits)
  have l: "decided_target target_tests l = Some (Some ''github'')"
    if "l \<in> {''/https://github.com/'', ''/https://api.github.com/'', ''/https://raw.githubusercontent.com/'',
      ''/https://objects.githubusercontent.com/'', ''/https://codeload.github.com/''}" for l
    using that by (elim insertE emptyE; hypsubst; code_simp)
  show "proxy_target_for_path path = Some ''github''"
    using g decided_target_sound[OF l] unfolding is_github_proxy_path_def proxy_target_for_path_table by blast
next
  fix path
  show "is_proxy_path path \<longleftrightarrow> proxy_target_for_path path \<noteq> None"
    by (rule is_proxy_path_target)
qed

definition prefix_router :: "string \<Rightarrow> string \<Rightarrow> bool" where
  "prefix_router pat path \<longleftrightarrow> (if CHR ''{'' \<in> set pat then starts_with path (literal pat) else path = pat)"

theorem adapters_are_metered_witness:
  "proxy_target_for_path ''/npm/react'' = Some ''npm'' \<and> proxy_target_for_path ''/admin/api/users/7'' = None"
proof -
  have "router_ok prefix_router" by (simp add: router_ok_def prefix_router_def)
  note p = adapters_are_metered[OF this, THEN conjunct1, rule_format]
  have "proxy_target_for_path ''/npm/react'' = adapter_target ''npm::proxy''"
    by (rule p[of "''/npm/{*path}''" "[(GET, ''npm::proxy''), (HEAD, ''npm::proxy''), (POST, ''npm::proxy'')]" GET])
      code_simp
  moreover have "proxy_target_for_path ''/admin/api/users/7'' = adapter_target ''delete_user''"
    by (rule p[of "''/admin/api/users/{id}''" "[(DELETE, ''delete_user'')]" DELETE]) code_simp
  ultimately show ?thesis
    by (simp add: adapter_target_def adapter_modules_def)
qed

end
