(* ===== verification/User_Accounts.thy ===== *)
theory User_Accounts
  imports Account_Db
begin

text \<open>
  User accounts of \<open>crates/server/src/database.rs\<close>: creation, routing ids (the subdomain a user's
  package managers talk to), sessions, external identities and sign-in flows.  The encoder
  of routing ids and the sealing of flow payloads are library calls and parameters; random
  numbers are arguments.
\<close>

section \<open>Constants, views and parameters\<close>

definition ROUTING_ID_INSERT_ATTEMPTS :: nat where
  "ROUTING_ID_INSERT_ATTEMPTS = 16"

definition USER_SESSION_LIFETIME_SECS :: int where
  "USER_SESSION_LIFETIME_SECS = 30 * 24 * 60 * 60"

record user_account_view =
  ua_username :: "string option"
  ua_id :: int
  ua_email :: string
  ua_display_name :: string
  ua_disabled :: bool
  ua_routing_id :: string
  ua_routing_rotated_at :: int
  ua_created_at :: int
  ua_updated_at :: int

record user_identity =
  un_user_id :: int
  un_email :: string
  un_display_name :: string

record user_routing_identity =
  ri_user_id :: int
  ri_routing_id :: string

record user_session =
  ue_token :: string
  ue_expires_at :: int
  ue_identity :: user_identity

datatype routing_rotation_outcome = Rotated string | Cooldown nat | NotFound

record stored_auth_flow =
  sf_provider_id :: int
  sf_payload :: string
  sf_mode :: string
  sf_user_id :: "int option"

text \<open>\<open>Sqids\<close> with the alphabet of the code: the id of a number at a minimum length.\<close>

type_synonym sqids = "nat \<Rightarrow> nat \<Rightarrow> string option"

section \<open>Users and routing ids\<close>

definition set_users :: "(int \<rightharpoonup> user_row) \<Rightarrow> store \<Rightarrow> store" where
  "set_users u st = st\<lparr>qdb := (qdb st)\<lparr>users := u\<rparr>\<rparr>"

definition set_routing :: "routing_row list \<Rightarrow> store \<Rightarrow> store" where
  "set_routing rows st = st\<lparr>usr := (usr st)\<lparr>routing_ids := rows\<rparr>\<rparr>"

definition set_user_sessions :: "user_session_row list \<Rightarrow> store \<Rightarrow> store" where
  "set_user_sessions rows st = st\<lparr>usr := (usr st)\<lparr>user_sessions := rows\<rparr>\<rparr>"

definition is_reserved_routing_id :: "string \<Rightarrow> bool" where
  "is_reserved_routing_id v \<longleftrightarrow>
     v \<in> set [''www'', ''admin'', ''api'', ''login'', ''account'', ''mail'', ''smtp'', ''status'']"

definition public_number_of :: "nat \<Rightarrow> nat" where
  "public_number_of r = max (r mod 2 ^ 63) 1"

text \<open>\<open>INSERT OR IGNORE\<close> is ignored on a duplicate number, a duplicate id up to case, or a second
  active id of the user.\<close>

definition routing_conflict :: "routing_row \<Rightarrow> routing_row list \<Rightarrow> bool" where
  "routing_conflict row rows \<longleftrightarrow>
     (\<exists>r\<in>set rows. ro_public_number r = ro_public_number row
        \<or> eq_ignore_ascii_case (ro_routing_id r) (ro_routing_id row)
        \<or> (ro_active r \<and> ro_user_id r = ro_user_id row))"

fun routing_attempts ::
  "sqids \<Rightarrow> nat list \<Rightarrow> int \<Rightarrow> nat \<Rightarrow> int \<Rightarrow> routing_row list \<Rightarrow> (string \<times> routing_row list) option" where
  "routing_attempts encode [] user_id minimum_length now rows = None"
| "routing_attempts encode (draw # draws) user_id minimum_length now rows =
     (let public_number = public_number_of draw in
      case encode minimum_length public_number of
        None \<Rightarrow> None
      | Some routing_id \<Rightarrow>
          if is_reserved_routing_id routing_id
          then routing_attempts encode draws user_id minimum_length now rows
          else
            (let row = \<lparr>ro_user_id = user_id, ro_public_number = int public_number, ro_routing_id = routing_id,
                        ro_active = True, ro_created_at = now, ro_revoked_at = None\<rparr>
             in if routing_conflict row rows
                then routing_attempts encode draws user_id minimum_length now rows
                else Some (routing_id, rows @ [row])))"

definition insert_unique_routing_id ::
  "sqids \<Rightarrow> (nat \<Rightarrow> nat) \<Rightarrow> int \<Rightarrow> nat \<Rightarrow> int \<Rightarrow> routing_row list \<Rightarrow> (string \<times> routing_row list) option" where
  "insert_unique_routing_id encode rng user_id minimum_length now rows =
     routing_attempts encode (map rng [0..<ROUTING_ID_INSERT_ATTEMPTS]) user_id minimum_length now rows"

text \<open>The insertion of a user; \<open>None\<close> when the address is taken, also by a deleted user.\<close>

definition insert_user ::
  "int \<Rightarrow> string \<Rightarrow> string \<Rightarrow> store \<Rightarrow> (int \<times> store) option" where
  "insert_user now email display_name st =
     (if \<exists>p\<in>set (profiles (usr st)). pr_email p = email then None
      else
        (let user_id = users_seq (usr st) + 1;
             row = \<lparr>pr_id = user_id, pr_username = None, pr_email = email, pr_display_name = display_name,
                    pr_created_at = now, pr_updated_at = now\<rparr>
         in Some (user_id,
              set_users ((users (qdb st))(user_id \<mapsto> \<lparr>disabled = False, deleted_at = None\<rparr>))
                (st\<lparr>usr := (usr st)\<lparr>profiles := profiles (usr st) @ [row], users_seq := user_id\<rparr>\<rparr>))))"

definition new_account :: "int \<Rightarrow> int \<Rightarrow> string \<Rightarrow> string \<Rightarrow> string \<Rightarrow> user_account_view" where
  "new_account now user_id email display_name routing_id =
     \<lparr>ua_username = None, ua_id = user_id, ua_email = email, ua_display_name = display_name,
      ua_disabled = False, ua_routing_id = routing_id, ua_routing_rotated_at = now,
      ua_created_at = now, ua_updated_at = now\<rparr>"

definition create_user ::
  "sqids \<Rightarrow> (nat \<Rightarrow> nat) \<Rightarrow> int \<Rightarrow> string \<Rightarrow> string \<Rightarrow> string \<Rightarrow> nat \<Rightarrow> store \<Rightarrow> user_account_view option account_result"
where
  "create_user encode rng now actor email display_name routing_min_length st =
     (let email = normalize_email email in
      case insert_user now email display_name st of
        None \<Rightarrow> (Inr None, st)
      | Some (user_id, st1) \<Rightarrow>
          (case insert_unique_routing_id encode rng user_id routing_min_length now (routing_ids (usr st1)) of
             None \<Rightarrow> (Inl NoRoutingId, st)
           | Some (routing_id, rows) \<Rightarrow>
               (Inr (Some (new_account now user_id email display_name routing_id)),
                log_audit now actor ''user_created'' (''user_id='' @ dec_of_int user_id) (set_routing rows st1))))"

text \<open>The joined row of a user: the active routing id and both halves of \<open>users\<close>.\<close>

definition active_routing :: "int \<Rightarrow> store \<Rightarrow> routing_row option" where
  "active_routing user_id st = fetch_optional (\<lambda>r. ro_user_id r = user_id \<and> ro_active r) (routing_ids (usr st))"

definition account_view :: "store \<Rightarrow> profile_row \<Rightarrow> user_account_view option" where
  "account_view st p =
     (case (users (qdb st) (pr_id p), active_routing (pr_id p) st) of
        (Some u, Some r) \<Rightarrow>
          if deleted_at u = None
          then Some \<lparr>ua_username = pr_username p, ua_id = pr_id p, ua_email = pr_email p,
            ua_display_name = pr_display_name p, ua_disabled = disabled u, ua_routing_id = ro_routing_id r,
            ua_routing_rotated_at = ro_created_at r, ua_created_at = pr_created_at p,
            ua_updated_at = pr_updated_at p\<rparr>
          else None
      | _ \<Rightarrow> None)"

definition list_users :: "store \<Rightarrow> user_account_view list" where
  "list_users st = filter_map (account_view st) (profiles (usr st))"

definition user_account :: "int \<Rightarrow> store \<Rightarrow> user_account_view option" where
  "user_account user_id st =
     Option.bind (fetch_optional (\<lambda>p. pr_id p = user_id) (profiles (usr st))) (account_view st)"

definition user_by_email :: "string \<Rightarrow> store \<Rightarrow> user_account_view option" where
  "user_by_email email st =
     Option.bind (fetch_optional (\<lambda>p. pr_email p = normalize_email email) (profiles (usr st))) (account_view st)"

definition touch_profile :: "int \<Rightarrow> int \<Rightarrow> store \<Rightarrow> store" where
  "touch_profile now user_id st = st\<lparr>usr := (usr st)\<lparr>profiles :=
     update_where (\<lambda>p. pr_id p = user_id) (\<lambda>p. p\<lparr>pr_updated_at := now\<rparr>) (profiles (usr st))\<rparr>\<rparr>"

definition delete_user_sessions :: "int \<Rightarrow> store \<Rightarrow> store" where
  "delete_user_sessions user_id st =
     set_user_sessions (delete_where (\<lambda>s. us_user_id s = user_id) (user_sessions (usr st))) st"

definition bool_text :: "bool \<Rightarrow> string" where
  "bool_text b = (if b then ''true'' else ''false'')"

definition set_user_disabled :: "int \<Rightarrow> string \<Rightarrow> int \<Rightarrow> bool \<Rightarrow> store \<Rightarrow> bool \<times> store" where
  "set_user_disabled now actor user_id dis st =
     (case users (qdb st) user_id of
        None \<Rightarrow> (False, st)
      | Some u \<Rightarrow>
          if deleted_at u \<noteq> None then (False, st)
          else
            (let st1 = touch_profile now user_id (set_users ((users (qdb st))(user_id \<mapsto> u\<lparr>disabled := dis\<rparr>)) st);
                 st2 = (if dis then delete_user_sessions user_id st1 else st1)
             in (True, log_audit now actor ''user_status_changed''
                   (''user_id='' @ dec_of_int user_id @ ''; disabled='' @ bool_text dis) st2)))"

definition revoke_routing :: "int \<Rightarrow> int \<Rightarrow> routing_row list \<Rightarrow> routing_row list" where
  "revoke_routing now user_id rows =
     update_where (\<lambda>r. ro_user_id r = user_id \<and> ro_active r)
       (\<lambda>r. r\<lparr>ro_active := False, ro_revoked_at := Some now\<rparr>) rows"

definition soft_delete_user :: "int \<Rightarrow> string \<Rightarrow> int \<Rightarrow> store \<Rightarrow> bool \<times> store" where
  "soft_delete_user now actor user_id st =
     (case users (qdb st) user_id of
        None \<Rightarrow> (False, st)
      | Some u \<Rightarrow>
          if deleted_at u \<noteq> None then (False, st)
          else
            (let st1 = touch_profile now user_id
                   (set_users ((users (qdb st))(user_id \<mapsto> u\<lparr>disabled := True, deleted_at := Some now\<rparr>)) st);
                 st2 = delete_user_sessions user_id st1;
                 st3 = set_routing (revoke_routing now user_id (routing_ids (usr st2))) st2;
                 st4 = st3\<lparr>qdb := (qdb st3)\<lparr>
                   group_members := delete_where (\<lambda>m. m_user_id m = user_id) (group_members (qdb st3)),
                   user_quota_overrides := (user_quota_overrides (qdb st3))(user_id := None)\<rparr>\<rparr>
             in (True, log_audit now actor ''user_soft_deleted'' (''user_id='' @ dec_of_int user_id) st4)))"

definition rotate_user_routing_id ::
  "sqids \<Rightarrow> (nat \<Rightarrow> nat) \<Rightarrow> int \<Rightarrow> string \<Rightarrow> int \<Rightarrow> nat \<Rightarrow> nat \<Rightarrow> bool \<Rightarrow> store \<Rightarrow> routing_rotation_outcome account_result"
where
  "rotate_user_routing_id encode rng now actor user_id routing_min_length cooldown_hours bypass_cooldown st =
     (if \<not> live_user user_id (qdb st) then (Inr NotFound, st)
      else case active_routing user_id st of
        None \<Rightarrow> (Inr NotFound, st)
      | Some r \<Rightarrow>
          (let allowed_at = i64_sat (ro_created_at r + int cooldown_hours * 60 * 60) in
           if \<not> bypass_cooldown \<and> now < allowed_at
           then (Inr (Cooldown (nat (i64_sat (allowed_at - now)))), st)
           else
             (case insert_unique_routing_id encode rng user_id routing_min_length now
                     (revoke_routing now user_id (routing_ids (usr st))) of
                None \<Rightarrow> (Inl NoRoutingId, st)
              | Some (routing_id, rows) \<Rightarrow>
                  (Inr (Rotated routing_id),
                   log_audit now actor ''user_routing_id_rotated'' (''user_id='' @ dec_of_int user_id)
                     (set_routing rows st)))))"

definition user_by_routing_id :: "string \<Rightarrow> store \<Rightarrow> user_routing_identity option" where
  "user_by_routing_id routing_id st =
     map_option (\<lambda>r. \<lparr>ri_user_id = ro_user_id r, ri_routing_id = ro_routing_id r\<rparr>)
       (fetch_optional (\<lambda>r. eq_ignore_ascii_case (ro_routing_id r) routing_id \<and> ro_active r
          \<and> active_user (ro_user_id r) (qdb st)) (routing_ids (usr st)))"

section \<open>Sessions\<close>

definition user_identity_of :: "profile_row \<Rightarrow> user_identity" where
  "user_identity_of p = \<lparr>un_user_id = pr_id p, un_email = pr_email p, un_display_name = pr_display_name p\<rparr>"

definition profile_of :: "int \<Rightarrow> store \<Rightarrow> profile_row option" where
  "profile_of user_id st = fetch_optional (\<lambda>p. pr_id p = user_id) (profiles (usr st))"

definition authenticate_user_session :: "crypto \<Rightarrow> int \<Rightarrow> string \<Rightarrow> store \<Rightarrow> user_identity option \<times> store" where
  "authenticate_user_session K now token st =
     (let row = Option.bind
            (fetch_optional (\<lambda>s. us_token_hash s = hash_token K token \<and> us_expires_at s > now
               \<and> active_user (us_user_id s) (qdb st)) (user_sessions (usr st)))
            (\<lambda>s. profile_of (us_user_id s) st)
      in case row of
           None \<Rightarrow> (None, st)
         | Some p \<Rightarrow>
             (Some (user_identity_of p),
              set_user_sessions (update_where (\<lambda>s. us_token_hash s = hash_token K token)
                (\<lambda>s. s\<lparr>us_last_used_at := now\<rparr>) (user_sessions (usr st))) st))"

definition logout_user :: "crypto \<Rightarrow> string \<Rightarrow> store \<Rightarrow> store" where
  "logout_user K token st =
     set_user_sessions (delete_where (\<lambda>s. us_token_hash s = hash_token K token) (user_sessions (usr st))) st"

definition create_user_session ::
  "crypto \<Rightarrow> int \<Rightarrow> string \<Rightarrow> int \<Rightarrow> string \<Rightarrow> store \<Rightarrow> user_session option account_result" where
  "create_user_session K now token user_id auth_method st =
     (if \<not> active_user user_id (qdb st) then (Inr None, st)
      else case profile_of user_id st of
        None \<Rightarrow> (Inr None, st)
      | Some p \<Rightarrow>
          if \<exists>s\<in>set (user_sessions (usr st)). us_token_hash s = hash_token K token then (Inl ConstraintFailed, st)
          else
            (Inr (Some \<lparr>ue_token = token, ue_expires_at = now + USER_SESSION_LIFETIME_SECS,
                        ue_identity = user_identity_of p\<rparr>),
             set_user_sessions (user_sessions (usr st) @
               [\<lparr>us_token_hash = hash_token K token, us_user_id = user_id, us_auth_method = auth_method,
                 us_created_at = now, us_expires_at = now + USER_SESSION_LIFETIME_SECS, us_last_used_at = now\<rparr>]) st))"

definition audit_user_login :: "int \<Rightarrow> int \<Rightarrow> string \<Rightarrow> store \<Rightarrow> store" where
  "audit_user_login now user_id auth_method st =
     log_audit now (''user:'' @ dec_of_int user_id) ''user_login_succeeded'' (''method='' @ auth_method) st"

section \<open>External identities and sign-in flows\<close>

record external_registration =
  er_actor :: string
  er_email :: string
  er_display_name :: string
  er_routing_min_length :: nat
  er_provider_slug :: string
  er_provider_subject :: string
  er_invitation_id :: "int option"

definition identity_exists :: "string \<Rightarrow> string \<Rightarrow> store \<Rightarrow> bool" where
  "identity_exists provider subject st \<longleftrightarrow>
     (\<exists>i\<in>set (user_identities (usr st)). ui_provider_id i = provider \<and> ui_provider_subject i = subject)"

definition insert_identity ::
  "int \<Rightarrow> int \<Rightarrow> string \<Rightarrow> string \<Rightarrow> string option \<Rightarrow> bool \<Rightarrow> store \<Rightarrow> store" where
  "insert_identity now user_id provider subject email verified st =
     (let ident = user_identities_seq (usr st) + 1 in
      st\<lparr>usr := (usr st)\<lparr>user_identities_seq := ident, user_identities := user_identities (usr st) @
        [\<lparr>ui_id = ident, ui_user_id = user_id, ui_provider_id = provider, ui_provider_subject = subject,
          ui_email = email, ui_email_verified = verified, ui_created_at = now, ui_updated_at = now\<rparr>]\<rparr>\<rparr>)"

definition pending_invitation :: "int \<Rightarrow> int \<Rightarrow> string \<Rightarrow> invitation_row \<Rightarrow> bool" where
  "pending_invitation now ident email v \<longleftrightarrow>
     in_id v = ident \<and> in_email v = email \<and> in_status v = ''pending'' \<and> in_expires_at v > now"

definition accept_invitation_rows :: "int \<Rightarrow> (invitation_row \<Rightarrow> bool) \<Rightarrow> store \<Rightarrow> store" where
  "accept_invitation_rows now p st = st\<lparr>mail := (mail st)\<lparr>email_invitations :=
     update_where p (\<lambda>v. v\<lparr>in_status := ''accepted'', in_accepted_at := Some now\<rparr>) (email_invitations (mail st))\<rparr>\<rparr>"

definition create_user_with_external_identity ::
  "sqids \<Rightarrow> (nat \<Rightarrow> nat) \<Rightarrow> int \<Rightarrow> external_registration \<Rightarrow> store \<Rightarrow> user_account_view option account_result" where
  "create_user_with_external_identity encode rng now reg st =
     (let email = normalize_email (er_email reg) in
      case insert_user now email (er_display_name reg) st of
        None \<Rightarrow> (Inr None, st)
      | Some (user_id, st1) \<Rightarrow>
          (case insert_unique_routing_id encode rng user_id (er_routing_min_length reg) now (routing_ids (usr st1)) of
             None \<Rightarrow> (Inl NoRoutingId, st)
           | Some (routing_id, rows) \<Rightarrow>
               if identity_exists (er_provider_slug reg) (er_provider_subject reg) st then (Inl ConstraintFailed, st)
               else
                 (let st2 = insert_identity now user_id (er_provider_slug reg) (er_provider_subject reg)
                              (Some email) True (set_routing rows st1);
                      accepted = (case er_invitation_id reg of
                          None \<Rightarrow> Some st2
                        | Some ident \<Rightarrow>
                            if affected (pending_invitation now ident email) (email_invitations (mail st2)) \<noteq> 1 then None
                            else Some (accept_invitation_rows now (pending_invitation now ident email) st2))
                  in case accepted of
                       None \<Rightarrow> (Inl InvitationInvalid, st)
                     | Some st3 \<Rightarrow>
                         (Inr (Some (new_account now user_id email (er_display_name reg) routing_id)),
                          log_audit now (er_actor reg) ''user_identity_bound''
                            (''user_id='' @ dec_of_int user_id @ ''; provider='' @ er_provider_slug reg)
                            (log_audit now (er_actor reg) ''user_created'' (''user_id='' @ dec_of_int user_id) st3)))))"

definition user_by_external_identity :: "string \<Rightarrow> string \<Rightarrow> store \<Rightarrow> user_account_view option" where
  "user_by_external_identity provider_slug subject st =
     find_map (\<lambda>i. if eq_ignore_ascii_case (ui_provider_id i) provider_slug \<and> ui_provider_subject i = subject
                   then user_account (ui_user_id i) st else None)
       (user_identities (usr st))"

definition bind_external_identity ::
  "int \<Rightarrow> string \<Rightarrow> int \<Rightarrow> string \<Rightarrow> string \<Rightarrow> string option \<Rightarrow> bool \<Rightarrow> store \<Rightarrow> bool account_result" where
  "bind_external_identity now actor user_id provider_slug subject email email_verified st =
     (if identity_exists provider_slug subject st
      then (case fetch_optional (\<lambda>i. eq_ignore_ascii_case (ui_provider_id i) provider_slug
                   \<and> ui_provider_subject i = subject) (user_identities (usr st)) of
              None \<Rightarrow> (Inl ConstraintFailed, st)
            | Some owner \<Rightarrow> (Inr (ui_user_id owner = user_id), st))
      else if users (qdb st) user_id = None then (Inl ConstraintFailed, st)
      else (Inr True,
            log_audit now actor ''user_identity_bound''
              (''user_id='' @ dec_of_int user_id @ ''; provider='' @ provider_slug)
              (insert_identity now user_id provider_slug subject (map_option normalize_email email) email_verified st)))"

definition delete_external_identity :: "int \<Rightarrow> string \<Rightarrow> int \<Rightarrow> int \<Rightarrow> store \<Rightarrow> bool \<times> store" where
  "delete_external_identity now actor user_id identity_id st =
     (let p = (\<lambda>i. ui_id i = identity_id \<and> ui_user_id i = user_id) in
      if affected p (user_identities (usr st)) = 0 then (False, st)
      else (True, log_audit now actor ''user_identity_unbound''
              (''user_id='' @ dec_of_int user_id @ ''; identity_id='' @ dec_of_int identity_id)
              (st\<lparr>usr := (usr st)\<lparr>user_identities := delete_where p (user_identities (usr st))\<rparr>\<rparr>)))"

definition external_identity_count :: "int \<Rightarrow> store \<Rightarrow> nat" where
  "external_identity_count user_id st = affected (\<lambda>i. ui_user_id i = user_id) (user_identities (usr st))"

text \<open>\<open>fk_ok\<close> is whether the rows a flow refers to exist; \<open>sealed\<close> is what sealing its payload
  returned, and \<open>unseal\<close> opens it again.\<close>

definition store_user_auth_flow ::
  "crypto \<Rightarrow> int \<Rightarrow> bool \<Rightarrow> string \<Rightarrow> int \<Rightarrow> string option \<Rightarrow> string \<Rightarrow> int option \<Rightarrow> int \<Rightarrow> store \<Rightarrow> unit account_result"
where
  "store_user_auth_flow K now fk_ok state provider_id sealed mode user_id expires_at st =
     (let kept = delete_where (\<lambda>f. fl_expires_at f \<le> now \<or> fl_used_at f \<noteq> None) (user_auth_flows (usr st));
          st1 = st\<lparr>usr := (usr st)\<lparr>user_auth_flows := kept\<rparr>\<rparr>
      in case sealed of
           None \<Rightarrow> (Inl HashFailed, st1)
         | Some payload \<Rightarrow>
             if \<not> fk_ok \<or> (\<exists>f\<in>set kept. fl_state_hash f = hash_token K state) then (Inl ConstraintFailed, st1)
             else (Inr (), st1\<lparr>usr := (usr st1)\<lparr>user_auth_flows := kept @
                    [\<lparr>fl_state_hash = hash_token K state, fl_provider_id = provider_id, fl_payload = payload,
                      fl_mode = mode, fl_user_id = user_id, fl_expires_at = expires_at, fl_used_at = None\<rparr>]\<rparr>\<rparr>))"

definition take_user_auth_flow ::
  "crypto \<Rightarrow> (string \<Rightarrow> string option) \<Rightarrow> int \<Rightarrow> string \<Rightarrow> store \<Rightarrow> stored_auth_flow option account_result" where
  "take_user_auth_flow K unseal now state st =
     (case fetch_optional (\<lambda>f. fl_state_hash f = hash_token K state \<and> fl_expires_at f > now \<and> fl_used_at f = None)
             (user_auth_flows (usr st)) of
        None \<Rightarrow> (Inr None, st)
      | Some f \<Rightarrow>
          (let p = (\<lambda>f. fl_state_hash f = hash_token K state \<and> fl_used_at f = None) in
           if affected p (user_auth_flows (usr st)) \<noteq> 1 then (Inr None, st)
           else
             (let st1 = st\<lparr>usr := (usr st)\<lparr>user_auth_flows :=
                    update_where p (\<lambda>f. f\<lparr>fl_used_at := Some now\<rparr>) (user_auth_flows (usr st))\<rparr>\<rparr>
              in case unseal (fl_payload f) of
                   None \<Rightarrow> (Inl StoredConfigInvalid, st1)
                 | Some payload \<Rightarrow>
                     (Inr (Some \<lparr>sf_provider_id = fl_provider_id f, sf_payload = payload, sf_mode = fl_mode f,
                                 sf_user_id = fl_user_id f\<rparr>), st1))))"

section \<open>Histories of operations\<close>

datatype user_op =
    CreateUser "nat \<Rightarrow> nat" string string string nat
  | RegisterExternal "nat \<Rightarrow> nat" external_registration
  | SetDisabled string int bool
  | SoftDelete string int
  | Rotate "nat \<Rightarrow> nat" string int nat nat bool
  | OpenSession string int string
  | UseSession string
  | CloseSession string
  | BindIdentity string int string string "string option" bool
  | UnbindIdentity string int int

fun user_step :: "crypto \<Rightarrow> sqids \<Rightarrow> int \<Rightarrow> user_op \<Rightarrow> store \<Rightarrow> store" where
  "user_step K Q now (CreateUser rng actor email name len) st = snd (create_user Q rng now actor email name len st)"
| "user_step K Q now (RegisterExternal rng reg) st = snd (create_user_with_external_identity Q rng now reg st)"
| "user_step K Q now (SetDisabled actor u dis) st = snd (set_user_disabled now actor u dis st)"
| "user_step K Q now (SoftDelete actor u) st = snd (soft_delete_user now actor u st)"
| "user_step K Q now (Rotate rng actor u len hours bypass) st =
     snd (rotate_user_routing_id Q rng now actor u len hours bypass st)"
| "user_step K Q now (OpenSession token u m) st = snd (create_user_session K now token u m st)"
| "user_step K Q now (UseSession token) st = snd (authenticate_user_session K now token st)"
| "user_step K Q now (CloseSession token) st = logout_user K token st"
| "user_step K Q now (BindIdentity actor u provider subject email verified) st =
     snd (bind_external_identity now actor u provider subject email verified st)"
| "user_step K Q now (UnbindIdentity actor u i) st = snd (delete_external_identity now actor u i st)"

fun user_effect :: "crypto \<Rightarrow> int \<Rightarrow> user_op \<Rightarrow> store \<Rightarrow> int session_effect" where
  "user_effect K now (SetDisabled actor u dis) st =
     (if fst (set_user_disabled now actor u dis st) \<and> dis then Revoke (\<lambda>_ v. v = u) else Keep)"
| "user_effect K now (SoftDelete actor u) st =
     (if fst (soft_delete_user now actor u st) then Revoke (\<lambda>_ v. v = u) else Keep)"
| "user_effect K now (OpenSession token u m) st =
     (case fst (create_user_session K now token u m st) of
        Inr (Some s) \<Rightarrow> Grant (hash_token K token) u (ue_expires_at s) | _ \<Rightarrow> Keep)"
| "user_effect K now (CloseSession token) st = Revoke (\<lambda>h _. h = hash_token K token)"
| "user_effect K now _ st = Keep"

definition member_sessions :: "store \<Rightarrow> int session set" where
  "member_sessions st = (\<lambda>s. (us_token_hash s, us_user_id s, us_expires_at s)) ` set (user_sessions (usr st))"

lemma usr_simps [simp]:
  "usr (set_users u st) = usr st" "qdb (set_users u st) = (qdb st)\<lparr>users := u\<rparr>"
  "usr (set_routing rows st) = (usr st)\<lparr>routing_ids := rows\<rparr>" "qdb (set_routing rows st) = qdb st"
  "usr (set_user_sessions ss st) = (usr st)\<lparr>user_sessions := ss\<rparr>" "qdb (set_user_sessions ss st) = qdb st"
  "mail (set_users u st) = mail st" "mail (set_routing rows st) = mail st" "mail (set_user_sessions ss st) = mail st"
  by (simp_all add: set_users_def set_routing_def set_user_sessions_def)

lemma touch_simps [simp]:
  "routing_ids (usr (touch_profile now u st)) = routing_ids (usr st)"
  "user_sessions (usr (touch_profile now u st)) = user_sessions (usr st)"
  "qdb (touch_profile now u st) = qdb st"
  "users_seq (usr (touch_profile now u st)) = users_seq (usr st)"
  by (simp_all add: touch_profile_def)

lemma insert_user_frame:
  "insert_user now email name st = Some (u, st') \<Longrightarrow>
     u = users_seq (usr st) + 1 \<and> routing_ids (usr st') = routing_ids (usr st)
     \<and> user_sessions (usr st') = user_sessions (usr st)
     \<and> users (qdb st') = (users (qdb st))(u \<mapsto> \<lparr>disabled = False, deleted_at = None\<rparr>)
     \<and> users_seq (usr st') = u
     \<and> map pr_id (profiles (usr st')) = map pr_id (profiles (usr st)) @ [u]
     \<and> map pr_email (profiles (usr st')) = map pr_email (profiles (usr st)) @ [email]
     \<and> email \<notin> pr_email ` set (profiles (usr st))"
  by (auto simp: insert_user_def Let_def split: if_splits)

lemma insert_identity_frame [simp]:
  "routing_ids (usr (insert_identity now u p s e v st)) = routing_ids (usr st)"
  "user_sessions (usr (insert_identity now u p s e v st)) = user_sessions (usr st)"
  "profiles (usr (insert_identity now u p s e v st)) = profiles (usr st)"
  "users_seq (usr (insert_identity now u p s e v st)) = users_seq (usr st)"
  "qdb (insert_identity now u p s e v st) = qdb st"
  "mail (insert_identity now u p s e v st) = mail st"
  by (simp_all add: insert_identity_def Let_def)

lemma accept_rows_frame [simp]:
  "usr (accept_invitation_rows now p st) = usr st" "qdb (accept_invitation_rows now p st) = qdb st"
  by (simp_all add: accept_invitation_rows_def)

lemma member_sessions_usr: "user_sessions (usr st) = user_sessions (usr st') \<Longrightarrow> member_sessions st = member_sessions st'"
  by (simp add: member_sessions_def)

lemma user_step_effect:
  "prunes now (apply_effect (user_effect K now op st) (member_sessions st)) (member_sessions (user_step K Q now op st))"
proof (cases op)
  case (CreateUser rng a e n l)
  then show ?thesis
    by (auto simp: create_user_def Let_def member_sessions_def dest!: insert_user_frame split: option.splits)
next
  case (RegisterExternal rng reg)
  then show ?thesis
    by (auto simp: create_user_with_external_identity_def Let_def member_sessions_def
        dest!: insert_user_frame split: option.splits)
next
  case (SetDisabled a u d)
  then show ?thesis
    by (auto simp: set_user_disabled_def delete_user_sessions_def Let_def member_sessions_def prunes_def
        split: option.splits)
next
  case (SoftDelete a u)
  then show ?thesis
    by (auto simp: soft_delete_user_def delete_user_sessions_def Let_def member_sessions_def prunes_def
        split: option.splits)
next
  case (Rotate rng a u l h b)
  then show ?thesis
    by (auto simp: rotate_user_routing_id_def Let_def member_sessions_def split: option.splits)
next
  case (OpenSession t u m)
  then show ?thesis
    by (auto simp: create_user_session_def member_sessions_def split: option.splits)
next
  case (UseSession t)
  then show ?thesis
    by (auto simp: authenticate_user_session_def Let_def member_sessions_def image_update_where split: option.splits)
next
  case (CloseSession t)
  then show ?thesis by (auto simp: logout_user_def member_sessions_def prunes_def)
next
  case (BindIdentity a u p s e v)
  then show ?thesis by (auto simp: bind_external_identity_def member_sessions_def split: option.splits)
next
  case (UnbindIdentity a u i)
  then show ?thesis by (auto simp: delete_external_identity_def Let_def member_sessions_def)
qed

interpretation user_sessions: session_service member_sessions "user_effect K" "user_step K Q"
  by unfold_locales (rule user_step_effect)

section \<open>The schema\<close>

text \<open>The unique indexes of \<open>user_routing_ids\<close>, and that no id is a reserved label.\<close>

definition folded_id :: "routing_row \<Rightarrow> string" where
  "folded_id r = to_ascii_lowercase (ro_routing_id r)"

definition routing_ok :: "routing_row list \<Rightarrow> bool" where
  "routing_ok rows \<longleftrightarrow> distinct (map folded_id rows) \<and> distinct (map ro_user_id (filter ro_active rows))
     \<and> (\<forall>r\<in>set rows. \<not> is_reserved_routing_id (ro_routing_id r))"

definition user_schema_ok :: "store \<Rightarrow> bool" where
  "user_schema_ok st \<longleftrightarrow>
     distinct (map pr_id (profiles (usr st))) \<and> distinct (map pr_email (profiles (usr st))) \<and>
     (\<forall>u\<in>pr_id ` set (profiles (usr st)). u \<le> users_seq (usr st)) \<and>
     dom (users (qdb st)) = pr_id ` set (profiles (usr st)) \<and>
     routing_ok (routing_ids (usr st)) \<and>
     (\<forall>r\<in>set (routing_ids (usr st)). ro_user_id r \<in> dom (users (qdb st))) \<and>
     distinct (map us_token_hash (user_sessions (usr st))) \<and>
     (\<forall>s\<in>set (user_sessions (usr st)). us_user_id s \<in> dom (users (qdb st))) \<and>
     (\<forall>u. live_user u (qdb st) \<longrightarrow> (\<exists>r\<in>set (routing_ids (usr st)). ro_user_id r = u \<and> ro_active r))"

lemma user_schemaD:
  assumes "user_schema_ok st"
  shows "dom (users (qdb st)) = pr_id ` set (profiles (usr st))" "routing_ok (routing_ids (usr st))"
    "r \<in> set (routing_ids (usr st)) \<Longrightarrow> ro_user_id r \<in> dom (users (qdb st))"
    "s \<in> set (user_sessions (usr st)) \<Longrightarrow> us_user_id s \<in> dom (users (qdb st))"
    "live_user u (qdb st) \<Longrightarrow> \<exists>r\<in>set (routing_ids (usr st)). ro_user_id r = u \<and> ro_active r"
  using assms unfolding user_schema_ok_def by blast+

lemma routing_attempts_row:
  "routing_attempts encode draws u len now rows = Some (rid, rows') \<Longrightarrow>
    \<exists>row. rows' = rows @ [row] \<and> ro_user_id row = u \<and> ro_active row \<and> ro_routing_id row = rid
      \<and> \<not> is_reserved_routing_id rid \<and> \<not> routing_conflict row rows"
  by (induction encode draws u len now rows rule: routing_attempts.induct)
    (auto simp: Let_def split: option.splits if_splits)

lemma insert_routing_row:
  "insert_unique_routing_id encode rng u len now rows = Some (rid, rows') \<Longrightarrow>
    \<exists>row. rows' = rows @ [row] \<and> ro_user_id row = u \<and> ro_active row \<and> ro_routing_id row = rid
      \<and> \<not> is_reserved_routing_id rid \<and> \<not> routing_conflict row rows"
  unfolding insert_unique_routing_id_def by (rule routing_attempts_row)

lemma routing_ok_append:
  "routing_ok rows \<Longrightarrow> ro_active row \<Longrightarrow> \<not> is_reserved_routing_id (ro_routing_id row) \<Longrightarrow> \<not> routing_conflict row rows
    \<Longrightarrow> routing_ok (rows @ [row])"
  by (auto simp: routing_ok_def routing_conflict_def folded_id_def eq_ignore_ascii_case_def)

lemma revoke_routing_rows:
  "set (revoke_routing now u rows) =
     (\<lambda>r. if ro_user_id r = u \<and> ro_active r then r\<lparr>ro_active := False, ro_revoked_at := Some now\<rparr> else r) ` set rows"
  by (simp add: revoke_routing_def set_update_where)

lemma active_revoked:
  "filter ro_active (revoke_routing now u rows) = filter (\<lambda>r. ro_active r \<and> ro_user_id r \<noteq> u) rows"
  by (induction rows) (auto simp: revoke_routing_def update_where_def)

lemma routing_ok_revoke: "routing_ok rows \<Longrightarrow> routing_ok (revoke_routing now u rows)"
proof -
  assume ok: "routing_ok rows"
  have "map folded_id (revoke_routing now u rows) = map folded_id rows"
    unfolding revoke_routing_def by (auto simp: update_where_def folded_id_def)
  moreover have "distinct (map ro_user_id (filter (\<lambda>r. ro_active r \<and> ro_user_id r \<noteq> u) rows))"
    using ok distinct_map_filter[of ro_user_id "filter ro_active rows" "\<lambda>r. ro_user_id r \<noteq> u"]
    by (simp add: routing_ok_def)
  ultimately show ?thesis
    using ok unfolding routing_ok_def active_revoked revoke_routing_rows by auto
qed

text \<open>Operations that leave the routing ids, the status columns and the ids alone.\<close>

lemma user_schema_frame:
  assumes "user_schema_ok st" and "routing_ids (usr st') = routing_ids (usr st)"
    and "users (qdb st') = users (qdb st)" and "users_seq (usr st') = users_seq (usr st)"
    and "map pr_id (profiles (usr st')) = map pr_id (profiles (usr st))"
    and "map pr_email (profiles (usr st')) = map pr_email (profiles (usr st))"
    and "distinct (map us_token_hash (user_sessions (usr st')))"
    and "us_user_id ` set (user_sessions (usr st')) \<subseteq> dom (users (qdb st))"
  shows "user_schema_ok st'"
proof -
  have "pr_id ` set (profiles (usr st')) = pr_id ` set (profiles (usr st))"
    using arg_cong[OF assms(5), of set] by simp
  then show ?thesis
    using assms unfolding user_schema_ok_def live_user_def by (auto simp del: set_map)
qed

lemma live_user_upd:
  "live_user v (d\<lparr>users := (users d)(u \<mapsto> row)\<rparr>) = (if v = u then deleted_at row = None else live_user v d)"
  by (simp add: live_user_def)

text \<open>A new user together with a first routing id.\<close>

lemma user_schema_new:
  assumes ok: "user_schema_ok st"
    and ins: "insert_user now email name st = Some (u, st1)"
    and rid: "insert_unique_routing_id Q rng u len now (routing_ids (usr st1)) = Some (rid, rows)"
  shows "user_schema_ok (set_routing rows st1)"
proof -
  note f = insert_user_frame[OF ins]
  obtain row where row: "rows = routing_ids (usr st) @ [row]" "ro_user_id row = u" "ro_active row"
      "ro_routing_id row = rid" "\<not> is_reserved_routing_id rid" "\<not> routing_conflict row (routing_ids (usr st))"
    using insert_routing_row[OF rid] f by auto
  have "set (map pr_id (profiles (usr st1))) = set (map pr_id (profiles (usr st)) @ [u])"
    using f by presburger
  then have ids: "pr_id ` set (profiles (usr st1)) = insert u (pr_id ` set (profiles (usr st)))"
    by simp
  have new: "u \<notin> pr_id ` set (profiles (usr st))"
    using ok f by (force simp: user_schema_ok_def)
  have "distinct (map pr_id (profiles (usr st1)))" "distinct (map pr_email (profiles (usr st1)))"
    using ok f new by (simp_all add: user_schema_ok_def)
  moreover have "routing_ok rows"
    using ok row unfolding row(1) by (intro routing_ok_append) (auto simp: user_schema_ok_def)
  moreover have "live_user v (qdb st1) \<longrightarrow> (\<exists>r\<in>set rows. ro_user_id r = v \<and> ro_active r)" for v
    using ok f row by (auto simp: user_schema_ok_def live_user_def split: if_splits)
  moreover have "dom (users (qdb st1)) = insert u (pr_id ` set (profiles (usr st)))"
    using ok f by (auto simp: user_schema_ok_def)
  moreover have "\<forall>v\<in>insert u (pr_id ` set (profiles (usr st))). v \<le> u"
    using ok f by (fastforce simp: user_schema_ok_def)
  moreover have "distinct (map us_token_hash (user_sessions (usr st1)))"
    "\<forall>s\<in>set (user_sessions (usr st1)). us_user_id s \<in> insert u (pr_id ` set (profiles (usr st)))"
    "\<forall>r\<in>set rows. ro_user_id r \<in> insert u (pr_id ` set (profiles (usr st)))"
    using ok f row by (auto simp: user_schema_ok_def)
  ultimately show ?thesis
    using f ids by (simp add: user_schema_ok_def)
qed

lemma profiles_touch [simp]:
  "map pr_id (profiles (usr (touch_profile now u st))) = map pr_id (profiles (usr st))"
  "map pr_email (profiles (usr (touch_profile now u st))) = map pr_email (profiles (usr st))"
  by (auto simp: touch_profile_def update_where_def)

lemma ids_touch [simp]: "pr_id ` set (profiles (usr (touch_profile now u st))) = pr_id ` set (profiles (usr st))"
  by (simp add: touch_profile_def image_update_where)

text \<open>A change of the status columns, with the sessions and routing ids that go with it.\<close>

lemma user_schema_status:
  assumes ok: "user_schema_ok st" and "users (qdb st) u = Some row"
    and "users (qdb st') = (users (qdb st))(u \<mapsto> row')"
    and "users_seq (usr st') = users_seq (usr st)"
    and "map pr_id (profiles (usr st')) = map pr_id (profiles (usr st))"
    and "map pr_email (profiles (usr st')) = map pr_email (profiles (usr st))"
    and "set (user_sessions (usr st')) \<subseteq> set (user_sessions (usr st))"
    and "distinct (map us_token_hash (user_sessions (usr st')))"
    and "routing_ok (routing_ids (usr st'))" and "ro_user_id ` set (routing_ids (usr st')) \<subseteq> pr_id ` set (profiles (usr st))"
    and live: "\<And>v. live_user v (qdb st\<lparr>users := (users (qdb st))(u \<mapsto> row')\<rparr>) \<Longrightarrow>
      \<exists>r\<in>set (routing_ids (usr st')). ro_user_id r = v \<and> ro_active r"
  shows "user_schema_ok st'"
proof -
  note okd = ok[unfolded user_schema_ok_def]
  have ids: "pr_id ` set (profiles (usr st')) = pr_id ` set (profiles (usr st))"
    using arg_cong[OF assms(5), of set] by simp
  have d: "dom (users (qdb st')) = dom (users (qdb st))"
    using assms(2) by (auto simp: assms(3))
  have "\<forall>v. live_user v (qdb st') \<longrightarrow> (\<exists>r\<in>set (routing_ids (usr st')). ro_user_id r = v \<and> ro_active r)"
    using live by (simp add: live_user_def assms(3))
  moreover have "\<forall>s\<in>set (user_sessions (usr st')). us_user_id s \<in> dom (users (qdb st))"
    using user_schemaD(4)[OF ok] assms(7) by blast
  moreover have "\<forall>r\<in>set (routing_ids (usr st')). ro_user_id r \<in> dom (users (qdb st))"
    unfolding user_schemaD(1)[OF ok] using assms(10) by blast
  ultimately show ?thesis
    unfolding user_schema_ok_def assms(4,5,6) ids d using okd assms(8,9) by (elim conjE, intro conjI)
qed

lemma user_schema_step:
  assumes ok: "user_schema_ok st"
  shows "user_schema_ok (user_step K Q now op st)"
proof (cases op)
  case (CreateUser rng a e n l)
  have "user_schema_ok (log_audit now a act d x) = user_schema_ok x" for act d x
    by (simp add: user_schema_ok_def live_user_def)
  then show ?thesis
    using ok by (auto simp: CreateUser create_user_def Let_def intro: user_schema_new split: option.splits)
next
  case (RegisterExternal rng reg)
  have log: "user_schema_ok (log_audit now a act d x) = user_schema_ok x" for a act d x
    by (simp add: user_schema_ok_def live_user_def)
  have more: "user_schema_ok (insert_identity now u p s e v x) = user_schema_ok x"
    "user_schema_ok (accept_invitation_rows now q x) = user_schema_ok x" for u p s e v q x
    by (simp_all add: user_schema_ok_def)
  show ?thesis
    using ok by (auto simp: RegisterExternal create_user_with_external_identity_def Let_def log more
        intro: user_schema_new split: option.splits)
next
  case (SetDisabled a u d)
  show ?thesis
  proof (cases "users (qdb st) u")
    case (Some row)
    have live: "\<exists>r\<in>set (routing_ids (usr st)). ro_user_id r = v \<and> ro_active r"
      if "live_user v (qdb st\<lparr>users := (users (qdb st))(u \<mapsto> row\<lparr>disabled := d\<rparr>)\<rparr>)" "deleted_at row = None" for v
      using ok that Some by (auto simp: user_schema_ok_def live_user_def split: if_splits)
    show ?thesis
      using ok Some live
      by (auto simp: SetDisabled set_user_disabled_def Let_def delete_user_sessions_def
          intro!: user_schema_status[OF ok Some, where row' = "row\<lparr>disabled := d\<rparr>"])
        (auto simp: user_schema_ok_def)
  qed (use ok in \<open>simp add: SetDisabled set_user_disabled_def\<close>)
next
  case (SoftDelete a u)
  show ?thesis
  proof (cases "users (qdb st) u")
    case (Some row)
    have live: "\<exists>r\<in>set (revoke_routing now u (routing_ids (usr st))). ro_user_id r = v \<and> ro_active r"
      if "live_user v (qdb st\<lparr>users := (users (qdb st))(u \<mapsto> row\<lparr>disabled := True, deleted_at := Some now\<rparr>)\<rparr>)" for v
      using ok that by (force simp: user_schema_ok_def live_user_def revoke_routing_rows split: if_splits)
    have rows: "routing_ok (revoke_routing now u (routing_ids (usr st)))"
      "ro_user_id ` set (revoke_routing now u (routing_ids (usr st))) \<subseteq> pr_id ` set (profiles (usr st))"
      using ok by (auto simp: user_schema_ok_def revoke_routing_rows intro: routing_ok_revoke)
    show ?thesis
      using ok Some live rows
      by (auto simp: SoftDelete soft_delete_user_def Let_def delete_user_sessions_def
          intro!: user_schema_status[OF ok Some, where row' = "row\<lparr>disabled := True, deleted_at := Some now\<rparr>"])
        (auto simp: user_schema_ok_def)
  qed (use ok in \<open>simp add: SoftDelete soft_delete_user_def\<close>)
next
  case (Rotate rng a u l h b)
  have new: "user_schema_ok (set_routing rows st)"
    if live: "live_user u (qdb st)"
      and ins: "insert_unique_routing_id Q rng u l now (revoke_routing now u (routing_ids (usr st))) = Some (rid, rows)"
    for rid rows
  proof -
    obtain row where row: "rows = revoke_routing now u (routing_ids (usr st)) @ [row]" "ro_user_id row = u"
        "ro_active row" "\<not> is_reserved_routing_id (ro_routing_id row)"
        "\<not> routing_conflict row (revoke_routing now u (routing_ids (usr st)))"
      using insert_routing_row[OF ins] by auto
    have "routing_ok rows"
      using ok row unfolding row(1) by (intro routing_ok_append routing_ok_revoke) (auto simp: user_schema_ok_def)
    moreover have "\<exists>r\<in>set rows. ro_user_id r = v \<and> ro_active r" if lv: "live_user v (qdb st)" for v
    proof -
      obtain r where "r \<in> set (routing_ids (usr st))" "ro_user_id r = v" "ro_active r"
        using user_schemaD(5)[OF ok lv] by blast
      then show ?thesis using row(1-3) by (cases "v = u") (auto simp: revoke_routing_rows image_iff)
    qed
    moreover have "\<forall>r\<in>set rows. ro_user_id r \<in> dom (users (qdb st))"
      using user_schemaD(3)[OF ok] live row(1,2) by (auto simp: revoke_routing_rows live_user_def split: option.splits)
    ultimately show ?thesis
      using ok user_schemaD(4)[OF ok] unfolding user_schema_ok_def usr_simps by simp
  qed
  have "user_schema_ok (log_audit now a act d x) = user_schema_ok x" for act d x
    by (simp add: user_schema_ok_def live_user_def)
  then show ?thesis
    using ok by (auto simp: Rotate rotate_user_routing_id_def Let_def intro: new split: option.splits)
next
  case (OpenSession t u m)
  have "u \<in> dom (users (qdb st))" if "active_user u (qdb st)"
    using that by (auto simp: active_user_def split: option.splits)
  then show ?thesis
    using ok by (auto simp: OpenSession create_user_session_def user_schema_ok_def split: option.splits)
next
  case (UseSession t)
  show ?thesis
    using ok by (auto simp: UseSession authenticate_user_session_def Let_def user_schema_ok_def
        map_update_where set_update_where split: option.splits)
next
  case (CloseSession t)
  show ?thesis
    using ok by (auto simp: CloseSession logout_user_def user_schema_ok_def)
next
  case (BindIdentity a u p s e v)
  show ?thesis
    using ok by (auto simp: BindIdentity bind_external_identity_def
        intro!: user_schema_frame[OF ok] split: option.splits) (auto simp: user_schema_ok_def)
next
  case (UnbindIdentity a u i)
  show ?thesis
    using ok by (auto simp: UnbindIdentity delete_external_identity_def Let_def
        intro!: user_schema_frame[OF ok]) (auto simp: user_schema_ok_def)
qed

section \<open>Properties\<close>

lemma authenticate_user_iff:
  assumes ok: "user_schema_ok st"
  shows "fst (authenticate_user_session K now token st) = Some i \<longleftrightarrow>
    (\<exists>u e p. (hash_token K token, u, e) \<in> member_sessions st \<and> e > now \<and> active_user u (qdb st)
       \<and> profile_of u st = Some p \<and> i = user_identity_of p)" (is "?l \<longleftrightarrow> ?r")
proof
  assume ?l
  then obtain s p where "s \<in> set (user_sessions (usr st))" "us_token_hash s = hash_token K token"
      "us_expires_at s > now" "active_user (us_user_id s) (qdb st)" "profile_of (us_user_id s) st = Some p"
      "i = user_identity_of p"
    by (auto simp: authenticate_user_session_def Let_def bind_eq_Some_conv
        dest!: fetch_optional_Some split: option.splits)
  then show ?r
    unfolding member_sessions_def
    by (intro exI conjI, intro image_eqI[of _ _ s]) auto
next
  assume ?r
  then obtain s p where s: "s \<in> set (user_sessions (usr st))" "us_token_hash s = hash_token K token"
      "us_expires_at s > now" "active_user (us_user_id s) (qdb st)"
      and p: "profile_of (us_user_id s) st = Some p" "i = user_identity_of p"
    by (auto simp: member_sessions_def)
  have "fetch_optional (\<lambda>s. us_token_hash s = hash_token K token \<and> us_expires_at s > now
      \<and> active_user (us_user_id s) (qdb st)) (user_sessions (usr st)) = Some s"
    using ok s by (intro unique_row[of us_token_hash]) (auto simp: user_schema_ok_def)
  then show ?l using p by (simp add: authenticate_user_session_def Let_def)
qed

text \<open>User sessions refine a ledger that forgets nothing.  After any history of account
  operations at times that do not go backwards, a token authenticates exactly when it was
  issued, is younger than thirty days, was not closed, and its account was neither disabled
  nor deleted since; it then yields the account it was issued for.  Disabling an account
  ends its sessions for good: enabling it again does not bring them back.\<close>

theorem user_sessions_refine_ledger:
  assumes "user_schema_ok st0" and "user_sessions (usr st0) = []"
    and "sorted (map fst ops)" and "\<forall>t\<in>set (map fst ops). t \<le> now"
    and "st = run_ops (user_step K Q) ops st0"
  shows "(fst (authenticate_user_session K now token st) = Some i \<longleftrightarrow>
      (\<exists>u e p. (hash_token K token, u, e) \<in> granted (user_effect K) (user_step K Q) ops st0 {}
         \<and> e > now \<and> active_user u (qdb st) \<and> profile_of u st = Some p \<and> i = user_identity_of p))
    \<and> user_schema_ok st"
proof -
  have ok: "user_schema_ok st"
    unfolding assms(5) using user_schema_step assms(1) by (rule run_ops_invariant)
  have "(h, u, e) \<in> granted (user_effect K) (user_step K Q) ops st0 {} \<longleftrightarrow> (h, u, e) \<in> member_sessions st"
    if "e > now" for h u e
    unfolding assms(5) using assms(2-4) that by (intro user_sessions.live_sessions) (auto simp: member_sessions_def)
  then show ?thesis
    using ok unfolding authenticate_user_iff[OF ok] by blast
qed

text \<open>An id stays bound to the user it was given to; only its active flag is cleared.\<close>

definition keeps_routing :: "routing_row list \<Rightarrow> routing_row list \<Rightarrow> bool" where
  "keeps_routing rows rows' \<longleftrightarrow> (\<forall>r\<in>set rows. \<exists>r'\<in>set rows'. ro_user_id r' = ro_user_id r
     \<and> ro_routing_id r' = ro_routing_id r \<and> (ro_active r' \<longrightarrow> ro_active r))"

lemma keeps_routing_refl [simp]: "keeps_routing rows rows"
  by (auto simp: keeps_routing_def)

lemma keeps_routing_append [simp]: "keeps_routing rows rows' \<Longrightarrow> keeps_routing rows (rows' @ extra)"
  by (auto simp: keeps_routing_def)

lemma keeps_routing_revoke [simp]: "keeps_routing rows (revoke_routing now u rows)"
  unfolding keeps_routing_def revoke_routing_rows
proof
  fix r
  assume "r \<in> set rows"
  then show "\<exists>r'\<in>(\<lambda>r. if ro_user_id r = u \<and> ro_active r
        then r\<lparr>ro_active := False, ro_revoked_at := Some now\<rparr> else r) ` set rows.
      ro_user_id r' = ro_user_id r \<and> ro_routing_id r' = ro_routing_id r \<and> (ro_active r' \<longrightarrow> ro_active r)"
    by (intro bexI[OF _ imageI[of r]]) auto
qed

lemma keeps_routing_trans: "keeps_routing a b \<Longrightarrow> keeps_routing b c \<Longrightarrow> keeps_routing a c"
  unfolding keeps_routing_def by metis

lemma user_step_keeps_routing:
  "keeps_routing (routing_ids (usr st)) (routing_ids (usr (user_step K Q now op st)))"
proof (cases op)
  case (CreateUser rng a e n l)
  then show ?thesis
    by (auto simp: create_user_def Let_def dest!: insert_user_frame insert_routing_row split: option.splits)
next
  case (RegisterExternal rng reg)
  then show ?thesis
    by (auto simp: create_user_with_external_identity_def Let_def dest!: insert_user_frame insert_routing_row
        split: option.splits)
next
  case (SetDisabled a u d)
  then show ?thesis by (auto simp: set_user_disabled_def delete_user_sessions_def Let_def split: option.splits)
next
  case (SoftDelete a u)
  then show ?thesis by (auto simp: soft_delete_user_def delete_user_sessions_def Let_def split: option.splits)
next
  case (Rotate rng a u l h b)
  then show ?thesis
    by (auto simp: rotate_user_routing_id_def Let_def dest!: insert_routing_row split: option.splits)
qed (auto simp: create_user_session_def authenticate_user_session_def logout_user_def bind_external_identity_def
      delete_external_identity_def Let_def split: option.splits)

lemma run_keeps_routing:
  "keeps_routing (routing_ids (usr st)) (routing_ids (usr (run_ops (user_step K Q) ops st)))"
proof (induction ops arbitrary: st)
  case (Cons p ops)
  obtain now op where p: "p = (now, op)" by (cases p)
  show ?case
    unfolding p run_ops_simps by (rule keeps_routing_trans[OF user_step_keeps_routing Cons.IH])
qed simp

lemma user_by_routing_id_iff:
  assumes "user_schema_ok st"
  shows "user_by_routing_id l st = Some i \<longleftrightarrow>
    (\<exists>r\<in>set (routing_ids (usr st)). folded_id r = to_ascii_lowercase l \<and> ro_active r
       \<and> active_user (ro_user_id r) (qdb st) \<and> i = \<lparr>ri_user_id = ro_user_id r, ri_routing_id = ro_routing_id r\<rparr>)"
    (is "?l \<longleftrightarrow> ?r")
proof
  assume ?l
  then show ?r
    by (auto simp: user_by_routing_id_def eq_ignore_ascii_case_def folded_id_def dest!: fetch_optional_Some)
next
  assume ?r
  then obtain r where r: "r \<in> set (routing_ids (usr st))" "folded_id r = to_ascii_lowercase l" "ro_active r"
      "active_user (ro_user_id r) (qdb st)" "i = \<lparr>ri_user_id = ro_user_id r, ri_routing_id = ro_routing_id r\<rparr>" by blast
  have "fetch_optional (\<lambda>r. eq_ignore_ascii_case (ro_routing_id r) l \<and> ro_active r
      \<and> active_user (ro_user_id r) (qdb st)) (routing_ids (usr st)) = Some r"
    using user_schemaD(2)[OF assms] r
    by (intro unique_row[of folded_id]) (auto simp: routing_ok_def eq_ignore_ascii_case_def folded_id_def)
  then show ?l using r(5) by (simp add: user_by_routing_id_def)
qed

lemma folded_id_unique:
  assumes "user_schema_ok st" and "r \<in> set (routing_ids (usr st))" and "r' \<in> set (routing_ids (usr st))"
    and "folded_id r = folded_id r'"
  shows "r = r'"
  using user_schemaD(2)[OF assms(1)] assms(2-4) by (auto simp: routing_ok_def distinct_map inj_on_def)

text \<open>C16: A subdomain never changes hands.  Whatever happens to accounts between two moments,
  an id that resolves at both resolves to the same user, in any letter case; an id that was
  rotated away or whose user was deleted resolves to nobody from then on.  And at every
  moment each active user is reached by the current id, which is no reserved label.\<close>

theorem routing_ids_never_reassigned:
  assumes "user_schema_ok st0" and "st = run_ops (user_step K Q) before st0"
    and "st' = run_ops (user_step K Q) after st"
  shows "(\<forall>l i i'. user_by_routing_id l st = Some i \<and> user_by_routing_id l st' = Some i'
            \<longrightarrow> ri_user_id i' = ri_user_id i)
    \<and> (\<forall>r l. r \<in> set (routing_ids (usr st)) \<and> \<not> ro_active r \<and> eq_ignore_ascii_case (ro_routing_id r) l
            \<longrightarrow> user_by_routing_id l st' = None)
    \<and> (\<forall>u. active_user u (qdb st) \<longrightarrow> (\<exists>r. active_routing u st = Some r \<and> \<not> is_reserved_routing_id (ro_routing_id r)
            \<and> user_by_routing_id (ro_routing_id r) st = Some \<lparr>ri_user_id = u, ri_routing_id = ro_routing_id r\<rparr>))"
proof (intro conjI allI impI)
  have ok: "user_schema_ok st" and ok': "user_schema_ok st'"
    unfolding assms(2,3) using user_schema_step assms(1) by (blast intro: run_ops_invariant)+
  have keeps: "keeps_routing (routing_ids (usr st)) (routing_ids (usr st'))"
    unfolding assms(3) by (rule run_keeps_routing)
  { fix l i i'
    assume "user_by_routing_id l st = Some i \<and> user_by_routing_id l st' = Some i'"
    then obtain r r' where r: "r \<in> set (routing_ids (usr st))" "folded_id r = to_ascii_lowercase l"
        "ri_user_id i = ro_user_id r"
        and r': "r' \<in> set (routing_ids (usr st'))" "folded_id r' = to_ascii_lowercase l" "ri_user_id i' = ro_user_id r'"
      unfolding user_by_routing_id_iff[OF ok] user_by_routing_id_iff[OF ok'] by auto
    obtain k where "k \<in> set (routing_ids (usr st'))" "ro_user_id k = ro_user_id r" "folded_id k = folded_id r"
      using keeps r(1) by (auto simp: keeps_routing_def folded_id_def)
    then show "ri_user_id i' = ri_user_id i"
      using folded_id_unique[OF ok', of k r'] r r' by simp }
  { fix r l
    assume a: "r \<in> set (routing_ids (usr st)) \<and> \<not> ro_active r \<and> eq_ignore_ascii_case (ro_routing_id r) l"
    then obtain k where k: "k \<in> set (routing_ids (usr st'))" "\<not> ro_active k" "folded_id k = to_ascii_lowercase l"
      using keeps by (fastforce simp: keeps_routing_def folded_id_def eq_ignore_ascii_case_def)
    have "user_by_routing_id l st' \<noteq> Some i" for i
      unfolding user_by_routing_id_iff[OF ok'] using k folded_id_unique[OF ok' k(1)] by metis
    then show "user_by_routing_id l st' = None" by auto }
  { fix u
    assume act: "active_user u (qdb st)"
    then have "live_user u (qdb st)" by (auto simp: active_user_def live_user_def split: option.splits)
    then obtain r where "r \<in> set (routing_ids (usr st))" "ro_user_id r = u" "ro_active r"
      using user_schemaD(5)[OF ok] by blast
    then obtain k where k: "active_routing u st = Some k" "k \<in> set (routing_ids (usr st))" "ro_user_id k = u" "ro_active k"
      by (cases "active_routing u st") (auto simp: active_routing_def fetch_optional_None dest: fetch_optional_Some)
    moreover have "\<not> is_reserved_routing_id (ro_routing_id k)"
      using user_schemaD(2)[OF ok] k(2) by (simp add: routing_ok_def)
    moreover have "user_by_routing_id (ro_routing_id k) st = Some \<lparr>ri_user_id = u, ri_routing_id = ro_routing_id k\<rparr>"
      unfolding user_by_routing_id_iff[OF ok] using k act by (auto simp: folded_id_def)
    ultimately show "\<exists>r. active_routing u st = Some r \<and> \<not> is_reserved_routing_id (ro_routing_id r)
        \<and> user_by_routing_id (ro_routing_id r) st = Some \<lparr>ri_user_id = u, ri_routing_id = ro_routing_id r\<rparr>"
      by blast }
qed

definition toy_sqids :: sqids where
  "toy_sqids len n = Some (''u'' @ dec_of_nat n)"

definition sample_user_history :: "(int \<times> user_op) list" where
  "sample_user_history =
     [(1, CreateUser (\<lambda>_. 7) ''root'' '' A@x.org'' ''a'' 6), (2, OpenSession ''t1'' 1 ''email''),
      (3, CreateUser (\<lambda>n. n + 7) ''root'' ''b@x.org'' ''b'' 6), (4, OpenSession ''t2'' 2 ''email''),
      (5, SetDisabled ''root'' 1 True), (6, SetDisabled ''root'' 1 False),
      (7, Rotate (\<lambda>_. 9) ''root'' 1 6 24 True)]"

lemma empty_user_schema: "user_schema_ok empty_store" "user_sessions (usr empty_store) = []"
  by (simp_all add: user_schema_ok_def empty_store_def empty_database_def routing_ok_def live_user_def)

lemma sample_user_grants:
  "granted (user_effect toy_crypto) (user_step toy_crypto toy_sqids) sample_user_history empty_store {}
     = {(''ht2'', 2, 2592004)}"
  by code_simp

theorem routing_ids_never_reassigned_witness:
  "user_by_routing_id ''U7'' (run_ops (user_step toy_crypto toy_sqids) [(8, SoftDelete ''root'' 2)]
       (run_ops (user_step toy_crypto toy_sqids) sample_user_history empty_store)) = None
   \<and> user_by_routing_id ''u8'' (run_ops (user_step toy_crypto toy_sqids) sample_user_history empty_store)
       = Some \<lparr>ri_user_id = 2, ri_routing_id = ''u8''\<rparr>"
proof -
  let ?st = "run_ops (user_step toy_crypto toy_sqids) sample_user_history empty_store"
  note r = routing_ids_never_reassigned[OF empty_user_schema(1) refl refl, of toy_crypto toy_sqids
      sample_user_history "[(8, SoftDelete ''root'' 2)]"]
  let ?row = "\<lparr>ro_user_id = 1, ro_public_number = 7, ro_routing_id = ''u7'', ro_active = False,
      ro_created_at = 1, ro_revoked_at = Some 7\<rparr>"
  have "?row \<in> set (routing_ids (usr ?st)) \<and> \<not> ro_active ?row \<and> eq_ignore_ascii_case (ro_routing_id ?row) ''U7''"
    by code_simp
  moreover have "active_user 2 (qdb ?st)" "map_option ro_routing_id (active_routing 2 ?st) = Some ''u8''"
    by code_simp+
  ultimately show ?thesis using r[THEN conjunct2] by fastforce
qed

end
