(* ===== verification/Admission.thy ===== *)
theory Admission
  imports Routing Traffic Rate_Limiting Ip_Access User_Accounts Config_Defaults Http_Types
begin

text \<open>
  The middlewares a request passes before a handler runs (\<open>main.rs\<close>): browser cookies per
  transport and security headers, stripping of forwarding headers from untrusted peers,
  CSRF protection, user subdomains, and admission (rate limit, IP policy, team policy and
  quota reservation).

  A service maps a request and the application state to a response and a state; the
  response is \<open>None\<close> when the handling task panics.  A middleware maps the inner service to the
  outer one, as \<open>Next\<close> does.  Metrics and log lines are not modelled, except the reasons of
  rejections.  The CORS layer of \<open>tower_http\<close> answers preflights and adds response headers; it
  stands outside the part modelled here.
\<close>

section \<open>Requests, responses and state\<close>

record connection_diagnostics =
  cd_peer_ip :: "ip_addr option"
  cd_trusted_proxy :: bool
  cd_forwarded_https :: bool
  cd_effective_https :: bool

record http_request =
  hr_method :: http_method
  hr_path :: string
  hr_scheme :: "string option"
  hr_headers :: header_map
  hr_peer :: "ip_addr option"
  hr_https_transport :: bool
  hr_user :: "user_routing_identity option"
  hr_diagnostics :: "connection_diagnostics option"

datatype reply_body = JsonObject "(string \<times> string) list" | HandlerBody string

record http_response =
  hs_status :: nat
  hs_headers :: header_map
  hs_body :: reply_body
  hs_traffic :: "proxy_traffic option"

record app_state =
  ap_config :: config
  ap_ip_access_policy :: ip_access_policy
  ap_rate_limiter :: rate_limiter
  ap_store :: store
  ap_tasks :: "proxy_traffic_record list"
  ap_rejections :: "string list"

type_synonym service = "http_request \<Rightarrow> app_state \<Rightarrow> http_response option \<times> app_state"

text \<open>What a request depends on outside the program: the clock, the calendar in a time zone,
  the GeoIP database, URL and authority parsing, and the MAC library.\<close>

record adm_env =
  ae_now :: instant
  ae_period :: "string \<Rightarrow> string \<times> string"
  ae_geo :: "ip_addr \<Rightarrow> geo_location"
  ae_urls :: url_lib
  ae_authority :: "string \<Rightarrow> (string \<times> nat option) option"
  ae_hex_encode :: "string \<Rightarrow> string"
  ae_hex_decode :: "string \<Rightarrow> string option"
  ae_hmac_sha256 :: "string \<Rightarrow> string \<Rightarrow> string"

definition json_error :: "nat \<Rightarrow> header_map \<Rightarrow> (string \<times> string) list \<Rightarrow> http_response" where
  "json_error status headers members = \<lparr>hs_status = status, hs_headers = headers, hs_body = JsonObject members,
     hs_traffic = None\<rparr>"

definition bad_request_response :: "string \<Rightarrow> http_response" where
  "bad_request_response error = json_error 400 [] [(''error'', error)]"

definition unknown_user_subdomain_response :: http_response where
  "unknown_user_subdomain_response = json_error 404 [] [(''error'', ''user subdomain is unavailable'')]"

section \<open>Header helpers\<close>

definition ADMIN_SESSION_COOKIE :: string where
  "ADMIN_SESSION_COOKIE = ''mirrorproxy_admin_session''"

definition ADMIN_CSRF_COOKIE :: string where
  "ADMIN_CSRF_COOKIE = ''__Host-mirrorproxy_admin_csrf''"

definition USER_SESSION_COOKIE :: string where
  "USER_SESSION_COOKIE = ''mirrorproxy_user_session''"

definition USER_CSRF_COOKIE :: string where
  "USER_CSRF_COOKIE = ''__Host-mirrorproxy_user_csrf''"

definition CSRF_HEADER :: string where
  "CSRF_HEADER = ''x-mirrorproxy-csrf''"

definition CSRF_CONTEXT :: string where
  "CSRF_CONTEXT = ''MirrorProxy browser CSRF token v1''"

definition HTTP_BROWSER_COOKIES :: "(string \<times> string) list" where
  "HTTP_BROWSER_COOKIES =
     [(ADMIN_SESSION_COOKIE, ''mirrorproxy_admin_session_http''), (ADMIN_CSRF_COOKIE, ''mirrorproxy_admin_csrf_http''),
      (USER_SESSION_COOKIE, ''mirrorproxy_user_session_http''), (USER_CSRF_COOKIE, ''mirrorproxy_user_csrf_http'')]"

definition header_value :: "header_map \<Rightarrow> string \<Rightarrow> string option" where
  "header_value headers name = opt_filter (\<lambda>v. v \<noteq> []) (map_option trim (hdr_str headers name))"

definition forwarded_header_value :: "header_map \<Rightarrow> string \<Rightarrow> string option" where
  "forwarded_header_value headers name =
     opt_filter (\<lambda>v. v \<noteq> []) (map_option (\<lambda>v. trim (hd (split_on (CHR '','') v))) (hdr_str headers name))"

definition cookie_value :: "header_map \<Rightarrow> string \<Rightarrow> string option" where
  "cookie_value headers name =
     Option.bind (hdr_str headers ''cookie'') (\<lambda>v.
       find_map (\<lambda>item. case split_once (CHR ''='') (trim item) of
           Some (cookie_name, cookie) \<Rightarrow> if cookie_name = name \<and> cookie \<noteq> [] then Some cookie else None
         | None \<Rightarrow> None) (split_on (CHR '';'') v))"

definition bearer_token :: "header_map \<Rightarrow> string option" where
  "bearer_token headers =
     opt_filter (\<lambda>t. t \<noteq> []) (Option.bind (hdr_str headers ''authorization'') (strip_prefix ''Bearer ''))"

definition admin_token :: "header_map \<Rightarrow> string option" where
  "admin_token headers = opt_or (cookie_value headers ADMIN_SESSION_COOKIE) (bearer_token headers)"

definition user_token :: "header_map \<Rightarrow> string option" where
  "user_token headers = cookie_value headers USER_SESSION_COOKIE"

section \<open>Security headers and browser cookies\<close>

definition request_uses_https :: "http_request \<Rightarrow> config \<Rightarrow> bool" where
  "request_uses_https request c =
     (if hr_https_transport request \<or> hr_scheme request = Some ''https'' then True
      else is_some_and (config_trusts c) (hr_peer request)
        \<and> is_some_and (\<lambda>scheme. eq_ignore_ascii_case scheme ''https'')
             (forwarded_header_value (hr_headers request) ''x-forwarded-proto''))"

text \<open>The inner loop over the cookie names: the first name of the table that matches decides.\<close>

fun transport_cookie :: "bool \<Rightarrow> string \<Rightarrow> string \<Rightarrow> (string \<times> string) list \<Rightarrow> string option" where
  "transport_cookie secure name v [] = Some (name @ ''='' @ v)"
| "transport_cookie secure name v ((https_name, http_name) # rest) =
     (if name = https_name then (if secure then Some (name @ ''='' @ v) else None)
      else if name = http_name then (if \<not> secure then Some (https_name @ ''='' @ v) else None)
      else transport_cookie secure name v rest)"

definition normalized_pairs :: "header_map \<Rightarrow> bool \<Rightarrow> string list" where
  "normalized_pairs headers secure =
     filter_map (\<lambda>pair. Option.bind (split_once (CHR ''='') (trim pair))
         (\<lambda>(name, v). transport_cookie secure name v HTTP_BROWSER_COOKIES))
       (concat (map (split_on (CHR '';'')) (filter_map to_str (hdr_get_all headers ''cookie''))))"

definition normalize_browser_session_cookies :: "bool \<Rightarrow> header_map \<Rightarrow> header_map" where
  "normalize_browser_session_cookies secure headers =
     (let cookies = join ''; '' (normalized_pairs headers secure); rest = hdr_remove ''cookie'' headers
      in if cookies \<noteq> [] then hdr_insert ''cookie'' cookies rest else rest)"

definition http_cookie :: "string \<Rightarrow> string" where
  "http_cookie cookie =
     (case Option.bind (to_str cookie) (\<lambda>c. find_map (\<lambda>(https_name, http_name).
             map_option (Pair http_name) (Option.bind (strip_prefix https_name c) (strip_prefix ''='')))
           HTTP_BROWSER_COOKIES) of
        None \<Rightarrow> cookie
      | Some (http_name, v) \<Rightarrow>
          http_name @ ''='' @ join '';'' (filter (\<lambda>a. \<not> eq_ignore_ascii_case (trim a) ''secure'') (split_on (CHR '';'') v)))"

definition adapt_http_browser_cookies :: "header_map \<Rightarrow> header_map" where
  "adapt_http_browser_cookies headers =
     fold (\<lambda>c h. hdr_append ''set-cookie'' c h) (map http_cookie (hdr_get_all headers ''set-cookie''))
       (hdr_remove ''set-cookie'' headers)"

text \<open>The two long policy values are arguments.\<close>

definition security_headers_middleware :: "string \<Rightarrow> string \<Rightarrow> service \<Rightarrow> service" where
  "security_headers_middleware csp permissions next request st =
     (let secure = request_uses_https request (ap_config st);
          request' = request\<lparr>hr_headers := normalize_browser_session_cookies secure (hr_headers request)\<rparr>
      in case next request' st of
           (None, st') \<Rightarrow> (None, st')
         | (Some response, st') \<Rightarrow>
             (let h0 = (if \<not> secure then adapt_http_browser_cookies (hs_headers response) else hs_headers response);
                  h1 = hdr_insert ''permissions-policy'' permissions
                    (hdr_insert ''referrer-policy'' ''strict-origin-when-cross-origin''
                    (hdr_insert ''x-content-type-options'' ''nosniff''
                    (hdr_insert ''x-frame-options'' ''DENY''
                    (hdr_insert ''content-security-policy'' csp h0))));
                  h2 = (if secure then hdr_insert ''strict-transport-security'' ''max-age=63072000'' h1
                        else hdr_remove ''strict-transport-security'' h1)
              in (Some (response\<lparr>hs_headers := h2\<rparr>), st')))"

section \<open>Forwarding headers, CSRF and user subdomains\<close>

definition strip_untrusted_forwarded_headers :: "service \<Rightarrow> service" where
  "strip_untrusted_forwarded_headers next request st =
     (let trusted = is_some_and (config_trusts (ap_config st)) (hr_peer request);
          diagnostics = \<lparr>cd_peer_ip = hr_peer request, cd_trusted_proxy = trusted,
            cd_forwarded_https = is_some_and (\<lambda>scheme. eq_ignore_ascii_case scheme ''https'')
              (forwarded_header_value (hr_headers request) ''x-forwarded-proto''),
            cd_effective_https = request_uses_https request (ap_config st)\<rparr>;
          request1 = request\<lparr>hr_diagnostics := Some diagnostics\<rparr>;
          headers = hr_headers request1
      in next (if trusted then request1
               else request1\<lparr>hr_headers := hdr_remove ''x-real-ip'' (hdr_remove ''x-forwarded-for''
                  (hdr_remove ''x-forwarded-proto'' (hdr_remove ''x-forwarded-host'' headers)))\<rparr>) st)"

definition request_has_same_origin :: "adm_env \<Rightarrow> header_map \<Rightarrow> bool" where
  "request_has_same_origin E headers =
     (case Option.bind (opt_or (header_value headers ''origin'') (header_value headers ''referer''))
             (url_parse (ae_urls E)) of
        None \<Rightarrow> False
      | Some url \<Rightarrow>
          if u_scheme url \<notin> set [''http'', ''https''] \<or> u_username url \<noteq> [] \<or> u_password url \<noteq> None \<or> u_host url = None
          then False
          else (case Option.bind (opt_or (forwarded_header_value headers ''x-forwarded-host'') (header_value headers ''host''))
                       (ae_authority E) of
                  None \<Rightarrow> False
                | Some (host, port) \<Rightarrow>
                    if \<not> is_some_and (\<lambda>h. eq_ignore_ascii_case h host) (u_host url)
                       \<or> (case port of Some p \<Rightarrow> u_known_port url \<noteq> Some p | None \<Rightarrow> u_port url \<noteq> None)
                    then False
                    else (case forwarded_header_value headers ''x-forwarded-proto'' of
                            None \<Rightarrow> True
                          | Some scheme \<Rightarrow> eq_ignore_ascii_case scheme (u_scheme url))))"

definition csrf_token :: "adm_env \<Rightarrow> string \<Rightarrow> string" where
  "csrf_token E session_token = ae_hex_encode E (ae_hmac_sha256 E session_token CSRF_CONTEXT)"

definition valid_csrf_header :: "adm_env \<Rightarrow> header_map \<Rightarrow> string \<Rightarrow> bool" where
  "valid_csrf_header E headers session_token =
     (case Option.bind (header_value headers CSRF_HEADER) (ae_hex_decode E) of
        None \<Rightarrow> False
      | Some provided \<Rightarrow> provided = ae_hmac_sha256 E session_token CSRF_CONTEXT)"

text \<open>The session cookie a mutating request is bound to, by its path.\<close>

definition csrf_session :: "http_request \<Rightarrow> string option" where
  "csrf_session request =
     (let path = hr_path request in
      if starts_with path ''/admin/api/''
         \<and> path \<notin> set [''/admin/api/auth/login'', ''/admin/api/auth/passkey/login/start'',
                        ''/admin/api/auth/passkey/login/finish'']
      then cookie_value (hr_headers request) ADMIN_SESSION_COOKIE
      else if starts_with path ''/api/account/'' \<or> path = ''/api/auth/logout''
      then cookie_value (hr_headers request) USER_SESSION_COOKIE
      else None)"

definition csrf_protection_middleware :: "adm_env \<Rightarrow> service \<Rightarrow> service" where
  "csrf_protection_middleware E next request st =
     (if hr_method request \<notin> set [POST, PUT, PATCH, DELETE] then next request st
      else (case csrf_session request of
              None \<Rightarrow> next request st
            | Some session_token \<Rightarrow>
                if \<not> request_has_same_origin E (hr_headers request)
                   \<or> \<not> valid_csrf_header E (hr_headers request) session_token
                then (Some (json_error 403 [] [(''error'', ''invalid CSRF proof''), (''code'', ''csrf_invalid'')]), st)
                else next request st))"

definition request_host :: "adm_env \<Rightarrow> header_map \<Rightarrow> string option" where
  "request_host E headers =
     Option.bind (opt_or (forwarded_header_value headers ''x-forwarded-host'') (header_value headers ''host'')) (\<lambda>host.
     Option.bind (url_parse (ae_urls E) (''http://'' @ host)) (\<lambda>url.
       if u_username url \<noteq> [] \<or> u_password url \<noteq> None \<or> u_path url \<noteq> ''/'' \<or> u_query url \<noteq> None \<or> u_fragment url \<noteq> None
       then None
       else map_option (\<lambda>h. to_ascii_lowercase (trim_end_matches (CHR ''.'') h)) (u_host url)))"

definition is_reserved_user_subdomain :: "string \<Rightarrow> bool" where
  "is_reserved_user_subdomain v \<longleftrightarrow>
     v \<in> set [''www'', ''admin'', ''api'', ''login'', ''account'', ''mail'', ''smtp'', ''status'']"

definition is_user_control_path :: "string \<Rightarrow> bool" where
  "is_user_control_path path \<longleftrightarrow>
     path = ''/login'' \<or> starts_with path ''/login/'' \<or> path = ''/account'' \<or> starts_with path ''/account/''
     \<or> path = ''/admin'' \<or> starts_with path ''/admin/'' \<or> starts_with path ''/api/auth/''
     \<or> starts_with path ''/api/account/''"

definition user_routing_middleware :: "adm_env \<Rightarrow> service \<Rightarrow> service" where
  "user_routing_middleware E next request st =
     (let base_domain = uac_base_domain (cfg_user_access (ap_config st)); path = hr_path request in
      if base_domain = [] then next request st
      else (case request_host E (hr_headers request) of
          None \<Rightarrow> (Some (bad_request_response ''a valid Host header is required''), st)
        | Some host \<Rightarrow>
            if host = base_domain
            then (if uac_mode (cfg_user_access (ap_config st)) = ''subdomain_required'' \<and> is_proxy_path path
                  then (Some (json_error 403 [] [(''error'', ''package proxy requests require an assigned user subdomain'')]), st)
                  else next request st)
            else (case strip_suffix (''.'' @ base_domain) host of
                None \<Rightarrow> (Some (json_error 421 [] [(''error'', ''unrecognized host'')]), st)
              | Some label \<Rightarrow>
                  if label = [] \<or> CHR ''.'' \<in> set label \<or> is_reserved_user_subdomain label \<or> is_user_control_path path
                  then (Some unknown_user_subdomain_response, st)
                  else (case user_by_routing_id label (ap_store st) of
                      Some identity \<Rightarrow> next (request\<lparr>hr_user := Some identity\<rparr>) st
                    | None \<Rightarrow> (Some unknown_user_subdomain_response, st)))))"

section \<open>Admission\<close>

definition QUOTA_RESERVATION_BYTES :: nat where
  "QUOTA_RESERVATION_BYTES = 8 * 1024 * 1024"

definition resolve_client_ip :: "http_request \<Rightarrow> config \<Rightarrow> ip_addr" where
  "resolve_client_ip request c =
     resolve_client_ip_from (cfg_trusted_proxies c) (unwrap_or (V4 0) (hr_peer request))
       (hdr_str (hr_headers request) ''x-forwarded-for'')"

text \<open>\<open>Display\<close> of an address: dotted decimal, or groups of hexadecimal digits with the first
  longest run of at least two zero groups compressed.\<close>

fun hex_of_nat :: "nat \<Rightarrow> string" where
  "hex_of_nat n =
     (let d = (\<lambda>k. if k < 10 then char_of (48 + k) else char_of (87 + k) :: char)
      in if n < 16 then [d n] else hex_of_nat (n div 16) @ [d (n mod 16)])"

declare hex_of_nat.simps [simp del]

definition show_v4 :: "32 word \<Rightarrow> string" where
  "show_v4 a = join ''.'' (map (\<lambda>i. dec_of_nat (octet a i)) [0, 1, 2, 3])"

definition zero_run :: "nat list \<Rightarrow> nat \<Rightarrow> nat" where
  "zero_run segs i = length (takeWhile (\<lambda>s. s = 0) (drop i segs))"

definition longest_zero_run :: "nat list \<Rightarrow> nat \<times> nat" where
  "longest_zero_run segs = foldl (\<lambda>(start, len) i. if zero_run segs i > len then (i, zero_run segs i) else (start, len))
     (0, 0) [0..<length segs]"

definition show_v6 :: "128 word \<Rightarrow> string" where
  "show_v6 a = (case to_ipv4_mapped a of
       Some m \<Rightarrow> ''::ffff:'' @ show_v4 m
     | None \<Rightarrow>
         (let segs = map (segment a) [0..<8]; (start, len) = longest_zero_run segs;
              text = (\<lambda>xs. join '':'' (map hex_of_nat xs))
          in if len > 1 then text (take start segs) @ ''::'' @ text (drop (start + len) segs) else text segs))"

fun show_ip :: "ip_addr \<Rightarrow> string" where
  "show_ip (V4 a) = show_v4 a"
| "show_ip (V6 a) = show_v6 a"

definition http_method_name :: "http_method \<Rightarrow> string" where
  "http_method_name m = (case m of GET \<Rightarrow> ''GET'' | HEAD \<Rightarrow> ''HEAD'' | POST \<Rightarrow> ''POST'' | PUT \<Rightarrow> ''PUT''
     | PATCH \<Rightarrow> ''PATCH'' | DELETE \<Rightarrow> ''DELETE'' | OtherMethod s \<Rightarrow> s)"

definition observe_rejection :: "string \<Rightarrow> app_state \<Rightarrow> app_state" where
  "observe_rejection reason st = st\<lparr>ap_rejections := ap_rejections st @ [reason]\<rparr>"

definition quota_rejection :: "config \<Rightarrow> string \<Rightarrow> app_state \<Rightarrow> http_response option \<times> app_state" where
  "quota_rejection c scope st =
     (let (status, retry) = (if qc_on_exceeded (cfg_quota c) = ''throttle'' then (429, ''60'') else (503, ''3600''))
      in (Some (json_error status [(''retry-after'', retry)]
             [(''error'', ''monthly traffic quota exceeded''), (''scope'', scope)]),
          observe_rejection ''monthly_quota'' st))"

definition set_quota_db :: "database \<Rightarrow> app_state \<Rightarrow> app_state" where
  "set_quota_db db st = st\<lparr>ap_store := (ap_store st)\<lparr>qdb := db\<rparr>\<rparr>"

definition rate_limit_key :: "http_request \<Rightarrow> config \<Rightarrow> string" where
  "rate_limit_key request c = (case hr_user request of
       Some identity \<Rightarrow> ''user:'' @ dec_of_int (ri_user_id identity)
     | None \<Rightarrow> ''ip:'' @ show_ip (resolve_client_ip request c))"

definition gigabytes :: "nat \<Rightarrow> nat" where
  "gigabytes gb = sat_mul gb (1024 * 1024 * 1024)"

definition global_limit :: "config \<Rightarrow> nat option" where
  "global_limit c = (if qc_enabled (cfg_quota c) then Some (gigabytes (qc_monthly_gb (cfg_quota c))) else None)"

definition default_user_limit :: "config \<Rightarrow> nat option" where
  "default_user_limit c = map_option gigabytes (qc_default_user_monthly_gb (cfg_quota c))"

definition accounting_multiplier :: "config \<Rightarrow> nat" where
  "accounting_multiplier c = (if qc_bidirectional_accounting (cfg_quota c) then 2 else 1)"

definition admission_traffic :: "adm_env \<Rightarrow> config \<Rightarrow> string \<Rightarrow> http_request \<Rightarrow> traffic_args" where
  "admission_traffic E c target request =
     (let (day, month) = ae_period E (qc_timezone (cfg_quota c)) in
      \<lparr>ta_day = day, ta_month = month, ta_target_code = target, ta_method = http_method_name (hr_method request),
       ta_path = hr_path request, ta_accounting_multiplier = accounting_multiplier c,
       ta_user_id = map_option ri_user_id (hr_user request),
       ta_request_event_retention_days = qc_request_event_retention_days (cfg_quota c),
       ta_location = ae_geo E (resolve_client_ip request c)\<rparr>)"

text \<open>Running the handler with an armed guard: its panic drops the guard, its response moves the
  guard into the body.\<close>

definition run_tracked :: "service \<Rightarrow> proxy_traffic \<Rightarrow> service" where
  "run_tracked next g request st =
     (case next request st of
        (None, st') \<Rightarrow> (None, st'\<lparr>ap_tasks := ap_tasks st' @ drop_traffic g\<rparr>)
      | (Some response, st') \<Rightarrow>
          (case track_proxy_response (hs_status response) g of
             None \<Rightarrow> (None, st'\<lparr>ap_tasks := ap_tasks st' @ drop_traffic g\<rparr>)
           | Some (g', spawned) \<Rightarrow>
               (Some (response\<lparr>hs_traffic := g'\<rparr>), st'\<lparr>ap_tasks := ap_tasks st' @ spawned\<rparr>)))"

text \<open>The part after the rate limit, for a path of a target.\<close>

definition admit_target :: "adm_env \<Rightarrow> string \<Rightarrow> service \<Rightarrow> service" where
  "admit_target E target next request st =
     (let c = ap_config st; decision = decide (ap_ip_access_policy st) (resolve_client_ip request c) in
      if decision \<noteq> Allow
      then (Some (json_error 403 [] [(''error'', ''access denied by IP policy'')]),
            observe_rejection (if decision = DenyRule then ''ip_deny_rule'' else ''ip_allowlist_required'') st)
      else if is_some_and (\<lambda>identity. \<not> user_target_allowed (ri_user_id identity) target (qdb (ap_store st))) (hr_user request)
      then (Some (json_error 403 [] [(''error'', ''this mirror target is not enabled for the user's team'')]),
            observe_rejection ''team_target_policy'' st)
      else
        (let args = admission_traffic E c target request;
             bytes = sat_mul QUOTA_RESERVATION_BYTES (accounting_multiplier c)
         in case reserve (global_limit c) (default_user_limit c) bytes (ProxyTraffic_new args) (qdb (ap_store st)) of
              (Inr g, db) \<Rightarrow> run_tracked next g request (set_quota_db db st)
            | (Inl (QuotaExceeded scope), db) \<Rightarrow>
                quota_rejection c scope
                  (set_quota_db (if scope = ''global'' \<and> hr_user request \<noteq> None
                                 then mark_month_quota_exceeded (ta_month args) db else db) st)
            | (Inl DatabaseFailed, db) \<Rightarrow> quota_rejection c ''internal'' (set_quota_db db st)))"

definition rate_limit_middleware :: "adm_env \<Rightarrow> service \<Rightarrow> service" where
  "rate_limit_middleware E next request st =
     (let c = ap_config st in
      case proxy_target_for_path (hr_path request) of
        None \<Rightarrow> next request st
      | Some target \<Rightarrow>
          if rlc_enabled (cfg_rate_limit c)
          then (case RateLimiter_check (ap_rate_limiter st) (rate_limit_key request c)
                       (rlc_requests_per_minute (cfg_rate_limit c)) (ae_now E) of
                  (lim, False) \<Rightarrow>
                    (Some (json_error 429 [(''retry-after'', ''60'')] [(''error'', ''rate limit exceeded'')]),
                     observe_rejection ''rate_limit'' (st\<lparr>ap_rate_limiter := lim\<rparr>))
                | (lim, True) \<Rightarrow> admit_target E target next request (st\<lparr>ap_rate_limiter := lim\<rparr>))
          else admit_target E target next request st)"

text \<open>The layers in the order \<open>build_application\<close> stacks them around the router.\<close>

definition guarded :: "adm_env \<Rightarrow> service \<Rightarrow> service" where
  "guarded E router =
     strip_untrusted_forwarded_headers
       (csrf_protection_middleware E (user_routing_middleware E (rate_limit_middleware E router)))"

section \<open>What it takes to reach a handler\<close>

text \<open>A service consults its handler on a request when two handlers can be told apart by it.\<close>

definition consults :: "(service \<Rightarrow> service) \<Rightarrow> http_request \<Rightarrow> app_state \<Rightarrow> bool" where
  "consults layer request st \<longleftrightarrow> (\<exists>h1 h2. layer h1 request st \<noteq> layer h2 request st)"

text \<open>The request behind the stripping of headers.\<close>

definition stripped :: "app_state \<Rightarrow> http_request \<Rightarrow> http_request" where
  "stripped st request =
     (let trusted = is_some_and (config_trusts (ap_config st)) (hr_peer request);
          request1 = request\<lparr>hr_diagnostics := Some \<lparr>cd_peer_ip = hr_peer request, cd_trusted_proxy = trusted,
            cd_forwarded_https = is_some_and (\<lambda>scheme. eq_ignore_ascii_case scheme ''https'')
              (forwarded_header_value (hr_headers request) ''x-forwarded-proto''),
            cd_effective_https = request_uses_https request (ap_config st)\<rparr>\<rparr>
      in if trusted then request1
         else request1\<lparr>hr_headers := hdr_remove ''x-real-ip'' (hdr_remove ''x-forwarded-for''
            (hdr_remove ''x-forwarded-proto'' (hdr_remove ''x-forwarded-host'' (hr_headers request))))\<rparr>)"

lemma strip_passes: "strip_untrusted_forwarded_headers next request st = next (stripped st request) st"
  by (simp add: strip_untrusted_forwarded_headers_def stripped_def Let_def)

lemma stripped_simps [simp]:
  "hr_path (stripped st request) = hr_path request" "hr_user (stripped st request) = hr_user request"
  "hr_peer (stripped st request) = hr_peer request" "hr_method (stripped st request) = hr_method request"
  by (simp_all add: stripped_def Let_def)

lemma hdr_str_remove:
  "hdr_str (hdr_remove n h) m = (if to_ascii_lowercase n = to_ascii_lowercase m then None else hdr_str h m)"
  by (simp add: hdr_str_def hdr_get_remove)

lemma stripped_header:
  assumes "to_ascii_lowercase n \<notin> set [''x-forwarded-host'', ''x-forwarded-proto'', ''x-forwarded-for'', ''x-real-ip'']"
  shows "hdr_str (hr_headers (stripped st request)) n = hdr_str (hr_headers request) n"
proof -
  have "to_ascii_lowercase ''x-forwarded-host'' = ''x-forwarded-host''"
    "to_ascii_lowercase ''x-forwarded-proto'' = ''x-forwarded-proto''"
    "to_ascii_lowercase ''x-forwarded-for'' = ''x-forwarded-for''"
    "to_ascii_lowercase ''x-real-ip'' = ''x-real-ip''" by code_simp+
  with assms show ?thesis by (auto simp: stripped_def Let_def hdr_str_remove)
qed

lemma stripped_untrusted:
  assumes "\<not> is_some_and (config_trusts (ap_config st)) (hr_peer request)"
  shows "forwarded_header_value (hr_headers (stripped st request)) ''x-forwarded-host'' = None"
    and "forwarded_header_value (hr_headers (stripped st request)) ''x-forwarded-proto'' = None"
  using assms by (simp_all add: stripped_def Let_def forwarded_header_value_def hdr_str_remove)

text \<open>The address a request is accounted under: what a trusted proxy vouches for, or the peer.\<close>

definition accounted_ip :: "app_state \<Rightarrow> http_request \<Rightarrow> ip_addr" where
  "accounted_ip st request =
     (if is_some_and (config_trusts (ap_config st)) (hr_peer request)
      then resolve_client_ip request (ap_config st) else unwrap_or (V4 0) (hr_peer request))"

lemma resolve_client_ip_stripped:
  "resolve_client_ip (stripped st request\<lparr>hr_user := u\<rparr>) (ap_config st) = accounted_ip st request"
proof (cases "is_some_and (config_trusts (ap_config st)) (hr_peer request)")
  case True
  then have "hr_headers (stripped st request) = hr_headers request" by (simp add: stripped_def Let_def)
  with True show ?thesis by (simp add: resolve_client_ip_def accounted_ip_def)
next
  case False
  then have "hdr_str (hr_headers (stripped st request)) ''x-forwarded-for'' = None"
    by (simp add: stripped_def Let_def hdr_str_remove)
  with False show ?thesis by (simp add: resolve_client_ip_def accounted_ip_def resolve_client_ip_from_def)
qed

lemma csrf_consults:
  "consults (\<lambda>h. csrf_protection_middleware E (layer h)) request st \<Longrightarrow> consults layer request st"
  by (auto simp: consults_def csrf_protection_middleware_def split: if_splits option.splits)

lemma routing_consults:
  assumes "consults (\<lambda>h. user_routing_middleware E (layer h)) request st" and "hr_user request = None"
    and "is_proxy_path (hr_path request)"
  shows "\<exists>user. consults layer (request\<lparr>hr_user := user\<rparr>) st
    \<and> (uac_base_domain (cfg_user_access (ap_config st)) \<noteq> [] \<longrightarrow>
        (user = None \<and> uac_mode (cfg_user_access (ap_config st)) \<noteq> ''subdomain_required'')
        \<or> (\<exists>label. user = user_by_routing_id label (ap_store st) \<and> user \<noteq> None))"
proof -
  have same: "request\<lparr>hr_user := None\<rparr> = request" using assms(2) by simp
  note d = assms(1)[unfolded consults_def user_routing_middleware_def Let_def]
  show ?thesis
  proof (cases "uac_base_domain (cfg_user_access (ap_config st)) = []")
    case True
    then have "consults layer (request\<lparr>hr_user := None\<rparr>) st" using d by (simp add: consults_def same)
    with True show ?thesis by blast
  next
    case False
    then obtain host where host: "request_host E (hr_headers request) = Some host"
      using d by (cases "request_host E (hr_headers request)") auto
    show ?thesis
    proof (cases "host = uac_base_domain (cfg_user_access (ap_config st))")
      case True
      then have "uac_mode (cfg_user_access (ap_config st)) \<noteq> ''subdomain_required''"
        "consults layer (request\<lparr>hr_user := None\<rparr>) st"
        using d False host assms(3) by (auto simp: consults_def same split: if_splits)
      then show ?thesis by blast
    next
      case other: False
      then obtain label where "strip_suffix (''.'' @ uac_base_domain (cfg_user_access (ap_config st))) host = Some label"
        using d False host by (cases "strip_suffix (''.'' @ uac_base_domain (cfg_user_access (ap_config st))) host") auto
      with d False host other obtain identity where "user_by_routing_id label (ap_store st) = Some identity"
          "consults layer (request\<lparr>hr_user := Some identity\<rparr>) st"
        by (cases "user_by_routing_id label (ap_store st)") (auto simp: consults_def split: if_splits)
      then show ?thesis by (metis option.distinct(1))
    qed
  qed
qed

lemma reserve_result_armed:
  "reserve gl ul n g db = (Inr g', db') \<Longrightarrow> armed g'"
  by (auto simp: reserve_def split: option.splits prod.splits reservation_outcome.splits bool.splits)

lemma admit_consults:
  assumes "consults (\<lambda>h. admit_target E target h) request st"
  shows "decide (ap_ip_access_policy st) (resolve_client_ip request (ap_config st)) = Allow
    \<and> (\<forall>i. hr_user request = Some i \<longrightarrow> user_target_allowed (ri_user_id i) target (qdb (ap_store st)))
    \<and> (\<exists>g db. reserve (global_limit (ap_config st)) (default_user_limit (ap_config st))
          (sat_mul QUOTA_RESERVATION_BYTES (accounting_multiplier (ap_config st)))
          (ProxyTraffic_new (admission_traffic E (ap_config st) target request)) (qdb (ap_store st)) = (Inr g, db))"
proof -
  note d = assms[unfolded consults_def admit_target_def Let_def]
  have 1: "decide (ap_ip_access_policy st) (resolve_client_ip request (ap_config st)) = Allow"
    and 2: "\<not> is_some_and (\<lambda>identity. \<not> user_target_allowed (ri_user_id identity) target (qdb (ap_store st))) (hr_user request)"
    using d by (auto split: if_splits)
  define r where "r = reserve (global_limit (ap_config st)) (default_user_limit (ap_config st))
          (sat_mul QUOTA_RESERVATION_BYTES (accounting_multiplier (ap_config st)))
          (ProxyTraffic_new (admission_traffic E (ap_config st) target request)) (qdb (ap_store st))"
  have "\<exists>g db. r = (Inr g, db)"
    using d 1 2 unfolding r_def[symmetric]
    by (cases r; cases "fst r"; cases "projl (fst r)") auto
  with 1 2 show ?thesis unfolding r_def by (auto simp: is_some_and_iff)
qed

lemma rate_limit_consults:
  assumes "consults (\<lambda>h. rate_limit_middleware E h) request st"
    and "proxy_target_for_path (hr_path request) = Some target"
  shows "(rlc_enabled (cfg_rate_limit (ap_config st)) \<longrightarrow>
      snd (RateLimiter_check (ap_rate_limiter st) (rate_limit_key request (ap_config st))
        (rlc_requests_per_minute (cfg_rate_limit (ap_config st))) (ae_now E)))
    \<and> (\<exists>lim. consults (\<lambda>h. admit_target E target h) request (st\<lparr>ap_rate_limiter := lim\<rparr>))"
proof (cases "rlc_enabled (cfg_rate_limit (ap_config st))")
  case True
  then show ?thesis
    using assms unfolding consults_def rate_limit_middleware_def Let_def
    by (cases "RateLimiter_check (ap_rate_limiter st) (rate_limit_key request (ap_config st))
        (rlc_requests_per_minute (cfg_rate_limit (ap_config st))) (ae_now E)") (auto split: bool.splits)
next
  case False
  have "st\<lparr>ap_rate_limiter := ap_rate_limiter st\<rparr> = st" by simp
  moreover have "consults (\<lambda>h. admit_target E target h) request st"
    using assms False by (simp add: consults_def rate_limit_middleware_def Let_def)
  ultimately show ?thesis using False by metis
qed

section \<open>A sample deployment\<close>

text \<open>The small deployment, no accounts, no IP rules; a MAC and a hexadecimal code of toy
  quality.\<close>

definition sample_env :: adm_env where
  "sample_env = \<lparr>ae_now = 0, ae_period = (\<lambda>_. (''2025-01-01'', ''2025-01'')),
     ae_geo = (\<lambda>_. \<lparr>country = None, province = None, city = None, isp = None, country_code = None\<rparr>),
     ae_urls = plain_url_lib, ae_authority = (\<lambda>s. Some (s, None)),
     ae_hex_encode = (\<lambda>s. s), ae_hex_decode = Some, ae_hmac_sha256 = (\<lambda>k m. k @ ''/'' @ m)\<rparr>"

definition sample_state :: app_state where
  "sample_state = \<lparr>ap_config = small_config, ap_ip_access_policy = \<lparr>allow = [], deny = []\<rparr>,
     ap_rate_limiter = RateLimiter_new, ap_store = empty_store, ap_tasks = [], ap_rejections = []\<rparr>"

definition sample_request :: "http_method \<Rightarrow> string \<Rightarrow> header_map \<Rightarrow> http_request" where
  "sample_request m path headers = \<lparr>hr_method = m, hr_path = path, hr_scheme = None, hr_headers = headers,
     hr_peer = Some (V4 0xC0000201), hr_https_transport = False, hr_user = None, hr_diagnostics = None\<rparr>"

definition answering :: "nat \<Rightarrow> service" where
  "answering status request st =
     (Some \<lparr>hs_status = status, hs_headers = [], hs_body = HandlerBody [], hs_traffic = None\<rparr>, st)"

definition answer_status :: "http_response option \<times> app_state \<Rightarrow> nat option" where
  "answer_status r = map_option hs_status (fst r)"

lemma answers_differ: "answer_status r \<noteq> answer_status r' \<Longrightarrow> r \<noteq> r'"
  by auto

section \<open>Properties\<close>



text \<open>C17: A cookie session changes nothing without proof that the page is ours.  If on a
  mutating request whose path is bound to a session cookie the handler makes any
  difference, then the request names an origin (or referer) of scheme http or https, its
  CSRF header decodes to the MAC of this very session token, and for a peer that is not a
  trusted proxy the origin's host is the one of the \<open>Host\<close> header itself: forwarding headers
  cannot vouch for another.  Conversely the token the server hands out passes the check.\<close>

theorem csrf_proof_required:
  assumes "hr_method request \<in> {POST, PUT, PATCH, DELETE}" and "csrf_session request = Some session_token"
    and "guarded E handler1 request st \<noteq> guarded E handler2 request st"
    and "\<forall>m. ae_hex_decode E (ae_hex_encode E m) = Some m"
  shows "(\<exists>url. Option.bind (opt_or (header_value (hr_headers request) ''origin'') (header_value (hr_headers request) ''referer''))
          (url_parse (ae_urls E)) = Some url \<and> u_scheme url \<in> {''http'', ''https''} \<and> u_username url = []
        \<and> (\<not> is_some_and (config_trusts (ap_config st)) (hr_peer request) \<longrightarrow>
             (\<exists>h host port origin_host. header_value (hr_headers request) ''host'' = Some h \<and> ae_authority E h = Some (host, port)
                \<and> u_host url = Some origin_host \<and> eq_ignore_ascii_case origin_host host)))
    \<and> Option.bind (header_value (hr_headers request) CSRF_HEADER) (ae_hex_decode E)
        = Some (ae_hmac_sha256 E session_token CSRF_CONTEXT)
    \<and> (\<forall>headers s. header_value headers CSRF_HEADER = Some (csrf_token E s) \<longrightarrow> valid_csrf_header E headers s)"
proof -
  let ?h = "hr_headers (stripped st request)"
  have hv: "header_value ?h n = header_value (hr_headers request) n"
    if "to_ascii_lowercase n \<notin> set [''x-forwarded-host'', ''x-forwarded-proto'', ''x-forwarded-for'', ''x-real-ip'']" for n
    using stripped_header[OF that] by (simp add: header_value_def)
  have names: "header_value ?h ''origin'' = header_value (hr_headers request) ''origin''"
    "header_value ?h ''referer'' = header_value (hr_headers request) ''referer''"
    "header_value ?h ''host'' = header_value (hr_headers request) ''host''"
    "header_value ?h CSRF_HEADER = header_value (hr_headers request) CSRF_HEADER"
    by (rule hv, code_simp)+
  have "hdr_str ?h ''cookie'' = hdr_str (hr_headers request) ''cookie''"
    by (rule stripped_header) code_simp
  then have ck: "cookie_value ?h n = cookie_value (hr_headers request) n" for n by (simp add: cookie_value_def)
  have "csrf_session (stripped st request) = csrf_session request"
    unfolding csrf_session_def Let_def ck by simp
  with assms(2) have s: "csrf_session (stripped st request) = Some session_token" by simp
  have ok: "request_has_same_origin E ?h" "valid_csrf_header E ?h session_token"
    using assms(1,3) s unfolding guarded_def strip_passes csrf_protection_middleware_def
    by (auto split: if_splits)
  have mac: "Option.bind (header_value (hr_headers request) CSRF_HEADER) (ae_hex_decode E)
      = Some (ae_hmac_sha256 E session_token CSRF_CONTEXT)"
    using ok(2) unfolding valid_csrf_header_def names
    by (cases "Option.bind (header_value (hr_headers request) CSRF_HEADER) (ae_hex_decode E)") auto
  obtain url where url: "Option.bind (opt_or (header_value (hr_headers request) ''origin'')
      (header_value (hr_headers request) ''referer'')) (url_parse (ae_urls E)) = Some url"
    using ok(1) unfolding request_has_same_origin_def names by (auto split: option.splits)
  obtain host port where auth: "Option.bind (opt_or (forwarded_header_value ?h ''x-forwarded-host'')
      (header_value (hr_headers request) ''host'')) (ae_authority E) = Some (host, port)"
      and u: "u_scheme url \<in> {''http'', ''https''}" "u_username url = []"
        "is_some_and (\<lambda>h. eq_ignore_ascii_case h host) (u_host url)"
    using ok(1) unfolding request_has_same_origin_def names url by (auto split: option.splits if_splits)
  have "\<exists>h host port origin_host. header_value (hr_headers request) ''host'' = Some h \<and> ae_authority E h = Some (host, port)
      \<and> u_host url = Some origin_host \<and> eq_ignore_ascii_case origin_host host"
    if "\<not> is_some_and (config_trusts (ap_config st)) (hr_peer request)"
    using auth u(3) stripped_untrusted(1)[OF that] by (auto simp: bind_eq_Some_conv is_some_and_iff)
  moreover have "valid_csrf_header E headers s" if "header_value headers CSRF_HEADER = Some (csrf_token E s)" for headers s
    using that assms(4) by (simp add: valid_csrf_header_def csrf_token_def)
  ultimately show ?thesis using url u mac by blast
qed

theorem csrf_proof_required_witness:
  "Option.bind (header_value [(''cookie'', ''mirrorproxy_user_session=tok''), (''origin'', ''https://mirror.example/''),
       (''host'', ''mirror.example''), (CSRF_HEADER, csrf_token sample_env ''tok'')] CSRF_HEADER) (ae_hex_decode sample_env)
     = Some (ae_hmac_sha256 sample_env ''tok'' CSRF_CONTEXT)"
proof -
  let ?r = "sample_request POST ''/api/account/sessions'' [(''cookie'', ''mirrorproxy_user_session=tok''),
     (''origin'', ''https://mirror.example/''), (''host'', ''mirror.example''), (CSRF_HEADER, csrf_token sample_env ''tok'')]"
  have m: "hr_method ?r \<in> {POST, PUT, PATCH, DELETE}" by (simp add: sample_request_def)
  have s: "csrf_session ?r = Some ''tok''" by code_simp
  have "answer_status (guarded sample_env (answering 200) ?r sample_state) = Some 200"
    "answer_status (guarded sample_env (answering 404) ?r sample_state) = Some 404" by code_simp+
  then have d: "guarded sample_env (answering 200) ?r sample_state \<noteq> guarded sample_env (answering 404) ?r sample_state"
    by (intro answers_differ) simp
  have h: "\<forall>x. ae_hex_decode sample_env (ae_hex_encode sample_env x) = Some x" by (simp add: sample_env_def)
  from csrf_proof_required[OF m s d h] show ?thesis by (simp add: sample_request_def)
qed

section \<open>Cookies per transport\<close>

definition browser_pairs :: "header_map \<Rightarrow> string list" where
  "browser_pairs headers = concat (map (split_on (CHR '';'')) (filter_map to_str (hdr_get_all headers ''cookie'')))"

definition pair_value :: "string \<Rightarrow> string \<Rightarrow> string option" where
  "pair_value name item = (case split_once (CHR ''='') (trim item) of
       Some (cookie_name, cookie) \<Rightarrow> if cookie_name = name \<and> cookie \<noteq> [] then Some cookie else None
     | None \<Rightarrow> None)"

lemma cookie_value_pairs:
  "cookie_value headers name = Option.bind (hdr_str headers ''cookie'') (\<lambda>v. find_map (pair_value name) (split_on (CHR '';'') v))"
  by (simp add: cookie_value_def pair_value_def[abs_def])

lemma split_on_append:
  "c \<notin> set a \<Longrightarrow> split_on c (a @ c # b) = a # split_on c b"
  by (induction a) auto

text \<open>Splitting what was joined gives the items back, up to the space after the separator.\<close>

lemma split_joined:
  assumes "\<forall>x\<in>set xs. CHR '';'' \<notin> set x" and "xs \<noteq> []"
  shows "split_on (CHR '';'') (join ''; '' xs) = hd xs # map (\<lambda>x. CHR '' '' # x) (tl xs)"
  using assms
proof (induction xs)
  case (Cons x xs)
  have sp: "split_on (CHR '';'') (CHR '' '' # z) = (CHR '' '' # hd (split_on (CHR '';'') z)) # tl (split_on (CHR '';'') z)" for z
    by (cases "split_on (CHR '';'') z") auto
  show ?case
  proof (cases xs)
    case Nil
    then show ?thesis using Cons.prems by (simp add: split_on_no)
  next
    case (Cons y ys)
    then show ?thesis
      using Cons.IH Cons.prems by (simp add: split_on_append sp del: split_on.simps)
  qed
qed simp

lemma join_set: "set (join ''; '' xs) \<subseteq> (\<Union>x\<in>set xs. set x) \<union> {CHR '';'', CHR '' ''}"
proof (induction xs)
  case (Cons x xs)
  then show ?case by (cases "xs = []") (auto simp: join_Cons)
qed simp

text \<open>What becomes of one cookie: its value is the trimmed one, under its own or its secure
  name.\<close>

lemma transport_cookie_Some:
  "transport_cookie secure name v table = Some item \<Longrightarrow>
     item = name @ ''='' @ v \<or> (\<exists>n. (n, name) \<in> set table \<and> item = n @ ''='' @ v)"
  by (induction table) (auto split: if_splits)

lemma table_names:
  assumes "(https_name, http_name) \<in> set HTTP_BROWSER_COOKIES"
  shows "https_name \<noteq> [] \<and> \<not> is_ws (hd https_name) \<and> list_all visible https_name
    \<and> CHR ''='' \<notin> set https_name \<and> CHR '';'' \<notin> set https_name"
proof -
  have "list_all (\<lambda>(s, _). s \<noteq> [] \<and> \<not> is_ws (hd s) \<and> list_all visible s \<and> CHR ''='' \<notin> set s \<and> CHR '';'' \<notin> set s)
      HTTP_BROWSER_COOKIES" by code_simp
  with assms show ?thesis by (auto simp: list_all_iff)
qed

definition normal_pair :: "bool \<Rightarrow> string \<Rightarrow> string option" where
  "normal_pair secure pair = Option.bind (split_once (CHR ''='') (trim pair))
     (\<lambda>(name, v). transport_cookie secure name v HTTP_BROWSER_COOKIES)"

lemma normal_pair_item:
  assumes "normal_pair secure pair = Some item" and "CHR '';'' \<notin> set pair" and "list_all visible pair"
  shows "trim item = item" and "CHR '';'' \<notin> set item" and "list_all visible item" and "item \<noteq> []"
proof -
  obtain name v where s: "split_once (CHR ''='') (trim pair) = Some (name, v)"
      "transport_cookie secure name v HTTP_BROWSER_COOKIES = Some item"
    using assms(1) by (auto simp: normal_pair_def bind_eq_Some_conv)
  then have t: "trim pair = name @ ''='' @ v" by (simp add: split_once_Some)
  note ends = trim_ends[of pair, unfolded t] and chars = trim_chars[of pair, unfolded t]
  have v: "\<not> is_ws (last (''='' @ v))" "CHR '';'' \<notin> set v" "list_all visible v"
    using ends chars assms(2,3) by (auto simp: list_all_iff)
  consider "item = name @ ''='' @ v" | n where "(n, name) \<in> set HTTP_BROWSER_COOKIES" "item = n @ ''='' @ v"
    using transport_cookie_Some[OF s(2)] by blast
  then have "trim item = item \<and> CHR '';'' \<notin> set item \<and> list_all visible item \<and> item \<noteq> []"
  proof cases
    case 1
    then show ?thesis using ends chars assms(2,3) by (auto simp: list_all_iff intro!: trim_fixed)
  next
    case 2
    have "visible (CHR ''='')" by code_simp
    with 2 table_names[OF 2(1)] v show ?thesis by (auto simp: hd_append intro!: trim_fixed)
  qed
  then show "trim item = item" "CHR '';'' \<notin> set item" "list_all visible item" "item \<noteq> []" by blast+
qed

text \<open>The name a cookie is carried under; a session name of the table is reached from exactly
  one name per transport.\<close>

fun carried_name :: "bool \<Rightarrow> string \<Rightarrow> (string \<times> string) list \<Rightarrow> string option" where
  "carried_name secure name [] = Some name"
| "carried_name secure name ((https_name, http_name) # rest) =
     (if name = https_name then (if secure then Some name else None)
      else if name = http_name then (if \<not> secure then Some https_name else None)
      else carried_name secure name rest)"

lemma transport_cookie_carried:
  "transport_cookie secure name v table = map_option (\<lambda>n. n @ ''='' @ v) (carried_name secure name table)"
  by (induction secure name table rule: carried_name.induct) auto

lemma carried_name_Some:
  "carried_name secure name table = Some n \<Longrightarrow> n = name \<or> (n, name) \<in> set table"
  by (induction table) (auto split: if_splits)

lemma carried_name_iff:
  "distinct (map fst table @ map snd table) \<Longrightarrow> (https_name, http_name) \<in> set table \<Longrightarrow>
     carried_name secure name table = Some https_name \<longleftrightarrow> name = (if secure then https_name else http_name)"
  by (induction secure name table rule: carried_name.induct) (auto simp: rev_image_eqI dest: carried_name_Some)

lemma carried_name_plain:
  assumes "carried_name secure name HTTP_BROWSER_COOKIES = Some n" and "CHR ''='' \<notin> set name"
  shows "CHR ''='' \<notin> set n"
  using assms carried_name_Some table_names by blast

text \<open>Reading a session cookie from a carried item is reading the transport's name from the
  original.\<close>

lemma normal_pair_value:
  assumes "(https_name, http_name) \<in> set HTTP_BROWSER_COOKIES" and "CHR '';'' \<notin> set pair" and "list_all visible pair"
  shows "Option.bind (normal_pair secure pair) (pair_value https_name)
    = pair_value (if secure then https_name else http_name) pair"
proof (cases "split_once (CHR ''='') (trim pair)")
  case None
  then show ?thesis by (simp add: normal_pair_def pair_value_def)
next
  case (Some p)
  obtain name v where p: "p = (name, v)" by (cases p)
  have nm: "CHR ''='' \<notin> set name" using Some p by (simp add: split_once_Some)
  have "distinct (map fst HTTP_BROWSER_COOKIES @ map snd HTTP_BROWSER_COOKIES)" by code_simp
  note iff = carried_name_iff[OF this assms(1), of secure name]
  have np: "normal_pair secure pair = map_option (\<lambda>n. n @ ''='' @ v) (carried_name secure name HTTP_BROWSER_COOKIES)"
    using Some p by (simp add: normal_pair_def transport_cookie_carried)
  show ?thesis
  proof (cases "carried_name secure name HTTP_BROWSER_COOKIES")
    case None
    then show ?thesis using np iff Some p by (auto simp: pair_value_def)
  next
    case (Some n)
    then have item: "normal_pair secure pair = Some (n @ ''='' @ v)" using np by simp
    have "split_once (CHR ''='') (trim (n @ ''='' @ v)) = Some (n, v)"
      using normal_pair_item(1)[OF item assms(2,3)] carried_name_plain[OF Some nm] by (simp add: split_once_Some)
    then show ?thesis
      using item iff Some \<open>split_once (CHR ''='') (trim pair) = Some p\<close> p by (auto simp: pair_value_def)
  qed
qed

lemma browser_pairs_clean:
  "pair \<in> set (browser_pairs headers) \<Longrightarrow> CHR '';'' \<notin> set pair \<and> list_all visible pair"
  by (fastforce simp: browser_pairs_def set_filter_map to_str_def list_all_iff
      dest: split_on_no_sep split_on_chars split: if_splits)

lemma normalized_pairs_items:
  assumes "item \<in> set (normalized_pairs headers secure)"
  shows "trim item = item" and "CHR '';'' \<notin> set item" and "list_all visible item" and "item \<noteq> []"
proof -
  have "normalized_pairs headers secure = filter_map (normal_pair secure) (browser_pairs headers)"
    by (simp add: normalized_pairs_def browser_pairs_def normal_pair_def[abs_def])
  then obtain pair where "pair \<in> set (browser_pairs headers)" "normal_pair secure pair = Some item"
    using assms by (auto simp: set_filter_map)
  then show "trim item = item" "CHR '';'' \<notin> set item" "list_all visible item" "item \<noteq> []"
    using normal_pair_item browser_pairs_clean by blast+
qed

text \<open>Browser sessions are bound to the transport that set them.  What the handlers read
  as a session or CSRF cookie, after the cookies of all \<open>Cookie\<close> lines are normalized, is the
  first non-empty value the browser sent under the secure name on HTTPS, and under the
  separate plain name on HTTP: a cookie from a plain connection never opens a session over
  HTTPS, nor the reverse, whatever else the header holds.\<close>

theorem cookies_bound_to_transport:
  assumes "(https_name, http_name) \<in> set HTTP_BROWSER_COOKIES"
  shows "cookie_value (normalize_browser_session_cookies secure headers) https_name
    = find_map (pair_value (if secure then https_name else http_name)) (browser_pairs headers)"
proof -
  let ?items = "normalized_pairs headers secure" and ?c = "join ''; '' (normalized_pairs headers secure)"
  have eq: "?items = filter_map (normal_pair secure) (browser_pairs headers)"
    by (simp add: normalized_pairs_def browser_pairs_def normal_pair_def[abs_def])
  have "find_map (pair_value https_name) ?items
      = find_map (pair_value (if secure then https_name else http_name)) (browser_pairs headers)"
    unfolding eq find_map_filter_map
    by (rule find_map_cong) (use normal_pair_value[OF assms] browser_pairs_clean in blast)
  moreover have "cookie_value (normalize_browser_session_cookies secure headers) https_name
      = find_map (pair_value https_name) ?items"
  proof (cases ?items)
    case Nil
    then show ?thesis
      by (simp add: cookie_value_pairs normalize_browser_session_cookies_def hdr_str_remove Let_def)
  next
    case (Cons x xs)
    note items = normalized_pairs_items[of _ headers secure]
    have "?c \<noteq> []" using items(4)[of x] Cons by (cases "xs = []") (auto simp: join_Cons)
    moreover have "to_str ?c = Some ?c"
    proof -
      have "visible (CHR '';'')" "visible (CHR '' '')" by code_simp+
      then show ?thesis using join_set[of ?items] items(3) by (auto simp: to_str_def list_all_iff)
    qed
    ultimately have "hdr_str (normalize_browser_session_cookies secure headers) ''cookie'' = Some ?c"
      by (simp add: normalize_browser_session_cookies_def Let_def hdr_str_def hdr_get_def hdr_insert_def
          hdr_get_all_remove hdr_get_all_Cons)
    moreover have "split_on (CHR '';'') ?c = x # map (\<lambda>y. CHR '' '' # y) xs"
      using split_joined[of ?items] items(2) Cons by simp
    moreover have "pair_value https_name (CHR '' '' # y) = pair_value https_name y" for y
      by (simp add: pair_value_def trim_start_space)
    then have "find_map (pair_value https_name) (map (\<lambda>y. CHR '' '' # y) xs) = find_map (pair_value https_name) xs"
      by (simp add: find_map_map)
    ultimately show ?thesis by (simp add: cookie_value_pairs Cons split: option.split)
  qed
  ultimately show ?thesis by simp
qed

end
