(* ===== verification/Geo_Lookup.thy ===== *)
theory Geo_Lookup
  imports Ip_Access Quota_Db "HOL-Library.List_Lexorder"
begin

text \<open>
  The offline GeoIP database (\<open>geoip.rs\<close>): reading an XDB file, the binary search for an
  address, the service with its two databases, and the installation of a new file.

  A file is a \<^typ>\<open>string\<close>, one character per byte; a \<open>Vec<u8>\<close> is compared as the list of
  its byte values.  \<open>usize\<close> has 64 bits.  Unicode upper case is a parameter, and white space
  is that of ASCII.
\<close>

section \<open>Reading bytes\<close>

datatype xdb_error =
    Truncated
  | UnsupportedVersion nat
  | UnsupportedIndexPolicy nat
  | UnsupportedIpVersion nat
  | UnsupportedPointerWidth
  | VersionMismatch
  | PointerOutside
  | InvalidUtf8
  | TooLarge
  | BadIpVersion
  | ReadFailed
  | CreateFailed
  | WriteFailed
  | RenameFailed

definition HEADER_LENGTH :: nat where
  "HEADER_LENGTH = 256"

definition VECTOR_INDEX_LENGTH :: nat where
  "VECTOR_INDEX_LENGTH = 256 * 256 * 8"

definition MAX_XDB_BYTES :: nat where
  "MAX_XDB_BYTES = 80 * 1024 * 1024"

definition byte_vals :: "string \<Rightarrow> nat list" where
  "byte_vals s = map of_char s"

text \<open>\<open>from_le_bytes\<close>.\<close>

fun le_val :: "string \<Rightarrow> nat" where
  "le_val [] = 0"
| "le_val (c # cs) = of_char c + 256 * le_val cs"

definition slice :: "string \<Rightarrow> nat \<Rightarrow> nat \<Rightarrow> xdb_error + string" where
  "slice bytes offset len =
     (let e = sat_add offset len
      in if offset \<le> e \<and> e \<le> length bytes then Inr (take (e - offset) (drop offset bytes)) else Inl PointerOutside)"

definition read_u32 :: "string \<Rightarrow> nat \<Rightarrow> xdb_error + nat" where
  "read_u32 bytes offset = bindr (slice bytes offset 4) (\<lambda>b. Inr (le_val b))"

text \<open>Well-formed UTF-8, as \<open>String::from_utf8\<close> checks it.\<close>

definition continuation :: "nat \<Rightarrow> bool" where
  "continuation b \<longleftrightarrow> 0x80 \<le> b \<and> b \<le> 0xBF"

fun utf8_ok :: "nat list \<Rightarrow> bool" where
  "utf8_ok [] = True"
| "utf8_ok (a # r) =
     (if a < 0x80 then utf8_ok r
      else case r of
        [] \<Rightarrow> False
      | b # r1 \<Rightarrow>
          if 0xC2 \<le> a \<and> a \<le> 0xDF then continuation b \<and> utf8_ok r1
          else (case r1 of
              [] \<Rightarrow> False
            | c # r2 \<Rightarrow>
                if 0xE0 \<le> a \<and> a \<le> 0xEF
                then (if a = 0xE0 then 0xA0 \<le> b \<and> b \<le> 0xBF
                      else if a = 0xED then 0x80 \<le> b \<and> b \<le> 0x9F else continuation b)
                     \<and> continuation c \<and> utf8_ok r2
                else (case r2 of
                    [] \<Rightarrow> False
                  | d # r3 \<Rightarrow>
                      0xF0 \<le> a \<and> a \<le> 0xF4
                      \<and> (if a = 0xF0 then 0x90 \<le> b \<and> b \<le> 0xBF
                         else if a = 0xF4 then 0x80 \<le> b \<and> b \<le> 0x8F else continuation b)
                      \<and> continuation c \<and> continuation d \<and> utf8_ok r3)))"

section \<open>The reader\<close>

datatype xdb_ip_version = XdbV4 | XdbV6

record xdb_reader =
  xr_bytes :: string
  xr_ip_version :: xdb_ip_version
  xr_created_at :: nat
  xr_sha256 :: string

definition u16_at :: "string \<Rightarrow> nat \<Rightarrow> nat" where
  "u16_at bytes i = le_val (take 2 (drop i bytes))"

definition from_bytes :: "(string \<Rightarrow> string) \<Rightarrow> string \<Rightarrow> xdb_error + xdb_reader" where
  "from_bytes sha bytes =
     (if length bytes < HEADER_LENGTH + VECTOR_INDEX_LENGTH then Inl Truncated
      else if u16_at bytes 0 \<noteq> 3 then Inl (UnsupportedVersion (u16_at bytes 0))
      else if u16_at bytes 2 \<noteq> 1 then Inl (UnsupportedIndexPolicy (u16_at bytes 2))
      else (let created_at = le_val (take 4 (drop 4 bytes)); v = u16_at bytes 16 in
        bindr (if v = 4 then Inr XdbV4 else if v = 6 then Inr XdbV6 else Inl (UnsupportedIpVersion v)) (\<lambda>ip_version.
        if u16_at bytes 18 \<noteq> 4 then Inl UnsupportedPointerWidth
        else Inr \<lparr>xr_bytes = bytes, xr_ip_version = ip_version, xr_created_at = created_at, xr_sha256 = sha bytes\<rparr>)))"

definition decode_index_ip :: "string \<Rightarrow> xdb_ip_version \<Rightarrow> string" where
  "decode_index_ip bytes version = (case version of XdbV4 \<Rightarrow> rev bytes | XdbV6 \<Rightarrow> bytes)"

text \<open>What a matching record points to.\<close>

definition record_payload :: "xdb_reader \<Rightarrow> nat \<Rightarrow> string \<Rightarrow> xdb_error + string option" where
  "record_payload r ip_len rec =
     bindr (slice (xr_bytes r) (le_val (take 4 (drop (ip_len * 2 + 2) rec))) (le_val (take 2 (drop (ip_len * 2) rec))))
       (\<lambda>d. if utf8_ok (byte_vals d) then Inr (Some d) else Inl InvalidUtf8)"

text \<open>The \<open>while\<close> loop on \<open>left\<close> and \<open>right\<close>.\<close>

function search :: "xdb_reader \<Rightarrow> string \<Rightarrow> nat \<Rightarrow> nat \<Rightarrow> nat \<Rightarrow> xdb_error + string option" where
  "search r octets start left right =
     (if left \<le> right then
        (let ip_len = length octets; record_len = ip_len * 2 + 6; mid = (left + right) div 2 in
         case slice (xr_bytes r) (sat_add start (sat_mul mid record_len)) record_len of
           Inl e \<Rightarrow> Inl e
         | Inr rec \<Rightarrow>
             (let start_ip = decode_index_ip (take ip_len rec) (xr_ip_version r);
                  end_ip = decode_index_ip (take ip_len (drop ip_len rec)) (xr_ip_version r)
              in if byte_vals octets < byte_vals start_ip
                 then (if mid = 0 then Inr None else search r octets start left (mid - 1))
                 else if byte_vals octets > byte_vals end_ip then search r octets start (mid + 1) right
                 else record_payload r ip_len rec))
      else Inr None)"
  by pat_completeness auto
termination
  by (relation "measure (\<lambda>(r, octets, start, left, right). right + 1 - left)") auto

declare search.simps [simp del]

definition octets4 :: "32 word \<Rightarrow> string" where
  "octets4 a = map (\<lambda>i. char_of (octet a i)) [0..<4]"

definition octets6 :: "128 word \<Rightarrow> string" where
  "octets6 a = concat (map (\<lambda>i. [char_of (segment a i div 256), char_of (segment a i mod 256)]) [0..<8])"

definition reader_octets :: "xdb_reader \<Rightarrow> ip_addr \<Rightarrow> xdb_error + string" where
  "reader_octets r ip = (case (ip, xr_ip_version r) of
       (V4 a, XdbV4) \<Rightarrow> Inr (octets4 a)
     | (V6 a, XdbV6) \<Rightarrow> Inr (octets6 a)
     | _ \<Rightarrow> Inl VersionMismatch)"

definition index_point :: "string \<Rightarrow> nat" where
  "index_point octets = HEADER_LENGTH + (of_char (octets ! 0) * 256 + of_char (octets ! 1)) * 8"

definition reader_lookup :: "xdb_reader \<Rightarrow> ip_addr \<Rightarrow> xdb_error + string option" where
  "reader_lookup r ip =
     bindr (reader_octets r ip) (\<lambda>octets.
     bindr (read_u32 (xr_bytes r) (index_point octets)) (\<lambda>start.
     bindr (read_u32 (xr_bytes r) (index_point octets + 4)) (\<lambda>e.
       if start = 0 \<or> e = 0 \<or> e < start then Inr None
       else search r octets start 0 ((e - start) div (length octets * 2 + 6)))))"

section \<open>Locations\<close>

definition normalize_field :: "string \<Rightarrow> string option" where
  "normalize_field v = (let t = trim v in
     if t \<noteq> [] \<and> t \<noteq> ''0'' \<and> \<not> eq_ignore_ascii_case t ''reserved'' then Some t else None)"

definition nth_field :: "string option list \<Rightarrow> nat \<Rightarrow> string option" where
  "nth_field xs i = (if i < length xs then xs ! i else None)"

definition GeoLocation_unknown :: geo_location where
  "GeoLocation_unknown = \<lparr>country = None, province = None, city = None, isp = None, country_code = None\<rparr>"

definition from_xdb :: "(string \<Rightarrow> string) \<Rightarrow> string \<Rightarrow> geo_location" where
  "from_xdb upper v = (let fs = map normalize_field (split_on (CHR ''|'') v) in
     \<lparr>country = nth_field fs 0, province = nth_field fs 1, city = nth_field fs 2, isp = nth_field fs 3,
      country_code = map_option upper (nth_field fs 4)\<rparr>)"

section \<open>The service\<close>

text \<open>The files of the machine, and which steps of an installation the file system lets
  through.\<close>

type_synonym files = "string \<rightharpoonup> string"

record geo_io =
  gi_create_dir :: bool
  gi_write :: bool
  gi_copy :: bool
  gi_rename :: bool

record geo_readers =
  rd_ipv4 :: "xdb_reader option"
  rd_ipv6 :: "xdb_reader option"
  rd_ipv4_error :: "xdb_error option"
  rd_ipv6_error :: "xdb_error option"

record geo_service =
  gs_enabled :: bool
  gs_ipv4_path :: string
  gs_ipv6_path :: string
  gs_readers :: geo_readers

definition reader_open :: "(string \<Rightarrow> string) \<Rightarrow> files \<Rightarrow> string \<Rightarrow> xdb_error + xdb_reader" where
  "reader_open sha fs path = bindr (ok_or ReadFailed (fs path)) (from_bytes sha)"

definition load_reader ::
  "(string \<Rightarrow> string) \<Rightarrow> files \<Rightarrow> string \<Rightarrow> xdb_ip_version \<Rightarrow> xdb_reader option \<times> xdb_error option" where
  "load_reader sha fs path expected = (case reader_open sha fs path of
       Inr r \<Rightarrow> if xr_ip_version r = expected then (Some r, None) else (None, Some VersionMismatch)
     | Inl e \<Rightarrow> (None, Some e))"

definition reload :: "(string \<Rightarrow> string) \<Rightarrow> files \<Rightarrow> geo_service \<Rightarrow> geo_service" where
  "reload sha fs s =
     (let (ipv4, ipv4_error) = load_reader sha fs (gs_ipv4_path s) XdbV4;
          (ipv6, ipv6_error) = load_reader sha fs (gs_ipv6_path s) XdbV6
      in s\<lparr>gs_readers := \<lparr>rd_ipv4 = ipv4, rd_ipv6 = ipv6, rd_ipv4_error = ipv4_error, rd_ipv6_error = ipv6_error\<rparr>\<rparr>)"

definition GeoIpService_new :: "(string \<Rightarrow> string) \<Rightarrow> files \<Rightarrow> bool \<Rightarrow> string \<Rightarrow> string \<Rightarrow> geo_service" where
  "GeoIpService_new sha fs enabled ipv4_path ipv6_path =
     reload sha fs \<lparr>gs_enabled = enabled, gs_ipv4_path = ipv4_path, gs_ipv6_path = ipv6_path,
       gs_readers = \<lparr>rd_ipv4 = None, rd_ipv6 = None, rd_ipv4_error = None, rd_ipv6_error = None\<rparr>\<rparr>"

definition geo_lookup :: "(string \<Rightarrow> string) \<Rightarrow> geo_service \<Rightarrow> ip_addr \<Rightarrow> geo_location" where
  "geo_lookup upper s ip =
     (if \<not> gs_enabled s \<or> \<not> is_public_ip ip then GeoLocation_unknown
      else (case (case ip of V4 _ \<Rightarrow> rd_ipv4 (gs_readers s) | V6 _ \<Rightarrow> rd_ipv6 (gs_readers s)) of
          None \<Rightarrow> GeoLocation_unknown
        | Some r \<Rightarrow> (case reader_lookup r ip of
              Inr (Some v) \<Rightarrow> from_xdb upper v
            | _ \<Rightarrow> GeoLocation_unknown)))"

definition database_path :: "geo_service \<Rightarrow> nat \<Rightarrow> xdb_error + string" where
  "database_path s version =
     (if version = 4 then Inr (gs_ipv4_path s) else if version = 6 then Inr (gs_ipv6_path s) else Inl BadIpVersion)"

text \<open>\<open>Path::with_extension\<close> on a path with a file name: what follows the last dot of the name is
  replaced, unless the name starts with that dot.\<close>

definition split_file_name :: "string \<Rightarrow> string \<times> string" where
  "split_file_name path =
     (let name = rev (takeWhile (\<lambda>c. c \<noteq> CHR ''/'') (rev path)) in (take (length path - length name) path, name))"

definition file_stem :: "string \<Rightarrow> string" where
  "file_stem name =
     (let extension = rev (takeWhile (\<lambda>c. c \<noteq> CHR ''.'') (rev name)); n = length name - length extension - 1
      in if CHR ''.'' \<in> set name \<and> n \<noteq> 0 then take n name else name)"

definition with_extension :: "string \<Rightarrow> string \<Rightarrow> string" where
  "with_extension extension path =
     (let (dir, name) = split_file_name path in dir @ file_stem name @ ''.'' @ extension)"

definition probe_address :: "nat \<Rightarrow> ip_addr" where
  "probe_address version = (if version = 4 then V4 0x01010101 else V6 0x26064700470000000000000000001111)"

definition install_database ::
  "(string \<Rightarrow> string) \<Rightarrow> geo_io \<Rightarrow> nat \<Rightarrow> string \<Rightarrow> files \<times> geo_service \<Rightarrow> (xdb_error + unit) \<times> files \<times> geo_service" where
  "install_database sha io version data = (\<lambda>(fs, s).
     if length data > MAX_XDB_BYTES then (Inl TooLarge, fs, s)
     else if version \<noteq> 4 \<and> version \<noteq> 6 then (Inl BadIpVersion, fs, s)
     else (case from_bytes sha data of
         Inl e \<Rightarrow> (Inl e, fs, s)
       | Inr reader \<Rightarrow>
           if xr_ip_version reader \<noteq> (if version = 4 then XdbV4 else XdbV6) then (Inl VersionMismatch, fs, s)
           else (case reader_lookup reader (probe_address version) of
               Inl e \<Rightarrow> (Inl e, fs, s)
             | Inr _ \<Rightarrow>
                 (case database_path s version of
                    Inl e \<Rightarrow> (Inl e, fs, s)
                  | Inr path \<Rightarrow>
                      (let temporary = with_extension ''xdb.tmp'' path; backup = with_extension ''xdb.bak'' path in
                       if \<not> gi_create_dir io then (Inl CreateFailed, fs, s)
                       else if \<not> gi_write io then (Inl WriteFailed, fs, s)
                       else
                         (let fs1 = fs(temporary \<mapsto> data);
                              fs2 = (case fs1 path of
                                  Some old \<Rightarrow> if gi_copy io then fs1(backup \<mapsto> old) else fs1
                                | None \<Rightarrow> fs1)
                          in if \<not> gi_rename io then (Inl RenameFailed, fs2, s)
                             else (let fs3 = (fs2(temporary := None))(path := fs2 temporary)
                                   in (Inr (), fs3, reload sha fs3 s))))))))"

section \<open>Binary search and linear scan\<close>

text \<open>The records of a segment of the index, from \<open>start\<close> on.\<close>

definition record_at :: "xdb_reader \<Rightarrow> nat \<Rightarrow> nat \<Rightarrow> nat \<Rightarrow> string" where
  "record_at r ip_len start i = take (ip_len * 2 + 6) (drop (start + i * (ip_len * 2 + 6)) (xr_bytes r))"

definition first_ip :: "xdb_reader \<Rightarrow> nat \<Rightarrow> nat \<Rightarrow> nat \<Rightarrow> nat list" where
  "first_ip r ip_len start i = byte_vals (decode_index_ip (take ip_len (record_at r ip_len start i)) (xr_ip_version r))"

definition last_ip :: "xdb_reader \<Rightarrow> nat \<Rightarrow> nat \<Rightarrow> nat \<Rightarrow> nat list" where
  "last_ip r ip_len start i =
     byte_vals (decode_index_ip (take ip_len (drop ip_len (record_at r ip_len start i))) (xr_ip_version r))"

text \<open>A segment of \<open>n + 1\<close> records inside the file, in ascending order and without overlap.\<close>

definition segment_ok :: "xdb_reader \<Rightarrow> nat \<Rightarrow> nat \<Rightarrow> nat \<Rightarrow> bool" where
  "segment_ok r ip_len start n \<longleftrightarrow>
     start + Suc n * (ip_len * 2 + 6) \<le> length (xr_bytes r) \<and> length (xr_bytes r) \<le> U64_MAX
     \<and> list_all (\<lambda>i. first_ip r ip_len start i \<le> last_ip r ip_len start i) [0..<Suc n]
     \<and> list_all (\<lambda>i. last_ip r ip_len start i < first_ip r ip_len start (Suc i)) [0..<n]"

text \<open>The reference: the first record in file order that covers the address.\<close>

definition linear_scan :: "xdb_reader \<Rightarrow> string \<Rightarrow> nat \<Rightarrow> nat \<Rightarrow> xdb_error + string option" where
  "linear_scan r octets start n =
     (case List.find (\<lambda>i. first_ip r (length octets) start i \<le> byte_vals octets
                          \<and> byte_vals octets \<le> last_ip r (length octets) start i) [0..<Suc n] of
        None \<Rightarrow> Inr None
      | Some i \<Rightarrow> record_payload r (length octets) (record_at r (length octets) start i))"

lemma segment_record:
  assumes "segment_ok r ip_len start n" and "i \<le> n"
  shows "slice (xr_bytes r) (sat_add start (sat_mul i (ip_len * 2 + 6))) (ip_len * 2 + 6) = Inr (record_at r ip_len start i)"
proof -
  let ?l = "ip_len * 2 + 6"
  have le: "i * ?l + ?l \<le> Suc n * ?l" using assms(2) by (metis add.commute mult_Suc mult_le_mono1 Suc_le_mono)
  then have b: "start + i * ?l + ?l \<le> length (xr_bytes r)" "length (xr_bytes r) \<le> U64_MAX"
    using assms(1) by (simp_all add: segment_ok_def del: mult_Suc upt_Suc)
  then have "sat_mul i ?l = i * ?l" "sat_add start (i * ?l) = start + i * ?l"
      "sat_add (start + i * ?l) ?l = start + i * ?l + ?l"
    by (auto simp: sat_mul_def sat_add_def min_def)
  with b show ?thesis by (simp add: slice_def record_at_def Let_def)
qed

lemma segment_order:
  assumes "segment_ok r ip_len start n"
  shows "i \<le> n \<Longrightarrow> first_ip r ip_len start i \<le> last_ip r ip_len start i"
    and "i < j \<Longrightarrow> j \<le> n \<Longrightarrow> last_ip r ip_len start i < first_ip r ip_len start j"
proof -
  have f: "first_ip r ip_len start i \<le> last_ip r ip_len start i" if "i \<le> n" for i
    using assms that by (simp add: segment_ok_def list_all_iff del: upt_Suc)
  then show "i \<le> n \<Longrightarrow> first_ip r ip_len start i \<le> last_ip r ip_len start i" .
  have s: "last_ip r ip_len start i < first_ip r ip_len start (Suc i)" if "i < n" for i
    using assms that by (simp add: segment_ok_def list_all_iff)
  show "last_ip r ip_len start i < first_ip r ip_len start j" if "i < j" "j \<le> n"
    using that
  proof (induction j)
    case (Suc j)
    then show ?case
    proof (cases "i = j")
      case False
      then have "last_ip r ip_len start i < first_ip r ip_len start j" using Suc by simp
      also have "\<dots> \<le> last_ip r ip_len start j" using f Suc.prems by simp
      also have "\<dots> < first_ip r ip_len start (Suc j)" using s Suc.prems by simp
      finally show ?thesis .
    qed (use s Suc.prems in simp)
  qed simp
qed

text \<open>At most one record covers an address.\<close>

lemma scan_unique:
  assumes "segment_ok r ip_len start n" and "length octets = ip_len" and "i \<le> n"
    and "first_ip r ip_len start i \<le> byte_vals octets" and "byte_vals octets \<le> last_ip r ip_len start i"
  shows "linear_scan r octets start n = record_payload r ip_len (record_at r ip_len start i)"
proof -
  let ?p = "\<lambda>i. first_ip r (length octets) start i \<le> byte_vals octets \<and> byte_vals octets \<le> last_ip r (length octets) start i"
  have "List.find ?p [0..<Suc n] \<noteq> None"
    using assms by (auto simp: find_None_iff)
  then obtain k where k: "List.find ?p [0..<Suc n] = Some k" by blast
  then have p: "?p k" "k \<le> n" by (auto simp: find_Some_iff nth_append split: if_splits)
  have "k = i"
  proof (rule ccontr)
    assume "k \<noteq> i"
    then consider "k < i" | "i < k" by linarith
    then show False
      using p assms segment_order(2)[OF assms(1)] by cases (meson leD le_less_trans less_le_trans)+
  qed
  with k assms(2) show ?thesis by (simp add: linear_scan_def)
qed

lemma scan_none:
  assumes "\<And>i. i \<le> n \<Longrightarrow> \<not> (first_ip r (length octets) start i \<le> byte_vals octets
      \<and> byte_vals octets \<le> last_ip r (length octets) start i)"
  shows "linear_scan r octets start n = Inr None"
proof -
  have "List.find (\<lambda>i. first_ip r (length octets) start i \<le> byte_vals octets
      \<and> byte_vals octets \<le> last_ip r (length octets) start i) [0..<Suc n] = None"
    using assms by (auto simp: find_None_iff simp del: upt_Suc)
  then show ?thesis by (simp add: linear_scan_def del: upt_Suc)
qed

lemma search_scan:
  assumes ok: "segment_ok r (length octets) start n" and "right \<le> n"
    and "\<forall>i<left. last_ip r (length octets) start i < byte_vals octets"
    and "\<forall>i. right < i \<longrightarrow> i \<le> n \<longrightarrow> byte_vals octets < first_ip r (length octets) start i"
  shows "search r octets start left right = linear_scan r octets start n"
  using assms(2-)
proof (induction "Suc right - left" arbitrary: left right rule: less_induct)
  case less
  let ?v = "byte_vals octets" and ?a = "first_ip r (length octets) start" and ?b = "last_ip r (length octets) start"
  note order = segment_order[OF ok]
  show ?case
  proof (cases "left \<le> right")
    case False
    have "linear_scan r octets start n = Inr None"
    proof (rule scan_none)
      fix i assume "i \<le> n"
      consider "i < left" | "right < i" using False by linarith
      then show "\<not> (?a i \<le> ?v \<and> ?v \<le> ?b i)" using less.prems \<open>i \<le> n\<close> by cases (meson leD)+
    qed
    with False show ?thesis by (simp add: search.simps)
  next
    case True
    define mid where "mid = (left + right) div 2"
    have mid: "left \<le> mid" "mid \<le> right" "mid \<le> n" using True less.prems(1) by (auto simp: mid_def)
    note step = search.simps[of r octets start left right, folded mid_def, unfolded Let_def segment_record[OF ok mid(3)]]
    have ips: "byte_vals (decode_index_ip (take (length octets) (record_at r (length octets) start mid)) (xr_ip_version r)) = ?a mid"
      "byte_vals (decode_index_ip (take (length octets) (drop (length octets) (record_at r (length octets) start mid))) (xr_ip_version r)) = ?b mid"
      by (simp_all add: first_ip_def last_ip_def)
    note step = step[unfolded sum.case ips]
    consider (below) "?v < ?a mid" | (above) "?b mid < ?v" | (hit) "?a mid \<le> ?v" "?v \<le> ?b mid" by force
    then show ?thesis
    proof cases
      case below
      have right_of: "?v < ?a i" if "mid \<le> i" "i \<le> n" for i
        using that below order(1)[of mid] order(2)[of mid i] mid(3) by (cases "i = mid") (auto dest: le_less_trans less_le_trans)
      show ?thesis
      proof (cases "mid = 0")
        case True
        have "linear_scan r octets start n = Inr None"
          using right_of True by (intro scan_none) (meson leD le0)
        with True below show ?thesis using \<open>left \<le> right\<close> by (simp add: step)
      next
        case False
        have "search r octets start left (mid - 1) = linear_scan r octets start n"
          using less.prems mid False right_of by (intro less.hyps) auto
        with False below show ?thesis using \<open>left \<le> right\<close> by (simp add: step)
      qed
    next
      case above
      have "?b i < ?v" if "i \<le> mid" for i
      proof (cases "i = mid")
        case False
        then have "?b i < ?a mid" using order(2)[of i mid] that mid(3) by simp
        also have "\<dots> \<le> ?b mid" using order(1) mid(3) by blast
        finally show ?thesis using above by simp
      qed (use above in simp)
      then have "search r octets start (mid + 1) right = linear_scan r octets start n"
        using less.prems mid by (intro less.hyps) auto
      moreover have "\<not> ?v < ?a mid" using above order(1)[OF mid(3)] by force
      ultimately show ?thesis using above \<open>left \<le> right\<close> by (simp add: step)
    next
      case hit
      then have "\<not> ?v < ?a mid" "\<not> ?b mid < ?v" by auto
      with hit show ?thesis
        using scan_unique[OF ok refl mid(3)] \<open>left \<le> right\<close> by (simp add: step)
    qed
  qed
qed

section \<open>Installing a file\<close>

lemma load_reader_loaded:
  assumes "fs path = Some data" and "from_bytes sha data = Inr r"
  shows "load_reader sha fs path (xr_ip_version r) = (Some r, None)"
  using assms by (simp add: load_reader_def reader_open_def)

lemma from_bytes_keeps: "from_bytes sha data = Inr r \<Longrightarrow> xr_bytes r = data"
  by (auto simp: from_bytes_def Let_def bindr_eq_Inr split: if_splits)

text \<open>The reader of one version.\<close>

definition reader_of :: "nat \<Rightarrow> geo_service \<Rightarrow> xdb_reader option" where
  "reader_of version s = (if version = 4 then rd_ipv4 (gs_readers s) else rd_ipv6 (gs_readers s))"

lemma reload_reader:
  assumes "fs (if version = 4 then gs_ipv4_path s else gs_ipv6_path s) = Some data" and "from_bytes sha data = Inr r"
    and "xr_ip_version r = (if version = 4 then XdbV4 else XdbV6)"
  shows "reader_of version (reload sha fs s) = Some r"
  using load_reader_loaded[of fs _ data sha r] assms
  by (cases "version = 4") (auto simp: reader_of_def reload_def split_def Let_def)

section \<open>Properties\<close>

text \<open>C36: The binary search is a scan of the index.  When the segment of the index an address
  belongs to lies inside the file and its records ascend without overlap, the lookup
  returns what the first covering record in file order points to, and nothing when no
  record covers the address; it reads beyond no bound and always ends.\<close>

theorem geo_lookup_is_linear_scan:
  assumes "reader_octets r ip = Inr octets"
    and "read_u32 (xr_bytes r) (index_point octets) = Inr start" and "start \<noteq> 0"
    and "read_u32 (xr_bytes r) (index_point octets + 4) = Inr e" and "start \<le> e"
    and "segment_ok r (length octets) start ((e - start) div (length octets * 2 + 6))"
  shows "reader_lookup r ip = linear_scan r octets start ((e - start) div (length octets * 2 + 6))"
  using assms search_scan[OF assms(6), where left = 0 and right = "(e - start) div (length octets * 2 + 6)"]
  by (auto simp: reader_lookup_def)

text \<open>Two records, for 0.0.0.0/24 and 0.0.1.0/24.\<close>

definition sample_reader :: xdb_reader where
  "sample_reader =
     \<lparr>xr_bytes = replicate 256 (char_of (0::nat)) @ map char_of [8, 1, 0, 0, 22, 1, 0, 0 :: nat]
        @ map char_of [0, 0, 0, 0, 255, 0, 0, 0, 2, 0, 36, 1, 0, 0 :: nat]
        @ map char_of [0, 1, 0, 0, 255, 1, 0, 0, 2, 0, 38, 1, 0, 0 :: nat] @ ''USCN'',
      xr_ip_version = XdbV4, xr_created_at = 0, xr_sha256 = []\<rparr>"

lemma sample_slice:
  "offset + len \<le> 296 \<Longrightarrow> slice (xr_bytes sample_reader) offset len = Inr (take len (drop offset (xr_bytes sample_reader)))"
  by (simp add: slice_def sat_add_def U64_MAX_def sample_reader_def Let_def)

lemma sample_records:
  "record_at sample_reader 4 264 0 = map char_of [0, 0, 0, 0, 255, 0, 0, 0, 2, 0, 36, 1, 0, 0 :: nat]"
  "record_at sample_reader 4 264 1 = map char_of [0, 1, 0, 0, 255, 1, 0, 0, 2, 0, 38, 1, 0, 0 :: nat]"
  "xr_ip_version sample_reader = XdbV4" "length (xr_bytes sample_reader) = 296"
  by (simp_all add: record_at_def sample_reader_def)

lemma sample_ips:
  "first_ip sample_reader 4 264 0 = [0, 0, 0, 0]" "last_ip sample_reader 4 264 0 = [0, 0, 0, 255]"
  "first_ip sample_reader 4 264 1 = [0, 0, 1, 0]" "last_ip sample_reader 4 264 1 = [0, 0, 1, 255]"
  unfolding first_ip_def last_ip_def sample_records by (simp_all add: decode_index_ip_def byte_vals_def)

lemma sample_segment: "segment_ok sample_reader 4 264 1"
  using sample_ips by (simp add: segment_ok_def U64_MAX_def sample_records)

theorem geo_lookup_is_linear_scan_witness: "reader_lookup sample_reader (V4 0x105) = Inr (Some ''CN'')"
proof -
  let ?o = "map char_of [0, 0, 1, 5 :: nat]"
  have o: "reader_octets sample_reader (V4 0x105) = Inr ?o" by code_simp
  have p: "index_point ?o = 256" "length ?o = 4" by (simp_all add: index_point_def HEADER_LENGTH_def)
  have s: "read_u32 (xr_bytes sample_reader) (index_point ?o) = Inr 264"
    and e: "read_u32 (xr_bytes sample_reader) (index_point ?o + 4) = Inr 278"
    unfolding p by (simp_all add: read_u32_def sample_slice) (simp_all add: sample_reader_def)
  have k: "segment_ok sample_reader (length ?o) 264 ((278 - 264) div (length ?o * 2 + 6))"
    unfolding p using sample_segment by simp
  have "record_payload sample_reader 4 (record_at sample_reader 4 264 1) = Inr (Some ''CN'')"
    unfolding record_payload_def sample_records
    by (simp add: sample_slice byte_vals_def) (simp add: sample_reader_def byte_vals_def)
  then have "linear_scan sample_reader ?o 264 ((278 - 264) div (length ?o * 2 + 6)) = Inr (Some ''CN'')"
    unfolding linear_scan_def p using sample_ips by (simp add: byte_vals_def)
  then show ?thesis using geo_lookup_is_linear_scan[OF o s _ e _ k] by simp
qed

text \<open>Installing a GeoIP database is all or nothing for lookups.  A refused or failed
  installation leaves both database files and both readers as they are; a successful one
  puts exactly the given bytes in place, and from then on addresses of that family are
  looked up in them.  Only a file of the requested family that reads back is accepted.\<close>

theorem geo_install_all_or_nothing:
  assumes "install_database sha io version data (fs, s) = (res, fs', s')"
    and "path = (if version = 4 then gs_ipv4_path s else gs_ipv6_path s)"
    and "distinct [gs_ipv4_path s, gs_ipv6_path s, with_extension ''xdb.tmp'' path, with_extension ''xdb.bak'' path]"
  shows "(case res of
      Inl _ \<Rightarrow> s' = s \<and> fs' (gs_ipv4_path s) = fs (gs_ipv4_path s) \<and> fs' (gs_ipv6_path s) = fs (gs_ipv6_path s)
    | Inr _ \<Rightarrow> (version = 4 \<or> version = 6) \<and> fs' path = Some data
        \<and> (\<exists>r. from_bytes sha data = Inr r \<and> xr_bytes r = data \<and> reader_of version s' = Some r
             \<and> xr_ip_version r = (if version = 4 then XdbV4 else XdbV6)))"
proof -
  have path: "database_path s version = Inr path" if "version = 4 \<or> version = 6"
    using that assms(2) by (auto simp: database_path_def)
  show ?thesis
  proof (cases res)
    case (Inl err)
    then show ?thesis
      using assms(1,3) path
      by (auto simp: install_database_def Let_def split: if_splits sum.splits option.splits)
  next
    case (Inr u)
    define tmp where "tmp = with_extension ''xdb.tmp'' path"
    obtain r where r: "from_bytes sha data = Inr r" "xr_ip_version r = (if version = 4 then XdbV4 else XdbV6)"
        "version = 4 \<or> version = 6"
      using assms(1) Inr by (auto simp: install_database_def Let_def split: if_splits sum.splits)
    have d: "tmp \<noteq> path" "tmp \<noteq> with_extension ''xdb.bak'' path" using assms(2,3) by (auto simp: tmp_def)
    have "fs' path = Some data" "s' = reload sha fs' s"
      using assms(1) Inr r d path[OF r(3)] unfolding tmp_def
      by (auto simp: install_database_def Let_def split: if_splits sum.splits option.splits)
    with reload_reader[of fs' version s data sha r] r from_bytes_keeps[OF r(1)] assms(2) Inr
    show ?thesis by simp
  qed
qed

definition empty_xdb :: string where
  "empty_xdb = map char_of [3, 0, 1, 0, 0, 0, 0, 0, 0, 0, 0, 0, 0, 0, 0, 0, 4, 0, 4, 0 :: nat]
     @ replicate 524524 (char_of (0 :: nat))"

lemma empty_xdb_reads:
  "length empty_xdb = 524544"
  "from_bytes (\<lambda>_. []) empty_xdb = Inr \<lparr>xr_bytes = empty_xdb, xr_ip_version = XdbV4, xr_created_at = 0, xr_sha256 = []\<rparr>"
  by (simp_all add: empty_xdb_def from_bytes_def u16_at_def HEADER_LENGTH_def VECTOR_INDEX_LENGTH_def Let_def)

lemma le_val_zeros: "le_val (replicate k (char_of (0::nat))) = 0"
  by (induction k) simp_all

definition empty_geo_service :: geo_service where
  "empty_geo_service = GeoIpService_new (\<lambda>_. []) Map.empty True ''/g/v4.xdb'' ''/g/v6.xdb''"

end
