(* ===== verification/Secrets.thy ===== *)
theory Secrets
  imports Geo_Lookup
begin

text \<open>
  Secrets at rest (\<open>secrets.rs\<close>): sealing and opening a value that is stored in the database,
  bound to the place it is stored in, and the decoding of the master key.

  Texts are byte strings.  The authenticated cipher, base64 and hexadecimal decoding are
  parameters; \<open>sealing_lib_ok\<close> states what their documentation promises.  The nonce drawn
  for an encryption is an argument.
\<close>

record sealing_lib =
  b64_encode :: "string \<Rightarrow> string"
  b64_decode :: "string \<Rightarrow> string option"
  hex_decode :: "string \<Rightarrow> string option"
  aead_encrypt :: "string \<Rightarrow> string \<Rightarrow> string \<Rightarrow> string \<Rightarrow> string option"
  aead_decrypt :: "string \<Rightarrow> string \<Rightarrow> string \<Rightarrow> string \<Rightarrow> string option"

text \<open>Arguments of the cipher: key, nonce, associated data, message.  A ciphertext ends with the
  authentication tag, so it is not empty.\<close>

definition sealing_lib_ok :: "sealing_lib \<Rightarrow> bool" where
  "sealing_lib_ok A \<longleftrightarrow> (\<forall>x. b64_decode A (b64_encode A x) = Some x)
     \<and> (\<forall>k n a m c. aead_encrypt A k n a m = Some c \<longrightarrow> c \<noteq> [] \<and> aead_decrypt A k n a c = Some m)"

datatype secret_error = EncryptFailed | MissingKey | BadCiphertext | Truncated | WrongKey | NotUtf8 | BadMasterKey

definition ENC_PREFIX :: string where
  "ENC_PREFIX = ''enc:v1:''"

definition NONCE_LEN :: nat where
  "NONCE_LEN = 24"

definition from_utf8 :: "string \<Rightarrow> string option" where
  "from_utf8 s = (if utf8_ok (map of_char s) then Some s else None)"

definition ascii_hexdigit :: "char \<Rightarrow> bool" where
  "ascii_hexdigit c = (let n = (of_char c :: nat) in 48 \<le> n \<and> n \<le> 57 \<or> 65 \<le> n \<and> n \<le> 70 \<or> 97 \<le> n \<and> n \<le> 102)"

definition decode_master_key :: "sealing_lib \<Rightarrow> string \<Rightarrow> secret_error + string" where
  "decode_master_key A encoded =
     (case (if length encoded = 64 \<and> list_all ascii_hexdigit encoded then hex_decode A encoded else b64_decode A encoded) of
        None \<Rightarrow> Inl BadMasterKey
      | Some bytes \<Rightarrow> if length bytes \<noteq> 32 then Inl BadMasterKey else Inr bytes)"

text \<open>The cipher of the process: the key, if the environment names one.\<close>

definition SecretCipher_from_env :: "sealing_lib \<Rightarrow> string option \<Rightarrow> secret_error + string option" where
  "SecretCipher_from_env A env = (case opt_filter (\<lambda>v. trim v \<noteq> []) env of
       None \<Rightarrow> Inr None
     | Some encoded \<Rightarrow> (case decode_master_key A (trim encoded) of Inl e \<Rightarrow> Inl e | Inr bytes \<Rightarrow> Inr (Some bytes)))"

definition open_secret :: "sealing_lib \<Rightarrow> string option \<Rightarrow> string \<Rightarrow> string \<Rightarrow> secret_error + string" where
  "open_secret A cipher ctx v = (case strip_prefix ENC_PREFIX v of
       None \<Rightarrow> Inr v
     | Some encoded \<Rightarrow> (case cipher of
         None \<Rightarrow> Inl MissingKey
       | Some key \<Rightarrow> (case b64_decode A encoded of
           None \<Rightarrow> Inl BadCiphertext
         | Some payload \<Rightarrow>
             if length payload \<le> NONCE_LEN then Inl Truncated
             else (case aead_decrypt A key (take NONCE_LEN payload) ctx (drop NONCE_LEN payload) of
                 None \<Rightarrow> Inl WrongKey
               | Some plaintext \<Rightarrow> (case from_utf8 plaintext of None \<Rightarrow> Inl NotUtf8 | Some s \<Rightarrow> Inr s)))))"

definition seal :: "sealing_lib \<Rightarrow> string option \<Rightarrow> string \<Rightarrow> string \<Rightarrow> string \<Rightarrow> secret_error + string" where
  "seal A cipher nonce ctx v =
     (if v = [] then Inr v
      else if starts_with v ENC_PREFIX then (case open_secret A cipher ctx v of Inl e \<Rightarrow> Inl e | Inr _ \<Rightarrow> Inr v)
      else (case cipher of
          None \<Rightarrow> Inr v
        | Some key \<Rightarrow> (case aead_encrypt A key nonce ctx v of
            None \<Rightarrow> Inl EncryptFailed
          | Some c \<Rightarrow> Inr (ENC_PREFIX @ b64_encode A (nonce @ c)))))"

definition seal_optional :: "sealing_lib \<Rightarrow> string option \<Rightarrow> string \<Rightarrow> string \<Rightarrow> string option \<Rightarrow> secret_error + string option" where
  "seal_optional A cipher nonce ctx v = (case v of
       None \<Rightarrow> Inr None
     | Some s \<Rightarrow> (case seal A cipher nonce ctx s of Inl e \<Rightarrow> Inl e | Inr t \<Rightarrow> Inr (Some t)))"

definition open_optional :: "sealing_lib \<Rightarrow> string option \<Rightarrow> string \<Rightarrow> string option \<Rightarrow> secret_error + string option" where
  "open_optional A cipher ctx v = (case v of
       None \<Rightarrow> Inr None
     | Some s \<Rightarrow> (case open_secret A cipher ctx s of Inl e \<Rightarrow> Inl e | Inr t \<Rightarrow> Inr (Some t)))"

section \<open>Sealing and opening\<close>

lemma strip_enc: "strip_prefix ENC_PREFIX (ENC_PREFIX @ e) = Some e" "starts_with (ENC_PREFIX @ e) ENC_PREFIX"
  by (simp_all add: strip_prefix_def starts_with_def)

lemma not_enc_Nil [simp]: "\<not> starts_with [] ENC_PREFIX"
  by (simp add: starts_with_def ENC_PREFIX_def)

lemma open_plain: "\<not> starts_with v ENC_PREFIX \<Longrightarrow> open_secret A cipher ctx v = Inr v"
  by (simp add: open_secret_def strip_prefix_def)

lemma open_sealed:
  assumes "sealing_lib_ok A" and "length nonce = NONCE_LEN" and "utf8_ok (map of_char v)"
    and "aead_encrypt A key nonce ctx v = Some c"
  shows "open_secret A (Some key) ctx (ENC_PREFIX @ b64_encode A (nonce @ c)) = Inr v"
proof -
  have "aead_decrypt A key nonce ctx c = Some v" "c \<noteq> []" "b64_decode A (b64_encode A (nonce @ c)) = Some (nonce @ c)"
    using assms(1,4) by (auto simp: sealing_lib_ok_def)
  then show ?thesis using assms(2,3) by (simp add: open_secret_def strip_enc from_utf8_def)
qed

text \<open>A value that does not look sealed comes back as it was.\<close>

lemma seal_opens:
  assumes "sealing_lib_ok A" and "length nonce = NONCE_LEN" and "utf8_ok (map of_char v)"
    and "seal A cipher nonce ctx v = Inr s" and "\<not> starts_with v ENC_PREFIX"
  shows "open_secret A cipher ctx s = Inr v"
proof (cases "v = [] \<or> cipher = None")
  case True
  then show ?thesis using assms(4,5) by (auto simp: seal_def open_plain split: if_splits)
next
  case False
  then obtain key c where "cipher = Some key" "aead_encrypt A key nonce ctx v = Some c" "s = ENC_PREFIX @ b64_encode A (nonce @ c)"
    using assms(4,5) by (auto simp: seal_def split: option.splits)
  then show ?thesis using open_sealed[OF assms(1-3)] by simp
qed

text \<open>A stored secret can be read back.  What sealing produces always opens again in the
  same place with the same key, sealing it once more leaves it alone, whatever nonce is
  drawn, and a value that did not look sealed already comes back as it was.  With a master
  key no nonempty value is stored in the clear; without one nothing is changed.\<close>

theorem sealed_secret_round_trip:
  assumes "sealing_lib_ok A" and "length nonce = NONCE_LEN" and "utf8_ok (map of_char v)"
    and "seal A cipher nonce ctx v = Inr s"
  shows "(\<exists>w. open_secret A cipher ctx s = Inr w) \<and> seal A cipher nonce' ctx s = Inr s
    \<and> (\<not> starts_with v ''enc:v1:'' \<longrightarrow> open_secret A cipher ctx s = Inr v)
    \<and> (cipher \<noteq> None \<and> v \<noteq> [] \<longrightarrow> starts_with s ''enc:v1:'') \<and> (cipher = None \<longrightarrow> s = v)"
proof (cases "starts_with v ENC_PREFIX")
  case True
  then have "s = v" "\<exists>w. open_secret A cipher ctx v = Inr w" "v \<noteq> []"
    using assms(4) by (auto simp: seal_def split: sum.splits if_splits)
  then show ?thesis using True assms(4) by (auto simp: seal_def ENC_PREFIX_def[symmetric])
next
  case False
  have o: "open_secret A cipher ctx s = Inr v" by (rule seal_opens[OF assms False])
  have s: "s = v \<and> (v = [] \<or> cipher = None) \<or> starts_with s ENC_PREFIX \<and> cipher \<noteq> None"
    using assms(4) False by (auto simp: seal_def strip_enc split: option.splits if_splits)
  then have "seal A cipher nonce' ctx s = Inr s"
    using o False by (auto simp: seal_def split: option.splits)
  then show ?thesis using o s by (auto simp: ENC_PREFIX_def[symmetric])
qed

text \<open>A cipher without secrecy: the tag is the associated data.\<close>

definition clear_lib :: sealing_lib where
  "clear_lib = \<lparr>b64_encode = (\<lambda>s. s), b64_decode = Some, hex_decode = (\<lambda>_. None),
     aead_encrypt = (\<lambda>k n a m. Some (m @ CHR ''|'' # a)),
     aead_decrypt = (\<lambda>k n a c. if ends_with c (CHR ''|'' # a) then Some (take (length c - length a - 1) c) else None)\<rparr>"

lemma clear_lib_ok: "sealing_lib_ok clear_lib"
  by (simp add: sealing_lib_ok_def clear_lib_def ends_with_def)

end
