(* ===== verification/Settings_Db.thy ===== *)
theory Settings_Db
  imports Secrets User_Accounts Admin_Auth Config_Load
begin

text \<open>
  Settings kept in the database (\<open>database.rs\<close>): the snapshot of the runtime configuration,
  the SMTP and ACME settings, the external sign-in providers, the migration that seals what
  an older version stored in the clear, and the configuration a process starts with
  (\<open>main.rs\<close>).

  Serialisation to JSON is a parameter; \<open>json_config_ok\<close> and \<open>json_acme_ok\<close> state that reading
  back what was written gives the same value without the fields the configuration types exclude from
  serialisation.  Nonces are arguments, named after the column and the row they are drawn
  for.  A transaction that fails leaves the tables as they were.
\<close>

section \<open>Secret fields of the configuration\<close>

text \<open>The columns of the ACME credentials, in the order of the statements, with the fields they
  hold.\<close>

definition acme_secret_columns ::
  "(string \<times> (acme_dns_config \<Rightarrow> string) \<times> ((string \<Rightarrow> string) \<Rightarrow> acme_dns_config \<Rightarrow> acme_dns_config)) list" where
  "acme_secret_columns =
     [(''cloudflare_api_token'', adc_cloudflare_api_token, adc_cloudflare_api_token_update),
      (''cloudflare_api_key'', adc_cloudflare_api_key, adc_cloudflare_api_key_update),
      (''cloudflare_email'', adc_cloudflare_email, adc_cloudflare_email_update),
      (''aliyun_access_key_id'', adc_aliyun_access_key_id, adc_aliyun_access_key_id_update),
      (''aliyun_access_key_secret'', adc_aliyun_access_key_secret, adc_aliyun_access_key_secret_update),
      (''tencent_secret_id'', adc_tencent_secret_id, adc_tencent_secret_id_update),
      (''tencent_secret_key'', adc_tencent_secret_key, adc_tencent_secret_key_update),
      (''route53_access_key_id'', adc_route53_access_key_id, adc_route53_access_key_id_update),
      (''route53_secret_access_key'', adc_route53_secret_access_key, adc_route53_secret_access_key_update),
      (''route53_session_token'', adc_route53_session_token, adc_route53_session_token_update),
      (''webhook_bearer_token'', adc_webhook_bearer_token, adc_webhook_bearer_token_update)]"

definition acme_context :: "string \<Rightarrow> string" where
  "acme_context column = ''acme.'' @ column"

definition acme_public :: "acme_config \<Rightarrow> acme_config" where
  "acme_public a = a\<lparr>ac_dns := fold (\<lambda>(_, _, upd). upd (\<lambda>_. [])) acme_secret_columns (ac_dns a)\<rparr>"

definition config_snapshot :: "config \<Rightarrow> config" where
  "config_snapshot c = c\<lparr>cfg_acme := acme_public (cfg_acme c), cfg_upstream_auth := []\<rparr>"

record json_lib =
  config_to_json :: "config \<Rightarrow> string"
  config_from_json :: "string \<Rightarrow> config option"
  acme_to_json :: "acme_config \<Rightarrow> string"
  acme_from_json :: "string \<Rightarrow> acme_config option"
  scopes_to_json :: "string list \<Rightarrow> string"
  scopes_from_json :: "string \<Rightarrow> string list option"

text \<open>Reading back what was written for one value gives the value without the excluded fields.
  The text of an object is UTF-8 and begins with a brace.\<close>

definition json_config_ok :: "json_lib \<Rightarrow> config \<Rightarrow> bool" where
  "json_config_ok J c \<longleftrightarrow> config_from_json J (config_to_json J c) = Some (config_snapshot c)
     \<and> starts_with (config_to_json J c) ''{'' \<and> utf8_ok (map of_char (config_to_json J c))"

definition json_acme_ok :: "json_lib \<Rightarrow> acme_config \<Rightarrow> bool" where
  "json_acme_ok J a \<longleftrightarrow> acme_from_json J (acme_to_json J a) = Some (acme_public a)"

record vault =
  va_lib :: sealing_lib
  va_cipher :: "string option"
  va_nonce :: "string \<Rightarrow> int \<Rightarrow> string"

definition vault_ok :: "vault \<Rightarrow> bool" where
  "vault_ok V \<longleftrightarrow> sealing_lib_ok (va_lib V) \<and> (\<forall>ctx i. length (va_nonce V ctx i) = NONCE_LEN)"

definition vseal :: "vault \<Rightarrow> string \<Rightarrow> int \<Rightarrow> string \<Rightarrow> secret_error + string" where
  "vseal V ctx i v = seal (va_lib V) (va_cipher V) (va_nonce V ctx i) ctx v"

definition vopen :: "vault \<Rightarrow> string \<Rightarrow> string \<Rightarrow> secret_error + string" where
  "vopen V ctx v = open_secret (va_lib V) (va_cipher V) ctx v"

definition vseal_optional :: "vault \<Rightarrow> string \<Rightarrow> int \<Rightarrow> string option \<Rightarrow> secret_error + string option" where
  "vseal_optional V ctx i v = seal_optional (va_lib V) (va_cipher V) (va_nonce V ctx i) ctx v"

definition vopen_optional :: "vault \<Rightarrow> string \<Rightarrow> string option \<Rightarrow> secret_error + string option" where
  "vopen_optional V ctx v = open_optional (va_lib V) (va_cipher V) ctx v"

text \<open>Loops that stop at the first error.\<close>

fun traverse :: "('a \<Rightarrow> 'e + 'b) \<Rightarrow> 'a list \<Rightarrow> 'e + 'b list" where
  "traverse f [] = Inr []"
| "traverse f (x # xs) = (case f x of Inl e \<Rightarrow> Inl e | Inr y \<Rightarrow>
     (case traverse f xs of Inl e \<Rightarrow> Inl e | Inr ys \<Rightarrow> Inr (y # ys)))"

definition ok_bind :: "('e + 'a) \<Rightarrow> ('a \<Rightarrow> 'e + 'b) \<Rightarrow> 'e + 'b" where
  "ok_bind r f = (case r of Inl e \<Rightarrow> Inl e | Inr x \<Rightarrow> f x)"

section \<open>Tables\<close>

record smtp_settings =
  sm_enabled :: bool
  sm_host :: string
  sm_port :: nat
  sm_security :: string
  sm_username :: "string option"
  sm_password :: "string option"
  sm_from_name :: string
  sm_from_address :: string

record acme_row =
  aw_settings_json :: string
  aw_columns :: "string \<rightharpoonup> string"
  aw_updated_at :: int

record auth_provider =
  ap_id :: int
  ap_slug :: string
  ap_display_name :: string
  ap_kind :: string
  ap_preset :: string
  ap_enabled :: bool
  ap_client_id :: string
  ap_client_secret :: "string option"
  ap_issuer_url :: "string option"
  ap_authorization_url :: "string option"
  ap_token_url :: "string option"
  ap_userinfo_url :: "string option"
  ap_emails_url :: "string option"
  ap_scopes :: "string list"
  ap_subject_field :: string
  ap_email_field :: string
  ap_email_verified_field :: "string option"
  ap_display_name_field :: string
  ap_allow_registration :: bool
  ap_auto_link_by_email :: bool

text \<open>A row of \<open>auth_providers\<close>: the provider with its secret as stored, and the text of the
  scopes.\<close>

record provider_row =
  pw_provider :: auth_provider
  pw_scopes_json :: string
  pw_created_at :: int
  pw_updated_at :: int

record settings_store =
  ss_store :: store
  ss_smtp :: "smtp_settings option"
  ss_acme :: "acme_row option"
  ss_providers :: "provider_row list"
  ss_providers_seq :: int

datatype settings_error =
    SecretFailed secret_error
  | StoredJsonInvalid
  | StoredConfigRejected config_error
  | ColumnMissing
  | ProviderNotFound
  | ProviderConstraint
  | EncryptedWithoutKey

definition on_store :: "(store \<Rightarrow> store) \<Rightarrow> settings_store \<Rightarrow> settings_store" where
  "on_store f st = st\<lparr>ss_store := f (ss_store st)\<rparr>"

section \<open>The runtime configuration\<close>

definition RUNTIME_CONTEXT :: string where
  "RUNTIME_CONTEXT = ''settings.runtime_config''"

definition put_setting :: "int \<Rightarrow> string \<Rightarrow> string \<Rightarrow> store \<Rightarrow> store" where
  "put_setting now key v st = st\<lparr>adm := (adm st)\<lparr>settings := (settings (adm st))(key \<mapsto>
     (case settings (adm st) key of
        None \<Rightarrow> \<lparr>st_value = v, st_version = 1, st_updated_at = now\<rparr>
      | Some r \<Rightarrow> r\<lparr>st_value := v, st_version := st_version r + 1, st_updated_at := now\<rparr>))\<rparr>\<rparr>"

definition save_runtime_config ::
  "vault \<Rightarrow> json_lib \<Rightarrow> int \<Rightarrow> string \<Rightarrow> config \<Rightarrow> string \<Rightarrow> settings_store \<Rightarrow> (settings_error + unit) \<times> settings_store" where
  "save_runtime_config V J now username c action st =
     (case vseal V RUNTIME_CONTEXT now (config_to_json J c) of
        Inl e \<Rightarrow> (Inl (SecretFailed e), st)
      | Inr v \<Rightarrow> (Inr (), on_store (\<lambda>s. log_audit now username action ''runtime_config'' (put_setting now ''runtime_config'' v s)) st))"

definition load_or_seed_runtime_config ::
  "vault \<Rightarrow> json_lib \<Rightarrow> (string \<Rightarrow> bool) \<Rightarrow> url_lib \<Rightarrow> int \<Rightarrow> config \<Rightarrow> settings_store
     \<Rightarrow> (settings_error + config) \<times> settings_store" where
  "load_or_seed_runtime_config V J tz_known L now fallback st =
     (case settings (adm (ss_store st)) ''runtime_config'' of
        None \<Rightarrow> (case save_runtime_config V J now ''system'' fallback ''seed runtime configuration'' st of
            (Inl e, st1) \<Rightarrow> (Inl e, st1) | (Inr _, st1) \<Rightarrow> (Inr fallback, st1))
      | Some row \<Rightarrow> (case vopen V RUNTIME_CONTEXT (st_value row) of
            Inl e \<Rightarrow> (Inl (SecretFailed e), st)
          | Inr text \<Rightarrow> (case config_from_json J text of
              None \<Rightarrow> (Inl StoredJsonInvalid, st)
            | Some c \<Rightarrow> (case Config_validate tz_known L c of
                Inl e \<Rightarrow> (Inl (StoredConfigRejected e), st)
              | Inr _ \<Rightarrow> (Inr c, st)))))"

section \<open>SMTP settings\<close>

definition smtp_settings :: "vault \<Rightarrow> settings_store \<Rightarrow> settings_error + smtp_settings option" where
  "smtp_settings V st = (case ss_smtp st of
       None \<Rightarrow> Inr None
     | Some row \<Rightarrow> (case vopen_optional V ''smtp_settings.password'' (sm_password row) of
         Inl e \<Rightarrow> Inl (SecretFailed e)
       | Inr p \<Rightarrow> Inr (Some (row\<lparr>sm_password := p\<rparr>))))"

definition save_smtp_settings ::
  "vault \<Rightarrow> int \<Rightarrow> string \<Rightarrow> smtp_settings \<Rightarrow> bool \<Rightarrow> settings_store \<Rightarrow> (settings_error + unit) \<times> settings_store" where
  "save_smtp_settings V now actor s preserve_password st =
     (case (if preserve_password
            then ok_bind (smtp_settings V st) (\<lambda>cur. Inr (Option.bind cur sm_password))
            else Inr (sm_password s)) of
        Inl e \<Rightarrow> (Inl e, st)
      | Inr password \<Rightarrow> (case vseal_optional V ''smtp_settings.password'' 1 password of
            Inl e \<Rightarrow> (Inl (SecretFailed e), st)
          | Inr sealed \<Rightarrow>
              (Inr (), on_store (log_audit now actor ''smtp_settings_updated'' ''smtp_settings'')
                 (st\<lparr>ss_smtp := Some (s\<lparr>sm_password := sealed\<rparr>)\<rparr>))))"

section \<open>ACME settings\<close>

definition acme_config_from_row :: "vault \<Rightarrow> json_lib \<Rightarrow> acme_row \<Rightarrow> settings_error + acme_config" where
  "acme_config_from_row V J row = (case acme_from_json J (aw_settings_json row) of
       None \<Rightarrow> Inl StoredJsonInvalid
     | Some a \<Rightarrow> ok_bind
         (traverse (\<lambda>(column, _, upd). case aw_columns row column of
            None \<Rightarrow> Inl ColumnMissing
          | Some v \<Rightarrow> (case vopen V (acme_context column) v of Inl e \<Rightarrow> Inl (SecretFailed e) | Inr p \<Rightarrow> Inr (upd (\<lambda>_. p))))
          acme_secret_columns)
         (\<lambda>fs. Inr (a\<lparr>ac_dns := fold (\<lambda>f. f) fs (ac_dns a)\<rparr>)))"

definition acme_settings :: "vault \<Rightarrow> json_lib \<Rightarrow> settings_store \<Rightarrow> settings_error + acme_config option" where
  "acme_settings V J st = (case ss_acme st of
       None \<Rightarrow> Inr None
     | Some row \<Rightarrow> (case acme_config_from_row V J row of Inl e \<Rightarrow> Inl e | Inr a \<Rightarrow> Inr (Some a)))"

definition save_acme_settings ::
  "vault \<Rightarrow> json_lib \<Rightarrow> int \<Rightarrow> string \<Rightarrow> acme_config \<Rightarrow> settings_store \<Rightarrow> (settings_error + unit) \<times> settings_store" where
  "save_acme_settings V J now actor a st =
     (case traverse (\<lambda>(column, get, _). case vseal V (acme_context column) 1 (get (ac_dns a)) of
          Inl e \<Rightarrow> Inl (SecretFailed e) | Inr v \<Rightarrow> Inr (column, v)) acme_secret_columns of
        Inl e \<Rightarrow> (Inl e, st)
      | Inr sealed \<Rightarrow>
          (Inr (), on_store (log_audit now actor ''acme_settings_updated'' ''acme_settings'')
             (st\<lparr>ss_acme := Some \<lparr>aw_settings_json = acme_to_json J a, aw_columns = map_of sealed, aw_updated_at = now\<rparr>\<rparr>)))"

definition load_or_seed_acme_settings ::
  "vault \<Rightarrow> json_lib \<Rightarrow> int \<Rightarrow> acme_config \<Rightarrow> settings_store \<Rightarrow> (settings_error + acme_config) \<times> settings_store" where
  "load_or_seed_acme_settings V J now fallback st = (case acme_settings V J st of
       Inl e \<Rightarrow> (Inl e, st)
     | Inr (Some a) \<Rightarrow> (Inr a, st)
     | Inr None \<Rightarrow> (case save_acme_settings V J now ''system'' fallback st of
         (Inl e, st1) \<Rightarrow> (Inl e, st1) | (Inr _, st1) \<Rightarrow> (Inr fallback, st1)))"

section \<open>Sealing what is stored in the clear\<close>

text \<open>\<open>value LIKE 'enc:v1:%'\<close>, which ignores the case of ASCII letters.\<close>

definition like_encrypted :: "string \<Rightarrow> bool" where
  "like_encrypted v \<longleftrightarrow> length ENC_PREFIX \<le> length v \<and> eq_ignore_ascii_case (take (length ENC_PREFIX) v) ENC_PREFIX"

text \<open>The keys the program writes to \<open>settings\<close>.\<close>

definition SETTING_KEYS :: "string list" where
  "SETTING_KEYS = [''runtime_config'', ''initial_admin_user_handle'']"

definition PROBED_ACME_COLUMNS :: "string list" where
  "PROBED_ACME_COLUMNS = [''cloudflare_api_token'', ''cloudflare_api_key'', ''aliyun_access_key_secret'', ''tencent_secret_key'',
     ''route53_secret_access_key'', ''webhook_bearer_token'']"

definition any_encrypted :: "settings_store \<Rightarrow> bool" where
  "any_encrypted st \<longleftrightarrow>
     list_ex (\<lambda>key. is_some_and (\<lambda>r. like_encrypted (st_value r)) (settings (adm (ss_store st)) key)) SETTING_KEYS
     \<or> is_some_and (\<lambda>s. is_some_and like_encrypted (sm_password s)) (ss_smtp st)
     \<or> list_ex (\<lambda>r. is_some_and like_encrypted (ap_client_secret (pw_provider r))) (ss_providers st)
     \<or> list_ex (\<lambda>f. like_encrypted (fl_payload f)) (user_auth_flows (usr (ss_store st)))
     \<or> list_ex (\<lambda>m. like_encrypted (ob_body m) \<or> is_some_and like_encrypted (ob_html_body m)) (email_outbox (mail (ss_store st)))
     \<or> is_some_and (\<lambda>r. list_ex (\<lambda>c. is_some_and like_encrypted (aw_columns r c)) PROBED_ACME_COLUMNS) (ss_acme st)"

definition seal_smtp :: "vault \<Rightarrow> smtp_settings option \<Rightarrow> secret_error + smtp_settings option" where
  "seal_smtp V row = (case row of
       None \<Rightarrow> Inr None
     | Some s \<Rightarrow> ok_bind (vseal_optional V ''smtp_settings.password'' 1 (sm_password s)) (\<lambda>p. Inr (Some (s\<lparr>sm_password := p\<rparr>))))"

definition seal_provider :: "vault \<Rightarrow> provider_row \<Rightarrow> secret_error + provider_row" where
  "seal_provider V r = ok_bind (vseal_optional V ''auth_providers.client_secret'' (ap_id (pw_provider r)) (ap_client_secret (pw_provider r)))
     (\<lambda>p. Inr (r\<lparr>pw_provider := (pw_provider r)\<lparr>ap_client_secret := p\<rparr>\<rparr>))"

definition seal_flow :: "vault \<Rightarrow> flow_row \<Rightarrow> secret_error + flow_row" where
  "seal_flow V f = ok_bind (vseal V ''user_auth_flows.payload'' (fl_provider_id f) (fl_payload f)) (\<lambda>p. Inr (f\<lparr>fl_payload := p\<rparr>))"

definition seal_mail :: "vault \<Rightarrow> outbox_row \<Rightarrow> secret_error + outbox_row" where
  "seal_mail V m = ok_bind (vseal V ''email_outbox.body'' (ob_id m) (ob_body m)) (\<lambda>b.
     ok_bind (vseal_optional V ''email_outbox.html_body'' (ob_id m) (ob_html_body m)) (\<lambda>h.
       Inr (m\<lparr>ob_body := b, ob_html_body := h\<rparr>)))"

definition seal_runtime :: "vault \<Rightarrow> (string \<rightharpoonup> setting_row) \<Rightarrow> secret_error + (string \<rightharpoonup> setting_row)" where
  "seal_runtime V s = (case s ''runtime_config'' of
       None \<Rightarrow> Inr s
     | Some r \<Rightarrow> ok_bind (vseal V RUNTIME_CONTEXT 0 (st_value r)) (\<lambda>v. Inr (s(''runtime_config'' \<mapsto> r\<lparr>st_value := v\<rparr>))))"

text \<open>The columns are declared \<open>NOT NULL\<close>; a missing one reads as an empty text.\<close>

definition seal_acme :: "vault \<Rightarrow> acme_row option \<Rightarrow> secret_error + acme_row option" where
  "seal_acme V row = (case row of
       None \<Rightarrow> Inr None
     | Some r \<Rightarrow> ok_bind (traverse (\<lambda>(column, _, _).
            ok_bind (vseal V (acme_context column) 1 (unwrap_or [] (aw_columns r column))) (\<lambda>v. Inr (column, v))) acme_secret_columns)
          (\<lambda>sealed. Inr (Some (r\<lparr>aw_columns := map_of sealed\<rparr>))))"

definition encrypt_plaintext_secrets :: "vault \<Rightarrow> settings_store \<Rightarrow> (settings_error + unit) \<times> settings_store" where
  "encrypt_plaintext_secrets V st =
     (if va_cipher V = None then (if any_encrypted st then (Inl EncryptedWithoutKey, st) else (Inr (), st))
      else case
        ok_bind (seal_smtp V (ss_smtp st)) (\<lambda>smtp.
        ok_bind (traverse (seal_provider V) (ss_providers st)) (\<lambda>providers.
        ok_bind (traverse (seal_flow V) (user_auth_flows (usr (ss_store st)))) (\<lambda>flows.
        ok_bind (traverse (seal_mail V) (email_outbox (mail (ss_store st)))) (\<lambda>outbox.
        ok_bind (seal_runtime V (settings (adm (ss_store st)))) (\<lambda>sets.
        ok_bind (seal_acme V (ss_acme st)) (\<lambda>acme.
          Inr (st\<lparr>ss_smtp := smtp, ss_providers := providers, ss_acme := acme,
             ss_store := (ss_store st)\<lparr>adm := (adm (ss_store st))\<lparr>settings := sets\<rparr>,
               usr := (usr (ss_store st))\<lparr>user_auth_flows := flows\<rparr>,
               mail := (mail (ss_store st))\<lparr>email_outbox := outbox\<rparr>\<rparr>\<rparr>))))))) of
          Inl e \<Rightarrow> (Inl (SecretFailed e), st)
        | Inr st1 \<Rightarrow> (Inr (), st1))"

section \<open>The configuration of a starting process\<close>

definition LEGACY_DESCRIPTION :: string where
  "LEGACY_DESCRIPTION = ''Fast, self-hosted package and source mirror proxy.''"

definition PREVIOUS_DESCRIPTION :: string where
  "PREVIOUS_DESCRIPTION =
     ''MirrorProxy '' @ [CHR 0xE8, CHR 0x87, CHR 0xAA, CHR 0xE6, CHR 0x89, CHR 0x98, CHR 0xE7, CHR 0xAE,
     CHR 0xA1, CHR 0xE9, CHR 0x95, CHR 0x9C, CHR 0xE5, CHR 0x83, CHR 0x8F, CHR 0xE5, CHR 0x8A, CHR 0xA0,
     CHR 0xE9, CHR 0x80, CHR 0x9F, CHR 0xE6, CHR 0x9C, CHR 0x8D, CHR 0xE5, CHR 0x8A, CHR 0xA1, CHR 0xEF,
     CHR 0xBC, CHR 0x8C, CHR 0xE6, CHR 0x94, CHR 0xAF, CHR 0xE6, CHR 0x8C, CHR 0x81] @ '' GitHub'' @ [CHR 0xE3,
     CHR 0x80, CHR 0x81] @ ''Docker/OCI'' @ [CHR 0xE3, CHR 0x80, CHR 0x81] @ ''npm'' @ [CHR 0xE3, CHR 0x80,
     CHR 0x81] @ ''PyPI'' @ [CHR 0xE3, CHR 0x80, CHR 0x81] @ ''crates.io'' @ [CHR 0xE3, CHR 0x80, CHR 0x81] @
     ''Go Modules'' @ [CHR 0xE3, CHR 0x80, CHR 0x81] @ ''Composer'' @ [CHR 0xE3, CHR 0x80, CHR 0x81] @
     ''Maven'' @ [CHR 0xE3, CHR 0x80, CHR 0x81] @ ''RubyGems'' @ [CHR 0xE3, CHR 0x80, CHR 0x81] @ ''NuGet'' @
     [CHR 0xE3, CHR 0x80, CHR 0x81] @ ''CPAN'' @ [CHR 0xE3, CHR 0x80, CHR 0x81] @ ''CRAN'' @ [CHR 0xE3,
     CHR 0x80, CHR 0x81] @ ''Hackage'' @ [CHR 0xE3, CHR 0x80, CHR 0x81] @ ''Homebrew'' @ [CHR 0xEF, CHR 0xBC,
     CHR 0x8C, CHR 0xE4, CHR 0xBB, CHR 0xA5, CHR 0xE5, CHR 0x8F, CHR 0x8A] @ '' Linux/BSD '' @ [CHR 0xE7,
     CHR 0xB3, CHR 0xBB, CHR 0xE7, CHR 0xBB, CHR 0x9F, CHR 0xE4, CHR 0xB8, CHR 0x8E, CHR 0xE5, CHR 0xB8,
     CHR 0xB8, CHR 0xE7, CHR 0x94, CHR 0xA8, CHR 0xE8, CHR 0xBD, CHR 0xAF, CHR 0xE4, CHR 0xBB, CHR 0xB6,
     CHR 0xE4, CHR 0xBB, CHR 0x93, CHR 0xE5, CHR 0xBA, CHR 0x93, CHR 0xE3, CHR 0x80, CHR 0x82] @
     '' Fast self-hosted package and source mirror proxy.''"

definition PREVIOUS_KEYWORDS :: "string list" where
  "PREVIOUS_KEYWORDS = [
      ''MirrorProxy'', [CHR 0xE9, CHR 0x95, CHR 0x9C, CHR 0xE5, CHR 0x83, CHR 0x8F, CHR 0xE5, CHR 0x8A,
      CHR 0xA0, CHR 0xE9, CHR 0x80, CHR 0x9F], [CHR 0xE8, CHR 0xBD, CHR 0xAF, CHR 0xE4, CHR 0xBB, CHR 0xB6,
      CHR 0xE6, CHR 0xBA, CHR 0x90], ''GitHub'', ''Docker'', ''OCI'', ''npm'', ''Go Modules'', ''Maven'',
      ''PyPI'', ''crates.io'', ''Homebrew'', ''Linux'', ''BSD'', [CHR 0xE8, CHR 0xBD, CHR 0xAF, CHR 0xE4,
      CHR 0xBB, CHR 0xB6, CHR 0xE4, CHR 0xBB, CHR 0x93, CHR 0xE5, CHR 0xBA, CHR 0x93], ''Composer'',
      ''RubyGems'', ''NuGet'', ''CPAN'', ''CRAN'']"

definition SiteConfig_upgrade_legacy_defaults :: "site_config \<Rightarrow> site_config" where
  "SiteConfig_upgrade_legacy_defaults s =
     (let original_defaults = (sc_description s = PREVIOUS_DESCRIPTION \<and> sc_keywords s = PREVIOUS_KEYWORDS)
      in if (trim (sc_description s) = LEGACY_DESCRIPTION \<and> sc_keywords s = []) \<or> original_defaults
         then s\<lparr>sc_description := default_site_description, sc_keywords := default_site_keywords\<rparr> else s)"

text \<open>Which settings the environment of the process overrides.\<close>

record process_env =
  pe_vars :: "string list"

definition acme_environment_managed :: "process_env \<Rightarrow> bool" where
  "acme_environment_managed P = list_ex (\<lambda>key. starts_with key ''MIRRORPROXY_ACME_'' \<or> key \<in> set
     [''CF_Zone_ID'', ''CF_Token'', ''CF_Key'', ''CF_Email'', ''Ali_Key'', ''Ali_Secret'', ''Tencent_SecretId'', ''Tencent_SecretKey'',
      ''AWS_ACCESS_KEY_ID'', ''AWS_SECRET_ACCESS_KEY'', ''AWS_SESSION_TOKEN'']) (pe_vars P)"

definition any_var :: "process_env \<Rightarrow> string list \<Rightarrow> bool" where
  "any_var P keys = list_ex (\<lambda>key. key \<in> set (pe_vars P)) keys"

definition OUTBOUND_PROXY_VARS :: "string list" where
  "OUTBOUND_PROXY_VARS = [''MIRRORPROXY_OUTBOUND_PROXY_ENABLED'', ''MIRRORPROXY_OUTBOUND_PROXY_URL'',
     ''MIRRORPROXY_OUTBOUND_PROXY_USERNAME'', ''MIRRORPROXY_OUTBOUND_PROXY_PASSWORD'', ''MIRRORPROXY_OUTBOUND_PROXY_NO_PROXY'']"

definition UPSTREAM_TLS_VARS :: "string list" where
  "UPSTREAM_TLS_VARS = [''MIRRORPROXY_UPSTREAM_TLS_CA_CERTIFICATES'', ''MIRRORPROXY_UPSTREAM_TLS_INSECURE_SKIP_VERIFY'']"

definition startup_config ::
  "vault \<Rightarrow> json_lib \<Rightarrow> (string \<Rightarrow> bool) \<Rightarrow> url_lib \<Rightarrow> process_env \<Rightarrow> int \<Rightarrow> config \<Rightarrow> settings_store
     \<Rightarrow> (settings_error + config) \<times> settings_store" where
  "startup_config V J tz_known L P now service st =
     (case load_or_seed_runtime_config V J tz_known L now service st of
        (Inl e, st1) \<Rightarrow> (Inl e, st1)
      | (Inr c, st1) \<Rightarrow>
          (let c1 = c\<lparr>cfg_site := SiteConfig_upgrade_legacy_defaults (cfg_site c),
                 cfg_upstreams := Upstreams_upgrade_legacy_defaults (cfg_upstreams c),
                 cfg_management := cfg_management service, cfg_upstream_auth := cfg_upstream_auth service\<rparr>
           in case (if acme_environment_managed P then (Inr (cfg_acme service), st1)
                    else load_or_seed_acme_settings V J now (cfg_acme service) st1) of
                (Inl e, st2) \<Rightarrow> (Inl e, st2)
              | (Inr a, st2) \<Rightarrow>
                  (let c2 = c1\<lparr>cfg_acme := a\<rparr>;
                       c3 = (if any_var P OUTBOUND_PROXY_VARS then c2\<lparr>cfg_outbound_proxy := cfg_outbound_proxy service\<rparr> else c2);
                       c4 = (if any_var P UPSTREAM_TLS_VARS then c3\<lparr>cfg_upstream_tls := cfg_upstream_tls service\<rparr> else c3)
                   in (Inr c4, st2))))"

section \<open>Reading back\<close>

lemma ok_bind_Inr: "ok_bind r f = Inr y \<longleftrightarrow> (\<exists>x. r = Inr x \<and> f x = Inr y)"
  by (simp add: ok_bind_def split: sum.split)

lemma traverse_Inr: "traverse f xs = Inr ys \<Longrightarrow> list_all2 (\<lambda>x y. f x = Inr y) xs ys"
  by (induction xs arbitrary: ys) (auto split: sum.splits)

lemma vseal_reads:
  assumes "vault_ok V" and "utf8_ok (map of_char v)" and "vseal V ctx i v = Inr s"
  shows "vopen V ctx s = vopen V ctx v" and "va_cipher V \<noteq> None \<Longrightarrow> s = [] \<or> starts_with s ENC_PREFIX"
    and "\<not> starts_with v ENC_PREFIX \<Longrightarrow> vopen V ctx s = Inr v"
proof -
  have lib: "sealing_lib_ok (va_lib V)" "length (va_nonce V ctx i) = NONCE_LEN" using assms(1) by (auto simp: vault_ok_def)
  have s: "seal (va_lib V) (va_cipher V) (va_nonce V ctx i) ctx v = Inr s" using assms(3) by (simp add: vseal_def)
  show plain: "vopen V ctx s = Inr v" if "\<not> starts_with v ENC_PREFIX"
    using seal_opens[OF lib assms(2) s that] by (simp add: vopen_def)
  show "vopen V ctx s = vopen V ctx v"
  proof (cases "starts_with v ENC_PREFIX")
    case True
    then have "s = v" using s by (auto simp: seal_def split: sum.splits if_splits)
    then show ?thesis by simp
  next
    case False
    then show ?thesis using plain by (simp add: vopen_def open_plain)
  qed
  show "s = [] \<or> starts_with s ENC_PREFIX" if "va_cipher V \<noteq> None"
    using s that by (auto simp: seal_def strip_enc split: sum.splits if_splits option.splits)
qed

text \<open>Everything secret that is stored, with the place it is bound to.\<close>

definition opt_column :: "string \<Rightarrow> string option \<Rightarrow> (string \<times> string) list" where
  "opt_column ctx v = (case v of None \<Rightarrow> [] | Some s \<Rightarrow> [(ctx, s)])"

definition smtp_columns :: "smtp_settings option \<Rightarrow> (string \<times> string) list" where
  "smtp_columns row = (case row of None \<Rightarrow> [] | Some s \<Rightarrow> opt_column ''smtp_settings.password'' (sm_password s))"

definition acme_columns :: "acme_row option \<Rightarrow> (string \<times> string) list" where
  "acme_columns row = (case row of None \<Rightarrow> []
     | Some r \<Rightarrow> map (\<lambda>(column, _, _). (acme_context column, unwrap_or [] (aw_columns r column))) acme_secret_columns)"

definition runtime_columns :: "(string \<rightharpoonup> setting_row) \<Rightarrow> (string \<times> string) list" where
  "runtime_columns s = opt_column RUNTIME_CONTEXT (map_option st_value (s ''runtime_config''))"

definition secret_columns :: "settings_store \<Rightarrow> (string \<times> string) list" where
  "secret_columns st = smtp_columns (ss_smtp st)
     @ concat (map (\<lambda>r. opt_column ''auth_providers.client_secret'' (ap_client_secret (pw_provider r))) (ss_providers st))
     @ map (\<lambda>f. (''user_auth_flows.payload'', fl_payload f)) (user_auth_flows (usr (ss_store st)))
     @ concat (map (\<lambda>m. (''email_outbox.body'', ob_body m) # opt_column ''email_outbox.html_body'' (ob_html_body m))
         (email_outbox (mail (ss_store st))))
     @ runtime_columns (settings (adm (ss_store st)))
     @ acme_columns (ss_acme st)"

definition utf8_columns :: "(string \<times> string) list \<Rightarrow> bool" where
  "utf8_columns cols = list_all (\<lambda>(_, v). utf8_ok (map of_char v)) cols"

text \<open>The same columns, each sealed and reading as before.\<close>

definition sealed_copy :: "vault \<Rightarrow> (string \<times> string) list \<Rightarrow> (string \<times> string) list \<Rightarrow> bool" where
  "sealed_copy V = list_all2 (\<lambda>(c, v) (c', v'). c' = c \<and> vopen V c v' = vopen V c v \<and> (v' = [] \<or> starts_with v' ENC_PREFIX))"

lemma sealed_copy_append: "sealed_copy V a a' \<Longrightarrow> sealed_copy V b b' \<Longrightarrow> sealed_copy V (a @ b) (a' @ b')"
  by (simp add: sealed_copy_def list_all2_appendI)

lemma sealed_copy_concat:
  assumes "list_all2 (\<lambda>x y. f x = Inr y) xs ys" and "\<And>x y. f x = Inr y \<Longrightarrow> utf8_columns (g x) \<Longrightarrow> sealed_copy V (g x) (g y)"
    and "utf8_columns (concat (map g xs))"
  shows "sealed_copy V (concat (map g xs)) (concat (map g ys))"
  using assms(1,3)
proof (induction rule: list_all2_induct)
  case Nil
  then show ?case by (simp add: sealed_copy_def)
next
  case (Cons x xs y ys)
  then show ?case using assms(2) by (auto simp: utf8_columns_def intro!: sealed_copy_append)
qed

lemma vseal_copy:
  assumes "vault_ok V" "va_cipher V \<noteq> None" "vseal V c i v = Inr s" "utf8_columns [(c, v)]"
  shows "sealed_copy V [(c, v)] [(c, s)]"
  using vseal_reads[OF assms(1) _ assms(3)] assms(2,4) by (auto simp: sealed_copy_def utf8_columns_def)

lemma vseal_optional_copy:
  assumes "vault_ok V" "va_cipher V \<noteq> None" "vseal_optional V c i v = Inr s" "utf8_columns (opt_column c v)"
  shows "sealed_copy V (opt_column c v) (opt_column c s)"
  using vseal_copy[OF assms(1,2), of c i] assms(3,4)
  by (auto simp: vseal_optional_def seal_optional_def vseal_def opt_column_def sealed_copy_def split: option.splits sum.splits)

lemma acme_columns_distinct: "distinct (map fst acme_secret_columns)"
  by (simp add: acme_secret_columns_def)

text \<open>What the columns hold once all of them have been sealed.\<close>

lemma map_of_traverse:
  assumes "list_all2 (\<lambda>x y. \<exists>v. g x = Inr v \<and> (fst x, v) = y) xs ys" and "distinct (map fst xs)" and "x \<in> set xs"
  shows "\<exists>v. g x = Inr v \<and> map_of ys (fst x) = Some v"
  using assms
proof (induction rule: list_all2_induct)
  case (Cons z zs y ys)
  show ?case
  proof (cases "x = z")
    case True
    then show ?thesis using Cons by force
  next
    case False
    then have x: "x \<in> set zs" using Cons.prems by auto
    then have "fst x \<noteq> fst z" using Cons.prems by (auto simp: image_iff)
    with x show ?thesis using Cons by auto
  qed
qed simp

lemma seal_acme_copy:
  assumes V: "vault_ok V" "va_cipher V \<noteq> None" and s: "seal_acme V row = Inr row'" and u: "utf8_columns (acme_columns row)"
  shows "sealed_copy V (acme_columns row) (acme_columns row')"
proof (cases row)
  case None
  then show ?thesis using s by (simp add: seal_acme_def acme_columns_def sealed_copy_def)
next
  case (Some r)
  let ?g = "\<lambda>x. vseal V (acme_context (fst x)) 1 (unwrap_or [] (aw_columns r (fst x)))"
  obtain ys where r': "row' = Some (r\<lparr>aw_columns := map_of ys\<rparr>)"
    and ys: "list_all2 (\<lambda>x y. \<exists>v. ?g x = Inr v \<and> (fst x, v) = y) acme_secret_columns ys"
    using s Some by (auto simp: seal_acme_def ok_bind_Inr case_prod_beta dest!: traverse_Inr)
  have "sealed_copy V [(acme_context (fst x), unwrap_or [] (aw_columns r (fst x)))]
      [(acme_context (fst x), unwrap_or [] (map_of ys (fst x)))]" if x: "x \<in> set acme_secret_columns" for x
  proof -
    obtain v where v: "?g x = Inr v" "map_of ys (fst x) = Some v"
      using map_of_traverse[OF ys acme_columns_distinct x] by blast
    have "utf8_columns [(acme_context (fst x), unwrap_or [] (aw_columns r (fst x)))]"
      using u x by (auto simp: Some acme_columns_def utf8_columns_def list_all_iff case_prod_beta)
    then show ?thesis using vseal_copy[OF V v(1)] v(2) by simp
  qed
  then show ?thesis
    unfolding Some r' acme_columns_def sealed_copy_def by (simp add: list.rel_map case_prod_beta list.rel_refl_strong)
qed

text \<open>C31: Turning encryption on loses nothing.  When the start-up migration has gone through,
  every stored secret, the configuration snapshot, the mails and the sign-in flows included,
  opens to what it opened to before, in the same place; with a master key none of them is
  left in the clear; and when the migration fails, or when there is no key, nothing has been
  written.\<close>

theorem encryption_migration_preserves_secrets:
  assumes "vault_ok V" and "utf8_columns (secret_columns st)" and "encrypt_plaintext_secrets V st = (r, st')"
  shows "map (\<lambda>(c, v). (c, vopen V c v)) (secret_columns st') = map (\<lambda>(c, v). (c, vopen V c v)) (secret_columns st)
    \<and> (r = Inr () \<and> va_cipher V \<noteq> None \<longrightarrow> list_all (\<lambda>(_, v). v = [] \<or> starts_with v ''enc:v1:'') (secret_columns st'))
    \<and> (r \<noteq> Inr () \<or> va_cipher V = None \<longrightarrow> st' = st)"
proof (cases "r \<noteq> Inr () \<or> va_cipher V = None")
  case True
  then have "st' = st" using assms(3) by (auto simp: encrypt_plaintext_secrets_def split: sum.splits if_splits)
  then show ?thesis using True by auto
next
  case False
  then obtain smtp ps fs ms sets acme where
    s: "seal_smtp V (ss_smtp st) = Inr smtp" "traverse (seal_provider V) (ss_providers st) = Inr ps"
      "traverse (seal_flow V) (user_auth_flows (usr (ss_store st))) = Inr fs"
      "traverse (seal_mail V) (email_outbox (mail (ss_store st))) = Inr ms"
      "seal_runtime V (settings (adm (ss_store st))) = Inr sets" "seal_acme V (ss_acme st) = Inr acme"
    and st': "st' = st\<lparr>ss_smtp := smtp, ss_providers := ps, ss_acme := acme,
       ss_store := (ss_store st)\<lparr>adm := (adm (ss_store st))\<lparr>settings := sets\<rparr>, usr := (usr (ss_store st))\<lparr>user_auth_flows := fs\<rparr>,
         mail := (mail (ss_store st))\<lparr>email_outbox := ms\<rparr>\<rparr>\<rparr>"
    using assms(3) by (auto simp: encrypt_plaintext_secrets_def ok_bind_Inr split: sum.splits)
  have key: "va_cipher V \<noteq> None" using False by simp
  note seal1 = vseal_copy[OF assms(1) key] and seal2 = vseal_optional_copy[OF assms(1) key]
  note u = assms(2)[unfolded secret_columns_def utf8_columns_def list_all_append, folded utf8_columns_def]
  have "sealed_copy V (smtp_columns (ss_smtp st)) (smtp_columns smtp)"
    using s(1) u by (auto simp: seal_smtp_def smtp_columns_def sealed_copy_def ok_bind_Inr split: option.splits intro!: seal2[unfolded sealed_copy_def])
  moreover have "sealed_copy V (concat (map (\<lambda>r. opt_column ''auth_providers.client_secret'' (ap_client_secret (pw_provider r))) (ss_providers st)))
      (concat (map (\<lambda>r. opt_column ''auth_providers.client_secret'' (ap_client_secret (pw_provider r))) ps))"
    using u by (intro sealed_copy_concat[OF traverse_Inr[OF s(2)]]) (auto simp: seal_provider_def ok_bind_Inr intro!: seal2)
  moreover have "sealed_copy V (concat (map (\<lambda>f. [(''user_auth_flows.payload'', fl_payload f)]) (user_auth_flows (usr (ss_store st)))))
      (concat (map (\<lambda>f. [(''user_auth_flows.payload'', fl_payload f)]) fs))"
    using u by (intro sealed_copy_concat[OF traverse_Inr[OF s(3)]]) (auto simp: seal_flow_def ok_bind_Inr concat_map_singleton intro!: seal1)
  moreover have "sealed_copy V (concat (map (\<lambda>m. (''email_outbox.body'', ob_body m) # opt_column ''email_outbox.html_body'' (ob_html_body m))
        (email_outbox (mail (ss_store st)))))
      (concat (map (\<lambda>m. (''email_outbox.body'', ob_body m) # opt_column ''email_outbox.html_body'' (ob_html_body m)) ms))"
  proof (rule sealed_copy_concat[OF traverse_Inr[OF s(4)]])
    fix x y assume xy: "seal_mail V x = Inr y" and ux: "utf8_columns ((''email_outbox.body'', ob_body x) # opt_column ''email_outbox.html_body'' (ob_html_body x))"
    have "sealed_copy V ([(''email_outbox.body'', ob_body x)] @ opt_column ''email_outbox.html_body'' (ob_html_body x))
        ([(''email_outbox.body'', ob_body y)] @ opt_column ''email_outbox.html_body'' (ob_html_body y))"
      using xy ux by (intro sealed_copy_append seal1 seal2) (auto simp: seal_mail_def ok_bind_Inr utf8_columns_def)
    then show "sealed_copy V ((''email_outbox.body'', ob_body x) # opt_column ''email_outbox.html_body'' (ob_html_body x))
        ((''email_outbox.body'', ob_body y) # opt_column ''email_outbox.html_body'' (ob_html_body y))" by simp
  qed (use u in simp)
  moreover have "sealed_copy V (runtime_columns (settings (adm (ss_store st)))) (runtime_columns sets)"
  proof (cases "settings (adm (ss_store st)) ''runtime_config''")
    case None
    then show ?thesis using s(5) by (auto simp: seal_runtime_def runtime_columns_def opt_column_def sealed_copy_def)
  next
    case (Some row)
    then obtain v where "vseal V RUNTIME_CONTEXT 0 (st_value row) = Inr v" "runtime_columns sets = [(RUNTIME_CONTEXT, v)]"
      using s(5) by (auto simp: seal_runtime_def runtime_columns_def opt_column_def ok_bind_Inr)
    then show ?thesis using seal1 u Some by (simp add: runtime_columns_def opt_column_def)
  qed
  moreover have "sealed_copy V (acme_columns (ss_acme st)) (acme_columns acme)"
    using u by (intro seal_acme_copy[OF assms(1) key s(6)]) simp
  ultimately have "sealed_copy V (secret_columns st) (secret_columns st')"
    unfolding secret_columns_def st' by (auto simp: concat_map_singleton intro!: sealed_copy_append)
  then show ?thesis using False
    unfolding sealed_copy_def by (auto simp: list_all2_conv_all_nth list_all_length ENC_PREFIX_def[symmetric] case_prod_beta intro!: nth_equalityI)
qed


definition clear_vault :: vault where
  "clear_vault = \<lparr>va_lib = clear_lib, va_cipher = Some ''key'', va_nonce = (\<lambda>_ _. replicate 24 (CHR ''n''))\<rparr>"

definition empty_settings :: settings_store where
  "empty_settings = \<lparr>ss_store = empty_store, ss_smtp = None, ss_acme = None, ss_providers = [], ss_providers_seq = 0\<rparr>"

definition old_smtp :: settings_store where
  "old_smtp = empty_settings\<lparr>ss_smtp := Some \<lparr>sm_enabled = True, sm_host = ''mx'', sm_port = 25, sm_security = ''none'',
     sm_username = None, sm_password = Some ''pw'', sm_from_name = [], sm_from_address = []\<rparr>\<rparr>"

lemma clear_vault_ok: "vault_ok clear_vault"
  by (simp add: vault_ok_def clear_vault_def clear_lib_ok NONCE_LEN_def)

theorem encryption_migration_preserves_secrets_witness:
  "list_all (\<lambda>(_, v). v = [] \<or> starts_with v ''enc:v1:'') (secret_columns (snd (encrypt_plaintext_secrets clear_vault old_smtp)))
   \<and> map (\<lambda>(c, v). vopen clear_vault c v) (secret_columns (snd (encrypt_plaintext_secrets clear_vault old_smtp))) = [Inr ''pw'']"
proof -
  obtain r st' where r: "encrypt_plaintext_secrets clear_vault old_smtp = (r, st')" by (cases "encrypt_plaintext_secrets clear_vault old_smtp")
  have c: "secret_columns old_smtp = [(''smtp_settings.password'', ''pw'')]"
    by (simp add: secret_columns_def old_smtp_def empty_settings_def empty_store_def smtp_columns_def opt_column_def runtime_columns_def acme_columns_def)
  have "fst (encrypt_plaintext_secrets clear_vault old_smtp) = Inr ()" by code_simp
  then have ok: "r = Inr ()" by (simp add: r)
  have u: "utf8_columns (secret_columns old_smtp)" by (simp add: c utf8_columns_def)
  have k: "va_cipher clear_vault \<noteq> None" by (simp add: clear_vault_def)
  note p = encryption_migration_preserves_secrets[OF clear_vault_ok u r]
  have o: "vopen clear_vault ''smtp_settings.password'' ''pw'' = Inr ''pw''"
    by (simp add: vopen_def open_plain starts_with_def ENC_PREFIX_def)
  have "map snd (map (\<lambda>(c, v). (c, vopen clear_vault c v)) (secret_columns st')) = [Inr ''pw'']"
    using p by (simp add: c o)
  then show ?thesis using p ok k unfolding r by (simp add: case_prod_unfold comp_def)
qed

section \<open>Restarting\<close>

lemma json_plain:
  assumes "json_config_ok J c"
  shows "\<not> starts_with (config_to_json J c) ENC_PREFIX"
proof -
  have "starts_with (config_to_json J c) ''{''" using assms by (simp add: json_config_ok_def)
  then obtain s where "config_to_json J c = CHR ''{'' # s" by (cases "config_to_json J c") (auto simp: starts_with_def)
  then show ?thesis by (simp add: starts_with_def ENC_PREFIX_def)
qed

lemma runtime_config_stored:
  assumes "vault_ok V" and "json_config_ok J c" and "save_runtime_config V J now user c action st = (Inr (), st')"
  shows "\<exists>row. settings (adm (ss_store st')) ''runtime_config'' = Some row \<and> vopen V RUNTIME_CONTEXT (st_value row) = Inr (config_to_json J c)"
proof -
  obtain v where v: "vseal V RUNTIME_CONTEXT now (config_to_json J c) = Inr v"
    and st': "st' = on_store (\<lambda>s. log_audit now user action ''runtime_config'' (put_setting now ''runtime_config'' v s)) st"
    using assms(3) by (auto simp: save_runtime_config_def split: sum.splits)
  have "vopen V RUNTIME_CONTEXT v = Inr (config_to_json J c)"
    using vseal_reads(3)[OF assms(1) _ v json_plain[OF assms(2)]] assms(2) by (simp add: json_config_ok_def)
  then show ?thesis by (auto simp: st' on_store_def put_setting_def split: option.split)
qed

lemma runtime_config_loads:
  assumes "json_config_ok J c" and "settings (adm (ss_store st)) ''runtime_config'' = Some row"
    and "vopen V RUNTIME_CONTEXT (st_value row) = Inr (config_to_json J c)"
  shows "load_or_seed_runtime_config V J tz L now fallback st =
    (case Config_validate tz L (config_snapshot c) of Inl e \<Rightarrow> (Inl (StoredConfigRejected e), st) | Inr _ \<Rightarrow> (Inr (config_snapshot c), st))"
  using assms by (simp add: load_or_seed_runtime_config_def json_config_ok_def)

lemma case_sum_Inr: "(case r of Inl e \<Rightarrow> Inl (f e) | Inr v \<Rightarrow> Inr (g v)) = Inr y \<longleftrightarrow> (\<exists>v. r = Inr v \<and> g v = y)"
  by (simp split: sum.split)

definition acme_secrets_plain :: "acme_config \<Rightarrow> bool" where
  "acme_secrets_plain a = list_all (\<lambda>(_, get, _). \<not> starts_with (get (ac_dns a)) ENC_PREFIX \<and> utf8_ok (map of_char (get (ac_dns a))))
     acme_secret_columns"

text \<open>Writing every secret field into a configuration without them gives back the configuration.\<close>

lemma acme_refill:
  "fold (\<lambda>f. f) (map (\<lambda>(_, get, upd). upd (\<lambda>_. get d)) acme_secret_columns)
     (fold (\<lambda>(_, _, upd). upd (\<lambda>_. [])) acme_secret_columns d) = d"
  by (cases d) (simp add: acme_secret_columns_def)

lemma acme_settings_load:
  assumes "vault_ok V" and "json_acme_ok J a" and "acme_secrets_plain a" and "save_acme_settings V J now actor a st = (Inr (), st')"
  shows "acme_settings V J st' = Inr (Some a)"
proof -
  let ?g = "\<lambda>x. vseal V (acme_context (fst x)) 1 (fst (snd x) (ac_dns a))"
  obtain ys where ys: "list_all2 (\<lambda>x y. \<exists>v. ?g x = Inr v \<and> (fst x, v) = y) acme_secret_columns ys"
    and row: "ss_acme st' = Some \<lparr>aw_settings_json = acme_to_json J a, aw_columns = map_of ys, aw_updated_at = now\<rparr>"
    using assms(4)
    by (auto simp: save_acme_settings_def on_store_def case_prod_beta case_sum_Inr split: sum.splits dest!: traverse_Inr)
  have "(case map_of ys (fst x) of None \<Rightarrow> Inl ColumnMissing
      | Some v \<Rightarrow> (case vopen V (acme_context (fst x)) v of Inl e \<Rightarrow> Inl (SecretFailed e) | Inr p \<Rightarrow> Inr (snd (snd x) (\<lambda>_. p))))
      = Inr (snd (snd x) (\<lambda>_. fst (snd x) (ac_dns a)))" if x: "x \<in> set acme_secret_columns" for x
  proof -
    obtain v where v: "?g x = Inr v" "map_of ys (fst x) = Some v"
      using map_of_traverse[OF ys acme_columns_distinct x] by blast
    have "\<not> starts_with (fst (snd x) (ac_dns a)) ENC_PREFIX" "utf8_ok (map of_char (fst (snd x) (ac_dns a)))"
      using assms(3) x by (auto simp: acme_secrets_plain_def list_all_iff case_prod_beta)
    then show ?thesis using vseal_reads(3)[OF assms(1) _ v(1)] v(2) by simp
  qed
  then have "traverse (\<lambda>x. case map_of ys (fst x) of None \<Rightarrow> Inl ColumnMissing
      | Some v \<Rightarrow> (case vopen V (acme_context (fst x)) v of Inl e \<Rightarrow> Inl (SecretFailed e) | Inr p \<Rightarrow> Inr (snd (snd x) (\<lambda>_. p)))) xs
      = Inr (map (\<lambda>x. snd (snd x) (\<lambda>_. fst (snd x) (ac_dns a))) xs)" if "set xs \<subseteq> set acme_secret_columns" for xs
    using that by (induction xs) auto
  note tr = this[OF order_refl]
  have "acme_from_json J (acme_to_json J a) = Some (acme_public a)" using assms(2) by (simp add: json_acme_ok_def)
  then show ?thesis
    using acme_refill[of "ac_dns a"]
    by (simp add: acme_settings_def row acme_config_from_row_def case_prod_unfold tr ok_bind_def acme_public_def)
qed



text \<open>A codec that knows one configuration and one set of certificates.\<close>

definition fixed_json :: "config \<Rightarrow> json_lib" where
  "fixed_json c = \<lparr>config_to_json = (\<lambda>_. ''{}''), config_from_json = (\<lambda>_. Some (config_snapshot c)),
     acme_to_json = (\<lambda>_. ''{}''), acme_from_json = (\<lambda>_. Some (acme_public (cfg_acme c))),
     scopes_to_json = (\<lambda>_. ''[]''), scopes_from_json = (\<lambda>_. Some [])\<rparr>"

lemma fixed_json_ok: "json_config_ok (fixed_json c) c" "json_acme_ok (fixed_json c) (cfg_acme c)"
  by (simp_all add: json_config_ok_def json_acme_ok_def fixed_json_def starts_with_def)


text \<open>C37: A configuration whose certificates are issued over DNS cannot be restarted.  The
  snapshot of the runtime configuration leaves the DNS credentials out, and loading it demands
  them: once a configuration with ACME enabled, the DNS challenge and one of the four
  credential-based providers has been stored, every later start fails, even though the
  credentials are stored with the ACME settings or given by the environment.\<close>

theorem dns01_snapshot_refuses_restart:
  assumes "vault_ok V" and "json_config_ok J c"
    and "save_runtime_config V J t1 user c action st = (Inr (), st1)"
    and "ac_enabled (cfg_acme c)" and "ac_challenge (cfg_acme c) = ''dns-01''"
    and "adc_provider (ac_dns (cfg_acme c)) \<in> {''cloudflare'', ''aliyun'', ''tencent'', ''route53''}"
  shows "\<exists>e. startup_config V J tz L P now service st1 = (Inl (StoredConfigRejected e), st1)"
proof -
  obtain row where row: "settings (adm (ss_store st1)) ''runtime_config'' = Some row"
    "vopen V RUNTIME_CONTEXT (st_value row) = Inr (config_to_json J c)"
    using runtime_config_stored[OF assms(1-3)] by blast
  have "\<exists>e. acme_challenge_ok L (cfg_acme (config_snapshot c)) = Inl e"
    using assms(5,6) by (auto simp: acme_challenge_ok_def config_snapshot_def acme_public_def acme_secret_columns_def bail_if_def trim_def trim_start_def trim_end_def Let_def)
  then have "AcmeConfig_validate L (cfg_acme (config_snapshot c)) \<noteq> Inr ()"
    using assms(4) by (auto simp: AcmeConfig_validate_def all_ok_iff config_snapshot_def acme_public_def)
  then obtain e where "Config_validate tz L (config_snapshot c) = Inl e"
    by (cases "Config_validate tz L (config_snapshot c)") (auto simp: Config_validate_def all_ok_iff validate_limits_def Let_def)
  then show ?thesis
    using runtime_config_loads[OF assms(2) row, of tz L now service] by (simp add: startup_config_def)
qed

definition dns01_config :: config where
  "dns01_config = small_config\<lparr>cfg_acme := (cfg_acme small_config)\<lparr>ac_enabled := True, ac_email := ''a@b.org'', ac_domains := [''b.org''],
     ac_challenge := ''dns-01'', ac_dns := (ac_dns (cfg_acme small_config))\<lparr>adc_provider := ''cloudflare'',
     adc_cloudflare_zone_id := ''z'', adc_cloudflare_api_token := ''token''\<rparr>\<rparr>\<rparr>"

theorem dns01_snapshot_refuses_restart_witness:
  "\<exists>st e. startup_config clear_vault (fixed_json dns01_config) (\<lambda>_. False) plain_url_lib \<lparr>pe_vars = []\<rparr> 5 dns01_config st
    = (Inl (StoredConfigRejected e), st)"
proof -
  obtain st1 where s1: "save_runtime_config clear_vault (fixed_json dns01_config) 1 ''system'' dns01_config ''seed'' empty_settings = (Inr (), st1)"
    by (simp add: save_runtime_config_def vseal_def seal_def fixed_json_def clear_vault_def clear_lib_def starts_with_def ENC_PREFIX_def)
  have "ac_enabled (cfg_acme dns01_config)" "ac_challenge (cfg_acme dns01_config) = ''dns-01''"
    "adc_provider (ac_dns (cfg_acme dns01_config)) \<in> {''cloudflare'', ''aliyun'', ''tencent'', ''route53''}"
    by (simp_all add: dns01_config_def)
  from dns01_snapshot_refuses_restart[OF clear_vault_ok fixed_json_ok(1) s1 this] show ?thesis by blast
qed

end
