(* ===== verification/Json_Values.thy ===== *)
theory Json_Values
  imports MP_Prelude
begin

text \<open>
  JSON documents (\<open>serde_json::Value\<close>) and the accessors the server and the command line
  client use on them.  A number that is no integer is kept as it was written.
\<close>

datatype json = JNull | JBool bool | JInt int | JFloat string | JString string | JArray "json list" | JObject "(string \<times> json) list"

fun json_get :: "json \<Rightarrow> string \<Rightarrow> json option" where
  "json_get (JObject fs) key = map_of fs key"
| "json_get _ key = None"

fun as_str :: "json \<Rightarrow> string option" where
  "as_str (JString s) = Some s"
| "as_str _ = None"

fun as_bool :: "json \<Rightarrow> bool option" where
  "as_bool (JBool b) = Some b"
| "as_bool _ = None"

text \<open>An integer of the document fits \<open>i64\<close> or \<open>u64\<close>, or the library reads it as a float.\<close>

fun as_integer :: "json \<Rightarrow> int option" where
  "as_integer (JInt n) = Some n"
| "as_integer _ = None"

text \<open>\<open>Map::insert\<close>.\<close>

fun json_insert :: "string \<Rightarrow> json \<Rightarrow> (string \<times> json) list \<Rightarrow> (string \<times> json) list" where
  "json_insert key v [] = [(key, v)]"
| "json_insert key v ((k, old) # rest) = (if k = key then (key, v) # rest else (k, old) # json_insert key v rest)"

lemma map_of_json_insert [simp]: "map_of (json_insert key v fs) = (map_of fs)(key \<mapsto> v)"
  by (induction key v fs rule: json_insert.induct) auto

end
