(* ===== verification/External_Signin.thy ===== *)
theory External_Signin
  imports Settings_Db Mail_Tokens Admission Json_Values
begin

text \<open>
  Sign-in with external providers (\<open>oauth.rs\<close> and the provider tables of \<open>database.rs\<close>): the
  administration of providers, the start of a flow, the callback that redeems it, and the
  decision which account a set of claims belongs to.

  The OAuth and OpenID Connect libraries are parameters: building the authorization URL,
  exchanging the code, and fetching documents.  What the code reads from their answers is
  modelled.
\<close>

section \<open>Providers in the database\<close>

definition auth_provider_from_row :: "vault \<Rightarrow> json_lib \<Rightarrow> provider_row \<Rightarrow> settings_error + auth_provider" where
  "auth_provider_from_row V J r =
     (case vopen_optional V ''auth_providers.client_secret'' (ap_client_secret (pw_provider r)) of
        Inl e \<Rightarrow> Inl (SecretFailed e)
      | Inr secret \<Rightarrow> (case scopes_from_json J (pw_scopes_json r) of
          None \<Rightarrow> Inl StoredJsonInvalid
        | Some scopes \<Rightarrow> Inr ((pw_provider r)\<lparr>ap_client_secret := secret, ap_scopes := scopes\<rparr>)))"

definition list_auth_providers :: "vault \<Rightarrow> json_lib \<Rightarrow> settings_store \<Rightarrow> settings_error + auth_provider list" where
  "list_auth_providers V J st =
     traverse (auth_provider_from_row V J) (sort_key (\<lambda>r. ap_display_name (pw_provider r)) (ss_providers st))"

definition find_provider ::
  "vault \<Rightarrow> json_lib \<Rightarrow> (auth_provider \<Rightarrow> bool) \<Rightarrow> settings_store \<Rightarrow> settings_error + auth_provider option" where
  "find_provider V J p st = (case fetch_optional (\<lambda>r. p (pw_provider r)) (ss_providers st) of
       None \<Rightarrow> Inr None
     | Some r \<Rightarrow> (case auth_provider_from_row V J r of Inl e \<Rightarrow> Inl e | Inr a \<Rightarrow> Inr (Some a)))"

definition auth_provider_by_slug :: "vault \<Rightarrow> json_lib \<Rightarrow> string \<Rightarrow> settings_store \<Rightarrow> settings_error + auth_provider option" where
  "auth_provider_by_slug V J slug = find_provider V J (\<lambda>p. eq_ignore_ascii_case (ap_slug p) slug)"

definition auth_provider_by_id :: "vault \<Rightarrow> json_lib \<Rightarrow> int \<Rightarrow> settings_store \<Rightarrow> settings_error + auth_provider option" where
  "auth_provider_by_id V J pid = find_provider V J (\<lambda>p. ap_id p = pid)"

definition slug_taken :: "int \<Rightarrow> string \<Rightarrow> settings_store \<Rightarrow> bool" where
  "slug_taken pid slug st = list_ex (\<lambda>r. ap_id (pw_provider r) \<noteq> pid \<and> eq_ignore_ascii_case (ap_slug (pw_provider r)) slug) (ss_providers st)"

definition identities_unique :: "identity_row list \<Rightarrow> bool" where
  "identities_unique rows = distinct (map (\<lambda>i. (ui_provider_id i, ui_provider_subject i)) rows)"

definition save_auth_provider ::
  "vault \<Rightarrow> json_lib \<Rightarrow> int \<Rightarrow> string \<Rightarrow> auth_provider \<Rightarrow> bool \<Rightarrow> settings_store \<Rightarrow> (settings_error + int) \<times> settings_store" where
  "save_auth_provider V J now actor p preserve_secret st =
     (case (if preserve_secret \<and> ap_id p \<noteq> 0
            then Inr (Option.bind (fetch_optional (\<lambda>r. ap_id (pw_provider r) = ap_id p) (ss_providers st))
                   (\<lambda>r. ap_client_secret (pw_provider r)))
            else vseal_optional V ''auth_providers.client_secret'' (ap_id p) (ap_client_secret p)) of
        Inl e \<Rightarrow> (Inl (SecretFailed e), st)
      | Inr secret \<Rightarrow>
          (let stored = p\<lparr>ap_client_secret := secret\<rparr>; scopes = scopes_to_json J (ap_scopes p) in
           if ap_id p = 0
           then (if slug_taken 0 (ap_slug p) st then (Inl ProviderConstraint, st)
                 else
                   (let pid = ss_providers_seq st + 1 in
                    (Inr pid, on_store (log_audit now actor ''auth_provider_saved'' (''provider_id='' @ dec_of_int pid))
                       (st\<lparr>ss_providers_seq := pid, ss_providers := ss_providers st @
                          [\<lparr>pw_provider = stored\<lparr>ap_id := pid\<rparr>, pw_scopes_json = scopes, pw_created_at = now, pw_updated_at = now\<rparr>]\<rparr>))))
           else (case fetch_optional (\<lambda>r. ap_id (pw_provider r) = ap_id p) (ss_providers st) of
               None \<Rightarrow> (Inl ProviderNotFound, st)
             | Some old \<Rightarrow>
                 if slug_taken (ap_id p) (ap_slug p) st then (Inl ProviderConstraint, st)
                 else
                   (let previous_slug = ap_slug (pw_provider old);
                        idents = user_identities (usr (ss_store st));
                        renamed = (if previous_slug \<noteq> ap_slug p
                          then update_where (\<lambda>i. eq_ignore_ascii_case (ui_provider_id i) previous_slug)
                                 (\<lambda>i. i\<lparr>ui_provider_id := ap_slug p, ui_updated_at := now\<rparr>) idents
                          else idents)
                    in if previous_slug \<noteq> ap_slug p \<and> \<not> identities_unique renamed then (Inl ProviderConstraint, st)
                       else (Inr (ap_id p),
                             on_store (\<lambda>s. log_audit now actor ''auth_provider_saved'' (''provider_id='' @ dec_of_int (ap_id p))
                                 (s\<lparr>usr := (usr s)\<lparr>user_identities := renamed\<rparr>\<rparr>))
                               (st\<lparr>ss_providers := update_where (\<lambda>r. ap_id (pw_provider r) = ap_id p)
                                  (\<lambda>r. r\<lparr>pw_provider := stored, pw_scopes_json := scopes, pw_updated_at := now\<rparr>) (ss_providers st)\<rparr>))))))"

text \<open>Deleting a provider takes its unfinished flows along.\<close>

definition delete_auth_provider :: "int \<Rightarrow> string \<Rightarrow> int \<Rightarrow> settings_store \<Rightarrow> bool \<times> settings_store" where
  "delete_auth_provider now actor pid st =
     (let doomed = (\<lambda>r. ap_id (pw_provider r) = pid
        \<and> \<not> list_ex (\<lambda>i. eq_ignore_ascii_case (ui_provider_id i) (ap_slug (pw_provider r))) (user_identities (usr (ss_store st))))
      in if affected doomed (ss_providers st) = 0 then (False, st)
         else (True, on_store (\<lambda>s. log_audit now actor ''auth_provider_deleted'' (''provider_id='' @ dec_of_int pid)
                 (s\<lparr>usr := (usr s)\<lparr>user_auth_flows := delete_where (\<lambda>f. fl_provider_id f = pid) (user_auth_flows (usr s))\<rparr>\<rparr>))
               (st\<lparr>ss_providers := delete_where doomed (ss_providers st)\<rparr>)))"

definition auth_provider_identity_count :: "int \<Rightarrow> settings_store \<Rightarrow> nat" where
  "auth_provider_identity_count pid st = length (filter (\<lambda>(i, r). eq_ignore_ascii_case (ap_slug (pw_provider r)) (ui_provider_id i)
     \<and> ap_id (pw_provider r) = pid) (List.product (user_identities (usr (ss_store st))) (ss_providers st)))"

section \<open>Providers in the administration\<close>

record provider_request =
  rq_slug :: string
  rq_display_name :: string
  rq_kind :: string
  rq_preset :: string
  rq_enabled :: bool
  rq_client_id :: string
  rq_client_secret :: "string option"
  rq_issuer_url :: "string option"
  rq_authorization_url :: "string option"
  rq_token_url :: "string option"
  rq_userinfo_url :: "string option"
  rq_emails_url :: "string option"
  rq_scopes :: "string list"
  rq_subject_field :: string
  rq_email_field :: string
  rq_email_verified_field :: "string option"
  rq_display_name_field :: string

definition clean_optional :: "string option \<Rightarrow> string option" where
  "clean_optional v = opt_filter (\<lambda>s. s \<noteq> []) (map_option trim v)"

definition provider_of_request :: "int \<Rightarrow> provider_request \<Rightarrow> auth_provider" where
  "provider_of_request pid q = \<lparr>ap_id = pid, ap_slug = to_ascii_lowercase (trim (rq_slug q)), ap_display_name = trim (rq_display_name q),
     ap_kind = to_ascii_lowercase (trim (rq_kind q)), ap_preset = to_ascii_lowercase (trim (rq_preset q)), ap_enabled = rq_enabled q,
     ap_client_id = trim (rq_client_id q), ap_client_secret = clean_optional (rq_client_secret q),
     ap_issuer_url = clean_optional (rq_issuer_url q), ap_authorization_url = clean_optional (rq_authorization_url q),
     ap_token_url = clean_optional (rq_token_url q), ap_userinfo_url = clean_optional (rq_userinfo_url q),
     ap_emails_url = clean_optional (rq_emails_url q), ap_scopes = filter (\<lambda>s. s \<noteq> []) (map trim (rq_scopes q)),
     ap_subject_field = trim (rq_subject_field q), ap_email_field = trim (rq_email_field q),
     ap_email_verified_field = clean_optional (rq_email_verified_field q), ap_display_name_field = trim (rq_display_name_field q),
     ap_allow_registration = True, ap_auto_link_by_email = True\<rparr>"

definition validate_https :: "url_lib \<Rightarrow> string \<Rightarrow> bool" where
  "validate_https L v = is_some_and (\<lambda>u. u_scheme u = ''https'' \<and> u_host u \<noteq> None \<and> u_username u = [] \<and> u_password u = None
     \<and> u_fragment u = None) (url_parse L v)"

text \<open>\<open>chars().count()\<close> on the bytes of a text.\<close>

definition char_count :: "string \<Rightarrow> nat" where
  "char_count s = length (filter (\<lambda>c. let n = (of_char c :: nat) in n < 128 \<or> 192 \<le> n) s)"

definition slug_char :: "char \<Rightarrow> bool" where
  "slug_char c = (let n = (of_char c :: nat) in 97 \<le> n \<and> n \<le> 122 \<or> 48 \<le> n \<and> n \<le> 57 \<or> c = CHR ''-'')"

definition validate_provider :: "url_lib \<Rightarrow> auth_provider \<Rightarrow> bool \<Rightarrow> bool" where
  "validate_provider L p has_preserved_secret \<longleftrightarrow>
     2 \<le> length (ap_slug p) \<and> length (ap_slug p) \<le> 50 \<and> list_all slug_char (ap_slug p)
     \<and> ap_display_name p \<noteq> [] \<and> char_count (ap_display_name p) \<le> 80 \<and> ap_client_id p \<noteq> []
     \<and> ap_kind p \<in> set [''oauth2'', ''oidc'']
     \<and> \<not> (ap_enabled p \<and> ap_client_secret p = None \<and> \<not> has_preserved_secret)
     \<and> (if ap_kind p = ''oidc''
        then is_some_and (validate_https L) (ap_issuer_url p) \<and> ''openid'' \<in> set (ap_scopes p)
        else list_all (is_some_and (validate_https L)) [ap_authorization_url p, ap_token_url p, ap_userinfo_url p]
             \<and> (case ap_emails_url p of None \<Rightarrow> True | Some v \<Rightarrow> validate_https L v) \<and> ap_subject_field p \<noteq> [])"

definition require_super_admin :: "crypto \<Rightarrow> int \<Rightarrow> header_map \<Rightarrow> store \<Rightarrow> (nat + admin_identity) \<times> store" where
  "require_super_admin K now headers st = (case admin_token headers of
       None \<Rightarrow> (Inl 401, st)
     | Some token \<Rightarrow> (case authenticate_session K now token st of
         (None, st1) \<Rightarrow> (Inl 401, st1)
       | (Some who, st1) \<Rightarrow> if ai_role who = ''super_admin'' then (Inr who, st1) else (Inl 403, st1)))"

text \<open>The status of the reply and the tables.\<close>

definition save_provider ::
  "crypto \<Rightarrow> vault \<Rightarrow> json_lib \<Rightarrow> url_lib \<Rightarrow> int \<Rightarrow> header_map \<Rightarrow> int \<Rightarrow> provider_request \<Rightarrow> settings_store \<Rightarrow> nat \<times> settings_store" where
  "save_provider K V J L now headers pid q st =
     (case require_super_admin K now headers (ss_store st) of
        (Inl status, s) \<Rightarrow> (status, st\<lparr>ss_store := s\<rparr>)
      | (Inr who, s) \<Rightarrow>
          (let st1 = st\<lparr>ss_store := s\<rparr>;
               preserve_secret = (case rq_client_secret q of None \<Rightarrow> True | Some v \<Rightarrow> trim v = []);
               p = provider_of_request pid q;
               has_preserved_secret = (pid \<noteq> 0 \<and> preserve_secret \<and>
                 (case auth_provider_by_id V J pid st1 of Inr (Some old) \<Rightarrow> ap_client_secret old \<noteq> None | _ \<Rightarrow> False))
           in if \<not> validate_provider L p has_preserved_secret then (400, st1)
              else (case save_auth_provider V J now (ai_username who) p preserve_secret st1 of
                  (Inr _, st2) \<Rightarrow> (201, st2)
                | (Inl ProviderConstraint, st2) \<Rightarrow> (409, st2)
                | (Inl _, st2) \<Rightarrow> (500, st2))))"

definition delete_provider :: "crypto \<Rightarrow> int \<Rightarrow> header_map \<Rightarrow> int \<Rightarrow> settings_store \<Rightarrow> nat \<times> settings_store" where
  "delete_provider K now headers pid st =
     (case require_super_admin K now headers (ss_store st) of
        (Inl status, s) \<Rightarrow> (status, st\<lparr>ss_store := s\<rparr>)
      | (Inr who, s) \<Rightarrow>
          (let st1 = st\<lparr>ss_store := s\<rparr> in
           if auth_provider_identity_count pid st1 \<noteq> 0 then (409, st1)
           else (case delete_auth_provider now (ai_username who) pid st1 of
               (True, st2) \<Rightarrow> (204, st2) | (False, st2) \<Rightarrow> (404, st2))))"

definition public_providers :: "vault \<Rightarrow> json_lib \<Rightarrow> settings_store \<Rightarrow> settings_error + (string \<times> string \<times> string) list" where
  "public_providers V J st = ok_bind (list_auth_providers V J st) (\<lambda>ps.
     Inr (map (\<lambda>p. (ap_slug p, ap_display_name p, ap_kind p)) (filter ap_enabled ps)))"

section \<open>Claims\<close>

definition json_value :: "json \<Rightarrow> string \<Rightarrow> json option" where
  "json_value v path = foldl (\<lambda>cur key. Option.bind cur (\<lambda>j. json_get j key)) (Some v) (split_on (CHR ''.'') path)"

definition json_text :: "json \<Rightarrow> string \<Rightarrow> string option" where
  "json_text v path = Option.bind (json_value v path) (\<lambda>j. opt_or (as_str j) (map_option dec_of_int (as_integer j)))"

definition json_bool :: "json \<Rightarrow> string \<Rightarrow> bool option" where
  "json_bool v path = Option.bind (json_value v path) as_bool"

record external_claims =
  ec_subject :: string
  ec_email :: "string option"
  ec_email_verified :: bool
  ec_display_name :: string

record flow_payload =
  fp_pkce_verifier :: string
  fp_nonce :: "string option"
  fp_invitation :: "string option"

record userinfo_claims =
  uc_email :: "string option"
  uc_email_verified :: "bool option"
  uc_name :: "string option"

text \<open>A validated ID token; \<open>oc_hash_matches\<close> compares the access token hash, if it has one, and
  \<open>oc_userinfo\<close> is the answer of the provider's userinfo endpoint, if there is such an endpoint.\<close>

record oidc_claims =
  oc_subject :: string
  oc_email :: "string option"
  oc_email_verified :: "bool option"
  oc_name :: "string option"
  oc_hash_matches :: bool
  oc_userinfo :: "userinfo_claims option option"

record sign_in_env =
  si_crypto :: crypto
  si_vault :: vault
  si_json :: json_lib
  si_adm :: adm_env
  si_sqids :: sqids
  si_rng :: "nat \<Rightarrow> nat"
  si_authorize :: "auth_provider \<Rightarrow> string \<Rightarrow> string \<Rightarrow> string \<Rightarrow> (string \<times> string \<times> string option) option"
  si_exchange :: "auth_provider \<Rightarrow> string \<Rightarrow> string \<Rightarrow> string \<Rightarrow> string \<Rightarrow> string option"
  si_get_json :: "string \<Rightarrow> string \<Rightarrow> json option"
  si_oidc :: "auth_provider \<Rightarrow> string \<Rightarrow> string \<Rightarrow> string \<Rightarrow> string \<Rightarrow> string \<Rightarrow> oidc_claims option"
  si_payload_to_json :: "flow_payload \<Rightarrow> string"
  si_payload_from_json :: "string \<Rightarrow> flow_payload option"

definition verified_item :: "json list \<Rightarrow> json option" where
  "verified_item items =
     (let verified = (\<lambda>j. Option.bind (json_get j ''verified'') as_bool = Some True) in
      opt_or (List.find (\<lambda>j. verified j \<and> Option.bind (json_get j ''primary'') as_bool = Some True) items) (List.find verified items))"

text \<open>The list of addresses replaces what the profile says, if it names a verified one.\<close>

definition email_from_list :: "json \<Rightarrow> string option \<times> bool \<Rightarrow> string option \<times> bool" where
  "email_from_list emails current = (case emails of
       JArray items \<Rightarrow> (case verified_item items of
           None \<Rightarrow> current
         | Some item \<Rightarrow>
             (let email = map_option to_ascii_lowercase (Option.bind (json_get item ''email'') as_str) in (email, email \<noteq> None)))
     | _ \<Rightarrow> current)"

definition oauth_exchange :: "sign_in_env \<Rightarrow> auth_provider \<Rightarrow> string \<Rightarrow> string \<Rightarrow> string \<Rightarrow> flow_payload \<Rightarrow> external_claims option" where
  "oauth_exchange E p secret callback code payload =
     Option.bind (si_exchange E p secret callback code (fp_pkce_verifier payload)) (\<lambda>token.
     Option.bind (ap_userinfo_url p) (\<lambda>userinfo_url.
     Option.bind (si_get_json E userinfo_url token) (\<lambda>v.
     Option.bind (json_text v (ap_subject_field p)) (\<lambda>subject.
       (let email = map_option to_ascii_lowercase (json_text v (ap_email_field p));
            verified = unwrap_or False (Option.bind (ap_email_verified_field p) (json_bool v));
            found = (if \<not> verified \<or> email = None
                     then (case ap_emails_url p of
                         None \<Rightarrow> Some (email, verified)
                       | Some url \<Rightarrow> map_option (\<lambda>emails. email_from_list emails (email, verified)) (si_get_json E url token))
                     else Some (email, verified))
        in map_option (\<lambda>(email1, verified1). \<lparr>ec_subject = subject, ec_email = email1, ec_email_verified = verified1,
               ec_display_name = unwrap_or subject (json_text v (ap_display_name_field p))\<rparr>) found)))))"

definition oidc_exchange :: "sign_in_env \<Rightarrow> auth_provider \<Rightarrow> string \<Rightarrow> string \<Rightarrow> string \<Rightarrow> flow_payload \<Rightarrow> external_claims option" where
  "oidc_exchange E p secret callback code payload =
     Option.bind (fp_nonce payload) (\<lambda>nonce.
     Option.bind (si_oidc E p secret callback code (fp_pkce_verifier payload) nonce) (\<lambda>claims.
       if \<not> oc_hash_matches claims then None
       else
         (let email = map_option to_ascii_lowercase (oc_email claims);
              verified = (oc_email_verified claims = Some True);
              found = (if \<not> verified \<or> email = None
                       then (case oc_userinfo claims of
                           None \<Rightarrow> Some (email, verified, oc_name claims)
                         | Some None \<Rightarrow> None
                         | Some (Some info) \<Rightarrow>
                             (let (email1, verified1) = (if uc_email_verified info = Some True
                                    then (let e = map_option to_ascii_lowercase (uc_email info) in (e, e \<noteq> None))
                                    else (email, verified))
                              in Some (email1, verified1, opt_or (oc_name claims) (uc_name info))))
                       else Some (email, verified, oc_name claims))
          in map_option (\<lambda>(email1, verified1, name). \<lparr>ec_subject = oc_subject claims, ec_email = email1, ec_email_verified = verified1,
                 ec_display_name = (case name of Some n \<Rightarrow> n
                   | None \<Rightarrow> (case email1 of Some e \<Rightarrow> hd (split_on (CHR ''@'') e) | None \<Rightarrow> oc_subject claims))\<rparr>) found)))"

section \<open>Starting a flow\<close>

definition FLOW_COOKIE :: string where
  "FLOW_COOKIE = ''mirrorproxy_oauth_state''"

definition FLOW_LIFETIME_SECS :: int where
  "FLOW_LIFETIME_SECS = 10 * 60"

definition request_public_base_url :: "adm_env \<Rightarrow> header_map \<Rightarrow> string option" where
  "request_public_base_url A headers =
     Option.bind (opt_or (forwarded_header_value headers ''x-forwarded-host'') (header_value headers ''host'')) (\<lambda>host.
     (let scheme = to_ascii_lowercase (unwrap_or ''http'' (opt_filter (\<lambda>s. eq_ignore_ascii_case s ''http'' \<or> eq_ignore_ascii_case s ''https'')
            (forwarded_header_value headers ''x-forwarded-proto'')))
      in Option.bind (url_parse (ae_urls A) (scheme @ ''://'' @ host)) (\<lambda>u.
         if u_username u \<noteq> [] \<or> u_password u \<noteq> None \<or> u_host u = None \<or> u_path u \<noteq> ''/'' \<or> u_query u \<noteq> None \<or> u_fragment u \<noteq> None
         then None else Some (trim_end_matches (CHR ''/'') (u_str u)))))"

definition public_base_url :: "adm_env \<Rightarrow> config \<Rightarrow> header_map \<Rightarrow> string" where
  "public_base_url A c headers =
     (let base_domain = uac_base_domain (cfg_user_access c);
          own = (if base_domain = [] then None
                 else opt_filter (\<lambda>host. host \<noteq> base_domain \<and> ends_with host (''.'' @ base_domain)) (request_host A headers))
      in case own of
           Some host \<Rightarrow> ''https://'' @ host
         | None \<Rightarrow> if cfg_public_base_url c = [] then unwrap_or [] (request_public_base_url A headers) else cfg_public_base_url c)"

definition callback_url :: "adm_env \<Rightarrow> config \<Rightarrow> header_map \<Rightarrow> string \<Rightarrow> string option" where
  "callback_url A c headers slug =
     (let b = public_base_url A c headers in
      if b = [] then None else Some (trim_end_matches (CHR ''/'') b @ ''/api/auth/'' @ slug @ ''/callback''))"

datatype start_reply = StartRefused nat | StartRedirect string string

definition start_flow ::
  "sign_in_env \<Rightarrow> config \<Rightarrow> int \<Rightarrow> string \<Rightarrow> header_map \<Rightarrow> string \<Rightarrow> string \<Rightarrow> int option \<Rightarrow> string option \<Rightarrow> settings_store
     \<Rightarrow> start_reply \<times> settings_store" where
  "start_flow E c now state_token headers slug mode user_id invitation st =
     (if is_some_and (\<lambda>t. length t > 128) invitation then (StartRefused 400, st)
      else (case auth_provider_by_slug (si_vault E) (si_json E) slug st of
          Inl _ \<Rightarrow> (StartRefused 500, st)
        | Inr None \<Rightarrow> (StartRefused 404, st)
        | Inr (Some p) \<Rightarrow>
            if \<not> ap_enabled p then (StartRefused 404, st)
            else (case callback_url (si_adm E) c headers (ap_slug p) of
                None \<Rightarrow> (StartRefused 400, st)
              | Some callback \<Rightarrow> (case ap_client_secret p of
                  None \<Rightarrow> (StartRefused 503, st)
                | Some secret \<Rightarrow> (case si_authorize E p secret callback state_token of
                    None \<Rightarrow> (StartRefused 502, st)
                  | Some (url, verifier, nonce) \<Rightarrow>
                      (let payload = \<lparr>fp_pkce_verifier = verifier, fp_nonce = nonce, fp_invitation = invitation\<rparr>;
                           sealed = (case vseal (si_vault E) ''user_auth_flows.payload'' (ap_id p) (si_payload_to_json E payload) of
                             Inl _ \<Rightarrow> None | Inr s \<Rightarrow> Some s);
                           fk_ok = (case user_id of None \<Rightarrow> True | Some u \<Rightarrow> users (qdb (ss_store st)) u \<noteq> None)
                       in case store_user_auth_flow (si_crypto E) now fk_ok state_token (ap_id p) sealed mode user_id
                                 (now + FLOW_LIFETIME_SECS) (ss_store st) of
                            (Inl _, s) \<Rightarrow> (StartRefused 500, st\<lparr>ss_store := s\<rparr>)
                          | (Inr _, s) \<Rightarrow> (StartRedirect url state_token, st\<lparr>ss_store := s\<rparr>)))))))"

section \<open>Redeeming it\<close>

definition email_domain_allowed :: "string \<Rightarrow> string list \<Rightarrow> bool" where
  "email_domain_allowed email domains = (case split_once (CHR ''@'') (rev email) of
       None \<Rightarrow> False | Some (d, _) \<Rightarrow> rev d \<in> set domains)"

definition registration_allowed :: "crypto \<Rightarrow> config \<Rightarrow> int \<Rightarrow> string \<Rightarrow> string option \<Rightarrow> store \<Rightarrow> string + int option" where
  "registration_allowed K c now email invitation st =
     (let mode = rgc_mode (cfg_registration c) in
      if mode = ''open'' then Inr None
      else if mode = ''domain_allowlist'' \<and> email_domain_allowed email (rgc_allowed_email_domains (cfg_registration c)) then Inr None
      else if mode = ''invite_only''
      then (case invitation of
          None \<Rightarrow> Inl ''invitation_required''
        | Some token \<Rightarrow> (case valid_invitation K now email token st of
            None \<Rightarrow> Inl ''invalid_invitation'' | Some i \<Rightarrow> Inr (Some i)))
      else Inl ''registration_disabled'')"

definition valid_user_email :: "string \<Rightarrow> bool" where
  "valid_user_email v \<longleftrightarrow> length v \<le> 320 \<and> \<not> list_ex is_ws v
     \<and> is_some_and (\<lambda>(local, domain). local \<noteq> [] \<and> CHR ''.'' \<in> set domain \<and> \<not> starts_with domain ''.'' \<and> \<not> ends_with domain ''.'')
         (split_once (CHR ''@'') v)"

datatype callback_reply = OAuthError string | Linked | SignedIn string int

text \<open>The account a sign-in belongs to, or the error the browser is sent away with.\<close>

definition resolve_account ::
  "sign_in_env \<Rightarrow> config \<Rightarrow> int \<Rightarrow> auth_provider \<Rightarrow> string option \<Rightarrow> external_claims \<Rightarrow> store \<Rightarrow> (string + int) \<times> store" where
  "resolve_account E c now p invitation claims st =
     (case user_by_external_identity (ap_slug p) (ec_subject claims) st of
        Some u \<Rightarrow> (Inr (ua_id u), st)
      | None \<Rightarrow>
          if \<not> ec_email_verified claims then (Inl ''verified_email_required'', st)
          else (case opt_filter valid_user_email (ec_email claims) of
              None \<Rightarrow> (Inl ''verified_email_required'', st)
            | Some email \<Rightarrow>
                (case user_by_email email st of
                   Some u \<Rightarrow>
                     (case bind_external_identity now ''oauth:auto-link'' (ua_id u) (ap_slug p) (ec_subject claims) (Some email) True st of
                        (Inr True, st1) \<Rightarrow> (Inr (ua_id u), st1)
                      | (_, st1) \<Rightarrow> (Inl ''identity_in_use'', st1))
                 | None \<Rightarrow>
                     (case registration_allowed (si_crypto E) c now email invitation st of
                        Inl e \<Rightarrow> (Inl e, st)
                      | Inr invitation_id \<Rightarrow>
                          (let display_name = (if trim (ec_display_name claims) = [] then hd (split_on (CHR ''@'') email)
                                               else trim (ec_display_name claims))
                           in case create_user_with_external_identity (si_sqids E) (si_rng E) now
                                \<lparr>er_actor = ''oauth:'' @ ap_slug p, er_email = email, er_display_name = display_name,
                                 er_routing_min_length = uac_routing_id_min_length (cfg_user_access c), er_provider_slug = ap_slug p,
                                 er_provider_subject = ec_subject claims, er_invitation_id = invitation_id\<rparr> st of
                                (Inr (Some u), st1) \<Rightarrow> (Inr (ua_id u), st1)
                              | (Inr None, st1) \<Rightarrow> (Inl ''manual_link_required'', st1)
                              | (Inl _, st1) \<Rightarrow> (Inl ''internal'', st1))))))"

definition complete_identity ::
  "sign_in_env \<Rightarrow> config \<Rightarrow> int \<Rightarrow> string \<Rightarrow> auth_provider \<Rightarrow> string \<Rightarrow> int option \<Rightarrow> string option \<Rightarrow> external_claims \<Rightarrow> store
     \<Rightarrow> callback_reply \<times> store" where
  "complete_identity E c now token p mode flow_user_id invitation claims st =
     (if mode = ''link''
      then (case flow_user_id of
          None \<Rightarrow> (OAuthError ''invalid_state'', st)
        | Some user_id \<Rightarrow>
            (case user_account user_id st of
               None \<Rightarrow> (OAuthError ''account_disabled'', st)
             | Some u \<Rightarrow>
                 if ua_disabled u then (OAuthError ''account_disabled'', st)
                 else (case bind_external_identity now (''user:'' @ dec_of_int user_id) user_id (ap_slug p) (ec_subject claims)
                         (ec_email claims) (ec_email_verified claims) st of
                     (Inr True, st1) \<Rightarrow> (Linked, st1)
                   | (_, st1) \<Rightarrow> (OAuthError ''identity_in_use'', st1))))
      else (case resolve_account E c now p invitation claims st of
          (Inl e, st1) \<Rightarrow> (OAuthError e, st1)
        | (Inr user_id, st1) \<Rightarrow>
            (case create_user_session (si_crypto E) now token user_id (''oauth:'' @ ap_slug p) st1 of
               (Inr (Some _), st2) \<Rightarrow> (SignedIn token user_id, audit_user_login now user_id (''oauth:'' @ ap_slug p) st2)
             | (_, st2) \<Rightarrow> (OAuthError ''account_disabled'', st2))))"

record callback_query =
  cq_code :: "string option"
  cq_state :: "string option"
  cq_error :: "string option"

definition claims_of :: "sign_in_env \<Rightarrow> auth_provider \<Rightarrow> string \<Rightarrow> string \<Rightarrow> string \<Rightarrow> flow_payload \<Rightarrow> external_claims option" where
  "claims_of E p secret callback code payload =
     (if ap_kind p = ''oidc'' then oidc_exchange E p secret callback code payload else oauth_exchange E p secret callback code payload)"

definition callback ::
  "sign_in_env \<Rightarrow> config \<Rightarrow> int \<Rightarrow> string \<Rightarrow> header_map \<Rightarrow> string \<Rightarrow> callback_query \<Rightarrow> settings_store \<Rightarrow> callback_reply \<times> settings_store" where
  "callback E c now token headers slug q st =
     (if cq_error q \<noteq> None then (OAuthError ''provider_denied'', st)
      else (case (cq_code q, cq_state q) of
          (Some code, Some returned_state) \<Rightarrow>
            if cookie_value headers FLOW_COOKIE \<noteq> Some returned_state then (OAuthError ''invalid_state'', st)
            else
              (let unseal = (\<lambda>v. case vopen (si_vault E) ''user_auth_flows.payload'' v of Inl _ \<Rightarrow> None | Inr s \<Rightarrow> Some s) in
               case take_user_auth_flow (si_crypto E) unseal now returned_state (ss_store st) of
                 (Inl _, s) \<Rightarrow> (OAuthError ''internal'', st\<lparr>ss_store := s\<rparr>)
               | (Inr None, s) \<Rightarrow> (OAuthError ''expired_state'', st\<lparr>ss_store := s\<rparr>)
               | (Inr (Some flow), s) \<Rightarrow>
                   (let st1 = st\<lparr>ss_store := s\<rparr> in
                    case auth_provider_by_id (si_vault E) (si_json E) (sf_provider_id flow) st1 of
                      Inr (Some p) \<Rightarrow>
                        if \<not> ap_enabled p \<or> \<not> eq_ignore_ascii_case (ap_slug p) slug then (OAuthError ''invalid_provider'', st1)
                        else (case si_payload_from_json E (sf_payload flow) of
                            None \<Rightarrow> (OAuthError ''invalid_state'', st1)
                          | Some payload \<Rightarrow> (case callback_url (si_adm E) c headers (ap_slug p) of
                              None \<Rightarrow> (OAuthError ''invalid_callback'', st1)
                            | Some cb \<Rightarrow> (case ap_client_secret p of
                                None \<Rightarrow> (OAuthError ''not_configured'', st1)
                              | Some secret \<Rightarrow> (case claims_of E p secret cb code payload of
                                  None \<Rightarrow> (OAuthError ''provider_error'', st1)
                                | Some claims \<Rightarrow>
                                    (case complete_identity E c now token p (sf_mode flow) (sf_user_id flow) (fp_invitation payload) claims s of
                                       (reply, s1) \<Rightarrow> (reply, st\<lparr>ss_store := s1\<rparr>))))))
                    | _ \<Rightarrow> (OAuthError ''invalid_provider'', st1)))
        | _ \<Rightarrow> (OAuthError ''invalid_callback'', st)))"

definition unlink_identity :: "crypto \<Rightarrow> vault \<Rightarrow> int \<Rightarrow> header_map \<Rightarrow> int \<Rightarrow> settings_store \<Rightarrow> nat \<times> settings_store" where
  "unlink_identity K V now headers identity_id st =
     (case user_token headers of
        None \<Rightarrow> (401, st)
      | Some token \<Rightarrow> (case authenticate_user_session K now token (ss_store st) of
          (None, s) \<Rightarrow> (401, st\<lparr>ss_store := s\<rparr>)
        | (Some who, s) \<Rightarrow>
            (let email_login_available = (case smtp_settings V st of Inr (Some m) \<Rightarrow> sm_enabled m | _ \<Rightarrow> False) in
             if external_identity_count (un_user_id who) s \<le> 1 \<and> \<not> email_login_available then (409, st\<lparr>ss_store := s\<rparr>)
             else (case delete_external_identity now (''user:'' @ dec_of_int (un_user_id who)) (un_user_id who) identity_id s of
                 (True, s1) \<Rightarrow> (204, st\<lparr>ss_store := s1\<rparr>) | (False, s1) \<Rightarrow> (404, st\<lparr>ss_store := s1\<rparr>)))))"

section \<open>Who is signed in\<close>

text \<open>A redeemed flow was stored, unexpired and unused, and is spent afterwards.\<close>

lemma take_flow:
  assumes "take_user_auth_flow K unseal now state s = (Inr (Some flow), s')"
  obtains f where "f \<in> set (user_auth_flows (usr s))" "fl_state_hash f = hash_token K state" "fl_expires_at f > now" "fl_used_at f = None"
    "sf_provider_id flow = fl_provider_id f" "sf_mode flow = fl_mode f" "sf_user_id flow = fl_user_id f" "unseal (fl_payload f) = Some (sf_payload flow)"
    "s' = s\<lparr>usr := (usr s)\<lparr>user_auth_flows := update_where (\<lambda>f. fl_state_hash f = hash_token K state \<and> fl_used_at f = None)
        (\<lambda>f. f\<lparr>fl_used_at := Some now\<rparr>) (user_auth_flows (usr s))\<rparr>\<rparr>"
  using assms
  by (auto simp: take_user_auth_flow_def Let_def split: option.splits if_splits dest!: fetch_optional_Some)

definition flow_spent :: "crypto \<Rightarrow> string \<Rightarrow> store \<Rightarrow> bool" where
  "flow_spent K state s \<longleftrightarrow> (\<forall>f\<in>set (user_auth_flows (usr s)). fl_state_hash f = hash_token K state \<longrightarrow> fl_used_at f \<noteq> None)"

lemma take_flow_spent:
  "take_user_auth_flow K unseal now state s = (Inr (Some flow), s') \<Longrightarrow> flow_spent K state s'"
  by (erule take_flow) (auto simp: flow_spent_def update_where_def)

lemma spent_not_taken: "flow_spent K state s \<Longrightarrow> take_user_auth_flow K unseal now state s = (Inr None, s)"
  by (auto simp: take_user_auth_flow_def flow_spent_def split: option.splits dest!: fetch_optional_Some)

lemma spent_cong: "user_auth_flows (usr s') = user_auth_flows (usr s) \<Longrightarrow> flow_spent K state s' = flow_spent K state s"
  by (simp add: flow_spent_def)

lemma insert_user_flows: "insert_user now email name s = Some (u, s') \<Longrightarrow> user_auth_flows (usr s') = user_auth_flows (usr s)"
  by (auto simp: insert_user_def Let_def split: if_splits)

lemma flows_kept:
  "user_auth_flows (usr (snd (bind_external_identity now actor u provider subject email verified s))) = user_auth_flows (usr s)"
  "user_auth_flows (usr (snd (create_user_session K now token u m s))) = user_auth_flows (usr s)"
  "user_auth_flows (usr (audit_user_login now u m s)) = user_auth_flows (usr s)"
  "user_auth_flows (usr (snd (create_user_with_external_identity Q rng now reg s))) = user_auth_flows (usr s)"
  by (auto simp: bind_external_identity_def insert_identity_def create_user_session_def audit_user_login_def
      create_user_with_external_identity_def accept_invitation_rows_def Let_def insert_user_flows split: option.splits)

lemma resolve_account_flows:
  "resolve_account E c now p invitation claims s = (r, s') \<Longrightarrow> user_auth_flows (usr s') = user_auth_flows (usr s)"
  by (auto simp: resolve_account_def Let_def split: option.splits sum.splits prod.splits if_splits bool.splits
      dest: arg_cong[where f = "\<lambda>x. user_auth_flows (usr (snd x))"] simp: flows_kept)

definition identity_bound :: "string \<Rightarrow> string \<Rightarrow> int \<Rightarrow> store \<Rightarrow> bool" where
  "identity_bound slug subject user_id s \<longleftrightarrow> (\<exists>i\<in>set (user_identities (usr s)). eq_ignore_ascii_case (ui_provider_id i) slug
     \<and> ui_provider_subject i = subject \<and> ui_user_id i = user_id)"

lemma user_account_id: "user_account u s = Some v \<Longrightarrow> ua_id v = u"
  unfolding user_account_def bind_eq_Some_conv
  by (elim exE conjE, drule fetch_optional_Some) (auto simp: account_view_def split: option.splits if_splits)

lemma external_user_bound: "user_by_external_identity slug subject s = Some u \<Longrightarrow> identity_bound slug subject (ua_id u) s"
  unfolding user_by_external_identity_def identity_bound_def
  by (drule find_map_Some) (auto split: if_splits dest!: user_account_id)

lemma bind_bound:
  assumes "bind_external_identity now actor u slug subject email verified s = (Inr True, s')"
  shows "identity_bound slug subject u s'"
  using assms unfolding bind_external_identity_def identity_bound_def
  by (auto simp: insert_identity_def Let_def split: if_splits option.splits dest!: fetch_optional_Some)

lemma create_bound:
  assumes "create_user_with_external_identity Q rng now reg s = (Inr (Some u), s')"
  shows "identity_bound (er_provider_slug reg) (er_provider_subject reg) (ua_id u) s'"
  using assms unfolding create_user_with_external_identity_def identity_bound_def
  by (auto simp: insert_identity_def accept_invitation_rows_def new_account_def Let_def split: if_splits option.splits)

definition entitled :: "sign_in_env \<Rightarrow> config \<Rightarrow> int \<Rightarrow> auth_provider \<Rightarrow> string option \<Rightarrow> external_claims \<Rightarrow> int \<Rightarrow> store \<Rightarrow> bool" where
  "entitled E c now p invitation claims user_id s \<longleftrightarrow>
     identity_bound (ap_slug p) (ec_subject claims) user_id s
     \<or> (ec_email_verified claims \<and> (\<exists>email. ec_email claims = Some email \<and> valid_user_email email \<and>
          (case user_by_email email s of
             Some u \<Rightarrow> ua_id u = user_id
           | None \<Rightarrow> (\<exists>i. registration_allowed (si_crypto E) c now email invitation s = Inr i))))"

lemma opt_filter_Some: "opt_filter p x = Some y \<longleftrightarrow> x = Some y \<and> p y"
  by (cases x) (auto simp: opt_filter_def)

lemma resolve_account_sound:
  assumes "resolve_account E c now p invitation claims s = (Inr user_id, s')"
  shows "entitled E c now p invitation claims user_id s" and "identity_bound (ap_slug p) (ec_subject claims) user_id s'"
proof -
  consider (known) u where "user_by_external_identity (ap_slug p) (ec_subject claims) s = Some u" "ua_id u = user_id" "s' = s"
    | (email) email where "ec_email_verified claims" "ec_email claims = Some email" "valid_user_email email"
        "user_by_external_identity (ap_slug p) (ec_subject claims) s = None"
    using assms
    by (cases "user_by_external_identity (ap_slug p) (ec_subject claims) s")
      (auto simp: resolve_account_def opt_filter_Some split: option.splits if_splits)
  then have "entitled E c now p invitation claims user_id s \<and> identity_bound (ap_slug p) (ec_subject claims) user_id s'"
  proof cases
    case known
    then show ?thesis using external_user_bound by (auto simp: entitled_def)
  next
    case (email e)
    then have f: "opt_filter valid_user_email (ec_email claims) = Some e" by (simp add: opt_filter_Some)
    show ?thesis
    proof (cases "user_by_email e s")
      case (Some u)
      have "bind_external_identity now ''oauth:auto-link'' (ua_id u) (ap_slug p) (ec_subject claims) (Some e) True s = (Inr True, s') \<and> ua_id u = user_id"
        using assms email f Some by (auto simp: resolve_account_def split: sum.splits prod.splits bool.splits)
      then show ?thesis using bind_bound email Some by (auto simp: entitled_def)
    next
      case None
      then obtain i u reg where "registration_allowed (si_crypto E) c now e invitation s = Inr i"
        and cr: "create_user_with_external_identity (si_sqids E) (si_rng E) now reg s = (Inr (Some u), s')" "ua_id u = user_id"
          "er_provider_slug reg = ap_slug p" "er_provider_subject reg = ec_subject claims"
        using assms email f by (auto simp: resolve_account_def Let_def split: sum.splits prod.splits option.splits)
      then show ?thesis using create_bound[OF cr(1)] cr(2-4) email None by (auto simp: entitled_def)
    qed
  qed
  then show "entitled E c now p invitation claims user_id s" "identity_bound (ap_slug p) (ec_subject claims) user_id s'" by auto
qed

lemma session_active:
  assumes "create_user_session K now token u m s = (Inr (Some ses), s')"
  shows "active_user u (qdb s)"
  using assms by (auto simp: create_user_session_def split: if_splits option.splits)


lemma entitled_flows [simp]:
  fixes s :: store
  defines "t fl \<equiv> s\<lparr>usr := (usr s)\<lparr>user_auth_flows := fl\<rparr>\<rparr>"
  shows "entitled E c now p i claims u (t fl) = entitled E c now p i claims u s"
proof -
  have "account_view (t fl) = account_view s"
    by (rule ext) (simp add: t_def account_view_def active_routing_def)
  then have "user_by_email email (t fl) = user_by_email email s" for email by (simp add: user_by_email_def t_def)
  moreover have "valid_invitation K now email token (t fl) = valid_invitation K now email token s" for K email token
    by (simp add: valid_invitation_def t_def)
  then have "registration_allowed K c now email i (t fl) = registration_allowed K c now email i s" for K email
    by (cases i) (simp_all add: registration_allowed_def Let_def)
  moreover have "identity_bound (ap_slug p) (ec_subject claims) u (t fl) = identity_bound (ap_slug p) (ec_subject claims) u s"
    by (simp add: identity_bound_def t_def)
  ultimately show ?thesis by (simp add: entitled_def cong: option.case_cong)
qed

lemma complete_signs_in:
  assumes "complete_identity E c now token p mode flow_user invitation claims s = (SignedIn t user_id, s')"
  shows "mode \<noteq> ''link''" "entitled E c now p invitation claims user_id s" "identity_bound (ap_slug p) (ec_subject claims) user_id s'"
    "active_user user_id (qdb s')" "user_auth_flows (usr s') = user_auth_flows (usr s)"
proof -
  show m: "mode \<noteq> ''link''" using assms by (auto simp: complete_identity_def split: option.splits prod.splits sum.splits bool.splits if_splits)
  obtain s1 ses s2 where r: "resolve_account E c now p invitation claims s = (Inr user_id, s1)"
    and ses: "create_user_session (si_crypto E) now token user_id (''oauth:'' @ ap_slug p) s1 = (Inr (Some ses), s2)"
    and s': "s' = audit_user_login now user_id (''oauth:'' @ ap_slug p) s2"
    using assms m by (auto simp: complete_identity_def split: option.splits prod.splits sum.splits)
  have f: "user_identities (usr s') = user_identities (usr s1)" "qdb s' = audit now (''user:'' @ dec_of_int user_id) ''user_login_succeeded'' (''method='' @ ''oauth:'' @ ap_slug p) (qdb s1)"
    using ses by (auto simp: s' audit_user_login_def log_audit_def create_user_session_def split: if_splits option.splits)
  show "entitled E c now p invitation claims user_id s" using resolve_account_sound(1)[OF r] .
  show "identity_bound (ap_slug p) (ec_subject claims) user_id s'"
    using resolve_account_sound(2)[OF r] f(1) by (simp add: identity_bound_def)
  show "active_user user_id (qdb s')" using session_active[OF ses] unfolding f(2) by (simp add: active_user_def audit_def)
  show "user_auth_flows (usr s') = user_auth_flows (usr s)"
    using resolve_account_flows[OF r] flows_kept(2)[of "si_crypto E" now token user_id "''oauth:'' @ ap_slug p" s1] ses
    by (simp add: s' flows_kept(3))
qed

text \<open>C7: A browser is signed in through a provider only for an account it is entitled to.  If the
  callback opens a session, then the state it returned is the one in the browser's cookie and
  belongs to a flow that was started, had not expired and had not been used; the provider of
  that flow is enabled and is the one in the path; the provider vouched, for the code of this
  callback and the secrets of that flow, for claims under which the account is either bound
  already, or has the verified address of the claims, or is new and admitted by the
  registration policy.  The account is active, the identity is bound to it afterwards, and
  the state cannot be redeemed a second time.\<close>

theorem external_sign_in_justified:
  assumes "callback E c now token headers slug q st = (SignedIn t user_id, st')"
  shows "\<exists>state code f p payload cb secret claims.
      cq_state q = Some state \<and> cookie_value headers FLOW_COOKIE = Some state \<and> cq_code q = Some code \<and> cq_error q = None
    \<and> f \<in> set (user_auth_flows (usr (ss_store st))) \<and> fl_state_hash f = hash_token (si_crypto E) state
    \<and> fl_expires_at f > now \<and> fl_used_at f = None \<and> fl_mode f \<noteq> ''link''
    \<and> ap_id p = fl_provider_id f \<and> ap_enabled p \<and> eq_ignore_ascii_case (ap_slug p) slug
    \<and> ap_client_secret p = Some secret \<and> claims_of E p secret cb code payload = Some claims
    \<and> entitled E c now p (fp_invitation payload) claims user_id (ss_store st)
    \<and> identity_bound (ap_slug p) (ec_subject claims) user_id (ss_store st')
    \<and> active_user user_id (qdb (ss_store st'))
    \<and> (\<forall>c' now' token' headers' slug' q'. cq_state q' = Some state \<longrightarrow>
         (\<exists>e. callback E c' now' token' headers' slug' q' st' = (OAuthError e, st')))"
proof -
  define unseal where "unseal = (\<lambda>v. case vopen (si_vault E) ''user_auth_flows.payload'' v of Inl _ \<Rightarrow> None | Inr s \<Rightarrow> Some s)"
  obtain state code where q: "cq_state q = Some state" "cq_code q = Some code" "cq_error q = None" "cookie_value headers FLOW_COOKIE = Some state"
    using assms by (auto simp: callback_def split: if_splits option.splits)
  obtain flow s1 where tk: "take_user_auth_flow (si_crypto E) unseal now state (ss_store st) = (Inr (Some flow), s1)"
    using assms q by (auto simp: callback_def Let_def unseal_def[symmetric] split: prod.splits sum.splits option.splits)
  obtain p payload cb secret claims s2 where
    g: "auth_provider_by_id (si_vault E) (si_json E) (sf_provider_id flow) (st\<lparr>ss_store := s1\<rparr>) = Inr (Some p)" "ap_enabled p"
      "eq_ignore_ascii_case (ap_slug p) slug" "ap_client_secret p = Some secret" "claims_of E p secret cb code payload = Some claims"
      "complete_identity E c now token p (sf_mode flow) (sf_user_id flow) (fp_invitation payload) claims s1 = (SignedIn t user_id, s2)"
    and st': "st' = st\<lparr>ss_store := s2\<rparr>"
    using assms q tk
    by (auto simp: callback_def Let_def unseal_def[symmetric] split: sum.splits option.splits if_splits prod.splits)
  obtain f where f: "f \<in> set (user_auth_flows (usr (ss_store st)))" "fl_state_hash f = hash_token (si_crypto E) state" "fl_expires_at f > now"
    "fl_used_at f = None" "sf_provider_id flow = fl_provider_id f" "sf_mode flow = fl_mode f"
    and s1: "s1 = (ss_store st)\<lparr>usr := (usr (ss_store st))\<lparr>user_auth_flows := update_where (\<lambda>f. fl_state_hash f = hash_token (si_crypto E) state \<and> fl_used_at f = None)
        (\<lambda>f. f\<lparr>fl_used_at := Some now\<rparr>) (user_auth_flows (usr (ss_store st)))\<rparr>\<rparr>"
    using tk by (rule take_flow) blast
  have pid: "ap_id p = fl_provider_id f"
    using g(1) f(5) by (auto simp: auth_provider_by_id_def find_provider_def auth_provider_from_row_def split: option.splits sum.splits dest!: fetch_optional_Some)
  note ok = complete_signs_in[OF g(6)]
  have spent: "flow_spent (si_crypto E) state (ss_store st')"
    using take_flow_spent[OF tk] spent_cong[OF ok(5)] by (simp add: st')
  have again: "\<exists>e. callback E c' now' token' headers' slug' q' st' = (OAuthError e, st')" if "cq_state q' = Some state" for c' now' token' headers' slug' q'
    using that spent_not_taken[OF spent] by (auto simp: callback_def Let_def split: option.splits)
  have "entitled E c now p (fp_invitation payload) claims user_id (ss_store st)"
    using ok(2) unfolding s1 by simp
  then show ?thesis using q f(1-4) f(6) ok(1,3,4) pid g(2-5) again unfolding st' by (auto intro!: exI)
qed


section \<open>Providers and identities\<close>

text \<open>The provider an identity belongs to.\<close>

definition provider_of :: "settings_store \<Rightarrow> identity_row \<Rightarrow> int option" where
  "provider_of st i = map_option (\<lambda>r. ap_id (pw_provider r))
     (fetch_optional (\<lambda>r. eq_ignore_ascii_case (ap_slug (pw_provider r)) (ui_provider_id i)) (ss_providers st))"

definition providers_ok :: "settings_store \<Rightarrow> bool" where
  "providers_ok st \<longleftrightarrow> distinct (map (\<lambda>r. to_ascii_lowercase (ap_slug (pw_provider r))) (ss_providers st))
     \<and> distinct (map (\<lambda>r. ap_id (pw_provider r)) (ss_providers st))
     \<and> (\<forall>r\<in>set (ss_providers st). 1 \<le> ap_id (pw_provider r) \<and> ap_id (pw_provider r) \<le> ss_providers_seq st) \<and> 0 \<le> ss_providers_seq st"

lemma provider_of_iff:
  assumes "providers_ok st"
  shows "provider_of st i = Some pid \<longleftrightarrow>
    (\<exists>r\<in>set (ss_providers st). to_ascii_lowercase (ap_slug (pw_provider r)) = to_ascii_lowercase (ui_provider_id i) \<and> ap_id (pw_provider r) = pid)"
proof
  assume "provider_of st i = Some pid"
  then show "\<exists>r\<in>set (ss_providers st). to_ascii_lowercase (ap_slug (pw_provider r)) = to_ascii_lowercase (ui_provider_id i) \<and> ap_id (pw_provider r) = pid"
    by (auto simp: provider_of_def eq_ignore_ascii_case_def dest!: fetch_optional_Some)
next
  assume "\<exists>r\<in>set (ss_providers st). to_ascii_lowercase (ap_slug (pw_provider r)) = to_ascii_lowercase (ui_provider_id i) \<and> ap_id (pw_provider r) = pid"
  then obtain r where r: "r \<in> set (ss_providers st)" "to_ascii_lowercase (ap_slug (pw_provider r)) = to_ascii_lowercase (ui_provider_id i)" "ap_id (pw_provider r) = pid"
    by blast
  obtain r' where r': "fetch_optional (\<lambda>r. eq_ignore_ascii_case (ap_slug (pw_provider r)) (ui_provider_id i)) (ss_providers st) = Some r'"
    using r by (cases "fetch_optional (\<lambda>r. eq_ignore_ascii_case (ap_slug (pw_provider r)) (ui_provider_id i)) (ss_providers st)")
      (auto simp: fetch_optional_None eq_ignore_ascii_case_def)
  then have "r' = r" using assms r fetch_optional_Some[OF r'] by (auto simp: providers_ok_def distinct_map inj_on_def eq_ignore_ascii_case_def)
  then show "provider_of st i = Some pid" using r' r(3) by (simp add: provider_of_def)
qed

lemma distinct_map_update:
  assumes "distinct (map f rows)" and "\<And>r. p r \<Longrightarrow> f (g r) = v" and "\<And>r. r \<in> set rows \<Longrightarrow> \<not> p r \<Longrightarrow> f r \<noteq> v"
    and "\<And>r r'. r \<in> set rows \<Longrightarrow> r' \<in> set rows \<Longrightarrow> p r \<Longrightarrow> p r' \<Longrightarrow> r = r'"
  shows "distinct (map f (update_where p g rows))"
  using assms
proof (induction rows)
  case (Cons r rows)
  have "distinct (map f (update_where p g rows))" using Cons by (intro Cons.IH) auto
  moreover have "f (if p r then g r else r) \<notin> f ` set (update_where p g rows)"
  proof (cases "p r")
    case True
    have "\<not> p r'" if "r' \<in> set rows" for r'
      using Cons.prems(1) Cons.prems(4)[of r r'] True that by auto
    then have "update_where p g rows = rows" by (simp add: update_where_def map_idI)
    then show ?thesis using True Cons.prems(2,3) \<open>\<And>r'. r' \<in> set rows \<Longrightarrow> \<not> p r'\<close> by force
  next
    case False
    then have "f r \<noteq> v" using Cons.prems(3) by auto
    then show ?thesis using False Cons.prems(1,2) by (auto simp: update_where_def image_iff)
  qed
  moreover have "update_where p g (r # rows) = (if p r then g r else r) # update_where p g rows" by (simp add: update_where_def)
  ultimately show ?case by (simp del: if_image_distrib)
qed (simp add: update_where_def)


text \<open>Every identity that belonged to a provider still does.\<close>

definition identities_follow :: "settings_store \<Rightarrow> settings_store \<Rightarrow> bool" where
  "identities_follow st st' \<longleftrightarrow> (\<forall>i pid. i \<in> set (user_identities (usr (ss_store st))) \<longrightarrow> provider_of st i = Some pid \<longrightarrow>
     (\<exists>i'\<in>set (user_identities (usr (ss_store st'))). ui_id i' = ui_id i \<and> ui_user_id i' = ui_user_id i
        \<and> ui_provider_subject i' = ui_provider_subject i \<and> provider_of st' i' = Some pid))"

lemma identities_follow_refl: "identities_follow st st"
  by (auto simp: identities_follow_def)

lemma save_provider_ok:
  assumes ok: "providers_ok st" and s: "save_auth_provider V J now actor p preserve st = (r, st')"
  shows "providers_ok st' \<and> identities_follow st st'"
proof (cases r)
  case (Inl e)
  then have "st' = st" using s by (auto simp: save_auth_provider_def Let_def split: sum.splits if_splits option.splits)
  then show ?thesis using ok identities_follow_refl by simp
next
  case (Inr pid)
  show ?thesis
  proof (cases "ap_id p = 0")
    case True
    have "\<not> slug_taken 0 (ap_slug p) st \<and> usr (ss_store st') = usr (ss_store st) \<and> ss_providers_seq st' = ss_providers_seq st + 1
        \<and> (\<exists>row. ap_slug (pw_provider row) = ap_slug p \<and> ap_id (pw_provider row) = ss_providers_seq st + 1 \<and> ss_providers st' = ss_providers st @ [row])"
      using s Inr True by (auto simp: save_auth_provider_def Let_def on_store_def split: sum.splits if_splits)
    then obtain row where nt: "\<not> slug_taken 0 (ap_slug p) st" and sl: "ap_slug (pw_provider row) = ap_slug p" "ap_id (pw_provider row) = ss_providers_seq st + 1"
      and st': "ss_providers st' = ss_providers st @ [row]" "ss_providers_seq st' = ss_providers_seq st + 1" "usr (ss_store st') = usr (ss_store st)"
      by blast
    have ok': "providers_ok st'"
      using ok nt sl by (force simp: providers_ok_def st'(1,2) slug_taken_def eq_ignore_ascii_case_def list_ex_iff image_iff)
    then show ?thesis using provider_of_iff[OF ok] provider_of_iff[OF ok'] by (auto simp: identities_follow_def st'(1,3))
  next
    case False
    let ?upd = "update_where (\<lambda>r. ap_id (pw_provider r) = ap_id p)"
    have "\<exists>old stored scopes. fetch_optional (\<lambda>r. ap_id (pw_provider r) = ap_id p) (ss_providers st) = Some old
        \<and> \<not> slug_taken (ap_id p) (ap_slug p) st \<and> ap_slug stored = ap_slug p \<and> ap_id stored = ap_id p
        \<and> ss_providers st' = ?upd (\<lambda>r. r\<lparr>pw_provider := stored, pw_scopes_json := scopes, pw_updated_at := now\<rparr>) (ss_providers st)
        \<and> ss_providers_seq st' = ss_providers_seq st
        \<and> user_identities (usr (ss_store st')) = (if ap_slug (pw_provider old) \<noteq> ap_slug p
          then update_where (\<lambda>i. eq_ignore_ascii_case (ui_provider_id i) (ap_slug (pw_provider old)))
            (\<lambda>i. i\<lparr>ui_provider_id := ap_slug p, ui_updated_at := now\<rparr>) (user_identities (usr (ss_store st)))
          else user_identities (usr (ss_store st)))"
    proof -
      obtain old where o: "fetch_optional (\<lambda>r. ap_id (pw_provider r) = ap_id p) (ss_providers st) = Some old"
        using s Inr False by (auto simp: save_auth_provider_def Let_def split: sum.splits if_splits option.splits)
      obtain secret where c: "(if preserve \<and> ap_id p \<noteq> 0
            then Inr (Option.bind (fetch_optional (\<lambda>r. ap_id (pw_provider r) = ap_id p) (ss_providers st)) (\<lambda>r. ap_client_secret (pw_provider r)))
            else vseal_optional V ''auth_providers.client_secret'' (ap_id p) (ap_client_secret p)) = Inr secret"
        using s Inr by (auto simp: save_auth_provider_def split: sum.splits)
      show ?thesis
        using s Inr False o unfolding save_auth_provider_def c
        by (intro exI[of _ old] exI[of _ "p\<lparr>ap_client_secret := secret\<rparr>"] exI[of _ "scopes_to_json J (ap_scopes p)"])
          (auto simp: Let_def on_store_def split: if_splits)
    qed
    then obtain old stored scopes where old: "fetch_optional (\<lambda>r. ap_id (pw_provider r) = ap_id p) (ss_providers st) = Some old"
      and nt: "\<not> slug_taken (ap_id p) (ap_slug p) st" and sl: "ap_slug stored = ap_slug p" "ap_id stored = ap_id p"
      and st': "ss_providers st' = ?upd (\<lambda>r. r\<lparr>pw_provider := stored, pw_scopes_json := scopes, pw_updated_at := now\<rparr>) (ss_providers st)"
        "ss_providers_seq st' = ss_providers_seq st"
      and ids: "user_identities (usr (ss_store st')) = (if ap_slug (pw_provider old) \<noteq> ap_slug p
          then update_where (\<lambda>i. eq_ignore_ascii_case (ui_provider_id i) (ap_slug (pw_provider old)))
            (\<lambda>i. i\<lparr>ui_provider_id := ap_slug p, ui_updated_at := now\<rparr>) (user_identities (usr (ss_store st)))
          else user_identities (usr (ss_store st)))"
      by blast
    have one: "r = r'" if "r \<in> set (ss_providers st)" "r' \<in> set (ss_providers st)" "ap_id (pw_provider r) = ap_id p" "ap_id (pw_provider r') = ap_id p" for r r'
      using ok that by (auto simp: providers_ok_def distinct_map inj_on_def)
    have o: "old \<in> set (ss_providers st)" "ap_id (pw_provider old) = ap_id p" using fetch_optional_Some[OF old] by auto
    have ok': "providers_ok st'"
      unfolding providers_ok_def st'
    proof (intro conjI distinct_map_update)
      show "distinct (map (\<lambda>r. to_ascii_lowercase (ap_slug (pw_provider r))) (ss_providers st))"
        "distinct (map (\<lambda>r. ap_id (pw_provider r)) (ss_providers st))" "0 \<le> ss_providers_seq st" using ok by (auto simp: providers_ok_def)
    qed (use ok nt sl one in \<open>auto simp: providers_ok_def slug_taken_def eq_ignore_ascii_case_def list_ex_iff update_where_def\<close>)
    have "\<exists>i'\<in>set (user_identities (usr (ss_store st'))). ui_id i' = ui_id i \<and> ui_user_id i' = ui_user_id i
        \<and> ui_provider_subject i' = ui_provider_subject i \<and> provider_of st' i' = Some pid'"
      if i: "i \<in> set (user_identities (usr (ss_store st)))" and pi: "provider_of st i = Some pid'" for i pid'
    proof -
      obtain r where r: "r \<in> set (ss_providers st)" "to_ascii_lowercase (ap_slug (pw_provider r)) = to_ascii_lowercase (ui_provider_id i)" "ap_id (pw_provider r) = pid'"
        using pi provider_of_iff[OF ok] by blast
      show ?thesis
      proof (cases "r = old")
        case True
        let ?i = "if ap_slug (pw_provider old) \<noteq> ap_slug p then i\<lparr>ui_provider_id := ap_slug p, ui_updated_at := now\<rparr> else i"
        have "?i \<in> set (user_identities (usr (ss_store st')))"
          using i r True by (auto simp: ids update_where_def eq_ignore_ascii_case_def image_iff)
        moreover have "old\<lparr>pw_provider := stored, pw_scopes_json := scopes, pw_updated_at := now\<rparr> \<in> set (ss_providers st')"
          using o by (auto simp: st' update_where_def)
        then have "provider_of st' ?i = Some pid'"
          unfolding provider_of_iff[OF ok'] using r True o sl by (intro bexI) auto
        ultimately show ?thesis by (intro bexI[of _ ?i]) auto
      next
        case False
        then have d: "ap_id (pw_provider r) \<noteq> ap_id p" using one[OF r(1) o(1)] o(2) by auto
        have "to_ascii_lowercase (ap_slug (pw_provider r)) \<noteq> to_ascii_lowercase (ap_slug (pw_provider old))"
          using ok r(1) o(1) False by (auto simp: providers_ok_def distinct_map inj_on_def)
        then have "i \<in> set (user_identities (usr (ss_store st')))"
          using i r(2) by (auto simp: ids update_where_def eq_ignore_ascii_case_def image_iff)
        moreover have "provider_of st' i = Some pid'"
          unfolding provider_of_iff[OF ok'] st' using r d by (force simp: update_where_def)
        ultimately show ?thesis by blast
      qed
    qed
    then show ?thesis using ok' by (simp add: identities_follow_def)
  qed
qed

lemma delete_provider_ok:
  assumes ok: "providers_ok st" and s: "delete_auth_provider now actor pid st = (b, st')"
  shows "providers_ok st' \<and> identities_follow st st'"
proof -
  define doomed where "doomed r \<longleftrightarrow> ap_id (pw_provider r) = pid
    \<and> \<not> list_ex (\<lambda>i. eq_ignore_ascii_case (ui_provider_id i) (ap_slug (pw_provider r))) (user_identities (usr (ss_store st)))" for r :: provider_row
  have "st' = st \<or> ss_providers st' = delete_where doomed (ss_providers st) \<and> ss_providers_seq st' = ss_providers_seq st
      \<and> user_identities (usr (ss_store st')) = user_identities (usr (ss_store st))"
    using s by (auto simp: delete_auth_provider_def Let_def on_store_def doomed_def[abs_def] split: if_splits)
  then show ?thesis
  proof (elim disjE conjE)
    assume "st' = st"
    then show ?thesis using ok identities_follow_refl by simp
  next
    assume st': "ss_providers st' = delete_where doomed (ss_providers st)" "ss_providers_seq st' = ss_providers_seq st"
      "user_identities (usr (ss_store st')) = user_identities (usr (ss_store st))"
    have ok': "providers_ok st'"
      using ok by (auto simp: providers_ok_def st' delete_where_def distinct_map inj_on_def)
    have "provider_of st' i = Some pid'" if i: "i \<in> set (user_identities (usr (ss_store st)))" and p: "provider_of st i = Some pid'" for i pid'
    proof -
      obtain r where r: "r \<in> set (ss_providers st)" "to_ascii_lowercase (ap_slug (pw_provider r)) = to_ascii_lowercase (ui_provider_id i)" "ap_id (pw_provider r) = pid'"
        using p provider_of_iff[OF ok] by blast
      then have "\<not> doomed r" using i by (auto simp: doomed_def list_ex_iff eq_ignore_ascii_case_def)
      then show ?thesis unfolding provider_of_iff[OF ok'] st' using r by (auto simp: delete_where_def)
    qed
    then show ?thesis using ok' by (auto simp: identities_follow_def st'(3))
  qed
qed


text \<open>The operations on providers, as one step.\<close>

datatype provider_op = SaveProvider string auth_provider bool | DeleteProvider string int

fun provider_step :: "vault \<Rightarrow> json_lib \<Rightarrow> int \<Rightarrow> provider_op \<Rightarrow> settings_store \<Rightarrow> settings_store" where
  "provider_step V J now (SaveProvider actor p preserve) st = snd (save_auth_provider V J now actor p preserve st)"
| "provider_step V J now (DeleteProvider actor pid) st = snd (delete_auth_provider now actor pid st)"

lemma provider_step_ok:
  assumes "providers_ok st"
  shows "providers_ok (provider_step V J now op st) \<and> identities_follow st (provider_step V J now op st)"
proof (cases op)
  case (SaveProvider actor p preserve)
  then show ?thesis
    using save_provider_ok[OF assms, of V J now actor p preserve] by (metis prod.collapse provider_step.simps(1))
next
  case (DeleteProvider actor pid)
  then show ?thesis
    using delete_provider_ok[OF assms, of now actor pid] by (metis prod.collapse provider_step.simps(2))
qed

lemma identities_follow_trans: "identities_follow a b \<Longrightarrow> identities_follow b c \<Longrightarrow> identities_follow a c"
  unfolding identities_follow_def by metis

text \<open>Administering providers never strands or moves an identity.  Whatever sequence of
  creations, changes, renames and deletions of providers runs, an external identity that
  belonged to a provider keeps its user and its subject and belongs to that same provider
  afterwards: a rename takes its identities along, a provider with identities is not
  deleted, and no other provider can take its name.\<close>

theorem provider_changes_keep_identities:
  assumes "providers_ok st" and "st' = run_ops (provider_step V J) ops st"
    and "i \<in> set (user_identities (usr (ss_store st)))" and "provider_of st i = Some pid"
  shows "\<exists>i'\<in>set (user_identities (usr (ss_store st'))). ui_id i' = ui_id i \<and> ui_user_id i' = ui_user_id i
    \<and> ui_provider_subject i' = ui_provider_subject i \<and> provider_of st' i' = Some pid"
proof -
  have "providers_ok st' \<and> identities_follow st st'"
    unfolding assms(2) using assms(1)
    by (intro run_ops_invariant[where P = "\<lambda>s. providers_ok s \<and> identities_follow st s"])
      (auto intro: identities_follow_refl identities_follow_trans provider_step_ok[THEN conjunct1] provider_step_ok[THEN conjunct2])
  then show ?thesis using assms(3,4) by (simp add: identities_follow_def)
qed

definition sample_provider :: auth_provider where
  "sample_provider = \<lparr>ap_id = 1, ap_slug = ''hub'', ap_display_name = ''Hub'', ap_kind = ''oauth2'', ap_preset = ''custom_oauth2'', ap_enabled = True,
     ap_client_id = ''c'', ap_client_secret = Some ''s'', ap_issuer_url = None, ap_authorization_url = Some ''https://h.org/a'',
     ap_token_url = Some ''https://h.org/t'', ap_userinfo_url = Some ''https://h.org/u'', ap_emails_url = None, ap_scopes = [],
     ap_subject_field = ''id'', ap_email_field = ''email'', ap_email_verified_field = Some ''ok'', ap_display_name_field = ''name'',
     ap_allow_registration = True, ap_auto_link_by_email = True\<rparr>"

definition sample_identity :: identity_row where
  "sample_identity = \<lparr>ui_id = 3, ui_user_id = 7, ui_provider_id = ''Hub'', ui_provider_subject = ''42'', ui_email = None,
     ui_email_verified = False, ui_created_at = 0, ui_updated_at = 0\<rparr>"

definition sample_signin :: settings_store where
  "sample_signin = empty_settings\<lparr>ss_providers := [\<lparr>pw_provider = sample_provider, pw_scopes_json = ''[]'', pw_created_at = 0, pw_updated_at = 0\<rparr>],
     ss_providers_seq := 1, ss_store := empty_store\<lparr>
       qdb := empty_database\<lparr>users := [7 \<mapsto> \<lparr>disabled = False, deleted_at = None\<rparr>]\<rparr>,
       usr := (usr empty_store)\<lparr>user_identities := [sample_identity],
         profiles := [\<lparr>pr_id = 7, pr_username = None, pr_email = ''a@b.org'', pr_display_name = ''A'', pr_created_at = 0, pr_updated_at = 0\<rparr>],
         routing_ids := [\<lparr>ro_user_id = 7, ro_public_number = 7, ro_routing_id = ''r7'', ro_active = True, ro_created_at = 0, ro_revoked_at = None\<rparr>],
         user_auth_flows := [\<lparr>fl_state_hash = hash_token toy_crypto ''st'', fl_provider_id = 1, fl_payload = ''{}'', fl_mode = ''login'',
           fl_user_id = None, fl_expires_at = 600, fl_used_at = None\<rparr>]\<rparr>\<rparr>\<rparr>"


lemma sample_providers_ok: "providers_ok sample_signin"
  by (simp add: providers_ok_def sample_signin_def sample_provider_def)

definition sample_sign_in_env :: sign_in_env where
  "sample_sign_in_env = \<lparr>si_crypto = toy_crypto, si_vault = clear_vault, si_json = fixed_json small_config, si_adm = sample_env,
     si_sqids = toy_sqids, si_rng = (\<lambda>n. n), si_authorize = (\<lambda>_ _ _ _. None), si_exchange = (\<lambda>_ _ _ _ _. Some ''tok''),
     si_get_json = (\<lambda>_ _. Some (JObject [(''id'', JInt 42), (''name'', JString ''A'')])), si_oidc = (\<lambda>_ _ _ _ _ _. None),
     si_payload_to_json = (\<lambda>_. ''{}''), si_payload_from_json = (\<lambda>_. Some \<lparr>fp_pkce_verifier = [], fp_nonce = None, fp_invitation = None\<rparr>)\<rparr>"

definition sample_callback :: "callback_reply \<times> settings_store" where
  "sample_callback = callback sample_sign_in_env (small_config\<lparr>cfg_public_base_url := ''https://m.org''\<rparr>) 5 ''session''
     [(''cookie'', ''mirrorproxy_oauth_state=st'')] ''hub'' \<lparr>cq_code = Some ''code'', cq_state = Some ''st'', cq_error = None\<rparr> sample_signin"

theorem external_sign_in_justified_witness:
  "fst sample_callback = SignedIn ''session'' 7 \<and> active_user 7 (qdb (ss_store (snd sample_callback)))"
proof -
  have r: "fst sample_callback = SignedIn ''session'' 7" by code_simp
  then have "callback sample_sign_in_env (small_config\<lparr>cfg_public_base_url := ''https://m.org''\<rparr>) 5 ''session''
     [(''cookie'', ''mirrorproxy_oauth_state=st'')] ''hub'' \<lparr>cq_code = Some ''code'', cq_state = Some ''st'', cq_error = None\<rparr> sample_signin
     = (SignedIn ''session'' 7, snd sample_callback)"
    unfolding sample_callback_def by (metis prod.collapse)
  from external_sign_in_justified[OF this] r show ?thesis by blast
qed

end
