(* ===== verification/Download_Db.thy ===== *)
theory Download_Db
  imports User_Accounts Config_Defaults
begin

text \<open>
  The tables of accelerated downloads (\<open>database/download.rs\<close>): permissions of users and groups,
  scoped tokens, blocked domains, and the daily usage that is charged together with the
  monthly quotas.

  The clock is read once per operation; the calendar gives the day and month of the quota
  time zone and the day in UTC.  A transaction that returns early leaves the tables as they
  were.
\<close>

section \<open>Tables\<close>

record download_token_row =
  dt_id :: string
  dt_user_id :: int
  dt_token_hash :: string
  dt_name :: string
  dt_expires_at :: int
  dt_created_at :: int

record block_row =
  bl_subdomains :: bool
  bl_reason :: string
  bl_actor :: string
  bl_created_at :: int

record usage_row =
  du_requests :: int
  du_errors :: int
  du_denied :: int
  du_bytes :: int
  du_upstream_bytes :: int

type_synonym usage_key = "string \<times> int \<times> string \<times> string"

record download_tables =
  download_permission_rows :: "string \<times> int \<rightharpoonup> string"
  download_token_rows :: "download_token_row list"
  download_block_rows :: "(string \<times> block_row) list"
  download_usage :: "(usage_key \<times> usage_row) list"

record download_store =
  base :: store
  dls :: download_tables

definition empty_downloads :: download_tables where
  "empty_downloads = \<lparr>download_permission_rows = Map.empty, download_token_rows = [], download_block_rows = [], download_usage = []\<rparr>"

record calendar =
  cal_utc_day :: string
  cal_utc_cutoff :: string
  cal_day :: string
  cal_month :: string

datatype download_error = DownloadConstraint | TooManyTokens

definition new_usage_row :: usage_row where
  "new_usage_row = \<lparr>du_requests = 0, du_errors = 0, du_denied = 0, du_bytes = 0, du_upstream_bytes = 0\<rparr>"

text \<open>\<open>INSERT OR IGNORE\<close>, \<open>INSERT ... ON CONFLICT DO UPDATE\<close> and \<open>UPDATE\<close> on the keyed rows.\<close>

definition keyed_insert_or_ignore :: "'k \<Rightarrow> 'r \<Rightarrow> ('k \<times> 'r) list \<Rightarrow> ('k \<times> 'r) list" where
  "keyed_insert_or_ignore k r rows = (if map_of rows k = None then rows @ [(k, r)] else rows)"

definition keyed_update :: "'k \<Rightarrow> ('r \<Rightarrow> 'r) \<Rightarrow> ('k \<times> 'r) list \<Rightarrow> ('k \<times> 'r) list" where
  "keyed_update k f rows = map (\<lambda>(k', r). (k', if k' = k then f r else r)) rows"

definition keyed_upsert :: "'k \<Rightarrow> 'r \<Rightarrow> ('r \<Rightarrow> 'r) \<Rightarrow> ('k \<times> 'r) list \<Rightarrow> ('k \<times> 'r) list" where
  "keyed_upsert k r f rows = (if map_of rows k = None then rows @ [(k, r)] else keyed_update k f rows)"

definition set_dls :: "(download_tables \<Rightarrow> download_tables) \<Rightarrow> download_store \<Rightarrow> download_store" where
  "set_dls f st = st\<lparr>dls := f (dls st)\<rparr>"

definition audit_base :: "int \<Rightarrow> string \<Rightarrow> string \<Rightarrow> string \<Rightarrow> download_store \<Rightarrow> download_store" where
  "audit_base now username action detail st = st\<lparr>base := log_audit now username action detail (base st)\<rparr>"

section \<open>Permissions\<close>

definition download_allowed :: "int \<Rightarrow> download_store \<Rightarrow> bool" where
  "download_allowed user st \<longleftrightarrow> active_user user (qdb (base st))
     \<and> (case download_permission_rows (dls st) (''user'', user) of
          Some policy \<Rightarrow> policy = ''allow''
        | None \<Rightarrow> list_ex (\<lambda>m. m_user_id m = user \<and> download_permission_rows (dls st) (''group'', m_group_id m) = Some ''allow'')
                    (group_members (qdb (base st))))"

definition set_download_permission ::
  "int \<Rightarrow> string \<Rightarrow> string \<Rightarrow> int \<Rightarrow> string \<Rightarrow> download_store \<Rightarrow> (download_error + bool) \<times> download_store" where
  "set_download_permission now actor subject_kind subject policy st =
     (let exists = (if subject_kind = ''user'' then live_user subject (qdb (base st))
                    else list_ex (\<lambda>g. g_id g = subject) (groups (qdb (base st))))
      in if \<not> exists then (Inr False, st)
         else if policy \<noteq> ''inherit'' \<and> (subject_kind \<notin> set [''user'', ''group''] \<or> policy \<notin> set [''allow'', ''deny''])
         then (Inl DownloadConstraint, st)
         else (Inr True, audit_base now actor ''download_permission_changed'' (subject_kind @ '':'' @ dec_of_int subject @ '' '' @ policy)
                (set_dls (\<lambda>d. d\<lparr>download_permission_rows := (download_permission_rows d)((subject_kind, subject) :=
                   (if policy \<noteq> ''inherit'' then Some policy else None))\<rparr>) st)))"

section \<open>Tokens\<close>

record download_token_view =
  tv_id :: string
  tv_token :: string
  tv_expires_at :: int

text \<open>The random token of 48 characters and the identifier are arguments.\<close>

definition create_download_token ::
  "crypto \<Rightarrow> int \<Rightarrow> string \<Rightarrow> string \<Rightarrow> int \<Rightarrow> string \<Rightarrow> nat \<Rightarrow> download_store
     \<Rightarrow> (download_error + download_token_view option) \<times> download_store" where
  "create_download_token K now secret uuid user name days st =
     (if \<not> download_allowed user st then (Inr None, st)
      else
        (let token = ''mpd_'' @ secret; expires = now + int days * 86400;
             live = delete_where (\<lambda>r. dt_expires_at r \<le> now) (download_token_rows (dls st))
         in if \<not> affected (\<lambda>r. dt_user_id r = user) live < 20 then (Inl TooManyTokens, st)
            else if list_ex (\<lambda>r. dt_id r = uuid \<or> dt_token_hash r = hash_token K token) live
            then (Inl DownloadConstraint, st)
            else (Inr (Some \<lparr>tv_id = uuid, tv_token = token, tv_expires_at = expires\<rparr>),
                  audit_base now (''user:'' @ dec_of_int user) ''download_token_created'' uuid
                    (set_dls (\<lambda>d. d\<lparr>download_token_rows := live @
                      [\<lparr>dt_id = uuid, dt_user_id = user, dt_token_hash = hash_token K token, dt_name = name,
                        dt_expires_at = expires, dt_created_at = now\<rparr>]\<rparr>) st))))"

definition revoke_download_token :: "int \<Rightarrow> int \<Rightarrow> string \<Rightarrow> download_store \<Rightarrow> download_store" where
  "revoke_download_token now user tid st =
     audit_base now (''user:'' @ dec_of_int user) ''download_token_revoked'' tid
       (set_dls (\<lambda>d. d\<lparr>download_token_rows := delete_where (\<lambda>r. dt_user_id r = user \<and> dt_id r = tid) (download_token_rows d)\<rparr>) st)"

definition authenticate_download_token :: "crypto \<Rightarrow> int \<Rightarrow> string \<Rightarrow> download_store \<Rightarrow> int option" where
  "authenticate_download_token K now token st =
     (if \<not> starts_with token ''mpd_'' \<or> length token \<noteq> 52 then None
      else (case fetch_optional (\<lambda>r. dt_token_hash r = hash_token K token \<and> dt_expires_at r > now) (download_token_rows (dls st)) of
          Some r \<Rightarrow> if download_allowed (dt_user_id r) st then Some (dt_user_id r) else None
        | None \<Rightarrow> None))"

section \<open>Blocked domains\<close>

definition download_blocked :: "string \<Rightarrow> download_store \<Rightarrow> bool" where
  "download_blocked domain st \<longleftrightarrow>
     list_ex (\<lambda>(d, r). d = domain \<or> (bl_subdomains r \<and> ends_with domain (''.'' @ d))) (download_block_rows (dls st))"

definition set_download_block ::
  "int \<Rightarrow> string \<Rightarrow> string \<Rightarrow> bool \<Rightarrow> string \<Rightarrow> bool \<Rightarrow> download_store \<Rightarrow> download_store" where
  "set_download_block now actor domain subdomains reason blocked st =
     audit_base now actor ''download_domain_policy_changed''
       (domain @ '' blocked='' @ bool_text blocked @ '' subdomains='' @ bool_text subdomains @ '' '' @ reason)
       (set_dls (\<lambda>d. d\<lparr>download_block_rows := filter (\<lambda>(k, _). k \<noteq> domain) (download_block_rows d) @
          (if blocked then [(domain, \<lparr>bl_subdomains = subdomains, bl_reason = reason, bl_actor = actor, bl_created_at = now\<rparr>)] else [])\<rparr>) st)"

section \<open>Usage and charging\<close>

definition download_upstream :: "calendar \<Rightarrow> int \<Rightarrow> string \<Rightarrow> string \<Rightarrow> nat \<Rightarrow> download_store \<Rightarrow> download_store" where
  "download_upstream cal user domain entry n =
     set_dls (\<lambda>d. d\<lparr>download_usage := keyed_upsert (cal_utc_day cal, user, domain, entry)
        (new_usage_row\<lparr>du_upstream_bytes := limit_to_i64 n\<rparr>)
        (\<lambda>r. r\<lparr>du_upstream_bytes := du_upstream_bytes r + limit_to_i64 n\<rparr>) (download_usage d)\<rparr>)"

definition download_stream_error :: "calendar \<Rightarrow> int \<Rightarrow> string \<Rightarrow> string \<Rightarrow> download_store \<Rightarrow> download_store" where
  "download_stream_error cal user domain entry =
     set_dls (\<lambda>d. d\<lparr>download_usage := keyed_update (cal_utc_day cal, user, domain, entry)
        (\<lambda>r. r\<lparr>du_errors := du_errors r + 1\<rparr>) (download_usage d)\<rparr>)"

text \<open>Days are texts of the form year-month-day and compared as such.\<close>

fun text_less :: "string \<Rightarrow> string \<Rightarrow> bool" where
  "text_less _ [] = False"
| "text_less [] (b # bs) = True"
| "text_less (a # as) (b # bs) =
     ((of_char a :: nat) < of_char b \<or> (a = b \<and> text_less as bs))"

definition daily_add :: "int \<Rightarrow> int \<Rightarrow> int \<Rightarrow> 'k \<Rightarrow> ('k \<rightharpoonup> daily_row) \<Rightarrow> ('k \<rightharpoonup> daily_row)" where
  "daily_add requests bytes errors k t = (case t k of
       None \<Rightarrow> t(k \<mapsto> \<lparr>d_request_count = requests, d_response_bytes = bytes, d_error_count = errors\<rparr>)
     | Some r \<Rightarrow> t(k \<mapsto> r\<lparr>d_request_count := d_request_count r + requests,
          d_response_bytes := d_response_bytes r + bytes, d_error_count := d_error_count r + errors\<rparr>))"

definition month_count ::
  "int \<Rightarrow> 'a traffic_row_scheme \<Rightarrow> 'k \<Rightarrow> ('k \<rightharpoonup> 'a traffic_row_scheme) \<Rightarrow> ('k \<rightharpoonup> 'a traffic_row_scheme)" where
  "month_count errors fresh k t = (case t k of
       None \<Rightarrow> t(k \<mapsto> fresh\<lparr>request_count := 1, error_count := errors\<rparr>)
     | Some r \<Rightarrow> t(k \<mapsto> r\<lparr>request_count := request_count r + 1, error_count := error_count r + errors\<rparr>))"

definition billing_group_of :: "int \<Rightarrow> database \<Rightarrow> int option" where
  "billing_group_of user db = map_option m_group_id (List.find (\<lambda>m. m_user_id m = user \<and> is_billing m) (group_members db))"

definition billing_limit_of :: "int \<Rightarrow> database \<Rightarrow> int option" where
  "billing_limit_of user db = Option.bind (billing_group_of user db)
     (\<lambda>g. case group_quota_settings db g of None \<Rightarrow> None | Some l \<Rightarrow> l)"

definition int_of_bool :: "bool \<Rightarrow> int" where
  "int_of_bool b = (if b then 1 else 0)"

definition download_event ::
  "calendar \<Rightarrow> int \<Rightarrow> string \<Rightarrow> string \<Rightarrow> bool \<Rightarrow> bool \<Rightarrow> download_store \<Rightarrow> download_store" where
  "download_event cal user domain entry error denied st =
     (let e = int_of_bool error; dn = int_of_bool denied;
          kept = filter (\<lambda>((day, _), _). \<not> text_less day (cal_utc_cutoff cal)) (download_usage (dls st));
          usage = keyed_upsert (cal_utc_day cal, user, domain, entry)
            (new_usage_row\<lparr>du_requests := 1, du_errors := e, du_denied := dn\<rparr>)
            (\<lambda>r. r\<lparr>du_requests := du_requests r + 1, du_errors := du_errors r + e, du_denied := du_denied r + dn\<rparr>) kept;
          db = qdb (base st);
          db1 = db\<lparr>traffic_daily := daily_add 1 0 e (cal_day cal, ''download'') (traffic_daily db),
            traffic_monthly := month_count e new_month_row (cal_month cal) (traffic_monthly db),
            user_traffic_daily := daily_add 1 0 e (cal_day cal, user, ''download'') (user_traffic_daily db),
            user_traffic_monthly := month_count e new_traffic_row (cal_month cal, user) (user_traffic_monthly db),
            group_traffic_monthly := (case billing_group_of user db of
                None \<Rightarrow> group_traffic_monthly db
              | Some g \<Rightarrow> month_count e new_traffic_row (cal_month cal, g) (group_traffic_monthly db))\<rparr>
      in st\<lparr>base := (base st)\<lparr>qdb := db1\<rparr>, dls := (dls st)\<lparr>download_usage := usage\<rparr>\<rparr>)"

text \<open>The guarded \<open>UPDATE\<close> of the billed bytes of a monthly table, after \<open>INSERT OR IGNORE\<close>.\<close>

definition charge_update ::
  "int \<Rightarrow> int \<Rightarrow> 'a traffic_row_scheme \<Rightarrow> 'k \<Rightarrow> ('k \<rightharpoonup> 'a traffic_row_scheme) \<Rightarrow> ('k \<rightharpoonup> 'a traffic_row_scheme) option" where
  "charge_update billed limit fresh k t =
     (let t1 = insert_or_ignore k fresh t in
      case t1 k of
        None \<Rightarrow> None
      | Some r \<Rightarrow> if row_response_bytes r + row_reserved_bytes r + billed \<le> limit
                  then Some (t1(k \<mapsto> r\<lparr>row_response_bytes := row_response_bytes r + billed\<rparr>)) else None)"

definition used_today :: "string \<Rightarrow> int \<Rightarrow> (usage_key \<times> usage_row) list \<Rightarrow> int" where
  "used_today day user rows = sum_list (map (\<lambda>(_, r). du_bytes r) (filter (\<lambda>((d, u, _), _). d = day \<and> u = user) rows))"

definition billed_download :: "config \<Rightarrow> nat \<Rightarrow> int" where
  "billed_download c n = limit_to_i64 (n * (if qc_bidirectional_accounting (cfg_quota c) then 2 else 1))"

definition download_user_limit :: "config \<Rightarrow> int \<Rightarrow> database \<Rightarrow> int option" where
  "download_user_limit c user db =
     effective_user_limit user (map_option (\<lambda>g. sat_mul g (2 ^ 30)) (qc_default_user_monthly_gb (cfg_quota c))) db"

definition download_global_limit :: "config \<Rightarrow> int" where
  "download_global_limit c =
     (if qc_enabled (cfg_quota c) then limit_to_i64 (sat_mul (qc_monthly_gb (cfg_quota c)) (2 ^ 30)) else I64_MAX)"

definition charge_download ::
  "calendar \<Rightarrow> int \<Rightarrow> string \<Rightarrow> string \<Rightarrow> nat \<Rightarrow> config \<Rightarrow> download_store \<Rightarrow> bool \<times> download_store" where
  "charge_download cal user domain entry n c st =
     (let billed = billed_download c n; nbytes = limit_to_i64 n; db = qdb (base st);
          key = (cal_utc_day cal, user, domain, entry);
          usage = keyed_insert_or_ignore key new_usage_row (download_usage (dls st));
          used = used_today (cal_utc_day cal) user usage
      in if i64_sat (used + nbytes) > limit_to_i64 (dlc_daily_user_bytes (cfg_download c)) then (False, st)
         else if \<not> active_user user db then (False, st)
         else (case charge_update billed (download_global_limit c) new_month_row (cal_month cal) (traffic_monthly db) of
             None \<Rightarrow> (False, st)
           | Some t \<Rightarrow>
             (case charge_update billed (unwrap_or I64_MAX (download_user_limit c user db)) new_traffic_row
                     (cal_month cal, user) (user_traffic_monthly db) of
                None \<Rightarrow> (False, st)
              | Some ut \<Rightarrow>
                (case (case billing_group_of user db of
                         None \<Rightarrow> Some (group_traffic_monthly db)
                       | Some g \<Rightarrow> charge_update billed (unwrap_or I64_MAX (billing_limit_of user db)) new_traffic_row
                                     (cal_month cal, g) (group_traffic_monthly db)) of
                   None \<Rightarrow> (False, st)
                 | Some gt \<Rightarrow>
                   (True, st\<lparr>base := (base st)\<lparr>qdb := db\<lparr>traffic_monthly := t, user_traffic_monthly := ut,
                              group_traffic_monthly := gt,
                              traffic_daily := daily_add 0 billed 0 (cal_day cal, ''download'') (traffic_daily db),
                              user_traffic_daily := daily_add 0 billed 0 (cal_day cal, user, ''download'') (user_traffic_daily db)\<rparr>\<rparr>,
                           dls := (dls st)\<lparr>download_usage :=
                              keyed_update key (\<lambda>r. r\<lparr>du_bytes := du_bytes r + nbytes\<rparr>) usage\<rparr>\<rparr>)))))"

section \<open>Histories\<close>

text \<open>Whatever else the server does to accounts and quotas is one arbitrary operation on the
  shared tables.\<close>

datatype download_op =
    SetPermission string string int string
  | CreateToken string string int string nat
  | RevokeToken int string
  | SetBlock string string bool string bool
  | UpstreamBytes calendar int string string nat
  | StreamError calendar int string string
  | Event calendar int string string bool bool
  | Charge calendar int string string nat
  | Elsewhere "store \<Rightarrow> store"

fun download_step :: "crypto \<Rightarrow> config \<Rightarrow> int \<Rightarrow> download_op \<Rightarrow> download_store \<Rightarrow> download_store" where
  "download_step K c now (SetPermission actor k subject policy) st = snd (set_download_permission now actor k subject policy st)"
| "download_step K c now (CreateToken secret uuid user name days) st = snd (create_download_token K now secret uuid user name days st)"
| "download_step K c now (RevokeToken user tid) st = revoke_download_token now user tid st"
| "download_step K c now (SetBlock actor domain sub reason blocked) st = set_download_block now actor domain sub reason blocked st"
| "download_step K c now (UpstreamBytes cal user domain entry n) st = download_upstream cal user domain entry n st"
| "download_step K c now (StreamError cal user domain entry) st = download_stream_error cal user domain entry st"
| "download_step K c now (Event cal user domain entry error denied) st = download_event cal user domain entry error denied st"
| "download_step K c now (Charge cal user domain entry n) st = snd (charge_download cal user domain entry n c st)"
| "download_step K c now (Elsewhere f) st = st\<lparr>base := f (base st)\<rparr>"

fun download_effect :: "crypto \<Rightarrow> int \<Rightarrow> download_op \<Rightarrow> download_store \<Rightarrow> (int \<times> string) session_effect" where
  "download_effect K now (CreateToken secret uuid user name days) st =
     (case fst (create_download_token K now secret uuid user name days st) of
        Inr (Some v) \<Rightarrow> Grant (hash_token K (tv_token v)) (user, uuid) (tv_expires_at v)
      | _ \<Rightarrow> Keep)"
| "download_effect K now (RevokeToken user tid) st = Revoke (\<lambda>_ owner. owner = (user, tid))"
| "download_effect K now _ st = Keep"

definition token_sessions :: "download_store \<Rightarrow> (int \<times> string) session set" where
  "token_sessions st = (\<lambda>r. (dt_token_hash r, (dt_user_id r, dt_id r), dt_expires_at r)) ` set (download_token_rows (dls st))"

lemma download_tables_simps [simp]:
  "dls (audit_base now u a d st) = dls st" "dls (set_dls f st) = f (dls st)" "base (set_dls f st) = base st"
  by (simp_all add: audit_base_def set_dls_def)

lemma other_token_rows:
  "download_token_rows (dls (snd (set_download_permission now a k s p st))) = download_token_rows (dls st)"
  "download_token_rows (dls (set_download_block now a d sub r b st)) = download_token_rows (dls st)"
  "download_token_rows (dls (download_upstream cal u d e n st)) = download_token_rows (dls st)"
  "download_token_rows (dls (download_stream_error cal u d e st)) = download_token_rows (dls st)"
  "download_token_rows (dls (download_event cal u d e er dn st)) = download_token_rows (dls st)"
  "download_token_rows (dls (snd (charge_download cal u d e n c st))) = download_token_rows (dls st)"
  by (simp_all add: set_download_permission_def set_download_block_def download_upstream_def download_stream_error_def
      download_event_def charge_download_def Let_def split: option.split)

interpretation download_tokens: session_service token_sessions "download_effect K" "download_step K c" for K c
proof
  fix now op st
  show "prunes now (apply_effect (download_effect K now op st) (token_sessions st)) (token_sessions (download_step K c now op st))"
  proof (cases op)
    case (CreateToken secret uuid user name days)
    then show ?thesis
      by (auto simp: create_download_token_def token_sessions_def prunes_def delete_where_def Let_def)
  next
    case (RevokeToken user tid)
    then show ?thesis
      by (auto simp: revoke_download_token_def token_sessions_def prunes_def delete_where_def)
  qed (simp_all add: token_sessions_def other_token_rows)
qed

lemma token_hashes_distinct:
  "distinct (map dt_token_hash (download_token_rows (dls st))) \<Longrightarrow>
     distinct (map dt_token_hash (download_token_rows (dls (download_step K c now op st))))"
proof (cases op)
  case (CreateToken secret uuid user name days)
  assume "distinct (map dt_token_hash (download_token_rows (dls st)))"
  then show ?thesis
    using CreateToken
    by (auto simp: create_download_token_def delete_where_def Let_def list_ex_iff distinct_map_filter)
next
  case (RevokeToken user tid)
  assume "distinct (map dt_token_hash (download_token_rows (dls st)))"
  then show ?thesis using RevokeToken by (simp add: revoke_download_token_def delete_where_def distinct_map_filter)
qed (simp_all add: other_token_rows)

section \<open>What a charge does\<close>

text \<open>One row per key, and no negative counts of bytes.\<close>

definition rows_ok :: "(usage_key \<times> usage_row) list \<Rightarrow> bool" where
  "rows_ok rows \<longleftrightarrow> distinct (map fst rows) \<and> (\<forall>r\<in>set (map snd rows). 0 \<le> du_bytes r)"

definition usage_ok :: "download_store \<Rightarrow> bool" where
  "usage_ok st \<longleftrightarrow> rows_ok (download_usage (dls st))"

lemma keyed_keys [simp]:
  "map fst (keyed_update k f rows) = map fst rows"
  by (simp add: keyed_update_def comp_def split_def)

lemma rows_ok_keyed:
  "rows_ok rows \<Longrightarrow> (\<And>r. 0 \<le> du_bytes r \<Longrightarrow> 0 \<le> du_bytes (f r)) \<Longrightarrow> rows_ok (keyed_update k f rows)"
  "rows_ok rows \<Longrightarrow> 0 \<le> du_bytes r0 \<Longrightarrow> rows_ok (keyed_insert_or_ignore k r0 rows)"
  "rows_ok rows \<Longrightarrow> 0 \<le> du_bytes r0 \<Longrightarrow> (\<And>r. 0 \<le> du_bytes r \<Longrightarrow> 0 \<le> du_bytes (f r)) \<Longrightarrow> rows_ok (keyed_upsert k r0 f rows)"
  "rows_ok rows \<Longrightarrow> rows_ok (filter p rows)"
proof -
  show u: "rows_ok (keyed_update k f rows)" if "rows_ok rows" "\<And>r. 0 \<le> du_bytes r \<Longrightarrow> 0 \<le> du_bytes (f r)"
    using that by (auto simp: rows_ok_def) (auto simp: keyed_update_def)
  show "rows_ok (keyed_insert_or_ignore k r0 rows)" if "rows_ok rows" "0 \<le> du_bytes r0"
    using that by (auto simp: rows_ok_def keyed_insert_or_ignore_def map_of_eq_None_iff)
  show "rows_ok (keyed_upsert k r0 f rows)"
    if "rows_ok rows" "0 \<le> du_bytes r0" "\<And>r. 0 \<le> du_bytes r \<Longrightarrow> 0 \<le> du_bytes (f r)"
    using that u[OF that(1,3)] by (auto simp: keyed_upsert_def rows_ok_def map_of_eq_None_iff)
  show "rows_ok (filter p rows)" if "rows_ok rows"
    using that by (auto simp: rows_ok_def distinct_map_filter)
qed

lemma used_today_simps [simp]:
  "used_today d u [] = 0"
  "used_today d u (((d', u', x), r) # rows) = (if d' = d \<and> u' = u then du_bytes r else 0) + used_today d u rows"
  "used_today d u (xs @ ys) = used_today d u xs + used_today d u ys"
  by (simp_all add: used_today_def)

lemma used_today_Cons: "used_today d u (p # rows) = used_today d u [p] + used_today d u rows"
  using used_today_simps(3)[of d u "[p]" rows] by simp

lemma used_today_ignore [simp]:
  "used_today d u (keyed_insert_or_ignore k new_usage_row rows) = used_today d u rows"
  by (cases k) (simp add: keyed_insert_or_ignore_def new_usage_row_def)

lemma used_today_other_update:
  assumes "\<And>r. du_bytes (f r) = du_bytes r"
  shows "used_today d u (keyed_update k f rows) = used_today d u rows"
  by (induction rows) (auto simp: keyed_update_def assms)

lemma used_today_upsert:
  assumes "\<And>r. du_bytes (f r) = du_bytes r" and "du_bytes r0 = 0"
  shows "used_today d u (keyed_upsert k r0 f rows) = used_today d u rows"
  by (cases k) (simp add: keyed_upsert_def used_today_other_update assms)

lemma used_today_add:
  assumes "distinct (map fst rows)" and "k \<in> fst ` set rows"
  shows "used_today d u (keyed_update k (\<lambda>r. r\<lparr>du_bytes := du_bytes r + n\<rparr>) rows) =
    used_today d u rows + (if fst k = d \<and> fst (snd k) = u then n else 0)"
  using assms
proof (induction rows)
  case (Cons p rows)
  obtain d' u' x r where p: "p = ((d', u', x), r)" by (cases p) auto
  show ?case
  proof (cases "fst p = k")
    case True
    then have "keyed_update k (\<lambda>r. r\<lparr>du_bytes := du_bytes r + n\<rparr>) rows = rows"
      using Cons.prems(1) by (force simp: keyed_update_def p intro!: map_idI split: prod.splits)
    then show ?thesis using True by (auto simp: keyed_update_def p)
  next
    case False
    then show ?thesis using Cons by (auto simp: keyed_update_def p)
  qed
qed simp

lemma used_today_nonneg: "rows_ok rows \<Longrightarrow> 0 \<le> used_today d u rows"
  by (induction rows) (auto simp: rows_ok_def)

lemma used_today_filter: "rows_ok rows \<Longrightarrow> used_today d u (filter p rows) \<le> used_today d u rows"
  by (induction rows) (auto simp: rows_ok_def)

text \<open>The contract of the guarded update on a monthly table.\<close>

lemma charge_update_iff:
  assumes "row_response_bytes fresh = 0" and "row_reserved_bytes fresh = 0"
  shows "charge_update b l fresh k t \<noteq> None \<longleftrightarrow> billed_of t k + reserved_of t k + b \<le> l"
    and "charge_update b l fresh k t = Some t' \<Longrightarrow> billed_of t' k' = billed_of t k' + (if k' = k then b else 0)"
    and "charge_update b l fresh k t = Some t' \<Longrightarrow> reserved_of t' k' = reserved_of t k'"
  using assms
  by (auto simp: charge_update_def insert_or_ignore_def usage_defs Let_def split: option.splits if_splits)

lemmas charge_month = charge_update_iff[OF month_table.fresh_zero(2,4)]
lemmas charge_scope = charge_update_iff[OF scope_table.fresh_zero(2,4)]

text \<open>Whether all four budgets have room.\<close>

definition charge_room :: "calendar \<Rightarrow> int \<Rightarrow> nat \<Rightarrow> config \<Rightarrow> download_store \<Rightarrow> bool" where
  "charge_room cal user n c st \<longleftrightarrow>
     (let db = qdb (base st); b = billed_download c n; m = cal_month cal in
      used_today (cal_utc_day cal) user (download_usage (dls st)) + limit_to_i64 n
        \<le> limit_to_i64 (dlc_daily_user_bytes (cfg_download c))
      \<and> active_user user db
      \<and> billed_of (traffic_monthly db) m + reserved_of (traffic_monthly db) m + b \<le> download_global_limit c
      \<and> billed_of (user_traffic_monthly db) (m, user) + reserved_of (user_traffic_monthly db) (m, user) + b
          \<le> unwrap_or I64_MAX (download_user_limit c user db)
      \<and> (case billing_group_of user db of None \<Rightarrow> True
         | Some g \<Rightarrow> billed_of (group_traffic_monthly db) (m, g) + reserved_of (group_traffic_monthly db) (m, g) + b
             \<le> unwrap_or I64_MAX (billing_limit_of user db)))"

lemma i64_sat_exceeds:
  assumes "0 \<le> v" and "l < I64_MAX"
  shows "i64_sat v > l \<longleftrightarrow> v > l"
  using assms by (auto simp: i64_sat_def I64_MAX_def)

definition group_charge :: "calendar \<Rightarrow> int \<Rightarrow> nat \<Rightarrow> config \<Rightarrow> database \<Rightarrow> (string \<times> int \<rightharpoonup> traffic_row) option" where
  "group_charge cal user n c db = (case billing_group_of user db of
       None \<Rightarrow> Some (group_traffic_monthly db)
     | Some g \<Rightarrow> charge_update (billed_download c n) (unwrap_or I64_MAX (billing_limit_of user db)) new_traffic_row
                   (cal_month cal, g) (group_traffic_monthly db))"

lemma charge_outcome:
  assumes "usage_ok st" and "int (dlc_daily_user_bytes (cfg_download c)) < I64_MAX"
  obtains (refused) "\<not> charge_room cal user n c st" "charge_download cal user domain entry n c st = (False, st)"
  | (charged) t ut gt where "charge_room cal user n c st"
      "charge_update (billed_download c n) (download_global_limit c) new_month_row (cal_month cal) (traffic_monthly (qdb (base st))) = Some t"
      "charge_update (billed_download c n) (unwrap_or I64_MAX (download_user_limit c user (qdb (base st)))) new_traffic_row
         (cal_month cal, user) (user_traffic_monthly (qdb (base st))) = Some ut"
      "group_charge cal user n c (qdb (base st)) = Some gt"
      "fst (charge_download cal user domain entry n c st)"
      "traffic_monthly (qdb (base (snd (charge_download cal user domain entry n c st)))) = t"
      "user_traffic_monthly (qdb (base (snd (charge_download cal user domain entry n c st)))) = ut"
      "group_traffic_monthly (qdb (base (snd (charge_download cal user domain entry n c st)))) = gt"
      "download_usage (dls (snd (charge_download cal user domain entry n c st))) =
         keyed_update (cal_utc_day cal, user, domain, entry) (\<lambda>r. r\<lparr>du_bytes := du_bytes r + limit_to_i64 n\<rparr>)
           (keyed_insert_or_ignore (cal_utc_day cal, user, domain, entry) new_usage_row (download_usage (dls st)))"
proof -
  let ?db = "qdb (base st)" and ?b = "billed_download c n"
  let ?t = "charge_update ?b (download_global_limit c) new_month_row (cal_month cal) (traffic_monthly ?db)"
  let ?u = "charge_update ?b (unwrap_or I64_MAX (download_user_limit c user ?db)) new_traffic_row (cal_month cal, user) (user_traffic_monthly ?db)"
  let ?g = "group_charge cal user n c ?db"
  let ?over = "i64_sat (used_today (cal_utc_day cal) user (download_usage (dls st)) + limit_to_i64 n) > limit_to_i64 (dlc_daily_user_bytes (cfg_download c))"
  have "0 \<le> used_today (cal_utc_day cal) user (download_usage (dls st)) + limit_to_i64 n"
    using assms(1) used_today_nonneg by (auto simp: usage_ok_def)
  moreover have "limit_to_i64 (dlc_daily_user_bytes (cfg_download c)) < I64_MAX"
    using assms(2) by (simp add: limit_to_i64_def)
  ultimately have over: "?over \<longleftrightarrow> used_today (cal_utc_day cal) user (download_usage (dls st)) + limit_to_i64 n > limit_to_i64 (dlc_daily_user_bytes (cfg_download c))"
    by (rule i64_sat_exceeds)
  have room: "charge_room cal user n c st \<longleftrightarrow> \<not> ?over \<and> active_user user ?db \<and> ?t \<noteq> None \<and> ?u \<noteq> None \<and> ?g \<noteq> None"
    unfolding over charge_room_def Let_def group_charge_def
    unfolding charge_month(1) charge_scope(1)
    by (cases "billing_group_of user ?db") (simp_all add: not_less charge_scope(1) del: not_None_eq)
  note d = charge_download_def[of cal user domain entry n c st, unfolded Let_def used_today_ignore, folded group_charge_def]
  show ?thesis
  proof (cases "charge_room cal user n c st")
    case True
    then obtain t ut gt where "?t = Some t" "?u = Some ut" "?g = Some gt" "\<not> ?over" "active_user user ?db"
      using room by auto
    then show ?thesis using True by (intro charged) (simp_all add: d)
  next
    case False
    then have "charge_download cal user domain entry n c st = (False, st)"
      unfolding room d by (cases ?t; cases ?u; cases ?g) auto
    with False show ?thesis by (rule refused)
  qed
qed

lemma charged_usage:
  assumes "usage_ok st" and "rows = keyed_update (day, user, domain, entry) (\<lambda>r. r\<lparr>du_bytes := du_bytes r + n\<rparr>)
      (keyed_insert_or_ignore (day, user, domain, entry) new_usage_row (download_usage (dls st)))"
  shows "used_today d u rows = used_today d u (download_usage (dls st)) + (if d = day \<and> u = user then n else 0)"
proof -
  let ?k = "(day, user, domain, entry)"
  have keys: "distinct (map fst (keyed_insert_or_ignore ?k new_usage_row (download_usage (dls st))))"
    "?k \<in> fst ` set (keyed_insert_or_ignore ?k new_usage_row (download_usage (dls st)))"
    using assms(1)
    by (auto simp: usage_ok_def rows_ok_def keyed_insert_or_ignore_def map_of_eq_None_iff image_iff dest: map_of_SomeD)
  then show ?thesis unfolding assms(2) used_today_add[OF keys] by auto
qed

section \<open>Properties\<close>

text \<open>C21: Charging a piece of a download is one transaction over four budgets.  It succeeds
  exactly when the account is active and the bytes fit the user's day, the global month, the
  user's month and the month of the billing group, counting what running requests have
  reserved; then precisely these counters grow, by the delivered bytes and by the billed ones.
  Otherwise nothing changes at all.\<close>

theorem download_charge_atomic:
  assumes "usage_ok st" and "int (dlc_daily_user_bytes (cfg_download c)) < I64_MAX"
    and "charge_download cal user domain entry n c st = (ok, st')"
  shows "(ok \<longleftrightarrow> charge_room cal user n c st) \<and> (\<not> ok \<longrightarrow> st' = st)
    \<and> (ok \<longrightarrow>
        (\<forall>d u. used_today d u (download_usage (dls st')) = used_today d u (download_usage (dls st))
           + (if d = cal_utc_day cal \<and> u = user then limit_to_i64 n else 0))
      \<and> (\<forall>m. billed_of (traffic_monthly (qdb (base st'))) m = billed_of (traffic_monthly (qdb (base st))) m
           + (if m = cal_month cal then billed_download c n else 0))
      \<and> (\<forall>k. billed_of (user_traffic_monthly (qdb (base st'))) k = billed_of (user_traffic_monthly (qdb (base st))) k
           + (if k = (cal_month cal, user) then billed_download c n else 0))
      \<and> (\<forall>m g. billed_of (group_traffic_monthly (qdb (base st'))) (m, g) = billed_of (group_traffic_monthly (qdb (base st))) (m, g)
           + (if m = cal_month cal \<and> billing_group_of user (qdb (base st)) = Some g then billed_download c n else 0))
      \<and> (\<forall>m. reserved_of (traffic_monthly (qdb (base st'))) m = reserved_of (traffic_monthly (qdb (base st))) m)
      \<and> (\<forall>k. reserved_of (user_traffic_monthly (qdb (base st'))) k = reserved_of (user_traffic_monthly (qdb (base st))) k)
      \<and> (\<forall>k. reserved_of (group_traffic_monthly (qdb (base st'))) k = reserved_of (group_traffic_monthly (qdb (base st))) k))"
  using assms(1,2)
proof (cases rule: charge_outcome[where cal = cal and user = user and n = n and domain = domain and entry = entry])
  case refused
  then show ?thesis using assms(3) by simp
next
  case (charged t ut gt)
  have gt: "billed_of gt (m, g) = billed_of (group_traffic_monthly (qdb (base st))) (m, g)
      + (if m = cal_month cal \<and> billing_group_of user (qdb (base st)) = Some g then billed_download c n else 0)"
    "reserved_of gt k = reserved_of (group_traffic_monthly (qdb (base st))) k" for m g k
  proof -
    consider "billing_group_of user (qdb (base st)) = None" "gt = group_traffic_monthly (qdb (base st))"
      | g' l where "billing_group_of user (qdb (base st)) = Some g'"
          "charge_update (billed_download c n) l new_traffic_row (cal_month cal, g') (group_traffic_monthly (qdb (base st))) = Some gt"
      using charged(4) unfolding group_charge_def by (auto split: option.splits)
    then show "billed_of gt (m, g) = billed_of (group_traffic_monthly (qdb (base st))) (m, g)
      + (if m = cal_month cal \<and> billing_group_of user (qdb (base st)) = Some g then billed_download c n else 0)"
      "reserved_of gt k = reserved_of (group_traffic_monthly (qdb (base st))) k"
      by (cases; auto simp: charge_scope(2,3))+
  qed
  show ?thesis
    using charged(1,5-9) assms(3) charge_month(2,3)[OF charged(2)] charge_scope(2,3)[OF charged(3)] gt charged_usage[OF assms(1) charged(9)]
    by auto
qed

text \<open>The two-byte day budget of the sample.\<close>

definition sample_calendar :: calendar where
  "sample_calendar = \<lparr>cal_utc_day = ''2025-01-01'', cal_utc_cutoff = ''2024-10-03'', cal_day = ''2025-01-01'', cal_month = ''2025-01''\<rparr>"

definition sample_downloads :: download_store where
  "sample_downloads = \<lparr>base = empty_store\<lparr>qdb := empty_database\<lparr>users := [7 \<mapsto> \<lparr>disabled = False, deleted_at = None\<rparr>]\<rparr>\<rparr>,
     dls = empty_downloads\<rparr>"

theorem download_charge_atomic_witness:
  "used_today ''2025-01-01'' 7 (download_usage (dls (snd (charge_download sample_calendar 7 ''a.org'' ''a.org'' 5
      (small_config\<lparr>cfg_download := DownloadConfig_default\<rparr>) sample_downloads)))) = 5"
proof -
  let ?c = "small_config\<lparr>cfg_download := DownloadConfig_default\<rparr>"
  obtain ok st' where r: "charge_download sample_calendar 7 ''a.org'' ''a.org'' 5 ?c sample_downloads = (ok, st')"
    by (cases "charge_download sample_calendar 7 ''a.org'' ''a.org'' 5 ?c sample_downloads")
  have u: "usage_ok sample_downloads" by (simp add: usage_ok_def rows_ok_def sample_downloads_def empty_downloads_def)
  have l: "int (dlc_daily_user_bytes (cfg_download ?c)) < I64_MAX"
    by (simp add: DownloadConfig_default_def I64_MAX_def)
  have "charge_room sample_calendar 7 5 ?c sample_downloads"
    by (simp add: charge_room_def sample_downloads_def empty_downloads_def empty_store_def empty_database_def active_user_def
        usage_defs sample_calendar_def billing_group_of_def small_config_def DownloadConfig_default_def QuotaConfig_default_def
        download_global_limit_def download_user_limit_def effective_user_limit_def billed_download_def limit_to_i64_def
        I64_MAX_def sat_mul_def U64_MAX_def)
  with download_charge_atomic[OF u l r]
  have "used_today ''2025-01-01'' 7 (download_usage (dls st')) = used_today ''2025-01-01'' 7 (download_usage (dls sample_downloads))
      + (if ''2025-01-01'' = cal_utc_day sample_calendar \<and> (7::int) = 7 then limit_to_i64 5 else 0)" by blast
  then have "used_today ''2025-01-01'' 7 (download_usage (dls st')) = 5"
    by (simp add: sample_calendar_def sample_downloads_def empty_downloads_def limit_to_i64_def I64_MAX_def)
  then show ?thesis by (simp only: r snd_conv)
qed

text \<open>What the operations do to one user's day.\<close>

lemma other_usage:
  "download_usage (dls (snd (set_download_permission now a k s p st))) = download_usage (dls st)"
  "download_usage (dls (snd (create_download_token K now sec i u nm ds st))) = download_usage (dls st)"
  "download_usage (dls (revoke_download_token now u i st)) = download_usage (dls st)"
  "download_usage (dls (set_download_block now a d sub r b st)) = download_usage (dls st)"
  by (simp_all add: set_download_permission_def create_download_token_def revoke_download_token_def set_download_block_def Let_def)

definition within_day :: "config \<Rightarrow> download_store \<Rightarrow> bool" where
  "within_day c st \<longleftrightarrow> usage_ok st
     \<and> (\<forall>d u. used_today d u (download_usage (dls st)) \<le> limit_to_i64 (dlc_daily_user_bytes (cfg_download c)))"

lemma within_day_usage:
  assumes "within_day c st" and "rows_ok (download_usage (dls st'))"
    and "\<And>d u. used_today d u (download_usage (dls st')) \<le> used_today d u (download_usage (dls st))"
  shows "within_day c st'"
  using assms by (meson within_day_def usage_ok_def order_trans)

lemma within_day_charge:
  assumes "within_day c st" and "int (dlc_daily_user_bytes (cfg_download c)) < I64_MAX"
  shows "within_day c (snd (charge_download cal user domain entry n c st))"
proof -
  have ok: "usage_ok st" using assms(1) by (simp add: within_day_def)
  then show ?thesis
    using assms(2)
  proof (cases rule: charge_outcome[where cal = cal and user = user and n = n and domain = domain and entry = entry])
    case refused
    then show ?thesis using assms(1) by simp
  next
    case (charged t ut gt)
    let ?st' = "snd (charge_download cal user domain entry n c st)"
    have "0 \<le> du_bytes new_usage_row" by (simp add: new_usage_row_def)
    then have "usage_ok ?st'"
      using ok unfolding usage_ok_def charged(9) by (intro rows_ok_keyed(1,2)) auto
    moreover have "used_today d u (download_usage (dls ?st')) \<le> limit_to_i64 (dlc_daily_user_bytes (cfg_download c))" for d u
      using charged_usage[OF ok charged(9), of d u] assms(1) charged(1)
      by (auto simp: within_day_def charge_room_def Let_def)
    ultimately show ?thesis by (simp add: within_day_def)
  qed
qed

lemma within_day_step:
  assumes "within_day c st" and "int (dlc_daily_user_bytes (cfg_download c)) < I64_MAX"
  shows "within_day c (download_step K c now op st)"
proof -
  have ok: "rows_ok (download_usage (dls st))" using assms(1) by (simp add: within_day_def usage_ok_def)
  have z: "0 \<le> du_bytes new_usage_row" by (simp add: new_usage_row_def)
  show ?thesis
  proof (cases op)
    case (Charge cal user domain entry n)
    then show ?thesis using within_day_charge[OF assms] by simp
  next
    case (UpstreamBytes cal user domain entry n)
    show ?thesis
      using z by (intro within_day_usage[OF assms(1)])
        (auto simp: UpstreamBytes download_upstream_def used_today_upsert new_usage_row_def intro!: rows_ok_keyed ok)
  next
    case (StreamError cal user domain entry)
    show ?thesis
      by (intro within_day_usage[OF assms(1)])
        (auto simp: StreamError download_stream_error_def used_today_other_update intro!: rows_ok_keyed ok)
  next
    case (Event cal user domain entry er dn)
    show ?thesis
      using z by (intro within_day_usage[OF assms(1)])
        (auto simp: Event download_event_def Let_def used_today_upsert new_usage_row_def used_today_filter[OF ok]
          intro!: rows_ok_keyed ok)
  qed (use assms(1) in \<open>simp_all add: within_day_def usage_ok_def other_usage\<close>)
qed



text \<open>A download token is worth exactly what was granted.  After any history, at times
  that do not go backwards, a token is accepted exactly when it has the right form, was
  created for that user, has neither expired nor been revoked, and the user may download at
  this very moment: an active account whose own permission says so, or, failing an own one,
  the permission of one of its groups.\<close>

theorem download_tokens_refine_ledger:
  assumes "download_token_rows (dls st0) = []" and "sorted (map fst ops)" and "\<forall>t\<in>set (map fst ops). t \<le> now"
    and "st = run_ops (download_step K c) ops st0"
  shows "authenticate_download_token K now token st = Some user \<longleftrightarrow>
      starts_with token ''mpd_'' \<and> length token = 52
      \<and> (\<exists>tid e. (hash_token K token, (user, tid), e) \<in> granted (download_effect K) (download_step K c) ops st0 {} \<and> e > now)
      \<and> active_user user (qdb (base st))
      \<and> (case download_permission_rows (dls st) (''user'', user) of
           Some policy \<Rightarrow> policy = ''allow''
         | None \<Rightarrow> \<exists>m\<in>set (group_members (qdb (base st))). m_user_id m = user
                     \<and> download_permission_rows (dls st) (''group'', m_group_id m) = Some ''allow'')"
proof -
  have ledger: "(h, owner, e) \<in> granted (download_effect K) (download_step K c) ops st0 {} \<longleftrightarrow> (h, owner, e) \<in> token_sessions st"
    if "e > now" for h owner e
    unfolding assms(4) using assms(1-3) that by (intro download_tokens.live_sessions) (auto simp: token_sessions_def)
  have d: "distinct (map dt_token_hash (download_token_rows (dls st)))"
    unfolding assms(4)
    by (rule run_ops_invariant[where P = "\<lambda>s. distinct (map dt_token_hash (download_token_rows (dls s)))"])
      (auto intro: token_hashes_distinct simp: assms(1))
  have row: "fetch_optional (\<lambda>r. dt_token_hash r = h \<and> dt_expires_at r > now) (download_token_rows (dls st)) = Some r \<longleftrightarrow>
      r \<in> set (download_token_rows (dls st)) \<and> dt_token_hash r = h \<and> dt_expires_at r > now" for h r
  proof
    assume r: "r \<in> set (download_token_rows (dls st)) \<and> dt_token_hash r = h \<and> dt_expires_at r > now"
    then obtain r' where r': "fetch_optional (\<lambda>r. dt_token_hash r = h \<and> dt_expires_at r > now) (download_token_rows (dls st)) = Some r'"
      by (cases "fetch_optional (\<lambda>r. dt_token_hash r = h \<and> dt_expires_at r > now) (download_token_rows (dls st))")
        (auto simp: fetch_optional_None)
    with r have "r' = r" using d fetch_optional_Some[OF r'] by (auto simp: distinct_map inj_on_def)
    with r' show "fetch_optional (\<lambda>r. dt_token_hash r = h \<and> dt_expires_at r > now) (download_token_rows (dls st)) = Some r" by simp
  qed (rule fetch_optional_Some)
  have "(\<exists>tid e. (hash_token K token, (user, tid), e) \<in> granted (download_effect K) (download_step K c) ops st0 {} \<and> e > now) \<longleftrightarrow>
      (\<exists>r. fetch_optional (\<lambda>r. dt_token_hash r = hash_token K token \<and> dt_expires_at r > now) (download_token_rows (dls st)) = Some r \<and> dt_user_id r = user)"
  proof -
    have "(\<exists>tid e. (h, (user, tid), e) \<in> granted (download_effect K) (download_step K c) ops st0 {} \<and> e > now)
        \<longleftrightarrow> (\<exists>tid e. (h, (user, tid), e) \<in> token_sessions st \<and> e > now)" for h
      using ledger by blast
    moreover have "(\<exists>tid e. (h, (user, tid), e) \<in> token_sessions st \<and> e > now)
        \<longleftrightarrow> (\<exists>r. r \<in> set (download_token_rows (dls st)) \<and> dt_token_hash r = h \<and> dt_expires_at r > now \<and> dt_user_id r = user)" for h
      unfolding token_sessions_def image_iff by (auto simp: eq_commute[of h])
    ultimately show ?thesis unfolding row by simp
  qed
  then show ?thesis
    unfolding authenticate_download_token_def download_allowed_def
    by (auto simp: list_ex_iff split: option.splits)
qed

definition token_history :: "(int \<times> download_op) list" where
  "token_history = [(0, SetPermission ''admin'' ''user'' 7 ''allow''), (1, CreateToken (replicate 48 (CHR ''x'')) ''id'' 7 ''ci'' 1)]"

end
