(* ===== verification/Download_Fetch.thy ===== *)
theory Download_Fetch
  imports Download_Db Admission
begin

text \<open>
  Accelerated downloads (\<open>download.rs\<close>): the slots of running downloads, the syntax of targets,
  the addresses they may resolve to, the redirect loop, the request handler and the worker
  that streams a body piece by piece.

  Name resolution, the HTTP exchange and the parser of URLs are parameters.  While a handler
  waits, other tasks change the tables: each hop of the redirect loop reads its own state of
  the database, and the worker works on a world that any function may change before each of
  its steps.  Throttling only delays.
\<close>

section \<open>Slots\<close>

record active_download =
  ac_user :: int
  ac_hosts :: "string list"
  ac_cancelled :: bool

type_synonym runtime = "(string \<times> active_download) list"

text \<open>The identifier of a slot is fresh in practice; inserting replaces an old entry.\<close>

definition slot_acquire :: "string \<Rightarrow> int \<Rightarrow> download_config \<Rightarrow> runtime \<Rightarrow> runtime option" where
  "slot_acquire uuid user c rt =
     (if length rt \<ge> dlc_max_concurrent c \<or> length (filter (\<lambda>(_, a). ac_user a = user) rt) \<ge> dlc_max_user_concurrent c
      then None
      else Some (filter (\<lambda>(k, _). k \<noteq> uuid) rt @ [(uuid, \<lparr>ac_user = user, ac_hosts = [], ac_cancelled = False\<rparr>)]))"

definition slot_release :: "string \<Rightarrow> runtime \<Rightarrow> runtime" where
  "slot_release uuid rt = filter (\<lambda>(k, _). k \<noteq> uuid) rt"

definition slot_update :: "(string \<Rightarrow> active_download \<Rightarrow> bool) \<Rightarrow> (active_download \<Rightarrow> active_download) \<Rightarrow> runtime \<Rightarrow> runtime" where
  "slot_update p f rt = map (\<lambda>(k, a). (k, if p k a then f a else a)) rt"

definition slot_host :: "string \<Rightarrow> string \<Rightarrow> runtime \<Rightarrow> runtime" where
  "slot_host uuid host = slot_update (\<lambda>k _. k = uuid) (\<lambda>a. a\<lparr>ac_hosts := ac_hosts a @ [host]\<rparr>)"

definition cancel_domain :: "string \<Rightarrow> bool \<Rightarrow> runtime \<Rightarrow> runtime" where
  "cancel_domain domain subdomains =
     slot_update (\<lambda>_ a. list_ex (\<lambda>h. h = domain \<or> (subdomains \<and> ends_with h (''.'' @ domain))) (ac_hosts a))
       (\<lambda>a. a\<lparr>ac_cancelled := True\<rparr>)"

definition cancel_user :: "int \<Rightarrow> runtime \<Rightarrow> runtime" where
  "cancel_user user = slot_update (\<lambda>_ a. ac_user a = user) (\<lambda>a. a\<lparr>ac_cancelled := True\<rparr>)"

definition cancel_all :: "runtime \<Rightarrow> runtime" where
  "cancel_all = slot_update (\<lambda>_ _. True) (\<lambda>a. a\<lparr>ac_cancelled := True\<rparr>)"

definition cancel_one :: "string \<Rightarrow> runtime \<Rightarrow> runtime" where
  "cancel_one uuid = slot_update (\<lambda>k _. k = uuid) (\<lambda>a. a\<lparr>ac_cancelled := True\<rparr>)"

section \<open>Targets\<close>

record download_request =
  dq_method :: http_method
  dq_url :: url
  dq_addresses :: "ip_addr list"
  dq_headers :: header_map

record download_response =
  dp_status :: nat
  dp_headers :: header_map
  dp_content_length :: "nat option"
  dp_chunks :: "string list"
  dp_complete :: bool

record fetch_env =
  fe_urls :: url_lib
  fe_host_is_name :: "url \<Rightarrow> bool"
  fe_lookup_host :: "nat \<Rightarrow> string \<Rightarrow> ip_addr list option"
  fe_send :: "nat \<Rightarrow> download_request \<Rightarrow> download_response option"
  fe_user_agent :: string

text \<open>\<open>chars().any(char::is_control)\<close> on the bytes of a text: the C0 controls, DEL, and the C1
  controls, which UTF-8 encodes as \<open>0xC2\<close> and a byte below \<open>0xA0\<close>.\<close>

fun any_control :: "string \<Rightarrow> bool" where
  "any_control [] = False"
| "any_control (c # cs) =
     (let n = (of_char c :: nat) in
      n < 32 \<or> n = 127 \<or> (n = 194 \<and> (case cs of [] \<Rightarrow> False | d # _ \<Rightarrow> (of_char d :: nat) < 160)) \<or> any_control cs)"

definition is_alphanumeric :: "char \<Rightarrow> bool" where
  "is_alphanumeric c = (let n = (of_char c :: nat) in 48 \<le> n \<and> n \<le> 57 \<or> 65 \<le> n \<and> n \<le> 90 \<or> 97 \<le> n \<and> n \<le> 122)"

definition valid_domain :: "string \<Rightarrow> bool" where
  "valid_domain host \<longleftrightarrow> length host \<le> 253 \<and> CHR ''.'' \<in> set host \<and> \<not> ends_with host ''.''
     \<and> list_all (\<lambda>l. l \<noteq> [] \<and> length l \<le> 63 \<and> \<not> starts_with l ''-'' \<and> \<not> ends_with l ''-''
          \<and> list_all (\<lambda>b. is_alphanumeric b \<or> b = CHR ''-'') l) (split_on (CHR ''.'') host)"

definition target :: "fetch_env \<Rightarrow> string \<Rightarrow> url option" where
  "target E v =
     (if length v \<le> 8192 \<and> \<not> any_control v \<and> CHR 0x5C \<notin> set v
      then Option.bind (url_parse (fe_urls E) v) (\<lambda>url.
        if u_scheme url = ''https'' \<and> u_known_port url = Some 443 \<and> u_username url = [] \<and> u_password url = None
           \<and> u_fragment url = None \<and> fe_host_is_name E url \<and> is_some_and valid_domain (u_host url)
        then Some url else None)
      else None)"

definition domain_input :: "fetch_env \<Rightarrow> string \<Rightarrow> string option" where
  "domain_input E input =
     Option.bind (target E (''https://'' @ input @ ''/'')) (\<lambda>u. Option.bind (u_host u) (\<lambda>h.
       if u_path u = ''/'' \<and> u_query u = None \<and> eq_ignore_ascii_case input h then Some h else None))"

definition v4_special :: "(32 word \<times> nat) list" where
  "v4_special = [(0, 8), (0x0a000000, 8), (0x64400000, 10), (0x7f000000, 8), (0xa9fe0000, 16), (0xa83f8110, 32),
     (0xac100000, 12), (0xc0000000, 16), (0xc0a80000, 16), (0xc6120000, 15), (0xc6336400, 24), (0xcb007100, 24),
     (0xe0000000, 3)]"

definition v6_special :: "(128 word \<times> nat) list" where
  "v6_special = [(push_bit 112 0x2001, 23), (push_bit 96 0x20010db8, 32), (push_bit 112 0x2002, 16), (push_bit 112 0x3ff0, 12)]"

fun public_ip :: "ip_addr \<Rightarrow> bool" where
  "public_ip (V4 n) = (\<not> list_ex (\<lambda>(net, bits). drop_bit (32 - bits) n = drop_bit (32 - bits) net) v4_special)"
| "public_ip (V6 n) = (drop_bit 125 n = 1
     \<and> \<not> list_ex (\<lambda>(net, bits). drop_bit (128 - bits) n = drop_bit (128 - bits) net) v6_special)"

declare public_ip.simps [simp del]

definition resolved :: "fetch_env \<Rightarrow> nat \<Rightarrow> url \<Rightarrow> ip_addr list option" where
  "resolved E hop url =
     Option.bind (u_host url) (\<lambda>host. Option.bind (fe_lookup_host E hop host) (\<lambda>addresses.
       if addresses \<noteq> [] \<and> length addresses \<le> 64 \<and> list_all public_ip addresses then Some addresses else None))"

section \<open>The redirect loop\<close>

type_synonym rejection = "nat \<times> string"

definition hop_request :: "fetch_env \<Rightarrow> http_method \<Rightarrow> string option \<Rightarrow> url \<Rightarrow> ip_addr list \<Rightarrow> download_request" where
  "hop_request E m rng url addresses = \<lparr>dq_method = m, dq_url = url, dq_addresses = addresses,
     dq_headers = [(''accept-encoding'', ''identity''), (''user-agent'', fe_user_agent E)]
       @ (case rng of Some r \<Rightarrow> [(''range'', r)] | None \<Rightarrow> [])\<rparr>"

text \<open>At most six hops; every hop looks at the state of the tables it finds.  The hosts visited
  and the requests sent are returned on every path.\<close>

fun hops ::
  "fetch_env \<Rightarrow> (nat \<Rightarrow> download_store) \<Rightarrow> http_method \<Rightarrow> string option \<Rightarrow> nat \<Rightarrow> nat \<Rightarrow> url \<Rightarrow> string list
     \<Rightarrow> download_request list \<Rightarrow> (rejection + download_response \<times> string) \<times> string list \<times> download_request list" where
  "hops E db m rng 0 hop url hosts sent = (Inl (502, ''too many upstream redirects''), hosts, sent)"
| "hops E db m rng (Suc left) hop url hosts sent =
     (let host = unwrap_or [] (u_host url); hosts1 = hosts @ [host] in
      if download_blocked host (db hop) then (Inl (403, ''download domain is blocked''), hosts1, sent)
      else (case resolved E hop url of
          None \<Rightarrow> (Inl (403, ''target DNS/address is not allowed''), hosts1, sent)
        | Some addresses \<Rightarrow>
            (let request = hop_request E m rng url addresses;
                 sent1 = sent @ [request]
             in case fe_send E hop request of
                  None \<Rightarrow> (Inl (502, ''upstream download request failed''), hosts1, sent1)
                | Some response \<Rightarrow>
                    if dp_status response \<in> set [301, 302, 303, 307, 308]
                    then (case Option.bind (hdr_str (dp_headers response) ''location'') (url_join (fe_urls E) url) of
                        None \<Rightarrow> (Inl (502, ''invalid upstream redirect''), hosts1, sent1)
                      | Some next \<Rightarrow>
                          (case target E (u_str next) of
                             None \<Rightarrow> (Inl (403, ''redirect target is not allowed''), hosts1, sent1)
                           | Some url1 \<Rightarrow> hops E db m rng left (Suc hop) url1 hosts1 sent1))
                    else (Inr (response, host), hosts1, sent1))))"

definition upstream ::
  "fetch_env \<Rightarrow> (nat \<Rightarrow> download_store) \<Rightarrow> url \<Rightarrow> http_method \<Rightarrow> string option
     \<Rightarrow> (rejection + download_response \<times> string) \<times> string list \<times> download_request list" where
  "upstream E db url m rng = hops E db m rng 6 0 url [] []"

section \<open>The handler\<close>

definition range_header :: "header_map \<Rightarrow> rejection + string option" where
  "range_header headers = (case hdr_get headers ''range'' of
       None \<Rightarrow> Inr None
     | Some raw \<Rightarrow> (case to_str raw of
         None \<Rightarrow> Inl (400, ''invalid Range'')
       | Some v \<Rightarrow> (case Option.bind (strip_prefix ''bytes='' v) (split_once (CHR ''-'')) of
           None \<Rightarrow> Inl (400, ''only a single byte range is supported'')
         | Some (a, b) \<Rightarrow>
             (case (parse_uint U64_MAX a, if b = [] then Some U64_MAX else parse_uint U64_MAX b) of
                (Some x, Some y) \<Rightarrow> if x > y then Inl (400, ''invalid byte range'') else Inr (Some v)
              | _ \<Rightarrow> Inl (400, ''invalid byte range'')))))"

record download_world =
  dw_app :: app_state
  dw_tables :: download_tables
  dw_runtime :: runtime

definition tables_of :: "download_world \<Rightarrow> download_store" where
  "tables_of w = \<lparr>base = ap_store (dw_app w), dls = dw_tables w\<rparr>"

definition set_tables :: "download_store \<Rightarrow> download_world \<Rightarrow> download_world" where
  "set_tables st w = w\<lparr>dw_app := (dw_app w)\<lparr>ap_store := base st\<rparr>, dw_tables := dls st\<rparr>"

definition download_cfg :: "download_world \<Rightarrow> download_config" where
  "download_cfg w = cfg_download (ap_config (dw_app w))"

definition authorize :: "crypto \<Rightarrow> int \<Rightarrow> header_map \<Rightarrow> download_world \<Rightarrow> rejection + int \<times> string" where
  "authorize K now headers w =
     (if \<not> dlc_enabled (download_cfg w) then Inl (404, ''custom downloads are disabled'')
      else (case bearer_token headers of
          None \<Rightarrow> Inl (401, ''administrator authentication required'')
        | Some token \<Rightarrow> (case authenticate_download_token K now token (tables_of w) of
              Some user \<Rightarrow> Inr (user, token)
            | None \<Rightarrow> Inl (403, ''download permission required or revoked''))))"

text \<open>How the race between the redirect loop, the deadline and a cancellation ends.  A loop that
  is cut off has begun some hops and sent some of their requests.\<close>

datatype race = Finished | Cancelled nat nat | Deadline nat nat

record stream_job =
  sj_user :: int
  sj_token :: string
  sj_domain :: string
  sj_entry :: string
  sj_hosts :: "string list"
  sj_max_file_bytes :: nat
  sj_response :: download_response

datatype download_reply =
    Rejected rejection
  | Preflight string string "string list" "nat option" nat
  | HeadReply nat header_map
  | StreamReply nat header_map stream_job

definition kept_headers :: "string list" where
  "kept_headers = [''content-length'', ''content-range'', ''accept-ranges'', ''etag'', ''last-modified'', ''content-encoding'']"

definition download_headers :: "header_map \<Rightarrow> header_map" where
  "download_headers from =
     [(''content-type'', ''application/octet-stream''), (''content-disposition'', ''attachment; filename=\"download\"''),
      (''cache-control'', ''no-store''), (''x-content-type-options'', ''nosniff'')]
     @ filter_map (\<lambda>n. map_option (Pair n) (hdr_get from n)) kept_headers"

definition release :: "string \<Rightarrow> download_world \<Rightarrow> download_world" where
  "release uuid w = w\<lparr>dw_runtime := slot_release uuid (dw_runtime w)\<rparr>"

definition note_event ::
  "calendar \<Rightarrow> int \<Rightarrow> string \<Rightarrow> string \<Rightarrow> bool \<Rightarrow> bool \<Rightarrow> download_world \<Rightarrow> download_world" where
  "note_event cal user domain entry error denied w =
     set_tables (download_event cal user domain entry error denied (tables_of w)) w"

definition answer_failure ::
  "calendar \<Rightarrow> string \<Rightarrow> int \<Rightarrow> string \<Rightarrow> rejection \<Rightarrow> string list \<Rightarrow> download_world \<Rightarrow> download_reply \<times> download_world" where
  "answer_failure cal uuid user entry r hosts w =
     (let failed_host = (if hosts = [] then entry else last hosts)
      in (Rejected r, release uuid (note_event cal user failed_host entry True (fst r = 403) w)))"

definition answer_response ::
  "calendar \<Rightarrow> string \<Rightarrow> int \<Rightarrow> string \<Rightarrow> string \<Rightarrow> http_method \<Rightarrow> bool \<Rightarrow> download_response \<Rightarrow> string \<Rightarrow> string list
     \<Rightarrow> download_config \<Rightarrow> download_world \<Rightarrow> download_reply \<times> download_world" where
  "answer_response cal uuid user token entry m preflight response domain hosts c w =
     (if dp_status response \<notin> set [200, 206]
      then (Rejected (502, ''upstream did not return a downloadable response''),
            release uuid (note_event cal user domain entry True False w))
      else if is_some_and (\<lambda>n. n > dlc_max_file_bytes c) (dp_content_length response)
      then (Rejected (413, ''download exceeds file size limit''), release uuid (note_event cal user domain entry True True w))
      else
        (let w1 = note_event cal user domain entry False False w; headers = download_headers (dp_headers response) in
         if preflight then (Preflight domain entry hosts (dp_content_length response) (dlc_max_file_bytes c), release uuid w1)
         else if m = HEAD then (HeadReply (dp_status response) headers, release uuid w1)
         else (StreamReply (dp_status response) headers
                 \<lparr>sj_user = user, sj_token = token, sj_domain = domain, sj_entry = entry, sj_hosts = hosts,
                  sj_max_file_bytes = dlc_max_file_bytes c, sj_response = response\<rparr>, w1)))"

definition serve ::
  "fetch_env \<Rightarrow> calendar \<Rightarrow> (nat \<Rightarrow> download_store) \<Rightarrow> race \<Rightarrow> string \<Rightarrow> int \<Rightarrow> string \<Rightarrow> url \<Rightarrow> http_method \<Rightarrow> bool
     \<Rightarrow> string option \<Rightarrow> download_config \<Rightarrow> download_world \<Rightarrow> download_reply \<times> download_request list \<times> download_world" where
  "serve E cal db race uuid user token url m preflight rng c w =
     (let entry = unwrap_or [] (u_host url);
          visited = (\<lambda>hosts. w\<lparr>dw_runtime := fold (slot_host uuid) hosts (dw_runtime w)\<rparr>)
      in case race of
           Cancelled n k \<Rightarrow>
             (let (_, hosts, sent) = hops E db m rng (min n 6) 0 url [] []
              in (Rejected (403, ''download cancelled''), take k sent, release uuid (visited hosts)))
         | Deadline n k \<Rightarrow>
             (let (_, hosts, sent) = hops E db m rng (min n 6) 0 url [] [];
                  (reply, w1) = answer_failure cal uuid user entry (504, ''download deadline exceeded'') hosts (visited hosts)
              in (reply, take k sent, w1))
         | Finished \<Rightarrow>
             (case upstream E db url m rng of
                (Inl r, hosts, sent) \<Rightarrow>
                  (let (reply, w1) = answer_failure cal uuid user entry r hosts (visited hosts) in (reply, sent, w1))
              | (Inr (response, domain), hosts, sent) \<Rightarrow>
                  (let (reply, w1) = answer_response cal uuid user token entry m preflight response domain hosts c (visited hosts)
                   in (reply, sent, w1))))"

definition run_request ::
  "fetch_env \<Rightarrow> crypto \<Rightarrow> calendar \<Rightarrow> instant \<Rightarrow> int \<Rightarrow> (nat \<Rightarrow> download_store) \<Rightarrow> race \<Rightarrow> string \<Rightarrow> header_map \<Rightarrow> string
     \<Rightarrow> http_method \<Rightarrow> bool \<Rightarrow> ip_addr \<Rightarrow> download_world \<Rightarrow> download_reply \<times> download_request list \<times> download_world" where
  "run_request E K cal at now db race uuid headers query_url m preflight client_ip w =
     (if decide (ap_ip_access_policy (dw_app w)) client_ip \<noteq> Allow
      then (Rejected (403, ''access denied by IP policy''), [], w)
      else (case authorize K now headers w of
          Inl r \<Rightarrow> (Rejected r, [], w)
        | Inr (user, token) \<Rightarrow>
            (case RateLimiter_check (ap_rate_limiter (dw_app w)) (''download:'' @ dec_of_int user)
                    (dlc_requests_per_minute (download_cfg w)) at of
               (lim, ok) \<Rightarrow>
                 (let w1 = w\<lparr>dw_app := (dw_app w)\<lparr>ap_rate_limiter := lim\<rparr>\<rparr> in
                  if \<not> ok then (Rejected (429, ''download rate limit exceeded''), [], w1)
                  else (case target E query_url of
                      None \<Rightarrow> (Rejected (400, ''a public HTTPS download URL on port 443 without credentials or fragment is required''), [], w1)
                    | Some url \<Rightarrow>
                        (case range_header headers of
                           Inl r \<Rightarrow> (Rejected r, [], w1)
                         | Inr rng \<Rightarrow>
                             (case slot_acquire uuid user (download_cfg w1) (dw_runtime w1) of
                                None \<Rightarrow> (Rejected (429, ''download concurrency limit exceeded''), [], w1)
                              | Some rt \<Rightarrow>
                                  serve E cal db race uuid user token url m preflight rng (download_cfg w1) (w1\<lparr>dw_runtime := rt\<rparr>))))))))"

section \<open>The worker\<close>

text \<open>\<open>slice::chunks\<close>.\<close>

function chunks :: "nat \<Rightarrow> string \<Rightarrow> string list" where
  "chunks n s = (if s = [] \<or> n = 0 then [] else take n s # chunks n (drop n s))"
  by pat_completeness auto
termination
  by (relation "measure (\<lambda>(n, s). length s)") auto

declare chunks.simps [simp del]

definition PART_BYTES :: nat where
  "PART_BYTES = 65536"

text \<open>The surroundings of a running worker: what other tasks do before its next step, whether it
  is cut off there (deadline, cancellation, closed connection), and the clocks.\<close>

record worker_env =
  we_others :: "nat \<Rightarrow> download_world \<Rightarrow> download_world"
  we_stop :: "nat \<Rightarrow> bool"
  we_now :: "nat \<Rightarrow> int"
  we_calendar :: "nat \<Rightarrow> calendar"

text \<open>A part handed to the client, with the tables at the look at each host, at the second
  authentication and at the charge.\<close>

record sent_part =
  sp_part :: string
  sp_step :: nat
  sp_hosts :: "download_store list"
  sp_checked :: download_store
  sp_charged :: download_store
  sp_config :: config

type_synonym worker_state = "nat \<times> download_world \<times> sent_part list"

definition other_tasks :: "worker_env \<Rightarrow> worker_state \<Rightarrow> worker_state" where
  "other_tasks W = (\<lambda>(k, w, out). (Suc k, we_others W k w, out))"

text \<open>The tables seen at each look are kept for the record.\<close>

fun check_hosts ::
  "worker_env \<Rightarrow> string list \<Rightarrow> download_store list \<Rightarrow> worker_state \<Rightarrow> bool \<times> download_store list \<times> worker_state" where
  "check_hosts W [] seen s = (True, seen, s)"
| "check_hosts W (h # hs) seen s =
     (case other_tasks W s of (k, w, out) \<Rightarrow>
        if download_blocked h (tables_of w) then (False, seen, k, w, out)
        else check_hosts W hs (seen @ [tables_of w]) (k, w, out))"

definition send_part :: "crypto \<Rightarrow> worker_env \<Rightarrow> stream_job \<Rightarrow> string \<Rightarrow> worker_state \<Rightarrow> bool \<times> worker_state" where
  "send_part K W job piece s =
     (case other_tasks W s of (k1, w1, out) \<Rightarrow>
      (let live = ap_config (dw_app w1) in
       if we_stop W k1 \<or> \<not> dlc_enabled (cfg_download live)
          \<or> authenticate_download_token K (we_now W k1) (sj_token job) (tables_of w1) \<noteq> Some (sj_user job)
       then (False, k1, w1, out)
       else (case check_hosts W (sj_hosts job) [] (k1, w1, out) of
           (False, _, s2) \<Rightarrow> (False, s2)
         | (True, seen, s2) \<Rightarrow>
             (case other_tasks W s2 of (k3, w3, out3) \<Rightarrow>
                if we_stop W k3
                   \<or> authenticate_download_token K (we_now W k3) (sj_token job) (tables_of w3) \<noteq> Some (sj_user job)
                then (False, k3, w3, out3)
                else (case other_tasks W (k3, w3, out3) of (k4, w4, out4) \<Rightarrow>
                    (case charge_download (we_calendar W k4) (sj_user job) (sj_domain job) (sj_entry job) (length piece) live
                            (tables_of w4) of
                       (False, st) \<Rightarrow> (False, k4, set_tables st w4, out4)
                     | (True, st) \<Rightarrow>
                         if we_stop W k4 then (False, k4, set_tables st w4, out4)
                         else (True, k4, set_tables st w4,
                               out4 @ [\<lparr>sp_part = piece, sp_step = k4, sp_hosts = seen, sp_checked = tables_of w3, sp_charged = tables_of w4, sp_config = live\<rparr>])))))))"

fun send_parts :: "crypto \<Rightarrow> worker_env \<Rightarrow> stream_job \<Rightarrow> string list \<Rightarrow> worker_state \<Rightarrow> bool \<times> worker_state" where
  "send_parts K W job [] s = (True, s)"
| "send_parts K W job (p # ps) s =
     (case send_part K W job p s of (False, s1) \<Rightarrow> (False, s1) | (True, s1) \<Rightarrow> send_parts K W job ps s1)"

fun stream_chunks ::
  "crypto \<Rightarrow> worker_env \<Rightarrow> stream_job \<Rightarrow> nat \<Rightarrow> string list \<Rightarrow> worker_state \<Rightarrow> bool \<times> worker_state" where
  "stream_chunks K W job acc [] s = (dp_complete (sj_response job), s)"
| "stream_chunks K W job acc (chunk # rest) s =
     (case other_tasks W s of (k, w, out) \<Rightarrow>
      (let w1 = set_tables (download_upstream (we_calendar W k) (sj_user job) (sj_domain job) (sj_entry job) (length chunk) (tables_of w)) w;
           acc1 = sat_add acc (length chunk)
       in if we_stop W k then (False, k, w, out)
          else if acc1 > sj_max_file_bytes job then (False, k, w1, out)
          else (case send_parts K W job (chunks PART_BYTES chunk) (k, w1, out) of
              (False, s1) \<Rightarrow> (False, s1)
            | (True, s1) \<Rightarrow> stream_chunks K W job acc1 rest s1)))"

definition worker :: "crypto \<Rightarrow> worker_env \<Rightarrow> string \<Rightarrow> stream_job \<Rightarrow> download_world \<Rightarrow> bool \<times> sent_part list \<times> download_world" where
  "worker K W uuid job w =
     (case stream_chunks K W job 0 (dp_chunks (sj_response job)) (0, w, []) of (ok, k, w1, out) \<Rightarrow>
        (ok, out, release uuid
          (if ok then w1
           else set_tables (download_stream_error (we_calendar W k) (sj_user job) (sj_domain job) (sj_entry job) (tables_of w1)) w1)))"


section \<open>Where requests go\<close>

definition safe_target :: "fetch_env \<Rightarrow> url \<Rightarrow> bool" where
  "safe_target E url \<longleftrightarrow> u_scheme url = ''https'' \<and> u_known_port url = Some 443 \<and> u_username url = [] \<and> u_password url = None
     \<and> u_fragment url = None \<and> fe_host_is_name E url \<and> is_some_and valid_domain (u_host url)"

definition public_request :: "fetch_env \<Rightarrow> (nat \<Rightarrow> download_store) \<Rightarrow> nat \<Rightarrow> download_request \<Rightarrow> bool" where
  "public_request E db hop q \<longleftrightarrow> safe_target E (dq_url q)
     \<and> is_some_and (\<lambda>h. \<not> download_blocked h (db hop) \<and> fe_lookup_host E hop h = Some (dq_addresses q)) (u_host (dq_url q))
     \<and> dq_addresses q \<noteq> [] \<and> list_all public_ip (dq_addresses q)
     \<and> set (map fst (dq_headers q)) \<subseteq> {''accept-encoding'', ''user-agent'', ''range''}"

lemma public_request_host:
  "public_request E db hop q \<Longrightarrow> \<exists>host. u_host (dq_url q) = Some host \<and> valid_domain host \<and> fe_host_is_name E (dq_url q)
     \<and> u_scheme (dq_url q) = ''https'' \<and> u_known_port (dq_url q) = Some 443 \<and> u_username (dq_url q) = [] \<and> u_password (dq_url q) = None
     \<and> \<not> download_blocked host (db hop) \<and> fe_lookup_host E hop host = Some (dq_addresses q)
     \<and> dq_addresses q \<noteq> [] \<and> list_all public_ip (dq_addresses q)
     \<and> set (map fst (dq_headers q)) \<subseteq> {''accept-encoding'', ''user-agent'', ''range''}"
  by (auto simp: public_request_def safe_target_def is_some_and_iff)

lemma target_safe: "target E v = Some url \<Longrightarrow> safe_target E url"
  by (auto simp: target_def safe_target_def bind_eq_Some_conv split: if_splits)

lemma resolved_public:
  "resolved E hop url = Some as \<Longrightarrow>
     \<exists>h. u_host url = Some h \<and> fe_lookup_host E hop h = Some as \<and> as \<noteq> [] \<and> list_all public_ip as"
  by (auto simp: resolved_def bind_eq_Some_conv split: if_splits)

lemma hops_public:
  assumes "hops E db m rng left hop url hosts sent = (r, hosts', sent')" and "safe_target E url"
  shows "\<exists>new. sent' = sent @ new \<and> length new \<le> left \<and> (\<forall>i<length new. public_request E db (hop + i) (new ! i))"
  using assms
proof (induction E db m rng left hop url hosts sent rule: hops.induct)
  case (1 E db m rng hop url hosts sent)
  then show ?case by simp
next
  case (2 E db m rng left hop url hosts sent)
  show ?case
  proof (cases "download_blocked (unwrap_or [] (u_host url)) (db hop) \<or> resolved E hop url = None")
    case True
    then show ?thesis using "2.prems"(1) by (auto simp: Let_def split: option.splits if_splits)
  next
    case False
    then obtain as where as: "resolved E hop url = Some as" and nb: "\<not> download_blocked (unwrap_or [] (u_host url)) (db hop)" by auto
    define q where "q = hop_request E m rng url as"
    have q: "public_request E db hop q"
      using resolved_public[OF as] nb "2.prems"(2) by (auto simp: public_request_def q_def hop_request_def is_some_and_def split: option.splits)
    show ?thesis
    proof (cases "\<exists>resp next url1. fe_send E hop q = Some resp \<and> dp_status resp \<in> set [301, 302, 303, 307, 308]
        \<and> Option.bind (hdr_str (dp_headers resp) ''location'') (url_join (fe_urls E) url) = Some next \<and> target E (u_str next) = Some url1")
      case True
      then obtain resp nx url1 where s: "fe_send E hop q = Some resp" "dp_status resp \<in> set [301, 302, 303, 307, 308]"
        "Option.bind (hdr_str (dp_headers resp) ''location'') (url_join (fe_urls E) url) = Some nx" "target E (u_str nx) = Some url1"
        by blast
      have "hops E db m rng left (Suc hop) url1 (hosts @ [unwrap_or [] (u_host url)]) (sent @ [q]) = (r, hosts', sent')"
        using "2.prems"(1) nb as s by (simp add: Let_def q_def[symmetric])
      from "2.IH"[OF refl refl nb as q_def refl s this target_safe[OF s(4)]]
      obtain new where "sent' = (sent @ [q]) @ new" "length new \<le> left"
        "\<forall>i<length new. public_request E db (Suc hop + i) (new ! i)" by blast
      then show ?thesis using q by (intro exI[of _ "q # new"]) (auto simp: nth_Cons split: nat.split)
    next
      case False
      then have "sent' = sent @ [q]"
        using "2.prems"(1) nb as by (auto simp: Let_def q_def[symmetric] split: option.splits if_splits)
      then show ?thesis using q by (intro exI[of _ "[q]"]) auto
    qed
  qed
qed


lemma serve_public:
  assumes "serve E cal db race uuid user token url m preflight rng c w = (reply, sent, w')" and "safe_target E url"
  shows "length sent \<le> 6 \<and> (\<forall>i<length sent. public_request E db i (sent ! i))"
proof -
  obtain n r hosts all k where h: "hops E db m rng (min n 6) 0 url [] [] = (r, hosts, all)" and s: "sent = take k all"
  proof (cases race)
    case Finished
    obtain r hosts all where "hops E db m rng 6 0 url [] [] = (r, hosts, all)"
      by (cases "hops E db m rng 6 0 url [] []")
    then show ?thesis
      using that[of 6 r hosts all "length all"] assms(1) Finished
      by (auto simp: serve_def upstream_def Let_def split: sum.splits prod.splits)
  next
    case (Cancelled n k)
    obtain r hosts all where "hops E db m rng (min n 6) 0 url [] [] = (r, hosts, all)"
      by (cases "hops E db m rng (min n 6) 0 url [] []")
    then show ?thesis using that assms(1) Cancelled by (auto simp: serve_def Let_def)
  next
    case (Deadline n k)
    obtain r hosts all where "hops E db m rng (min n 6) 0 url [] [] = (r, hosts, all)"
      by (cases "hops E db m rng (min n 6) 0 url [] []")
    then show ?thesis using that assms(1) Deadline by (auto simp: serve_def Let_def split: prod.splits)
  qed
  from hops_public[OF h assms(2)] show ?thesis unfolding s by auto
qed

text \<open>C11: A download reaches public hosts only, and only for somebody entitled to it.  One
  request sends at most six requests upstream.  It sends none unless the address policy admits
  the client, downloads are enabled, the bearer token authenticates a user, that user's rate
  and both concurrency limits have room.  Every request it sends, the redirected ones
  included, goes over HTTPS to port 443 of a host named by a valid domain name, without
  credentials; the domain is not blocked when its hop begins; the connection is pinned to
  the addresses the name resolved to, all of which are public; and the only headers are
  the three of the proxy, so nothing the client sent but a byte range goes along.\<close>

theorem downloads_stay_public:
  assumes "run_request E K cal at now db race uuid headers query_url m preflight ip w = (reply, sent, w')"
  shows "length sent \<le> 6
    \<and> (sent \<noteq> [] \<longrightarrow> decide (ap_ip_access_policy (dw_app w)) ip = Allow \<and> dlc_enabled (download_cfg w)
        \<and> (\<exists>token user. bearer_token headers = Some token \<and> authenticate_download_token K now token (tables_of w) = Some user
            \<and> snd (RateLimiter_check (ap_rate_limiter (dw_app w)) (''download:'' @ dec_of_int user)
                    (dlc_requests_per_minute (download_cfg w)) at)
            \<and> length (dw_runtime w) < dlc_max_concurrent (download_cfg w)
            \<and> length (filter (\<lambda>(_, a). ac_user a = user) (dw_runtime w)) < dlc_max_user_concurrent (download_cfg w)))
    \<and> (\<forall>i<length sent. \<exists>host. u_host (dq_url (sent ! i)) = Some host \<and> valid_domain host \<and> fe_host_is_name E (dq_url (sent ! i))
        \<and> u_scheme (dq_url (sent ! i)) = ''https'' \<and> u_known_port (dq_url (sent ! i)) = Some 443
        \<and> u_username (dq_url (sent ! i)) = [] \<and> u_password (dq_url (sent ! i)) = None
        \<and> \<not> download_blocked host (db i)
        \<and> fe_lookup_host E i host = Some (dq_addresses (sent ! i))
        \<and> dq_addresses (sent ! i) \<noteq> [] \<and> list_all public_ip (dq_addresses (sent ! i))
        \<and> set (map fst (dq_headers (sent ! i))) \<subseteq> {''accept-encoding'', ''user-agent'', ''range''})"
proof (cases "sent = []")
  case True
  then show ?thesis by simp
next
  case False
  obtain user token lim url rng rt w1 where
    g: "decide (ap_ip_access_policy (dw_app w)) ip = Allow" "authorize K now headers w = Inr (user, token)"
      "RateLimiter_check (ap_rate_limiter (dw_app w)) (''download:'' @ dec_of_int user) (dlc_requests_per_minute (download_cfg w)) at = (lim, True)"
      "target E query_url = Some url" "slot_acquire uuid user (download_cfg w) (dw_runtime w) = Some rt"
      "serve E cal db race uuid user token url m preflight rng (download_cfg w) w1 = (reply, sent, w')"
    using assms False
    by (auto simp: run_request_def Let_def download_cfg_def split: if_splits sum.splits prod.splits option.splits bool.splits)
  have a: "dlc_enabled (download_cfg w)" "bearer_token headers = Some token" "authenticate_download_token K now token (tables_of w) = Some user"
    using g(2) by (auto simp: authorize_def split: if_splits option.splits)
  have "length (dw_runtime w) < dlc_max_concurrent (download_cfg w)"
    "length (filter (\<lambda>(_, a). ac_user a = user) (dw_runtime w)) < dlc_max_user_concurrent (download_cfg w)"
    using g(5) by (auto simp: slot_acquire_def split: if_splits)
  moreover have "snd (RateLimiter_check (ap_rate_limiter (dw_app w)) (''download:'' @ dec_of_int user)
      (dlc_requests_per_minute (download_cfg w)) at)" unfolding g(3) by simp
  ultimately have who: "\<exists>token user. bearer_token headers = Some token \<and> authenticate_download_token K now token (tables_of w) = Some user
      \<and> snd (RateLimiter_check (ap_rate_limiter (dw_app w)) (''download:'' @ dec_of_int user) (dlc_requests_per_minute (download_cfg w)) at)
      \<and> length (dw_runtime w) < dlc_max_concurrent (download_cfg w)
      \<and> length (filter (\<lambda>(_, a). ac_user a = user) (dw_runtime w)) < dlc_max_user_concurrent (download_cfg w)"
    using a(2,3) by blast
  have s: "length sent \<le> 6" "\<And>i. i < length sent \<Longrightarrow> public_request E db i (sent ! i)"
    using serve_public[OF g(6) target_safe[OF g(4)]] by auto
  show ?thesis
    by (intro conjI impI allI s(1) g(1) a(1) who) (rule public_request_host[OF s(2)])
qed


definition sample_world :: download_world where
  "sample_world = \<lparr>dw_app = sample_state\<lparr>ap_config := small_config\<lparr>cfg_download :=
       \<lparr>dlc_enabled = True, dlc_max_file_bytes = 9, dlc_daily_user_bytes = 20, dlc_max_concurrent = 2, dlc_max_user_concurrent = 1,
        dlc_requests_per_minute = 2, dlc_max_duration_secs = 5, dlc_bandwidth_bytes_per_sec = 5\<rparr>\<rparr>,
       ap_store := base sample_downloads\<rparr>,
     dw_tables = dls (run_ops (download_step toy_crypto small_config) token_history sample_downloads), dw_runtime = []\<rparr>"

definition sample_response :: download_response where
  "sample_response = \<lparr>dp_status = 200, dp_headers = [], dp_content_length = Some 7, dp_chunks = [''abcd'', ''efg''], dp_complete = True\<rparr>"

text \<open>A host that redirects once to another one.\<close>

definition sample_fetch :: fetch_env where
  "sample_fetch = \<lparr>fe_urls = plain_url_lib, fe_host_is_name = (\<lambda>_. True), fe_lookup_host = (\<lambda>_ _. Some [V4 0x01010101]),
     fe_send = (\<lambda>hop q. Some (if hop = 0 then \<lparr>dp_status = 302, dp_headers = [(''location'', ''https://cdn.b.org/f'')], dp_content_length = None, dp_chunks = [], dp_complete = True\<rparr>
        else sample_response)), fe_user_agent = ''MirrorProxy-Download/1''\<rparr>"

definition sample_run :: "download_reply \<times> download_request list \<times> download_world" where
  "sample_run = run_request sample_fetch toy_crypto sample_calendar 0 5 (\<lambda>_. sample_downloads) Finished ''u''
     [(''authorization'', ''Bearer mpd_'' @ replicate 48 (CHR ''x''))] ''https://a.org/f'' GET False (V4 0x01010101) sample_world"

theorem downloads_stay_public_witness:
  "map (\<lambda>q. u_str (dq_url q)) (fst (snd sample_run)) = [''https://a.org/f'', ''https://cdn.b.org/f'']
   \<and> length (fst (snd sample_run)) \<le> 6 \<and> list_all public_ip (dq_addresses (fst (snd sample_run) ! 1))"
proof -
  obtain reply sent w' where r: "sample_run = (reply, sent, w')" by (cases sample_run)
  have s: "map (\<lambda>q. u_str (dq_url q)) (fst (snd sample_run)) = [''https://a.org/f'', ''https://cdn.b.org/f'']" by code_simp
  then have n: "1 < length sent" unfolding r using length_map[of "\<lambda>q. u_str (dq_url q)" sent] by simp
  note p = downloads_stay_public[OF r[unfolded sample_run_def]]
  have "length sent \<le> 6" using p by blast
  moreover have "list_all public_ip (dq_addresses (sent ! 1))" using p n by blast
  ultimately show ?thesis using s unfolding r by simp
qed


section \<open>What the worker hands over\<close>

lemma chunks_Nil [simp]: "chunks n [] = []"
  by (simp add: chunks.simps)

lemma chunks_step: "0 < n \<Longrightarrow> s \<noteq> [] \<Longrightarrow> chunks n s = take n s # chunks n (drop n s)"
  by (subst chunks.simps) simp

lemma chunks_split:
  assumes "0 < n"
  shows "concat (chunks n s) = s \<and> (\<forall>p\<in>set (chunks n s). 1 \<le> length p \<and> length p \<le> n)"
  using assms
proof (induction n s rule: chunks.induct)
  case (1 n s)
  show ?case
  proof (cases "s = []")
    case False
    then have "concat (chunks n (drop n s)) = drop n s \<and> (\<forall>p\<in>set (chunks n (drop n s)). 1 \<le> length p \<and> length p \<le> n)"
      using 1 by simp
    moreover have "0 < length s" using False by simp
    ultimately show ?thesis unfolding chunks_step[OF "1.prems" False] using "1.prems" by (simp add: Suc_le_eq)
  qed simp
qed

text \<open>What holds when a part is handed over.\<close>

definition part_paid :: "crypto \<Rightarrow> worker_env \<Rightarrow> stream_job \<Rightarrow> sent_part \<Rightarrow> bool" where
  "part_paid K W job p \<longleftrightarrow>
     dlc_enabled (cfg_download (sp_config p))
     \<and> list_all2 (\<lambda>h st. \<not> download_blocked h st) (sj_hosts job) (sp_hosts p)
     \<and> (\<exists>k. k < sp_step p \<and> authenticate_download_token K (we_now W k) (sj_token job) (sp_checked p) = Some (sj_user job))
     \<and> fst (charge_download (we_calendar W (sp_step p)) (sj_user job) (sj_domain job) (sj_entry job) (length (sp_part p))
             (sp_config p) (sp_charged p))"

lemma check_hosts_out:
  assumes "check_hosts W hs seen (k, w, out) = (ok, seen', k', w', out')" and "list_all2 (\<lambda>h st. \<not> download_blocked h st) prev seen"
  shows "out' = out \<and> k \<le> k' \<and> (ok \<longrightarrow> list_all2 (\<lambda>h st. \<not> download_blocked h st) (prev @ hs) seen')"
  using assms
proof (induction hs arbitrary: seen k w prev)
  case (Cons h hs)
  show ?case
  proof (cases "download_blocked h (tables_of (we_others W k w))")
    case True
    then show ?thesis using Cons.prems(1) by (simp add: other_tasks_def)
  next
    case False
    have "check_hosts W hs (seen @ [tables_of (we_others W k w)]) (Suc k, we_others W k w, out) = (ok, seen', k', w', out')"
      using Cons.prems(1) False by (simp add: other_tasks_def)
    from Cons.IH[OF this, of "prev @ [h]"] Cons.prems(2) False show ?thesis
      by (simp add: list_all2_appendI)
  qed
qed simp

lemma check_hosts_all:
  "check_hosts W hs [] (k, w, out) = (ok, seen, k', w', out') \<Longrightarrow>
     out' = out \<and> k \<le> k' \<and> (ok \<longrightarrow> list_all2 (\<lambda>h st. \<not> download_blocked h st) hs seen)"
  using check_hosts_out[of W hs "[]" k w out ok seen k' w' out' "[]"] by simp

lemma send_part_out:
  assumes "send_part K W job piece (k, w, out) = (ok, k', w', out')"
  shows "if ok then \<exists>p. out' = out @ [p] \<and> sp_part p = piece \<and> part_paid K W job p else out' = out"
proof (cases ok)
  case False
  then show ?thesis
    using assms
    by (auto simp: send_part_def other_tasks_def Let_def split: if_splits prod.splits bool.splits dest!: check_hosts_all)
next
  case True
  then show ?thesis
    using assms
    by (auto simp: send_part_def other_tasks_def Let_def part_paid_def split: if_splits prod.splits bool.splits dest!: check_hosts_all)
qed

lemma send_parts_out:
  assumes "send_parts K W job ps (k, w, out) = (ok, k', w', out')"
  shows "\<exists>new rest. out' = out @ new \<and> ps = map sp_part new @ rest \<and> (ok \<longrightarrow> rest = []) \<and> (\<forall>p\<in>set new. part_paid K W job p)"
  using assms
proof (induction ps arbitrary: k w out)
  case Nil
  then show ?case by (intro exI[of _ "[]"]) auto
next
  case (Cons q ps)
  obtain ok1 k1 w1 out1 where s: "send_part K W job q (k, w, out) = (ok1, k1, w1, out1)"
    by (cases "send_part K W job q (k, w, out)")
  show ?case
  proof (cases ok1)
    case False
    then show ?thesis using send_part_out[OF s] Cons.prems s by (intro exI[of _ "[]"] exI[of _ "q # ps"]) auto
  next
    case True
    then obtain p where p: "out1 = out @ [p]" "sp_part p = q" "part_paid K W job p" using send_part_out[OF s] by auto
    have "send_parts K W job ps (k1, w1, out1) = (ok, k', w', out')" using Cons.prems s True by simp
    from Cons.IH[OF this] obtain new rest where "out' = out1 @ new" "ps = map sp_part new @ rest" "ok \<longrightarrow> rest = []"
      "\<forall>p\<in>set new. part_paid K W job p" by blast
    then show ?thesis using p by (intro exI[of _ "p # new"] exI[of _ rest]) auto
  qed
qed

lemma stream_chunks_out:
  assumes "stream_chunks K W job acc cs (k, w, out) = (ok, k', w', out')"
    and "acc \<le> sj_max_file_bytes job" and "sj_max_file_bytes job < U64_MAX"
  shows "\<exists>new rest. out' = out @ new \<and> concat cs = concat (map sp_part new) @ rest
    \<and> (ok \<longrightarrow> rest = [] \<and> dp_complete (sj_response job))
    \<and> acc + length (concat (map sp_part new)) \<le> sj_max_file_bytes job
    \<and> (\<forall>p\<in>set new. part_paid K W job p \<and> 1 \<le> length (sp_part p) \<and> length (sp_part p) \<le> PART_BYTES)"
  using assms
proof (induction cs arbitrary: acc k w out)
  case Nil
  then show ?case by (intro exI[of _ "[]"]) auto
next
  case (Cons c cs)
  define w1 where "w1 = set_tables (download_upstream (we_calendar W (Suc k)) (sj_user job) (sj_domain job) (sj_entry job) (length c)
    (tables_of (we_others W k w))) (we_others W k w)"
  define acc1 where "acc1 = sat_add acc (length c)"
  show ?case
  proof (cases "we_stop W (Suc k) \<or> acc1 > sj_max_file_bytes job")
    case True
    then have "out' = out \<and> \<not> ok" using Cons.prems(1) by (auto simp: other_tasks_def Let_def acc1_def split: if_splits)
    then show ?thesis using Cons.prems(2) by (intro exI[of _ "[]"] exI[of _ "concat (c # cs)"]) auto
  next
    case False
    then have a: "acc1 = acc + length c" "acc1 \<le> sj_max_file_bytes job"
      using Cons.prems(3) by (auto simp: acc1_def sat_add_def split: if_splits)
    obtain ok1 k1 w2 out1 where s: "send_parts K W job (chunks PART_BYTES c) (Suc k, w1, out) = (ok1, k1, w2, out1)"
      by (cases "send_parts K W job (chunks PART_BYTES c) (Suc k, w1, out)")
    from send_parts_out[OF s] obtain new rest where n: "out1 = out @ new" "chunks PART_BYTES c = map sp_part new @ rest"
      "ok1 \<longrightarrow> rest = []" "\<forall>p\<in>set new. part_paid K W job p" by blast
    have split: "concat (chunks PART_BYTES c) = c" "\<forall>p\<in>set (chunks PART_BYTES c). 1 \<le> length p \<and> length p \<le> PART_BYTES"
      using chunks_split[of PART_BYTES c] by (auto simp: PART_BYTES_def)
    have cc: "c = concat (map sp_part new) @ concat rest" using split(1) n(2) by simp
    have sz: "\<forall>p\<in>set new. 1 \<le> length (sp_part p) \<and> length (sp_part p) \<le> PART_BYTES" using split(2) n(2) by auto
    have rec: "(case (ok1, k1, w2, out1) of (False, s1) \<Rightarrow> (False, s1) | (True, s1) \<Rightarrow> stream_chunks K W job acc1 cs s1) = (ok, k', w', out')"
      using Cons.prems(1) False s by (simp add: other_tasks_def Let_def acc1_def[symmetric] w1_def[symmetric])
    show ?thesis
    proof (cases ok1)
      case False
      then show ?thesis using rec n(1,4) cc sz a by (intro exI[of _ new] exI[of _ "concat rest @ concat cs"]) (auto simp: length_concat)
    next
      case True
      then have "stream_chunks K W job acc1 cs (k1, w2, out1) = (ok, k', w', out')" "rest = []" using rec n(3) by auto
      with Cons.IH[OF this(1) a(2) Cons.prems(3)] obtain new1 rest1 where "out' = out1 @ new1"
        "concat cs = concat (map sp_part new1) @ rest1" "ok \<longrightarrow> rest1 = [] \<and> dp_complete (sj_response job)"
        "acc1 + length (concat (map sp_part new1)) \<le> sj_max_file_bytes job"
        "\<forall>p\<in>set new1. part_paid K W job p \<and> 1 \<le> length (sp_part p) \<and> length (sp_part p) \<le> PART_BYTES" by blast
      then show ?thesis using n(1,4) cc sz a \<open>rest = []\<close>
        by (intro exI[of _ "new @ new1"] exI[of _ rest1]) auto
    qed
  qed
qed


text \<open>C12: What a client receives is a prefix of the file, and all of it is checked and paid for.
  Whatever other tasks do to the configuration, the accounts, the tables and the slots between
  any two steps of the worker, and wherever it is cut off: the parts handed over are, in
  order, the beginning of what the upstream sent, and the whole of it if the worker
  succeeds; they never exceed the file limit; each has between one byte and 64 KiB; and
  before each of them downloads were enabled, no host the request went through was blocked,
  the token still authenticated its user, and the charge for exactly this part went
  through.\<close>

theorem download_parts_paid:
  assumes "worker K W uuid job w = (ok, parts, w')" and "sj_max_file_bytes job < U64_MAX"
  shows "(\<exists>rest. concat (dp_chunks (sj_response job)) = concat (map sp_part parts) @ rest
        \<and> (ok \<longrightarrow> rest = [] \<and> dp_complete (sj_response job)))
    \<and> length (concat (map sp_part parts)) \<le> sj_max_file_bytes job
    \<and> (\<forall>p\<in>set parts. 1 \<le> length (sp_part p) \<and> length (sp_part p) \<le> 65536
        \<and> dlc_enabled (cfg_download (sp_config p))
        \<and> list_all2 (\<lambda>h st. \<not> download_blocked h st) (sj_hosts job) (sp_hosts p)
        \<and> (\<exists>k. k < sp_step p \<and> authenticate_download_token K (we_now W k) (sj_token job) (sp_checked p) = Some (sj_user job))
        \<and> fst (charge_download (we_calendar W (sp_step p)) (sj_user job) (sj_domain job) (sj_entry job) (length (sp_part p))
                (sp_config p) (sp_charged p)))"
proof -
  obtain ok1 k1 w1 out where s: "stream_chunks K W job 0 (dp_chunks (sj_response job)) (0, w, []) = (ok1, k1, w1, out)"
    by (cases "stream_chunks K W job 0 (dp_chunks (sj_response job)) (0, w, [])")
  then have "ok1 = ok" "out = parts" using assms(1) by (auto simp: worker_def)
  then show ?thesis using stream_chunks_out[OF s _ assms(2)] by (auto simp: part_paid_def PART_BYTES_def)
qed

text \<open>The sample download, with a worker nobody disturbs.\<close>

definition quiet_env :: worker_env where
  "quiet_env = \<lparr>we_others = (\<lambda>_ w. w), we_stop = (\<lambda>_. False), we_now = (\<lambda>_. 5), we_calendar = (\<lambda>_. sample_calendar)\<rparr>"

definition sample_job :: stream_job where
  "sample_job = \<lparr>sj_user = 7, sj_token = ''mpd_'' @ replicate 48 (CHR ''x''), sj_domain = ''cdn.b.org'', sj_entry = ''a.org'',
     sj_hosts = [''a.org'', ''cdn.b.org''], sj_max_file_bytes = 9, sj_response = sample_response\<rparr>"

theorem download_parts_paid_witness:
  "fst (worker toy_crypto quiet_env ''u'' sample_job sample_world)
   \<and> concat (map sp_part (fst (snd (worker toy_crypto quiet_env ''u'' sample_job sample_world)))) = ''abcdefg''"
proof -
  obtain ok parts w' where r: "worker toy_crypto quiet_env ''u'' sample_job sample_world = (ok, parts, w')"
    by (cases "worker toy_crypto quiet_env ''u'' sample_job sample_world")
  have "fst (worker toy_crypto quiet_env ''u'' sample_job sample_world)" by code_simp
  then have ok: ok by (simp add: r)
  have "sj_max_file_bytes sample_job < U64_MAX" by (simp add: sample_job_def U64_MAX_def)
  from download_parts_paid[OF r this] ok
  have "concat (dp_chunks (sj_response sample_job)) = concat (map sp_part parts)" by auto
  then have "concat (map sp_part parts) = ''abcdefg''" by (simp add: sample_job_def sample_response_def)
  then show ?thesis using ok unfolding r by simp
qed

end
