(* ===== verification/Control_Plane.thy ===== *)
theory Control_Plane
  imports External_Signin Download_Fetch Upstream_Selection
begin

text \<open>
  The administration of a running server: the update of the runtime configuration and of the
  ACME settings (\<open>main.rs\<close>), with what they rebuild, and the handlers that control accelerated
  downloads (\<open>download.rs\<close>).

  Reading certificate bundles, parsing them, and building a WebAuthn relying party and a
  proxy are library calls, parameters of the model.
\<close>

section \<open>The server\<close>

record client_settings =
  cs_timeout_secs :: nat
  cs_roots :: "string list"
  cs_insecure :: bool
  cs_proxy :: "(string \<times> (string \<times> string) option \<times> string option) option"

record build_lib =
  bl_read :: "string \<Rightarrow> string option"
  bl_parse_bundle :: "string \<Rightarrow> string list option"
  bl_proxy_ok :: "string \<Rightarrow> bool"
  bl_client_ok :: "client_settings \<Rightarrow> bool"
  bl_webauthn_new :: "string \<Rightarrow> url \<Rightarrow> bool"
  bl_webauthn_ok :: "string \<Rightarrow> url \<Rightarrow> string \<Rightarrow> bool"

record server =
  sv_config :: config
  sv_settings :: settings_store
  sv_downloads :: download_tables
  sv_runtime :: runtime
  sv_selector :: SelectorState
  sv_client :: client_settings
  sv_webauthn :: "webauthn_config option"

record control_env =
  ce_crypto :: crypto
  ce_vault :: vault
  ce_json :: json_lib
  ce_tz :: "string \<Rightarrow> bool"
  ce_urls :: url_lib
  ce_build :: build_lib
  ce_fetch :: fetch_env

definition sv_store :: "server \<Rightarrow> store" where
  "sv_store sv = ss_store (sv_settings sv)"

definition set_sv_store :: "store \<Rightarrow> server \<Rightarrow> server" where
  "set_sv_store s sv = sv\<lparr>sv_settings := (sv_settings sv)\<lparr>ss_store := s\<rparr>\<rparr>"

definition download_store_of :: "server \<Rightarrow> download_store" where
  "download_store_of sv = \<lparr>base = sv_store sv, dls = sv_downloads sv\<rparr>"

definition set_download_store :: "download_store \<Rightarrow> server \<Rightarrow> server" where
  "set_download_store d sv = (set_sv_store (base d) sv)\<lparr>sv_downloads := dls d\<rparr>"

section \<open>What a configuration builds\<close>

definition root_certificates :: "build_lib \<Rightarrow> string \<Rightarrow> string + string list" where
  "root_certificates B path = (case bl_read B path of
       None \<Rightarrow> Inl (''failed to read upstream TLS CA bundle '' @ path)
     | Some pem \<Rightarrow> (case bl_parse_bundle B pem of
         None \<Rightarrow> Inl (''failed to parse upstream TLS CA bundle '' @ path)
       | Some certs \<Rightarrow> Inr certs))"

definition proxy_settings :: "outbound_proxy_config \<Rightarrow> string \<times> (string \<times> string) option \<times> string option" where
  "proxy_settings o1 =
     (opc_url o1, (case (opc_username o1, opc_password o1) of (Some u, Some p) \<Rightarrow> Some (u, p) | _ \<Rightarrow> None),
      if opc_no_proxy o1 = [] then None else Some (join '','' (opc_no_proxy o1)))"

definition build_streaming_upstream_client_builder :: "build_lib \<Rightarrow> config \<Rightarrow> string + client_settings" where
  "build_streaming_upstream_client_builder B c =
     (case traverse (root_certificates B) (utc_ca_certificates (cfg_upstream_tls c)) of
        Inl e \<Rightarrow> Inl e
      | Inr bundles \<Rightarrow>
          (let o1 = cfg_outbound_proxy c in
           if opc_enabled o1 \<and> \<not> bl_proxy_ok B (opc_url o1) then Inl ''failed to configure global outbound proxy''
           else Inr \<lparr>cs_timeout_secs = tc_request_secs (cfg_timeout c), cs_roots = concat bundles,
                  cs_insecure = utc_insecure_skip_verify (cfg_upstream_tls c),
                  cs_proxy = (if opc_enabled o1 then Some (proxy_settings o1) else None)\<rparr>))"

definition build_upstream_client :: "build_lib \<Rightarrow> config \<Rightarrow> string + client_settings" where
  "build_upstream_client B c = (case build_streaming_upstream_client_builder B c of
       Inl e \<Rightarrow> Inl e
     | Inr s \<Rightarrow> if bl_client_ok B s then Inr s else Inl ''failed to build upstream HTTP client'')"

definition build_webauthn :: "build_lib \<Rightarrow> url_lib \<Rightarrow> config \<Rightarrow> string + webauthn_config option" where
  "build_webauthn B L c =
     (let w = cfg_webauthn c in
      if \<not> wc_enabled w then Inr None
      else (case url_parse L (wc_rp_origin w) of
          None \<Rightarrow> Inl ''failed to parse validated WebAuthn RP origin''
        | Some origin \<Rightarrow>
            if \<not> bl_webauthn_new B (wc_rp_id w) origin then Inl ''invalid WebAuthn RP ID or origin''
            else if bl_webauthn_ok B (wc_rp_id w) origin (wc_rp_name w) then Inr (Some w)
            else Inl ''failed to build WebAuthn relying party''))"

section \<open>Updating the configuration\<close>

definition authenticated_admin :: "crypto \<Rightarrow> int \<Rightarrow> header_map \<Rightarrow> store \<Rightarrow> admin_identity option \<times> store" where
  "authenticated_admin K now headers st = (case admin_token headers of
       None \<Rightarrow> (None, st) | Some token \<Rightarrow> authenticate_session K now token st)"

text \<open>What the submitted configuration becomes before it is validated: secrets the console never
  shows are kept when they come back blank, and the ACME settings are not touched here.\<close>

definition merge_proxy :: "outbound_proxy_config \<Rightarrow> outbound_proxy_config \<Rightarrow> outbound_proxy_config" where
  "merge_proxy current nxt =
     (if (case opc_username nxt of None \<Rightarrow> True | Some u \<Rightarrow> trim u = []) then nxt\<lparr>opc_username := None, opc_password := None\<rparr>
      else if opc_password nxt = None \<and> opc_username nxt = opc_username current then nxt\<lparr>opc_password := opc_password current\<rparr>
      else nxt)"

definition merge_config :: "config \<Rightarrow> config \<Rightarrow> config" where
  "merge_config current nxt =
     (let alerts = cfg_alerts nxt;
          alerts1 = (if trim (alc_webhook_url alerts) = [] \<and> trim (alc_webhook_url (cfg_alerts current)) \<noteq> []
                     then alerts\<lparr>alc_webhook_url := alc_webhook_url (cfg_alerts current)\<rparr> else alerts)
      in nxt\<lparr>cfg_alerts := alerts1, cfg_outbound_proxy := merge_proxy (cfg_outbound_proxy current) (cfg_outbound_proxy nxt),
             cfg_acme := cfg_acme current\<rparr>)"

datatype refusal = Message string | Invalid config_error

datatype config_reply = ConfigRejected nat refusal | ConfigSaved config "string list"

definition smtp_ready :: "vault \<Rightarrow> settings_store \<Rightarrow> config \<Rightarrow> (nat \<times> string) option" where
  "smtp_ready V st c =
     (if alc_enabled (cfg_alerts c) \<and> alc_email_enabled (cfg_alerts c)
      then (case smtp_settings V st of
          Inl _ \<Rightarrow> Some (500, ''internal server error'')
        | Inr (Some s) \<Rightarrow> if sm_enabled s then None else Some (409, ''SMTP must be enabled before email alerts can be enabled'')
        | Inr None \<Rightarrow> Some (409, ''SMTP must be enabled before email alerts can be enabled''))
      else None)"

definition next_webauthn :: "build_lib \<Rightarrow> url_lib \<Rightarrow> store \<Rightarrow> config \<Rightarrow> config \<Rightarrow> (nat \<times> string) + webauthn_config option option" where
  "next_webauthn B L st current c =
     (let admins = admins_without_minimum_passkeys 2 (wc_break_glass_username (cfg_webauthn c)) st in
      if cfg_webauthn c = cfg_webauthn current then Inr None
      else if wc_require_passkey (cfg_webauthn c) \<and> admins \<noteq> []
      then Inl (409, ''cannot require passkeys until every non-break-glass administrator has two passkeys: '' @ join '', '' admins)
      else (case build_webauthn B L c of Inl e \<Rightarrow> Inl (400, e) | Inr w \<Rightarrow> Inr (Some w)))"

definition next_client :: "build_lib \<Rightarrow> config \<Rightarrow> config \<Rightarrow> (nat \<times> string) + client_settings option" where
  "next_client B current c =
     (if tc_request_secs (cfg_timeout c) \<noteq> tc_request_secs (cfg_timeout current) \<or> cfg_outbound_proxy c \<noteq> cfg_outbound_proxy current
         \<or> cfg_upstream_tls c \<noteq> cfg_upstream_tls current
      then (case build_upstream_client B c of Inl e \<Rightarrow> Inl (400, e) | Inr cl \<Rightarrow> Inr (Some cl))
      else Inr None)"

text \<open>The last step: the snapshot is stored, then the configuration is put in force.\<close>

definition apply_config ::
  "control_env \<Rightarrow> int \<Rightarrow> string \<Rightarrow> config \<Rightarrow> webauthn_config option option \<Rightarrow> client_settings option \<Rightarrow> server \<Rightarrow> config_reply \<times> server" where
  "apply_config E now username c webauthn client sv =
     (let current = sv_config sv in
      case save_runtime_config (ce_vault E) (ce_json E) now username c ''update runtime configuration'' (sv_settings sv) of
        (Inl _, st) \<Rightarrow> (ConfigRejected 500 (Message ''internal server error''), sv\<lparr>sv_settings := st\<rparr>)
      | (Inr _, st) \<Rightarrow>
          (ConfigSaved c (if cfg_geoip c \<noteq> cfg_geoip current then [''geoip''] else []),
           sv\<lparr>sv_settings := st, sv_config := c, sv_selector := selector_configure (ce_urls E) c (sv_selector sv),
              sv_runtime := (if cfg_download c \<noteq> cfg_download current then cancel_all (sv_runtime sv) else sv_runtime sv),
              sv_client := unwrap_or (sv_client sv) client, sv_webauthn := unwrap_or (sv_webauthn sv) webauthn\<rparr>))"

definition LISTENERS_FIXED :: string where
  "LISTENERS_FIXED = ''listener addresses and database_path cannot be changed through the runtime API; update the service configuration and restart''"

definition update_admin_config :: "control_env \<Rightarrow> int \<Rightarrow> header_map \<Rightarrow> config \<Rightarrow> server \<Rightarrow> config_reply \<times> server" where
  "update_admin_config E now headers submitted sv0 =
     (case authenticated_admin (ce_crypto E) now headers (sv_store sv0) of
        (None, s) \<Rightarrow> (ConfigRejected 401 (Message ''administrator authentication required''), set_sv_store s sv0)
      | (Some who, s) \<Rightarrow>
          (let sv = set_sv_store s sv0; current = sv_config sv0 in
           if cfg_download submitted \<noteq> cfg_download current \<and> ai_role who \<noteq> ''super_admin''
           then (ConfigRejected 403 (Message ''super administrator access required''), sv)
           else
             (let c1 = merge_config current submitted in
              case smtp_ready (ce_vault E) (sv_settings sv) c1 of
                Some (status, what) \<Rightarrow> (ConfigRejected status (Message what), sv)
              | None \<Rightarrow>
                  (case Config_validate (ce_tz E) (ce_urls E) c1 of
                     Inl e \<Rightarrow> (ConfigRejected 400 (Invalid e), sv)
                   | Inr _ \<Rightarrow>
                       (let c = c1\<lparr>cfg_upstream_auth := cfg_upstream_auth current\<rparr> in
                        if cfg_listen_addr c \<noteq> cfg_listen_addr current \<or> cfg_management c \<noteq> cfg_management current
                           \<or> cfg_database_path c \<noteq> cfg_database_path current
                        then (ConfigRejected 409 (Message LISTENERS_FIXED), sv)
                        else (case next_webauthn (ce_build E) (ce_urls E) s current c of
                            Inl (status, what) \<Rightarrow> (ConfigRejected status (Message what), sv)
                          | Inr webauthn \<Rightarrow> (case next_client (ce_build E) current c of
                              Inl (status, what) \<Rightarrow> (ConfigRejected status (Message what), sv)
                            | Inr client \<Rightarrow> apply_config E now (ai_username who) c webauthn client sv)))))))"

text \<open>What the console is shown: no password and no webhook address.\<close>

definition admin_config_value :: "config \<Rightarrow> config \<times> bool \<times> bool" where
  "admin_config_value c = (config_snapshot (c\<lparr>cfg_outbound_proxy := (cfg_outbound_proxy c)\<lparr>opc_password := None\<rparr>,
       cfg_alerts := (cfg_alerts c)\<lparr>alc_webhook_url := []\<rparr>\<rparr>),
     opc_password (cfg_outbound_proxy c) \<noteq> None, alc_webhook_url (cfg_alerts c) \<noteq> [])"

section \<open>Updating the ACME settings\<close>

definition current_acme :: "control_env \<Rightarrow> server \<Rightarrow> settings_error + acme_config" where
  "current_acme E sv = (case acme_settings (ce_vault E) (ce_json E) (sv_settings sv) of
       Inl e \<Rightarrow> Inl e | Inr (Some a) \<Rightarrow> Inr a | Inr None \<Rightarrow> Inr (cfg_acme (sv_config sv)))"

definition update_admin_acme_config :: "control_env \<Rightarrow> bool \<Rightarrow> int \<Rightarrow> header_map \<Rightarrow> acme_config \<Rightarrow> server \<Rightarrow> nat \<times> server" where
  "update_admin_acme_config E environment_managed now headers submitted sv0 =
     (case require_super_admin (ce_crypto E) now headers (sv_store sv0) of
        (Inl status, s) \<Rightarrow> (status, set_sv_store s sv0)
      | (Inr who, s) \<Rightarrow>
          (let sv = set_sv_store s sv0 in
           if environment_managed then (409, sv)
           else (case current_acme E sv of
               Inl _ \<Rightarrow> (500, sv)
             | Inr current \<Rightarrow>
                 (let a = preserve_blank_secrets_from current (AcmeConfig_normalize submitted) in
                  case AcmeConfig_validate (ce_urls E) a of
                    Inl _ \<Rightarrow> (400, sv)
                  | Inr _ \<Rightarrow> (case save_acme_settings (ce_vault E) (ce_json E) now (ai_username who) a (sv_settings sv) of
                      (Inl _, st) \<Rightarrow> (500, sv\<lparr>sv_settings := st\<rparr>)
                    | (Inr _, st) \<Rightarrow> (200, sv\<lparr>sv_settings := st, sv_config := (sv_config sv)\<lparr>cfg_acme := a\<rparr>\<rparr>))))))"

section \<open>Controlling downloads\<close>

definition with_super_admin :: "control_env \<Rightarrow> int \<Rightarrow> header_map \<Rightarrow> (admin_identity \<Rightarrow> server \<Rightarrow> nat \<times> server) \<Rightarrow> server \<Rightarrow> nat \<times> server" where
  "with_super_admin E now headers f sv = (case require_super_admin (ce_crypto E) now headers (sv_store sv) of
       (Inl status, s) \<Rightarrow> (status, set_sv_store s sv)
     | (Inr who, s) \<Rightarrow> f who (set_sv_store s sv))"

definition with_user :: "control_env \<Rightarrow> int \<Rightarrow> header_map \<Rightarrow> (int \<Rightarrow> server \<Rightarrow> nat \<times> server) \<Rightarrow> server \<Rightarrow> nat \<times> server" where
  "with_user E now headers f sv = (case user_token headers of
       None \<Rightarrow> (401, sv)
     | Some token \<Rightarrow> (case authenticate_user_session (ce_crypto E) now token (sv_store sv) of
         (None, s) \<Rightarrow> (401, set_sv_store s sv)
       | (Some who, s) \<Rightarrow> f (un_user_id who) (set_sv_store s sv)))"

definition create_token :: "control_env \<Rightarrow> int \<Rightarrow> string \<Rightarrow> string \<Rightarrow> header_map \<Rightarrow> string \<Rightarrow> nat \<Rightarrow> server \<Rightarrow> nat \<times> server" where
  "create_token E now secret uuid headers name days = with_user E now headers (\<lambda>user sv.
     if trim name = [] \<or> length name > 80 \<or> any_control name \<or> \<not> (1 \<le> days \<and> days \<le> 365) then (400, sv)
     else (case create_download_token (ce_crypto E) now secret uuid user (trim name) days (download_store_of sv) of
         (Inr (Some _), d) \<Rightarrow> (201, set_download_store d sv)
       | (Inr None, d) \<Rightarrow> (403, set_download_store d sv)
       | (Inl _, d) \<Rightarrow> (409, set_download_store d sv)))"

definition revoke_token :: "control_env \<Rightarrow> int \<Rightarrow> header_map \<Rightarrow> string \<Rightarrow> server \<Rightarrow> nat \<times> server" where
  "revoke_token E now headers tid = with_user E now headers (\<lambda>user sv.
     (204, (set_download_store (revoke_download_token now user tid (download_store_of sv)) sv)\<lparr>sv_runtime := cancel_user user (sv_runtime sv)\<rparr>))"

definition update_download_config :: "control_env \<Rightarrow> int \<Rightarrow> header_map \<Rightarrow> download_config \<Rightarrow> server \<Rightarrow> nat \<times> server" where
  "update_download_config E now headers d = with_super_admin E now headers (\<lambda>_ sv.
     case DownloadConfig_validate d of
       Inl _ \<Rightarrow> (400, sv)
     | Inr _ \<Rightarrow> (case update_admin_config E now headers ((sv_config sv)\<lparr>cfg_download := d\<rparr>) sv of
         (ConfigSaved _ _, sv1) \<Rightarrow> (200, sv1\<lparr>sv_runtime := cancel_all (sv_runtime sv1)\<rparr>)
       | (ConfigRejected status _, sv1) \<Rightarrow> (status, sv1)))"

definition permission :: "control_env \<Rightarrow> int \<Rightarrow> header_map \<Rightarrow> string \<Rightarrow> int \<Rightarrow> string \<Rightarrow> server \<Rightarrow> nat \<times> server" where
  "permission E now headers subject_kind subject policy = with_super_admin E now headers (\<lambda>who sv.
     if subject_kind \<notin> set [''user'', ''group''] \<or> policy \<notin> set [''allow'', ''deny'', ''inherit''] \<or> subject \<le> 0 then (400, sv)
     else (case set_download_permission now (ai_username who) subject_kind subject policy (download_store_of sv) of
         (Inr True, d) \<Rightarrow> (204, (set_download_store d sv)\<lparr>sv_runtime := cancel_all (sv_runtime sv)\<rparr>)
       | (Inr False, d) \<Rightarrow> (404, set_download_store d sv)
       | (Inl _, d) \<Rightarrow> (500, set_download_store d sv)))"

definition block :: "control_env \<Rightarrow> int \<Rightarrow> header_map \<Rightarrow> string \<Rightarrow> bool \<Rightarrow> string \<Rightarrow> bool \<Rightarrow> server \<Rightarrow> nat \<times> server" where
  "block E now headers input subdomains reason blocked = with_super_admin E now headers (\<lambda>who sv.
     case domain_input (ce_fetch E) input of
       None \<Rightarrow> (400, sv)
     | Some domain \<Rightarrow>
         if length reason > 256 \<or> any_control reason then (400, sv)
         else (204, (set_download_store (set_download_block now (ai_username who) domain subdomains reason blocked (download_store_of sv)) sv)
                \<lparr>sv_runtime := (if blocked then cancel_domain domain subdomains (sv_runtime sv) else sv_runtime sv)\<rparr>))"

definition terminate :: "control_env \<Rightarrow> int \<Rightarrow> header_map \<Rightarrow> string \<Rightarrow> server \<Rightarrow> nat \<times> server" where
  "terminate E now headers uuid = with_super_admin E now headers (\<lambda>who sv.
     (204, (set_sv_store (log_audit now (ai_username who) ''download_terminated'' uuid (sv_store sv)) sv)
        \<lparr>sv_runtime := cancel_one uuid (sv_runtime sv)\<rparr>))"

section \<open>The configuration in force\<close>

text \<open>A credential entry is judged by its name and itself, whatever the upstreams are.\<close>

lemma upstream_url_names: "(upstream_url u n = None) = (upstream_url u' n = None)"
  by (simp add: upstream_url_def map_of_eq_None_iff)

lemma upstream_auth_valid_cong:
  "cfg_upstream_auth c = cfg_upstream_auth c' \<Longrightarrow> upstream_auth_valid c = upstream_auth_valid c'"
  unfolding upstream_auth_valid_def using upstream_url_names[of "cfg_upstreams c" _ "cfg_upstreams c'"] by simp

lemma validate_listeners_frame [simp]:
  "validate_listeners (c\<lparr>cfg_upstream_auth := x\<rparr>) = validate_listeners c"
  "validate_listeners (c\<lparr>cfg_acme := a\<rparr>) = validate_listeners c"
  by (simp_all add: validate_listeners_def cong: option.case_cong if_cong)

lemma validate_sections_frame [simp]:
  "validate_upstreams L (c\<lparr>cfg_upstream_auth := x\<rparr>) = validate_upstreams L c"
  "validate_upstreams L (c\<lparr>cfg_acme := a\<rparr>) = validate_upstreams L c"
  "validate_limits tz L (c\<lparr>cfg_upstream_auth := x\<rparr>) = validate_limits tz L c"
  by (simp_all add: validate_upstreams_def validate_limits_def Let_def)

lemma validate_limits_acme:
  "validate_limits tz L c = Inr () \<Longrightarrow> AcmeConfig_validate L a = Inr () \<Longrightarrow> validate_limits tz L (c\<lparr>cfg_acme := a\<rparr>) = Inr ()"
  by (simp add: validate_limits_def Let_def)

lemma validate_with_auth:
  assumes "Config_validate tz L c = Inr ()" and "Config_validate tz L current = Inr ()"
  shows "Config_validate tz L (c\<lparr>cfg_upstream_auth := cfg_upstream_auth current\<rparr>) = Inr ()"
  using assms upstream_auth_valid_cong[of "c\<lparr>cfg_upstream_auth := cfg_upstream_auth current\<rparr>" current]
  by (auto simp: Config_validate_def)

lemma validate_with_acme:
  assumes "Config_validate tz L c = Inr ()" and "AcmeConfig_validate L a = Inr ()"
  shows "Config_validate tz L (c\<lparr>cfg_acme := a\<rparr>) = Inr ()"
  using assms upstream_auth_valid_cong[of "c\<lparr>cfg_acme := a\<rparr>" c] validate_limits_acme[of tz L c a]
  by (auto simp: Config_validate_def)

text \<open>The configuration in force is valid, and what was built from one was built from it.\<close>

definition server_ok :: "control_env \<Rightarrow> server \<Rightarrow> bool" where
  "server_ok E sv \<longleftrightarrow> Config_validate (ce_tz E) (ce_urls E) (sv_config sv) = Inr ()
     \<and> build_upstream_client (ce_build E) (sv_config sv) = Inr (sv_client sv)
     \<and> build_webauthn (ce_build E) (ce_urls E) (sv_config sv) = Inr (sv_webauthn sv)"

lemma build_client_cong:
  assumes "cfg_timeout c = cfg_timeout c'" "cfg_outbound_proxy c = cfg_outbound_proxy c'" "cfg_upstream_tls c = cfg_upstream_tls c'"
  shows "build_upstream_client B c = build_upstream_client B c'"
  by (simp only: build_upstream_client_def build_streaming_upstream_client_builder_def assms)

lemma timeout_eq: "tc_request_secs t = tc_request_secs t' \<Longrightarrow> t = (t' :: timeout_config)"
  by (cases t; cases t') simp

lemma next_client_builds:
  assumes "next_client B current c = Inr client" and "build_upstream_client B current = Inr cl"
  shows "build_upstream_client B c = Inr (unwrap_or cl client)"
  using assms build_client_cong[of c current B] timeout_eq
  by (auto simp: next_client_def split: if_splits sum.splits)

lemma build_webauthn_cong: "cfg_webauthn c = cfg_webauthn c' \<Longrightarrow> build_webauthn B L c = build_webauthn B L c'"
  by (simp only: build_webauthn_def)

lemma next_webauthn_builds:
  assumes "next_webauthn B L s current c = Inr w" and "build_webauthn B L current = Inr w0"
  shows "build_webauthn B L c = Inr (unwrap_or w0 w)"
  using assms build_webauthn_cong[of c current B L] by (auto simp: next_webauthn_def Let_def split: if_splits sum.splits)

text \<open>What an accepted update has passed.\<close>

lemma update_accepted:
  assumes "update_admin_config E now headers submitted sv = (ConfigSaved c restart, sv')"
  obtains who s webauthn client st where
    "authenticated_admin (ce_crypto E) now headers (sv_store sv) = (Some who, s)"
    "cfg_download submitted = cfg_download (sv_config sv) \<or> ai_role who = ''super_admin''"
    "c = (merge_config (sv_config sv) submitted)\<lparr>cfg_upstream_auth := cfg_upstream_auth (sv_config sv)\<rparr>"
    "smtp_ready (ce_vault E) ((sv_settings sv)\<lparr>ss_store := s\<rparr>) (merge_config (sv_config sv) submitted) = None"
    "Config_validate (ce_tz E) (ce_urls E) (merge_config (sv_config sv) submitted) = Inr ()"
    "cfg_listen_addr c = cfg_listen_addr (sv_config sv)" "cfg_management c = cfg_management (sv_config sv)"
    "cfg_database_path c = cfg_database_path (sv_config sv)"
    "next_webauthn (ce_build E) (ce_urls E) s (sv_config sv) c = Inr webauthn" "next_client (ce_build E) (sv_config sv) c = Inr client"
    "save_runtime_config (ce_vault E) (ce_json E) now (ai_username who) c ''update runtime configuration'' ((sv_settings sv)\<lparr>ss_store := s\<rparr>) = (Inr (), st)"
    "sv' = sv\<lparr>sv_settings := st, sv_config := c, sv_selector := selector_configure (ce_urls E) c (sv_selector sv),
        sv_runtime := (if cfg_download c \<noteq> cfg_download (sv_config sv) then cancel_all (sv_runtime sv) else sv_runtime sv),
        sv_client := unwrap_or (sv_client sv) client, sv_webauthn := unwrap_or (sv_webauthn sv) webauthn\<rparr>"
proof -
  obtain who s where a: "authenticated_admin (ce_crypto E) now headers (sv_store sv) = (Some who, s)"
    using assms by (auto simp: update_admin_config_def split: prod.splits option.splits)
  let ?c1 = "merge_config (sv_config sv) submitted"
  let ?c = "?c1\<lparr>cfg_upstream_auth := cfg_upstream_auth (sv_config sv)\<rparr>"
  note u = assms[unfolded update_admin_config_def a prod.case option.case Let_def]
  have b: "cfg_download submitted = cfg_download (sv_config sv) \<or> ai_role who = ''super_admin''"
    "smtp_ready (ce_vault E) (sv_settings (set_sv_store s sv)) ?c1 = None"
    using u by (auto split: if_splits option.splits)
  have v: "Config_validate (ce_tz E) (ce_urls E) ?c1 = Inr ()"
    using u b by (auto split: if_splits sum.splits)
  have l: "cfg_listen_addr ?c = cfg_listen_addr (sv_config sv)" "cfg_management ?c = cfg_management (sv_config sv)"
    "cfg_database_path ?c = cfg_database_path (sv_config sv)"
    using u b v by (auto split: if_splits)
  obtain webauthn client where w: "next_webauthn (ce_build E) (ce_urls E) s (sv_config sv) ?c = Inr webauthn"
    "next_client (ce_build E) (sv_config sv) ?c = Inr client"
    "apply_config E now (ai_username who) ?c webauthn client (set_sv_store s sv) = (ConfigSaved c restart, sv')"
    using u b v l by (auto split: sum.splits)
  obtain st where st: "save_runtime_config (ce_vault E) (ce_json E) now (ai_username who) ?c ''update runtime configuration'' (sv_settings (set_sv_store s sv)) = (Inr (), st)"
    "c = ?c" "sv' = (set_sv_store s sv)\<lparr>sv_settings := st, sv_config := ?c, sv_selector := selector_configure (ce_urls E) ?c (sv_selector sv),
        sv_runtime := (if cfg_download ?c \<noteq> cfg_download (sv_config sv) then cancel_all (sv_runtime sv) else sv_runtime sv),
        sv_client := unwrap_or (sv_client sv) client, sv_webauthn := unwrap_or (sv_webauthn sv) webauthn\<rparr>"
    using w(3) by (auto simp: apply_config_def Let_def set_sv_store_def split: prod.splits sum.splits)
  show thesis
    using that[OF a b(1) st(2) b(2)[unfolded set_sv_store_def, simplified] v] l w st by (simp add: set_sv_store_def)
qed


lemma update_keeps_ok:
  assumes ok: "server_ok E sv" and u: "update_admin_config E now headers submitted sv = (ConfigSaved c restart, sv')"
  shows "server_ok E sv'"
  using u
proof (cases rule: update_accepted)
  case (1 who s webauthn client st)
  have "Config_validate (ce_tz E) (ce_urls E) c = Inr ()"
    unfolding 1(3) using 1(5) ok by (intro validate_with_auth) (auto simp: server_ok_def)
  moreover have "build_upstream_client (ce_build E) c = Inr (unwrap_or (sv_client sv) client)"
    using next_client_builds[OF 1(10)] ok by (simp add: server_ok_def)
  moreover have "build_webauthn (ce_build E) (ce_urls E) c = Inr (unwrap_or (sv_webauthn sv) webauthn)"
    using next_webauthn_builds[OF 1(9)] ok by (simp add: server_ok_def)
  ultimately show ?thesis by (simp add: server_ok_def 1(12))
qed

text \<open>A refused update changes nothing but the session table.\<close>

definition same_but_store :: "server \<Rightarrow> server \<Rightarrow> bool" where
  "same_but_store sv sv' \<longleftrightarrow> (\<exists>s. sv' = set_sv_store s sv \<and> settings (adm s) = settings (adm (sv_store sv)))"

lemma authenticated_settings: "authenticated_admin K now headers st = (r, s) \<Longrightarrow> settings (adm s) = settings (adm st)"
  by (auto simp: authenticated_admin_def authenticate_session_def set_sessions_def Let_def split: option.splits)

lemma same_but_store_ok: "same_but_store sv sv' \<Longrightarrow> server_ok E sv \<Longrightarrow> server_ok E sv'"
  by (auto simp: same_but_store_def set_sv_store_def server_ok_def)

lemma set_sv_store_twice [simp]: "set_sv_store a (set_sv_store b sv) = set_sv_store a sv"
  by (simp add: set_sv_store_def)

lemma save_refused: "save_runtime_config V J now user c action st = (Inl e, st') \<Longrightarrow> st' = st"
  by (auto simp: save_runtime_config_def split: sum.splits)

lemma update_refused:
  assumes "update_admin_config E now headers submitted sv = (ConfigRejected status what, sv')"
  shows "same_but_store sv sv'"
proof -
  obtain a s where as: "authenticated_admin (ce_crypto E) now headers (sv_store sv) = (a, s)"
    by (cases "authenticated_admin (ce_crypto E) now headers (sv_store sv)")
  have "sv' = set_sv_store s sv"
    using assms unfolding update_admin_config_def as Let_def
    by (auto split: option.splits if_splits sum.splits prod.splits simp: apply_config_def Let_def dest: save_refused)
  then show ?thesis using authenticated_settings[OF as] by (auto simp: same_but_store_def)
qed

text \<open>C10: The runtime configuration changes only as intended.  When an update is accepted, an
  administrator was signed in, a super administrator if the download settings change; the
  new configuration is valid; the listeners, the database, the certificates and the private
  upstream credentials are those in force before, a blank password or webhook address
  leaves the old one in place; the snapshot on disk reads back as this configuration; and
  downloads are cancelled if their settings changed.  When it is refused, the configuration
  in force and on disk, the clients and the downloads are what they were.\<close>

theorem config_update_guarded:
  assumes "vault_ok (ce_vault E)" and "server_ok E sv"
    and "update_admin_config E now headers submitted sv = (reply, sv')"
    and "\<forall>c restart. reply = ConfigSaved c restart \<longrightarrow> json_config_ok (ce_json E) c"
  shows "case reply of
      ConfigRejected status what \<Rightarrow> sv_config sv' = sv_config sv \<and> sv_client sv' = sv_client sv \<and> sv_webauthn sv' = sv_webauthn sv
        \<and> sv_runtime sv' = sv_runtime sv \<and> sv_selector sv' = sv_selector sv \<and> sv_downloads sv' = sv_downloads sv
        \<and> settings (adm (sv_store sv')) = settings (adm (sv_store sv))
    | ConfigSaved c restart \<Rightarrow>
        (\<exists>who s. authenticated_admin (ce_crypto E) now headers (sv_store sv) = (Some who, s)
           \<and> (cfg_download c = cfg_download (sv_config sv) \<or> ai_role who = ''super_admin''))
        \<and> sv_config sv' = c \<and> Config_validate (ce_tz E) (ce_urls E) c = Inr ()
        \<and> build_upstream_client (ce_build E) c = Inr (sv_client sv')
        \<and> cfg_listen_addr c = cfg_listen_addr (sv_config sv) \<and> cfg_management c = cfg_management (sv_config sv)
        \<and> cfg_database_path c = cfg_database_path (sv_config sv) \<and> cfg_acme c = cfg_acme (sv_config sv)
        \<and> cfg_upstream_auth c = cfg_upstream_auth (sv_config sv)
        \<and> (opc_username (cfg_outbound_proxy c) = opc_username (cfg_outbound_proxy (sv_config sv)) \<and> opc_password (cfg_outbound_proxy submitted) = None
             \<and> opc_username (cfg_outbound_proxy c) \<noteq> None \<longrightarrow> opc_password (cfg_outbound_proxy c) = opc_password (cfg_outbound_proxy (sv_config sv)))
        \<and> (trim (alc_webhook_url (cfg_alerts submitted)) = [] \<and> trim (alc_webhook_url (cfg_alerts (sv_config sv))) \<noteq> []
             \<longrightarrow> alc_webhook_url (cfg_alerts c) = alc_webhook_url (cfg_alerts (sv_config sv)))
        \<and> (\<exists>row text. settings (adm (sv_store sv')) ''runtime_config'' = Some row
             \<and> vopen (ce_vault E) RUNTIME_CONTEXT (st_value row) = Inr text \<and> config_from_json (ce_json E) text = Some (config_snapshot c))
        \<and> (cfg_download c \<noteq> cfg_download (sv_config sv) \<longrightarrow> list_all (\<lambda>(_, a). ac_cancelled a) (sv_runtime sv'))"
proof (cases reply)
  case (ConfigRejected status what)
  show ?thesis using update_refused[OF assms(3)[unfolded ConfigRejected]]
    by (auto simp: ConfigRejected same_but_store_def set_sv_store_def sv_store_def)
next
  case (ConfigSaved c restart)
  have u: "update_admin_config E now headers submitted sv = (ConfigSaved c restart, sv')" using assms(3) ConfigSaved by simp
  have ok: "server_ok E sv'" by (rule update_keeps_ok[OF assms(2) u])
  from u show ?thesis
  proof (cases rule: update_accepted)
    case (1 who s webauthn client st)
    have m: "cfg_acme c = cfg_acme (sv_config sv)" "cfg_upstream_auth c = cfg_upstream_auth (sv_config sv)" "cfg_download c = cfg_download submitted"
      "cfg_outbound_proxy c = merge_proxy (cfg_outbound_proxy (sv_config sv)) (cfg_outbound_proxy submitted)"
      "trim (alc_webhook_url (cfg_alerts submitted)) = [] \<and> trim (alc_webhook_url (cfg_alerts (sv_config sv))) \<noteq> []
             \<longrightarrow> alc_webhook_url (cfg_alerts c) = alc_webhook_url (cfg_alerts (sv_config sv))"
      by (simp_all add: 1(3) merge_config_def Let_def)
    have p: "opc_username (cfg_outbound_proxy c) = opc_username (cfg_outbound_proxy (sv_config sv)) \<and> opc_password (cfg_outbound_proxy submitted) = None
             \<and> opc_username (cfg_outbound_proxy c) \<noteq> None \<longrightarrow> opc_password (cfg_outbound_proxy c) = opc_password (cfg_outbound_proxy (sv_config sv))"
      by (auto simp: m(4) merge_proxy_def)
    have d: "cfg_download c \<noteq> cfg_download (sv_config sv) \<longrightarrow> list_all (\<lambda>(_, a). ac_cancelled a) (sv_runtime sv')"
      by (auto simp: 1(12) cancel_all_def slot_update_def list_all_iff)
    have sn: "\<exists>row text. settings (adm (sv_store sv')) ''runtime_config'' = Some row
        \<and> vopen (ce_vault E) RUNTIME_CONTEXT (st_value row) = Inr text \<and> config_from_json (ce_json E) text = Some (config_snapshot c)"
      using runtime_config_stored[OF assms(1) _ 1(11)] assms(4) ConfigSaved by (auto simp: sv_store_def 1(12) json_config_ok_def)
    have c: "sv_config sv' = c" by (simp add: 1(12))
    show ?thesis
      using 1(1,2,6,7,8) m(1,2,3,5) p d sn ok unfolding ConfigSaved config_reply.case server_ok_def c by metis
  qed
qed

section \<open>Histories\<close>

datatype server_op =
    UpdateConfig header_map config
  | UpdateAcme bool header_map acme_config
  | UpdateDownloads header_map download_config
  | SetPermission header_map string int string
  | SetBlock header_map string bool string bool
  | Terminate header_map string
  | NewToken string string header_map string nat
  | RevokeToken header_map string

fun server_step :: "control_env \<Rightarrow> int \<Rightarrow> server_op \<Rightarrow> server \<Rightarrow> server" where
  "server_step E now (UpdateConfig headers c) sv = snd (update_admin_config E now headers c sv)"
| "server_step E now (UpdateAcme managed headers a) sv = snd (update_admin_acme_config E managed now headers a sv)"
| "server_step E now (UpdateDownloads headers d) sv = snd (update_download_config E now headers d sv)"
| "server_step E now (SetPermission headers k subject policy) sv = snd (permission E now headers k subject policy sv)"
| "server_step E now (SetBlock headers input subs reason blocked) sv = snd (block E now headers input subs reason blocked sv)"
| "server_step E now (Terminate headers uuid) sv = snd (terminate E now headers uuid sv)"
| "server_step E now (NewToken secret uuid headers name days) sv = snd (create_token E now secret uuid headers name days sv)"
| "server_step E now (RevokeToken headers tid) sv = snd (revoke_token E now headers tid sv)"

lemma server_ok_frame [simp]:
  "server_ok E (set_sv_store s sv) = server_ok E sv"
  "server_ok E (sv\<lparr>sv_settings := st\<rparr>) = server_ok E sv"
  "server_ok E (sv\<lparr>sv_runtime := rt\<rparr>) = server_ok E sv"
  "server_ok E (set_download_store d sv) = server_ok E sv"
  by (simp_all add: server_ok_def set_sv_store_def set_download_store_def)

lemma update_config_ok: "server_ok E sv \<Longrightarrow> server_ok E (snd (update_admin_config E now headers c sv))"
  using update_keeps_ok[of E sv now headers c] same_but_store_ok[OF update_refused, of E now headers c sv _ _ _ E]
  by (cases "update_admin_config E now headers c sv"; cases "fst (update_admin_config E now headers c sv)") auto

lemma update_acme_ok:
  assumes "server_ok E sv"
  shows "server_ok E (snd (update_admin_acme_config E managed now headers a sv))"
proof -
  have "server_ok E ((set_sv_store s sv)\<lparr>sv_settings := st, sv_config := (sv_config (set_sv_store s sv))\<lparr>cfg_acme := b\<rparr>\<rparr>)"
    if "AcmeConfig_validate (ce_urls E) b = Inr ()" for s st b
    using assms validate_with_acme[OF _ that] build_client_cong[of "(sv_config sv)\<lparr>cfg_acme := b\<rparr>" "sv_config sv"]
      build_webauthn_cong[of "(sv_config sv)\<lparr>cfg_acme := b\<rparr>" "sv_config sv"]
    by (simp add: server_ok_def set_sv_store_def)
  then show ?thesis
    using assms by (auto simp: update_admin_acme_config_def Let_def split: prod.splits sum.splits)
qed

lemma with_super_admin_ok:
  assumes "server_ok E sv" and "\<And>who s. server_ok E s \<Longrightarrow> server_ok E (snd (f who s))"
  shows "server_ok E (snd (with_super_admin E now headers f sv))"
  using assms by (auto simp: with_super_admin_def split: prod.splits sum.splits)

lemma with_user_ok:
  assumes "server_ok E sv" and "\<And>u s. server_ok E s \<Longrightarrow> server_ok E (snd (f u s))"
  shows "server_ok E (snd (with_user E now headers f sv))"
  using assms by (auto simp: with_user_def split: prod.splits option.splits)

lemma update_downloads_ok:
  assumes "server_ok E sv"
  shows "server_ok E (snd (update_download_config E now headers d sv))"
  unfolding update_download_config_def
proof (rule with_super_admin_ok[OF assms])
  fix who s assume "server_ok E s"
  then have "server_ok E (snd (update_admin_config E now headers ((sv_config s)\<lparr>cfg_download := d\<rparr>) s))" by (rule update_config_ok)
  then show "server_ok E (snd (case DownloadConfig_validate d of Inl _ \<Rightarrow> (400, s)
     | Inr _ \<Rightarrow> (case update_admin_config E now headers ((sv_config s)\<lparr>cfg_download := d\<rparr>) s of
         (ConfigSaved _ _, sv1) \<Rightarrow> (200, sv1\<lparr>sv_runtime := cancel_all (sv_runtime sv1)\<rparr>)
       | (ConfigRejected status _, sv1) \<Rightarrow> (status, sv1))))"
    using \<open>server_ok E s\<close> by (auto split: sum.splits prod.splits config_reply.splits)
qed

lemma server_step_ok:
  assumes "server_ok E sv"
  shows "server_ok E (server_step E now op sv)"
proof (cases op)
  case (SetPermission h k subject policy)
  show ?thesis unfolding SetPermission server_step.simps permission_def
    by (rule with_super_admin_ok[OF assms]) (auto split: prod.splits sum.splits bool.splits)
next
  case (SetBlock h input subs reason blocked)
  show ?thesis unfolding SetBlock server_step.simps block_def
    by (rule with_super_admin_ok[OF assms]) (auto split: option.splits)
next
  case (Terminate h uuid)
  show ?thesis unfolding Terminate server_step.simps terminate_def by (rule with_super_admin_ok[OF assms]) auto
next
  case (NewToken secret uuid h name days)
  show ?thesis unfolding NewToken server_step.simps create_token_def
    by (rule with_user_ok[OF assms]) (auto split: prod.splits sum.splits option.splits)
next
  case (RevokeToken h tid)
  show ?thesis unfolding RevokeToken server_step.simps revoke_token_def by (rule with_user_ok[OF assms]) auto
qed (simp_all add: update_config_ok update_acme_ok update_downloads_ok assms)


definition sample_control :: control_env where
  "sample_control = \<lparr>ce_crypto = toy_crypto, ce_vault = clear_vault, ce_json = fixed_json Config_default, ce_tz = (\<lambda>_. False),
     ce_urls = plain_url_lib, ce_build = \<lparr>bl_read = (\<lambda>_. None), bl_parse_bundle = (\<lambda>_. None), bl_proxy_ok = (\<lambda>_. True),
       bl_client_ok = (\<lambda>_. True), bl_webauthn_new = (\<lambda>_ _. True), bl_webauthn_ok = (\<lambda>_ _ _. True)\<rparr>, ce_fetch = sample_fetch\<rparr>"

definition admin_headers :: header_map where
  "admin_headers = [(''authorization'', ''Bearer t'')]"

definition signed_in_store :: store where
  "signed_in_store = empty_store\<lparr>adm := (adm empty_store)\<lparr>
     admin_users := [\<lparr>ad_id = 1, ad_username = ''root'', ad_password_hash = [], ad_role = ''super_admin'', ad_disabled = False,
       failed_login_count = 0, locked_until = None, user_handle = ''h'', ad_updated_at = 0\<rparr>],
     admin_sessions := [\<lparr>as_token_hash = hash_token toy_crypto ''t'', as_username = ''root'', as_auth_method = ''password'',
       as_created_at = 0, as_expires_at = 100, as_last_used_at = 0\<rparr>]\<rparr>\<rparr>"

definition sample_server :: server where
  "sample_server = \<lparr>sv_config = Config_default, sv_settings = empty_settings\<lparr>ss_store := signed_in_store\<rparr>, sv_downloads = empty_downloads,
     sv_runtime = [(''u'', \<lparr>ac_user = 7, ac_hosts = [''a.org'', ''cdn.b.org''], ac_cancelled = False\<rparr>)], sv_selector = SelectorState_default,
     sv_client = \<lparr>cs_timeout_secs = tc_request_secs (cfg_timeout Config_default), cs_roots = [], cs_insecure = False, cs_proxy = None\<rparr>,
     sv_webauthn = None\<rparr>"

lemma sample_server_ok: "server_ok sample_control sample_server"
proof -
  have "Config_validate (\<lambda>_. False) plain_url_lib Config_default = Inr ()"
    by (simp add: Config_validate_def default_fields default_validate)
  then show ?thesis
    by (simp add: server_ok_def sample_control_def sample_server_def default_fields build_upstream_client_def build_streaming_upstream_client_builder_def build_webauthn_def
        UpstreamTlsConfig_default_def OutboundProxyConfig_default_def WebauthnConfig_default_def Let_def)
qed

lemma sample_admin:
  "fst (authenticated_admin toy_crypto 5 admin_headers signed_in_store) = Some \<lparr>ai_username = ''root'', ai_role = ''super_admin''\<rparr>"
  by code_simp

lemma merge_default: "merge_config Config_default Config_default = Config_default"
  by (simp add: merge_config_def merge_proxy_def default_fields OutboundProxyConfig_default_def AlertConfig_default_def Let_def)

lemma sample_update:
  "\<exists>sv'. update_admin_config sample_control 5 admin_headers Config_default sample_server = (ConfigSaved Config_default [], sv')"
proof -
  obtain s where s: "authenticated_admin toy_crypto 5 admin_headers signed_in_store = (Some \<lparr>ai_username = ''root'', ai_role = ''super_admin''\<rparr>, s)"
    using sample_admin by (cases "authenticated_admin toy_crypto 5 admin_headers signed_in_store") auto
  have v: "Config_validate (\<lambda>_. False) plain_url_lib Config_default = Inr ()"
    using sample_server_ok by (simp add: server_ok_def sample_control_def sample_server_def)
  obtain sealed where k: "vseal clear_vault RUNTIME_CONTEXT 5 ''{}'' = Inr sealed"
    by (simp add: vseal_def clear_vault_def seal_def clear_lib_def starts_with_def ENC_PREFIX_def)
  have a: "smtp_ready V st Config_default = None" for V st
    by (simp add: smtp_ready_def default_fields AlertConfig_default_def)
  show ?thesis
    by (simp add: update_admin_config_def sample_control_def sample_server_def sv_store_def s merge_default v a next_webauthn_def
        next_client_def apply_config_def save_runtime_config_def fixed_json_def k Let_def set_sv_store_def)
qed

theorem config_update_guarded_witness:
  "\<exists>sv'. update_admin_config sample_control 5 admin_headers Config_default sample_server = (ConfigSaved Config_default [], sv')
     \<and> sv_config sv' = Config_default \<and> build_upstream_client (ce_build sample_control) Config_default = Inr (sv_client sv')"
proof -
  obtain sv' where u: "update_admin_config sample_control 5 admin_headers Config_default sample_server = (ConfigSaved Config_default [], sv')"
    using sample_update by blast
  have "vault_ok (ce_vault sample_control)" by (simp add: sample_control_def clear_vault_ok)
  moreover have "\<forall>c restart. ConfigSaved Config_default [] = ConfigSaved c restart \<longrightarrow> json_config_ok (ce_json sample_control) c"
    by (simp add: sample_control_def fixed_json_ok)
  ultimately show ?thesis using config_update_guarded[OF _ sample_server_ok u] u by simp
qed


section \<open>Revocation\<close>

lemma with_super_adminE:
  assumes "with_super_admin E now headers f sv = (204, sv')" and "\<And>k s. require_super_admin (ce_crypto E) now headers (sv_store sv) = (Inl k, s) \<Longrightarrow> k \<noteq> 204"
  obtains who s where "require_super_admin (ce_crypto E) now headers (sv_store sv) = (Inr who, s)" "f who (set_sv_store s sv) = (204, sv')"
  using assms by (auto simp: with_super_admin_def split: prod.splits sum.splits)

lemma refusal_codes: "require_super_admin K now headers st = (Inl k, s) \<Longrightarrow> k \<noteq> 204"
  by (auto simp: require_super_admin_def split: prod.splits option.splits if_splits)

lemma download_store_frame [simp]:
  "download_store_of (set_download_store d sv) = d" "download_store_of (sv\<lparr>sv_runtime := rt\<rparr>) = download_store_of sv"
  "sv_runtime (set_sv_store s sv) = sv_runtime sv"
  by (simp_all add: download_store_of_def set_download_store_def set_sv_store_def sv_store_def)

lemma cancelled_by: "list_all (\<lambda>(k, a). p k a \<longrightarrow> ac_cancelled a) (slot_update p (\<lambda>a. a\<lparr>ac_cancelled := True\<rparr>) rt)"
  if "\<And>k a. p k (a\<lparr>ac_cancelled := True\<rparr>) = p k a"
  by (auto simp: slot_update_def list_all_iff)

lemma block_effect:
  assumes "block E now headers input subdomains reason True sv = (204, sv1)"
  shows "\<exists>domain actor d. domain_input (ce_fetch E) input = Some domain
    \<and> download_store_of sv1 = set_download_block now actor domain subdomains reason True d
    \<and> sv_runtime sv1 = cancel_domain domain subdomains (sv_runtime sv)"
  using assms unfolding block_def
  by (elim with_super_adminE) (auto dest: refusal_codes split: option.splits if_splits intro!: exI[of _ "download_store_of _"])

lemma blocks_host:
  assumes "host = domain \<or> (subdomains \<and> ends_with host (''.'' @ domain))"
  shows "download_blocked host (set_download_block now actor domain subdomains reason True d)"
  using assms by (auto simp: download_blocked_def set_download_block_def audit_base_def set_dls_def list_ex_iff)

lemma cancels_host:
  assumes "host = domain \<or> (subdomains \<and> ends_with host (''.'' @ domain))"
  shows "list_all (\<lambda>(_, a). host \<in> set (ac_hosts a) \<longrightarrow> ac_cancelled a) (cancel_domain domain subdomains rt)"
proof -
  have "list_ex (\<lambda>h. h = domain \<or> (subdomains \<and> ends_with h (''.'' @ domain))) hosts" if "host \<in> set hosts" for hosts
    using that assms by (auto simp: list_ex_iff)
  then show ?thesis unfolding cancel_domain_def slot_update_def list_all_iff by fastforce
qed

text \<open>C23: Withdrawing access stops what is running.  When the console confirms that a domain
  is blocked, that domain, and its subdomains if they were included, is refused from then
  on, and every running download that has visited such a host is told to stop; when it
  confirms that a user is denied, the user may no longer download and every running download
  is told to stop; when a user revokes a token, no such token of that user remains and
  every running download of the user is told to stop.\<close>

theorem download_revocation_immediate:
  "(block E now headers input subdomains reason True sv = (204, sv1) \<longrightarrow>
      (\<exists>domain. domain_input (ce_fetch E) input = Some domain
         \<and> (\<forall>host. host = domain \<or> (subdomains \<and> ends_with host (''.'' @ domain)) \<longrightarrow>
              download_blocked host (download_store_of sv1)
              \<and> list_all (\<lambda>(_, a). host \<in> set (ac_hosts a) \<longrightarrow> ac_cancelled a) (sv_runtime sv1))))
   \<and> (permission E now headers ''user'' user ''deny'' sv = (204, sv2) \<longrightarrow>
        \<not> download_allowed user (download_store_of sv2) \<and> list_all (\<lambda>(_, a). ac_cancelled a) (sv_runtime sv2))
   \<and> (revoke_token E now headers tid sv = (204, sv3) \<longrightarrow>
      (\<exists>token who s. user_token headers = Some token \<and> authenticate_user_session (ce_crypto E) now token (sv_store sv) = (Some who, s)
         \<and> list_all (\<lambda>r. \<not> (dt_user_id r = un_user_id who \<and> dt_id r = tid)) (download_token_rows (sv_downloads sv3))
         \<and> list_all (\<lambda>(_, a). ac_user a = un_user_id who \<longrightarrow> ac_cancelled a) (sv_runtime sv3)))"
proof (intro conjI impI)
  assume "block E now headers input subdomains reason True sv = (204, sv1)"
  from block_effect[OF this] obtain domain actor d where d: "domain_input (ce_fetch E) input = Some domain"
    and sv1: "download_store_of sv1 = set_download_block now actor domain subdomains reason True d"
      "sv_runtime sv1 = cancel_domain domain subdomains (sv_runtime sv)" by blast
  have "download_blocked host (download_store_of sv1) \<and> list_all (\<lambda>(_, a). host \<in> set (ac_hosts a) \<longrightarrow> ac_cancelled a) (sv_runtime sv1)"
    if "host = domain \<or> (subdomains \<and> ends_with host (''.'' @ domain))" for host
    using that blocks_host[OF that] cancels_host[OF that] by (simp add: sv1)
  then show "\<exists>domain. domain_input (ce_fetch E) input = Some domain \<and> (\<forall>host. host = domain \<or> (subdomains \<and> ends_with host (''.'' @ domain)) \<longrightarrow>
      download_blocked host (download_store_of sv1) \<and> list_all (\<lambda>(_, a). host \<in> set (ac_hosts a) \<longrightarrow> ac_cancelled a) (sv_runtime sv1))"
    using d by blast
next
  assume "permission E now headers ''user'' user ''deny'' sv = (204, sv2)"
  then show "\<not> download_allowed user (download_store_of sv2)" "list_all (\<lambda>(_, a). ac_cancelled a) (sv_runtime sv2)"
    unfolding permission_def
    by (elim with_super_adminE; auto dest: refusal_codes split: if_splits prod.splits sum.splits bool.splits
        simp: set_download_permission_def Let_def download_allowed_def audit_base_def set_dls_def cancel_all_def slot_update_def list_all_iff)+
next
  assume "revoke_token E now headers tid sv = (204, sv3)"
  then show "\<exists>token who s. user_token headers = Some token \<and> authenticate_user_session (ce_crypto E) now token (sv_store sv) = (Some who, s)
         \<and> list_all (\<lambda>r. \<not> (dt_user_id r = un_user_id who \<and> dt_id r = tid)) (download_token_rows (sv_downloads sv3))
         \<and> list_all (\<lambda>(_, a). ac_user a = un_user_id who \<longrightarrow> ac_cancelled a) (sv_runtime sv3)"
    by (auto simp: revoke_token_def with_user_def revoke_download_token_def set_download_store_def audit_base_def set_dls_def delete_where_def
        cancel_user_def slot_update_def list_all_iff split: option.splits prod.splits)
qed

theorem download_revocation_immediate_witness:
  "\<exists>sv'. block sample_control 5 admin_headers ''b.org'' True ''abuse'' True sample_server = (204, sv')
     \<and> download_blocked ''cdn.b.org'' (download_store_of sv')"
proof -
  obtain who s where a: "require_super_admin toy_crypto 5 admin_headers signed_in_store = (Inr who, s)"
    using sample_admin by (auto simp: authenticated_admin_def require_super_admin_def split_beta prod_eq_iff split: option.splits)
  have d: "domain_input sample_fetch ''b.org'' = Some ''b.org''" "ends_with ''cdn.b.org'' (''.'' @ ''b.org'')" "\<not> any_control ''abuse''"
    by code_simp+
  obtain sv' where b: "block sample_control 5 admin_headers ''b.org'' True ''abuse'' True sample_server = (204, sv')"
    by (simp add: block_def with_super_admin_def sample_control_def sample_server_def sv_store_def a d)
  have "download_blocked ''cdn.b.org'' (download_store_of sv')"
    using conjunct1[OF download_revocation_immediate] b d(1,2) by (fastforce simp: sample_control_def)
  then show ?thesis using b by blast
qed

end
