(* ===== verification/Source_Health.thy ===== *)
theory Source_Health
  imports Forwarding Settings_Db
begin

text \<open>
  The health checks of the upstream sources (\<open>source_health.rs\<close> and the two tables of
  \<open>database.rs\<close>) and the alerts raised from them and from the monthly traffic
  (\<open>alerts.rs\<close>, \<open>enqueue_operational_alert\<close> of \<open>email.rs\<close>).

  A round of checks probes every endpoint with the egress code of \<open>proxy/mod.rs\<close>
  (theory Egress); what the network does, the clock and the order in which concurrent
  probes finish are arguments.
\<close>

section \<open>Probes\<close>

record probe_spec =
  pb_target :: string
  pb_adapter :: string
  pb_head :: bool
  pb_path :: string

definition probe_get :: "string \<Rightarrow> string \<Rightarrow> string \<Rightarrow> probe_spec" where
  "probe_get target adapter path = \<lparr>pb_target = target, pb_adapter = adapter, pb_head = False, pb_path = path\<rparr>"

definition probe_head :: "string \<Rightarrow> string \<Rightarrow> string \<Rightarrow> probe_spec" where
  "probe_head target adapter path = \<lparr>pb_target = target, pb_adapter = adapter, pb_head = True, pb_path = path\<rparr>"

definition PROBES :: "probe_spec list" where
  "PROBES =
     [probe_get ''julia'' ''julia'' ''/julia/registries'',
      probe_get ''poetry'' ''pypi'' ''/pypi/simple/idna/'',
      probe_get ''uv'' ''pypi'' ''/pypi/simple/idna/'',
      probe_get ''pdm'' ''pypi'' ''/pypi/simple/idna/'',
      probe_get ''bun'' ''npm'' ''/npm/is-number'',
      probe_get ''nvm'' ''nvm'' ''/nvm/index.json'',
      probe_get ''ocaml'' ''opam'' ''/opam/repo'',
      probe_get ''lua'' ''luarocks'' ''/luarocks/manifest'',
      probe_get ''rustup'' ''rustup'' ''/rustup/dist/channel-rust-stable.toml'',
      probe_get ''cocoapods'' ''cocoapods'' ''/cocoapods/all_pods_versions_2_0_0.txt'',
      probe_get ''apt'' ''os'' ''/os/debian/dists/stable/Release'',
      probe_get ''dnf'' ''os'' ''/os/fedora/releases/44/Everything/x86_64/os/repodata/repomd.xml'',
      probe_head ''pacman'' ''os'' ''/os/archlinux/core/os/x86_64/core.db'',
      probe_get ''kali'' ''os'' ''/os/kali/dists/kali-rolling/Release'',
      probe_get ''rocky'' ''os'' ''/os/rocky/9/BaseOS/x86_64/os/repodata/repomd.xml'',
      probe_get ''alma'' ''os'' ''/os/alma/9/BaseOS/x86_64/os/repodata/repomd.xml'',
      probe_head ''manjaro'' ''os'' ''/os/manjaro/stable/core/x86_64/core.db'',
      probe_head ''msys2'' ''os'' ''/os/msys2/mingw/x86_64/mingw64.db'',
      probe_get ''raspios'' ''os'' ''/os/raspios/dists/bookworm/Release'',
      probe_get ''armbian'' ''os'' ''/os/armbian/dists/bookworm/Release'',
      probe_get ''openeuler'' ''os'' ''/os/openeuler/openEuler-24.03-LTS/OS/x86_64/repodata/repomd.xml'',
      probe_get ''anolis'' ''os'' ''/os/anolis/8/BaseOS/x86_64/os/repodata/repomd.xml'',
      probe_get ''deepin'' ''os'' ''/os/deepin/dists/beige/InRelease'',
      probe_get ''linuxmint'' ''os'' ''/os/linuxmint/dists/faye/Release'',
      probe_head ''solus'' ''os'' ''/os/solus/polaris/eopkg-index.xml.xz'',
      probe_get ''trisquel'' ''os'' ''/os/trisquel/dists/aramo/Release'',
      probe_get ''linuxlite'' ''os'' ''/os/linuxlite/dists/emerald/Release'',
      probe_head ''ros'' ''os'' ''/os/ros/dists'',
      probe_get ''netbsd'' ''os'' ''/os/netbsd/pub/NetBSD/README'',
      probe_head ''openbsd'' ''os'' ''/os/openbsd/pub/OpenBSD'',
      probe_get ''alpine'' ''os'' ''/os/alpine/MIRRORS.txt'',
      probe_head ''openwrt'' ''os'' ''/os/openwrt/releases'',
      probe_head ''xbps'' ''os'' ''/os/void/current/x86_64-repodata'',
      probe_head ''zypper'' ''os'' ''/os/opensuse/distribution'',
      probe_head ''gentoo'' ''os'' ''/os/gentoo/releases'',
      probe_get ''freebsd'' ''os'' ''/os/freebsd/FreeBSD:14:amd64/quarterly/meta.conf'',
      probe_get ''termux'' ''os'' ''/os/termux/dists/stable/InRelease'',
      probe_head ''flatpak'' ''flatpak'' ''/flatpak/summary'',
      probe_get ''nix'' ''nix'' ''/nix/nix-cache-info'',
      probe_get ''guix'' ''guix'' ''/guix/nix-cache-info'',
      probe_get ''huggingface'' ''huggingface'' ''/huggingface/gpt2/resolve/main/config.json'',
      probe_get ''elpa'' ''elpa'' ''/elpa/archive-contents'',
      probe_head ''texlive'' ''texlive'' ''/texlive/tlpkg/texlive.tlpdb'',
      probe_head ''winget'' ''winget'' ''/winget/cache/source.msix'',
      probe_get ''anaconda'' ''anaconda'' ''/anaconda/main/noarch/repodata.json'',
      probe_get ''npm'' ''npm'' ''/npm/is-number'',
      probe_get ''pip'' ''pypi'' ''/pypi/simple/idna/'',
      probe_get ''cargo'' ''crates'' ''/crates-index/by/te/bytes'',
      probe_get ''go'' ''go'' ''/goproxy/github.com/gorilla/mux/@v/v1.8.1.info'',
      probe_get ''composer'' ''composer'' ''/composer/packages.json'',
      probe_get ''maven'' ''maven'' ''/maven/org/apache/commons/commons-lang3/3.14.0/commons-lang3-3.14.0.pom'',
      probe_get ''rubygems'' ''rubygems'' ''/rubygems/specs.4.8.gz'',
      probe_get ''nuget'' ''nuget'' ''/nuget/v3/index.json'',
      probe_get ''cpan'' ''cpan'' ''/cpan/modules/02packages.details.txt.gz'',
      probe_get ''cran'' ''cran'' ''/cran/src/contrib/PACKAGES.gz'',
      probe_head ''hackage'' ''hackage'' ''/hackage/packages/index.tar.gz'',
      probe_get ''clojars'' ''clojars'' ''/clojars/ring/ring-core/1.12.2/ring-core-1.12.2.pom'',
      probe_get ''pub'' ''pub'' ''/pub/api/packages/http'',
      probe_get ''docker'' ''oci'' ''/v2/'',
      probe_get ''homebrew'' ''homebrew'' ''/homebrew/curl/tags/list'',
      probe_get ''github'' ''github'' ''/https://raw.githubusercontent.com/octocat/Hello-World/master/README'']"

definition ADAPTER_UPSTREAMS :: "(string \<times> (upstreams \<Rightarrow> string)) list" where
  "ADAPTER_UPSTREAMS =
     [(''julia'', up_julia), (''pypi'', up_pypi_simple), (''npm'', up_npm), (''nvm'', up_nvm), (''opam'', up_opam),
      (''luarocks'', up_luarocks), (''rustup'', up_rustup), (''cocoapods'', up_cocoapods), (''flatpak'', up_flatpak),
      (''nix'', up_nix), (''guix'', up_guix), (''huggingface'', up_huggingface), (''elpa'', up_elpa),
      (''texlive'', up_texlive), (''winget'', up_winget), (''anaconda'', up_anaconda), (''crates'', up_crates_index),
      (''go'', up_go_proxy), (''composer'', up_packagist), (''maven'', up_maven), (''rubygems'', up_rubygems),
      (''nuget'', up_nuget), (''cpan'', up_cpan), (''cran'', up_cran), (''hackage'', up_hackage),
      (''clojars'', up_clojars), (''pub'', up_pub_repository), (''oci'', up_docker_hub), (''homebrew'', up_homebrew),
      (''github'', up_github_raw)]"

definition OS_UPSTREAMS :: "(string \<times> (upstreams \<Rightarrow> string)) list" where
  "OS_UPSTREAMS =
     [(''alpine'', up_alpine), (''openwrt'', up_openwrt), (''termux'', up_termux), (''debian'', up_debian),
      (''ubuntu'', up_ubuntu), (''fedora'', up_fedora), (''archlinux'', up_archlinux), (''opensuse'', up_opensuse),
      (''void'', up_void), (''gentoo'', up_gentoo), (''freebsd'', up_freebsd)]"

definition os_upstream :: "upstreams \<Rightarrow> string \<Rightarrow> string option" where
  "os_upstream u path = Option.bind (strip_prefix ''/os/'' path) (\<lambda>rest.
     let target = hd (split_on (CHR ''/'') rest) in
     case map_of OS_UPSTREAMS target of
       Some f \<Rightarrow> Some (f u)
     | None \<Rightarrow> map_of (up_additional_os u) target)"

definition configured_upstream :: "upstreams \<Rightarrow> probe_spec \<Rightarrow> string option" where
  "configured_upstream u probe =
     (if pb_adapter probe = ''os'' then os_upstream u (pb_path probe)
      else map_option (\<lambda>f. f u) (map_of ADAPTER_UPSTREAMS (pb_adapter probe)))"

definition custom_upstreams :: "upstreams \<Rightarrow> (string \<times> string) list" where
  "custom_upstreams u = filter (\<lambda>(target, _). \<not> list_ex (\<lambda>p. pb_target p = target) PROBES) (up_additional_os u)"

definition direct_path :: "probe_spec \<Rightarrow> string" where
  "direct_path probe =
     (let path = pb_path probe;
          after_first = (\<lambda>s. case split_once (CHR ''/'') s of Some (_, p) \<Rightarrow> p | None \<Rightarrow> [])
      in if pb_adapter probe = ''os'' then after_first (unwrap_or path (strip_prefix ''/os/'' path))
         else (case map_of [(''pypi'', ''/pypi/simple/''), (''crates'', ''/crates-index/''), (''go'', ''/goproxy/''), (''oci'', ''/''),
                    (''github'', ''/https://raw.githubusercontent.com/'')] (pb_adapter probe) of
             Some p \<Rightarrow> unwrap_or path (strip_prefix p path)
           | None \<Rightarrow> after_first (trim_start_matches (CHR ''/'') path)))"

section \<open>One endpoint\<close>

record endpoint_health =
  eh_position :: nat
  eh_endpoint :: string
  eh_status :: string
  eh_http_status :: "nat option"
  eh_latency_ms :: "nat option"
  eh_checked_at :: int
  eh_error :: "string option"

record source_record =
  sr_target_code :: string
  sr_adapter :: string
  sr_status :: string
  sr_http_status :: "nat option"
  sr_latency_ms :: "nat option"
  sr_checked_at :: int
  sr_error :: "string option"
  sr_endpoints :: "endpoint_health list"

text \<open>What a round of checks meets: the URL library with the setters used here, the text of
  errors, the network and the time each probe takes (by target and position), and the order
  in which concurrent checks are collected.\<close>

record health_env =
  he_urls :: url_lib
  he_set_fragment :: "url \<Rightarrow> string option \<Rightarrow> url"
  he_set_userinfo :: "url \<Rightarrow> string \<Rightarrow> string option \<Rightarrow> url"
  he_parse_error :: "string \<Rightarrow> string"
  he_error_text :: "ProxyError \<Rightarrow> string"
  he_egress :: "string \<Rightarrow> nat \<Rightarrow> egress"
  he_elapsed_ms :: "string \<Rightarrow> nat \<Rightarrow> nat"
  he_order_endpoints :: "endpoint_health list \<Rightarrow> endpoint_health list"
  he_order_records :: "source_record list \<Rightarrow> source_record list"

definition endpoint_url :: "health_env \<Rightarrow> string \<Rightarrow> string \<Rightarrow> string + url" where
  "endpoint_url E configured suffix = (case url_parse (he_urls E) configured of
       None \<Rightarrow> Inl (he_parse_error E configured)
     | Some url \<Rightarrow>
         (let base_path = trim_end_matches (CHR ''/'') (u_path url);
              u1 = url_set_path (he_urls E) url (base_path @ ''/'' @ trim_start_matches (CHR ''/'') suffix)
          in Inr (he_set_fragment E (url_set_query (he_urls E) u1 None) None)))"

definition redacted_endpoint :: "health_env \<Rightarrow> url \<Rightarrow> string" where
  "redacted_endpoint E url = trim_end_matches (CHR ''/'')
     (u_str (he_set_fragment E (url_set_query (he_urls E) (he_set_userinfo E url [] None) None) None))"

text \<open>The first characters of a text in UTF-8, and an ellipsis if there are more.\<close>

fun utf8_take :: "nat \<Rightarrow> string \<Rightarrow> string" where
  "utf8_take n [] = []"
| "utf8_take n (c # cs) =
     (let b = (of_char c :: nat) in
      if 128 \<le> b \<and> b < 192 then c # utf8_take n cs
      else (case n of 0 \<Rightarrow> [] | Suc m \<Rightarrow> c # utf8_take m cs))"

definition utf8_count :: "string \<Rightarrow> nat" where
  "utf8_count s = length (filter (\<lambda>c. let b = (of_char c :: nat) in \<not> (128 \<le> b \<and> b < 192)) s)"

definition short_error :: "string \<Rightarrow> string" where
  "short_error v = (if utf8_count v > 240 then utf8_take 240 v @ [CHR 0xE2, CHR 0x80, CHR 0xA6] else v)"

definition endpoint_response_is_healthy :: "probe_spec \<Rightarrow> upstream_response \<Rightarrow> bool" where
  "endpoint_response_is_healthy probe r \<longleftrightarrow> ur_status r = 200
     \<or> (pb_adapter probe \<in> set [''oci'', ''homebrew''] \<and> ur_status r = 401 \<and> hdr_contains (ur_headers r) ''www-authenticate'')"

text \<open>\<open>probe_endpoint\<close> of \<open>proxy/huggingface.rs\<close>: a client of its own that follows no redirect.\<close>

definition huggingface_probe_endpoint :: "egress \<Rightarrow> url \<Rightarrow> ProxyError + upstream_response" where
  "huggingface_probe_endpoint N url =
     (if \<not> eg_client_ok N then Inl InvalidUrl
      else (case eg_exec N [] Shared \<lparr>rq_method = GET, rq_url = url, rq_headers = [(''accept-encoding'', ''identity'')], rq_body = NoBody\<rparr> of
          None \<Rightarrow> Inl Upstream | Some r \<Rightarrow> Inr r))"

text \<open>The record of one endpoint.  A request that could not be sent has no status.\<close>

definition endpoint_record ::
  "health_env \<Rightarrow> string \<Rightarrow> nat \<Rightarrow> string \<Rightarrow> int \<Rightarrow> (upstream_response \<Rightarrow> bool) \<Rightarrow> string + (ProxyError + upstream_response) \<Rightarrow> endpoint_health" where
  "endpoint_record E target position configured checked_at healthy result =
     (let endpoint = (case url_parse (he_urls E) configured of Some u \<Rightarrow> redacted_endpoint E u | None \<Rightarrow> configured);
          mk = (\<lambda>ok status err. \<lparr>eh_position = position, eh_endpoint = endpoint, eh_status = (if ok then ''healthy'' else ''unhealthy''),
            eh_http_status = status, eh_latency_ms = Some (he_elapsed_ms E target position), eh_checked_at = checked_at, eh_error = err\<rparr>)
      in case result of
           Inl e \<Rightarrow> mk False None (Some (short_error e))
         | Inr (Inl e) \<Rightarrow> mk False None (Some (short_error (he_error_text E e)))
         | Inr (Inr r) \<Rightarrow> mk (healthy r) (Some (ur_status r)) (if healthy r then None else Some (''HTTP '' @ dec_of_nat (ur_status r))))"

text \<open>\<open>None\<close> is the panic of an unvalidated credential entry.\<close>

definition check_endpoint ::
  "health_env \<Rightarrow> config \<Rightarrow> probe_spec \<Rightarrow> nat \<Rightarrow> string \<Rightarrow> string \<Rightarrow> int \<Rightarrow> endpoint_health option" where
  "check_endpoint E c probe position configured suffix checked_at =
     (let N = he_egress E (pb_target probe) position;
          finish = (\<lambda>r. endpoint_record E (pb_target probe) position configured checked_at (endpoint_response_is_healthy probe) r)
      in case endpoint_url E configured suffix of
           Inl e \<Rightarrow> Some (finish (Inl e))
         | Inr url \<Rightarrow>
             if pb_adapter probe = ''huggingface'' then Some (finish (Inr (huggingface_probe_endpoint N url)))
             else map_option (\<lambda>(r, _). finish (Inr r))
                    (probe_endpoint N (he_urls E) c (if pb_head probe then HEAD else GET) url []))"

definition check_custom_endpoint ::
  "health_env \<Rightarrow> config \<Rightarrow> string \<Rightarrow> nat \<Rightarrow> string \<Rightarrow> int \<Rightarrow> endpoint_health option" where
  "check_custom_endpoint E c target position configured checked_at =
     (let N = he_egress E target position;
          finish = (\<lambda>r. endpoint_record E target position configured checked_at (\<lambda>a. 200 \<le> ur_status a \<and> ur_status a < 400) r)
      in case endpoint_url E configured [] of
           Inl e \<Rightarrow> Some (finish (Inl e))
         | Inr url \<Rightarrow> map_option (\<lambda>(r, _). finish (Inr r)) (probe_endpoint N (he_urls E) c GET url []))"

section \<open>One source\<close>

definition configured_endpoints :: "string \<Rightarrow> (nat \<times> string) list" where
  "configured_endpoints configured = List.enumerate 0 (filter (\<lambda>e. e \<noteq> []) (map trim (split_on (CHR '','') configured)))"

definition summarize_endpoints :: "string \<Rightarrow> string \<Rightarrow> endpoint_health list \<Rightarrow> int \<Rightarrow> source_record" where
  "summarize_endpoints target adapter endpoints checked_at =
     (if endpoints = []
      then \<lparr>sr_target_code = target, sr_adapter = adapter, sr_status = ''unhealthy'', sr_http_status = None, sr_latency_ms = None,
            sr_checked_at = checked_at, sr_error = Some ''no upstream configured'', sr_endpoints = []\<rparr>
      else
        (let es = sort_key eh_position endpoints;
             n = length es;
             available = length (filter (\<lambda>e. eh_status e = ''healthy'') es);
             status = (if available = n then ''healthy'' else if available > 0 then ''degraded'' else ''unhealthy'');
             err = (if status = ''degraded'' then Some (dec_of_nat (n - available) @ '' of '' @ dec_of_nat n @ '' upstreams unavailable'')
                    else if status = ''unhealthy'' then Some (''all '' @ dec_of_nat n @ '' upstreams unavailable'') else None);
             latencies = filter_map eh_latency_ms es
         in \<lparr>sr_target_code = target, sr_adapter = adapter, sr_status = status,
             sr_http_status = (if n = 1 then eh_http_status (hd es) else None),
             sr_latency_ms = (if latencies = [] then None else Some (fold max latencies 0)),
             sr_checked_at = checked_at, sr_error = err, sr_endpoints = es\<rparr>))"

definition failed_record :: "probe_spec \<Rightarrow> int \<Rightarrow> string \<Rightarrow> source_record" where
  "failed_record probe checked_at err = \<lparr>sr_target_code = pb_target probe, sr_adapter = pb_adapter probe, sr_status = ''unhealthy'',
     sr_http_status = None, sr_latency_ms = None, sr_checked_at = checked_at, sr_error = Some err, sr_endpoints = []\<rparr>"

definition disabled_record :: "string \<Rightarrow> string \<Rightarrow> int \<Rightarrow> source_record" where
  "disabled_record target adapter checked_at = \<lparr>sr_target_code = target, sr_adapter = adapter, sr_status = ''disabled'',
     sr_http_status = None, sr_latency_ms = None, sr_checked_at = checked_at, sr_error = None, sr_endpoints = []\<rparr>"

definition check_probe :: "health_env \<Rightarrow> config \<Rightarrow> probe_spec \<Rightarrow> int \<Rightarrow> source_record option" where
  "check_probe E c probe checked_at = (case configured_upstream (cfg_upstreams c) probe of
       None \<Rightarrow> Some (failed_record probe checked_at ''no upstream configured'')
     | Some configured \<Rightarrow>
         map_option (\<lambda>es. summarize_endpoints (pb_target probe) (pb_adapter probe) (he_order_endpoints E es) checked_at)
           (those (map (\<lambda>(position, endpoint). check_endpoint E c probe position endpoint (direct_path probe) checked_at)
              (configured_endpoints configured))))"

definition check_custom_upstream :: "health_env \<Rightarrow> config \<Rightarrow> string \<Rightarrow> string \<Rightarrow> int \<Rightarrow> source_record option" where
  "check_custom_upstream E c target configured checked_at =
     map_option (\<lambda>es. summarize_endpoints target ''os'' (he_order_endpoints E es) checked_at)
       (those (map (\<lambda>(position, endpoint). check_custom_endpoint E c target position endpoint checked_at)
          (configured_endpoints configured)))"

section \<open>The tables\<close>

text \<open>A row of \<open>source_health\<close> is a record without its endpoints; \<open>source_endpoint_health\<close> is
  keyed by target and position.  Latencies are stored as signed integers.\<close>

record health_tables =
  ht_sources :: "(string \<times> source_record) list"
  ht_endpoints :: "(string \<times> endpoint_health) list"

definition clamp_ms :: "nat option \<Rightarrow> nat option" where
  "clamp_ms = map_option (\<lambda>v. min v (nat I64_MAX))"

definition put_source :: "source_record \<Rightarrow> (string \<times> source_record) list \<Rightarrow> (string \<times> source_record) list" where
  "put_source r rows =
     (let row = r\<lparr>sr_latency_ms := clamp_ms (sr_latency_ms r), sr_endpoints := []\<rparr> in
      if list_ex (\<lambda>(k, _). k = sr_target_code r) rows
      then map (\<lambda>(k, old). (k, if k = sr_target_code r then row else old)) rows
      else rows @ [(sr_target_code r, row)])"

definition put_endpoint ::
  "string \<Rightarrow> (string \<times> endpoint_health) list \<Rightarrow> endpoint_health \<Rightarrow> (string \<times> endpoint_health) list option" where
  "put_endpoint target rows e =
     (if list_ex (\<lambda>(k, r). k = target \<and> eh_position r = eh_position e) rows then None
      else Some (rows @ [(target, e\<lparr>eh_latency_ms := clamp_ms (eh_latency_ms e)\<rparr>)]))"

fun put_endpoints :: "string \<Rightarrow> endpoint_health list \<Rightarrow> (string \<times> endpoint_health) list \<Rightarrow> (string \<times> endpoint_health) list option" where
  "put_endpoints target [] rows = Some rows"
| "put_endpoints target (e # es) rows = Option.bind (put_endpoint target rows e) (put_endpoints target es)"

fun put_records :: "source_record list \<Rightarrow> health_tables \<Rightarrow> health_tables option" where
  "put_records [] t = Some t"
| "put_records (r # rs) t =
     Option.bind (put_endpoints (sr_target_code r) (sr_endpoints r) (ht_endpoints t)) (\<lambda>es.
       put_records rs \<lparr>ht_sources = put_source r (ht_sources t), ht_endpoints = es\<rparr>)"

text \<open>One transaction: a violated key leaves the tables as they were.\<close>

definition replace_source_health :: "source_record list \<Rightarrow> health_tables \<Rightarrow> bool \<times> health_tables" where
  "replace_source_health records t = (case put_records records \<lparr>ht_sources = [], ht_endpoints = []\<rparr> of
       None \<Rightarrow> (False, t) | Some t' \<Rightarrow> (True, t'))"

definition source_health :: "health_tables \<Rightarrow> source_record list" where
  "source_health t =
     map (\<lambda>(target, r). r\<lparr>sr_endpoints := sort_key eh_position (map snd (filter (\<lambda>(k, _). k = target) (ht_endpoints t)))\<rparr>)
       (sort_key fst (ht_sources t))"

section \<open>Rounds of checks\<close>

record health_report =
  rp_running :: bool
  rp_total :: nat
  rp_healthy :: nat
  rp_degraded :: nat
  rp_unhealthy :: nat
  rp_disabled :: nat
  rp_unknown :: nat
  rp_last_checked_at :: "int option"
  rp_items :: "source_record list"

record health_state =
  hs_running :: bool
  hs_tables :: health_tables

definition status_count :: "string \<Rightarrow> source_record list \<Rightarrow> nat" where
  "status_count s items = length (filter (\<lambda>i. sr_status i = s) items)"

definition without_errors :: "source_record \<Rightarrow> source_record" where
  "without_errors r = r\<lparr>sr_error := None, sr_endpoints := map (\<lambda>e. e\<lparr>eh_error := None\<rparr>) (sr_endpoints r)\<rparr>"

definition report :: "config \<Rightarrow> bool \<Rightarrow> health_state \<Rightarrow> health_report" where
  "report c include_errors st =
     (let custom_targets = map fst (custom_upstreams (cfg_upstreams c));
          total_count = length PROBES + length (remdups custom_targets);
          known_items = filter (\<lambda>i. list_ex (\<lambda>p. pb_target p = sr_target_code i) PROBES \<or> sr_target_code i \<in> set custom_targets)
            (source_health (hs_tables st));
          items = (if include_errors then known_items else map without_errors known_items)
      in \<lparr>rp_running = hs_running st, rp_total = total_count,
          rp_healthy = status_count ''healthy'' items, rp_degraded = status_count ''degraded'' items,
          rp_unhealthy = status_count ''unhealthy'' items, rp_disabled = status_count ''disabled'' items,
          rp_unknown = total_count - min (length items) total_count,
          rp_last_checked_at = (if items = [] then None else Some (Max (set (map sr_checked_at items)))),
          rp_items = items\<rparr>)"

definition probe_record :: "health_env \<Rightarrow> config \<Rightarrow> int \<Rightarrow> probe_spec \<Rightarrow> source_record option" where
  "probe_record E c checked_at probe =
     (if is_enabled c (pb_adapter probe) then check_probe E c probe checked_at
      else Some (disabled_record (pb_target probe) (pb_adapter probe) checked_at))"

definition custom_record :: "health_env \<Rightarrow> config \<Rightarrow> int \<Rightarrow> string \<times> string \<Rightarrow> source_record option" where
  "custom_record E c checked_at = (\<lambda>(target, configured).
     if is_enabled c ''os'' then check_custom_upstream E c target configured checked_at
     else Some (disabled_record target ''os'' checked_at))"

datatype health_error = AlreadyRunning | TablesRejected | ProbePanic

definition run_checks :: "health_env \<Rightarrow> config \<Rightarrow> int \<Rightarrow> health_state \<Rightarrow> (health_error + health_report) \<times> health_state" where
  "run_checks E c checked_at st =
     (if hs_running st then (Inl AlreadyRunning, st)
      else (case (those (map (probe_record E c checked_at) PROBES),
                  those (map (custom_record E c checked_at) (custom_upstreams (cfg_upstreams c)))) of
          (Some probed, Some custom) \<Rightarrow>
            (case replace_source_health (he_order_records E probed @ he_order_records E custom) (hs_tables st) of
               (False, t) \<Rightarrow> (Inl TablesRejected, st\<lparr>hs_tables := t\<rparr>)
             | (True, t) \<Rightarrow> (Inr (report c True \<lparr>hs_running = True, hs_tables = t\<rparr>), st\<lparr>hs_tables := t\<rparr>))
        | _ \<Rightarrow> (Inl ProbePanic, st)))"

section \<open>A round stores what it found\<close>

lemma those_map_Some:
  "those (map f xs) = Some ys \<longleftrightarrow> list_all2 (\<lambda>x y. f x = Some y) xs ys"
  by (induction xs arbitrary: ys) (auto simp: list_all2_Cons1 split: option.splits)

lemma those_map_total: "list_all (\<lambda>x. f x \<noteq> None) xs \<Longrightarrow> \<exists>ys. those (map f xs) = Some ys"
  by (induction xs) auto

lemma distinct_keys_mset: "mset xs = mset ys \<Longrightarrow> distinct (map f xs) = distinct (map f ys)"
  by (metis mset_map mset_eq_imp_distinct_iff)

lemma set_of_mset: "mset xs = mset ys \<Longrightarrow> set xs = set ys"
  by (metis set_mset_mset)

lemma sort_key_unique:
  assumes "mset ys = mset xs" "sorted (map f xs)" "distinct (map f xs)"
  shows "sort_key f ys = xs"
proof -
  have s: "set ys = set xs" using assms(1) by (metis set_mset_mset)
  have "distinct (map f ys)" using assms by (metis mset_map mset_eq_imp_distinct_iff)
  moreover have "mset (map f (sort_key f ys)) = mset (map f ys)" by simp
  ultimately have "distinct (map f (sort_key f ys))" by (metis mset_eq_imp_distinct_iff)
  then show ?thesis
    using assms s by (intro map_sorted_distinct_set_unique[of f]) (auto simp: distinct_map)
qed

lemma probe_targets_distinct: "distinct (map pb_target PROBES)"
  by code_simp

text \<open>Checks answer, and their endpoints are numbered.\<close>

definition numbered :: "endpoint_health list \<Rightarrow> bool" where
  "numbered es \<longleftrightarrow> map eh_position es = [0..<length es]"

definition endpoint_fits :: "endpoint_health \<Rightarrow> bool" where
  "endpoint_fits e \<longleftrightarrow> clamp_ms (eh_latency_ms e) = eh_latency_ms e \<and> (eh_status e = ''healthy'' \<or> eh_status e = ''unhealthy'')"

lemma endpoint_record_position [simp]: "eh_position (endpoint_record E t p s tm h r) = p"
  by (simp add: endpoint_record_def Let_def split: sum.split)

lemma endpoint_record_fits: "int (he_elapsed_ms E t p) \<le> I64_MAX \<Longrightarrow> endpoint_fits (endpoint_record E t p s tm h r)"
  by (auto simp: endpoint_record_def endpoint_fits_def clamp_ms_def Let_def split: sum.split)

lemma probe_endpoint_total: "upstream_auth_valid c \<Longrightarrow> probe_endpoint N L c m url sent \<noteq> None"
  using upstream_request_total[of c N L m url "[]"] by (simp add: probe_endpoint_def)

lemma check_endpoint_total:
  assumes "upstream_auth_valid c"
  shows "check_endpoint E c probe p s suffix tm \<noteq> None" and "check_custom_endpoint E c t p s tm \<noteq> None"
  using probe_endpoint_total[OF assms]
  by (auto simp: check_endpoint_def check_custom_endpoint_def Let_def split: sum.split simp del: not_None_eq)

lemma check_endpoint_fields:
  assumes "\<forall>t p. int (he_elapsed_ms E t p) \<le> I64_MAX"
  shows "check_endpoint E c probe p s suffix tm = Some e \<Longrightarrow> eh_position e = p \<and> endpoint_fits e"
    and "check_custom_endpoint E c t p s tm = Some e \<Longrightarrow> eh_position e = p \<and> endpoint_fits e"
  using endpoint_record_fits[of E] assms
  by (auto simp: check_endpoint_def check_custom_endpoint_def Let_def split: sum.splits if_splits)

lemma enumerated_checks:
  assumes "those (map (\<lambda>(p, s). f p s) (List.enumerate 0 ss)) = Some es"
    and "\<And>p s e. f p s = Some e \<Longrightarrow> eh_position e = p \<and> endpoint_fits e"
  shows "numbered es" and "list_all endpoint_fits es"
proof -
  have a: "list_all2 (\<lambda>(p, s) e. f p s = Some e) (List.enumerate 0 ss) es"
    using assms(1) by (simp add: those_map_Some case_prod_unfold)
  have l: "length es = length ss" using list_all2_lengthD[OF a] by simp
  have "eh_position (es ! i) = i \<and> endpoint_fits (es ! i)" if "i < length es" for i
    using list_all2_nthD2[OF a that] that l assms(2) by (auto simp: nth_enumerate_eq)
  then show "numbered es" "list_all endpoint_fits es"
    by (auto simp: numbered_def list_all_length intro: nth_equalityI)
qed

text \<open>What holds of every record of a round.\<close>

definition record_ok :: "source_record \<Rightarrow> bool" where
  "record_ok r \<longleftrightarrow> numbered (sr_endpoints r) \<and> list_all endpoint_fits (sr_endpoints r) \<and> clamp_ms (sr_latency_ms r) = sr_latency_ms r
     \<and> sr_status r \<in> set [''healthy'', ''degraded'', ''unhealthy'', ''disabled'']
     \<and> (sr_status r = ''healthy'' \<longleftrightarrow> sr_endpoints r \<noteq> [] \<and> list_all (\<lambda>e. eh_status e = ''healthy'') (sr_endpoints r))
     \<and> (sr_status r = ''degraded'' \<longleftrightarrow> list_ex (\<lambda>e. eh_status e = ''healthy'') (sr_endpoints r) \<and> list_ex (\<lambda>e. eh_status e \<noteq> ''healthy'') (sr_endpoints r))"

lemma numbered_distinct: "numbered es \<Longrightarrow> distinct (map eh_position es)" "numbered es \<Longrightarrow> sorted (map eh_position es)"
  by (simp_all add: numbered_def)

lemma numbered_sort: "numbered es \<Longrightarrow> mset xs = mset es \<Longrightarrow> sort_key eh_position xs = es"
  by (simp add: sort_key_unique numbered_distinct)

lemma fold_max_clamped: "list_all (\<lambda>v. clamp_ms (Some v) = Some v) vs \<Longrightarrow> clamp_ms (Some m) = Some m \<Longrightarrow> clamp_ms (Some (fold max vs m)) = Some (fold max vs m)"
  by (induction vs arbitrary: m) (auto simp: clamp_ms_def max_def)

lemma length_filter_pos: "(length (filter P xs) = 0) = (\<not> list_ex P xs)" "(length (filter P xs) = length xs) = list_all P xs"
proof -
  show "(length (filter P xs) = 0) = (\<not> list_ex P xs)" by (auto simp: list_ex_iff filter_empty_conv)
  have "length (filter P xs) + length (filter (\<lambda>x. \<not> P x) xs) = length xs" by (rule sum_length_filter_compl)
  then have "(length (filter P xs) = length xs) = (length (filter (\<lambda>x. \<not> P x) xs) = 0)" by linarith
  then show "(length (filter P xs) = length xs) = list_all P xs" by (auto simp: list_all_iff filter_empty_conv)
qed

lemma summarize_order:
  assumes "numbered es" and "mset xs = mset es"
  shows "summarize_endpoints t a xs tm = summarize_endpoints t a es tm"
proof -
  have "xs = [] \<longleftrightarrow> es = []" using assms(2) by auto
  then show ?thesis using numbered_sort[OF assms] numbered_sort[OF assms(1) refl] by (simp add: summarize_endpoints_def)
qed

lemma summarize_ok:
  assumes "numbered es" and "list_all endpoint_fits es"
  shows "record_ok (summarize_endpoints t a es tm)"
proof (cases "es = []")
  case False
  have s: "sort_key eh_position es = es" by (rule numbered_sort[OF assms(1) refl])
  have l: "list_all (\<lambda>v. clamp_ms (Some v) = Some v) (filter_map eh_latency_ms es)"
    using assms(2) by (auto simp: list_all_iff filter_map_def map_filter_def endpoint_fits_def)
  have "clamp_ms (Some (fold max (filter_map eh_latency_ms es) 0)) = Some (fold max (filter_map eh_latency_ms es) 0)"
    by (rule fold_max_clamped[OF l]) (simp add: clamp_ms_def)
  then have c: "clamp_ms (sr_latency_ms (summarize_endpoints t a es tm)) = sr_latency_ms (summarize_endpoints t a es tm)"
    using False by (simp add: summarize_endpoints_def s Let_def) (simp add: clamp_ms_def)
  have n: "list_all (\<lambda>e. eh_status e = ''healthy'') es \<longleftrightarrow> \<not> list_ex (\<lambda>e. eh_status e \<noteq> ''healthy'') es"
    "list_all (\<lambda>e. eh_status e = ''healthy'') es \<Longrightarrow> list_ex (\<lambda>e. eh_status e = ''healthy'') es"
    using False by (auto simp: list_all_iff list_ex_iff) (metis list.set_sel(1))
  have e: "sr_endpoints (summarize_endpoints t a es tm) = es" using False by (simp add: summarize_endpoints_def s Let_def)
  have st: "sr_status (summarize_endpoints t a es tm) =
      (if list_all (\<lambda>e. eh_status e = ''healthy'') es then ''healthy'' else if list_ex (\<lambda>e. eh_status e = ''healthy'') es then ''degraded'' else ''unhealthy'')"
    using False length_filter_pos[of "\<lambda>e. eh_status e = ''healthy''" es] by (simp add: summarize_endpoints_def s Let_def)
  show ?thesis unfolding record_ok_def e st using assms c n False by auto
qed (simp add: summarize_endpoints_def record_ok_def numbered_def clamp_ms_def)

lemma plain_records_ok: "record_ok (disabled_record t a tm)" "record_ok (failed_record p tm e)"
  by (simp_all add: disabled_record_def failed_record_def record_ok_def numbered_def clamp_ms_def)

lemma plain_targets [simp]: "sr_target_code (disabled_record t a tm) = t" "sr_target_code (failed_record p tm e) = pb_target p"
  by (simp_all add: disabled_record_def failed_record_def)

text \<open>The environment in which concurrent checks finish in the order they were begun.\<close>

definition in_order :: "health_env \<Rightarrow> health_env" where
  "in_order E = E\<lparr>he_order_endpoints := (\<lambda>es. es), he_order_records := (\<lambda>rs. rs)\<rparr>"

definition any_order :: "health_env \<Rightarrow> bool" where
  "any_order E \<longleftrightarrow> (\<forall>es. mset (he_order_endpoints E es) = mset es) \<and> (\<forall>rs. mset (he_order_records E rs) = mset rs)"

lemma in_order_frame [simp]:
  "check_endpoint (in_order E) c probe p s suffix tm = check_endpoint E c probe p s suffix tm"
  "check_custom_endpoint (in_order E) c t p s tm = check_custom_endpoint E c t p s tm"
  "he_order_endpoints (in_order E) = (\<lambda>es. es)" "he_order_records (in_order E) = (\<lambda>rs. rs)"
  by (simp_all add: in_order_def check_endpoint_def check_custom_endpoint_def endpoint_url_def endpoint_record_def redacted_endpoint_def
      cong: sum.case_cong option.case_cong if_cong)

lemma checks_of:
  assumes "upstream_auth_valid c" and "\<forall>t p. int (he_elapsed_ms E t p) \<le> I64_MAX" and "any_order E"
  shows "\<exists>r. probe_record E c tm probe = Some r \<and> probe_record (in_order E) c tm probe = Some r \<and> record_ok r \<and> sr_target_code r = pb_target probe"
    and "\<exists>r. custom_record E c tm (target, s) = Some r \<and> custom_record (in_order E) c tm (target, s) = Some r \<and> record_ok r \<and> sr_target_code r = target"
proof -
  have code: "sr_target_code (summarize_endpoints t a es tm) = t" for t a es by (simp add: summarize_endpoints_def Let_def)
  have sound: "\<exists>es. those (map (\<lambda>(p, s). f p s) (configured_endpoints configured)) = Some es \<and> numbered es \<and> list_all endpoint_fits es"
    if f: "\<And>p s. f p s \<noteq> None" "\<And>p s e. f p s = Some e \<Longrightarrow> eh_position e = p \<and> endpoint_fits e" for f configured
  proof -
    have "list_all (\<lambda>x. (case x of (p, s) \<Rightarrow> f p s) \<noteq> None) (configured_endpoints configured)"
      using f(1) by (auto simp: list_all_iff)
    from those_map_total[OF this] obtain es where "those (map (\<lambda>(p, s). f p s) (configured_endpoints configured)) = Some es" by blast
    then show ?thesis using enumerated_checks[of f _ es] f(2) unfolding configured_endpoints_def by blast
  qed
  have order: "summarize_endpoints t a (he_order_endpoints E es) tm = summarize_endpoints t a es tm" if "numbered es" for t a es
    using that assms(3) by (intro summarize_order) (auto simp: any_order_def)
  show "\<exists>r. probe_record E c tm probe = Some r \<and> probe_record (in_order E) c tm probe = Some r \<and> record_ok r \<and> sr_target_code r = pb_target probe"
  proof (cases "configured_upstream (cfg_upstreams c) probe")
    case None
    then show ?thesis by (auto simp: probe_record_def check_probe_def plain_records_ok)
  next
    case (Some configured)
    obtain es where "those (map (\<lambda>(p, s). check_endpoint E c probe p s (direct_path probe) tm) (configured_endpoints configured)) = Some es"
      "numbered es" "list_all endpoint_fits es"
      using sound[of "\<lambda>p s. check_endpoint E c probe p s (direct_path probe) tm" configured] check_endpoint_total(1)[OF assms(1)] check_endpoint_fields(1)[OF assms(2)] by blast
    then show ?thesis
      using Some summarize_ok[of es] order[of es] code by (simp add: probe_record_def check_probe_def plain_records_ok)
  qed
  obtain es where "those (map (\<lambda>(p, s). check_custom_endpoint E c target p s tm) (configured_endpoints s)) = Some es"
    "numbered es" "list_all endpoint_fits es"
    using sound[of "\<lambda>p s. check_custom_endpoint E c target p s tm" s] check_endpoint_total(2)[OF assms(1)] check_endpoint_fields(2)[OF assms(2)] by blast
  then show "\<exists>r. custom_record E c tm (target, s) = Some r \<and> custom_record (in_order E) c tm (target, s) = Some r \<and> record_ok r \<and> sr_target_code r = target"
    using summarize_ok[of es] order[of es] code by (simp add: custom_record_def check_custom_upstream_def plain_records_ok)
qed

text \<open>Storing records of distinct targets and reading them back.\<close>

lemma put_endpoints_fresh:
  assumes "distinct (map eh_position es)" and "list_all endpoint_fits es"
    and "\<forall>e\<in>set es. \<forall>(k, r)\<in>set rows. \<not> (k = target \<and> eh_position r = eh_position e)"
  shows "put_endpoints target es rows = Some (rows @ map (Pair target) es)"
  using assms
proof (induction es arbitrary: rows)
  case (Cons e es)
  have "e\<lparr>eh_latency_ms := clamp_ms (eh_latency_ms e)\<rparr> = e" using Cons.prems(2) by (simp add: endpoint_fits_def)
  then have "put_endpoint target rows e = Some (rows @ [(target, e)])"
    using Cons.prems(3) by (auto simp: put_endpoint_def list_ex_iff)
  moreover have "put_endpoints target es (rows @ [(target, e)]) = Some ((rows @ [(target, e)]) @ map (Pair target) es)"
    using Cons.prems by (intro Cons.IH) auto
  ultimately show ?case by simp
qed simp

definition bare :: "source_record \<Rightarrow> source_record" where
  "bare r = r\<lparr>sr_endpoints := []\<rparr>"

definition endpoint_rows :: "source_record list \<Rightarrow> (string \<times> endpoint_health) list" where
  "endpoint_rows rs = concat (map (\<lambda>r. map (Pair (sr_target_code r)) (sr_endpoints r)) rs)"

lemma put_records_fresh:
  assumes "distinct (map sr_target_code rs)" and "list_all record_ok rs"
    and "\<forall>r\<in>set rs. sr_target_code r \<notin> fst ` set (ht_sources t) \<and> sr_target_code r \<notin> fst ` set (ht_endpoints t)"
  shows "put_records rs t = Some \<lparr>ht_sources = ht_sources t @ map (\<lambda>r. (sr_target_code r, bare r)) rs, ht_endpoints = ht_endpoints t @ endpoint_rows rs\<rparr>"
  using assms
proof (induction rs arbitrary: t)
  case (Cons r rs)
  have ok: "record_ok r" using Cons.prems(2) by simp
  have e: "put_endpoints (sr_target_code r) (sr_endpoints r) (ht_endpoints t) = Some (ht_endpoints t @ map (Pair (sr_target_code r)) (sr_endpoints r))"
    using ok Cons.prems(3) by (intro put_endpoints_fresh) (auto simp: record_ok_def numbered_distinct image_iff)
  have s: "put_source r (ht_sources t) = ht_sources t @ [(sr_target_code r, bare r)]"
    using ok Cons.prems(3) by (auto simp: put_source_def bare_def record_ok_def list_ex_iff image_iff Let_def)
  show ?case
    using Cons.prems by (simp add: e s endpoint_rows_def) (subst Cons.IH, auto simp: endpoint_rows_def image_iff)
qed (simp add: endpoint_rows_def)

lemma endpoint_rows_of:
  assumes "distinct (map sr_target_code rs)" and "r \<in> set rs"
  shows "map snd (filter (\<lambda>(k, _). k = sr_target_code r) (endpoint_rows rs)) = sr_endpoints r"
proof -
  have none: "filter (\<lambda>(k, _). k = sr_target_code r) (endpoint_rows qs) = []" if "sr_target_code r \<notin> sr_target_code ` set qs" for qs
    using that by (auto simp: endpoint_rows_def filter_empty_conv) (metis imageI)
  obtain ps qs where rs: "rs = ps @ r # qs" using split_list[OF assms(2)] by blast
  have "filter (\<lambda>(k, _). k = sr_target_code r) (endpoint_rows rs) = map (Pair (sr_target_code r)) (sr_endpoints r)"
    using assms(1) none[of ps] none[of qs] unfolding rs endpoint_rows_def by (simp add: filter_map comp_def)
  then show ?thesis by (simp add: comp_def)
qed

lemma stored_records_read_back:
  assumes "distinct (map sr_target_code rs)" and "list_all record_ok rs" and "put_records rs \<lparr>ht_sources = [], ht_endpoints = []\<rparr> = Some t"
  shows "source_health t = sort_key sr_target_code rs"
proof -
  have t: "ht_sources t = map (\<lambda>r. (sr_target_code r, bare r)) rs" "ht_endpoints t = endpoint_rows rs"
    using put_records_fresh[OF assms(1,2), of "\<lparr>ht_sources = [], ht_endpoints = []\<rparr>"] assms(3) by auto
  have d: "distinct (map sr_target_code (sort_key sr_target_code rs))"
    using assms(1) by (metis mset_map mset_sort mset_eq_imp_distinct_iff)
  have s: "sort_key fst (map (\<lambda>r. (sr_target_code r, bare r)) rs) = map (\<lambda>r. (sr_target_code r, bare r)) (sort_key sr_target_code rs)"
    using d by (intro sort_key_unique) (simp_all add: comp_def)
  have "(bare r)\<lparr>sr_endpoints := sort_key eh_position (map snd (filter (\<lambda>(k, _). k = sr_target_code r) (endpoint_rows rs)))\<rparr> = r" if "r \<in> set rs" for r
  proof -
    have "numbered (sr_endpoints r)" using assms(2) that by (auto simp: list_all_iff record_ok_def)
    then show ?thesis using endpoint_rows_of[OF assms(1) that] numbered_sort[of "sr_endpoints r" "sr_endpoints r"] by (simp add: bare_def)
  qed
  then show ?thesis unfolding source_health_def t s map_map comp_def by (intro map_idI) simp
qed

section \<open>The report of a round\<close>

lemma status_counts:
  assumes "list_all record_ok items"
  shows "status_count ''healthy'' items + status_count ''degraded'' items + status_count ''unhealthy'' items + status_count ''disabled'' items
    = length items"
  using assms by (induction items) (auto simp: status_count_def record_ok_def)

lemma records_of_round:
  assumes "upstream_auth_valid c" and "\<forall>t p. int (he_elapsed_ms E t p) \<le> I64_MAX" and "any_order E"
  shows "\<exists>probed custom. those (map (probe_record E c tm) PROBES) = Some probed \<and> those (map (probe_record (in_order E) c tm) PROBES) = Some probed
      \<and> those (map (custom_record E c tm) cs) = Some custom \<and> those (map (custom_record (in_order E) c tm) cs) = Some custom
      \<and> list_all record_ok (probed @ custom) \<and> map sr_target_code probed = map pb_target PROBES \<and> map sr_target_code custom = map fst cs"
proof -
  have gen: "\<exists>ys. those (map f xs) = Some ys \<and> those (map g xs) = Some ys \<and> list_all record_ok ys \<and> map sr_target_code ys = map k xs"
    if each: "\<And>x. \<exists>r. f x = Some r \<and> g x = Some r \<and> record_ok r \<and> sr_target_code r = k x" for f g :: "'x \<Rightarrow> source_record option" and k xs
  proof (induction xs)
    case (Cons x xs)
    then obtain ys where ys: "those (map f xs) = Some ys" "those (map g xs) = Some ys" "list_all record_ok ys" "map sr_target_code ys = map k xs" by blast
    obtain r where r: "f x = Some r" "g x = Some r" "record_ok r" "sr_target_code r = k x" using each[of x] by blast
    have "those (map f (x # xs)) = Some (r # ys) \<and> those (map g (x # xs)) = Some (r # ys)" by (simp add: ys r)
    then show ?case using ys r by (intro exI[of _ "r # ys"]) simp
  qed simp
  have c: "\<exists>r. custom_record E c tm x = Some r \<and> custom_record (in_order E) c tm x = Some r \<and> record_ok r \<and> sr_target_code r = fst x" for x
    using checks_of(2)[OF assms, of tm "fst x" "snd x"] by simp
  show ?thesis
    using gen[of "probe_record E c tm" "probe_record (in_order E) c tm" pb_target PROBES, OF checks_of(1)[OF assms]]
      gen[of "custom_record E c tm" "custom_record (in_order E) c tm" fst cs, OF c] by (auto simp: list_all_append)
qed

lemma round_targets_distinct:
  assumes "distinct (map fst (up_additional_os u))"
  shows "distinct (map pb_target PROBES @ map fst (custom_upstreams u))"
  using assms probe_targets_distinct
  by (auto simp: custom_upstreams_def distinct_map_filter list_ex_iff distinct_map filter_map comp_def case_prod_unfold inj_on_def)

text \<open>C34: A round of health checks accounts for every source exactly once.  With validated
  credentials and whatever the network answers, a round that is not turned away because
  another one is running completes; its outcome does not depend on the order in which the
  concurrent probes finish; the report lists, in order of their codes, each built-in target and
  each custom repository once, as found by this round and as stored in the database; the
  counts of the report add up and nothing is unknown.  A source is healthy exactly if it has
  endpoints and all of them are, degraded exactly if some are and some are not, and its
  endpoints are listed in the configured order.\<close>

theorem health_round_complete:
  assumes "upstream_auth_valid c" and "distinct (map fst (up_additional_os (cfg_upstreams c)))" and "any_order E"
    and "\<forall>t p. int (he_elapsed_ms E t p) \<le> I64_MAX" and "\<not> hs_running st"
  shows "\<exists>rep st'. run_checks E c tm st = (Inr rep, st') \<and> fst (run_checks (in_order E) c tm st) = Inr rep
    \<and> source_health (hs_tables st') = rp_items rep \<and> \<not> hs_running st'
    \<and> sorted (map sr_target_code (rp_items rep)) \<and> distinct (map sr_target_code (rp_items rep))
    \<and> set (map sr_target_code (rp_items rep)) = pb_target ` set PROBES \<union> fst ` set (up_additional_os (cfg_upstreams c))
    \<and> rp_total rep = length (rp_items rep) \<and> rp_unknown rep = 0
    \<and> rp_healthy rep + rp_degraded rep + rp_unhealthy rep + rp_disabled rep = rp_total rep
    \<and> list_all record_ok (rp_items rep)"
proof -
  let ?cs = "custom_upstreams (cfg_upstreams c)"
  obtain probed custom where r: "those (map (probe_record E c tm) PROBES) = Some probed" "those (map (probe_record (in_order E) c tm) PROBES) = Some probed"
    "those (map (custom_record E c tm) ?cs) = Some custom" "those (map (custom_record (in_order E) c tm) ?cs) = Some custom"
    and ok: "list_all record_ok (probed @ custom)" and codes: "map sr_target_code probed = map pb_target PROBES" "map sr_target_code custom = map fst ?cs"
    using records_of_round[OF assms(1,4,3), of tm ?cs] by blast
  let ?items = "sort_key sr_target_code (probed @ custom)"
  have d: "distinct (map sr_target_code (probed @ custom))" using round_targets_distinct[OF assms(2)] by (simp add: codes)
  have stored: "\<exists>t. replace_source_health rs (hs_tables st) = (True, t) \<and> source_health t = ?items" if "mset rs = mset (probed @ custom)" for rs
  proof -
    have rs: "distinct (map sr_target_code rs)" "list_all record_ok rs"
      using distinct_keys_mset[OF that, of sr_target_code] set_of_mset[OF that] d ok by (auto simp: list_all_iff)
    obtain t where t: "put_records rs \<lparr>ht_sources = [], ht_endpoints = []\<rparr> = Some t" using put_records_fresh[OF rs] by auto
    have "sort_key sr_target_code rs = ?items"
      using that d distinct_keys_mset[of ?items "probed @ custom" sr_target_code] by (intro sort_key_unique) simp_all
    then show ?thesis using stored_records_read_back[OF rs t] t by (simp add: replace_source_health_def)
  qed
  have known: "filter (\<lambda>i. list_ex (\<lambda>p. pb_target p = sr_target_code i) PROBES \<or> sr_target_code i \<in> set (map fst ?cs)) ?items = ?items"
  proof (rule filter_True, intro ballI)
    fix i assume "i \<in> set ?items"
    then have "sr_target_code i \<in> set (map pb_target PROBES @ map fst ?cs)"
      unfolding codes[symmetric] map_append[symmetric] by auto
    then show "list_ex (\<lambda>p. pb_target p = sr_target_code i) PROBES \<or> sr_target_code i \<in> set (map fst ?cs)"
      by (auto simp: list_ex_iff)
  qed
  have n: "length ?items = length PROBES + length ?cs"
    using arg_cong[OF codes(1), of length] arg_cong[OF codes(2), of length] by simp
  have cs: "length (remdups (map fst ?cs)) = length ?cs" using round_targets_distinct[OF assms(2)] by (simp add: distinct_remdups_id)
  have perm: "mset (he_order_records E probed @ he_order_records E custom) = mset (probed @ custom)"
    using assms(3) by (simp add: any_order_def)
  obtain t where t: "replace_source_health (he_order_records E probed @ he_order_records E custom) (hs_tables st) = (True, t)" "source_health t = ?items"
    using stored[OF perm] by blast
  obtain t' where t': "replace_source_health (probed @ custom) (hs_tables st) = (True, t')" "source_health t' = ?items" using stored[OF refl] by blast
  define rep where "rep = report c True \<lparr>hs_running = True, hs_tables = t\<rparr>"
  have f: "rp_items rep = ?items" "rp_total rep = length PROBES + length ?cs" "rp_unknown rep = 0"
    "rp_healthy rep = status_count ''healthy'' ?items" "rp_degraded rep = status_count ''degraded'' ?items"
    "rp_unhealthy rep = status_count ''unhealthy'' ?items" "rp_disabled rep = status_count ''disabled'' ?items"
    unfolding rep_def report_def using t(2) known cs n by (simp_all add: Let_def)
  have run: "run_checks E c tm st = (Inr rep, st\<lparr>hs_tables := t\<rparr>)" "fst (run_checks (in_order E) c tm st) = Inr rep"
    using assms(5) r t t' by (simp_all add: run_checks_def rep_def report_def)
  have oks: "list_all record_ok ?items" using ok by (simp add: list_all_iff)
  have cover: "pb_target ` set PROBES \<union> fst ` set (custom_upstreams u) = pb_target ` set PROBES \<union> fst ` set (up_additional_os u)" for u
    by (force simp: custom_upstreams_def list_ex_iff)
  have codes': "set (map sr_target_code ?items) = pb_target ` set PROBES \<union> fst ` set (up_additional_os (cfg_upstreams c))"
    using arg_cong[OF codes(1), of set] arg_cong[OF codes(2), of set] by (simp add: image_Un cover)
  have "distinct (map sr_target_code ?items)" using d distinct_keys_mset[of ?items "probed @ custom" sr_target_code] by simp
  then show ?thesis
    using run t(2) f oks codes' n status_counts[OF oks] assms(5)
    by (intro exI[of _ rep] exI[of _ "st\<lparr>hs_tables := t\<rparr>"]) simp
qed

definition dead_network :: egress where
  "dead_network = \<lparr>eg_exec = (\<lambda>_ _ _. None), eg_lookup = (\<lambda>_ _. None), eg_client_ok = True, eg_basic = (\<lambda>_ _. []), eg_trace_headers = []\<rparr>"

definition sample_health :: health_env where
  "sample_health = \<lparr>he_urls = plain_url_lib, he_set_fragment = (\<lambda>u f. u\<lparr>u_fragment := f\<rparr>),
     he_set_userinfo = (\<lambda>u n p. u\<lparr>u_username := n, u_password := p\<rparr>), he_parse_error = (\<lambda>_. ''bad''), he_error_text = (\<lambda>_. ''down''),
     he_egress = (\<lambda>_ _. dead_network), he_elapsed_ms = (\<lambda>_ _. 3), he_order_endpoints = rev, he_order_records = rev\<rparr>"

definition idle_health :: health_state where
  "idle_health = \<lparr>hs_running = False, hs_tables = \<lparr>ht_sources = [], ht_endpoints = []\<rparr>\<rparr>"

theorem health_round_complete_witness:
  "\<exists>rep st'. run_checks sample_health Config_default 5 idle_health = (Inr rep, st') \<and> source_health (hs_tables st') = rp_items rep
     \<and> rp_total rep = length (rp_items rep) \<and> rp_unknown rep = 0"
proof -
  have "distinct (map fst (up_additional_os (cfg_upstreams Config_default)))" by (simp add: Config_default_def) code_simp
  moreover have "any_order sample_health" by (simp add: any_order_def sample_health_def)
  moreover have "\<forall>t p. int (he_elapsed_ms sample_health t p) \<le> I64_MAX" by (simp add: sample_health_def I64_MAX_def)
  moreover have "\<not> hs_running idle_health" by (simp add: idle_health_def)
  ultimately show ?thesis using health_round_complete[OF default_auth_valid, of sample_health idle_health 5] by blast
qed

end
