(* ===== verification/Alerts.thy ===== *)
theory Alerts
  imports Source_Health Mail_Tokens
begin

text \<open>
  Operational alerts (\<open>alerts.rs\<close> and \<open>enqueue_operational_alert\<close> of \<open>email.rs\<close>): once a minute
  the monthly traffic and the state of the sources are compared with the configured
  thresholds, and an alert goes to a webhook and to the mail queue unless the same alert
  went there recently.

  Whether the webhook accepts a message and the clock are arguments of an evaluation.
\<close>

section \<open>Delivery\<close>

record alert_payload =
  al_event :: string
  al_severity :: string
  al_message :: string
  al_value :: nat
  al_threshold :: nat
  al_timestamp :: int

type_synonym cooldowns = "string \<rightharpoonup> instant"

definition is_cooling_down :: "cooldowns \<Rightarrow> string \<Rightarrow> instant \<Rightarrow> nat \<Rightarrow> bool" where
  "is_cooling_down cd key now cooldown_secs = is_some_and (\<lambda>last. max 0 (now - last) < secs cooldown_secs) (cd key)"

definition mark_delivered :: "cooldowns \<Rightarrow> string \<Rightarrow> instant \<Rightarrow> cooldowns" where
  "mark_delivered cd key now = cd(key \<mapsto> now)"

definition alert_email_content :: "alert_payload \<Rightarrow> string \<times> string" where
  "alert_email_content p =
     (''[MirrorProxy '' @ al_severity p @ ''] '' @ al_event p,
      al_message p @ [CHR 0x0A, CHR 0x0A] @ ''Current value: '' @ dec_of_nat (al_value p) @ [CHR 0x0A] @ ''Threshold: '' @ dec_of_nat (al_threshold p)
        @ [CHR 0x0A] @ ''Observed at: '' @ dec_of_int (al_timestamp p) @ [CHR 0x0A])"

fun enqueue_each :: "vault \<Rightarrow> int \<Rightarrow> string list \<Rightarrow> string \<Rightarrow> string \<Rightarrow> store \<Rightarrow> bool \<times> store" where
  "enqueue_each V now [] subject body st = (True, st)"
| "enqueue_each V now (recipient # rest) subject body st =
     (let sealed = (case vseal V ''email_outbox.body'' (email_outbox_seq (mail st) + 1) body of Inl _ \<Rightarrow> None | Inr s \<Rightarrow> Some s) in
      case enqueue_email now recipient subject sealed (Some None) st of
        (Inl _, st1) \<Rightarrow> (False, st1)
      | (Inr _, st1) \<Rightarrow> enqueue_each V now rest subject body st1)"

definition enqueue_operational_alert :: "vault \<Rightarrow> int \<Rightarrow> string list \<Rightarrow> string \<Rightarrow> string \<Rightarrow> settings_store \<Rightarrow> bool \<times> settings_store" where
  "enqueue_operational_alert V now recipients subject body st = (case Settings_Db.smtp_settings V st of
       Inr (Some s) \<Rightarrow>
         if sm_enabled s
         then (case enqueue_each V now recipients subject body (ss_store st) of (ok, s1) \<Rightarrow> (ok, st\<lparr>ss_store := s1\<rparr>))
         else (False, st)
     | _ \<Rightarrow> (False, st))"

text \<open>The channels a delivery reached, the cooldowns and the tables afterwards.\<close>

record delivery =
  dv_ok :: bool
  dv_sent :: "(string \<times> instant \<times> alert_payload) list"
  dv_cooldowns :: cooldowns
  dv_settings :: settings_store

record alert_env =
  ae_vault :: vault
  ae_post :: "string \<Rightarrow> alert_payload \<Rightarrow> bool"

definition deliver :: "alert_env \<Rightarrow> instant \<Rightarrow> alert_config \<Rightarrow> alert_payload \<Rightarrow> cooldowns \<Rightarrow> settings_store \<Rightarrow> delivery" where
  "deliver E now c p cd st =
     (let wkey = al_event p @ '':webhook''; mkey = al_event p @ '':email'';
          (wok, wsent, cd1) =
            (if alc_webhook_url c \<noteq> [] \<and> \<not> is_cooling_down cd wkey now (alc_cooldown_secs c)
             then (if ae_post E (alc_webhook_url c) p then (True, [(wkey, now, p)], mark_delivered cd wkey now) else (False, [], cd))
             else (True, [], cd));
          (mok, msent, cd2, st2) =
            (if alc_email_enabled c \<and> alc_email_recipients c \<noteq> [] \<and> \<not> is_cooling_down cd1 mkey now (alc_cooldown_secs c)
             then (case enqueue_operational_alert (ae_vault E) (al_timestamp p) (alc_email_recipients c)
                          (fst (alert_email_content p)) (snd (alert_email_content p)) st of
                     (True, st1) \<Rightarrow> (True, [(mkey, now, p)], mark_delivered cd1 mkey now, st1)
                   | (False, st1) \<Rightarrow> (False, [], cd1, st1))
             else (True, [], cd1, st))
      in \<lparr>dv_ok = (wok \<and> mok), dv_sent = wsent @ msent, dv_cooldowns = cd2, dv_settings = st2\<rparr>)"

section \<open>Evaluation\<close>

text \<open>What one evaluation sees.\<close>

record observation =
  ob_config :: config
  ob_month :: string
  ob_quota_at :: instant
  ob_health_at :: instant
  ob_time :: int
  ob_health :: health_tables

definition month_bytes :: "string \<Rightarrow> store \<Rightarrow> nat" where
  "month_bytes month st = (case traffic_monthly (qdb st) month of None \<Rightarrow> 0 | Some r \<Rightarrow> as_u64 (row_response_bytes r))"

definition quota_limit :: "config \<Rightarrow> nat" where
  "quota_limit c = sat_mul (qc_monthly_gb (cfg_quota c)) (1024 * 1024 * 1024)"

definition quota_threshold :: "config \<Rightarrow> nat" where
  "quota_threshold c = sat_mul (quota_limit c) (alc_quota_percent (cfg_alerts c)) div 100"

definition quota_alert :: "config \<Rightarrow> string \<Rightarrow> int \<Rightarrow> store \<Rightarrow> alert_payload option" where
  "quota_alert c month time st =
     (let used = month_bytes month st in
      if qc_enabled (cfg_quota c) \<and> qc_monthly_gb (cfg_quota c) > 0 \<and> used \<ge> quota_threshold c
      then Some \<lparr>al_event = ''quota_threshold'', al_severity = (if used \<ge> quota_limit c then ''critical'' else ''warning''),
             al_message = ''monthly proxy traffic reached '' @ dec_of_nat (alc_quota_percent (cfg_alerts c)) @ ''% of the configured quota'',
             al_value = used, al_threshold = quota_threshold c, al_timestamp = time\<rparr>
      else None)"

definition failing_sources :: "health_tables \<Rightarrow> nat" where
  "failing_sources t = length (filter (\<lambda>s. sr_status s \<in> set [''degraded'', ''unhealthy'']) (source_health t))"

definition health_alert :: "config \<Rightarrow> int \<Rightarrow> health_tables \<Rightarrow> alert_payload option" where
  "health_alert c time t =
     (let unhealthy = failing_sources t in
      if unhealthy \<ge> alc_source_failures (cfg_alerts c)
      then Some \<lparr>al_event = ''upstream_health'', al_severity = ''critical'',
             al_message = dec_of_nat unhealthy @ '' upstream source groups are degraded or unavailable'',
             al_value = unhealthy, al_threshold = alc_source_failures (cfg_alerts c), al_timestamp = time\<rparr>
      else None)"

definition deliver_alert :: "alert_env \<Rightarrow> instant \<Rightarrow> config \<Rightarrow> alert_payload option \<Rightarrow> cooldowns \<Rightarrow> settings_store \<Rightarrow> delivery" where
  "deliver_alert E now c alert cd st = (case alert of
       None \<Rightarrow> \<lparr>dv_ok = True, dv_sent = [], dv_cooldowns = cd, dv_settings = st\<rparr>
     | Some p \<Rightarrow> deliver E now (cfg_alerts c) p cd st)"

text \<open>A failed delivery of the first alert ends the evaluation.\<close>

definition evaluate :: "alert_env \<Rightarrow> observation \<Rightarrow> cooldowns \<Rightarrow> settings_store \<Rightarrow> delivery" where
  "evaluate E o1 cd st =
     (let c = ob_config o1 in
      if \<not> alc_enabled (cfg_alerts c) then \<lparr>dv_ok = True, dv_sent = [], dv_cooldowns = cd, dv_settings = st\<rparr>
      else
        (let d1 = deliver_alert E (ob_quota_at o1) c (quota_alert c (ob_month o1) (ob_time o1) (ss_store st)) cd st in
         if \<not> dv_ok d1 then d1
         else
           (let d2 = deliver_alert E (ob_health_at o1) c (health_alert c (ob_time o1) (ob_health o1)) (dv_cooldowns d1) (dv_settings d1)
            in d2\<lparr>dv_sent := dv_sent d1 @ dv_sent d2\<rparr>)))"

text \<open>The worker: one evaluation after the other, with anything done to the tables between.\<close>

fun evaluations ::
  "(alert_env \<times> observation \<times> (settings_store \<Rightarrow> settings_store)) list \<Rightarrow> cooldowns \<Rightarrow> settings_store
     \<Rightarrow> (string \<times> instant \<times> alert_payload) list \<times> cooldowns \<times> settings_store" where
  "evaluations [] cd st = ([], cd, st)"
| "evaluations ((E, o1, between) # rest) cd st =
     (let d = evaluate E o1 cd st in
      case evaluations rest (dv_cooldowns d) (between (dv_settings d)) of (lg, cd1, st1) \<Rightarrow> (dv_sent d @ lg, cd1, st1))"

section \<open>Spacing\<close>

definition spaced :: "nat \<Rightarrow> (string \<times> instant \<times> alert_payload) list \<Rightarrow> bool" where
  "spaced cooldown = sorted_wrt (\<lambda>(k, t, _) (k', t', _). k = k' \<longrightarrow> secs cooldown \<le> t' - t)"

text \<open>The cooldowns are the last deliveries of the lg.\<close>

definition remembers :: "nat \<Rightarrow> instant \<Rightarrow> cooldowns \<Rightarrow> (string \<times> instant \<times> alert_payload) list \<Rightarrow> bool" where
  "remembers cooldown now cd lg \<longleftrightarrow> spaced cooldown lg
     \<and> (\<forall>(k, t, _)\<in>set lg. \<exists>l. cd k = Some l \<and> t \<le> l)
     \<and> (\<forall>k l. cd k = Some l \<longrightarrow> l \<le> now \<and> (\<exists>p. (k, l, p) \<in> set lg))"

lemma remembers_later: "remembers c now cd lg \<Longrightarrow> now \<le> now' \<Longrightarrow> remembers c now' cd lg"
  unfolding remembers_def by (meson order_trans)

lemma remembers_delivery:
  assumes "remembers c now cd lg" and "\<not> is_cooling_down cd key now c"
  shows "remembers c now (mark_delivered cd key now) (lg @ [(key, now, p)])"
proof -
  have old: "secs c \<le> now - t \<and> t \<le> now" if entry: "(key, t, q) \<in> set lg" for t q
  proof -
    obtain l where l: "cd key = Some l" "t \<le> l" "l \<le> now" using assms(1) entry unfolding remembers_def by fast
    have "secs c \<le> max 0 (now - l)" using assms(2) l(1) by (auto simp: is_cooling_down_def is_some_and_def)
    then show ?thesis using l(2,3) by simp
  qed
  have "spaced c (lg @ [(key, now, p)])"
    using assms(1) old by (auto simp: remembers_def spaced_def sorted_wrt_append)
  moreover have "\<exists>l. mark_delivered cd key now k = Some l \<and> t \<le> l" if "(k, t, q) \<in> set (lg @ [(key, now, p)])" for k t q
    using that old[of t q] assms(1) unfolding remembers_def mark_delivered_def by (cases "k = key") force+
  moreover have "l \<le> now \<and> (\<exists>q. (k, l, q) \<in> set (lg @ [(key, now, p)]))" if "mark_delivered cd key now k = Some l" for k l
    using that assms(1) unfolding remembers_def mark_delivered_def by (cases "k = key") force+
  ultimately show ?thesis unfolding remembers_def by fast
qed

lemma deliver_remembers:
  assumes "remembers (alc_cooldown_secs c) now cd lg"
  shows "remembers (alc_cooldown_secs c) now (dv_cooldowns (deliver E now c p cd st)) (lg @ dv_sent (deliver E now c p cd st))"
proof -
  let ?w = "al_event p @ '':webhook''" and ?m = "al_event p @ '':email''" and ?C = "alc_cooldown_secs c"
  define w where "w = (if alc_webhook_url c \<noteq> [] \<and> \<not> is_cooling_down cd ?w now ?C
     then (if ae_post E (alc_webhook_url c) p then (True, [(?w, now, p)], mark_delivered cd ?w now) else (False, [], cd)) else (True, [], cd))"
  obtain wok wsent cd1 where w1: "w = (wok, wsent, cd1)" by (cases w)
  have r1: "remembers ?C now cd1 (lg @ wsent)"
    using w1 assms remembers_delivery[OF assms, of ?w p] by (auto simp: w_def split: if_splits)
  define m where "m = (if alc_email_enabled c \<and> alc_email_recipients c \<noteq> [] \<and> \<not> is_cooling_down cd1 ?m now ?C
     then (case enqueue_operational_alert (ae_vault E) (al_timestamp p) (alc_email_recipients c) (fst (alert_email_content p)) (snd (alert_email_content p)) st of
         (True, st1) \<Rightarrow> (True, [(?m, now, p)], mark_delivered cd1 ?m now, st1) | (False, st1) \<Rightarrow> (False, [], cd1, st1))
     else (True, [], cd1, st))"
  obtain mok msent cd2 st2 where m1: "m = (mok, msent, cd2, st2)" by (cases m) auto
  have r2: "remembers ?C now cd2 ((lg @ wsent) @ msent)"
    using m1 r1 remembers_delivery[OF r1, of ?m p] by (auto simp: m_def split: if_splits prod.splits bool.splits)
  have "deliver E now c p cd st = \<lparr>dv_ok = (wok \<and> mok), dv_sent = wsent @ msent, dv_cooldowns = cd2, dv_settings = st2\<rparr>"
    unfolding deliver_def Let_def w_def[symmetric] w1 prod.case m_def[symmetric] m1 ..
  then show ?thesis using r2 by simp
qed

lemma deliver_alert_remembers:
  assumes "remembers (alc_cooldown_secs (cfg_alerts c)) now0 cd lg" and "now0 \<le> now"
  shows "remembers (alc_cooldown_secs (cfg_alerts c)) now (dv_cooldowns (deliver_alert E now c a cd st)) (lg @ dv_sent (deliver_alert E now c a cd st))"
  using deliver_remembers[OF remembers_later[OF assms]] remembers_later[OF assms] by (cases a) (simp_all add: deliver_alert_def)

lemma evaluate_remembers:
  assumes "remembers (alc_cooldown_secs (cfg_alerts (ob_config o1))) now0 cd lg" and "now0 \<le> ob_quota_at o1" and "ob_quota_at o1 \<le> ob_health_at o1"
  shows "remembers (alc_cooldown_secs (cfg_alerts (ob_config o1))) (ob_health_at o1) (dv_cooldowns (evaluate E o1 cd st)) (lg @ dv_sent (evaluate E o1 cd st))"
proof -
  note d1 = deliver_alert_remembers[OF assms(1,2)]
  have "now0 \<le> ob_health_at o1" using assms(2,3) by simp
  then show ?thesis
    using remembers_later[OF assms(1)] remembers_later[OF d1 assms(3)] deliver_alert_remembers[OF d1 assms(3)]
    by (simp add: evaluate_def Let_def)
qed

lemma evaluations_remember:
  assumes "remembers C now0 cd lg0" and "evaluations es cd st = (lg, cd', st')"
    and "list_all (\<lambda>(_, o1, _). alc_cooldown_secs (cfg_alerts (ob_config o1)) = C) es"
    and "sorted (now0 # concat (map (\<lambda>(_, o1, _). [ob_quota_at o1, ob_health_at o1]) es))"
  shows "remembers C (last (now0 # concat (map (\<lambda>(_, o1, _). [ob_quota_at o1, ob_health_at o1]) es))) cd' (lg0 @ lg)"
  using assms
proof (induction es arbitrary: now0 cd lg0 st lg)
  case (Cons x es)
  obtain E o1 between where x: "x = (E, o1, between)" by (cases x)
  let ?d = "evaluate E o1 cd st"
  obtain lg1 where e: "evaluations es (dv_cooldowns ?d) (between (dv_settings ?d)) = (lg1, cd', st')" and lg: "lg = dv_sent ?d @ lg1"
    using Cons.prems(2) by (auto simp: x Let_def split: prod.splits)
  have "remembers C (ob_health_at o1) (dv_cooldowns ?d) (lg0 @ dv_sent ?d)"
    using evaluate_remembers[of o1 now0 cd lg0 E st] Cons.prems by (simp add: x)
  from Cons.IH[OF this e] Cons.prems show ?case by (simp add: x lg)
qed simp

lemma observations_from_first:
  fixes ts :: "instant list"
  assumes "sorted (ts @ [q, h])" and "n = hd (ts @ [q])"
  shows "sorted (n # ts)" and "last (n # ts) \<le> q" and "q \<le> h"
proof -
  have s: "sorted ts" "\<forall>t\<in>set ts. t \<le> q" "q \<le> h" using assms(1) by (auto simp: sorted_append)
  then show "q \<le> h" by simp
  show "sorted (n # ts)" using s assms(2) by (cases ts) auto
  show "last (n # ts) \<le> q" using s assms(2) by (cases ts) auto
qed

lemma deliver_webhook_sent:
  assumes "alc_webhook_url c \<noteq> []" and "ae_post E (alc_webhook_url c) p" and "\<not> is_cooling_down cd (al_event p @ '':webhook'') now (alc_cooldown_secs c)"
  shows "(al_event p @ '':webhook'', now, p) \<in> set (dv_sent (deliver E now c p cd st))"
  using assms by (simp add: deliver_def Let_def split: prod.split)

lemma not_cooling:
  assumes "remembers C now0 cd lg" and "\<forall>(k, t, _)\<in>set lg. k = key \<longrightarrow> secs C \<le> now - t"
  shows "\<not> is_cooling_down cd key now C"
  using assms unfolding is_cooling_down_def remembers_def by (cases "cd key") (auto simp: is_some_and_def, fastforce)

lemma deliver_other_key:
  assumes "al_event p = ''quota_threshold''"
  shows "dv_cooldowns (deliver E now c p cd st) ''upstream_health:webhook'' = cd ''upstream_health:webhook''"
  using assms by (auto simp: deliver_def mark_delivered_def Let_def split: prod.split bool.split)

lemma sent_payload: "(k, t, q) \<in> set (dv_sent (deliver E now c p cd st)) \<Longrightarrow> q = p"
  by (auto simp: deliver_def Let_def split: prod.splits bool.splits if_splits)

lemma alert_events: "quota_alert c m tm st = Some p \<Longrightarrow> al_event p = ''quota_threshold''" "health_alert c tm t = Some q \<Longrightarrow> al_event q = ''upstream_health''"
  by (auto simp: quota_alert_def health_alert_def Let_def split: if_splits)

text \<open>C35: Operators are told about trouble, and not told over and over.  However configuration,
  sources and traffic develop from one evaluation to the next, two deliveries of the same
  alert to the same channel are at least the cooldown apart, and every message sent states a
  threshold that was reached.  When the monthly traffic has reached its threshold and the
  webhook accepts messages, the alert is sent in this very evaluation, unless one was sent
  within the cooldown; the same holds for failing sources, provided the delivery of the
  traffic alert did not fail before it, which ends the evaluation.\<close>

theorem alerts_spaced_and_prompt:
  assumes "evaluations es (\<lambda>_. None) st0 = (lg, cd, st)" and "d = evaluate E o1 cd st" and "c = ob_config o1"
    and "list_all (\<lambda>(_, ob, _). alc_cooldown_secs (cfg_alerts (ob_config ob)) = C) (es @ [(E, o1, id)])"
    and "sorted (concat (map (\<lambda>(_, ob, _). [ob_quota_at ob, ob_health_at ob]) (es @ [(E, o1, id)])))"
  shows "spaced C (lg @ dv_sent d)
    \<and> list_all (\<lambda>(_, _, p). quota_alert c (ob_month o1) (ob_time o1) (ss_store st) = Some p \<or> health_alert c (ob_time o1) (ob_health o1) = Some p) (dv_sent d)
    \<and> (\<forall>p. alc_enabled (cfg_alerts c) \<and> alc_webhook_url (cfg_alerts c) \<noteq> [] \<and> ae_post E (alc_webhook_url (cfg_alerts c)) p
         \<and> quota_alert c (ob_month o1) (ob_time o1) (ss_store st) = Some p
         \<and> list_all (\<lambda>(k, t, _). k = ''quota_threshold:webhook'' \<longrightarrow> secs C \<le> ob_quota_at o1 - t) lg
         \<longrightarrow> (''quota_threshold:webhook'', ob_quota_at o1, p) \<in> set (dv_sent d))
    \<and> (\<forall>p. alc_enabled (cfg_alerts c) \<and> alc_webhook_url (cfg_alerts c) \<noteq> [] \<and> ae_post E (alc_webhook_url (cfg_alerts c)) p
         \<and> health_alert c (ob_time o1) (ob_health o1) = Some p
         \<and> dv_ok (deliver_alert E (ob_quota_at o1) c (quota_alert c (ob_month o1) (ob_time o1) (ss_store st)) cd st)
         \<and> list_all (\<lambda>(k, t, _). k = ''upstream_health:webhook'' \<longrightarrow> secs C \<le> ob_health_at o1 - t) lg
         \<longrightarrow> (''upstream_health:webhook'', ob_health_at o1, p) \<in> set (dv_sent d))"
proof -
  have C: "alc_cooldown_secs (cfg_alerts c) = C" using assms(3,4) by simp
  let ?times = "\<lambda>es. concat (map (\<lambda>(_, ob, _). [ob_quota_at ob, ob_health_at ob]) es)"
  let ?q = "quota_alert c (ob_month o1) (ob_time o1) (ss_store st)" and ?h = "health_alert c (ob_time o1) (ob_health o1)"
  define now0 where "now0 = hd (?times es @ [ob_quota_at o1])"
  have times: "sorted (?times es @ [ob_quota_at o1, ob_health_at o1])" using assms(5) by simp
  note s = observations_from_first(1)[OF times now0_def] and le = observations_from_first(2)[OF times now0_def] and qh = observations_from_first(3)[OF times now0_def]
  have "remembers C now0 (\<lambda>_. None) []" by (simp add: remembers_def spaced_def)
  from evaluations_remember[OF this assms(1) _ s] have r: "remembers C (last (now0 # ?times es)) cd lg" using assms(4) by simp
  have sp: "spaced C (lg @ dv_sent d)"
    using evaluate_remembers[of o1 _ cd lg E st] r le qh C unfolding assms(2,3) remembers_def by blast
  let ?d1 = "deliver_alert E (ob_quota_at o1) c ?q cd st"
  have d1: "dv_cooldowns ?d1 ''upstream_health:webhook'' = cd ''upstream_health:webhook''"
    using alert_events(1)[of c "ob_month o1" "ob_time o1" "ss_store st"] deliver_other_key by (cases ?q) (auto simp: deliver_alert_def)
  have pay: "list_all (\<lambda>(_, _, p). ?q = Some p \<or> ?h = Some p) (dv_sent d)"
    unfolding assms(2) evaluate_def Let_def assms(3)[symmetric]
    by (auto simp: list_all_iff deliver_alert_def split: option.splits if_splits dest!: sent_payload)
  have quota: "(''quota_threshold:webhook'', ob_quota_at o1, p) \<in> set (dv_sent d)"
    if p: "alc_enabled (cfg_alerts c) \<and> alc_webhook_url (cfg_alerts c) \<noteq> [] \<and> ae_post E (alc_webhook_url (cfg_alerts c)) p \<and> ?q = Some p
      \<and> list_all (\<lambda>(k, t, _). k = ''quota_threshold:webhook'' \<longrightarrow> secs C \<le> ob_quota_at o1 - t) lg" for p
  proof -
    have "\<not> is_cooling_down cd ''quota_threshold:webhook'' (ob_quota_at o1) C" using p by (intro not_cooling[OF r]) (auto simp: list_all_iff)
    then have "(''quota_threshold:webhook'', ob_quota_at o1, p) \<in> set (dv_sent ?d1)"
      using deliver_webhook_sent[of "cfg_alerts c" E p cd "ob_quota_at o1" st] p C alert_events(1)[of c "ob_month o1" "ob_time o1" "ss_store st" p] by (simp add: deliver_alert_def)
    then show ?thesis using p unfolding assms(2) evaluate_def Let_def assms(3)[symmetric] by simp
  qed
  have health: "(''upstream_health:webhook'', ob_health_at o1, p) \<in> set (dv_sent d)"
    if p: "alc_enabled (cfg_alerts c) \<and> alc_webhook_url (cfg_alerts c) \<noteq> [] \<and> ae_post E (alc_webhook_url (cfg_alerts c)) p \<and> ?h = Some p \<and> dv_ok ?d1
      \<and> list_all (\<lambda>(k, t, _). k = ''upstream_health:webhook'' \<longrightarrow> secs C \<le> ob_health_at o1 - t) lg" for p
  proof -
    have "\<not> is_cooling_down cd ''upstream_health:webhook'' (ob_health_at o1) C" using p by (intro not_cooling[OF r]) (auto simp: list_all_iff)
    then have "\<not> is_cooling_down (dv_cooldowns ?d1) ''upstream_health:webhook'' (ob_health_at o1) C" by (simp add: is_cooling_down_def d1)
    then have "(''upstream_health:webhook'', ob_health_at o1, p) \<in> set (dv_sent (deliver_alert E (ob_health_at o1) c ?h (dv_cooldowns ?d1) (dv_settings ?d1)))"
      using deliver_webhook_sent[of "cfg_alerts c" E p "dv_cooldowns ?d1" "ob_health_at o1" "dv_settings ?d1"] p C alert_events(2)[of c "ob_time o1" "ob_health o1" p]
      by (simp add: deliver_alert_def)
    then show ?thesis using p unfolding assms(2) evaluate_def Let_def assms(3)[symmetric] by simp
  qed
  show ?thesis using sp pay quota health by blast
qed

definition alerting_config :: config where
  "alerting_config = Config_default\<lparr>cfg_quota := (cfg_quota Config_default)\<lparr>qc_enabled := False\<rparr>,
     cfg_alerts := \<lparr>alc_enabled = True, alc_webhook_url = ''https://hook.example'', alc_email_enabled = False, alc_email_recipients = [],
       alc_quota_percent = 80, alc_source_failures = 1, alc_cooldown_secs = 60\<rparr>\<rparr>"

definition npm_down :: health_tables where
  "npm_down = \<lparr>ht_sources = [(''npm'', disabled_record ''npm'' ''npm'' 0\<lparr>sr_status := ''unhealthy''\<rparr>)], ht_endpoints = []\<rparr>"

definition sample_observation :: observation where
  "sample_observation = \<lparr>ob_config = alerting_config, ob_month = ''2026-01'', ob_quota_at = 1, ob_health_at = 2, ob_time = 7, ob_health = npm_down\<rparr>"

definition open_hook :: alert_env where
  "open_hook = \<lparr>ae_vault = clear_vault, ae_post = (\<lambda>_ _. True)\<rparr>"

theorem alerts_spaced_and_prompt_witness:
  "\<exists>p. (''upstream_health:webhook'', 2, p) \<in> set (dv_sent (evaluate open_hook sample_observation (\<lambda>_. None) empty_settings)) \<and> al_value p = 1"
proof -
  have q: "quota_alert alerting_config ''2026-01'' 7 (ss_store empty_settings) = None"
    by (simp add: quota_alert_def alerting_config_def)
  have "failing_sources npm_down = 1" by (simp add: failing_sources_def npm_down_def source_health_def)
  then obtain p where h: "health_alert alerting_config 7 npm_down = Some p" "al_value p = 1"
    by (simp add: health_alert_def alerting_config_def Let_def)
  have e: "evaluations [] (\<lambda>_. None) empty_settings = ([], \<lambda>_. None, empty_settings)" by simp
  have "(''upstream_health:webhook'', 2, p) \<in> set (dv_sent (evaluate open_hook sample_observation (\<lambda>_. None) empty_settings))"
    using alerts_spaced_and_prompt[OF e refl refl, where C = 60 and ?o1.0 = sample_observation and E = open_hook] q h
    by (simp add: sample_observation_def open_hook_def deliver_alert_def alerting_config_def)
  then show ?thesis using h(2) by blast
qed

end
