(* ===== verification/Mirror_Catalog.thy ===== *)
theory Mirror_Catalog
  imports Catalog_Systems
begin

text \<open>
  The catalog of mirrors (\<open>crates/catalog/src/lib.rs\<close>): providers, targets, the sources a
  provider offers for a target, the templates of client configuration, container
  registries, and the lookups the server and the command line client make.
\<close>

section \<open>Types\<close>

datatype MirrorKind = Education | Commercial | Specialized | BuiltIn

fun MirrorKind_as_str :: "MirrorKind \<Rightarrow> string" where
  "MirrorKind_as_str Education = ''education''"
| "MirrorKind_as_str Commercial = ''commercial''"
| "MirrorKind_as_str Specialized = ''specialized''"
| "MirrorKind_as_str BuiltIn = ''builtin''"

record MirrorProvider =
  mp_code :: string
  mp_name :: string
  mp_kind :: MirrorKind
  mp_homepage :: string
  mp_speed_test_url :: "string option"
  mp_enabled :: bool

datatype SourceCategory = Language | OperatingSystem | Repository

fun SourceCategory_as_str :: "SourceCategory \<Rightarrow> string" where
  "SourceCategory_as_str Language = ''lang''"
| "SourceCategory_as_str OperatingSystem = ''os''"
| "SourceCategory_as_str Repository = ''repo''"

definition SourceCategory_parse :: "string \<Rightarrow> SourceCategory option" where
  "SourceCategory_parse v =
     (if v \<in> set [''lang'', ''language''] then Some Language
      else if v \<in> set [''os'', ''system''] then Some OperatingSystem
      else if v \<in> set [''repo'', ''repository''] then Some Repository else None)"

datatype SourceMode = ProxyAdapter | LocalConfig | TemplateOnly

fun SourceMode_as_str :: "SourceMode \<Rightarrow> string" where
  "SourceMode_as_str ProxyAdapter = ''proxy''"
| "SourceMode_as_str LocalConfig = ''local-config''"
| "SourceMode_as_str TemplateOnly = ''template''"

datatype SourceScope = UserScope | SystemScope

fun SourceScope_as_str :: "SourceScope \<Rightarrow> string" where
  "SourceScope_as_str UserScope = ''user''"
| "SourceScope_as_str SystemScope = ''system''"

record SourceTarget =
  ta_code :: string
  ta_name :: string
  ta_category :: SourceCategory
  ta_aliases :: "string list"
  ta_supported_modes :: "SourceMode list"
  ta_default_scope :: SourceScope

record TargetSource =
  ts_target_code :: string
  ts_provider_code :: string
  ts_repo_url :: string
  ts_speed_url :: "string option"
  ts_capability :: SourceMode

record SourceTemplate =
  tp_target_code :: string
  tp_os_family :: string
  tp_scope :: SourceScope
  tp_template :: string
  tp_requires_sudo :: bool

record ContainerRegistry =
  cr_code :: string
  cr_name :: string
  cr_host :: string
  cr_aliases :: "string list"
  cr_example_image :: string
  cr_legacy :: bool

section \<open>Tables\<close>

definition CONTAINER_REGISTRIES :: "ContainerRegistry list" where
  "CONTAINER_REGISTRIES = [
      \<lparr>cr_code = ''docker-hub'', cr_name = ''Docker Hub'', cr_host = ''docker.io'', cr_aliases = [''registry-1.docker.io''], cr_example_image = ''nginx:latest'', cr_legacy = False\<rparr>,
      \<lparr>cr_code = ''ghcr'', cr_name = ''GitHub Container Registry'', cr_host = ''ghcr.io'', cr_aliases = [], cr_example_image = ''ghcr.io/astral-sh/uv:latest'', cr_legacy = False\<rparr>,
      \<lparr>cr_code = ''quay'', cr_name = ''Quay'', cr_host = ''quay.io'', cr_aliases = [], cr_example_image = ''quay.io/prometheus/prometheus:latest'', cr_legacy = False\<rparr>,
      \<lparr>cr_code = ''kubernetes'', cr_name = ''Kubernetes Registry'', cr_host = ''registry.k8s.io'', cr_aliases = [''k8s.gcr.io''], cr_example_image = ''registry.k8s.io/pause:3.10'', cr_legacy = False\<rparr>,
      \<lparr>cr_code = ''gcr'', cr_name = ''Google Container Registry'', cr_host = ''gcr.io'', cr_aliases = [], cr_example_image = ''gcr.io/distroless/static-debian12:nonroot'', cr_legacy = False\<rparr>,
      \<lparr>cr_code = ''mcr'', cr_name = ''Microsoft Container Registry'', cr_host = ''mcr.microsoft.com'', cr_aliases = [], cr_example_image = ''mcr.microsoft.com/dotnet/runtime:8.0'', cr_legacy = False\<rparr>,
      \<lparr>cr_code = ''elastic'', cr_name = ''Elastic Container Registry'', cr_host = ''docker.elastic.co'', cr_aliases = [], cr_example_image = ''docker.elastic.co/elasticsearch/elasticsearch:8.13.4'', cr_legacy = False\<rparr>,
      \<lparr>cr_code = ''gitlab'', cr_name = ''GitLab Container Registry'', cr_host = ''registry.gitlab.com'', cr_aliases = [], cr_example_image = ''registry.gitlab.com/gitlab-org/gitlab-runner/gitlab-runner-helper:x86_64-latest'', cr_legacy = False\<rparr>,
      \<lparr>cr_code = ''nvcr'', cr_name = ''NVIDIA NGC Container Registry'', cr_host = ''nvcr.io'', cr_aliases = [], cr_example_image = ''nvcr.io/nvidia/cuda:12.6.0-base-ubuntu22.04'', cr_legacy = False\<rparr>,
      \<lparr>cr_code = ''oracle'', cr_name = ''Oracle Container Registry'', cr_host = ''container-registry.oracle.com'', cr_aliases = [], cr_example_image = ''container-registry.oracle.com/os/oraclelinux:9-slim'', cr_legacy = False\<rparr>,
      \<lparr>cr_code = ''kubernetes-legacy'', cr_name = ''Kubernetes legacy alias'', cr_host = ''k8s.gcr.io'', cr_aliases = [], cr_example_image = ''k8s.gcr.io/pause:3.8'', cr_legacy = True\<rparr>]"

definition MIRROR_PROVIDERS :: "MirrorProvider list" where
  "MIRROR_PROVIDERS = [
      \<lparr>mp_code = ''mirrorproxy'', mp_name = ''MirrorProxy'', mp_kind = BuiltIn, mp_homepage = ''http://127.0.0.1:3000'', mp_speed_test_url = None, mp_enabled = True\<rparr>,
      \<lparr>mp_code = ''tuna'', mp_name = ''TUNA'', mp_kind = Education, mp_homepage = ''https://mirrors.tuna.tsinghua.edu.cn'', mp_speed_test_url = Some ''https://mirrors.tuna.tsinghua.edu.cn/static/tunasync.json'', mp_enabled = True\<rparr>,
      \<lparr>mp_code = ''ustc'', mp_name = ''USTC'', mp_kind = Education, mp_homepage = ''https://mirrors.ustc.edu.cn'', mp_speed_test_url = Some ''https://mirrors.ustc.edu.cn/'', mp_enabled = True\<rparr>,
      \<lparr>mp_code = ''sjtu'', mp_name = ''SJTUG'', mp_kind = Education, mp_homepage = ''https://mirror.sjtu.edu.cn'', mp_speed_test_url = Some ''https://mirror.sjtu.edu.cn/'', mp_enabled = True\<rparr>,
      \<lparr>mp_code = ''bfsu'', mp_name = ''BFSU'', mp_kind = Education, mp_homepage = ''https://mirrors.bfsu.edu.cn'', mp_speed_test_url = Some ''https://mirrors.bfsu.edu.cn/'', mp_enabled = True\<rparr>,
      \<lparr>mp_code = ''nju'', mp_name = ''NJU'', mp_kind = Education, mp_homepage = ''https://mirrors.nju.edu.cn'', mp_speed_test_url = Some ''https://mirrors.nju.edu.cn/'', mp_enabled = True\<rparr>,
      \<lparr>mp_code = ''aliyun'', mp_name = ''Aliyun'', mp_kind = Commercial, mp_homepage = ''https://developer.aliyun.com/mirror'', mp_speed_test_url = Some ''https://mirrors.aliyun.com'', mp_enabled = True\<rparr>,
      \<lparr>mp_code = ''tencent'', mp_name = ''Tencent'', mp_kind = Commercial, mp_homepage = ''https://mirrors.cloud.tencent.com'', mp_speed_test_url = Some ''https://mirrors.cloud.tencent.com'', mp_enabled = True\<rparr>,
      \<lparr>mp_code = ''huawei'', mp_name = ''Huawei Cloud'', mp_kind = Commercial, mp_homepage = ''https://mirrors.huaweicloud.com'', mp_speed_test_url = Some ''https://mirrors.huaweicloud.com'', mp_enabled = True\<rparr>,
      \<lparr>mp_code = ''npmmirror'', mp_name = ''npmmirror'', mp_kind = Specialized, mp_homepage = ''https://npmmirror.com'', mp_speed_test_url = Some ''https://registry.npmmirror.com'', mp_enabled = True\<rparr>,
      \<lparr>mp_code = ''goproxy-cn'', mp_name = ''goproxy.cn'', mp_kind = Specialized, mp_homepage = ''https://goproxy.cn'', mp_speed_test_url = Some ''https://goproxy.cn'', mp_enabled = True\<rparr>,
      \<lparr>mp_code = ''ruby-china'', mp_name = ''Ruby China'', mp_kind = Specialized, mp_homepage = ''https://gems.ruby-china.com'', mp_speed_test_url = Some ''https://gems.ruby-china.com'', mp_enabled = True\<rparr>]"

text \<open>The macro \<open>template_only_os_target\<close>.\<close>

definition os_target :: "string \<Rightarrow> string \<Rightarrow> string list \<Rightarrow> SourceMode list \<Rightarrow> SourceTarget" where
  "os_target code name aliases modes = \<lparr>ta_code = code, ta_name = name, ta_category = OperatingSystem, ta_aliases = aliases,
     ta_supported_modes = modes, ta_default_scope = SystemScope\<rparr>"

definition SOURCE_TARGETS :: "SourceTarget list" where
  "SOURCE_TARGETS = [
      \<lparr>ta_code = ''npm'', ta_name = ''npm / yarn / pnpm'', ta_category = Language, ta_aliases = [''node'', ''yarn'', ''pnpm''], ta_supported_modes = [ProxyAdapter, LocalConfig], ta_default_scope = UserScope\<rparr>,
      \<lparr>ta_code = ''pip'', ta_name = ''Python pip'', ta_category = Language, ta_aliases = [''python'', ''pypi''], ta_supported_modes = [ProxyAdapter, LocalConfig], ta_default_scope = UserScope\<rparr>,
      \<lparr>ta_code = ''cargo'', ta_name = ''Rust Cargo'', ta_category = Language, ta_aliases = [''rust'', ''crates''], ta_supported_modes = [ProxyAdapter, LocalConfig], ta_default_scope = UserScope\<rparr>,
      \<lparr>ta_code = ''go'', ta_name = ''Go modules'', ta_category = Language, ta_aliases = [''golang'', ''goproxy''], ta_supported_modes = [ProxyAdapter, LocalConfig], ta_default_scope = UserScope\<rparr>,
      \<lparr>ta_code = ''composer'', ta_name = ''Composer / Packagist'', ta_category = Language, ta_aliases = [''php'', ''packagist''], ta_supported_modes = [ProxyAdapter, LocalConfig], ta_default_scope = UserScope\<rparr>,
      \<lparr>ta_code = ''docker'', ta_name = ''Docker / OCI'', ta_category = Repository, ta_aliases = [''oci'', ''container''], ta_supported_modes = [ProxyAdapter, LocalConfig], ta_default_scope = SystemScope\<rparr>,
      \<lparr>ta_code = ''github'', ta_name = ''GitHub'', ta_category = Repository, ta_aliases = [''git''], ta_supported_modes = [ProxyAdapter, LocalConfig], ta_default_scope = UserScope\<rparr>,
      \<lparr>ta_code = ''apt'', ta_name = ''APT'', ta_category = OperatingSystem, ta_aliases = [''debian'', ''ubuntu''], ta_supported_modes = [ProxyAdapter, LocalConfig, TemplateOnly], ta_default_scope = SystemScope\<rparr>,
      \<lparr>ta_code = ''dnf'', ta_name = ''YUM / DNF'', ta_category = OperatingSystem, ta_aliases = [''yum'', ''fedora'', ''rocky'', ''alma''], ta_supported_modes = [ProxyAdapter, LocalConfig, TemplateOnly], ta_default_scope = SystemScope\<rparr>,
      \<lparr>ta_code = ''pacman'', ta_name = ''pacman'', ta_category = OperatingSystem, ta_aliases = [''arch'', ''manjaro''], ta_supported_modes = [ProxyAdapter, LocalConfig, TemplateOnly], ta_default_scope = SystemScope\<rparr>,
      \<lparr>ta_code = ''homebrew'', ta_name = ''Homebrew'', ta_category = Repository, ta_aliases = [''brew''], ta_supported_modes = [ProxyAdapter, LocalConfig, TemplateOnly], ta_default_scope = UserScope\<rparr>,
      \<lparr>ta_code = ''maven'', ta_name = ''Maven'', ta_category = Language, ta_aliases = [''java''], ta_supported_modes = [ProxyAdapter, LocalConfig], ta_default_scope = UserScope\<rparr>,
      \<lparr>ta_code = ''rubygems'', ta_name = ''RubyGems'', ta_category = Language, ta_aliases = [''ruby'', ''gem''], ta_supported_modes = [ProxyAdapter, LocalConfig], ta_default_scope = UserScope\<rparr>,
      \<lparr>ta_code = ''nuget'', ta_name = ''NuGet'', ta_category = Language, ta_aliases = [''dotnet''], ta_supported_modes = [ProxyAdapter, LocalConfig], ta_default_scope = UserScope\<rparr>,
      \<lparr>ta_code = ''cpan'', ta_name = ''Perl CPAN'', ta_category = Language, ta_aliases = [''perl'', ''cpanm''], ta_supported_modes = [ProxyAdapter, LocalConfig], ta_default_scope = UserScope\<rparr>,
      \<lparr>ta_code = ''cran'', ta_name = ''R CRAN'', ta_category = Language, ta_aliases = [''r'', ''r-project''], ta_supported_modes = [ProxyAdapter, LocalConfig], ta_default_scope = UserScope\<rparr>,
      \<lparr>ta_code = ''hackage'', ta_name = ''Haskell Hackage'', ta_category = Language, ta_aliases = [''haskell'', ''cabal'', ''stack''], ta_supported_modes = [ProxyAdapter, LocalConfig], ta_default_scope = UserScope\<rparr>,
      \<lparr>ta_code = ''clojars'', ta_name = ''Clojure Clojars'', ta_category = Language, ta_aliases = [''clojure'', ''leiningen''], ta_supported_modes = [ProxyAdapter, LocalConfig], ta_default_scope = UserScope\<rparr>,
      \<lparr>ta_code = ''pub'', ta_name = ''Dart / Flutter Pub'', ta_category = Language, ta_aliases = [''dart'', ''flutter''], ta_supported_modes = [ProxyAdapter, TemplateOnly], ta_default_scope = UserScope\<rparr>,
      \<lparr>ta_code = ''huggingface'', ta_name = ''Hugging Face'', ta_category = Repository, ta_aliases = [''hf'', ''hugging-face''], ta_supported_modes = [ProxyAdapter, TemplateOnly], ta_default_scope = UserScope\<rparr>,
      \<lparr>ta_code = ''anaconda'', ta_name = ''Anaconda'', ta_category = Repository, ta_aliases = [''conda''], ta_supported_modes = [ProxyAdapter, LocalConfig], ta_default_scope = UserScope\<rparr>,
      \<lparr>ta_code = ''poetry'', ta_name = ''Python Poetry'', ta_category = Language, ta_aliases = [''python-poetry''], ta_supported_modes = [ProxyAdapter, TemplateOnly], ta_default_scope = UserScope\<rparr>,
      \<lparr>ta_code = ''pdm'', ta_name = ''Python PDM'', ta_category = Language, ta_aliases = [], ta_supported_modes = [ProxyAdapter, LocalConfig], ta_default_scope = UserScope\<rparr>,
      \<lparr>ta_code = ''uv'', ta_name = ''Python uv'', ta_category = Language, ta_aliases = [], ta_supported_modes = [ProxyAdapter, LocalConfig], ta_default_scope = UserScope\<rparr>,
      \<lparr>ta_code = ''bun'', ta_name = ''Bun'', ta_category = Language, ta_aliases = [], ta_supported_modes = [ProxyAdapter, LocalConfig], ta_default_scope = UserScope\<rparr>,
      \<lparr>ta_code = ''nvm'', ta_name = ''Node Version Manager'', ta_category = Language, ta_aliases = [], ta_supported_modes = [ProxyAdapter, TemplateOnly], ta_default_scope = UserScope\<rparr>,
      \<lparr>ta_code = ''lua'', ta_name = ''LuaRocks'', ta_category = Language, ta_aliases = [''luarocks''], ta_supported_modes = [ProxyAdapter, LocalConfig], ta_default_scope = UserScope\<rparr>,
      \<lparr>ta_code = ''rustup'', ta_name = ''Rustup'', ta_category = Language, ta_aliases = [], ta_supported_modes = [ProxyAdapter, TemplateOnly], ta_default_scope = UserScope\<rparr>,
      \<lparr>ta_code = ''ocaml'', ta_name = ''OCaml opam'', ta_category = Language, ta_aliases = [''opam''], ta_supported_modes = [ProxyAdapter, TemplateOnly], ta_default_scope = UserScope\<rparr>,
      \<lparr>ta_code = ''julia'', ta_name = ''Julia'', ta_category = Language, ta_aliases = [], ta_supported_modes = [ProxyAdapter, TemplateOnly], ta_default_scope = UserScope\<rparr>,
      \<lparr>ta_code = ''alpine'', ta_name = ''Alpine apk'', ta_category = OperatingSystem, ta_aliases = [''apk''], ta_supported_modes = [ProxyAdapter, LocalConfig, TemplateOnly], ta_default_scope = SystemScope\<rparr>,
      \<lparr>ta_code = ''zypper'', ta_name = ''openSUSE zypper'', ta_category = OperatingSystem, ta_aliases = [''opensuse''], ta_supported_modes = [ProxyAdapter, LocalConfig, TemplateOnly], ta_default_scope = SystemScope\<rparr>,
      \<lparr>ta_code = ''xbps'', ta_name = ''Void xbps'', ta_category = OperatingSystem, ta_aliases = [''void''], ta_supported_modes = [ProxyAdapter, LocalConfig, TemplateOnly], ta_default_scope = SystemScope\<rparr>,
      \<lparr>ta_code = ''gentoo'', ta_name = ''Gentoo'', ta_category = OperatingSystem, ta_aliases = [], ta_supported_modes = [ProxyAdapter, LocalConfig, TemplateOnly], ta_default_scope = SystemScope\<rparr>,
      \<lparr>ta_code = ''freebsd'', ta_name = ''FreeBSD pkg'', ta_category = OperatingSystem, ta_aliases = [''pkg''], ta_supported_modes = [ProxyAdapter, TemplateOnly], ta_default_scope = SystemScope\<rparr>,
      \<lparr>ta_code = ''openwrt'', ta_name = ''OpenWrt opkg'', ta_category = OperatingSystem, ta_aliases = [''opkg''], ta_supported_modes = [ProxyAdapter, TemplateOnly], ta_default_scope = SystemScope\<rparr>,
      \<lparr>ta_code = ''termux'', ta_name = ''Termux'', ta_category = OperatingSystem, ta_aliases = [], ta_supported_modes = [ProxyAdapter, TemplateOnly], ta_default_scope = UserScope\<rparr>,
      os_target ''linuxmint'' ''Linux Mint'' [''mint''] [ProxyAdapter, TemplateOnly],
      os_target ''kali'' ''Kali Linux'' [] [ProxyAdapter, TemplateOnly],
      os_target ''msys2'' ''MSYS2'' [] [ProxyAdapter, TemplateOnly],
      os_target ''manjaro'' ''Manjaro'' [] [ProxyAdapter, TemplateOnly],
      os_target ''rocky'' ''Rocky Linux'' [''rockylinux''] [ProxyAdapter, TemplateOnly],
      os_target ''alma'' ''AlmaLinux'' [''almalinux''] [ProxyAdapter, TemplateOnly],
      os_target ''solus'' ''Solus'' [] [ProxyAdapter, TemplateOnly],
      os_target ''trisquel'' ''Trisquel'' [] [ProxyAdapter, TemplateOnly],
      os_target ''linuxlite'' ''Linux Lite'' [] [ProxyAdapter, TemplateOnly],
      os_target ''ros'' ''ROS 2'' [''ros2''] [ProxyAdapter, TemplateOnly],
      os_target ''raspios'' ''Raspberry Pi OS'' [''raspberrypi''] [ProxyAdapter, TemplateOnly],
      os_target ''armbian'' ''Armbian'' [] [ProxyAdapter, TemplateOnly],
      os_target ''openeuler'' ''openEuler'' [] [ProxyAdapter, TemplateOnly],
      os_target ''anolis'' ''Anolis OS'' [] [ProxyAdapter, TemplateOnly],
      os_target ''deepin'' ''deepin'' [] [ProxyAdapter, TemplateOnly],
      os_target ''netbsd'' ''NetBSD'' [] [ProxyAdapter, TemplateOnly],
      os_target ''openbsd'' ''OpenBSD'' [] [ProxyAdapter, TemplateOnly],
      \<lparr>ta_code = ''winget'', ta_name = ''WinGet'', ta_category = Repository, ta_aliases = [], ta_supported_modes = [ProxyAdapter, TemplateOnly], ta_default_scope = UserScope\<rparr>,
      \<lparr>ta_code = ''cocoapods'', ta_name = ''CocoaPods'', ta_category = Repository, ta_aliases = [''pods''], ta_supported_modes = [ProxyAdapter, TemplateOnly], ta_default_scope = UserScope\<rparr>,
      \<lparr>ta_code = ''flatpak'', ta_name = ''Flatpak'', ta_category = Repository, ta_aliases = [], ta_supported_modes = [ProxyAdapter, TemplateOnly], ta_default_scope = UserScope\<rparr>,
      \<lparr>ta_code = ''nix'', ta_name = ''Nix'', ta_category = Repository, ta_aliases = [], ta_supported_modes = [ProxyAdapter, LocalConfig], ta_default_scope = UserScope\<rparr>,
      \<lparr>ta_code = ''guix'', ta_name = ''GNU Guix'', ta_category = Repository, ta_aliases = [], ta_supported_modes = [ProxyAdapter, TemplateOnly], ta_default_scope = UserScope\<rparr>,
      \<lparr>ta_code = ''elpa'', ta_name = ''Emacs ELPA'', ta_category = Repository, ta_aliases = [''emacs''], ta_supported_modes = [ProxyAdapter, TemplateOnly], ta_default_scope = UserScope\<rparr>,
      \<lparr>ta_code = ''texlive'', ta_name = ''TeX Live'', ta_category = Repository, ta_aliases = [''tex''], ta_supported_modes = [ProxyAdapter, TemplateOnly], ta_default_scope = UserScope\<rparr>]"

text \<open>The entries of the built-in provider, which serves a target through an adapter.\<close>

definition adapter_source :: "string \<Rightarrow> string \<Rightarrow> TargetSource" where
  "adapter_source target url = \<lparr>ts_target_code = target, ts_provider_code = ''mirrorproxy'', ts_repo_url = url, ts_speed_url = None,
     ts_capability = ProxyAdapter\<rparr>"

definition TARGET_SOURCES :: "TargetSource list" where
  "TARGET_SOURCES = [
      adapter_source ''julia'' ''/julia/'',
      adapter_source ''poetry'' ''/pypi/simple/'',
      adapter_source ''uv'' ''/pypi/simple/'',
      adapter_source ''pdm'' ''/pypi/simple/'',
      adapter_source ''bun'' ''/npm/'',
      adapter_source ''nvm'' ''/nvm/'',
      adapter_source ''ocaml'' ''/opam/'',
      adapter_source ''lua'' ''/luarocks/'',
      adapter_source ''rustup'' ''/rustup'',
      adapter_source ''cocoapods'' ''/cocoapods/'',
      adapter_source ''apt'' ''/os'',
      adapter_source ''dnf'' ''/os'',
      adapter_source ''pacman'' ''/os'',
      adapter_source ''kali'' ''/os/kali/'',
      adapter_source ''rocky'' ''/os/rocky/'',
      adapter_source ''alma'' ''/os/alma/'',
      adapter_source ''manjaro'' ''/os/manjaro/'',
      adapter_source ''msys2'' ''/os/msys2/'',
      adapter_source ''raspios'' ''/os/raspios/'',
      adapter_source ''armbian'' ''/os/armbian/'',
      adapter_source ''openeuler'' ''/os/openeuler/'',
      adapter_source ''anolis'' ''/os/anolis/'',
      adapter_source ''deepin'' ''/os/deepin/'',
      adapter_source ''linuxmint'' ''/os/linuxmint/'',
      adapter_source ''solus'' ''/os/solus/'',
      adapter_source ''trisquel'' ''/os/trisquel/'',
      adapter_source ''linuxlite'' ''/os/linuxlite/'',
      adapter_source ''ros'' ''/os/ros/'',
      adapter_source ''netbsd'' ''/os/netbsd/'',
      adapter_source ''openbsd'' ''/os/openbsd/'',
      adapter_source ''alpine'' ''/os/alpine/'',
      adapter_source ''openwrt'' ''/os/openwrt/'',
      adapter_source ''xbps'' ''/os/void/'',
      adapter_source ''zypper'' ''/os/opensuse/'',
      adapter_source ''gentoo'' ''/os/gentoo/'',
      adapter_source ''freebsd'' ''/os/freebsd/'',
      adapter_source ''termux'' ''/os/termux/'',
      adapter_source ''flatpak'' ''/flatpak/'',
      adapter_source ''nix'' ''/nix/'',
      adapter_source ''guix'' ''/guix/'',
      adapter_source ''elpa'' ''/elpa/'',
      adapter_source ''texlive'' ''/texlive/'',
      adapter_source ''winget'' ''/winget/cache'',
      adapter_source ''huggingface'' ''/huggingface'',
      adapter_source ''anaconda'' ''/anaconda/'',
      adapter_source ''npm'' ''/npm/'',
      adapter_source ''pip'' ''/pypi/simple/'',
      adapter_source ''cargo'' ''/crates-index/'',
      adapter_source ''go'' ''/goproxy/'',
      adapter_source ''composer'' ''/composer/'',
      adapter_source ''maven'' ''/maven/'',
      adapter_source ''rubygems'' ''/rubygems/'',
      adapter_source ''nuget'' ''/nuget/v3/index.json'',
      adapter_source ''cpan'' ''/cpan/'',
      adapter_source ''cran'' ''/cran/'',
      adapter_source ''hackage'' ''/hackage/'',
      adapter_source ''clojars'' ''/clojars/'',
      adapter_source ''pub'' ''/pub/'',
      adapter_source ''docker'' ''/v2/'',
      adapter_source ''homebrew'' ''/homebrew'',
      adapter_source ''github'' ''/https://github.com/'',
      \<lparr>ts_target_code = ''npm'', ts_provider_code = ''npmmirror'', ts_repo_url = ''https://registry.npmmirror.com'', ts_speed_url = Some ''https://registry.npmmirror.com'', ts_capability = LocalConfig\<rparr>,
      \<lparr>ts_target_code = ''go'', ts_provider_code = ''goproxy-cn'', ts_repo_url = ''https://goproxy.cn,direct'', ts_speed_url = Some ''https://goproxy.cn'', ts_capability = LocalConfig\<rparr>,
      \<lparr>ts_target_code = ''pip'', ts_provider_code = ''tuna'', ts_repo_url = ''https://pypi.tuna.tsinghua.edu.cn/simple'', ts_speed_url = Some ''https://pypi.tuna.tsinghua.edu.cn/simple'', ts_capability = LocalConfig\<rparr>,
      \<lparr>ts_target_code = ''cargo'', ts_provider_code = ''ustc'', ts_repo_url = ''sparse+https://mirrors.ustc.edu.cn/crates.io-index/'', ts_speed_url = Some ''https://mirrors.ustc.edu.cn/crates.io-index/'', ts_capability = LocalConfig\<rparr>,
      \<lparr>ts_target_code = ''apt'', ts_provider_code = ''tuna'', ts_repo_url = ''https://mirrors.tuna.tsinghua.edu.cn'', ts_speed_url = Some ''https://mirrors.tuna.tsinghua.edu.cn/ubuntu/'', ts_capability = TemplateOnly\<rparr>,
      \<lparr>ts_target_code = ''dnf'', ts_provider_code = ''aliyun'', ts_repo_url = ''https://mirrors.aliyun.com'', ts_speed_url = Some ''https://mirrors.aliyun.com/fedora/'', ts_capability = TemplateOnly\<rparr>,
      \<lparr>ts_target_code = ''pacman'', ts_provider_code = ''ustc'', ts_repo_url = ''https://mirrors.ustc.edu.cn'', ts_speed_url = Some ''https://mirrors.ustc.edu.cn/archlinux/'', ts_capability = TemplateOnly\<rparr>,
      \<lparr>ts_target_code = ''homebrew'', ts_provider_code = ''tuna'', ts_repo_url = ''https://mirrors.tuna.tsinghua.edu.cn/git/homebrew'', ts_speed_url = Some ''https://mirrors.tuna.tsinghua.edu.cn/homebrew-bottles/'', ts_capability = TemplateOnly\<rparr>,
      \<lparr>ts_target_code = ''rubygems'', ts_provider_code = ''ruby-china'', ts_repo_url = ''https://gems.ruby-china.com'', ts_speed_url = Some ''https://gems.ruby-china.com'', ts_capability = TemplateOnly\<rparr>]"

definition SOURCE_TEMPLATES :: "SourceTemplate list" where
  "SOURCE_TEMPLATES = [
      \<lparr>tp_target_code = ''solus'', tp_os_family = ''solus'', tp_scope = SystemScope, tp_template = ''sudo eopkg add-repo mirrorproxy {repo_url}polaris/eopkg-index.xml.xz'', tp_requires_sudo = True\<rparr>,
      \<lparr>tp_target_code = ''trisquel'', tp_os_family = ''debian'', tp_scope = SystemScope, tp_template = ''deb {repo_url} <trisquel-codename> main'', tp_requires_sudo = True\<rparr>,
      \<lparr>tp_target_code = ''linuxlite'', tp_os_family = ''ubuntu'', tp_scope = SystemScope, tp_template = ''deb {repo_url} <linux-lite-codename> main'', tp_requires_sudo = True\<rparr>,
      \<lparr>tp_target_code = ''ros'', tp_os_family = ''ubuntu'', tp_scope = SystemScope, tp_template = ''deb {repo_url} <ubuntu-codename> main'', tp_requires_sudo = True\<rparr>,
      \<lparr>tp_target_code = ''winget'', tp_os_family = ''windows'', tp_scope = UserScope, tp_template = ''winget source add --name mirrorproxy --arg {repo_url} --type Microsoft.PreIndexed.Package --accept-source-agreements'', tp_requires_sudo = True\<rparr>,
      \<lparr>tp_target_code = ''linuxmint'', tp_os_family = ''linux'', tp_scope = SystemScope, tp_template = ''deb {repo_url} <mint-codename> main upstream import backport'', tp_requires_sudo = True\<rparr>,
      \<lparr>tp_target_code = ''npm'', tp_os_family = ''any'', tp_scope = UserScope, tp_template = ''npm config set registry {repo_url}'', tp_requires_sudo = False\<rparr>,
      \<lparr>tp_target_code = ''bun'', tp_os_family = ''any'', tp_scope = UserScope, tp_template = (''[install]'' @ [CHR 0x0A] @ ''registry = '' @ [CHR 0x22] @ ''{repo_url}'' @ [CHR 0x22]), tp_requires_sudo = False\<rparr>,
      \<lparr>tp_target_code = ''pip'', tp_os_family = ''any'', tp_scope = UserScope, tp_template = ''pip config set global.index-url {repo_url}'', tp_requires_sudo = False\<rparr>,
      \<lparr>tp_target_code = ''pdm'', tp_os_family = ''any'', tp_scope = UserScope, tp_template = ''pdm config pypi.url {repo_url}'', tp_requires_sudo = False\<rparr>,
      \<lparr>tp_target_code = ''uv'', tp_os_family = ''any'', tp_scope = UserScope, tp_template = ''UV_DEFAULT_INDEX={repo_url} uv pip install <package>'', tp_requires_sudo = False\<rparr>,
      \<lparr>tp_target_code = ''julia'', tp_os_family = ''linux'', tp_scope = UserScope, tp_template = ''export JULIA_PKG_SERVER={repo_url}'', tp_requires_sudo = False\<rparr>,
      \<lparr>tp_target_code = ''poetry'', tp_os_family = ''linux'', tp_scope = UserScope, tp_template = ''poetry source add --priority=primary mirrorproxy {repo_url}'', tp_requires_sudo = False\<rparr>,
      \<lparr>tp_target_code = ''cargo'', tp_os_family = ''any'', tp_scope = UserScope, tp_template = (''[source.crates-io]'' @ [CHR 0x0A] @ ''replace-with = '' @ [CHR 0x22] @ ''mirrorproxy'' @ [CHR 0x22, CHR 0x0A, CHR 0x0A] @ ''[source.mirrorproxy]'' @ [CHR 0x0A] @ ''registry = '' @ [CHR 0x22] @ ''{repo_url}'' @ [CHR 0x22]), tp_requires_sudo = False\<rparr>,
      \<lparr>tp_target_code = ''github'', tp_os_family = ''any'', tp_scope = UserScope, tp_template = (''git config --global --add url.'' @ [CHR 0x22] @ ''{repo_url}'' @ [CHR 0x22] @ ''.insteadOf https://github.com/''), tp_requires_sudo = False\<rparr>,
      \<lparr>tp_target_code = ''go'', tp_os_family = ''any'', tp_scope = UserScope, tp_template = ''go env -w GOPROXY={repo_url},direct'', tp_requires_sudo = False\<rparr>,
      \<lparr>tp_target_code = ''composer'', tp_os_family = ''any'', tp_scope = UserScope, tp_template = ''composer config repo.packagist composer {repo_url}'', tp_requires_sudo = False\<rparr>,
      \<lparr>tp_target_code = ''maven'', tp_os_family = ''any'', tp_scope = UserScope, tp_template = (''<settings>'' @ [CHR 0x0A] @ ''  <mirrors>'' @ [CHR 0x0A] @ ''    <mirror>'' @ [CHR 0x0A] @ ''      <id>mirrorproxy</id>'' @ [CHR 0x0A] @ ''      <name>MirrorProxy Maven Central</name>'' @ [CHR 0x0A] @ ''      <url>{repo_url}</url>'' @ [CHR 0x0A] @ ''      <mirrorOf>central</mirrorOf>'' @ [CHR 0x0A] @ ''    </mirror>'' @ [CHR 0x0A] @ ''  </mirrors>'' @ [CHR 0x0A] @ ''</settings>''), tp_requires_sudo = False\<rparr>,
      \<lparr>tp_target_code = ''rubygems'', tp_os_family = ''any'', tp_scope = UserScope, tp_template = (''---'' @ [CHR 0x0A] @ '':sources:'' @ [CHR 0x0A] @ ''- {repo_url}''), tp_requires_sudo = False\<rparr>,
      \<lparr>tp_target_code = ''rustup'', tp_os_family = ''linux'', tp_scope = UserScope, tp_template = (''export RUSTUP_DIST_SERVER={repo_url}'' @ [CHR 0x0A] @ ''export RUSTUP_UPDATE_ROOT={repo_url}/rustup''), tp_requires_sudo = False\<rparr>,
      \<lparr>tp_target_code = ''nuget'', tp_os_family = ''any'', tp_scope = UserScope, tp_template = (''<?xml version='' @ [CHR 0x22] @ ''1.0'' @ [CHR 0x22] @ '' encoding='' @ [CHR 0x22] @ ''utf-8'' @ [CHR 0x22] @ ''?>'' @ [CHR 0x0A] @ ''<configuration>'' @ [CHR 0x0A] @ ''  <packageSources>'' @ [CHR 0x0A] @ ''    <clear />'' @ [CHR 0x0A] @ ''    <add key='' @ [CHR 0x22] @ ''mirrorproxy'' @ [CHR 0x22] @ '' value='' @ [CHR 0x22] @ ''{repo_url}'' @ [CHR 0x22] @ '' protocolVersion='' @ [CHR 0x22] @ ''3'' @ [CHR 0x22] @ '' />'' @ [CHR 0x0A] @ ''  </packageSources>'' @ [CHR 0x0A] @ ''</configuration>''), tp_requires_sudo = False\<rparr>,
      \<lparr>tp_target_code = ''cpan'', tp_os_family = ''any'', tp_scope = UserScope, tp_template = ''cpanm --mirror {repo_url} --mirror-only <module>'', tp_requires_sudo = False\<rparr>,
      \<lparr>tp_target_code = ''cran'', tp_os_family = ''any'', tp_scope = UserScope, tp_template = (''options(repos = c(CRAN = '' @ [CHR 0x22] @ ''{repo_url}'' @ [CHR 0x22] @ ''))''), tp_requires_sudo = False\<rparr>,
      \<lparr>tp_target_code = ''hackage'', tp_os_family = ''any'', tp_scope = UserScope, tp_template = (''repository hackage.haskell.org'' @ [CHR 0x0A] @ ''  url: {repo_url}'' @ [CHR 0x0A] @ ''  secure: True''), tp_requires_sudo = False\<rparr>,
      \<lparr>tp_target_code = ''lua'', tp_os_family = ''linux'', tp_scope = UserScope, tp_template = ''luarocks install --server={repo_url} <module>'', tp_requires_sudo = False\<rparr>,
      \<lparr>tp_target_code = ''nvm'', tp_os_family = ''linux'', tp_scope = UserScope, tp_template = ''export NVM_NODEJS_ORG_MIRROR={repo_url}'', tp_requires_sudo = False\<rparr>,
      \<lparr>tp_target_code = ''ocaml'', tp_os_family = ''linux'', tp_scope = UserScope, tp_template = ''opam repository set-url default {repo_url}'', tp_requires_sudo = False\<rparr>,
      \<lparr>tp_target_code = ''clojars'', tp_os_family = ''any'', tp_scope = UserScope, tp_template = (''{:mvn/repos {'' @ [CHR 0x22] @ ''clojars'' @ [CHR 0x22] @ '' {:url '' @ [CHR 0x22] @ ''{repo_url}'' @ [CHR 0x22] @ ''}}}''), tp_requires_sudo = False\<rparr>,
      \<lparr>tp_target_code = ''pub'', tp_os_family = ''any'', tp_scope = UserScope, tp_template = ''PUB_HOSTED_URL={repo_url} flutter pub get'', tp_requires_sudo = False\<rparr>,
      \<lparr>tp_target_code = ''huggingface'', tp_os_family = ''any'', tp_scope = UserScope, tp_template = (''HF_ENDPOINT='' @ [CHR 0x27] @ ''{repo_url}'' @ [CHR 0x27] @ '' HF_HUB_DISABLE_XET=1 hf download gpt2 config.json''), tp_requires_sudo = False\<rparr>,
      \<lparr>tp_target_code = ''anaconda'', tp_os_family = ''any'', tp_scope = UserScope, tp_template = (''channels:'' @ [CHR 0x0A] @ ''  - {repo_url}main'' @ [CHR 0x0A] @ ''  - defaults''), tp_requires_sudo = False\<rparr>,
      \<lparr>tp_target_code = ''docker'', tp_os_family = ''any'', tp_scope = UserScope, tp_template = ''docker pull {repo_url}/nginx'', tp_requires_sudo = False\<rparr>,
      \<lparr>tp_target_code = ''homebrew'', tp_os_family = ''macos'', tp_scope = UserScope, tp_template = ''export HOMEBREW_BOTTLE_DOMAIN={repo_url}'', tp_requires_sudo = False\<rparr>,
      \<lparr>tp_target_code = ''guix'', tp_os_family = ''any'', tp_scope = UserScope, tp_template = ''guix build --substitute-urls={repo_url} <package>'', tp_requires_sudo = False\<rparr>,
      \<lparr>tp_target_code = ''nix'', tp_os_family = ''linux'', tp_scope = UserScope, tp_template = ''substituters = {repo_url}'', tp_requires_sudo = False\<rparr>,
      \<lparr>tp_target_code = ''apt'', tp_os_family = ''debian'', tp_scope = SystemScope, tp_template = ''Use {repo_url} as the base URL in /etc/apt/sources.list for the current distribution codename.'', tp_requires_sudo = True\<rparr>,
      \<lparr>tp_target_code = ''alpine'', tp_os_family = ''alpine'', tp_scope = SystemScope, tp_template = ''Use {repo_url}<release>/main and {repo_url}<release>/community in /etc/apk/repositories.'', tp_requires_sudo = True\<rparr>,
      \<lparr>tp_target_code = ''xbps'', tp_os_family = ''void'', tp_scope = SystemScope, tp_template = ''repository={repo_url}current'', tp_requires_sudo = True\<rparr>,
      \<lparr>tp_target_code = ''zypper'', tp_os_family = ''opensuse'', tp_scope = SystemScope, tp_template = ''Use {repo_url}<repository-path>/repo/oss/ as a zypper baseurl; repository paths include distribution/leap/15.6 or tumbleweed.'', tp_requires_sudo = True\<rparr>,
      \<lparr>tp_target_code = ''gentoo'', tp_os_family = ''gentoo'', tp_scope = SystemScope, tp_template = (''GENTOO_MIRRORS='' @ [CHR 0x22] @ ''{repo_url}'' @ [CHR 0x22]), tp_requires_sudo = True\<rparr>,
      \<lparr>tp_target_code = ''dnf'', tp_os_family = ''fedora'', tp_scope = SystemScope, tp_template = ''Use {repo_url} as the baseurl or metalink replacement in /etc/yum.repos.d/*.repo.'', tp_requires_sudo = True\<rparr>,
      \<lparr>tp_target_code = ''pacman'', tp_os_family = ''arch'', tp_scope = SystemScope, tp_template = ''Use Server = {repo_url}/archlinux/$repo/os/$arch in /etc/pacman.d/mirrorlist.'', tp_requires_sudo = True\<rparr>]"

definition TARGET_CLIENTS :: "(string \<times> string list) list" where
  "TARGET_CLIENTS = [
      (''npm'', [''npm'', ''Yarn'', ''pnpm'']), (''pip'', [''pip'']), (''cargo'', [''Cargo'']), (''go'', [''Go'']),
      (''composer'', [''Composer'']), (''github'', [''Git'', ''HTTP clients'']),
      (''docker'', [''Docker'', ''OCI clients'']), (''huggingface'', [''huggingface_hub SDK'', ''hf CLI'']),
      (''homebrew'', [''Homebrew'']), (''dnf'', [''YUM'', ''DNF'']), (''rocky'', [''YUM'', ''DNF'']),
      (''alma'', [''YUM'', ''DNF'']), (''anolis'', [''YUM'', ''DNF'']), (''openeuler'', [''YUM'', ''DNF'']),
      (''apt'', [''APT'']), (''linuxmint'', [''APT'']), (''kali'', [''APT'']), (''trisquel'', [''APT'']),
      (''linuxlite'', [''APT'']), (''ros'', [''APT'']), (''raspios'', [''APT'']), (''armbian'', [''APT'']),
      (''deepin'', [''APT'']), (''pacman'', [''pacman'']), (''manjaro'', [''pacman'']), (''msys2'', [''pacman'']),
      (''alpine'', [''apk'']), (''zypper'', [''zypper'']), (''xbps'', [''xbps'']), (''gentoo'', [''Portage'']),
      (''freebsd'', [''pkg'']), (''openwrt'', [''opkg'']), (''termux'', [''pkg'', ''APT'']), (''solus'', [''eopkg'']),
      (''anaconda'', [''conda'']), (''pub'', [''dart pub'', ''flutter pub'']), (''cpan'', [''cpan'', ''cpanm'']),
      (''cran'', [''R'']), (''hackage'', [''Cabal'']), (''clojars'', [''Leiningen'', ''Clojure CLI'']),
      (''poetry'', [''Poetry'']), (''pdm'', [''PDM'']), (''uv'', [''uv'']), (''ocaml'', [''opam'']),
      (''lua'', [''LuaRocks'']), (''elpa'', [''Emacs package.el'']), (''texlive'', [''tlmgr''])]"

section \<open>Lookups\<close>

definition clients :: "SourceTarget \<Rightarrow> string list" where
  "clients t = unwrap_or [ta_name t] (map_of TARGET_CLIENTS (ta_code t))"

definition list_targets :: "SourceCategory option \<Rightarrow> SourceTarget list" where
  "list_targets category = filter (\<lambda>t. case category of None \<Rightarrow> True | Some c \<Rightarrow> ta_category t = c) SOURCE_TARGETS"

definition find_target :: "string \<Rightarrow> SourceTarget option" where
  "find_target name = find (\<lambda>t. ta_code t = name \<or> name \<in> set (ta_aliases t)) SOURCE_TARGETS"

definition sources_for_target :: "string \<Rightarrow> TargetSource list" where
  "sources_for_target code = filter (\<lambda>s. ts_target_code s = code) TARGET_SOURCES"

definition templates_for_target :: "string \<Rightarrow> SourceTemplate list" where
  "templates_for_target code = filter (\<lambda>t. tp_target_code t = code) SOURCE_TEMPLATES"

definition find_mirror_provider :: "string \<Rightarrow> MirrorProvider option" where
  "find_mirror_provider code = find (\<lambda>p. mp_code p = code \<and> mp_enabled p) MIRROR_PROVIDERS"

definition join_modes :: "SourceMode list \<Rightarrow> string" where
  "join_modes modes = join '','' (map SourceMode_as_str modes)"

section \<open>Consistency\<close>

lemma target_codes_distinct: "distinct (map ta_code SOURCE_TARGETS)"
  by code_simp

lemma shadowed_codes:
  "map (\<lambda>t. (ta_code t, map_option ta_code (find_target (ta_code t))))
     (filter (\<lambda>t. map_option ta_code (find_target (ta_code t)) \<noteq> Some (ta_code t)) SOURCE_TARGETS)
   = [(''manjaro'', Some ''pacman''), (''rocky'', Some ''dnf''), (''alma'', Some ''dnf'')]"
  by code_simp

lemma aliases_found:
  "list_all (\<lambda>t. list_all (\<lambda>a. map_option ta_code (find_target a) = Some (ta_code t)) (ta_aliases t)) SOURCE_TARGETS"
  by code_simp

lemma sources_resolve:
  "list_all (\<lambda>s. find_target (ts_target_code s) \<noteq> None \<and> find_mirror_provider (ts_provider_code s) \<noteq> None) TARGET_SOURCES"
  by code_simp

lemma templates_resolve:
  "list_all (\<lambda>t. find_target (tp_target_code t) \<noteq> None) SOURCE_TEMPLATES"
  by code_simp

lemma proxied_targets_offered:
  "list_all (\<lambda>t. ProxyAdapter \<in> set (ta_supported_modes t) \<longleftrightarrow>
     list_ex (\<lambda>s. ts_provider_code s = ''mirrorproxy'' \<and> ts_capability s = ProxyAdapter) (sources_for_target (ta_code t))) SOURCE_TARGETS"
  by code_simp

end
