(* ===== verification/Client_Sources.thy ===== *)
theory Client_Sources
  imports Mirror_Catalog Http_Types Json_Values
begin

text \<open>
  What the command line client would write (\<open>crates/client/src/main.rs\<close>): the plan of a
  \<open>set\<close> command from the catalog, the place of the configuration file of a target on each
  platform, the place of the rollback record, and the text of the file.  The conditional
  compilation of the source is a platform here.  A path is the list of its components; the
  environment gives paths, and parsing of URLs and JSON are parameters.
\<close>

section \<open>Vocabulary\<close>

type_synonym cpath = "string list"

datatype platform = Linux | Macos | Windows

datatype cli_scope = CliUser | CliSystem

fun cli_scope_as_str :: "cli_scope \<Rightarrow> string" where
  "cli_scope_as_str CliUser = ''user''"
| "cli_scope_as_str CliSystem = ''system''"

datatype client_error =
    UnknownScope string | ScopeNeedsRoot | NoHome | NoStateDirectory
  | NoUserPath string | NoSystemPath string | UnsupportedOnWindows string
  | NoUserWriter string | NoSystemWriter string | MissingTemplate string
  | UnknownTarget string | MirrorUnavailable string string | NoLocalTemplate string | NoResetPreview string
  | BadBaseUrl | BadRegistryUrl string | RegistryUrlShape | BadProxyUrl string | ProxyUrlShape
  | NotJson | NotAnObject | NeedsDistribution string | BadDistribution string string
  | MigrationActive | NeedsBaseUrl | AlreadyManaged string | IsSymlink cpath | HasUserConfiguration cpath
  | OnlyUserScope | OnlySystemScope | NoRecord string | BadRecord | RecordOfOtherTarget string
  | RecordOfOtherPath cpath cpath | ChangedAfterSet cpath | IoError cpath | NoParent cpath

text \<open>The parameters: the platform, environment variables that name paths, the libraries.\<close>

record client_env =
  ce_platform :: platform
  ce_var :: "string \<Rightarrow> cpath option"
  ce_urls :: url_lib
  ce_clear_fragment :: "url \<Rightarrow> url"
  ce_is_control :: "char \<Rightarrow> bool"
  ce_from_json :: "string \<Rightarrow> json option"
  ce_pretty :: "json \<Rightarrow> string"

definition nl :: string where "nl = [CHR 0x0A]"
definition dq :: string where "dq = [CHR 0x22]"
definition sq :: string where "sq = [CHR 0x27]"

definition path_join :: "cpath \<Rightarrow> string \<Rightarrow> cpath" where
  "path_join p relative = p @ split_on (CHR ''/'') relative"

text \<open>\<open>str::replace\<close> and \<open>trim_end_matches\<close> with a string pattern.\<close>

function replace_all :: "string \<Rightarrow> string \<Rightarrow> string \<Rightarrow> string" where
  "replace_all p r [] = []"
| "replace_all p r (x # xs) =
     (if p \<noteq> [] \<and> starts_with (x # xs) p then r @ replace_all p r (drop (length p) (x # xs)) else x # replace_all p r xs)"
  by pat_completeness auto
termination
  by (relation "measure (\<lambda>(_, _, s). length s)") (auto simp: neq_Nil_conv)

function trim_end_str :: "string \<Rightarrow> string \<Rightarrow> string" where
  "trim_end_str p s = (if p \<noteq> [] \<and> ends_with s p then trim_end_str p (take (length s - length p) s) else s)"
  by pat_completeness auto
termination
  by (relation "measure (\<lambda>(_, s). length s)") (auto simp: ends_with_def neq_Nil_conv)

declare trim_end_str.simps [simp del]

section \<open>Locations\<close>

definition parse_source_scope :: "string \<Rightarrow> client_error + cli_scope" where
  "parse_source_scope s =
     (if s = ''user'' then Inr CliUser else if s = ''system'' then Inr CliSystem else Inl (UnknownScope s))"

definition validate_scope_root :: "client_env \<Rightarrow> cli_scope \<Rightarrow> cpath option \<Rightarrow> client_error + unit" where
  "validate_scope_root E sc root =
     (if sc = CliSystem \<and> ce_platform E \<noteq> Linux \<and> root = None then Inl ScopeNeedsRoot else Inr ())"

definition by_platform :: "platform \<Rightarrow> string \<Rightarrow> string \<Rightarrow> string \<Rightarrow> string" where
  "by_platform pl linux macos windows = (case pl of Linux \<Rightarrow> linux | Macos \<Rightarrow> macos | Windows \<Rightarrow> windows)"

definition USER_PATHS :: "platform \<Rightarrow> (string \<times> string) list" where
  "USER_PATHS pl = [
     (''npm'', ''.npmrc''),
     (''bun'', ''.bunfig.toml''),
     (''pip'', by_platform pl ''.config/pip/pip.conf'' ''pip/pip.conf'' ''pip/pip.ini''),
     (''pdm'', by_platform pl ''.config/pdm/config.toml'' ''pdm/config.toml'' ''pdm/pdm/config.toml''),
     (''uv'', by_platform pl ''.config/uv/uv.toml'' ''.config/uv/uv.toml'' ''uv/uv.toml''),
     (''cargo'', ''.cargo/config.toml''),
     (''github'', ''.gitconfig''),
     (''go'', by_platform pl ''.config/go/env'' ''go/env'' ''go/env''),
     (''maven'', ''.m2/settings.xml''),
     (''rubygems'', ''.gemrc''),
     (''nuget'', by_platform pl ''.nuget/NuGet/NuGet.Config'' ''.nuget/NuGet/NuGet.Config'' ''NuGet/NuGet.Config''),
     (''cpan'', ''.cpan/CPAN/MyConfig.pm''),
     (''cran'', ''.Rprofile''),
     (''hackage'', by_platform pl ''.cabal/config'' ''.cabal/config'' ''cabal/config''),
     (''clojars'', ''.clojure/deps.edn''),
     (''anaconda'', ''.condarc''),
     (''lua'', ''.luarocks/config.lua''),
     (''homebrew'', ''.homebrew/brew.env''),
     (''nix'', ''.config/nix/nix.conf''),
     (''composer'', by_platform pl ''.config/composer/config.json'' ''.composer/config.json'' ''Composer/config.json'')]"

definition user_source_config_path :: "platform \<Rightarrow> string \<Rightarrow> client_error + string" where
  "user_source_config_path pl target_code =
     (if pl = Windows \<and> target_code \<in> set [''homebrew'', ''nix''] then Inl (UnsupportedOnWindows target_code)
      else ok_or (NoUserPath target_code) (map_of (USER_PATHS pl) target_code))"

definition SYSTEM_PATHS :: "(string \<times> string) list" where
  "SYSTEM_PATHS = [
     (''system'', ''etc/mirrorproxy/system-sources''),
     (''docker'', ''etc/docker/daemon.json''),
     (''apt'', ''etc/apt/sources.list.d/mirrorproxy.list''),
     (''alpine'', ''etc/apk/repositories''),
     (''xbps'', ''etc/xbps.d/00-mirrorproxy.conf''),
     (''zypper'', ''etc/zypp/repos.d/mirrorproxy.repo''),
     (''gentoo'', ''etc/portage/make.conf''),
     (''dnf'', ''etc/yum.repos.d/mirrorproxy.repo''),
     (''pacman'', ''etc/pacman.d/mirrorlist'')]"

definition source_config_path :: "platform \<Rightarrow> string \<Rightarrow> cli_scope \<Rightarrow> cpath \<Rightarrow> client_error + cpath" where
  "source_config_path pl target_code sc root =
     bindr (case sc of
         CliUser \<Rightarrow> user_source_config_path pl target_code
       | CliSystem \<Rightarrow> ok_or (NoSystemPath target_code) (map_of SYSTEM_PATHS target_code))
       (\<lambda>relative. Inr (path_join root relative))"

definition source_rollback_path :: "string \<Rightarrow> cli_scope \<Rightarrow> cpath \<Rightarrow> cpath" where
  "source_rollback_path target_code sc root =
     path_join root (case sc of CliUser \<Rightarrow> ''.local/state/mirrorproxy/sources'' | CliSystem \<Rightarrow> ''var/lib/mirrorproxy/sources'')
       @ [target_code @ ''.json'']"

definition user_home :: "client_env \<Rightarrow> cpath option" where
  "user_home E = (if ce_platform E = Windows then opt_or (ce_var E ''USERPROFILE'') (ce_var E ''HOME'')
     else opt_or (ce_var E ''HOME'') (ce_var E ''USERPROFILE''))"

definition XDG_PATHS :: "(string \<times> string) list" where
  "XDG_PATHS = [(''pip'', ''pip/pip.conf''), (''pdm'', ''pdm/config.toml''), (''uv'', ''uv/uv.toml''), (''go'', ''go/env''),
     (''composer'', ''composer/config.json''), (''homebrew'', ''homebrew/brew.env''), (''nix'', ''nix/nix.conf'')]"

definition xdg_user_config_path :: "string \<Rightarrow> cpath \<Rightarrow> cpath option" where
  "xdg_user_config_path target_code config_home = map_option (path_join config_home) (map_of XDG_PATHS target_code)"

definition ROAMING_PATHS :: "(string \<times> string) list" where
  "ROAMING_PATHS = [(''pip'', ''pip/pip.ini''), (''uv'', ''uv/uv.toml''), (''go'', ''go/env''), (''nuget'', ''NuGet/NuGet.Config''),
     (''hackage'', ''cabal/config''), (''composer'', ''Composer/config.json'')]"

definition APPLICATION_SUPPORT_PATHS :: "(string \<times> string) list" where
  "APPLICATION_SUPPORT_PATHS = [(''pip'', ''pip/pip.conf''), (''pdm'', ''pdm/config.toml''), (''go'', ''go/env'')]"

definition default_user_source_config_path :: "client_env \<Rightarrow> string \<Rightarrow> client_error + cpath" where
  "default_user_source_config_path E target_code = (case user_home E of
       None \<Rightarrow> Inl NoHome
     | Some home \<Rightarrow>
         (let fallback = source_config_path (ce_platform E) target_code CliUser home in
          case ce_platform E of
            Windows \<Rightarrow>
              (if target_code = ''pdm''
               then Inr (path_join (unwrap_or (path_join home ''AppData/Local'') (opt_or (ce_var E ''LOCALAPPDATA'') (ce_var E ''APPDATA'')))
                       ''pdm/pdm/config.toml'')
               else (case map_of ROAMING_PATHS target_code of
                   Some relative \<Rightarrow> Inr (path_join (unwrap_or (path_join home ''AppData/Roaming'') (ce_var E ''APPDATA'')) relative)
                 | None \<Rightarrow> fallback))
          | Macos \<Rightarrow>
              (case Option.bind (ce_var E ''XDG_CONFIG_HOME'') (xdg_user_config_path target_code) of
                 Some p \<Rightarrow> Inr p
               | None \<Rightarrow>
                   (case map_of APPLICATION_SUPPORT_PATHS target_code of
                      Some relative \<Rightarrow> Inr (path_join (path_join home ''Library/Application Support'') relative)
                    | None \<Rightarrow> if target_code = ''composer'' then Inr (path_join home ''.composer/config.json'') else fallback))
          | Linux \<Rightarrow>
              (case xdg_user_config_path target_code (unwrap_or (path_join home ''.config'') (ce_var E ''XDG_CONFIG_HOME'')) of
                 Some p \<Rightarrow> Inr p
               | None \<Rightarrow> fallback)))"

definition default_source_config_path :: "client_env \<Rightarrow> cli_scope \<Rightarrow> string \<Rightarrow> client_error + cpath" where
  "default_source_config_path E sc target_code =
     (if sc = CliSystem then source_config_path (ce_platform E) target_code sc []
      else default_user_source_config_path E target_code)"

definition user_state_directory :: "client_env \<Rightarrow> client_error + cpath" where
  "user_state_directory E = (case ce_platform E of
       Windows \<Rightarrow>
         (case opt_or (opt_or (ce_var E ''LOCALAPPDATA'') (ce_var E ''APPDATA''))
                 (map_option (\<lambda>home. path_join home ''AppData/Local'') (user_home E)) of
            None \<Rightarrow> Inl NoStateDirectory
          | Some root \<Rightarrow> Inr (path_join root ''MirrorProxy/sources''))
     | Macos \<Rightarrow>
         (case user_home E of
            None \<Rightarrow> Inl NoHome
          | Some home \<Rightarrow> Inr (path_join home ''Library/Application Support/MirrorProxy/sources''))
     | Linux \<Rightarrow>
         (case ce_var E ''XDG_STATE_HOME'' of
            Some state_home \<Rightarrow> Inr (path_join state_home ''mirrorproxy/sources'')
          | None \<Rightarrow>
              (case user_home E of
                 None \<Rightarrow> Inl NoHome
               | Some home \<Rightarrow> Inr (path_join home ''.local/state/mirrorproxy/sources''))))"

record source_locations_rec =
  sl_config_path :: cpath
  sl_rollback_path :: cpath

definition source_locations :: "client_env \<Rightarrow> cli_scope \<Rightarrow> cpath option \<Rightarrow> string \<Rightarrow> client_error + source_locations_rec" where
  "source_locations E sc config_root target_code =
     bindr (validate_scope_root E sc config_root) (\<lambda>_.
       (case config_root of
          Some root \<Rightarrow>
            bindr (source_config_path (ce_platform E) target_code sc root) (\<lambda>p.
              Inr \<lparr>sl_config_path = p, sl_rollback_path = source_rollback_path target_code sc root\<rparr>)
        | None \<Rightarrow>
            bindr (default_source_config_path E sc target_code) (\<lambda>p.
              bindr (case sc of
                  CliUser \<Rightarrow> bindr (user_state_directory E) (\<lambda>d. Inr (d @ [target_code @ ''.json'']))
                | CliSystem \<Rightarrow> Inr (path_join [] ''var/lib/mirrorproxy/sources'' @ [target_code @ ''.json'']))
                (\<lambda>r. Inr \<lparr>sl_config_path = p, sl_rollback_path = r\<rparr>))))"

section \<open>Plans\<close>

record planned_source =
  ps_target_code :: string
  ps_provider_code :: string
  ps_repo_url :: string
  ps_command :: string

record planned_reset =
  pr_target_code :: string
  pr_command :: string

definition validated_base_url :: "client_env \<Rightarrow> string \<Rightarrow> client_error + string" where
  "validated_base_url E base =
     (if list_ex (\<lambda>ch. is_ws ch \<or> ce_is_control E ch) base then Inl BadBaseUrl
      else (case url_parse (ce_urls E) base of
          None \<Rightarrow> Inl BadBaseUrl
        | Some u \<Rightarrow>
            if u_scheme u \<in> set [''http'', ''https''] \<and> u_host u \<noteq> None \<and> u_username u = [] \<and> u_password u = None
               \<and> u_query u = None \<and> u_fragment u = None \<and> u_path u = ''/''
            then Inr (trim_end_matches (CHR ''/'') (u_str u)) else Inl BadBaseUrl))"

definition mirrorproxy_source_url :: "string option \<Rightarrow> string \<Rightarrow> string" where
  "mirrorproxy_source_url base source_path =
     trim_end_matches (CHR ''/'') (unwrap_or ''${MIRRORPROXY_BASE_URL}'' base) @ ''/'' @ trim_start_matches (CHR ''/'') source_path"

definition cargo_registry_url :: "string \<Rightarrow> string" where
  "cargo_registry_url repo_url = (if starts_with repo_url ''sparse+'' then repo_url else ''sparse+'' @ repo_url)"

definition docker_registry_host :: "string \<Rightarrow> string option" where
  "docker_registry_host repo_url =
     map_option (\<lambda>rest. trim_end_str ''/v2'' (trim_end_matches (CHR ''/'') rest))
       (opt_or (strip_prefix ''https://'' repo_url) (strip_prefix ''http://'' repo_url))"

definition template_repo_url :: "string \<Rightarrow> string \<Rightarrow> string option" where
  "template_repo_url target_code repo_url =
     (if target_code = ''cargo'' then Some (cargo_registry_url repo_url)
      else if target_code = ''docker'' then docker_registry_host repo_url
      else Some repo_url)"

definition render_source_template :: "string \<Rightarrow> string \<Rightarrow> string" where
  "render_source_template template repo_url = replace_all ''{repo_url}'' repo_url template"

definition source_config_command :: "platform \<Rightarrow> string \<Rightarrow> string \<Rightarrow> string option" where
  "source_config_command pl target_code repo_url =
     (if target_code = ''huggingface''
      then (let url = trim_end_matches (CHR ''/'') repo_url in
            Some (if pl = Windows
              then ''$env:HF_ENDPOINT='' @ sq @ replace_all sq (sq @ sq) url @ sq @ ''; $env:HF_HUB_DISABLE_XET='' @ sq @ ''1'' @ sq
                     @ ''; hf download gpt2 config.json''
              else ''HF_ENDPOINT='' @ sq @ replace_all sq (sq @ dq @ sq @ dq @ sq) url @ sq
                     @ '' HF_HUB_DISABLE_XET=1 hf download gpt2 config.json''))
      else (case templates_for_target target_code of
          [] \<Rightarrow> None
        | t # _ \<Rightarrow> map_option (render_source_template (tp_template t)) (template_repo_url target_code repo_url)))"

definition RESET_COMMANDS :: "(string \<times> string) list" where
  "RESET_COMMANDS = [
     (''npm'', ''npm config delete registry''),
     (''bun'', ''Restore the previous Bun ~/.bunfig.toml registry setting''),
     (''pip'', ''pip config unset global.index-url''),
     (''pdm'', ''Restore the previous PDM repository configuration''),
     (''uv'', ''Restore the previous uv index-url configuration''),
     (''cargo'', ''Remove the [source.crates-io] replacement and [source.mirrorproxy] entries from Cargo config''),
     (''github'', ''Restore the Git config that preceded MirrorProxy'' @ sq @ ''s GitHub insteadOf rule''),
     (''go'', ''go env -u GOPROXY''),
     (''maven'', ''Remove the MirrorProxy mirror entry from Maven settings.xml''),
     (''rubygems'', ''Restore the previous RubyGems source list''),
     (''nuget'', ''Restore the previous NuGet.Config package source list''),
     (''cpan'', ''Restore the previous CPAN mirror list''),
     (''cran'', ''Restore the previous R repository setting''),
     (''hackage'', ''Restore the previous Cabal repository setting''),
     (''clojars'', ''Restore the previous Clojure repository setting''),
     (''anaconda'', ''Restore the previous Conda channel setting''),
     (''lua'', ''Restore the previous LuaRocks rocks_servers configuration''),
     (''homebrew'', ''Restore the previous Homebrew user environment file''),
     (''nix'', ''Restore the previous Nix user configuration''),
     (''composer'', ''composer config --unset repos.packagist''),
     (''docker'', ''Remove the registry-mirrors entry from Docker daemon config and restart Docker'')]"

definition source_reset_command :: "string \<Rightarrow> string option" where
  "source_reset_command target_code =
     (if target_code \<in> set [''apt'', ''alpine'', ''dnf'', ''gentoo'', ''pacman'', ''xbps'', ''zypper'']
      then Some ''Remove the MirrorProxy-managed system source file and restore the rollback record''
      else map_of RESET_COMMANDS target_code)"

definition plan_source_set_command :: "client_env \<Rightarrow> string \<Rightarrow> string \<Rightarrow> string option \<Rightarrow> client_error + planned_source" where
  "plan_source_set_command E target_name mirror base_url =
     bindr (ok_or (UnknownTarget target_name) (find_target target_name)) (\<lambda>t.
     bindr (ok_or (MirrorUnavailable mirror (ta_code t)) (find (\<lambda>s. ts_provider_code s = mirror) (sources_for_target (ta_code t)))) (\<lambda>s.
     bindr (if ts_provider_code s = ''mirrorproxy'' \<and> ts_capability s = ProxyAdapter
            then bindr (case base_url of None \<Rightarrow> Inr None | Some b \<Rightarrow> bindr (validated_base_url E b) (\<lambda>v. Inr (Some v)))
                   (\<lambda>base. Inr (mirrorproxy_source_url base (ts_repo_url s)))
            else Inr (ts_repo_url s)) (\<lambda>repo_url.
     bindr (ok_or (NoLocalTemplate (ta_code t)) (source_config_command (ce_platform E) (ta_code t) repo_url)) (\<lambda>cmd.
       Inr \<lparr>ps_target_code = ta_code t, ps_provider_code = ts_provider_code s, ps_repo_url = repo_url, ps_command = cmd\<rparr>))))"

definition plan_source_reset_command :: "string \<Rightarrow> client_error + planned_reset" where
  "plan_source_reset_command target_name =
     bindr (ok_or (UnknownTarget target_name) (find_target target_name)) (\<lambda>t.
     bindr (ok_or (NoResetPreview (ta_code t)) (source_reset_command (ta_code t))) (\<lambda>cmd.
       Inr \<lparr>pr_target_code = ta_code t, pr_command = cmd\<rparr>))"

section \<open>Contents\<close>

definition docker_registry_mirror_url :: "client_env \<Rightarrow> string \<Rightarrow> client_error + string" where
  "docker_registry_mirror_url E repo_url = (case url_parse (ce_urls E) repo_url of
       None \<Rightarrow> Inl (BadRegistryUrl repo_url)
     | Some u \<Rightarrow>
         if u_scheme u \<notin> set [''http'', ''https''] \<or> u_host u = None then Inl RegistryUrlShape
         else Inr (trim_end_matches (CHR ''/'')
                (u_str (ce_clear_fragment E (url_set_query (ce_urls E) (url_set_path (ce_urls E) u []) None)))))"

definition github_config_content :: "client_env \<Rightarrow> string option \<Rightarrow> string \<Rightarrow> client_error + string" where
  "github_config_content E original repo_url = (case url_parse (ce_urls E) repo_url of
       None \<Rightarrow> Inl (BadProxyUrl repo_url)
     | Some u \<Rightarrow>
         if u_scheme u \<notin> set [''http'', ''https''] \<or> u_host u = None \<or> u_username u \<noteq> [] \<or> u_password u \<noteq> None
            \<or> u_query u \<noteq> None \<or> u_fragment u \<noteq> None \<or> \<not> ends_with (u_path u) ''/https://github.com/''
         then Inl ProxyUrlShape
         else (let content = unwrap_or [] original;
                   before = (if content = [] then [] else if ends_with content nl then content @ nl else content @ nl @ nl)
               in Inr (before @ ''# Managed by MirrorProxy'' @ nl @ ''[url '' @ dq @ repo_url @ dq @ '']'' @ nl
                        @ [CHR 0x09] @ ''insteadOf = https://github.com/'' @ nl)))"

definition docker_config_content :: "client_env \<Rightarrow> string option \<Rightarrow> string \<Rightarrow> client_error + string" where
  "docker_config_content E original repo_url =
     bindr (case opt_filter (\<lambda>v. v \<noteq> []) (map_option trim original) of
         Some v \<Rightarrow> ok_or NotJson (ce_from_json E v)
       | None \<Rightarrow> Inr (JObject [])) (\<lambda>config.
     (case config of
        JObject fs \<Rightarrow>
          bindr (docker_registry_mirror_url E repo_url) (\<lambda>url.
            Inr (ce_pretty E (JObject (json_insert ''registry-mirrors'' (JArray [JString url]) fs)) @ nl))
      | _ \<Rightarrow> Inl NotAnObject))"

definition templated :: "client_env \<Rightarrow> string \<Rightarrow> string \<Rightarrow> string \<Rightarrow> client_error + string" where
  "templated E heading target_code repo_url =
     bindr (ok_or (MissingTemplate target_code) (source_config_command (ce_platform E) target_code repo_url)) (\<lambda>content.
       Inr (heading @ content @ nl))"

definition user_source_config_content :: "client_env \<Rightarrow> string \<Rightarrow> string \<Rightarrow> client_error + string" where
  "user_source_config_content E target_code repo_url =
     (let base = trim_end_matches (CHR ''/'') repo_url; managed = ''# Managed by MirrorProxy'' @ nl in
      if target_code = ''npm'' then Inr (''registry='' @ repo_url @ nl)
      else if target_code = ''bun'' then Inr (''[install]'' @ nl @ ''registry = '' @ dq @ repo_url @ dq @ nl)
      else if target_code = ''pip'' then Inr (''[global]'' @ nl @ ''index-url = '' @ repo_url @ nl)
      else if target_code = ''pdm'' then Inr (''[pypi]'' @ nl @ ''url = '' @ dq @ repo_url @ dq @ nl)
      else if target_code = ''uv'' then Inr (''index-url = '' @ dq @ repo_url @ dq @ nl)
      else if target_code = ''github'' then github_config_content E None repo_url
      else if target_code = ''go'' then Inr (''GOPROXY='' @ repo_url @ '',direct'' @ nl)
      else if target_code \<in> set [''cargo'', ''maven'', ''rubygems'', ''nuget''] then templated E [] target_code repo_url
      else if target_code = ''cpan''
        then Inr (managed @ ''$CPAN::Config->{'' @ sq @ ''urllist'' @ sq @ ''} = [q['' @ repo_url @ '']];'' @ nl)
      else if target_code \<in> set [''cran'', ''anaconda''] then templated E managed target_code repo_url
      else if target_code = ''hackage'' then templated E (''-- Managed by MirrorProxy'' @ nl) target_code repo_url
      else if target_code = ''clojars'' then templated E ('';; Managed by MirrorProxy'' @ nl) target_code repo_url
      else if target_code = ''lua''
        then Inr (''-- Managed by MirrorProxy'' @ nl @ ''rocks_servers = { '' @ dq @ repo_url @ dq @ '' }'' @ nl)
      else if target_code = ''homebrew'' then Inr (managed @ ''HOMEBREW_BOTTLE_DOMAIN='' @ base @ nl)
      else if target_code = ''nix'' then Inr (managed @ ''substituters = '' @ base @ nl)
      else if target_code = ''composer''
        then Inr (ce_pretty E (JObject [(''repositories'', JObject [(''packagist'', JObject [(''type'', JString ''composer''), (''url'', JString repo_url)])])]) @ nl)
      else Inl (NoUserWriter target_code))"

definition safe_char :: "char \<Rightarrow> bool" where
  "safe_char ch \<longleftrightarrow> is_digit ch \<or> (let n = (of_char ch :: nat) in 65 \<le> n \<and> n \<le> 90 \<or> 97 \<le> n \<and> n \<le> 122) \<or> ch \<in> set ''._-''"

definition given_distribution :: "string option \<Rightarrow> string option" where
  "given_distribution = opt_filter (\<lambda>v. trim v \<noteq> [])"

definition apt_content :: "string \<Rightarrow> string option \<Rightarrow> client_error + string" where
  "apt_content repo_url distribution = (case given_distribution distribution of
       None \<Rightarrow> Inl (NeedsDistribution ''apt'')
     | Some d \<Rightarrow>
         (let (target, codename) = unwrap_or (''ubuntu'', d) (split_once (CHR ''/'') d) in
          if target \<notin> set [''ubuntu'', ''debian''] \<or> codename = [] \<or> \<not> list_all safe_char codename
          then Inl (BadDistribution ''apt'' d)
          else Inr (''# Managed by MirrorProxy'' @ nl @ ''deb '' @ trim_end_matches (CHR ''/'') repo_url @ ''/'' @ target @ ''/ '' @ codename @ '' ''
                 @ (if target = ''ubuntu'' then ''main restricted universe multiverse'' else ''main'') @ nl)))"

definition alpine_content :: "string \<Rightarrow> string option \<Rightarrow> client_error + string" where
  "alpine_content repo_url distribution = (case given_distribution distribution of
       None \<Rightarrow> Inl (NeedsDistribution ''alpine'')
     | Some release \<Rightarrow>
         if \<not> starts_with release ''v'' \<or> \<not> list_all (\<lambda>p. p \<noteq> [] \<and> list_all is_digit p) (split_on (CHR ''.'') (drop 1 release))
         then Inl (BadDistribution ''alpine'' release)
         else (let base = trim_end_matches (CHR ''/'') repo_url in
               Inr (''# Managed by MirrorProxy'' @ nl @ base @ ''/'' @ release @ ''/main'' @ nl @ base @ ''/'' @ release @ ''/community'' @ nl)))"

definition zypper_content :: "string \<Rightarrow> string option \<Rightarrow> client_error + string" where
  "zypper_content repo_url distribution = (case given_distribution distribution of
       None \<Rightarrow> Inl (NeedsDistribution ''zypper'')
     | Some repository \<Rightarrow>
         if CHR 0x5C \<in> set repository \<or> CHR 0x00 \<in> set repository
            \<or> list_ex (\<lambda>p. p = [] \<or> p \<in> set [''.'', ''..''] \<or> \<not> list_all safe_char p) (split_on (CHR ''/'') repository)
         then Inl (BadDistribution ''zypper'' repository)
         else Inr (''# Managed by MirrorProxy'' @ nl @ ''[mirrorproxy-oss]'' @ nl @ ''name=MirrorProxy openSUSE OSS'' @ nl @ ''baseurl=''
                @ trim_end_matches (CHR ''/'') repo_url @ ''/'' @ repository @ ''/repo/oss/'' @ nl @ ''enabled=1'' @ nl @ ''autorefresh=1'' @ nl
                @ ''gpgcheck=1'' @ nl))"

definition system_source_config_content :: "client_env \<Rightarrow> string \<Rightarrow> string \<Rightarrow> string option \<Rightarrow> client_error + string" where
  "system_source_config_content E target_code repo_url distribution =
     (let base = trim_end_matches (CHR ''/'') repo_url; managed = ''# Managed by MirrorProxy'' @ nl in
      if target_code = ''docker''
        then bindr (docker_registry_mirror_url E repo_url) (\<lambda>url. Inr (ce_pretty E (JObject [(''registry-mirrors'', JArray [JString url])]) @ nl))
      else if target_code = ''apt'' then apt_content repo_url distribution
      else if target_code = ''alpine'' then alpine_content repo_url distribution
      else if target_code = ''xbps'' then Inr (managed @ ''repository='' @ base @ ''/current'' @ nl)
      else if target_code = ''zypper'' then zypper_content repo_url distribution
      else if target_code = ''gentoo'' then Inr (managed @ ''GENTOO_MIRRORS='' @ dq @ base @ dq @ nl)
      else if target_code = ''dnf''
        then Inr (managed @ ''[mirrorproxy]'' @ nl @ ''name=MirrorProxy configured mirror'' @ nl @ ''baseurl='' @ base
               @ ''/fedora/releases/$releasever/Everything/$basearch/os/'' @ nl @ ''enabled=1'' @ nl @ ''gpgcheck=1'' @ nl)
      else if target_code = ''pacman'' then Inr (managed @ ''Server = '' @ base @ ''/archlinux/$repo/os/$arch'' @ nl)
      else Inl (NoSystemWriter target_code))"

definition source_config_content :: "client_env \<Rightarrow> string \<Rightarrow> cli_scope \<Rightarrow> string \<Rightarrow> string option \<Rightarrow> client_error + string" where
  "source_config_content E target_code sc repo_url distribution = (case sc of
       CliUser \<Rightarrow> user_source_config_content E target_code repo_url
     | CliSystem \<Rightarrow> system_source_config_content E target_code repo_url distribution)"

section \<open>Every target with local configuration is supported throughout\<close>

definition scope_of :: "SourceTarget \<Rightarrow> cli_scope" where
  "scope_of t = (case ta_default_scope t of UserScope \<Rightarrow> CliUser | SystemScope \<Rightarrow> CliSystem)"

definition local_targets :: "SourceTarget list" where
  "local_targets = filter (\<lambda>t. LocalConfig \<in> set (ta_supported_modes t)) SOURCE_TARGETS"

definition relative_path :: "platform \<Rightarrow> SourceTarget \<Rightarrow> string option" where
  "relative_path pl t = (case scope_of t of
       CliUser \<Rightarrow> (if pl = Windows \<and> ta_code t \<in> set [''homebrew'', ''nix''] then None else map_of (USER_PATHS pl) (ta_code t))
     | CliSystem \<Rightarrow> map_of SYSTEM_PATHS (ta_code t))"

lemma config_path_iff:
  "source_config_path pl (ta_code t) (scope_of t) root = Inr p \<longleftrightarrow> (\<exists>r. relative_path pl t = Some r \<and> p = path_join root r)"
  by (cases "scope_of t") (auto simp: source_config_path_def relative_path_def user_source_config_path_def bindr_eq_Inr)

lemma path_join_inject [simp]: "path_join root a = path_join root b \<longleftrightarrow> a = b"
  by (metis join_split_on path_join_def same_append_eq)

lemma local_targets_found:
  "list_all (\<lambda>t. map_option ta_code (find_target (ta_code t)) = Some (ta_code t) \<and> source_reset_command (ta_code t) \<noteq> None
     \<and> templates_for_target (ta_code t) \<noteq> [] \<and> ta_code t \<noteq> ''huggingface''
     \<and> (case find (\<lambda>s. ts_provider_code s = ''mirrorproxy'') (sources_for_target (ta_code t)) of None \<Rightarrow> False
        | Some s \<Rightarrow> ts_provider_code s = ''mirrorproxy'' \<and> ts_capability s = ProxyAdapter)) local_targets"
  by code_simp

lemma local_paths_distinct:
  "list_all (\<lambda>pl. list_all (\<lambda>sc. distinct (filter (\<lambda>r. r \<noteq> None) (map (relative_path pl) (filter (\<lambda>t. scope_of t = sc) local_targets))))
     [CliUser, CliSystem]) [Linux, Macos, Windows]"
  by code_simp

lemma local_paths_found:
  "list_all (\<lambda>pl. map ta_code (filter (\<lambda>t. relative_path pl t = None) local_targets) = (if pl = Windows then [''homebrew'', ''nix''] else []))
     [Linux, Macos, Windows]"
  by code_simp

lemma local_codes_distinct: "distinct (map ta_code local_targets)"
  by code_simp

lemma local_codes_written:
  "list_all (\<lambda>t. ta_code t \<in> set (case scope_of t of
       CliUser \<Rightarrow> [''npm'', ''bun'', ''pip'', ''pdm'', ''uv'', ''cargo'', ''github'', ''go'', ''maven'', ''rubygems'', ''nuget'', ''cpan'', ''cran'',
         ''hackage'', ''clojars'', ''anaconda'', ''lua'', ''homebrew'', ''nix'', ''composer'']
     | CliSystem \<Rightarrow> [''docker'', ''apt'', ''alpine'', ''zypper'', ''xbps'', ''gentoo'', ''dnf'', ''pacman''])) local_targets"
  by code_simp

lemma trim_end_matches_idem [simp]: "trim_end_matches c (trim_end_matches c s) = trim_end_matches c s"
  by (simp add: trim_end_matches_def)

lemma starts_with_append: "starts_with s p \<Longrightarrow> starts_with (s @ x) p"
  by (auto simp: starts_with_iff)

lemma local_command:
  assumes "t \<in> set local_targets" and "starts_with url ''http://'' \<or> starts_with url ''https://''"
  shows "\<exists>cmd. source_config_command pl (ta_code t) url = Some cmd"
proof -
  have "templates_for_target (ta_code t) \<noteq> []" "ta_code t \<noteq> ''huggingface''"
    using local_targets_found assms(1) by (auto simp: list_all_iff)
  moreover have "template_repo_url (ta_code t) url \<noteq> None"
    using assms(2) by (auto simp: template_repo_url_def docker_registry_host_def opt_or_def strip_prefix_def)
  ultimately show ?thesis
    by (cases "templates_for_target (ta_code t)") (auto simp: source_config_command_def)
qed

lemma user_content_written:
  assumes "t \<in> set local_targets" and "scope_of t = CliUser" and "ta_code t \<noteq> ''github''"
    and "starts_with url ''http://'' \<or> starts_with url ''https://''"
  shows "\<exists>c. user_source_config_content E (ta_code t) url = Inr c"
proof -
  obtain cmd where cmd: "source_config_command (ce_platform E) (ta_code t) url = Some cmd"
    using local_command[OF assms(1,4)] by blast
  then have tp: "templated E h (ta_code t) url = Inr (h @ cmd @ nl)" for h by (simp add: templated_def)
  have "ta_code t \<in> set [''npm'', ''bun'', ''pip'', ''pdm'', ''uv'', ''cargo'', ''github'', ''go'', ''maven'', ''rubygems'', ''nuget'', ''cpan'', ''cran'',
         ''hackage'', ''clojars'', ''anaconda'', ''lua'', ''homebrew'', ''nix'', ''composer'']"
    using local_codes_written assms(1,2) by (fastforce simp: list_all_iff)
  then show ?thesis
    using assms(3) unfolding user_source_config_content_def Let_def tp
    by (simp only: list.set insert_iff empty_iff) (elim disjE; simp)
qed

lemma local_path_own:
  assumes "t \<in> set local_targets" and "t2 \<in> set local_targets" and "scope_of t = scope_of t2"
    and "relative_path pl t = Some r" and "relative_path pl t2 = Some r"
  shows "t = t2"
proof -
  let ?ts = "filter (\<lambda>x. scope_of x = scope_of t) local_targets"
  have "distinct (filter (\<lambda>r. r \<noteq> None) (map (relative_path pl) ?ts))"
    using local_paths_distinct by (cases pl; cases "scope_of t") (auto simp: list_all_iff)
  then have "distinct (map (relative_path pl) (filter (\<lambda>x. relative_path pl x \<noteq> None) ?ts))"
    by (simp add: filter_map comp_def)
  then have "inj_on (relative_path pl) (set (filter (\<lambda>x. relative_path pl x \<noteq> None) ?ts))" by (simp add: distinct_map)
  then show ?thesis by (rule inj_onD) (use assms in auto)
qed


definition sample_client :: client_env where
  "sample_client = \<lparr>ce_platform = Linux, ce_var = (\<lambda>_. None), ce_urls = plain_url_lib, ce_clear_fragment = (\<lambda>u. u\<lparr>u_fragment := None\<rparr>),
     ce_is_control = (\<lambda>_. False), ce_from_json = (\<lambda>_. None), ce_pretty = (\<lambda>_. [])\<rparr>"

definition npm_target :: SourceTarget where
  "npm_target = hd SOURCE_TARGETS"


end
