(* ===== verification/Client_Files.thy ===== *)
theory Client_Files
  imports Client_Sources
begin

text \<open>
  How the command line client changes configuration files and takes the change back
  (\<open>crates/client/src/main.rs\<close>, \<open>apply_source_set_at\<close>, \<open>apply_source_reset_at\<close> and the functions
  they call).  The file system is explicit, and so is what can go wrong: an oracle decides
  for every system call whether it works, fails, or the process ends in the middle of it.
  Files written by the client hold text; a file that is not valid UTF-8 cannot be read as
  text.  The oracle does not change the files itself: nobody else writes to them while the
  client runs.  What lies behind a symbolic link is not modelled: the client refuses every
  path with a link in it before it does anything else.
\<close>

section \<open>The file system\<close>

datatype entry = TextFile string | BinaryFile | Directory | Symlink

type_synonym disk = "cpath \<Rightarrow> entry option"

datatype io_error = NotFound | OtherError

datatype io_op = Inspect | Exists | ReadText | MakeDirs | OpenNew | WriteAll | SyncAll | Rename | RemoveFile

text \<open>A call that breaks or is cut off may have early part of its work.\<close>

datatype fate = Works | Breaks nat | Kills nat

record rollback =
  rb_target_code :: string
  rb_config_path :: cpath
  rb_original_content :: "string option"
  rb_expected_content :: string

record disk_env =
  de_client :: client_env
  de_pid :: nat
  de_io :: "nat \<Rightarrow> io_op \<Rightarrow> fate"
  de_print :: "rollback \<Rightarrow> string option"
  de_parse :: "string \<Rightarrow> rollback option"

text \<open>The state of one run: the disk, the number of system calls made, and the counter
  \<open>TEMPORARY_FILE_SEQUENCE\<close>.\<close>

record fsys =
  fs_disk :: disk
  fs_step :: nat
  fs_seq :: nat

definition started :: "disk \<Rightarrow> fsys" where
  "started d = \<lparr>fs_disk = d, fs_step = 0, fs_seq = 0\<rparr>"

text \<open>The outcome \<open>None\<close> is a process that ended early.\<close>

type_synonym ('e, 'a) action = "fsys \<Rightarrow> ('e + 'a) option \<times> fsys"

definition give :: "'a \<Rightarrow> ('e, 'a) action" where
  "give a st = (Some (Inr a), st)"

definition refuse :: "'e \<Rightarrow> ('e, 'a) action" where
  "refuse e st = (Some (Inl e), st)"

definition attempt :: "('e, 'a) action \<Rightarrow> ('e + 'a \<Rightarrow> ('f, 'b) action) \<Rightarrow> ('f, 'b) action" where
  "attempt m k st = (case m st of (Some r, s) \<Rightarrow> k r s | (None, s) \<Rightarrow> (None, s))"

definition run_then :: "('e, 'a) action \<Rightarrow> ('a \<Rightarrow> ('e, 'b) action) \<Rightarrow> ('e, 'b) action" where
  "run_then m k = attempt m (\<lambda>r. case r of Inl e \<Rightarrow> refuse e | Inr a \<Rightarrow> k a)"

definition context_error :: "'f \<Rightarrow> ('e, 'a) action \<Rightarrow> ('f, 'a) action" where
  "context_error e m = attempt m (\<lambda>r. case r of Inl _ \<Rightarrow> refuse e | Inr a \<Rightarrow> give a)"

definition lift_result :: "'e + 'a \<Rightarrow> ('e, 'a) action" where
  "lift_result r = (case r of Inl e \<Rightarrow> refuse e | Inr a \<Rightarrow> give a)"

definition syscall ::
  "disk_env \<Rightarrow> io_op \<Rightarrow> (nat \<Rightarrow> disk \<Rightarrow> disk) \<Rightarrow> (disk \<Rightarrow> (io_error + 'a) \<times> disk) \<Rightarrow> (io_error, 'a) action" where
  "syscall E op part act st =
     (let s1 = st\<lparr>fs_step := fs_step st + 1\<rparr>; d = fs_disk st in
      case de_io E (fs_step st) op of
        Works \<Rightarrow> (Some (fst (act d)), s1\<lparr>fs_disk := snd (act d)\<rparr>)
      | Breaks n \<Rightarrow> (Some (Inl OtherError), s1\<lparr>fs_disk := part n d\<rparr>)
      | Kills n \<Rightarrow> (None, s1\<lparr>fs_disk := part n d\<rparr>))"

definition untouched :: "nat \<Rightarrow> disk \<Rightarrow> disk" where
  "untouched n d = d"

text \<open>\<open>Path::ancestors\<close>: the path itself first, the root last.\<close>

definition ancestors :: "cpath \<Rightarrow> cpath list" where
  "ancestors p = rev (map (\<lambda>n. take n p) [0..<Suc (length p)])"

definition blocks :: "disk \<Rightarrow> cpath \<Rightarrow> bool" where
  "blocks d q \<longleftrightarrow> d q \<noteq> None \<and> d q \<noteq> Some Directory"

definition symlink_metadata :: "disk \<Rightarrow> cpath \<Rightarrow> io_error + entry" where
  "symlink_metadata d p = (case d p of
       Some e \<Rightarrow> Inr e
     | None \<Rightarrow> Inl (if list_ex (blocks d) (tl (ancestors p)) then OtherError else NotFound))"

definition path_exists :: "disk_env \<Rightarrow> cpath \<Rightarrow> ('e, bool) action" where
  "path_exists E p = attempt (syscall E Exists untouched (\<lambda>d. (symlink_metadata d p, d)))
     (\<lambda>r. give (case r of Inl _ \<Rightarrow> False | Inr _ \<Rightarrow> True))"

definition read_to_string :: "disk_env \<Rightarrow> cpath \<Rightarrow> (io_error, string) action" where
  "read_to_string E p = syscall E ReadText untouched (\<lambda>d. (case symlink_metadata d p of
       Inl e \<Rightarrow> Inl e | Inr (TextFile s) \<Rightarrow> Inr s | Inr _ \<Rightarrow> Inl OtherError, d))"

definition make_dirs :: "cpath list \<Rightarrow> disk \<Rightarrow> disk" where
  "make_dirs ps d = (\<lambda>q. if q \<in> set ps \<and> d q = None then Some Directory else d q)"

definition create_dir_all :: "disk_env \<Rightarrow> cpath \<Rightarrow> (io_error, unit) action" where
  "create_dir_all E p = syscall E MakeDirs
     (\<lambda>n d. if list_ex (blocks d) (ancestors p) then d else make_dirs (take n (rev (ancestors p))) d)
     (\<lambda>d. if list_ex (blocks d) (ancestors p) then (Inl OtherError, d) else (Inr (), make_dirs (ancestors p) d))"

definition open_new :: "disk_env \<Rightarrow> cpath \<Rightarrow> (io_error, unit) action" where
  "open_new E p = syscall E OpenNew untouched
     (\<lambda>d. if d p = None \<and> d (butlast p) = Some Directory then (Inr (), d(p \<mapsto> TextFile [])) else (Inl OtherError, d))"

definition write_all :: "disk_env \<Rightarrow> cpath \<Rightarrow> string \<Rightarrow> (io_error, unit) action" where
  "write_all E p content = syscall E WriteAll (\<lambda>n d. d(p \<mapsto> TextFile (take n content))) (\<lambda>d. (Inr (), d(p \<mapsto> TextFile content)))"

definition sync_all :: "disk_env \<Rightarrow> (io_error, unit) action" where
  "sync_all E = syscall E SyncAll untouched (\<lambda>d. (Inr (), d))"

text \<open>Files replace files; a directory moves with its contents and replaces nothing.\<close>

definition moved :: "cpath \<Rightarrow> cpath \<Rightarrow> disk \<Rightarrow> disk" where
  "moved a b d = (if d a = Some Directory
     then (\<lambda>q. if take (length b) q = b then d (a @ drop (length b) q) else if take (length a) q = a then None else d q)
     else d(a := None, b := d a))"

definition rename :: "disk_env \<Rightarrow> cpath \<Rightarrow> cpath \<Rightarrow> (io_error, unit) action" where
  "rename E a b = syscall E Rename untouched (\<lambda>d. (case symlink_metadata d a of
       Inl e \<Rightarrow> (Inl e, d)
     | Inr e \<Rightarrow>
         if d b = Some Directory \<or> e = Directory \<and> d b \<noteq> None \<or> d (butlast b) \<noteq> Some Directory then (Inl OtherError, d)
         else (Inr (), moved a b d)))"

definition remove_file :: "disk_env \<Rightarrow> cpath \<Rightarrow> (io_error, unit) action" where
  "remove_file E p = syscall E RemoveFile untouched (\<lambda>d. (case symlink_metadata d p of
       Inl e \<Rightarrow> (Inl e, d) | Inr Directory \<Rightarrow> (Inl OtherError, d) | Inr _ \<Rightarrow> (Inr (), d(p := None))))"

section \<open>Replacing a file\<close>

definition sibling :: "cpath \<Rightarrow> string \<Rightarrow> nat \<Rightarrow> nat \<Rightarrow> cpath" where
  "sibling p role pid sequence =
     butlast p @ [''.'' @ (if p = [] then ''config'' else last p) @ ''.mirrorproxy-'' @ role @ ''-'' @ dec_of_nat pid @ ''-'' @ dec_of_nat sequence]"

definition unique_sibling_path :: "disk_env \<Rightarrow> cpath \<Rightarrow> string \<Rightarrow> ('e, cpath) action" where
  "unique_sibling_path E p role st =
     (Some (Inr (sibling p role (de_pid E) (fs_seq st))), st\<lparr>fs_seq := fs_seq st + 1\<rparr>)"

definition write_atomic :: "disk_env \<Rightarrow> cpath \<Rightarrow> string \<Rightarrow> (client_error, unit) action" where
  "write_atomic E p content =
     (if p = [] then refuse (NoParent p) else
      run_then (context_error (IoError (butlast p)) (create_dir_all E (butlast p))) (\<lambda>_.
      run_then (unique_sibling_path E p ''new'') (\<lambda>temporary_path.
      run_then (context_error (IoError temporary_path) (open_new E temporary_path)) (\<lambda>_.
      run_then (context_error (IoError temporary_path) (write_all E temporary_path content)) (\<lambda>_.
      run_then (context_error (IoError temporary_path) (sync_all E)) (\<lambda>_.
      run_then (path_exists E p) (\<lambda>exists.
        if \<not> exists then context_error (IoError p) (rename E temporary_path p)
        else
          run_then (unique_sibling_path E p ''old'') (\<lambda>previous_path.
          run_then (context_error (IoError p) (rename E p previous_path)) (\<lambda>_.
          attempt (rename E temporary_path p) (\<lambda>r. case r of
              Inr _ \<Rightarrow> context_error (IoError previous_path) (remove_file E previous_path)
            | Inl _ \<Rightarrow>
                attempt (rename E previous_path p) (\<lambda>_.
                attempt (remove_file E temporary_path) (\<lambda>_.
                  refuse (IoError p)))))))))))))"

definition read_optional_file :: "disk_env \<Rightarrow> cpath \<Rightarrow> (client_error, string option) action" where
  "read_optional_file E p = attempt (read_to_string E p) (\<lambda>r. case r of
       Inr content \<Rightarrow> give (Some content)
     | Inl NotFound \<Rightarrow> give None
     | Inl OtherError \<Rightarrow> refuse (IoError p))"

definition restore_original_file :: "disk_env \<Rightarrow> cpath \<Rightarrow> string option \<Rightarrow> (client_error, unit) action" where
  "restore_original_file E p original = (case original of
       Some content \<Rightarrow> write_atomic E p content
     | None \<Rightarrow> attempt (remove_file E p) (\<lambda>r. case r of
           Inr _ \<Rightarrow> give () | Inl NotFound \<Rightarrow> give () | Inl OtherError \<Rightarrow> refuse (IoError p)))"

definition reject_single_symlink :: "disk_env \<Rightarrow> cpath \<Rightarrow> (client_error, unit) action" where
  "reject_single_symlink E p = attempt (syscall E Inspect untouched (\<lambda>d. (symlink_metadata d p, d))) (\<lambda>r. case r of
       Inr e \<Rightarrow> if e = Symlink then refuse (IsSymlink p) else give ()
     | Inl NotFound \<Rightarrow> give ()
     | Inl OtherError \<Rightarrow> refuse (IoError p))"

fun reject_each :: "disk_env \<Rightarrow> cpath list \<Rightarrow> (client_error, unit) action" where
  "reject_each E [] = give ()"
| "reject_each E (q # qs) = run_then (reject_single_symlink E q) (\<lambda>_. reject_each E qs)"

definition reject_symlink :: "disk_env \<Rightarrow> cpath \<Rightarrow> (client_error, unit) action" where
  "reject_symlink E p = reject_each E (ancestors p)"

section \<open>Setting and resetting a source\<close>

definition ensure :: "bool \<Rightarrow> 'e \<Rightarrow> ('e, unit) action" where
  "ensure b e = (if b then give () else refuse e)"

definition expected_content ::
  "disk_env \<Rightarrow> planned_source \<Rightarrow> cli_scope \<Rightarrow> string option \<Rightarrow> string option \<Rightarrow> client_error + string" where
  "expected_content E cmd sc distribution original =
     (if ps_target_code cmd = ''github''
      then (if sc \<noteq> CliUser then Inl OnlyUserScope else github_config_content (de_client E) original (ps_repo_url cmd))
      else if ps_target_code cmd = ''docker''
      then (if sc \<noteq> CliSystem then Inl OnlySystemScope else docker_config_content (de_client E) original (ps_repo_url cmd))
      else source_config_content (de_client E) (ps_target_code cmd) sc (ps_repo_url cmd) distribution)"

definition prepare_source_set_at ::
  "disk_env \<Rightarrow> planned_source \<Rightarrow> cli_scope \<Rightarrow> cpath \<Rightarrow> cpath \<Rightarrow> string option \<Rightarrow> bool \<Rightarrow> (client_error, rollback) action" where
  "prepare_source_set_at E cmd sc config_path rollback_path distribution force =
     run_then
       (if sc = CliSystem
        then (let migration_record = butlast rollback_path @ [''system.json''] in
              run_then (reject_symlink E migration_record) (\<lambda>_.
              run_then (path_exists E migration_record) (\<lambda>active. ensure (\<not> active) MigrationActive)))
        else give ()) (\<lambda>_.
     run_then (ensure (\<not> contains_str (ps_repo_url cmd) ''${MIRRORPROXY_BASE_URL}'') NeedsBaseUrl) (\<lambda>_.
     run_then (reject_symlink E rollback_path) (\<lambda>_.
     run_then (path_exists E rollback_path) (\<lambda>managed.
     run_then (ensure (\<not> managed) (AlreadyManaged (ps_target_code cmd))) (\<lambda>_.
     run_then (reject_symlink E config_path) (\<lambda>_.
     run_then (read_optional_file E config_path) (\<lambda>original.
     run_then (ensure (\<not> (is_some_and (\<lambda>c. trim c \<noteq> []) original \<and> ps_target_code cmd \<notin> set [''github'', ''docker''] \<and> \<not> force))
         (HasUserConfiguration config_path)) (\<lambda>_.
     run_then (lift_result (expected_content E cmd sc distribution original)) (\<lambda>content.
       give \<lparr>rb_target_code = ps_target_code cmd, rb_config_path = config_path, rb_original_content = original,
             rb_expected_content = content\<rparr>)))))))))"

definition apply_source_set_at ::
  "disk_env \<Rightarrow> planned_source \<Rightarrow> cli_scope \<Rightarrow> cpath \<Rightarrow> cpath \<Rightarrow> string option \<Rightarrow> bool \<Rightarrow> (client_error, unit) action" where
  "apply_source_set_at E cmd sc config_path rollback_path distribution force =
     run_then (prepare_source_set_at E cmd sc config_path rollback_path distribution force) (\<lambda>r.
     run_then (lift_result (ok_or BadRecord (de_print E r))) (\<lambda>text.
     run_then (write_atomic E rollback_path text) (\<lambda>_.
       write_atomic E config_path (rb_expected_content r))))"

definition apply_source_reset_at ::
  "disk_env \<Rightarrow> string \<Rightarrow> cpath \<Rightarrow> cpath \<Rightarrow> bool \<Rightarrow> (client_error, cpath) action" where
  "apply_source_reset_at E target_code expected_config_path rollback_path force =
     run_then (reject_symlink E rollback_path) (\<lambda>_.
     run_then (context_error (NoRecord target_code) (read_to_string E rollback_path)) (\<lambda>raw.
     run_then (lift_result (ok_or BadRecord (de_parse E raw))) (\<lambda>r.
     run_then (ensure (rb_target_code r = target_code) (RecordOfOtherTarget target_code)) (\<lambda>_.
     run_then (ensure (rb_config_path r = expected_config_path) (RecordOfOtherPath (rb_config_path r) expected_config_path)) (\<lambda>_.
     run_then (reject_symlink E (rb_config_path r)) (\<lambda>_.
     run_then (read_optional_file E (rb_config_path r)) (\<lambda>current.
       if current = rb_original_content r
       then run_then (context_error (IoError rollback_path) (remove_file E rollback_path)) (\<lambda>_. give (rb_config_path r))
       else
         run_then (ensure (current = Some (rb_expected_content r) \<or> force) (ChangedAfterSet (rb_config_path r))) (\<lambda>_.
         run_then (restore_original_file E (rb_config_path r) (rb_original_content r)) (\<lambda>_.
         run_then (context_error (IoError rollback_path) (remove_file E rollback_path)) (\<lambda>_.
           give (rb_config_path r)))))))))))"

section \<open>Reasoning about runs\<close>

text \<open>What holds of the disk after a run: if it succeeds, if it fails, and if it is cut off.\<close>

definition spec ::
  "(disk \<Rightarrow> bool) \<Rightarrow> ('e, 'a) action \<Rightarrow> ('a \<Rightarrow> disk \<Rightarrow> bool) \<Rightarrow> ('e \<Rightarrow> disk \<Rightarrow> bool) \<Rightarrow> (disk \<Rightarrow> bool) \<Rightarrow> bool" where
  "spec P m Q F K \<longleftrightarrow> (\<forall>st. P (fs_disk st) \<longrightarrow> (case m st of
       (Some (Inr a), s) \<Rightarrow> Q a (fs_disk s) | (Some (Inl e), s) \<Rightarrow> F e (fs_disk s) | (None, s) \<Rightarrow> K (fs_disk s)))"

named_theorems spec_rules

lemma spec_weaken:
  assumes "spec P m Q F K" and "\<And>d. P' d \<Longrightarrow> P d" and "\<And>a d. Q a d \<Longrightarrow> Q' a d" and "\<And>e d. F e d \<Longrightarrow> F' e d"
    and "\<And>d. K d \<Longrightarrow> K' d"
  shows "spec P' m Q' F' K'"
  unfolding spec_def
proof (intro allI impI)
  fix st :: fsys assume "P' (fs_disk st)"
  then show "case m st of (Some (Inr a), s) \<Rightarrow> Q' a (fs_disk s) | (Some (Inl e), s) \<Rightarrow> F' e (fs_disk s) | (None, s) \<Rightarrow> K' (fs_disk s)"
    using assms(1)[unfolded spec_def, rule_format, of st] assms(2-5)
    by (auto split: prod.splits option.splits sum.splits)
qed

lemma spec_give [spec_rules]: "(\<And>d. P d \<Longrightarrow> Q a d) \<Longrightarrow> spec P (give a) Q F K"
  by (simp add: spec_def give_def)

lemma spec_refuse [spec_rules]: "(\<And>d. P d \<Longrightarrow> F e d) \<Longrightarrow> spec P (refuse e) Q F K"
  by (simp add: spec_def refuse_def)

lemma spec_attempt:
  assumes "spec P m Q1 F1 K" and "\<And>a. spec (Q1 a) (k (Inr a)) Q F K" and "\<And>e. spec (F1 e) (k (Inl e)) Q F K"
  shows "spec P (attempt m k) Q F K"
  unfolding spec_def
proof (intro allI impI)
  fix st :: fsys assume P: "P (fs_disk st)"
  obtain r s where m: "m st = (r, s)" by fastforce
  consider "r = None" | a where "r = Some (Inr a)" | e where "r = Some (Inl e)"
    by (metis not_Some_eq old.sum.exhaust)
  then show "case attempt m k st of (Some (Inr a), s) \<Rightarrow> Q a (fs_disk s) | (Some (Inl e), s) \<Rightarrow> F e (fs_disk s) | (None, s) \<Rightarrow> K (fs_disk s)"
    using assms(1)[unfolded spec_def, rule_format, OF P] assms(2,3)[unfolded spec_def, rule_format] m
    by cases (simp_all add: attempt_def)
qed

lemma spec_run_then:
  assumes "spec P m Q1 F K" and "\<And>a. spec (Q1 a) (k a) Q F K"
  shows "spec P (run_then m k) Q F K"
  unfolding run_then_def
  by (rule spec_attempt[OF assms(1)]) (auto intro: assms(2) spec_refuse)

lemma spec_context:
  assumes "spec P m Q (\<lambda>_. F e) K"
  shows "spec P (context_error e m) Q F K"
  unfolding context_error_def
  by (rule spec_attempt[OF assms]) (auto intro: spec_give spec_refuse)

lemma spec_syscall:
  assumes "\<And>d. P d \<Longrightarrow> (case fst (act d) of Inr a \<Rightarrow> Q a (snd (act d)) | Inl e \<Rightarrow> F e (snd (act d)))"
    and "\<And>n d. P d \<Longrightarrow> F OtherError (part n d)" and "\<And>n d. P d \<Longrightarrow> K (part n d)"
  shows "spec P (syscall E op part act) Q F K"
  unfolding spec_def
proof (intro allI impI)
  fix st :: fsys assume "P (fs_disk st)"
  from assms(1)[OF this] assms(2,3)[OF this]
  show "case syscall E op part act st of (Some (Inr a), s) \<Rightarrow> Q a (fs_disk s) | (Some (Inl e), s) \<Rightarrow> F e (fs_disk s) | (None, s) \<Rightarrow> K (fs_disk s)"
    by (cases "de_io E (fs_step st) op"; cases "fst (act (fs_disk st))") (simp_all add: syscall_def Let_def)
qed

lemma spec_unique:
  "(\<And>n d. P d \<Longrightarrow> Q (sibling p role (de_pid E) n) d) \<Longrightarrow> spec P (unique_sibling_path E p role) Q F K"
  by (simp add: spec_def unique_sibling_path_def)

text \<open>Questions leave the disk alone.\<close>

definition asks :: "('e, 'a) action \<Rightarrow> (disk \<Rightarrow> 'a \<Rightarrow> bool) \<Rightarrow> bool" where
  "asks m A \<longleftrightarrow> (\<forall>P. spec P m (\<lambda>a d. P d \<and> A d a) (\<lambda>_. P) P)"

lemma asks_spec: "asks m A \<Longrightarrow> (\<And>a. spec (\<lambda>d. P d \<and> A d a) (k a) Q F K) \<Longrightarrow> (\<And>e d. P d \<Longrightarrow> F e d) \<Longrightarrow> (\<And>d. P d \<Longrightarrow> K d)
    \<Longrightarrow> spec P (run_then m k) Q F K"
  by (rule spec_run_then[where ?Q1.0 = "\<lambda>a d. P d \<and> A d a"])
    (auto simp: asks_def intro: spec_weaken[of P m])

lemma asks_weaken: "asks m A \<Longrightarrow> (\<And>d a. A d a \<Longrightarrow> B d a) \<Longrightarrow> asks m B"
  unfolding asks_def by (blast intro: spec_weaken)

lemma asks_then:
  assumes "asks m A" and "\<And>a. asks (k a) (\<lambda>d b. A d a \<longrightarrow> B d b)"
  shows "asks (run_then m k) B"
  unfolding asks_def
proof
  fix P
  show "spec P (run_then m k) (\<lambda>a d. P d \<and> B d a) (\<lambda>_. P) P"
  proof (rule asks_spec[OF assms(1)])
    fix a
    have "spec (\<lambda>d. P d \<and> A d a) (k a) (\<lambda>b d. (P d \<and> A d a) \<and> (A d a \<longrightarrow> B d b)) (\<lambda>_ d. P d \<and> A d a) (\<lambda>d. P d \<and> A d a)"
      using assms(2) unfolding asks_def by blast
    then show "spec (\<lambda>d. P d \<and> A d a) (k a) (\<lambda>b d. P d \<and> B d b) (\<lambda>_. P) P"
      by (rule spec_weaken) auto
  qed auto
qed

lemma asks_give: "(\<And>d. A d a) \<Longrightarrow> asks (give a) A"
  by (simp add: asks_def spec_give)

lemma asks_refuse: "asks (refuse e) A"
  by (simp add: asks_def spec_refuse)

lemma asks_attempt_syscall:
  assumes "\<And>d. snd (act d) = d" and "\<And>r. asks (k r) (\<lambda>d b. (fst (act d) = r \<or> r = Inl OtherError) \<longrightarrow> B d b)"
  shows "asks (attempt (syscall E op untouched act) k) B"
  unfolding asks_def
proof
  fix P
  let ?R = "\<lambda>r d. P d \<and> (fst (act d) = r \<or> r = Inl OtherError)"
  have a: "spec P (syscall E op untouched act) (\<lambda>a. ?R (Inr a)) (\<lambda>e. ?R (Inl e)) P"
    by (rule spec_syscall) (auto simp: assms(1) untouched_def split: sum.split)
  have b: "spec (?R r) (k r) (\<lambda>a d. P d \<and> B d a) (\<lambda>_. P) P" for r
    using assms(2)[of r, unfolded asks_def, rule_format, of "?R r"] by (rule spec_weaken) auto
  show "spec P (attempt (syscall E op untouched act) k) (\<lambda>a d. P d \<and> B d a) (\<lambda>_. P) P"
    by (rule spec_attempt[OF a]) (rule b)+
qed

section \<open>Replacing a file keeps the old or installs the new\<close>

lemma set_ancestors: "set (ancestors p) = (\<lambda>n. take n p) ` {..length p}"
  by (auto simp: ancestors_def atMost_def image_def less_Suc_eq_le simp del: upt_Suc)

lemma ancestors_Cons: "ancestors p = p # tl (ancestors p)"
  by (simp add: ancestors_def)

lemma self_ancestor: "p \<in> set (ancestors p)"
  by (subst ancestors_Cons) simp

lemma set_tl_ancestors: "set (tl (ancestors p)) = (\<lambda>n. take n p) ` {..<length p}"
  by (auto simp: ancestors_def)

lemma own_parents: "p \<noteq> [] \<Longrightarrow> p \<notin> set (ancestors (butlast p))"
proof
  assume "p \<noteq> []" and "p \<in> set (ancestors (butlast p))"
  then obtain n where "p = take n (butlast p)" by (auto simp: set_ancestors)
  then have "length p \<le> length (butlast p)" by (metis length_take min.cobounded1)
  moreover have "0 < length p" using \<open>p \<noteq> []\<close> by simp
  ultimately show False unfolding length_butlast by linarith
qed

text \<open>Names of the client's temporary files end in a digit.\<close>

definition settled_name :: "cpath \<Rightarrow> bool" where
  "settled_name p \<longleftrightarrow> p \<noteq> [] \<and> last p \<noteq> [] \<and> \<not> is_digit (last (last p))"

lemma dec_of_nat_digit: "dec_of_nat n \<noteq> [] \<and> is_digit (last (dec_of_nat n))"
  using dec_of_nat.simps[of n] by (cases "n < 10") (simp_all add: is_digit_def)

lemma sibling_not_settled: "settled_name q \<Longrightarrow> sibling p role pid n \<noteq> q"
  using dec_of_nat_digit[of n] by (auto simp: settled_name_def sibling_def)

lemma siblings_differ: "sibling p ''new'' pid n \<noteq> sibling p ''old'' pid m"
  by (simp add: sibling_def)

lemma moved_file: "d a \<noteq> Some Directory \<Longrightarrow> moved a b d = d(a := None, b := d a)"
  by (simp add: moved_def)

lemma make_dirs_other: "q \<notin> set ps \<Longrightarrow> make_dirs ps d q = d q"
  by (simp add: make_dirs_def)

lemma spec_rename:
  assumes "\<And>d. P d \<Longrightarrow> d a \<noteq> Some Directory" and "\<And>d e. P d \<Longrightarrow> d a = Some e \<Longrightarrow> Q (d(a := None, b \<mapsto> e))"
  shows "spec P (rename E a b) (\<lambda>_. Q) (\<lambda>_. P) P"
  unfolding rename_def
proof (rule spec_syscall)
  fix d assume "P d"
  then show "case fst (case symlink_metadata d a of Inl e \<Rightarrow> (Inl e, d)
       | Inr e \<Rightarrow> if d b = Some Directory \<or> e = Directory \<and> d b \<noteq> None \<or> d (butlast b) \<noteq> Some Directory then (Inl OtherError, d)
           else (Inr (), moved a b d)) of
     Inl e \<Rightarrow> P (snd (case symlink_metadata d a of Inl e \<Rightarrow> (Inl e, d)
       | Inr e \<Rightarrow> if d b = Some Directory \<or> e = Directory \<and> d b \<noteq> None \<or> d (butlast b) \<noteq> Some Directory then (Inl OtherError, d)
           else (Inr (), moved a b d)))
   | Inr _ \<Rightarrow> Q (snd (case symlink_metadata d a of Inl e \<Rightarrow> (Inl e, d)
       | Inr e \<Rightarrow> if d b = Some Directory \<or> e = Directory \<and> d b \<noteq> None \<or> d (butlast b) \<noteq> Some Directory then (Inl OtherError, d)
           else (Inr (), moved a b d)))"
    using assms(1)[of d] assms(2)[of d] by (cases "d a") (simp_all add: symlink_metadata_def moved_file)
qed (simp_all add: untouched_def)

lemma spec_remove_file:
  assumes "\<And>d. P d \<Longrightarrow> d p \<noteq> Some Directory \<Longrightarrow> Q (d(p := None))"
  shows "spec P (remove_file E p) (\<lambda>_. Q) (\<lambda>_. P) P"
  unfolding remove_file_def
  by (rule spec_syscall)
    (auto simp: untouched_def symlink_metadata_def assms split: option.splits sum.splits entry.splits)

lemma spec_path_exists:
  "spec P (path_exists E p) (\<lambda>_. P) F P"
  unfolding path_exists_def
  by (rule spec_attempt[where ?Q1.0 = "\<lambda>_. P" and ?F1.0 = "\<lambda>_. P"])
    (auto intro!: spec_syscall spec_give simp: untouched_def split: sum.splits)

lemma spec_given: "(X \<Longrightarrow> spec P m Q F K) \<Longrightarrow> spec (\<lambda>d. X \<and> P d) m Q F K"
  by (auto simp: spec_def)

lemma spec_then_unique:
  assumes "\<And>n. spec P (k (sibling p role (de_pid E) n)) Q F K"
  shows "spec P (run_then (unique_sibling_path E p role) k) Q F K"
  by (rule spec_run_then[where ?Q1.0 = "\<lambda>a d. (\<exists>n. a = sibling p role (de_pid E) n) \<and> P d"])
    (auto intro!: spec_unique spec_given assms)

text \<open>The last part, once the new file is written beside the old one.\<close>

lemma install_keeps:
  assumes names: "tp \<noteq> p" "tp \<noteq> q" "pp \<noteq> p" "pp \<noteq> q" "tp \<noteq> pp" "q \<noteq> p" and e0: "e0 \<noteq> Some Directory"
    and R: "R = (\<lambda>d. d p \<in> {e0, None, Some (TextFile content)} \<and> d q = f0)"
  shows "spec (\<lambda>d. d p = None \<and> d pp = e0 \<and> d q = f0 \<and> d tp = Some (TextFile content))
    (attempt (rename E tp p) (\<lambda>r. case r of
              Inr _ \<Rightarrow> context_error (IoError pp) (remove_file E pp)
            | Inl _ \<Rightarrow> attempt (rename E pp p) (\<lambda>_. attempt (remove_file E tp) (\<lambda>_. refuse (IoError p)))))
    (\<lambda>_ d. d p = Some (TextFile content) \<and> d q = f0) (\<lambda>_. R) R"
proof -
  let ?C = "\<lambda>d :: disk. d p = None \<and> d pp = e0 \<and> d q = f0 \<and> d tp = Some (TextFile content)"
  let ?D = "\<lambda>d :: disk. d p = Some (TextFile content) \<and> d q = f0"
  have 1: "spec ?C (rename E tp p) (\<lambda>_. ?D) (\<lambda>_. ?C) R"
    by (rule spec_weaken[OF spec_rename[where P = ?C and Q = ?D]]) (use names R in auto)
  have 2: "spec ?D (context_error (IoError pp) (remove_file E pp)) (\<lambda>_. ?D) (\<lambda>_. R) R"
    by (rule spec_context, rule spec_weaken[OF spec_remove_file[where P = ?D and Q = ?D]]) (use names R in auto)
  have 3: "spec ?C (rename E pp p) (\<lambda>_. R) (\<lambda>_. R) R"
    by (rule spec_weaken[OF spec_rename[where P = ?C and Q = R]]) (use names R e0 in auto)
  have 4: "spec R (remove_file E tp) (\<lambda>_. R) (\<lambda>_. R) R"
    by (rule spec_remove_file) (use names R in auto)
  show ?thesis
    by (rule spec_attempt[OF 1]) (auto intro!: 2 spec_attempt[OF 3] spec_attempt[OF 4] spec_refuse)
qed

lemma write_atomic_keeps:
  assumes p: "settled_name p" and q: "settled_name q" "q \<noteq> p" "q \<notin> set (ancestors (butlast p))" and e0: "e0 \<noteq> Some Directory"
    and R: "R = (\<lambda>d. d p \<in> {e0, None, Some (TextFile content)} \<and> d q = f0)"
  shows "spec (\<lambda>d. d p = e0 \<and> d q = f0) (write_atomic E p content) (\<lambda>_ d. d p = Some (TextFile content) \<and> d q = f0) (\<lambda>_. R) R"
proof -
  let ?A = "\<lambda>d :: disk. d p = e0 \<and> d q = f0"
  have ne: "p \<noteq> []" using p by (simp add: settled_name_def)
  have dirs: "spec ?A (context_error (IoError (butlast p)) (create_dir_all E (butlast p))) (\<lambda>_. ?A) (\<lambda>_. R) R"
    unfolding create_dir_all_def
    by (rule spec_context, rule spec_syscall)
      (use own_parents[OF ne] q(3) in \<open>auto simp: R make_dirs_def dest: in_set_takeD\<close>)
  have rest: "spec ?A (run_then (context_error (IoError tp) (open_new E tp)) (\<lambda>_.
      run_then (context_error (IoError tp) (write_all E tp content)) (\<lambda>_.
      run_then (context_error (IoError tp) (sync_all E)) (\<lambda>_.
      run_then (path_exists E p) (\<lambda>exists.
        if \<not> exists then context_error (IoError p) (rename E tp p)
        else
          run_then (unique_sibling_path E p ''old'') (\<lambda>pp.
          run_then (context_error (IoError p) (rename E p pp)) (\<lambda>_.
          attempt (rename E tp p) (\<lambda>r. case r of
              Inr _ \<Rightarrow> context_error (IoError pp) (remove_file E pp)
            | Inl _ \<Rightarrow> attempt (rename E pp p) (\<lambda>_. attempt (remove_file E tp) (\<lambda>_. refuse (IoError p)))))))))))
      (\<lambda>_ d. d p = Some (TextFile content) \<and> d q = f0) (\<lambda>_. R) R" if tp: "tp = sibling p ''new'' (de_pid E) n" for tp n
  proof -
    let ?B = "\<lambda>d :: disk. d p = e0 \<and> d q = f0 \<and> d tp = Some (TextFile content)"
    have tq: "tp \<noteq> p" "tp \<noteq> q" using sibling_not_settled[OF p] sibling_not_settled[OF q(1)] tp by auto
    have 1: "spec ?A (context_error (IoError tp) (open_new E tp)) (\<lambda>_. ?A) (\<lambda>_. R) R"
      unfolding open_new_def by (rule spec_context, rule spec_syscall) (use tq in \<open>auto simp: R untouched_def\<close>)
    have 2: "spec ?A (context_error (IoError tp) (write_all E tp content)) (\<lambda>_. ?B) (\<lambda>_. R) R"
      unfolding write_all_def by (rule spec_context, rule spec_syscall) (use tq in \<open>auto simp: R\<close>)
    have 3: "spec ?B (context_error (IoError tp) (sync_all E)) (\<lambda>_. ?B) (\<lambda>_. R) R"
      unfolding sync_all_def by (rule spec_context, rule spec_syscall) (auto simp: R untouched_def)
    have 4: "spec ?B (path_exists E p) (\<lambda>_. ?B) (\<lambda>_. R) R"
      by (rule spec_weaken[OF spec_path_exists[where P = ?B and F = "\<lambda>_. R"]]) (auto simp: R)
    have 5: "spec ?B (context_error (IoError p) (rename E tp p)) (\<lambda>_ d. d p = Some (TextFile content) \<and> d q = f0) (\<lambda>_. R) R"
      by (rule spec_context, rule spec_weaken[OF spec_rename[where P = ?B and Q = "\<lambda>d. d p = Some (TextFile content) \<and> d q = f0"]])
        (use tq q(2) in \<open>auto simp: R\<close>)
    have 6: "spec ?B (run_then (context_error (IoError p) (rename E p pp)) (\<lambda>_.
          attempt (rename E tp p) (\<lambda>r. case r of
              Inr _ \<Rightarrow> context_error (IoError pp) (remove_file E pp)
            | Inl _ \<Rightarrow> attempt (rename E pp p) (\<lambda>_. attempt (remove_file E tp) (\<lambda>_. refuse (IoError p))))))
        (\<lambda>_ d. d p = Some (TextFile content) \<and> d q = f0) (\<lambda>_. R) R" if pp: "pp = sibling p ''old'' (de_pid E) m" for pp m
    proof -
      have pq: "pp \<noteq> p" "pp \<noteq> q" "tp \<noteq> pp"
        using sibling_not_settled[OF p] sibling_not_settled[OF q(1)] siblings_differ tp pp by auto
      let ?C = "\<lambda>d :: disk. d p = None \<and> d pp = e0 \<and> d q = f0 \<and> d tp = Some (TextFile content)"
      have "spec ?B (context_error (IoError p) (rename E p pp)) (\<lambda>_. ?C) (\<lambda>_. R) R"
        by (rule spec_context, rule spec_weaken[OF spec_rename[where P = ?B and Q = ?C]]) (use tq pq q(2) e0 in \<open>auto simp: R\<close>)
      then show ?thesis
        by (rule spec_run_then) (rule install_keeps[OF tq pq(1,2,3) q(2) e0 R])
    qed
    show ?thesis
      by (rule spec_run_then[OF 1], rule spec_run_then[OF 2], rule spec_run_then[OF 3], rule spec_run_then[OF 4])
        (auto intro!: 5 spec_then_unique 6)
  qed
  show ?thesis
    unfolding write_atomic_def using ne
    by (simp add: spec_run_then[OF dirs] spec_then_unique rest)
qed

section \<open>What the questions find out\<close>

text \<open>\<open>Path::exists\<close> answers no when it cannot find out; the guarantees below need it to find out.\<close>

definition reliable :: "disk_env \<Rightarrow> bool" where
  "reliable E \<longleftrightarrow> (\<forall>n k. de_io E n Exists \<noteq> Breaks k)"

lemma asks_path_exists:
  assumes "reliable E"
  shows "asks (path_exists E p) (\<lambda>d b. b \<longleftrightarrow> d p \<noteq> None)"
  unfolding asks_def spec_def
proof (intro allI impI)
  fix P and st :: fsys assume "P (fs_disk st)"
  then show "case path_exists E p st of (Some (Inr a), s) \<Rightarrow> P (fs_disk s) \<and> (a \<longleftrightarrow> fs_disk s p \<noteq> None)
      | (Some (Inl e), s) \<Rightarrow> P (fs_disk s) | (None, s) \<Rightarrow> P (fs_disk s)"
    using assms[unfolded reliable_def, rule_format, of "fs_step st"]
    by (cases "de_io E (fs_step st) Exists"; cases "fs_disk st p")
      (simp_all add: path_exists_def attempt_def syscall_def Let_def give_def untouched_def symlink_metadata_def)
qed

lemma asks_reject: "asks (reject_symlink E p) (\<lambda>_ _. True)"
proof -
  have "asks (reject_single_symlink E q) (\<lambda>_ _. True)" for q
    unfolding reject_single_symlink_def
    by (rule asks_attempt_syscall) (auto intro: asks_give asks_refuse split: sum.split io_error.split)
  then have "asks (reject_each E qs) (\<lambda>_ _. True)" for qs
    by (induction qs) (auto intro: asks_give asks_then[where A = "\<lambda>_ _. True"])
  then show ?thesis by (simp add: reject_symlink_def)
qed

lemma asks_read_optional: "asks (read_optional_file E p) (\<lambda>d c. d p = map_option TextFile c)"
  unfolding read_optional_file_def read_to_string_def
  by (rule asks_attempt_syscall)
    (auto intro!: asks_give asks_refuse split: sum.split io_error.split
      simp: symlink_metadata_def split: option.splits entry.splits)

lemma asks_read: "asks (context_error e (read_to_string E p)) (\<lambda>d s. d p = Some (TextFile s))"
  unfolding context_error_def read_to_string_def
  by (rule asks_attempt_syscall)
    (auto intro!: asks_give asks_refuse split: sum.split
      simp: symlink_metadata_def split: option.splits entry.splits)

lemma asks_ensure: "asks (ensure b e) (\<lambda>_ _. b)"
  by (auto simp: ensure_def intro: asks_give asks_refuse)

lemma asks_lift: "asks (lift_result r) (\<lambda>_ a. r = Inr a)"
  by (auto simp: lift_result_def intro: asks_give asks_refuse split: sum.split)

lemmas asks_intros = asks_reject asks_read_optional asks_read asks_ensure asks_lift

lemma prepare_finds:
  assumes "reliable E"
  shows "asks (prepare_source_set_at E cmd sc cp rp distribution force)
    (\<lambda>d r. d rp = None \<and> d cp = map_option TextFile (rb_original_content r) \<and> rb_target_code r = ps_target_code cmd \<and> rb_config_path r = cp
       \<and> expected_content E cmd sc distribution (rb_original_content r) = Inr (rb_expected_content r))"
proof -
  have s: "asks (if sc = CliSystem
        then (let migration_record = butlast rp @ [''system.json''] in
              run_then (reject_symlink E migration_record) (\<lambda>_.
              run_then (path_exists E migration_record) (\<lambda>active. ensure (\<not> active) MigrationActive)))
        else give ()) (\<lambda>_ _. True)"
    by (auto simp: Let_def intro!: asks_give asks_then[OF asks_reject] asks_then[OF asks_path_exists[OF assms]] asks_weaken[OF asks_ensure])
  show ?thesis
    unfolding prepare_source_set_at_def
    by (rule asks_then[OF s], rule asks_then[OF asks_ensure], rule asks_then[OF asks_reject],
        rule asks_then[OF asks_path_exists[OF assms]], rule asks_then[OF asks_ensure], rule asks_then[OF asks_reject],
        rule asks_then[OF asks_read_optional], rule asks_then[OF asks_ensure], rule asks_then[OF asks_lift], rule asks_give) auto
qed

section \<open>The original is never lost\<close>

text \<open>A target that is not managed: no record, the configuration as the user left it.  A managed
  one: a complete record of the original, and the configuration file holds the original, the
  new content, or was moved aside.\<close>

definition pristine :: "cpath \<Rightarrow> cpath \<Rightarrow> entry option \<Rightarrow> disk \<Rightarrow> bool" where
  "pristine cp rp e0 d \<longleftrightarrow> d rp = None \<and> d cp = e0"

definition managed :: "(string \<Rightarrow> rollback option) \<Rightarrow> string \<Rightarrow> cpath \<Rightarrow> cpath \<Rightarrow> string option \<Rightarrow> disk \<Rightarrow> bool" where
  "managed parse target cp rp original d \<longleftrightarrow> (\<exists>s x. d rp = Some (TextFile s)
     \<and> parse s = Some \<lparr>rb_target_code = target, rb_config_path = cp, rb_original_content = original, rb_expected_content = x\<rparr>
     \<and> d cp \<in> {map_option TextFile original, None, Some (TextFile x)})"

definition recoverable :: "(string \<Rightarrow> rollback option) \<Rightarrow> string \<Rightarrow> cpath \<Rightarrow> cpath \<Rightarrow> entry option \<Rightarrow> disk \<Rightarrow> bool" where
  "recoverable parse target cp rp e0 d \<longleftrightarrow>
     pristine cp rp e0 d \<or> (\<exists>original. e0 = map_option TextFile original \<and> managed parse target cp rp original d)"

definition separate_paths :: "cpath \<Rightarrow> cpath \<Rightarrow> bool" where
  "separate_paths cp rp \<longleftrightarrow> settled_name cp \<and> settled_name rp \<and> cp \<noteq> rp
     \<and> rp \<notin> set (ancestors (butlast cp)) \<and> cp \<notin> set (ancestors (butlast rp))"

definition codec_ok :: "(string \<Rightarrow> rollback option) \<Rightarrow> disk_env \<Rightarrow> bool" where
  "codec_ok parse E \<longleftrightarrow> de_parse E = parse \<and> (\<forall>r s. de_print E r = Some s \<longrightarrow> parse s = Some r)"

lemma set_keeps_recoverable:
  assumes sep: "separate_paths cp rp" and codec: "codec_ok parse E" and rel: "reliable E"
    and I: "I = recoverable parse (ps_target_code cmd) cp rp e0"
  shows "spec I (apply_source_set_at E cmd sc cp rp distribution force) (\<lambda>_. I) (\<lambda>_. I) I"
  unfolding apply_source_set_at_def
proof (rule asks_spec[OF prepare_finds[OF rel]])
  fix r :: rollback
  let ?e = "map_option TextFile (rb_original_content r)"
  let ?ok = "e0 = ?e \<and> rb_target_code r = ps_target_code cmd \<and> rb_config_path r = cp"
  let ?P = "\<lambda>d. ?ok \<and> (d rp = None \<and> d cp = ?e)"
  have nd: "?e \<noteq> Some Directory" by (cases "rb_original_content r") auto
  have "spec ?P (run_then (lift_result (ok_or BadRecord (de_print E r))) (\<lambda>raw.
     run_then (write_atomic E rp raw) (\<lambda>_. write_atomic E cp (rb_expected_content r)))) (\<lambda>_. I) (\<lambda>_. I) I"
  proof (rule spec_given, rule asks_spec[OF asks_lift])
    fix raw
    assume ok: ?ok
    show "spec (\<lambda>d. (d rp = None \<and> d cp = ?e) \<and> ok_or BadRecord (de_print E r) = Inr raw)
       (run_then (write_atomic E rp raw) (\<lambda>_. write_atomic E cp (rb_expected_content r))) (\<lambda>_. I) (\<lambda>_. I) I"
    proof (cases "de_print E r = Some raw")
      case True
      then have r: "parse raw = Some \<lparr>rb_target_code = ps_target_code cmd, rb_config_path = cp,
          rb_original_content = rb_original_content r, rb_expected_content = rb_expected_content r\<rparr>"
        using codec ok by (cases r) (auto simp: codec_ok_def)
      have early: "I d" if "d rp = None \<or> d rp = Some (TextFile raw)" "d cp = ?e" for d
        using that ok r by (auto simp: I recoverable_def pristine_def managed_def)
      have late: "I d" if "d rp = Some (TextFile raw)" "d cp \<in> {?e, None, Some (TextFile (rb_expected_content r))}" for d
        using that ok r by (auto simp: I recoverable_def managed_def)
      have 1: "spec (\<lambda>d. d rp = None \<and> d cp = ?e) (write_atomic E rp raw) (\<lambda>_ d. d rp = Some (TextFile raw) \<and> d cp = ?e) (\<lambda>_. I) I"
        by (rule spec_weaken[OF write_atomic_keeps[OF _ _ _ _ _ refl, where p = rp and q = cp and ?e0.0 = None and ?f0.0 = ?e]])
          (use sep in \<open>auto simp: separate_paths_def intro: early\<close>)
      have 2: "spec (\<lambda>d. d rp = Some (TextFile raw) \<and> d cp = ?e) (write_atomic E cp (rb_expected_content r)) (\<lambda>_. I) (\<lambda>_. I) I"
        by (rule spec_weaken[OF write_atomic_keeps[OF _ _ _ _ nd refl, where p = cp and q = rp and ?f0.0 = "Some (TextFile raw)"]])
          (use sep in \<open>auto simp: separate_paths_def intro: late\<close>)
      show ?thesis
        by (rule spec_weaken[OF spec_run_then[OF 1 2]]) auto
    qed (auto simp: spec_def)
  qed (auto simp: I recoverable_def pristine_def)
  then show "spec (\<lambda>d. I d \<and> d rp = None \<and> d cp = ?e \<and> rb_target_code r = ps_target_code cmd \<and> rb_config_path r = cp
       \<and> expected_content E cmd sc distribution (rb_original_content r) = Inr (rb_expected_content r))
     (run_then (lift_result (ok_or BadRecord (de_print E r))) (\<lambda>raw.
     run_then (write_atomic E rp raw) (\<lambda>_. write_atomic E cp (rb_expected_content r)))) (\<lambda>_. I) (\<lambda>_. I) I"
    by (rule spec_weaken) (auto simp: I recoverable_def pristine_def managed_def)
qed auto

lemma restore_keeps:
  assumes sep: "separate_paths cp rp" and e0: "e0 = map_option TextFile original"
    and I: "\<And>d. d rp = f0 \<Longrightarrow> d cp \<in> {map_option TextFile current, None, e0} \<Longrightarrow> I d"
  shows "spec (\<lambda>d. d cp = map_option TextFile current \<and> d rp = f0) (restore_original_file E cp original)
    (\<lambda>_ d. d cp = e0 \<and> d rp = f0) (\<lambda>_. I) I"
proof (cases original)
  case (Some content)
  have "map_option TextFile current \<noteq> Some Directory" by (cases current) auto
  note w = write_atomic_keeps[OF _ _ _ _ this refl, where p = cp and q = rp and ?f0.0 = f0 and content = content and E = E]
  show ?thesis
    unfolding restore_original_file_def Some option.case
    by (rule spec_weaken[OF w]) (use sep e0 Some in \<open>auto simp: separate_paths_def intro: I\<close>)
next
  case None
  let ?P = "\<lambda>d :: disk. d cp = map_option TextFile current \<and> d rp = f0"
  let ?Q = "\<lambda>d :: disk. d cp = None \<and> d rp = f0"
  have "spec ?P (remove_file E cp) (\<lambda>_. ?Q) (\<lambda>e d. if e = NotFound then ?Q d else ?P d) ?P"
    unfolding remove_file_def
  proof (rule spec_syscall)
    fix d assume "?P d"
    then show "case fst (case symlink_metadata d cp of Inl e \<Rightarrow> (Inl e, d) | Inr Directory \<Rightarrow> (Inl OtherError, d) | Inr _ \<Rightarrow> (Inr (), d(cp := None))) of
        Inl e \<Rightarrow> if e = NotFound then ?Q (snd (case symlink_metadata d cp of Inl e \<Rightarrow> (Inl e, d) | Inr Directory \<Rightarrow> (Inl OtherError, d) | Inr _ \<Rightarrow> (Inr (), d(cp := None))))
          else ?P (snd (case symlink_metadata d cp of Inl e \<Rightarrow> (Inl e, d) | Inr Directory \<Rightarrow> (Inl OtherError, d) | Inr _ \<Rightarrow> (Inr (), d(cp := None))))
      | Inr _ \<Rightarrow> ?Q (snd (case symlink_metadata d cp of Inl e \<Rightarrow> (Inl e, d) | Inr Directory \<Rightarrow> (Inl OtherError, d) | Inr _ \<Rightarrow> (Inr (), d(cp := None))))"
      using sep by (cases current) (auto simp: symlink_metadata_def separate_paths_def)
  qed (auto simp: untouched_def)
  then have r: "spec ?P (remove_file E cp) (\<lambda>_. ?Q) (\<lambda>e d. if e = NotFound then ?Q d else ?P d) I"
    by (rule spec_weaken) (auto intro: I)
  show ?thesis
    unfolding restore_original_file_def None option.case
    by (rule spec_attempt[OF r])
      (use e0 None in \<open>auto intro!: spec_give spec_refuse I split: io_error.split if_splits\<close>)
qed

lemma drop_record:
  assumes "separate_paths cp rp" and "\<And>d. d rp = f0 \<Longrightarrow> d cp = e0 \<Longrightarrow> I d"
  shows "spec (\<lambda>d. d cp = e0 \<and> d rp = f0) (run_then (context_error (IoError rp) (remove_file E rp)) (\<lambda>_. give cp))
    (\<lambda>_. pristine cp rp e0) (\<lambda>_. I) I"
proof -
  have "spec (\<lambda>d. d cp = e0 \<and> d rp = f0) (context_error (IoError rp) (remove_file E rp)) (\<lambda>_. pristine cp rp e0) (\<lambda>_. I) I"
    by (rule spec_context, rule spec_weaken[OF spec_remove_file[where P = "\<lambda>d. d cp = e0 \<and> d rp = f0" and Q = "pristine cp rp e0"]])
      (use assms in \<open>auto simp: pristine_def separate_paths_def\<close>)
  then show ?thesis by (rule spec_run_then) (auto intro: spec_give)
qed

lemma managedD:
  assumes "managed parse target cp rp original d" and "d rp = Some (TextFile raw)" and "parse raw = Some r"
  shows "rb_original_content r = original" and "d cp \<in> {map_option TextFile original, None, Some (TextFile (rb_expected_content r))}"
    and "rb_target_code r = target" and "rb_config_path r = cp"
  using assms by (auto simp: managed_def)

lemma reset_keeps_recoverable:
  assumes sep: "separate_paths cp rp" and codec: "codec_ok parse E" and I: "I = recoverable parse target cp rp e0"
  shows "spec I (apply_source_reset_at E target cp rp force) (\<lambda>_. pristine cp rp e0) (\<lambda>_. I) I"
  unfolding apply_source_reset_at_def
proof (rule asks_spec[OF asks_reject], rule asks_spec[OF asks_read], rule asks_spec[OF asks_lift], rule asks_spec[OF asks_ensure],
    rule asks_spec[OF asks_ensure], rule asks_spec[OF asks_reject], rule asks_spec[OF asks_read_optional])
  fix raw r and current :: "string option"
  let ?e = "map_option TextFile current"
  let ?X = "parse raw = Some r \<and> rb_target_code r = target \<and> rb_config_path r = cp \<and> e0 = map_option TextFile (rb_original_content r)
    \<and> ?e \<in> {e0, None, Some (TextFile (rb_expected_content r))}"
  let ?tail = "if current = rb_original_content r
       then run_then (context_error (IoError rp) (remove_file E rp)) (\<lambda>_. give (rb_config_path r))
       else
         run_then (ensure (current = Some (rb_expected_content r) \<or> force) (ChangedAfterSet (rb_config_path r))) (\<lambda>_.
         run_then (restore_original_file E (rb_config_path r) (rb_original_content r)) (\<lambda>_.
         run_then (context_error (IoError rp) (remove_file E rp)) (\<lambda>_.
           give (rb_config_path r))))"
  have "spec (\<lambda>d. ?X \<and> (d cp = ?e \<and> d rp = Some (TextFile raw))) ?tail (\<lambda>_. pristine cp rp e0) (\<lambda>_. I) I"
  proof (rule spec_given)
    assume X: ?X
    then have r: "parse raw = Some \<lparr>rb_target_code = target, rb_config_path = cp, rb_original_content = rb_original_content r,
        rb_expected_content = rb_expected_content r\<rparr>" by (cases r) auto
    have stays: "I d" if "d rp = Some (TextFile raw)" "d cp \<in> {?e, None, e0}" for d
    proof -
      have "managed parse target cp rp (rb_original_content r) d"
        unfolding managed_def
      proof (intro exI conjI)
        show "d rp = Some (TextFile raw)" by (rule that)
        show "d cp \<in> {map_option TextFile (rb_original_content r), None, Some (TextFile (rb_expected_content r))}"
          using that(2) X by auto
      qed (rule r)
      then show ?thesis using X unfolding I recoverable_def by blast
    qed
    note drop = drop_record[OF sep, where ?f0.0 = "Some (TextFile raw)" and ?e0.0 = e0 and I = I and E = E]
    note keep = restore_keeps[OF sep, where ?e0.0 = e0 and ?f0.0 = "Some (TextFile raw)" and current = current and I = I and E = E
        and original = "rb_original_content r"]
    show "spec (\<lambda>d. d cp = ?e \<and> d rp = Some (TextFile raw)) ?tail (\<lambda>_. pristine cp rp e0) (\<lambda>_. I) I"
    proof (cases "current = rb_original_content r")
      case True
      then show ?thesis using X stays drop by auto
    next
      case False
      have "spec (\<lambda>d. d cp = ?e \<and> d rp = Some (TextFile raw)) (run_then (restore_original_file E cp (rb_original_content r)) (\<lambda>_.
         run_then (context_error (IoError rp) (remove_file E rp)) (\<lambda>_. give cp))) (\<lambda>_. pristine cp rp e0) (\<lambda>_. I) I"
        by (rule spec_run_then[OF keep drop]) (use X stays in auto)
      note rest = this
      have cpr: "rb_config_path r = cp" using X by simp
      show ?thesis
        unfolding cpr if_not_P[OF False]
        by (rule asks_spec[OF asks_ensure], rule spec_weaken[OF rest]) (use stays in auto)
    qed
  qed
  then show "spec (\<lambda>d. (((((((I d \<and> True) \<and> d rp = Some (TextFile raw)) \<and> ok_or BadRecord (de_parse E raw) = Inr r) \<and> rb_target_code r = target)
       \<and> rb_config_path r = cp) \<and> True) \<and> d (rb_config_path r) = ?e)) ?tail (\<lambda>_. pristine cp rp e0) (\<lambda>_. I) I"
  proof (rule spec_weaken)
    fix d assume a: "((((((I d \<and> True) \<and> d rp = Some (TextFile raw)) \<and> ok_or BadRecord (de_parse E raw) = Inr r) \<and> rb_target_code r = target)
       \<and> rb_config_path r = cp) \<and> True) \<and> d (rb_config_path r) = ?e"
    then have p: "parse raw = Some r" using codec by (simp add: codec_ok_def)
    obtain original where o: "e0 = map_option TextFile original" "managed parse target cp rp original d"
      using a by (auto simp: I recoverable_def pristine_def)
    have c: "d cp = ?e" "d rp = Some (TextFile raw)" "rb_target_code r = target" "rb_config_path r = cp" using a by auto
    show "?X \<and> d cp = ?e \<and> d rp = Some (TextFile raw)"
      using managedD(1,2)[OF o(2) c(2) p] o(1) p c by (simp only: simp_thms)
  qed
qed auto

text \<open>What happens to the files over time: runs of the client, each with its own luck, and any
  change elsewhere.\<close>

inductive client_step :: "(string \<Rightarrow> rollback option) \<Rightarrow> string \<Rightarrow> cpath \<Rightarrow> cpath \<Rightarrow> disk \<Rightarrow> disk \<Rightarrow> bool"
  for parse target cp rp where
  set_run: "\<lbrakk>codec_ok parse E; reliable E; ps_target_code cmd = target;
     apply_source_set_at E cmd sc cp rp distribution force (started d) = (res, st)\<rbrakk> \<Longrightarrow> client_step parse target cp rp d (fs_disk st)"
| reset_run: "\<lbrakk>codec_ok parse E; apply_source_reset_at E target cp rp force (started d) = (res, st)\<rbrakk>
     \<Longrightarrow> client_step parse target cp rp d (fs_disk st)"
| elsewhere: "\<lbrakk>d' cp = d cp; d' rp = d rp\<rbrakk> \<Longrightarrow> client_step parse target cp rp d d'"

lemma spec_run:
  assumes "spec P m (\<lambda>_. P) (\<lambda>_. P) P" and "m (started d) = (res, st)" and "P d"
  shows "P (fs_disk st)"
  using assms(1)[unfolded spec_def, rule_format, of "started d"] assms(2,3)
  by (auto simp: started_def split: option.splits sum.splits)

lemma client_step_recoverable:
  assumes "client_step parse target cp rp d d'" and sep: "separate_paths cp rp" and "recoverable parse target cp rp e0 d"
  shows "recoverable parse target cp rp e0 d'"
  using assms(1,3)
proof cases
  case (set_run E cmd sc distribution force res st)
  then show ?thesis
    using spec_run[OF set_keeps_recoverable[OF sep _ _ refl]] assms(3) by blast
next
  case (reset_run E force res st)
  have "spec (recoverable parse target cp rp e0) (apply_source_reset_at E target cp rp force)
    (\<lambda>_. recoverable parse target cp rp e0) (\<lambda>_. recoverable parse target cp rp e0) (recoverable parse target cp rp e0)"
    by (rule spec_weaken[OF reset_keeps_recoverable[OF sep reset_run(2) refl]]) (auto simp: recoverable_def)
  then show ?thesis using spec_run reset_run assms(3) by blast
qed (auto simp: recoverable_def pristine_def managed_def)

lemma client_steps_recoverable:
  assumes "(client_step parse target cp rp)\<^sup>*\<^sup>* d d'" and "separate_paths cp rp" and "recoverable parse target cp rp e0 d"
  shows "recoverable parse target cp rp e0 d'"
  using assms by (induction rule: rtranclp_induct) (auto intro: client_step_recoverable)

section \<open>Runs in which everything works\<close>

definition working :: "disk_env \<Rightarrow> bool" where
  "working E \<longleftrightarrow> (\<forall>n op. de_io E n op = Works)"

definition results :: "('e, 'a) action \<Rightarrow> disk \<Rightarrow> 'e + 'a \<Rightarrow> disk \<Rightarrow> bool" where
  "results m d r d' \<longleftrightarrow> (\<forall>st. fs_disk st = d \<longrightarrow> (\<exists>s. m st = (Some r, s) \<and> fs_disk s = d'))"

lemma results_give: "results (give a) d (Inr a) d"
  by (simp add: results_def give_def)

lemma results_attempt: "results m d r d1 \<Longrightarrow> results (k r) d1 r2 d2 \<Longrightarrow> results (attempt m k) d r2 d2"
  by (fastforce simp: results_def attempt_def)

lemma results_then: "results m d (Inr a) d1 \<Longrightarrow> results (k a) d1 r2 d2 \<Longrightarrow> results (run_then m k) d r2 d2"
  unfolding run_then_def by (rule results_attempt) auto

lemma results_context: "results m d (Inr a) d1 \<Longrightarrow> results (context_error e m) d (Inr a) d1"
  unfolding context_error_def by (rule results_attempt) (auto intro: results_give)

lemma results_syscall: "working E \<Longrightarrow> act d = (r, d1) \<Longrightarrow> results (syscall E op part act) d r d1"
  by (simp add: results_def syscall_def working_def Let_def)

lemma results_unique:
  assumes "\<And>n. results (k (sibling p role (de_pid E) n)) d r d'"
  shows "results (run_then (unique_sibling_path E p role) k) d r d'"
  using assms by (auto simp: results_def run_then_def attempt_def unique_sibling_path_def)

lemma results_ensure: "b \<Longrightarrow> results (ensure b e) d (Inr ()) d"
  by (simp add: ensure_def results_give)

lemma results_lift: "r = Inr a \<Longrightarrow> results (lift_result r) d (Inr a) d"
  by (simp add: lift_result_def results_give)

lemma results_exists: "working E \<Longrightarrow> results (path_exists E p) d (Inr (d p \<noteq> None)) d"
  unfolding path_exists_def
  by (rule results_attempt[OF results_syscall[OF _ refl]], assumption, cases "d p")
    (auto simp: symlink_metadata_def results_def give_def)

definition clear_path :: "disk \<Rightarrow> cpath \<Rightarrow> bool" where
  "clear_path d p \<longleftrightarrow> \<not> list_ex (blocks d) (ancestors (butlast p))"

lemma tl_ancestors: "p \<noteq> [] \<Longrightarrow> tl (ancestors p) = ancestors (butlast p)"
  by (cases p rule: rev_cases) (auto simp: ancestors_def)

lemma results_reject:
  assumes "working E" and "clear_path d p" and "p \<noteq> []" and "d p \<noteq> Some Symlink"
  shows "results (reject_symlink E p) d (Inr ()) d"
proof -
  have single: "results (reject_single_symlink E q) d (Inr ()) d" if q: "q \<in> set (ancestors p)" for q
  proof -
    have sub: "set (tl (ancestors q)) \<subseteq> set (tl (ancestors p))"
    proof
      fix x assume "x \<in> set (tl (ancestors q))"
      then obtain m where m: "x = take m q" "m < length q" by (auto simp: set_tl_ancestors)
      obtain n where "q = take n p" using q by (auto simp: set_ancestors)
      then have "x = take m p" "m < length p" using m by (auto simp: min_def split: if_splits)
      then show "x \<in> set (tl (ancestors p))" by (auto simp: set_tl_ancestors)
    qed
    have "d q \<noteq> Some Symlink"
      using q assms(2,4) by (subst (asm) ancestors_Cons) (auto simp: clear_path_def list_ex_iff blocks_def tl_ancestors[OF assms(3)])
    moreover have "\<not> list_ex (blocks d) (tl (ancestors q))"
      using sub assms(2) by (auto simp: clear_path_def list_ex_iff tl_ancestors[OF assms(3)])
    ultimately show ?thesis
      unfolding reject_single_symlink_def
      by (intro results_attempt[OF results_syscall[OF assms(1) refl]]) (auto simp: symlink_metadata_def results_give split: option.split)
  qed
  have "results (reject_each E qs) d (Inr ()) d" if "set qs \<subseteq> set (ancestors p)" for qs
    using that by (induction qs) (auto intro: results_give results_then single)
  then show ?thesis by (simp add: reject_symlink_def)
qed

lemma results_read: "working E \<Longrightarrow> d p = Some (TextFile s) \<Longrightarrow> results (read_to_string E p) d (Inr s) d"
  unfolding read_to_string_def by (rule results_syscall) (auto simp: symlink_metadata_def)

lemma results_read_optional:
  assumes "working E" and "p \<noteq> []" and "clear_path d p" and "d p = map_option TextFile c"
  shows "results (read_optional_file E p) d (Inr c) d"
  unfolding read_optional_file_def read_to_string_def
  using assms(2-4)
  by (intro results_attempt[OF results_syscall[OF assms(1) refl]], cases c)
    (auto simp: symlink_metadata_def clear_path_def tl_ancestors results_give)

definition unused :: "disk_env \<Rightarrow> cpath \<Rightarrow> disk \<Rightarrow> bool" where
  "unused E p d \<longleftrightarrow> (\<forall>n. d (sibling p ''new'' (de_pid E) n) = None \<and> d (sibling p ''old'' (de_pid E) n) = None)"

lemma sibling_parent: "butlast (sibling p role pid n) = butlast p"
  by (simp add: sibling_def)

lemma sibling_own_parents: "p \<noteq> [] \<Longrightarrow> sibling p role pid n \<notin> set (ancestors (butlast p))"
  using own_parents[of "sibling p role pid n"] by (simp add: sibling_parent) (simp add: sibling_def)

lemma write_atomic_works:
  assumes w: "working E" and p: "settled_name p" and clear: "clear_path d p" and unused: "unused E p d" and nd: "d p \<noteq> Some Directory"
  shows "results (write_atomic E p content) d (Inr ()) ((make_dirs (ancestors (butlast p)) d)(p \<mapsto> TextFile content))"
proof -
  have ne: "p \<noteq> []" using p by (simp add: settled_name_def)
  let ?d1 = "make_dirs (ancestors (butlast p)) d"
  have dir: "?d1 (butlast p) = Some Directory"
    using clear self_ancestor[of "butlast p"] by (auto simp: make_dirs_def clear_path_def list_ex_iff blocks_def)
  have dp: "?d1 p = d p" using own_parents[OF ne] by (simp add: make_dirs_def)
  have free: "?d1 (sibling p ''new'' (de_pid E) n) = None" "?d1 (sibling p ''old'' (de_pid E) n) = None" for n
    using unused sibling_own_parents[OF ne] by (simp_all add: make_dirs_def unused_def)
  have rest: "results (run_then (context_error (IoError tp) (open_new E tp)) (\<lambda>_.
      run_then (context_error (IoError tp) (write_all E tp content)) (\<lambda>_.
      run_then (context_error (IoError tp) (sync_all E)) (\<lambda>_.
      run_then (path_exists E p) (\<lambda>exists.
        if \<not> exists then context_error (IoError p) (rename E tp p)
        else
          run_then (unique_sibling_path E p ''old'') (\<lambda>pp.
          run_then (context_error (IoError p) (rename E p pp)) (\<lambda>_.
          attempt (rename E tp p) (\<lambda>r. case r of
              Inr _ \<Rightarrow> context_error (IoError pp) (remove_file E pp)
            | Inl _ \<Rightarrow> attempt (rename E pp p) (\<lambda>_. attempt (remove_file E tp) (\<lambda>_. refuse (IoError p)))))))))))
      ?d1 (Inr ()) (?d1(p \<mapsto> TextFile content))" if tp: "tp = sibling p ''new'' (de_pid E) n" for tp n
  proof -
    let ?d2 = "?d1(tp \<mapsto> TextFile content)"
    have t: "tp \<noteq> p" "?d1 tp = None" "butlast tp = butlast p" "butlast p \<noteq> tp" "butlast p \<noteq> p"
      using sibling_not_settled[OF p] free tp dir sibling_parent own_parents[OF ne] self_ancestor[of "butlast p"] by auto
    have 1: "results (context_error (IoError tp) (open_new E tp)) ?d1 (Inr ()) (?d1(tp \<mapsto> TextFile []))"
      unfolding open_new_def by (intro results_context results_syscall w) (use t dir in simp)
    have 2: "results (context_error (IoError tp) (write_all E tp content)) (?d1(tp \<mapsto> TextFile [])) (Inr ()) ?d2"
      unfolding write_all_def by (intro results_context results_syscall w) simp
    have 3: "results (context_error (IoError tp) (sync_all E)) ?d2 (Inr ()) ?d2"
      unfolding sync_all_def by (intro results_context results_syscall w) simp
    have 4: "results (path_exists E p) ?d2 (Inr (d p \<noteq> None)) ?d2"
      using results_exists[OF w, of p ?d2] t dp by simp
    have 5: "results (context_error (IoError p) (rename E tp p)) ?d2 (Inr ()) (?d1(p \<mapsto> TextFile content))"
      unfolding rename_def by (intro results_context results_syscall w)
        (use t dir dp nd in \<open>auto simp: symlink_metadata_def moved_file fun_eq_iff\<close>)
    have 6: "results (run_then (context_error (IoError p) (rename E p pp)) (\<lambda>_.
          attempt (rename E tp p) (\<lambda>r. case r of
              Inr _ \<Rightarrow> context_error (IoError pp) (remove_file E pp)
            | Inl _ \<Rightarrow> attempt (rename E pp p) (\<lambda>_. attempt (remove_file E tp) (\<lambda>_. refuse (IoError p)))))) ?d2 (Inr ()) (?d1(p \<mapsto> TextFile content))"
      if pp: "pp = sibling p ''old'' (de_pid E) m" and e: "d p = Some e" for pp m e
    proof -
      have q: "pp \<noteq> p" "pp \<noteq> tp" "?d1 pp = None" "butlast pp = butlast p" "butlast p \<noteq> pp"
        using sibling_not_settled[OF p] siblings_differ free tp pp dir sibling_parent by auto metis
      let ?d3 = "?d2(p := None, pp \<mapsto> e)"
      have a: "results (context_error (IoError p) (rename E p pp)) ?d2 (Inr ()) ?d3"
        unfolding rename_def by (intro results_context results_syscall w)
          (use t q dir dp nd e in \<open>auto simp: symlink_metadata_def moved_file fun_eq_iff\<close>)
      have b: "results (rename E tp p) ?d3 (Inr ()) (?d1(p \<mapsto> TextFile content, pp \<mapsto> e))"
        unfolding rename_def by (intro results_syscall w)
          (use t q dir dp e in \<open>auto simp: symlink_metadata_def moved_file fun_eq_iff\<close>)
      have c: "results (context_error (IoError pp) (remove_file E pp)) (?d1(p \<mapsto> TextFile content, pp \<mapsto> e)) (Inr ()) (?d1(p \<mapsto> TextFile content))"
        unfolding remove_file_def by (intro results_context results_syscall w)
          (use t q e nd in \<open>auto simp: symlink_metadata_def fun_eq_iff split: entry.split\<close>)
      show ?thesis by (rule results_then[OF a], rule results_attempt[OF b]) (simp add: c)
    qed
    show ?thesis
    proof (rule results_then[OF 1], rule results_then[OF 2], rule results_then[OF 3], rule results_then[OF 4], cases "d p")
      case (Some e)
      then show "results (if \<not> d p \<noteq> None then context_error (IoError p) (rename E tp p)
        else run_then (unique_sibling_path E p ''old'') (\<lambda>pp.
          run_then (context_error (IoError p) (rename E p pp)) (\<lambda>_.
          attempt (rename E tp p) (\<lambda>r. case r of
              Inr _ \<Rightarrow> context_error (IoError pp) (remove_file E pp)
            | Inl _ \<Rightarrow> attempt (rename E pp p) (\<lambda>_. attempt (remove_file E tp) (\<lambda>_. refuse (IoError p))))))) ?d2 (Inr ()) (?d1(p \<mapsto> TextFile content))"
        by (simp add: results_unique 6)
    qed (simp add: 5)
  qed
  have dirs: "results (context_error (IoError (butlast p)) (create_dir_all E (butlast p))) d (Inr ()) ?d1"
    unfolding create_dir_all_def by (intro results_context results_syscall w) (use clear in \<open>simp add: clear_path_def\<close>)
  show ?thesis
    unfolding write_atomic_def if_not_P[OF ne]
    by (rule results_then[OF dirs], rule results_unique, rule rest[OF refl])
qed

text \<open>Everything but two files is as before, except for directories that were missing.\<close>

definition spares :: "cpath set \<Rightarrow> disk \<Rightarrow> disk \<Rightarrow> bool" where
  "spares qs d d' \<longleftrightarrow> (\<forall>q. q \<notin> qs \<longrightarrow> d' q = d q \<or> d q = None \<and> d' q = Some Directory)"

lemma reset_works:
  assumes w: "working E" and codec: "codec_ok parse E" and sep: "separate_paths cp rp" and clear: "clear_path d cp" "clear_path d rp"
    and unused: "unused E cp d" and m: "managed parse target cp rp original d"
    and allowed: "force \<or> d cp = map_option TextFile original \<or> (\<exists>s r. d rp = Some (TextFile s) \<and> parse s = Some r \<and> d cp = Some (TextFile (rb_expected_content r)))"
  shows "\<exists>d'. results (apply_source_reset_at E target cp rp force) d (Inr cp) d' \<and> d' cp = map_option TextFile original \<and> d' rp = None
    \<and> spares {cp, rp} d d'"
proof -
  obtain raw x where rp: "d rp = Some (TextFile raw)"
    and raw: "parse raw = Some \<lparr>rb_target_code = target, rb_config_path = cp, rb_original_content = original, rb_expected_content = x\<rparr>"
    and c: "d cp \<in> {map_option TextFile original, None, Some (TextFile x)}"
    using m unfolding managed_def by blast
  define r where "r = \<lparr>rb_target_code = target, rb_config_path = cp, rb_original_content = original, rb_expected_content = x\<rparr>"
  have ne: "cp \<noteq> []" "rp \<noteq> []" "cp \<noteq> rp" "rp \<notin> set (ancestors (butlast cp))" and sn: "settled_name cp"
    using sep by (auto simp: separate_paths_def settled_name_def)
  obtain current where cur: "d cp = map_option TextFile current"
    using c by (metis insertE option.simps(8) option.simps(9) singletonD)
  have nsym: "d cp \<noteq> Some Symlink" "d cp \<noteq> Some Directory" using cur by (cases current; auto)+
  have drop: "results (run_then (context_error (IoError rp) (remove_file E rp)) (\<lambda>_. give cp)) d1 (Inr cp) (d1(rp := None))"
    if "d1 rp = Some (TextFile raw)" for d1
    unfolding remove_file_def
    by (rule results_then[OF results_context[OF results_syscall[OF w]]], simp add: symlink_metadata_def that, rule results_give)
  let ?tail = "if current = rb_original_content r
       then run_then (context_error (IoError rp) (remove_file E rp)) (\<lambda>_. give (rb_config_path r))
       else
         run_then (ensure (current = Some (rb_expected_content r) \<or> force) (ChangedAfterSet (rb_config_path r))) (\<lambda>_.
         run_then (restore_original_file E (rb_config_path r) (rb_original_content r)) (\<lambda>_.
         run_then (context_error (IoError rp) (remove_file E rp)) (\<lambda>_.
           give (rb_config_path r))))"
  have tail: "\<exists>d'. results ?tail d (Inr cp) d' \<and> d' cp = map_option TextFile original \<and> d' rp = None \<and> spares {cp, rp} d d'"
  proof (cases "current = original")
    case True
    then have "results ?tail d (Inr cp) (d(rp := None))" using drop[of d] rp by (simp add: r_def)
    then show ?thesis using True cur ne by (intro exI[of _ "d(rp := None)"]) (auto simp: spares_def)
  next
    case False
    have ok: "current = Some x \<or> force"
      using allowed False cur rp raw by (cases current; cases original) auto
    have "\<exists>d1. results (restore_original_file E cp original) d (Inr ()) d1 \<and> d1 cp = map_option TextFile original
      \<and> d1 rp = Some (TextFile raw) \<and> spares {cp, rp} d d1"
    proof (cases original)
      case None
      then obtain s where "current = Some s" using False by (cases current) auto
      then have "results (restore_original_file E cp original) d (Inr ()) (d(cp := None))"
        unfolding restore_original_file_def None option.case remove_file_def
        by (intro results_attempt[OF results_syscall[OF w]]) (use cur in \<open>auto simp: symlink_metadata_def results_give\<close>)
      then show ?thesis using None rp ne by (intro exI[of _ "d(cp := None)"]) (auto simp: spares_def)
    next
      case (Some s)
      show ?thesis
        using write_atomic_works[OF w sn clear(1) unused nsym(2), of s] Some rp ne
        by (intro exI[of _ "(make_dirs (ancestors (butlast cp)) d)(cp \<mapsto> TextFile s)"])
          (auto simp: restore_original_file_def spares_def make_dirs_def)
    qed
    then obtain d1 where d1: "results (restore_original_file E cp original) d (Inr ()) d1" "d1 cp = map_option TextFile original"
      "d1 rp = Some (TextFile raw)" "spares {cp, rp} d d1" by blast
    have "results ?tail d (Inr cp) (d1(rp := None))"
      using False ok by (auto simp: r_def intro!: results_then[OF results_ensure] results_then[OF d1(1)] drop[of d1] d1(3))
    then show ?thesis using d1 ne by (intro exI[of _ "d1(rp := None)"]) (auto simp: spares_def)
  qed
  then obtain d' where d': "results ?tail d (Inr cp) d'" "d' cp = map_option TextFile original \<and> d' rp = None \<and> spares {cp, rp} d d'" by blast
  have 1: "results (reject_symlink E rp) d (Inr ()) d" by (rule results_reject[OF w clear(2) ne(2)]) (simp add: rp)
  have 2: "results (context_error (NoRecord target) (read_to_string E rp)) d (Inr raw) d"
    by (rule results_context, rule results_read[OF w]) (rule rp)
  have 3: "results (lift_result (ok_or BadRecord (de_parse E raw))) d (Inr r) d"
    by (rule results_lift) (use codec raw in \<open>simp add: codec_ok_def r_def\<close>)
  have 4: "results (ensure (rb_target_code r = target) (RecordOfOtherTarget target)) d (Inr ()) d"
    and 5: "results (ensure (rb_config_path r = cp) (RecordOfOtherPath (rb_config_path r) cp)) d (Inr ()) d"
    by (rule results_ensure, simp add: r_def)+
  have 6: "results (reject_symlink E (rb_config_path r)) d (Inr ()) d"
    using results_reject[OF w clear(1) ne(1) nsym(1)] by (simp add: r_def)
  have 7: "results (read_optional_file E (rb_config_path r)) d (Inr current) d"
    using results_read_optional[OF w ne(1) clear(1) cur] by (simp add: r_def)
  have "results (apply_source_reset_at E target cp rp force) d (Inr cp) d'"
    unfolding apply_source_reset_at_def
    by (rule results_then[OF 1], rule results_then[OF 2], rule results_then[OF 3], rule results_then[OF 4], rule results_then[OF 5],
        rule results_then[OF 6], rule results_then[OF 7], rule d'(1))
  then show ?thesis using d'(2) by blast
qed

lemma results_started: "results m d r d' \<Longrightarrow> \<exists>st. m (started d) = (Some r, st) \<and> fs_disk st = d'"
  by (simp add: results_def started_def)

section \<open>The guarantees\<close>

text \<open>C8: The client never loses the user's configuration.  Start with a target that is not
  managed and let any number of \<open>set\<close> and \<open>reset\<close> commands run, with or without \<open>--force\<close>, each
  of them failing at or being cut off in any system call, while other files change at will.
  As long as existence checks are answered, at every moment either there is no record and
  the configuration file is exactly the original, or there is a record with which
  \<open>reset --force\<close>, once the file system works, succeeds, restores the original exactly,
  removes the record and touches nothing else but missing parent directories.\<close>

theorem original_never_lost:
  assumes "separate_paths cp rp" and "d rp = None" and "(client_step parse target cp rp)\<^sup>*\<^sup>* d d'"
  shows "(d' rp = None \<longrightarrow> d' cp = d cp)
    \<and> (d' rp \<noteq> None \<longrightarrow> (\<forall>E. working E \<and> codec_ok parse E \<and> clear_path d' cp \<and> clear_path d' rp \<and> unused E cp d' \<longrightarrow>
         (\<exists>st. apply_source_reset_at E target cp rp True (started d') = (Some (Inr cp), st)
            \<and> fs_disk st cp = d cp \<and> fs_disk st rp = None \<and> spares {cp, rp} d' (fs_disk st))))"
proof -
  have "recoverable parse target cp rp (d cp) d'"
    by (rule client_steps_recoverable[OF assms(3,1)]) (use assms(2) in \<open>auto simp: recoverable_def pristine_def\<close>)
  then consider "d' rp = None" "d' cp = d cp"
    | original where "d cp = map_option TextFile original" "managed parse target cp rp original d'" "d' rp \<noteq> None"
    by (auto simp: recoverable_def pristine_def managed_def)
  then show ?thesis
  proof cases
    case (2 original)
    have "\<exists>st. apply_source_reset_at E target cp rp True (started d') = (Some (Inr cp), st)
            \<and> fs_disk st cp = d cp \<and> fs_disk st rp = None \<and> spares {cp, rp} d' (fs_disk st)"
      if "working E \<and> codec_ok parse E \<and> clear_path d' cp \<and> clear_path d' rp \<and> unused E cp d'" for E
      using reset_works[OF _ _ assms(1) _ _ _ 2(2), of E True] that 2(1) by (auto dest: results_started)
    then show ?thesis using 2(3) by blast
  qed simp
qed

lemma set_works:
  assumes w: "working E" and codec: "codec_ok parse E" and sep: "separate_paths cp rp" and clear: "clear_path d cp" "clear_path d rp"
    and unused: "unused E cp d" "unused E rp d" and apart: "\<forall>role n. sibling cp role (de_pid E) n \<notin> set (ancestors (butlast rp))"
    and p: "prepare_source_set_at E cmd sc cp rp distribution force (started d) = (Some (Inr r), s)" and printed: "de_print E r = Some raw"
  shows "\<exists>st. apply_source_set_at E cmd sc cp rp distribution force (started d) = (Some (Inr ()), st)
    \<and> fs_disk st = (make_dirs (ancestors (butlast cp)) (make_dirs (ancestors (butlast rp)) d))(rp \<mapsto> TextFile raw, cp \<mapsto> TextFile (rb_expected_content r))"
proof -
  have rel: "reliable E" using w by (simp add: working_def reliable_def)
  have s: "fs_disk s = d" "d rp = None" "d cp = map_option TextFile (rb_original_content r)"
    using prepare_finds[OF rel, of cmd sc cp rp distribution force, unfolded asks_def spec_def, rule_format,
        of "\<lambda>d1. d1 = d" "started d"] p by (auto simp: started_def)
  have sn: "settled_name cp" "settled_name rp" and apart2: "cp \<noteq> rp" "rp \<notin> set (ancestors (butlast cp))" "cp \<notin> set (ancestors (butlast rp))"
    using sep by (auto simp: separate_paths_def)
  let ?d1 = "(make_dirs (ancestors (butlast rp)) d)(rp \<mapsto> TextFile raw)"
  have 1: "results (write_atomic E rp raw) d (Inr ()) ?d1"
    by (rule write_atomic_works[OF w sn(2) clear(2) unused(2)]) (use s in simp)
  have cl: "clear_path ?d1 cp"
    using clear(1) apart2 by (auto simp: clear_path_def list_ex_iff blocks_def make_dirs_def)
  have un: "unused E cp ?d1"
    using unused(1) apart sibling_not_settled[OF sn(2)] by (auto simp: unused_def make_dirs_def)
  have nd: "?d1 cp \<noteq> Some Directory"
    using apart2 s(3) by (cases "rb_original_content r") (auto simp: make_dirs_def)
  have 2: "results (write_atomic E cp (rb_expected_content r)) ?d1 (Inr ())
      ((make_dirs (ancestors (butlast cp)) ?d1)(cp \<mapsto> TextFile (rb_expected_content r)))"
    by (rule write_atomic_works[OF w sn(1) cl un nd])
  have eq: "make_dirs (ancestors (butlast cp)) ?d1 = (make_dirs (ancestors (butlast cp)) (make_dirs (ancestors (butlast rp)) d))(rp \<mapsto> TextFile raw)"
    by (auto simp: make_dirs_def fun_eq_iff)
  have "results (run_then (lift_result (ok_or BadRecord (de_print E r))) (\<lambda>raw. run_then (write_atomic E rp raw) (\<lambda>_.
       write_atomic E cp (rb_expected_content r)))) d (Inr ()) ((make_dirs (ancestors (butlast cp)) ?d1)(cp \<mapsto> TextFile (rb_expected_content r)))"
    by (rule results_then[OF results_lift[where a = raw]], simp add: printed, rule results_then[OF 1 2])
  then show ?thesis
    using s(1) p unfolding eq by (auto simp: apply_source_set_at_def run_then_def attempt_def[of "prepare_source_set_at _ _ _ _ _ _ _"] results_def)
qed

text \<open>C9: Setting a source and resetting it is a round trip.  When the file system works and the
  checks accept the command, \<open>set\<close> succeeds, leaves the new content in the configuration file,
  and the following \<open>reset\<close>, without \<open>--force\<close>, succeeds and gives every file of the disk back
  exactly as it was, the configuration file included, or absent if it was absent; all that is
  left are parent directories that had to be created.\<close>

theorem set_reset_round_trip:
  assumes "working E" and "codec_ok parse E" and "working E'" and "codec_ok parse E'" and "separate_paths cp rp"
    and "clear_path d cp" and "clear_path d rp" and "unused E cp d" and "unused E rp d" and "unused E' cp d"
    and "\<forall>role pid n. sibling cp role pid n \<notin> set (ancestors (butlast rp))"
    and "prepare_source_set_at E cmd sc cp rp distribution force (started d) = (Some (Inr r), s)" and "de_print E r = Some raw"
  shows "\<exists>st st'. apply_source_set_at E cmd sc cp rp distribution force (started d) = (Some (Inr ()), st)
    \<and> fs_disk st cp = Some (TextFile (rb_expected_content r))
    \<and> apply_source_reset_at E' (ps_target_code cmd) cp rp False (started (fs_disk st)) = (Some (Inr cp), st')
    \<and> spares {} d (fs_disk st')"
proof -
  let ?A = "ancestors (butlast cp)" and ?B = "ancestors (butlast rp)"
  have rel: "reliable E" using assms(1) by (simp add: working_def reliable_def)
  have s: "d rp = None" "d cp = map_option TextFile (rb_original_content r)" "rb_target_code r = ps_target_code cmd" "rb_config_path r = cp"
    using prepare_finds[OF rel, of cmd sc cp rp distribution force, unfolded asks_def spec_def, rule_format,
        of "\<lambda>d1. d1 = d" "started d"] assms(12) by (auto simp: started_def)
  have sep: "cp \<noteq> rp" "cp \<notin> set ?A" "rp \<notin> set ?A" "cp \<notin> set ?B" "rp \<notin> set ?B" and sn: "settled_name cp" "settled_name rp"
    using assms(5) own_parents[of cp] own_parents[of rp] by (auto simp: separate_paths_def settled_name_def)
  obtain st where st: "apply_source_set_at E cmd sc cp rp distribution force (started d) = (Some (Inr ()), st)"
    "fs_disk st = (make_dirs ?A (make_dirs ?B d))(rp \<mapsto> TextFile raw, cp \<mapsto> TextFile (rb_expected_content r))"
    using set_works[OF assms(1,2,5-9) _ assms(12,13)] assms(11) by blast
  let ?d = "fs_disk st"
  have files: "?d rp = Some (TextFile raw)" "?d cp = Some (TextFile (rb_expected_content r))" using st(2) sep by auto
  have raw: "parse raw = Some r" using assms(2,13) by (simp add: codec_ok_def)
  have m: "managed parse (ps_target_code cmd) cp rp (rb_original_content r) ?d"
    unfolding managed_def using files raw s(3,4)
    by (intro exI[of _ raw] exI[of _ "rb_expected_content r"]) (cases r, auto)
  have cl: "clear_path ?d cp" "clear_path ?d rp"
    using assms(6,7) sep st(2) by (auto simp: clear_path_def list_ex_iff blocks_def make_dirs_def split: if_splits)
  have "unused E' cp ?d"
    using assms(10,11) sibling_not_settled[OF sn(1)] sibling_not_settled[OF sn(2)] sibling_own_parents[of cp] sn st(2)
    by (auto simp: unused_def make_dirs_def settled_name_def)
  from reset_works[OF assms(3,4,5) cl this m, of False] files raw
  obtain d' where d': "results (apply_source_reset_at E' (ps_target_code cmd) cp rp False) ?d (Inr cp) d'"
    "d' cp = map_option TextFile (rb_original_content r)" "d' rp = None" "spares {cp, rp} ?d d'" by blast
  have "spares {} d d'"
    unfolding spares_def
  proof (intro allI impI)
    fix q
    show "d' q = d q \<or> d q = None \<and> d' q = Some Directory"
    proof (cases "q \<in> {cp, rp}")
      case False
      then have "?d q = d q \<or> d q = None \<and> ?d q = Some Directory" using st(2) by (auto simp: make_dirs_def)
      moreover have "d' q = ?d q \<or> ?d q = None \<and> d' q = Some Directory" using d'(4) False by (simp add: spares_def)
      ultimately show ?thesis by auto
    qed (use d'(2,3) s in auto)
  qed
  then show ?thesis using st(1) files(2) results_started[OF d'(1)] by blast
qed

section \<open>An example\<close>

definition sample_cp :: cpath where "sample_cp = [''home'', ''.npmrc'']"
definition sample_rp :: cpath where "sample_rp = [''home'', ''state'', ''npm.json'']"

definition sample_disk :: disk where
  "sample_disk = (\<lambda>q. if q = [] \<or> q = [''home''] then Some Directory else if q = sample_cp then Some (TextFile ''save=true'') else None)"

definition sample_cmd :: planned_source where
  "sample_cmd = \<lparr>ps_target_code = ''npm'', ps_provider_code = ''npmmirror'', ps_repo_url = ''https://registry.npmmirror.com'', ps_command = []\<rparr>"

definition sample_rollback :: rollback where
  "sample_rollback = \<lparr>rb_target_code = ''npm'', rb_config_path = sample_cp, rb_original_content = Some ''save=true'',
     rb_expected_content = ''registry=https://registry.npmmirror.com'' @ nl\<rparr>"

definition sample_parse :: "string \<Rightarrow> rollback option" where
  "sample_parse s = (if s = ''{}'' then Some sample_rollback else None)"

definition sample_files :: "nat \<Rightarrow> disk_env" where
  "sample_files pid = \<lparr>de_client = sample_client, de_pid = pid, de_io = (\<lambda>_ _. Works), de_print = (\<lambda>r. if r = sample_rollback then Some ''{}'' else None), de_parse = sample_parse\<rparr>"

lemma sample_prepared:
  "\<exists>s. prepare_source_set_at (sample_files pid) sample_cmd CliUser sample_cp sample_rp None True (started sample_disk)
     = (Some (Inr sample_rollback), s)"
proof -
  have "fst (prepare_source_set_at (sample_files pid) sample_cmd CliUser sample_cp sample_rp None True (started sample_disk)) = Some (Inr sample_rollback)"
    by code_simp
  then show ?thesis by (metis prod.collapse)
qed

lemma sample_env_ok: "working (sample_files pid)" "codec_ok sample_parse (sample_files pid)" "reliable (sample_files pid)"
  by (auto simp: working_def reliable_def codec_ok_def sample_files_def sample_parse_def)

lemma sample_paths: "separate_paths sample_cp sample_rp" "clear_path sample_disk sample_cp" "clear_path sample_disk sample_rp"
    "sample_disk sample_rp = None" "sample_disk sample_cp = Some (TextFile ''save=true'')"
  by code_simp+

lemma sample_unused: "unused (sample_files pid) sample_cp sample_disk" "unused (sample_files pid) sample_rp sample_disk"
    "\<forall>role pid n. sibling sample_cp role pid n \<notin> set (ancestors (butlast sample_rp))"
  by (auto simp: unused_def sibling_def sample_disk_def sample_cp_def sample_rp_def ancestors_def)

theorem set_reset_round_trip_witness:
  "\<exists>st st'. apply_source_set_at (sample_files 1) sample_cmd CliUser sample_cp sample_rp None True (started sample_disk) = (Some (Inr ()), st)
    \<and> fs_disk st sample_cp = Some (TextFile (''registry=https://registry.npmmirror.com'' @ nl))
    \<and> apply_source_reset_at (sample_files 2) ''npm'' sample_cp sample_rp False (started (fs_disk st)) = (Some (Inr sample_cp), st')
    \<and> spares {} sample_disk (fs_disk st')"
proof -
  obtain s where p: "prepare_source_set_at (sample_files 1) sample_cmd CliUser sample_cp sample_rp None True (started sample_disk)
     = (Some (Inr sample_rollback), s)" using sample_prepared by blast
  have "de_print (sample_files 1) sample_rollback = Some ''{}''" by (simp add: sample_files_def)
  from set_reset_round_trip[OF sample_env_ok(1,2) sample_env_ok(1,2) sample_paths(1,2,3) sample_unused(1,2,1,3) p this]
  show ?thesis by (simp add: sample_cmd_def sample_rollback_def)
qed

theorem original_never_lost_witness:
  "\<exists>d' st. client_step sample_parse ''npm'' sample_cp sample_rp sample_disk d' \<and> d' sample_cp \<noteq> sample_disk sample_cp
     \<and> apply_source_reset_at (sample_files 2) ''npm'' sample_cp sample_rp True (started d') = (Some (Inr sample_cp), st)
     \<and> fs_disk st sample_cp = Some (TextFile ''save=true'')"
proof -
  obtain s where p: "prepare_source_set_at (sample_files 1) sample_cmd CliUser sample_cp sample_rp None True (started sample_disk)
     = (Some (Inr sample_rollback), s)" using sample_prepared by blast
  have "de_print (sample_files 1) sample_rollback = Some ''{}''" by (simp add: sample_files_def)
  moreover have "\<forall>role n. sibling sample_cp role (de_pid (sample_files 1)) n \<notin> set (ancestors (butlast sample_rp))"
    using sample_unused(3) by blast
  ultimately obtain st where st: "apply_source_set_at (sample_files 1) sample_cmd CliUser sample_cp sample_rp None True (started sample_disk) = (Some (Inr ()), st)"
    and d: "fs_disk st = (make_dirs (ancestors (butlast sample_cp)) (make_dirs (ancestors (butlast sample_rp)) sample_disk))
       (sample_rp \<mapsto> TextFile ''{}'', sample_cp \<mapsto> TextFile (rb_expected_content sample_rollback))"
    using set_works[OF sample_env_ok(1,2) sample_paths(1,2,3) sample_unused(1,2) _ p] by blast
  have step: "client_step sample_parse ''npm'' sample_cp sample_rp sample_disk (fs_disk st)"
    by (rule set_run[OF sample_env_ok(2,3) _ st]) (simp add: sample_cmd_def)
  have cl: "clear_path (fs_disk st) sample_cp" "clear_path (fs_disk st) sample_rp" unfolding d by code_simp+
  have un: "unused (sample_files 2) sample_cp (fs_disk st)"
    unfolding d by (auto simp: unused_def sibling_def sample_disk_def sample_cp_def sample_rp_def ancestors_def make_dirs_def)
  have rp: "fs_disk st sample_rp \<noteq> None" "fs_disk st sample_cp = Some (TextFile (rb_expected_content sample_rollback))"
    unfolding d by (simp_all add: sample_cp_def sample_rp_def)
  from original_never_lost[OF sample_paths(1,4) r_into_rtranclp[of "client_step sample_parse ''npm'' sample_cp sample_rp", OF step]] rp(1) cl un sample_env_ok
  obtain st' where "apply_source_reset_at (sample_files 2) ''npm'' sample_cp sample_rp True (started (fs_disk st)) = (Some (Inr sample_cp), st')"
    "fs_disk st' sample_cp = sample_disk sample_cp" by blast
  moreover have "fs_disk st sample_cp \<noteq> sample_disk sample_cp" using rp(2) sample_paths(5) by (simp add: sample_rollback_def)
  ultimately show ?thesis using step sample_paths(5) by auto
qed

end
