(* ===== verification/Local_Accounts.thy ===== *)
theory Local_Accounts
  imports External_Signin
begin

text \<open>
  Password accounts and registration links (\<open>crates/server/src/local_accounts.rs\<close>,
  \<open>crates/server/src/database/local_accounts.rs\<close>): invitations an administrator hands out, the
  account that claims one, sign-in with a password and its lockout, and the change of a
  password.  Sign-in and password change first read a row, then spend a while on Argon2, and
  only then write; other operations may run in between, so each of them is a reading and a
  writing step here.  A stored billing choice is kept as the value its JSON text denotes.
\<close>

section \<open>Tables\<close>

record account_billing =
  bl_group_id :: "int option"
  bl_quota_mode :: string
  bl_monthly_gb :: "nat option"

definition AccountBilling_default :: account_billing where
  "AccountBilling_default = \<lparr>bl_group_id = None, bl_quota_mode = ''default'', bl_monthly_gb = None\<rparr>"

definition AccountBilling_validate :: "account_billing \<Rightarrow> bool" where
  "AccountBilling_validate b \<longleftrightarrow> bl_quota_mode b \<in> set [''default'', ''custom'', ''unlimited'']
     \<and> (bl_quota_mode b = ''custom'' \<longleftrightarrow> bl_monthly_gb b \<noteq> None)
     \<and> (case bl_monthly_gb b of None \<Rightarrow> True | Some gb \<Rightarrow> int gb \<le> I64_MAX div (1024 * 1024 * 1024))"

record registration_row =
  rg_id :: int
  rg_token_hash :: string
  rg_billing :: account_billing
  rg_status :: string
  rg_expires_at :: int
  rg_created_at :: int
  rg_created_by :: string
  rg_user_id :: "int option"

record credential_row =
  cr_user_id :: int
  cr_password_hash :: string
  cr_failed_attempts :: int
  cr_locked_until :: int

record local_tables =
  lo_store :: store
  lo_invitations :: "registration_row list"
  lo_invitations_seq :: int
  lo_credentials :: "credential_row list"

datatype local_create_outcome = Created int | UsernameExists | InvalidInvitation | InvalidGroup

datatype local_error = BillingInvalid | PasswordHashFailed | RoutingFailed | SqlConstraint

text \<open>What the operations draw or compute outside the program: Argon2 with its random salt, the
  encoding of routing ids and its random numbers.\<close>

record local_env =
  le_crypto :: crypto
  le_hash_password :: "string \<Rightarrow> string option"
  le_sqids :: sqids
  le_rng :: "nat \<Rightarrow> nat"

definition valid_group :: "int option \<Rightarrow> store \<Rightarrow> bool" where
  "valid_group gid st = (case gid of None \<Rightarrow> True | Some i \<Rightarrow> billing_group_exists i (qdb st))"

definition on_store :: "(store \<Rightarrow> store) \<Rightarrow> local_tables \<Rightarrow> local_tables" where
  "on_store f t = t\<lparr>lo_store := f (lo_store t)\<rparr>"

definition local_audit :: "int \<Rightarrow> string \<Rightarrow> string \<Rightarrow> string \<Rightarrow> local_tables \<Rightarrow> local_tables" where
  "local_audit now actor action detail = on_store (log_audit now actor action detail)"

section \<open>Invitations\<close>

definition create_registration_invitation ::
  "local_env \<Rightarrow> int \<Rightarrow> string \<Rightarrow> string \<Rightarrow> account_billing \<Rightarrow> nat \<Rightarrow> local_tables \<Rightarrow> (local_error + (int \<times> string) option) \<times> local_tables" where
  "create_registration_invitation L now token actor billing ttl_hours t =
     (if \<not> AccountBilling_validate billing then (Inl BillingInvalid, t)
      else if \<not> valid_group (bl_group_id billing) (lo_store t) then (Inr None, t)
      else if list_ex (\<lambda>r. rg_token_hash r = hash_token (le_crypto L) token) (lo_invitations t) then (Inl SqlConstraint, t)
      else
        (let i = lo_invitations_seq t + 1;
             row = \<lparr>rg_id = i, rg_token_hash = hash_token (le_crypto L) token, rg_billing = billing, rg_status = ''pending'',
                    rg_expires_at = now + int ttl_hours * 3600, rg_created_at = now, rg_created_by = actor, rg_user_id = None\<rparr>
         in (Inr (Some (i, token)),
             local_audit now actor ''registration_invitation_created'' (''invitation_id='' @ dec_of_int i)
               (t\<lparr>lo_invitations := lo_invitations t @ [row], lo_invitations_seq := i\<rparr>))))"

record registration_invitation =
  rv_id :: int
  rv_status :: string
  rv_expires_at :: int
  rv_created_at :: int
  rv_billing :: account_billing

definition registration_invitations :: "int \<Rightarrow> local_tables \<Rightarrow> registration_invitation list" where
  "registration_invitations now t =
     map (\<lambda>r. \<lparr>rv_id = rg_id r, rv_status = (if rg_status r = ''pending'' \<and> rg_expires_at r \<le> now then ''expired'' else rg_status r),
            rv_expires_at = rg_expires_at r, rv_created_at = rg_created_at r, rv_billing = rg_billing r\<rparr>)
       (take 100 (rev (sort_key rg_id (lo_invitations t))))"

definition revoke_registration_invitation :: "int \<Rightarrow> string \<Rightarrow> int \<Rightarrow> local_tables \<Rightarrow> bool \<times> local_tables" where
  "revoke_registration_invitation now actor i t =
     (let hit = (\<lambda>r. rg_id r = i \<and> rg_status r = ''pending'') in
      if affected hit (lo_invitations t) = 0 then (False, t)
      else (True, local_audit now actor ''registration_invitation_revoked'' (''invitation_id='' @ dec_of_int i)
              (t\<lparr>lo_invitations := update_where hit (\<lambda>r. r\<lparr>rg_status := ''revoked''\<rparr>) (lo_invitations t)\<rparr>)))"

section \<open>Accounts\<close>

record local_user_creation =
  lc_actor :: string
  lc_username :: string
  lc_password :: string
  lc_display_name :: string
  lc_billing :: account_billing
  lc_invitation_token :: "string option"
  lc_routing_length :: nat

definition pending_registration :: "local_env \<Rightarrow> int \<Rightarrow> string \<Rightarrow> registration_row \<Rightarrow> bool" where
  "pending_registration L now token r \<longleftrightarrow>
     rg_token_hash r = hash_token (le_crypto L) token \<and> rg_status r = ''pending'' \<and> rg_expires_at r > now"

text \<open>The claim of an invitation is the first statement of the transaction.\<close>

definition claim_invitation ::
  "local_env \<Rightarrow> int \<Rightarrow> local_user_creation \<Rightarrow> local_tables \<Rightarrow> (int option \<times> account_billing \<times> local_tables) option" where
  "claim_invitation L now input t = (case lc_invitation_token input of
       None \<Rightarrow> Some (None, lc_billing input, t)
     | Some token \<Rightarrow>
         (case fetch_optional (pending_registration L now token) (lo_invitations t) of
            None \<Rightarrow> None
          | Some r \<Rightarrow> Some (Some (rg_id r), rg_billing r,
              t\<lparr>lo_invitations := update_where (pending_registration L now token) (\<lambda>r. r\<lparr>rg_status := ''accepted''\<rparr>) (lo_invitations t)\<rparr>)))"

definition username_taken :: "string \<Rightarrow> store \<Rightarrow> bool" where
  "username_taken username st = list_ex (\<lambda>p. is_some_and (\<lambda>u. eq_ignore_ascii_case u username) (pr_username p)) (profiles (usr st))"

definition insert_local_user :: "int \<Rightarrow> string \<Rightarrow> string \<Rightarrow> string \<Rightarrow> store \<Rightarrow> (int \<times> store) option" where
  "insert_local_user now username email display_name st =
     (if username_taken username st \<or> list_ex (\<lambda>p. pr_email p = email) (profiles (usr st)) then None
      else
        (let user_id = users_seq (usr st) + 1;
             row = \<lparr>pr_id = user_id, pr_username = Some username, pr_email = email, pr_display_name = display_name,
                    pr_created_at = now, pr_updated_at = now\<rparr>
         in Some (user_id,
              set_users ((users (qdb st))(user_id \<mapsto> \<lparr>disabled = False, deleted_at = None\<rparr>))
                (st\<lparr>usr := (usr st)\<lparr>profiles := profiles (usr st) @ [row], users_seq := user_id\<rparr>\<rparr>))))"

definition grant_billing :: "int \<Rightarrow> account_billing \<Rightarrow> store \<Rightarrow> store" where
  "grant_billing user_id b st =
     (let d1 = (case bl_group_id b of None \<Rightarrow> qdb st
            | Some g \<Rightarrow> (qdb st)\<lparr>group_members := group_members (qdb st) @ [\<lparr>m_group_id = g, m_user_id = user_id, is_billing = True\<rparr>]\<rparr>);
          d2 = (if bl_quota_mode b = ''default'' then d1
            else d1\<lparr>user_quota_overrides := (user_quota_overrides d1)(user_id \<mapsto>
                   \<lparr>quota_mode = bl_quota_mode b, override_limit = map_option (\<lambda>gb. int gb * (1024 * 1024 * 1024)) (bl_monthly_gb b)\<rparr>)\<rparr>)
      in st\<lparr>qdb := d2\<rparr>)"

definition create_local_user ::
  "local_env \<Rightarrow> int \<Rightarrow> string \<Rightarrow> local_user_creation \<Rightarrow> local_tables \<Rightarrow> (local_error + local_create_outcome) \<times> local_tables" where
  "create_local_user L now uuid input t =
     (if \<not> AccountBilling_validate (lc_billing input) then (Inl BillingInvalid, t)
      else case le_hash_password L (lc_password input) of
        None \<Rightarrow> (Inl PasswordHashFailed, t)
      | Some password_hash \<Rightarrow>
          (case claim_invitation L now input t of
             None \<Rightarrow> (Inr InvalidInvitation, t)
           | Some (invitation_id, billing, t1) \<Rightarrow>
               if \<not> valid_group (bl_group_id billing) (lo_store t1) then (Inr InvalidGroup, t)
               else
                 (case insert_local_user now (lc_username input) (uuid @ ''@accounts.invalid'') (lc_display_name input) (lo_store t1) of
                    None \<Rightarrow> (Inr UsernameExists, t)
                  | Some (i, st2) \<Rightarrow>
                      (case insert_unique_routing_id (le_sqids L) (le_rng L) i (lc_routing_length input) now (routing_ids (usr st2)) of
                         None \<Rightarrow> (Inl RoutingFailed, t)
                       | Some (routing_id, rows) \<Rightarrow>
                           if list_ex (\<lambda>c. cr_user_id c = i) (lo_credentials t1) then (Inl SqlConstraint, t)
                           else
                             (Inr (Created i),
                              local_audit now (lc_actor input) ''user_created'' (''user_id='' @ dec_of_int i @ ''; method=password'')
                                (t1\<lparr>lo_store := grant_billing i billing (set_routing rows st2),
                                    lo_credentials := lo_credentials t1 @ [\<lparr>cr_user_id = i, cr_password_hash = password_hash,
                                      cr_failed_attempts = 0, cr_locked_until = 0\<rparr>],
                                    lo_invitations := (case invitation_id of None \<Rightarrow> lo_invitations t1
                                      | Some k \<Rightarrow> update_where (\<lambda>r. rg_id r = k) (\<lambda>r. r\<lparr>rg_user_id := Some i\<rparr>) (lo_invitations t1))\<rparr>))))))"

section \<open>Signing in\<close>

type_synonym login_lookup_result = "(int \<times> string \<times> bool) option"

definition login_lookup :: "int \<Rightarrow> string \<Rightarrow> local_tables \<Rightarrow> login_lookup_result" where
  "login_lookup now username t =
     find_map (\<lambda>p. if is_some_and (\<lambda>u. eq_ignore_ascii_case u username) (pr_username p) \<and> active_user (pr_id p) (qdb (lo_store t))
       then map_option (\<lambda>c. (pr_id p, cr_password_hash c, cr_locked_until c > now)) (fetch_optional (\<lambda>c. cr_user_id c = pr_id p) (lo_credentials t))
       else None) (profiles (usr (lo_store t)))"

definition count_failure :: "int \<Rightarrow> int \<Rightarrow> string \<Rightarrow> local_tables \<Rightarrow> local_tables" where
  "count_failure now user_id stored t = t\<lparr>lo_credentials :=
     update_where (\<lambda>c. cr_user_id c = user_id \<and> cr_password_hash c = stored \<and> cr_locked_until c \<le> now)
       (\<lambda>c. c\<lparr>cr_failed_attempts := (if cr_locked_until c > 0 \<and> cr_locked_until c \<le> now then 1 else cr_failed_attempts c + 1),
              cr_locked_until := (if cr_locked_until c > 0 \<and> cr_locked_until c \<le> now then 0
                else if cr_failed_attempts c + 1 \<ge> 5 then now + 900 else cr_locked_until c)\<rparr>) (lo_credentials t)\<rparr>"

definition login_finish ::
  "local_env \<Rightarrow> int \<Rightarrow> string \<Rightarrow> string \<Rightarrow> login_lookup_result \<Rightarrow> local_tables \<Rightarrow> (local_error + user_session option) \<times> local_tables" where
  "login_finish L now token password found t = (case found of
       None \<Rightarrow> (Inr None, t)
     | Some (i, stored, locked) \<Rightarrow>
         if locked then (Inr None, t)
         else if \<not> argon2_matches (le_crypto L) password stored then (Inr None, count_failure now i stored t)
         else
           (let hit = (\<lambda>c. cr_user_id c = i \<and> cr_password_hash c = stored \<and> cr_locked_until c \<le> now) in
            if affected hit (lo_credentials t) = 0 then (Inr None, t)
            else if \<not> active_user i (qdb (lo_store t)) then (Inr None, t)
            else (case profile_of i (lo_store t) of
                None \<Rightarrow> (Inr None, t)
              | Some p \<Rightarrow>
                  (let sessions = user_sessions (usr (lo_store t)) in
                   if list_ex (\<lambda>s. us_token_hash s = hash_token (le_crypto L) token) sessions then (Inl SqlConstraint, t)
                   else
                     (Inr (Some \<lparr>ue_token = token, ue_expires_at = now + USER_SESSION_LIFETIME_SECS, ue_identity = user_identity_of p\<rparr>),
                      local_audit now (''user:'' @ dec_of_int i) ''user_login_succeeded'' ''method=password''
                        (t\<lparr>lo_credentials := update_where hit (\<lambda>c. c\<lparr>cr_failed_attempts := 0, cr_locked_until := 0\<rparr>) (lo_credentials t),
                           lo_store := set_user_sessions (sessions @ [\<lparr>us_token_hash = hash_token (le_crypto L) token, us_user_id = i,
                             us_auth_method = ''password'', us_created_at = now, us_expires_at = now + USER_SESSION_LIFETIME_SECS,
                             us_last_used_at = now\<rparr>]) (lo_store t)\<rparr>))))))"

definition authenticate_local_user ::
  "local_env \<Rightarrow> int \<Rightarrow> string \<Rightarrow> string \<Rightarrow> string \<Rightarrow> local_tables \<Rightarrow> (local_error + user_session option) \<times> local_tables" where
  "authenticate_local_user L now token username password t =
     login_finish L now token password (login_lookup now username t) t"

section \<open>Changing a password\<close>

definition password_lookup :: "int \<Rightarrow> local_tables \<Rightarrow> string option" where
  "password_lookup user_id t = map_option cr_password_hash (fetch_optional (\<lambda>c. cr_user_id c = user_id) (lo_credentials t))"

definition password_finish ::
  "local_env \<Rightarrow> int \<Rightarrow> int \<Rightarrow> string \<Rightarrow> string \<Rightarrow> string option \<Rightarrow> local_tables \<Rightarrow> (local_error + bool) \<times> local_tables" where
  "password_finish L now user_id current replacement found t = (case found of
       None \<Rightarrow> (Inr False, t)
     | Some previous \<Rightarrow>
         if \<not> argon2_matches (le_crypto L) current previous then (Inr False, t)
         else (case le_hash_password L replacement of
             None \<Rightarrow> (Inl PasswordHashFailed, t)
           | Some next_hash \<Rightarrow>
               (let hit = (\<lambda>c. cr_user_id c = user_id \<and> cr_password_hash c = previous) in
                if affected hit (lo_credentials t) = 0 then (Inr False, t)
                else
                  (Inr True,
                   local_audit now (''user:'' @ dec_of_int user_id) ''user_password_changed'' ''all sessions revoked''
                     (on_store (delete_user_sessions user_id)
                       (t\<lparr>lo_credentials := update_where hit (\<lambda>c. c\<lparr>cr_password_hash := next_hash, cr_failed_attempts := 0,
                            cr_locked_until := 0\<rparr>) (lo_credentials t)\<rparr>))))))"

definition change_local_password ::
  "local_env \<Rightarrow> int \<Rightarrow> int \<Rightarrow> string \<Rightarrow> string \<Rightarrow> local_tables \<Rightarrow> (local_error + bool) \<times> local_tables" where
  "change_local_password L now user_id current replacement t =
     password_finish L now user_id current replacement (password_lookup user_id t) t"

section \<open>Handlers\<close>

definition validate_account :: "string \<Rightarrow> string \<Rightarrow> string \<Rightarrow> bool" where
  "validate_account username password display_name \<longleftrightarrow>
     3 \<le> length username \<and> length username \<le> 64
     \<and> list_all (\<lambda>c. is_digit c \<or> (let n = (of_char c :: nat) in 65 \<le> n \<and> n \<le> 90 \<or> 97 \<le> n \<and> n \<le> 122) \<or> c \<in> set ''_-.'') username
     \<and> display_name \<noteq> [] \<and> char_count display_name \<le> 100 \<and> length password \<le> 1024 \<and> password \<noteq> []"

record local_server =
  ly_config :: config
  ly_tables :: local_tables
  ly_limiter :: login_limiter

text \<open>What a handler is given: the clock in both forms, the token and address it draws, the
  request environment, the peer.\<close>

record local_call =
  lx_env :: local_env
  lx_adm :: adm_env
  lx_now :: int
  lx_instant :: instant
  lx_token :: string
  lx_uuid :: string
  lx_headers :: header_map
  lx_peer :: ip_addr
  lx_https :: bool
  lx_set_scheme :: "url \<Rightarrow> string \<Rightarrow> url"
  lx_set_fragment :: "url \<Rightarrow> string \<Rightarrow> url"

datatype local_reply = Status nat | SignedIn user_session | AccountCreated user_account_view | InvitationLink int string | Invitations "registration_invitation list"

definition set_tables :: "local_tables \<Rightarrow> local_server \<Rightarrow> local_server" where
  "set_tables t sv = sv\<lparr>ly_tables := t\<rparr>"

definition as_super_admin :: "local_call \<Rightarrow> (string \<Rightarrow> local_server \<Rightarrow> local_reply \<times> local_server) \<Rightarrow> local_server \<Rightarrow> local_reply \<times> local_server" where
  "as_super_admin X f sv = (case require_super_admin (le_crypto (lx_env X)) (lx_now X) (lx_headers X) (lo_store (ly_tables sv)) of
       (Inl code, s) \<Rightarrow> (Status code, set_tables ((ly_tables sv)\<lparr>lo_store := s\<rparr>) sv)
     | (Inr who, s) \<Rightarrow> f (ai_username who) (set_tables ((ly_tables sv)\<lparr>lo_store := s\<rparr>) sv))"

definition creation_response ::
  "local_call \<Rightarrow> (local_error + local_create_outcome) \<times> local_tables \<Rightarrow> bool \<Rightarrow> local_server \<Rightarrow> local_reply \<times> local_server" where
  "creation_response X result sign_in sv = (case result of (r, t) \<Rightarrow>
     (let sv1 = set_tables t sv in
      case r of
        Inr (Created i) \<Rightarrow>
          if sign_in
          then (case create_user_session (le_crypto (lx_env X)) (lx_now X) (lx_token X) i ''password'' (lo_store t) of
              (Inr (Some session), s) \<Rightarrow> (SignedIn session, set_tables (t\<lparr>lo_store := s\<rparr>) sv1)
            | (_, s) \<Rightarrow> (Status 500, set_tables (t\<lparr>lo_store := s\<rparr>) sv1))
          else (case user_account i (lo_store t) of Some user \<Rightarrow> (AccountCreated user, sv1) | None \<Rightarrow> (Status 500, sv1))
      | Inr UsernameExists \<Rightarrow> (Status 409, sv1)
      | Inr InvalidInvitation \<Rightarrow> (Status 400, sv1)
      | Inr InvalidGroup \<Rightarrow> (Status 400, sv1)
      | Inl _ \<Rightarrow> (Status 500, sv1)))"

definition create_account :: "local_call \<Rightarrow> string \<Rightarrow> string \<Rightarrow> string \<Rightarrow> account_billing \<Rightarrow> local_server \<Rightarrow> local_reply \<times> local_server" where
  "create_account X username password display_name billing = as_super_admin X (\<lambda>actor sv.
     if \<not> validate_account (trim username) password (trim display_name) \<or> \<not> AccountBilling_validate billing then (Status 400, sv)
     else creation_response X (create_local_user (lx_env X) (lx_now X) (lx_uuid X)
            \<lparr>lc_actor = actor, lc_username = trim username, lc_password = password, lc_display_name = trim display_name,
             lc_billing = billing, lc_invitation_token = None,
             lc_routing_length = uac_routing_id_min_length (cfg_user_access (ly_config sv))\<rparr> (ly_tables sv)) False sv)"

definition invite :: "local_call \<Rightarrow> account_billing \<Rightarrow> nat \<Rightarrow> local_server \<Rightarrow> local_reply \<times> local_server" where
  "invite X billing expires_in_hours = as_super_admin X (\<lambda>actor sv.
     (let c = ly_config sv; urls = ae_urls (lx_adm X) in
      if rgc_mode (cfg_registration c) = ''disabled'' \<or> expires_in_hours < 1 \<or> 720 < expires_in_hours
         \<or> \<not> AccountBilling_validate billing then (Status 400, sv)
      else (case opt_filter (\<lambda>u. u_scheme u \<in> set [''http'', ''https''] \<and> u_host u \<noteq> None \<and> u_username u = [] \<and> u_password u = None)
                   (url_parse urls (public_base_url (lx_adm X) c (lx_headers X))) of
          None \<Rightarrow> (Status 400, sv)
        | Some u \<Rightarrow>
            (let u1 = (if cfg_public_base_url c = [] \<and> lx_https X then lx_set_scheme X u ''https'' else u);
                 u2 = url_set_query urls (url_set_path urls u1 ''/login'') None
             in case create_registration_invitation (lx_env X) (lx_now X) (lx_token X) actor billing expires_in_hours (ly_tables sv) of
                  (Inr (Some (i, token)), t) \<Rightarrow> (InvitationLink i (u_str (lx_set_fragment X u2 (''register='' @ token))), set_tables t sv)
                | (Inr None, t) \<Rightarrow> (Status 400, set_tables t sv)
                | (Inl _, t) \<Rightarrow> (Status 500, set_tables t sv)))))"

definition list_invitations :: "local_call \<Rightarrow> local_server \<Rightarrow> local_reply \<times> local_server" where
  "list_invitations X = as_super_admin X (\<lambda>actor sv. (Invitations (registration_invitations (lx_now X) (ly_tables sv)), sv))"

definition revoke_invitation :: "local_call \<Rightarrow> int \<Rightarrow> local_server \<Rightarrow> local_reply \<times> local_server" where
  "revoke_invitation X i = as_super_admin X (\<lambda>actor sv.
     (case revoke_registration_invitation (lx_now X) actor i (ly_tables sv) of
        (True, t) \<Rightarrow> (Status 204, set_tables t sv) | (False, t) \<Rightarrow> (Status 404, set_tables t sv)))"

definition limited_attempt :: "string \<Rightarrow> nat \<Rightarrow> instant \<Rightarrow> local_server \<Rightarrow> bool \<times> local_server" where
  "limited_attempt key limit now sv = (case is_limited (ly_limiter sv) key limit now of
       (lim, True) \<Rightarrow> (False, sv\<lparr>ly_limiter := lim\<rparr>)
     | (lim, False) \<Rightarrow> (True, sv\<lparr>ly_limiter := login_record lim key now\<rparr>))"

definition allow_attempt :: "local_call \<Rightarrow> string \<Rightarrow> local_server \<Rightarrow> bool \<times> local_server" where
  "allow_attempt X key sv =
     (if \<not> request_has_same_origin (lx_adm X) (lx_headers X) then (False, sv)
      else limited_attempt (''local-'' @ key @ '':'' @ show_ip (resolve_client_ip_from (cfg_trusted_proxies (ly_config sv)) (lx_peer X)
               (hdr_str (lx_headers X) ''x-forwarded-for''))) 20 (lx_instant X) sv)"

definition register :: "local_call \<Rightarrow> string \<Rightarrow> string \<Rightarrow> string \<Rightarrow> string \<Rightarrow> local_server \<Rightarrow> local_reply \<times> local_server" where
  "register X token username password display_name sv0 = (case allow_attempt X ''register'' sv0 of
       (False, sv) \<Rightarrow> (Status 403, sv)
     | (True, sv) \<Rightarrow>
         if rgc_mode (cfg_registration (ly_config sv)) = ''disabled'' then (Status 403, sv)
         else if length token \<noteq> 48 then (Status 400, sv)
         else
           (let name = trim username; shown = (if trim display_name = [] then name else trim display_name) in
            if \<not> validate_account name password shown then (Status 400, sv)
            else creation_response X (create_local_user (lx_env X) (lx_now X) (lx_uuid X)
                   \<lparr>lc_actor = ''invitation'', lc_username = name, lc_password = password, lc_display_name = shown,
                    lc_billing = AccountBilling_default, lc_invitation_token = Some token,
                    lc_routing_length = uac_routing_id_min_length (cfg_user_access (ly_config sv))\<rparr> (ly_tables sv)) True sv))"

definition local_login :: "local_call \<Rightarrow> string \<Rightarrow> string \<Rightarrow> local_server \<Rightarrow> local_reply \<times> local_server" where
  "local_login X username password sv0 =
     (if \<not> request_has_same_origin (lx_adm X) (lx_headers X) then (Status 403, sv0)
      else (case allow_attempt X ''login'' sv0 of
          (False, sv) \<Rightarrow> (Status 429, sv)
        | (True, sv) \<Rightarrow>
            if length username > 64 \<or> length password > 1024 then (Status 401, sv)
            else (case authenticate_local_user (lx_env X) (lx_now X) (lx_token X) (trim username) password (ly_tables sv) of
                (Inr (Some session), t) \<Rightarrow> (SignedIn session, set_tables t sv)
              | (Inr None, t) \<Rightarrow> (Status 401, set_tables t sv)
              | (Inl _, t) \<Rightarrow> (Status 500, set_tables t sv))))"

definition change_password :: "local_call \<Rightarrow> string \<Rightarrow> string \<Rightarrow> local_server \<Rightarrow> local_reply \<times> local_server" where
  "change_password X current_password new_password sv0 = (case user_token (lx_headers X) of
       None \<Rightarrow> (Status 401, sv0)
     | Some token \<Rightarrow> (case authenticate_user_session (le_crypto (lx_env X)) (lx_now X) token (lo_store (ly_tables sv0)) of
         (None, s) \<Rightarrow> (Status 401, set_tables ((ly_tables sv0)\<lparr>lo_store := s\<rparr>) sv0)
       | (Some who, s) \<Rightarrow>
           (case limited_attempt (''local-password-change:'' @ dec_of_int (un_user_id who)) 5 (lx_instant X)
                   (set_tables ((ly_tables sv0)\<lparr>lo_store := s\<rparr>) sv0) of
              (False, sv) \<Rightarrow> (Status 429, sv)
            | (True, sv) \<Rightarrow>
                (case user_account (un_user_id who) (lo_store (ly_tables sv)) of
                   None \<Rightarrow> (Status 401, sv)
                 | Some user \<Rightarrow>
                     if \<not> validate_account (unwrap_or [] (user_account_view.ua_username user)) new_password (un_display_name who) then (Status 400, sv)
                     else if length current_password > 1024 then (Status 401, sv)
                     else (case change_local_password (lx_env X) (lx_now X) (un_user_id who) current_password new_password (ly_tables sv) of
                         (Inr True, t) \<Rightarrow> (Status 204, set_tables t sv)
                       | (Inr False, t) \<Rightarrow> (Status 401, set_tables t sv)
                       | (Inl _, t) \<Rightarrow> (Status 500, set_tables t sv))))))"

section \<open>Histories\<close>

datatype local_op =
    CreateInvitation string string account_billing nat
  | RevokeInvitation string int
  | CreateLocal string local_user_creation
  | FinishLogin string string login_lookup_result
  | FinishPassword int string string "string option"
  | AccountOp user_op

fun local_step :: "local_env \<Rightarrow> int \<Rightarrow> local_op \<Rightarrow> local_tables \<Rightarrow> local_tables" where
  "local_step L now (CreateInvitation token actor billing ttl) t = snd (create_registration_invitation L now token actor billing ttl t)"
| "local_step L now (RevokeInvitation actor i) t = snd (revoke_registration_invitation now actor i t)"
| "local_step L now (CreateLocal uuid input) t = snd (create_local_user L now uuid input t)"
| "local_step L now (FinishLogin token password found) t = snd (login_finish L now token password found t)"
| "local_step L now (FinishPassword user_id current replacement found) t = snd (password_finish L now user_id current replacement found t)"
| "local_step L now (AccountOp op) t = on_store (user_step (le_crypto L) (le_sqids L) now op) t"

definition local_run :: "(local_env \<times> int \<times> local_op) list \<Rightarrow> local_tables \<Rightarrow> local_tables" where
  "local_run = fold (\<lambda>(L, now, op). local_step L now op)"

lemma local_run_invariant:
  assumes "\<And>L now op t. I t \<Longrightarrow> I (local_step L now op t)" and "I t"
  shows "I (local_run hist t)"
  unfolding local_run_def using assms(2) by (induction hist arbitrary: t) (auto intro: assms(1))

lemma local_audit_simps [simp]:
  "lo_invitations (local_audit now a b c t) = lo_invitations t" "lo_credentials (local_audit now a b c t) = lo_credentials t"
  "lo_invitations_seq (local_audit now a b c t) = lo_invitations_seq t"
  "lo_store (local_audit now a b c t) = log_audit now a b c (lo_store t)"
  by (simp_all add: local_audit_def on_store_def)

lemma on_store_simps [simp]:
  "lo_invitations (on_store f t) = lo_invitations t" "lo_credentials (on_store f t) = lo_credentials t"
  "lo_invitations_seq (on_store f t) = lo_invitations_seq t" "lo_store (on_store f t) = f (lo_store t)"
  by (simp_all add: on_store_def)

text \<open>A creation that is not reported as done changed nothing.\<close>

lemma create_cases:
  obtains (refused) "\<forall>i. fst (create_local_user L now uuid input t) \<noteq> Inr (Created i)" "snd (create_local_user L now uuid input t) = t"
  | (created) i h k billing t' st2 routing_id rows
    where "create_local_user L now uuid input t = (Inr (Created i),
       local_audit now (lc_actor input) ''user_created'' (''user_id='' @ dec_of_int i @ ''; method=password'')
         (t'\<lparr>lo_store := grant_billing i billing (set_routing rows st2),
             lo_credentials := lo_credentials t' @ [\<lparr>cr_user_id = i, cr_password_hash = h, cr_failed_attempts = 0, cr_locked_until = 0\<rparr>],
             lo_invitations := (case k of None \<Rightarrow> lo_invitations t'
               | Some k \<Rightarrow> update_where (\<lambda>r. rg_id r = k) (\<lambda>r. r\<lparr>rg_user_id := Some i\<rparr>) (lo_invitations t'))\<rparr>))"
      and "le_hash_password L (lc_password input) = Some h" and "claim_invitation L now input t = Some (k, billing, t')"
      and "insert_local_user now (lc_username input) (uuid @ ''@accounts.invalid'') (lc_display_name input) (lo_store t') = Some (i, st2)"
      and "insert_unique_routing_id (le_sqids L) (le_rng L) i (lc_routing_length input) now (routing_ids (usr st2)) = Some (routing_id, rows)"
proof (cases "AccountBilling_validate (lc_billing input)")
  case False
  then show ?thesis by (intro refused) (simp_all add: create_local_user_def)
next
  case v: True
  show ?thesis
  proof (cases "le_hash_password L (lc_password input)")
    case None
    then show ?thesis using v by (intro refused) (simp_all add: create_local_user_def)
  next
    case (Some h)
    note vh = v Some
    show ?thesis
    proof (cases "claim_invitation L now input t")
      case None
      then show ?thesis using vh by (intro refused) (simp_all add: create_local_user_def)
    next
      case (Some claim)
      obtain k billing t' where c: "claim_invitation L now input t = Some (k, billing, t')" using Some by (cases claim) auto
      show ?thesis
      proof (cases "insert_local_user now (lc_username input) (uuid @ ''@accounts.invalid'') (lc_display_name input) (lo_store t')")
        case None
        then show ?thesis using vh c by (intro refused) (simp_all add: create_local_user_def)
      next
        case (Some ins)
        obtain i st2 where ins: "insert_local_user now (lc_username input) (uuid @ ''@accounts.invalid'') (lc_display_name input) (lo_store t') = Some (i, st2)"
          using Some by (cases ins) auto
        show ?thesis
        proof (cases "insert_unique_routing_id (le_sqids L) (le_rng L) i (lc_routing_length input) now (routing_ids (usr st2))")
          case None
          then show ?thesis using vh c ins by (intro refused) (simp_all add: create_local_user_def)
        next
          case (Some routed)
          obtain routing_id rows where ro: "insert_unique_routing_id (le_sqids L) (le_rng L) i (lc_routing_length input) now (routing_ids (usr st2))
            = Some (routing_id, rows)" using Some by (cases routed) auto
          show ?thesis
          proof (cases "valid_group (bl_group_id billing) (lo_store t') \<and> \<not> list_ex (\<lambda>c. cr_user_id c = i) (lo_credentials t')")
            case True
            then show ?thesis using vh c ins ro by (intro created[OF _ vh(2) c ins ro]) (simp add: create_local_user_def)
          next
            case False
            then show ?thesis using vh c ins ro by (intro refused) (auto simp: create_local_user_def)
          qed
        qed
      qed
    qed
  qed
qed

section \<open>An invitation admits one account\<close>

definition hashes_distinct :: "local_tables \<Rightarrow> bool" where
  "hashes_distinct t \<longleftrightarrow> distinct (map rg_token_hash (lo_invitations t))"

definition spent_invitation :: "string \<Rightarrow> local_tables \<Rightarrow> bool" where
  "spent_invitation h t \<longleftrightarrow> h \<in> rg_token_hash ` set (lo_invitations t)
     \<and> (\<forall>r \<in> set (lo_invitations t). rg_token_hash r = h \<longrightarrow> rg_status r \<noteq> ''pending'')"

lemma claim_rows:
  assumes "claim_invitation L now input t = Some (k, billing, t')"
  shows "map rg_token_hash (lo_invitations t') = map rg_token_hash (lo_invitations t)"
    and "list_all2 (\<lambda>r r'. r' = r \<or> r' = r\<lparr>rg_status := ''accepted''\<rparr>) (lo_invitations t) (lo_invitations t')"
    and "lo_store t' = lo_store t" and "lo_credentials t' = lo_credentials t"
  using assms
  by (auto simp: claim_invitation_def map_update_where update_where_def list_all2_map2 list_all2_same split: option.splits)

lemma login_keeps_invitations: "lo_invitations (snd (login_finish L now token password found t)) = lo_invitations t"
  by (auto simp: login_finish_def count_failure_def Let_def split: option.splits)

lemma password_keeps_invitations: "lo_invitations (snd (password_finish L now u c r found t)) = lo_invitations t"
  by (auto simp: password_finish_def Let_def split: option.splits)

text \<open>What any operation does to the invitations: it keeps them, perhaps with a status that is no
  longer pending or with the account filled in, and perhaps adds one with a new token.\<close>

definition later_row :: "registration_row \<Rightarrow> registration_row \<Rightarrow> bool" where
  "later_row r r' \<longleftrightarrow> rg_token_hash r' = rg_token_hash r \<and> (rg_status r' = rg_status r \<or> rg_status r' \<noteq> ''pending'')"

lemma later_row_trans: "later_row a b \<Longrightarrow> later_row b c \<Longrightarrow> later_row a c"
  by (auto simp: later_row_def)

lemma step_rows:
  "\<exists>rows new. lo_invitations (local_step L now op t) = rows @ new \<and> list_all2 later_row (lo_invitations t) rows
     \<and> (new = [] \<or> (\<exists>r. new = [r] \<and> rg_token_hash r \<notin> rg_token_hash ` set (lo_invitations t)))"
proof -
  have same: "list_all2 later_row rows rows" for rows by (simp add: later_row_def list_all2_same)
  show ?thesis
  proof (cases op)
    case (CreateInvitation token actor billing ttl)
    show ?thesis
    proof (cases "lo_invitations (local_step L now op t) = lo_invitations t")
      case False
      then have "\<exists>r. lo_invitations (local_step L now op t) = lo_invitations t @ [r] \<and> rg_token_hash r \<notin> rg_token_hash ` set (lo_invitations t)"
        unfolding CreateInvitation local_step.simps create_registration_invitation_def Let_def
        by (force simp: list_ex_iff split: if_splits)
      then show ?thesis using same by blast
    qed (use same in auto)
  next
    case (RevokeInvitation actor i)
    then have "list_all2 later_row (lo_invitations t) (lo_invitations (local_step L now op t))"
      by (auto simp: revoke_registration_invitation_def Let_def update_where_def list_all2_map2 list_all2_same later_row_def)
    then show ?thesis by (intro exI[of _ "lo_invitations (local_step L now op t)"] exI[of _ "[]"]) simp
  next
    case (CreateLocal uuid input)
    show ?thesis
    proof (cases rule: create_cases[of L now uuid input t])
      case refused
      then show ?thesis using same CreateLocal by auto
    next
      case (created i h k billing t' st2 routing_id rows)
      have a: "list_all2 later_row (lo_invitations t) (lo_invitations t')"
        using claim_rows(2)[OF created(3)] by (rule list_all2_mono) (auto simp: later_row_def)
      have b: "list_all2 later_row (lo_invitations t') (case k of None \<Rightarrow> lo_invitations t'
               | Some k \<Rightarrow> update_where (\<lambda>r. rg_id r = k) (\<lambda>r. r\<lparr>rg_user_id := Some i\<rparr>) (lo_invitations t'))"
        by (auto simp: update_where_def list_all2_map2 list_all2_same later_row_def split: option.split)
      have "list_all2 later_row (lo_invitations t) (lo_invitations (local_step L now op t))"
        unfolding CreateLocal local_step.simps created(1) using list_all2_trans[OF later_row_trans a b] by simp
      then show ?thesis by auto
    qed
  qed (use same in \<open>auto simp: login_keeps_invitations password_keeps_invitations\<close>)
qed

lemma list_all2_hashes: "list_all2 later_row rs rs' \<Longrightarrow> map rg_token_hash rs' = map rg_token_hash rs"
  by (induction rule: list_all2_induct) (auto simp: later_row_def)

lemma step_hashes_distinct: "hashes_distinct t \<Longrightarrow> hashes_distinct (local_step L now op t)"
  using step_rows[of L now op t] by (auto simp: hashes_distinct_def dest!: list_all2_hashes)

lemma spent_later:
  assumes "spent_invitation h t" and "list_all2 later_row (lo_invitations t) rows"
  shows "h \<in> rg_token_hash ` set rows" and "\<And>r. r \<in> set rows \<Longrightarrow> rg_token_hash r = h \<Longrightarrow> rg_status r \<noteq> ''pending''"
proof -
  have "rg_token_hash ` set rows = rg_token_hash ` set (lo_invitations t)"
    using list_all2_hashes[OF assms(2)] by (metis set_map)
  then show "h \<in> rg_token_hash ` set rows" using assms(1) by (simp add: spent_invitation_def)
  show "rg_status r \<noteq> ''pending''" if x: "r \<in> set rows" "rg_token_hash r = h" for r
  proof -
    obtain j where "j < length rows" "r = rows ! j" using x(1) by (auto simp: in_set_conv_nth)
    then obtain r0 where "r0 \<in> set (lo_invitations t)" "later_row r0 r"
      using assms(2) by (metis list_all2_conv_all_nth nth_mem)
    then show ?thesis using assms(1) x(2) by (auto simp: spent_invitation_def later_row_def)
  qed
qed

lemma step_spent:
  assumes "spent_invitation h t"
  shows "spent_invitation h (local_step L now op t)"
proof -
  obtain rows new where r: "lo_invitations (local_step L now op t) = rows @ new" "list_all2 later_row (lo_invitations t) rows"
    "new = [] \<or> (\<exists>r. new = [r] \<and> rg_token_hash r \<notin> rg_token_hash ` set (lo_invitations t))"
    using step_rows[of L now op t] by (elim exE conjE) (rule that)
  note s = spent_later[OF assms r(2)]
  have "rg_token_hash x \<noteq> h" if "x \<in> set new" for x
    using that r(3) assms by (auto simp: spent_invitation_def)
  then show ?thesis unfolding spent_invitation_def r(1) using s by auto
qed

lemma claim_spends:
  assumes "claim_invitation L now input t = Some (k, billing, t')" and "lc_invitation_token input = Some token" and "hashes_distinct t"
  obtains r where "r \<in> set (lo_invitations t)" "pending_registration L now token r" "billing = rg_billing r" "k = Some (rg_id r)"
    "spent_invitation (hash_token (le_crypto L) token) t'"
proof -
  let ?P = "pending_registration L now token"
  obtain r where r: "fetch_optional ?P (lo_invitations t) = Some r" "billing = rg_billing r" "k = Some (rg_id r)"
    "lo_invitations t' = update_where ?P (\<lambda>r. r\<lparr>rg_status := ''accepted''\<rparr>) (lo_invitations t)"
    using assms(1,2) by (auto simp: claim_invitation_def split: option.splits)
  have mem: "r \<in> set (lo_invitations t)" "?P r" using r(1) by (auto simp: fetch_optional_def find_Some_iff)
  have only: "r2 = r" if "r2 \<in> set (lo_invitations t)" "rg_token_hash r2 = hash_token (le_crypto L) token" for r2
    using assms(3) mem that unfolding hashes_distinct_def distinct_map inj_on_def pending_registration_def by metis
  have "map rg_token_hash (lo_invitations t') = map rg_token_hash (lo_invitations t)" unfolding r(4) by (rule map_update_where) simp
  then have "rg_token_hash ` set (lo_invitations t') = rg_token_hash ` set (lo_invitations t)" by (metis set_map)
  then have a: "hash_token (le_crypto L) token \<in> rg_token_hash ` set (lo_invitations t')"
    using imageI[OF mem(1), of rg_token_hash] mem(2) by (simp add: pending_registration_def)
  have b: "rg_status x \<noteq> ''pending''" if x: "x \<in> set (lo_invitations t')" "rg_token_hash x = hash_token (le_crypto L) token" for x
  proof -
    obtain y where y: "y \<in> set (lo_invitations t)" "x = (if ?P y then y\<lparr>rg_status := ''accepted''\<rparr> else y)"
      using x(1) unfolding r(4) update_where_def by auto
    have "rg_token_hash y = hash_token (le_crypto L) token" using x(2) y(2) by (simp split: if_splits)
    then have "y = r" using only y(1) by blast
    then show ?thesis using y(2) mem(2) by simp
  qed
  have "spent_invitation (hash_token (le_crypto L) token) t'"
    unfolding spent_invitation_def using a b by blast
  then show ?thesis by (rule that[OF mem r(2,3)])
qed

lemma create_or_rollback:
  "(\<exists>j. fst (create_local_user L now uuid input t) = Inr (Created j)) \<or> snd (create_local_user L now uuid input t) = t"
  by (cases rule: create_cases[of L now uuid input t]) auto

text \<open>C18: A registration link admits one account, with the billing the administrator chose.
  Whatever happened to the tables before, an account is created through a token only if an
  invitation with it is pending and has not expired; the account gets the group and the
  quota recorded there, whatever the registrant sent.  Whatever happens afterwards, no
  further account is created with the token, and every refused attempt leaves the tables as
  they were, so that a link is not used up by a name that was already taken.\<close>

theorem invitation_admits_one_account:
  assumes "lo_invitations t0 = []" and "t = local_run before t0" and "lc_invitation_token input = Some token"
    and "create_local_user L now uuid input t = (Inr (Created i), t1)" and "t2 = local_run later t1"
    and "lc_invitation_token input2 = Some token2" and "hash_token (le_crypto L2) token2 = hash_token (le_crypto L) token"
  shows "(\<exists>r \<in> set (lo_invitations t). pending_registration L now token r
        \<and> (\<forall>g. bl_group_id (rg_billing r) = Some g \<longrightarrow>
             \<lparr>m_group_id = g, m_user_id = i, is_billing = True\<rparr> \<in> set (group_members (qdb (lo_store t1))))
        \<and> (bl_quota_mode (rg_billing r) \<noteq> ''default'' \<longrightarrow> user_quota_overrides (qdb (lo_store t1)) i
             = Some \<lparr>quota_mode = bl_quota_mode (rg_billing r), override_limit = map_option (\<lambda>gb. int gb * (1024 * 1024 * 1024)) (bl_monthly_gb (rg_billing r))\<rparr>))
    \<and> (\<forall>j. fst (create_local_user L2 now2 uuid2 input2 t2) \<noteq> Inr (Created j)) \<and> snd (create_local_user L2 now2 uuid2 input2 t2) = t2
    \<and> (\<forall>L3 now3 uuid3 input3. (\<exists>j. fst (create_local_user L3 now3 uuid3 input3 t) = Inr (Created j)) \<or> snd (create_local_user L3 now3 uuid3 input3 t) = t)"
proof -
  let ?h = "hash_token (le_crypto L) token"
  have d: "hashes_distinct t"
    unfolding assms(2) by (rule local_run_invariant[where I = hashes_distinct]) (erule step_hashes_distinct, simp add: assms(1) hashes_distinct_def)
  show ?thesis
  proof (cases rule: create_cases[of L now uuid input t])
    case refused
    then show ?thesis using assms(4) by simp
  next
    case (created i' h k billing t' st2 routing_id rows)
    obtain r where r: "r \<in> set (lo_invitations t)" "pending_registration L now token r" "billing = rg_billing r" "k = Some (rg_id r)"
      "spent_invitation ?h t'"
      using claim_spends[OF created(3) assms(3) d] .
    have i: "i' = i" and t1: "lo_invitations t1 = update_where (\<lambda>x. rg_id x = rg_id r) (\<lambda>x. x\<lparr>rg_user_id := Some i\<rparr>) (lo_invitations t')"
      and st: "lo_store t1 = log_audit now (lc_actor input) ''user_created'' (''user_id='' @ dec_of_int i @ ''; method=password'')
        (grant_billing i (rg_billing r) (set_routing rows st2))"
      using created(1) assms(4) r(3,4) by auto
    have "list_all2 later_row (lo_invitations t') (lo_invitations t1)"
      by (simp add: t1 update_where_def list_all2_map2 list_all2_same later_row_def)
    from spent_later[OF r(5) this] have "spent_invitation ?h t1"
      by (auto simp: spent_invitation_def)
    then have "spent_invitation ?h t2"
      unfolding assms(5) by (rule local_run_invariant[where I = "spent_invitation ?h", rotated]) (rule step_spent)
    then have none: "claim_invitation L2 now2 input2 t2 = None"
      using assms(6,7) by (auto simp: claim_invitation_def spent_invitation_def pending_registration_def fetch_optional_def find_None_iff split: option.splits)
    have later: "(\<forall>j. fst (create_local_user L2 now2 uuid2 input2 t2) \<noteq> Inr (Created j)) \<and> snd (create_local_user L2 now2 uuid2 input2 t2) = t2"
      using none by (cases rule: create_cases[of L2 now2 uuid2 input2 t2]) auto
    have "(\<forall>g. bl_group_id (rg_billing r) = Some g \<longrightarrow>
             \<lparr>m_group_id = g, m_user_id = i, is_billing = True\<rparr> \<in> set (group_members (qdb (lo_store t1))))"
      and "(bl_quota_mode (rg_billing r) \<noteq> ''default'' \<longrightarrow> user_quota_overrides (qdb (lo_store t1)) i
             = Some \<lparr>quota_mode = bl_quota_mode (rg_billing r), override_limit = map_option (\<lambda>gb. int gb * (1024 * 1024 * 1024)) (bl_monthly_gb (rg_billing r))\<rparr>)"
      unfolding st by (auto simp: grant_billing_def log_audit_def audit_def Let_def split: option.split)
    then show ?thesis using r(1,2) later create_or_rollback by blast
  qed
qed

section \<open>A changed password takes effect\<close>

definition credentials_distinct :: "local_tables \<Rightarrow> bool" where
  "credentials_distinct t \<longleftrightarrow> distinct (map cr_user_id (lo_credentials t))"

lemma find_map_same: "(\<And>x. P (f x) = P x) \<Longrightarrow> find P (map f xs) = map_option f (find P xs)"
  by (induction xs) auto

lemma find_append: "find P (xs @ ys) = (case find P xs of None \<Rightarrow> find P ys | Some x \<Rightarrow> Some x)"
  by (induction xs) auto

definition changes_password :: "int \<Rightarrow> local_op \<Rightarrow> bool" where
  "changes_password u op = (case op of FinishPassword v _ _ _ \<Rightarrow> v = u | _ \<Rightarrow> False)"

text \<open>Credentials are only added for new accounts, and only a password change replaces a hash.\<close>

lemma step_credentials:
  "\<exists>f new. lo_credentials (local_step L now op t) = map f (lo_credentials t) @ new
     \<and> (\<forall>c. cr_user_id (f c) = cr_user_id c \<and> (\<not> changes_password (cr_user_id c) op \<longrightarrow> cr_password_hash (f c) = cr_password_hash c))
     \<and> (new = [] \<or> (\<exists>c. new = [c] \<and> cr_user_id c \<notin> cr_user_id ` set (lo_credentials t)))"
proof -
  have same: ?thesis if "lo_credentials (local_step L now op t) = lo_credentials t"
    using that by (intro exI[of _ "\<lambda>c. c"] exI[of _ "[]"]) simp
  have updated: ?thesis if "lo_credentials (local_step L now op t) = update_where p g (lo_credentials t)"
    "\<And>c. p c \<Longrightarrow> cr_user_id (g c) = cr_user_id c \<and> (\<not> changes_password (cr_user_id c) op \<longrightarrow> cr_password_hash (g c) = cr_password_hash c)" for p g
    using that by (intro exI[of _ "\<lambda>c. if p c then g c else c"] exI[of _ "[]"]) (auto simp: update_where_def)
  show ?thesis
  proof (cases op)
    case (CreateInvitation token actor billing ttl)
    then show ?thesis by (intro same) (auto simp: create_registration_invitation_def Let_def)
  next
    case (RevokeInvitation actor i)
    then show ?thesis by (intro same) (auto simp: revoke_registration_invitation_def Let_def)
  next
    case (CreateLocal uuid input)
    show ?thesis
    proof (cases rule: create_cases[of L now uuid input t])
      case refused
      then show ?thesis using CreateLocal by (intro same) simp
    next
      case (created i h k billing t' st2 routing_id rows)
      have "\<not> list_ex (\<lambda>c. cr_user_id c = i) (lo_credentials t')"
        using created by (auto simp: create_local_user_def split: if_splits)
      then have "i \<notin> cr_user_id ` set (lo_credentials t)"
        using claim_rows(4)[OF created(3)] by (auto simp: list_ex_iff)
      then show ?thesis
        using created(1) claim_rows(4)[OF created(3)] CreateLocal
        by (intro exI[of _ "\<lambda>c. c"] exI[of _ "[\<lparr>cr_user_id = i, cr_password_hash = h, cr_failed_attempts = 0, cr_locked_until = 0\<rparr>]"]) simp
    qed
  next
    case (FinishLogin token password found)
    have "lo_credentials (local_step L now op t) = lo_credentials t \<or> (\<exists>p g. lo_credentials (local_step L now op t) = update_where p g (lo_credentials t)
        \<and> (\<forall>c. cr_user_id (g c) = cr_user_id c \<and> cr_password_hash (g c) = cr_password_hash c))"
      unfolding FinishLogin local_step.simps login_finish_def count_failure_def Let_def
      by (auto split: option.splits intro!: exI)
    then show ?thesis using same updated by blast
  next
    case (FinishPassword user_id current replacement found)
    have "lo_credentials (local_step L now op t) = lo_credentials t \<or> (\<exists>p g. lo_credentials (local_step L now op t) = update_where p g (lo_credentials t)
        \<and> (\<forall>c. p c \<longrightarrow> cr_user_id (g c) = cr_user_id c \<and> cr_user_id c = user_id))"
      unfolding FinishPassword local_step.simps password_finish_def Let_def
      by (auto split: option.splits intro!: exI)
    then show ?thesis using same updated FinishPassword by (auto simp: changes_password_def)
  qed (use same in simp)
qed

lemma step_credentials_distinct: "credentials_distinct t \<Longrightarrow> credentials_distinct (local_step L now op t)"
  using step_credentials[of L now op t] by (auto simp: credentials_distinct_def comp_def)

lemma step_keeps_hash:
  assumes "password_lookup u t = Some h" and "\<not> changes_password u op"
  shows "password_lookup u (local_step L now op t) = Some h"
proof -
  obtain f new where f: "lo_credentials (local_step L now op t) = map f (lo_credentials t) @ new"
    "\<And>c. cr_user_id (f c) = cr_user_id c" "\<And>c. \<not> changes_password (cr_user_id c) op \<Longrightarrow> cr_password_hash (f c) = cr_password_hash c"
    using step_credentials[of L now op t] by (elim exE conjE) (rule that, assumption, simp_all)
  obtain c where c: "find (\<lambda>c. cr_user_id c = u) (lo_credentials t) = Some c" "cr_password_hash c = h"
    using assms(1) by (auto simp: password_lookup_def fetch_optional_def)
  have "cr_user_id c = u" using c(1) by (auto simp: find_Some_iff)
  then show ?thesis
    using c f(3)[of c] assms(2) find_map_same[of "\<lambda>c. cr_user_id c = u" f "lo_credentials t"]
    by (simp add: password_lookup_def fetch_optional_def f(1,2) find_append)
qed

lemma lookup_unique:
  assumes "credentials_distinct t" and "password_lookup u t = Some h" and "c \<in> set (lo_credentials t)" and "cr_user_id c = u"
  shows "cr_password_hash c = h"
proof -
  obtain c0 where c0: "find (\<lambda>c. cr_user_id c = u) (lo_credentials t) = Some c0" "cr_password_hash c0 = h"
    using assms(2) by (auto simp: password_lookup_def fetch_optional_def)
  have "c0 \<in> set (lo_credentials t)" "cr_user_id c0 = u"
    using c0(1) unfolding find_Some_iff by (auto intro: nth_mem)
  note c0 = this c0(2)
  have "c = c0" using assms(1,3,4) c0(1,2) unfolding credentials_distinct_def distinct_map inj_on_def by metis
  then show ?thesis using c0(3) by simp
qed

lemma run_keeps_hash:
  assumes "password_lookup u t = Some h" and "list_all (\<lambda>(_, _, op). \<not> changes_password u op) later"
  shows "password_lookup u (local_run later t) = Some h"
  using assms unfolding local_run_def
  by (induction later arbitrary: t) (auto intro: step_keeps_hash)

lemma stale_login_refused:
  assumes "credentials_distinct t" and "password_lookup u t = Some h" and "stored \<noteq> h"
  shows "fst (login_finish L now token password (Some (u, stored, locked)) t) = Inr None
    \<and> lo_store (snd (login_finish L now token password (Some (u, stored, locked)) t)) = lo_store t"
proof -
  have "affected (\<lambda>c. cr_user_id c = u \<and> cr_password_hash c = stored \<and> cr_locked_until c \<le> now) (lo_credentials t) = 0"
    using lookup_unique[OF assms(1,2)] assms(3) by (auto simp: affected_def filter_empty_conv)
  then show ?thesis by (simp add: login_finish_def count_failure_def Let_def)
qed


text \<open>The lockout: the fifth wrong password in a row locks the account for fifteen minutes, and a
  locked account opens no session, whatever was looked up before.\<close>

lemma fifth_failure_locks:
  assumes "c \<in> set (lo_credentials t)" and "cr_user_id c = u" and "cr_password_hash c = stored" and "cr_locked_until c = 0"
    and "4 \<le> cr_failed_attempts c" and "0 \<le> now" and "\<not> argon2_matches (le_crypto L) password stored"
  shows "c\<lparr>cr_failed_attempts := cr_failed_attempts c + 1, cr_locked_until := now + 900\<rparr>
    \<in> set (lo_credentials (snd (login_finish L now token password (Some (u, stored, False)) t)))"
  using assms by (auto simp: login_finish_def count_failure_def update_where_def image_iff intro!: bexI[of _ c])

lemma locked_refuses:
  assumes "credentials_distinct t" and "c \<in> set (lo_credentials t)" and "cr_user_id c = u" and "now < cr_locked_until c"
  shows "fst (login_finish L now token password (Some (u, stored, locked)) t) = Inr None
    \<and> lo_store (snd (login_finish L now token password (Some (u, stored, locked)) t)) = lo_store t"
proof -
  have "c2 = c" if "c2 \<in> set (lo_credentials t)" "cr_user_id c2 = u" for c2
    using that assms(1-3) unfolding credentials_distinct_def distinct_map inj_on_def by metis
  then have "affected (\<lambda>c. cr_user_id c = u \<and> cr_password_hash c = stored \<and> cr_locked_until c \<le> now) (lo_credentials t) = 0"
    using assms(4) by (force simp: affected_def filter_empty_conv)
  then show ?thesis by (simp add: login_finish_def count_failure_def Let_def)
qed

section \<open>An example\<close>

definition sample_local :: local_env where
  "sample_local = \<lparr>le_crypto = toy_crypto, le_hash_password = (\<lambda>p. Some (''a'' @ p)), le_sqids = toy_sqids, le_rng = (\<lambda>n. n + 7)\<rparr>"

definition empty_local :: local_tables where
  "empty_local = \<lparr>lo_store = empty_store, lo_invitations = [], lo_invitations_seq = 0, lo_credentials = []\<rparr>"

definition sample_billing :: account_billing where
  "sample_billing = \<lparr>bl_group_id = None, bl_quota_mode = ''unlimited'', bl_monthly_gb = None\<rparr>"

definition sample_creation :: "string \<Rightarrow> local_user_creation" where
  "sample_creation name = \<lparr>lc_actor = ''invitation'', lc_username = name, lc_password = ''pw'', lc_display_name = name,
     lc_billing = AccountBilling_default, lc_invitation_token = Some ''tok'', lc_routing_length = 6\<rparr>"

definition invited_local :: "(local_env \<times> int \<times> local_op) list" where
  "invited_local = [(sample_local, 10, CreateInvitation ''tok'' ''root'' sample_billing 24)]"

definition joined_local :: "(local_env \<times> int \<times> local_op) list" where
  "joined_local = invited_local @ [(sample_local, 20, CreateLocal ''u1'' (sample_creation ''alice''))]"

theorem invitation_admits_one_account_witness:
  "\<exists>t1. create_local_user sample_local 20 ''u1'' (sample_creation ''alice'') (local_run invited_local empty_local) = (Inr (Created 1), t1)
     \<and> user_quota_overrides (qdb (lo_store t1)) 1 \<noteq> None
     \<and> (\<forall>j. fst (create_local_user sample_local 30 ''u2'' (sample_creation ''bob'') t1) \<noteq> Inr (Created j))"
proof -
  have "fst (create_local_user sample_local 20 ''u1'' (sample_creation ''alice'') (local_run invited_local empty_local)) = Inr (Created 1)"
    by code_simp
  then obtain t1 where t1: "create_local_user sample_local 20 ''u1'' (sample_creation ''alice'') (local_run invited_local empty_local) = (Inr (Created 1), t1)"
    by (metis prod.collapse)
  have start: "lo_invitations empty_local = []" by (simp add: empty_local_def)
  have rows: "list_all (\<lambda>r. bl_quota_mode (rg_billing r) \<noteq> ''default'') (lo_invitations (local_run invited_local empty_local))" by code_simp
  have "t1 = local_run [] t1" by (simp add: local_run_def)
  note once = invitation_admits_one_account[OF start refl _ t1 this, where token = "''tok''" and ?token2.0 = "''tok''" and ?L2.0 = sample_local
      and ?input2.0 = "sample_creation ''bob''" and ?now2.0 = 30 and ?uuid2.0 = "''u2''"]
  have "user_quota_overrides (qdb (lo_store t1)) 1 \<noteq> None"
    using once[THEN conjunct1] rows by (auto simp: sample_creation_def list_all_iff)
  moreover have "\<forall>j. fst (create_local_user sample_local 30 ''u2'' (sample_creation ''bob'') t1) \<noteq> Inr (Created j)"
    using once[THEN conjunct2, THEN conjunct1] by (simp add: sample_creation_def)
  ultimately show ?thesis using t1 by blast
qed


end
