(* ===== verification/Spec2Isabelle.thy ===== *)
theory Spec2Isabelle
  imports Rate_Limiting Ip_Access Catalog_Systems Config_Load Forwarding Traffic Admin_Auth Mail_Tokens Admission Geo_Lookup Control_Plane
    Alerts Client_Files Local_Accounts
begin

text \<open>
  \<^bold>\<open>Verification of MirrorProxy.\<close>

  MirrorProxy (\<open>src/crates/server\<close>) is a reverse proxy for package registries.  A request
  passes a stack of middlewares (observability, security headers, CORS, stripping of
  untrusted forwarding headers, CSRF, user subdomains, admission), reaches an adapter that
  maps its path to an upstream URL, and is answered from a disk cache or by the best
  healthy upstream.  Bytes are reserved against monthly quotas before the adapter runs and
  settled when the body ends.  An administration plane edits configuration, users, groups
  and quotas in SQLite; workers probe the sources, raise alerts and send mail.
  \<open>src/crates/catalog\<close> holds the tables of mirrors and distributions, \<open>src/crates/client\<close> is a
  command line tool that points the package managers of a machine at the proxy.

  \<^bold>\<open>Theories and the code they model.\<close>  Definitions carry the names of the source; each
  section of a theory follows the order of the code.

  Foundations.
  \<^item> \<open>MP_Prelude\<close>, \<open>Http_Types\<close>, \<open>Json_Values\<close>: the parts of the Rust standard library the code
    uses (strings, saturating arithmetic, iterators, \<open>Result\<close> and \<open>Option\<close> chains), header
    maps, URLs as records of their accessors, JSON documents.

  The request path.
  \<^item> \<open>Rate_Limiting\<close>: \<open>RateLimiter\<close>, \<open>AdminLoginRateLimiter\<close>, \<open>DiscoverableChallenges\<close>
    (main.rs).
  \<^item> \<open>Ip_Access\<close>: trusted proxies (config.rs), forwarded addresses (main.rs), IP rules and
    address classes (geoip.rs, proxy/oci.rs).
  \<^item> \<open>Geo_Lookup\<close>: the XDB reader, its index search and the installation of databases
    (geoip.rs).
  \<^item> \<open>Routing\<close>: the route table and the classification of paths (main.rs).
  \<^item> \<open>Admission\<close>: the middlewares (main.rs): cookies and security headers, forwarding headers,
    CSRF, user subdomains, and admission with its reservation.
  \<^item> \<open>Upstream_Selection\<close>: health memory, circuit breaker and ranking
    (upstream_selection.rs).
  \<^item> \<open>Proxy_Base\<close>, \<open>Disk_Cache\<close>, \<open>Egress\<close>, \<open>Forwarding\<close>: errors and header filters, the disk
    cache (proxy/cache.rs), redirects and address pinning, and the forwarding loop
    (proxy/mod.rs).
  \<^item> \<open>Quota_Db\<close>, \<open>Traffic\<close>: the billing tables and transactions (database.rs, billing.rs) and
    the accounting guard of proxied responses (traffic.rs), with concurrent responses as
    interleaved steps.
  \<^item> \<open>Download_Db\<close>, \<open>Download_Fetch\<close>: accelerated downloads: permissions, tokens, blocks,
    usage and charging (database/download.rs), and slots, target checks, redirects, the
    handler and the streaming worker (download.rs).

  Accounts and administration.
  \<^item> \<open>Config_Model\<close>, \<open>Config_Defaults\<close>, \<open>Config_Validate\<close>, \<open>Config_Load\<close>: the configuration
    records, defaults, upstream candidates and credentials, validation, environment
    overrides and loading (config.rs).
  \<^item> \<open>Account_Db\<close>, \<open>Admin_Auth\<close>, \<open>User_Accounts\<close>, \<open>Mail_Tokens\<close>: the identity tables, sessions,
    password login and passkeys, routing ids and subdomains, invitations, login tokens and
    the outbox (database.rs, main.rs).
  \<^item> \<open>External_Signin\<close>: providers, the start of a flow, the callback, the choice of the account
    and linking (oauth.rs, database.rs).
  \<^item> \<open>Local_Accounts\<close>: registration links, accounts with a password, lockout and the change of
    a password (local_accounts.rs, database/local_accounts.rs).
  \<^item> \<open>Secrets\<close>, \<open>Settings_Db\<close>: sealing of secrets, stored settings, the migration that seals
    plaintext, and the configuration a process starts with (secrets.rs, database.rs).
  \<^item> \<open>Control_Plane\<close>: updates of the running configuration and of the ACME settings, what they
    rebuild, and the control of downloads (main.rs, download.rs).
  \<^item> \<open>Source_Health\<close>, \<open>Alerts\<close>: rounds of probes, their tables and report
    (source_health.rs), and alerts with cooldowns and channels (alerts.rs, email.rs).

  Catalog and client.
  \<^item> \<open>Catalog_Systems\<close>, \<open>Mirror_Catalog\<close>: the tables of distributions and repositories
    (catalog/src/systems.rs) and of providers, targets, sources and templates
    (catalog/src/lib.rs), with the lookups over them.
  \<^item> \<open>Client_Sources\<close>, \<open>Client_Files\<close>: what \<open>mirrorproxy set\<close> and \<open>reset\<close> plan and write, where,
    and how the files are replaced and restored under failures and crashes
    (client/src/main.rs).

  \<^bold>\<open>What is shown.\<close>
  \<^item> Money and limits: reservations are conserved and settled exactly once, a hierarchical
    reservation is atomic, quotas are overrun only by responses in flight, downloads are
    charged part by part within the daily budget, the rate limiter refines a window
    specification, password guesses are bounded.
  \<^item> Confinement: redirects and downloads stay on public addresses, credentials do not leave
    the origin they were configured for, clients cannot forge their address, private
    responses are not cached, handlers run only behind admission and CSRF checks, adapters
    are metered.
  \<^item> Availability: forwarding always answers, failover follows the ranking, the cache returns
    what was stored and stays within its budget, a round of health checks completes and
    accounts for every source, alerts are prompt and spaced.
  \<^item> Identity: sessions and tokens refine ledgers, codes work once, routing ids are never
    reassigned, an external sign-in is justified by a started flow and an enabled provider, a
    registration link admits one account, a changed password ends every session and sign-in
    that rests on the old one.
  \<^item> Administration: accepted configurations are valid and survive a restart, secrets survive
    the migration, revocation takes effect at once.
  \<^item> Client: the original of a configuration file is never lost, \<open>set\<close> and \<open>reset\<close> are a round
    trip, and every target of the catalog with local configuration is supported.
  \<^item> Below, across components: what the catalog advertises is probed, and served and metered
    under the adapter the probe belongs to.

  \<^bold>\<open>Interfaces.\<close>  Contracts that several components share are locales, interpreted on the
  definitions of each: \<open>expiring_windows\<close> and \<open>window_log\<close> (both limiters), \<open>ip_networks\<close> and
  its pair (the two CIDR implementations), \<open>session_service\<close> (sessions of administrators and
  users, download tokens), \<open>failover\<close> (the two forwarding loops), \<open>usage_table\<close> (billing
  tables), \<open>claim_keeping\<close> and \<open>scope_ledger\<close> (the steps of a response and the three scopes of
  a quota).

  \<^bold>\<open>Loops and bounds.\<close>  Loops over data are structural recursions; the loops with bounds of
  their own keep them: ten redirects in \<open>send_loop\<close>, six hops of a download, sixteen attempts
  for a routing id, the binary search with its measure.  Text replacement and trimming are
  total by the length of the rest.  No definition has fuel beyond these.  Integers that
  saturate or wrap in the code do so here (\<open>sat_add\<close>, \<open>sat_mul\<close>, the clamps to \<open>i64\<close>); other
  counters are unbounded numbers, with the bound of the code as a hypothesis where a
  statement needs it.

  \<^bold>\<open>Parameters.\<close>  Third-party code is a parameter: URL parsing, JSON, TOML, hashing,
  encryption, WebAuthn, the OAuth and OpenID Connect exchanges, DNS, HTTP, SMTP, the clock.
  Hypotheses about them state documented behaviour, and every one is satisfied by the
  concrete functions of a witness.  SQLite is modelled as transactions on tables; its I/O
  failures are not.

  \<^bold>\<open>Not modelled.\<close>  The rewriting of JSON and HTML metadata in the adapters and the token
  exchange with container registries; the ACME protocol and the DNS
  providers; SMTP delivery; the CORS layer; metrics and tracing; static assets; the
  administration web pages.  Of the client, the migration of system package sources
  (system.rs, apt.rs), the interactive setup, the agent and the downloader are left out:
  they edit the formats of nine package managers or drive a terminal, and rest on the same
  file replacement that \<open>Client_Files\<close> models.
\<close>

section \<open>What the catalog advertises is served\<close>

lemma advertised_sources_probed:
  "list_all (\<lambda>s. ts_provider_code s = ''mirrorproxy'' \<longrightarrow> list_ex (\<lambda>p. pb_target p = ts_target_code s
     \<and> decided_target target_tests (trim_end_matches (CHR ''/'') (ts_repo_url s) @ ''/'') = Some (Some (pb_adapter p))
     \<and> proxy_target_for_path (pb_path p) = Some (pb_adapter p)) PROBES) TARGET_SOURCES"
  by code_simp

lemma probes_advertised:
  "list_all (\<lambda>p. list_ex (\<lambda>s. ts_provider_code s = ''mirrorproxy'' \<and> ts_target_code s = pb_target p) TARGET_SOURCES) PROBES"
  by code_simp



end
